(* ===== verification/Prelude.thy ===== *)
theory Prelude
  imports Complex_Main "HOL-Library.AList" "HOL-Library.Word" "HOL-Library.Sublist"
begin

text \<open>
  Shared ground of the development: the parts of Rust's standard library that the modelled
  modules call (string slices, vectors, hash maps, saturating time arithmetic), and the
  generic machinery their proofs share (reachable states of a step relation, books that
  forget a connection).

  A Rust \<open>str\<close> is its UTF-8 encoding: a \<^typ>\<open>string\<close>, one \<^typ>\<open>char\<close> per byte, so
  \<open>str::len\<close> is \<^const>\<open>length\<close>. A \<open>HashMap\<close> or \<open>BTreeMap\<close> is an association list
  with distinct keys, read by \<^const>\<open>map_of\<close>; a \<open>HashSet\<close> is a distinct list.
  An \<open>Instant\<close> or a \<open>Duration\<close> is a number of nanoseconds.
\<close>

named_theorems rust_simps \<open>unfolding of the standard library functions on concrete input\<close>

section \<open>Identifiers, bytes and time\<close>

type_synonym uuid = "128 word"
type_synonym byte = "8 word"
type_synonym instant = nat
type_synonym ('k, 'v) hash_map = "('k \<times> 'v) list"

definition secs :: "nat \<Rightarrow> nat" where
  "secs n = n * 1000000000"

definition millis :: "nat \<Rightarrow> nat" where
  "millis n = n * 1000000"

text \<open>\<open>Instant::duration_since\<close> and \<open>Instant::elapsed\<close> saturate at zero.\<close>

definition duration_since :: "instant \<Rightarrow> instant \<Rightarrow> nat" where
  "duration_since now earlier = now - earlier"

lemmas [rust_simps] = secs_def millis_def duration_since_def

lemma secs_mono [simp]: "secs a \<le> secs b \<longleftrightarrow> a \<le> b"
  by (simp add: secs_def)

section \<open>String slices\<close>

definition starts_with :: "'a list \<Rightarrow> 'a list \<Rightarrow> bool" where
  "starts_with s p \<longleftrightarrow> take (length p) s = p"

definition ends_with :: "'a list \<Rightarrow> 'a list \<Rightarrow> bool" where
  "ends_with s p \<longleftrightarrow> length p \<le> length s \<and> drop (length s - length p) s = p"

definition strip_prefix :: "'a list \<Rightarrow> 'a list \<Rightarrow> 'a list option" where
  "strip_prefix s p = (if starts_with s p then Some (drop (length p) s) else None)"

definition strip_suffix :: "'a list \<Rightarrow> 'a list \<Rightarrow> 'a list option" where
  "strip_suffix s p = (if ends_with s p then Some (take (length s - length p) s) else None)"

text \<open>\<open>str::contains\<close> with a string pattern.\<close>

fun contains_str :: "'a list \<Rightarrow> 'a list \<Rightarrow> bool" where
  "contains_str [] p = (p = [])"
| "contains_str (c # s) p = (starts_with (c # s) p \<or> contains_str s p)"

text \<open>\<open>str::split(c)\<close>: always at least one piece.\<close>

fun split_on :: "'a \<Rightarrow> 'a list \<Rightarrow> 'a list list" where
  "split_on d [] = [[]]"
| "split_on d (c # s) =
     (if c = d then [] # split_on d s
      else (case split_on d s of [] \<Rightarrow> [[c]] | w # ws \<Rightarrow> (c # w) # ws))"

text \<open>\<open>str::split_once(c)\<close>.\<close>

fun split_once :: "'a \<Rightarrow> 'a list \<Rightarrow> ('a list \<times> 'a list) option" where
  "split_once d [] = None"
| "split_once d (c # s) =
     (if c = d then Some ([], s)
      else map_option (\<lambda>(l, r). (c # l, r)) (split_once d s))"

definition trim_start_matches :: "('a \<Rightarrow> bool) \<Rightarrow> 'a list \<Rightarrow> 'a list" where
  "trim_start_matches P s = dropWhile P s"

definition trim_end_matches :: "('a \<Rightarrow> bool) \<Rightarrow> 'a list \<Rightarrow> 'a list" where
  "trim_end_matches P s = rev (dropWhile P (rev s))"

text \<open>\<open>str::trim_end_matches\<close> with a string pattern: removes every copy of it at the end.\<close>

function trim_end_str :: "'a list \<Rightarrow> 'a list \<Rightarrow> 'a list" where
  "trim_end_str p s =
     (if p \<noteq> [] \<and> ends_with s p then trim_end_str p (take (length s - length p) s) else s)"
  by pat_completeness auto
termination
  by (relation "measure (\<lambda>(p, s). length s)") (auto simp: ends_with_def intro!: diff_less)

declare trim_end_str.simps [simp del]

subsection \<open>ASCII classes\<close>

definition ord_of :: "char \<Rightarrow> nat" where
  "ord_of c = of_char c"

definition is_ascii_digit :: "char \<Rightarrow> bool" where
  "is_ascii_digit c \<longleftrightarrow> 48 \<le> ord_of c \<and> ord_of c \<le> 57"

definition is_ascii_lowercase :: "char \<Rightarrow> bool" where
  "is_ascii_lowercase c \<longleftrightarrow> 97 \<le> ord_of c \<and> ord_of c \<le> 122"

definition is_ascii_uppercase :: "char \<Rightarrow> bool" where
  "is_ascii_uppercase c \<longleftrightarrow> 65 \<le> ord_of c \<and> ord_of c \<le> 90"

definition is_ascii_alphanumeric :: "char \<Rightarrow> bool" where
  "is_ascii_alphanumeric c \<longleftrightarrow> is_ascii_digit c \<or> is_ascii_lowercase c \<or> is_ascii_uppercase c"

definition is_lower_hex :: "char \<Rightarrow> bool" where
  "is_lower_hex c \<longleftrightarrow> is_ascii_digit c \<or> (97 \<le> ord_of c \<and> ord_of c \<le> 102)"

definition is_ascii_hexdigit :: "char \<Rightarrow> bool" where
  "is_ascii_hexdigit c \<longleftrightarrow> is_lower_hex c \<or> (65 \<le> ord_of c \<and> ord_of c \<le> 70)"

definition ascii_lower :: "char \<Rightarrow> char" where
  "ascii_lower c = (if is_ascii_uppercase c then char_of (ord_of c + 32) else c)"

definition to_ascii_lowercase :: "string \<Rightarrow> string" where
  "to_ascii_lowercase s = map ascii_lower s"

definition eq_ignore_ascii_case :: "string \<Rightarrow> string \<Rightarrow> bool" where
  "eq_ignore_ascii_case a b \<longleftrightarrow> to_ascii_lowercase a = to_ascii_lowercase b"

lemmas ascii_defs [rust_simps] =
  ord_of_def is_ascii_digit_def is_ascii_lowercase_def is_ascii_uppercase_def
  is_ascii_alphanumeric_def is_lower_hex_def is_ascii_hexdigit_def ascii_lower_def
  to_ascii_lowercase_def eq_ignore_ascii_case_def

subsection \<open>White space and UTF-8\<close>

text \<open>
  The byte length of the white space character (\<open>char::is_whitespace\<close>, Unicode's
  \<open>White_Space\<close>) encoded by the given bytes: U+0009..U+000D and U+0020 are one byte, U+0085
  and U+00A0 two, U+1680, U+2000..U+200A, U+2028, U+2029, U+202F, U+205F and U+3000 three.
  Zero if the bytes encode something else.
\<close>

fun ws_bytes :: "nat list \<Rightarrow> bool" where
  "ws_bytes [a] = ((9 \<le> a \<and> a \<le> 13) \<or> a = 32)"
| "ws_bytes [a, b] = (a = 0xC2 \<and> (b = 0x85 \<or> b = 0xA0))"
| "ws_bytes [a, b, c] =
     ((a = 0xE1 \<and> b = 0x9A \<and> c = 0x80) \<or>
      (a = 0xE2 \<and> b = 0x80 \<and> ((0x80 \<le> c \<and> c \<le> 0x8A) \<or> c = 0xA8 \<or> c = 0xA9 \<or> c = 0xAF)) \<or>
      (a = 0xE2 \<and> b = 0x81 \<and> c = 0x9F) \<or>
      (a = 0xE3 \<and> b = 0x80 \<and> c = 0x80))"
| "ws_bytes _ = False"

definition ws_head :: "string \<Rightarrow> nat" where
  "ws_head s =
     (let b = map ord_of (take 3 s) in
      if ws_bytes (take 1 b) then 1
      else if ws_bytes (take 2 b) then 2
      else if ws_bytes b then 3 else 0)"

definition ws_last :: "string \<Rightarrow> nat" where
  "ws_last s =
     (let b = map ord_of (drop (length s - 3) s) in
      if ws_bytes (drop (length b - 1) b) then 1
      else if ws_bytes (drop (length b - 2) b) then 2
      else if ws_bytes b then 3 else 0)"

lemma ws_bytes_length: "ws_bytes b \<Longrightarrow> b \<noteq> []"
  by (cases b) auto

function trim_start :: "string \<Rightarrow> string" where
  "trim_start s = (if s = [] \<or> ws_head s = 0 then s else trim_start (drop (ws_head s) s))"
  by pat_completeness auto
termination
  by (relation "measure length") auto

function trim_end :: "string \<Rightarrow> string" where
  "trim_end s =
     (if s = [] \<or> ws_last s = 0 then s else trim_end (take (length s - ws_last s) s))"
  by pat_completeness auto
termination
  by (relation "measure length") auto

declare trim_start.simps [simp del] trim_end.simps [simp del]

definition trim_str :: "string \<Rightarrow> string" where
  "trim_str s = trim_end (trim_start s)"

text \<open>Whether some character of the string is white space.\<close>

fun has_whitespace :: "string \<Rightarrow> bool" where
  "has_whitespace [] = False"
| "has_whitespace (c # s) = (ws_head (c # s) \<noteq> 0 \<or> has_whitespace s)"

text \<open>
  Whether some character is a control character (\<open>char::is_control\<close>): U+0000..U+001F,
  U+007F and, in two bytes, U+0080..U+009F.
\<close>

fun has_control :: "string \<Rightarrow> bool" where
  "has_control [] = False"
| "has_control (c # s) =
     (ord_of c < 32 \<or> ord_of c = 127 \<or>
      (ord_of c = 0xC2 \<and> s \<noteq> [] \<and> 0x80 \<le> ord_of (hd s) \<and> ord_of (hd s) \<le> 0x9F) \<or>
      has_control s)"

text \<open>\<open>std::str::from_utf8\<close> accepts exactly the well-formed byte sequences.\<close>

definition is_cont :: "nat \<Rightarrow> bool" where
  "is_cont b \<longleftrightarrow> 0x80 \<le> b \<and> b \<le> 0xBF"

fun utf8_ok :: "nat list \<Rightarrow> bool" where
  "utf8_ok [] = True"
| "utf8_ok (a # r) =
     (if a < 0x80 then utf8_ok r
      else case r of
        [] \<Rightarrow> False
      | b # r1 \<Rightarrow>
          if 0xC2 \<le> a \<and> a \<le> 0xDF then is_cont b \<and> utf8_ok r1
          else case r1 of
            [] \<Rightarrow> False
          | c # r2 \<Rightarrow>
              if 0xE0 \<le> a \<and> a \<le> 0xEF then
                is_cont c \<and> is_cont b \<and> (a = 0xE0 \<longrightarrow> 0xA0 \<le> b) \<and> (a = 0xED \<longrightarrow> b \<le> 0x9F)
                \<and> utf8_ok r2
              else case r2 of
                [] \<Rightarrow> False
              | d # r3 \<Rightarrow>
                  0xF0 \<le> a \<and> a \<le> 0xF4 \<and> is_cont b \<and> is_cont c \<and> is_cont d
                  \<and> (a = 0xF0 \<longrightarrow> 0x90 \<le> b) \<and> (a = 0xF4 \<longrightarrow> b \<le> 0x8F) \<and> utf8_ok r3)"

definition from_utf8 :: "byte list \<Rightarrow> string option" where
  "from_utf8 bs = (if utf8_ok (map unat bs) then Some (map (\<lambda>b. char_of (unat b)) bs) else None)"

section \<open>Lemmas on string slices\<close>

lemma starts_with_iff_prefix: "starts_with s p \<longleftrightarrow> prefix p s"
  unfolding starts_with_def by (metis append_eq_conv_conj append_take_drop_id prefix_def)

lemma starts_with_append [simp]: "starts_with (p @ s) p"
  by (simp add: starts_with_def)

lemma starts_with_Nil [simp]: "starts_with s []"
  by (simp add: starts_with_def)

lemma starts_with_Cons_Cons [simp]: "starts_with (a # s) (b # p) \<longleftrightarrow> a = b \<and> starts_with s p"
  by (simp add: starts_with_def)

lemma starts_with_Nil_Cons [simp]: "\<not> starts_with [] (b # p)"
  by (simp add: starts_with_def)

lemma starts_withE:
  assumes "starts_with s p"
  obtains r where "s = p @ r"
  using assms unfolding starts_with_iff_prefix by (auto elim: prefixE)

lemma starts_with_trans: "starts_with a b \<Longrightarrow> starts_with b c \<Longrightarrow> starts_with a c"
  unfolding starts_with_iff_prefix by (rule prefix_order.trans)

lemma ends_with_iff_suffix: "ends_with s p \<longleftrightarrow> suffix p s"
proof
  assume "ends_with s p"
  then have "s = take (length s - length p) s @ p"
    unfolding ends_with_def by (metis append_take_drop_id)
  then show "suffix p s" by (auto simp: suffix_def)
next
  assume "suffix p s"
  then show "ends_with s p" by (auto simp: suffix_def ends_with_def)
qed

lemma ends_with_append [simp]: "ends_with (s @ p) p"
  by (simp add: ends_with_def)

lemma strip_prefix_Some: "strip_prefix s p = Some r \<longleftrightarrow> s = p @ r"
  by (auto simp: strip_prefix_def elim: starts_withE)

lemma strip_suffix_Some: "strip_suffix s p = Some r \<longleftrightarrow> s = r @ p"
  by (auto simp: strip_suffix_def ends_with_iff_suffix suffix_def)

lemma split_once_Some:
  "split_once d s = Some (l, r) \<longleftrightarrow> s = l @ d # r \<and> d \<notin> set l"
proof (induction s arbitrary: l)
  case Nil
  show ?case by simp
next
  case (Cons c s)
  show ?case
  proof (cases l)
    case Nil
    then show ?thesis by auto
  next
    case (Cons x l')
    with Cons.IH [of l'] show ?thesis by auto
  qed
qed

lemma split_once_None: "split_once d s = None \<longleftrightarrow> d \<notin> set s"
  by (induction s) auto

lemma contains_str_iff: "contains_str s p \<longleftrightarrow> (\<exists>l r. s = l @ p @ r)"
proof (induction s)
  case Nil
  show ?case by auto
next
  case (Cons c s)
  show ?case
  proof
    assume "contains_str (c # s) p"
    then consider "starts_with (c # s) p" | "contains_str s p" by auto
    then show "\<exists>l r. c # s = l @ p @ r"
    proof cases
      case 1
      then obtain r where "c # s = p @ r" by (rule starts_withE)
      then have "c # s = [] @ p @ r" by simp
      then show ?thesis by blast
    next
      case 2
      with Cons.IH obtain l r where "s = l @ p @ r" by blast
      then have "c # s = (c # l) @ p @ r" by simp
      then show ?thesis by blast
    qed
  next
    assume "\<exists>l r. c # s = l @ p @ r"
    then obtain l r where e: "c # s = l @ p @ r" by blast
    show "contains_str (c # s) p"
    proof (cases l)
      case Nil
      with e have "c # s = p @ r" by simp
      then have "starts_with (c # s) p" by simp
      then show ?thesis by simp
    next
      case (Cons x l')
      with e have "s = l' @ p @ r" by simp
      with Cons.IH show ?thesis by auto
    qed
  qed
qed

lemma trim_start_suffix: "suffix (trim_start s) s"
proof (induction s rule: trim_start.induct)
  case (1 s)
  show ?case
  proof (cases "s = [] \<or> ws_head s = 0")
    case True
    then show ?thesis by (auto simp: trim_start.simps [of s])
  next
    case False
    then have "suffix (trim_start (drop (ws_head s) s)) (drop (ws_head s) s)"
      using 1 by (auto simp only: not_False_eq_True)
    with False show ?thesis
      by (auto simp: trim_start.simps [of s] intro: suffix_order.trans suffix_drop)
  qed
qed

lemma trim_end_prefix: "prefix (trim_end s) s"
proof (induction s rule: trim_end.induct)
  case (1 s)
  show ?case
  proof (cases "s = [] \<or> ws_last s = 0")
    case True
    then show ?thesis by (auto simp: trim_end.simps [of s])
  next
    case False
    then have "prefix (trim_end (take (length s - ws_last s) s)) (take (length s - ws_last s) s)"
      using 1 by (auto simp only: not_False_eq_True)
    with False show ?thesis
      by (auto simp: trim_end.simps [of s] intro: prefix_order.trans take_is_prefix)
  qed
qed

lemma trim_str_sublist: "sublist (trim_str s) s"
proof -
  have "sublist (trim_str s) (trim_start s)"
    unfolding trim_str_def by (rule prefix_imp_sublist [OF trim_end_prefix])
  moreover have "sublist (trim_start s) s"
    by (rule suffix_imp_sublist [OF trim_start_suffix])
  ultimately show ?thesis by (rule sublist_order.order.trans)
qed

lemma set_trim_str: "set (trim_str s) \<subseteq> set s"
  by (rule set_mono_sublist [OF trim_str_sublist])

lemma length_trim_str: "length (trim_str s) \<le> length s"
  by (rule sublist_length_le [OF trim_str_sublist])

lemma length_to_ascii_lowercase [simp]: "length (to_ascii_lowercase s) = length s"
  by (simp add: to_ascii_lowercase_def)

section \<open>Vectors and hash maps\<close>

text \<open>\<open>Vec::retain\<close> keeps order; \<open>Iterator::find\<close> returns the first match.\<close>

definition retain :: "('a \<Rightarrow> bool) \<Rightarrow> 'a list \<Rightarrow> 'a list" where
  "retain P xs = filter P xs"

text \<open>\<open>iter_mut().find(p)\<close> followed by an update of the element found: only the first match.\<close>

fun update_first :: "('a \<Rightarrow> bool) \<Rightarrow> ('a \<Rightarrow> 'a) \<Rightarrow> 'a list \<Rightarrow> 'a list" where
  "update_first P f [] = []"
| "update_first P f (x # xs) = (if P x then f x # xs else x # update_first P f xs)"

definition contains_key :: "('k, 'v) hash_map \<Rightarrow> 'k \<Rightarrow> bool" where
  "contains_key m k \<longleftrightarrow> map_of m k \<noteq> None"

abbreviation keys_distinct :: "('k, 'v) hash_map \<Rightarrow> bool" where
  "keys_distinct m \<equiv> distinct (map fst m)"

lemma contains_key_iff: "contains_key m k \<longleftrightarrow> k \<in> fst ` set m"
  by (force simp: contains_key_def map_of_eq_None_iff)

lemma retain_simps [simp]:
  "set (retain P xs) = {x \<in> set xs. P x}"
  "length (retain P xs) \<le> length xs"
  "distinct xs \<Longrightarrow> distinct (retain P xs)"
  by (auto simp: retain_def)

lemma distinct_map_retain: "distinct (map f xs) \<Longrightarrow> distinct (map f (retain P xs))"
  by (simp add: retain_def distinct_map_filter)

lemma map_update_first: "(\<And>x. g (f x) = g x) \<Longrightarrow> map g (update_first P f xs) = map g xs"
  by (induction xs) auto

lemma length_update_first [simp]: "length (update_first P f xs) = length xs"
  by (induction xs) auto

lemma in_update_firstE:
  assumes "y \<in> set (update_first P f xs)"
  obtains "y \<in> set xs" | x where "x \<in> set xs" and "P x" and "y = f x"
  using assms by (induction xs) (auto split: if_splits)

lemma map_of_filter_fst:
  "map_of (filter (\<lambda>p. Q (fst p)) m) k = (if Q k then map_of m k else None)"
  by (induction m) auto

lemma map_of_distinct_in: "keys_distinct m \<Longrightarrow> (k, v) \<in> set m \<Longrightarrow> map_of m k = Some v"
  by simp

lemma keys_distinct_filter [simp]: "keys_distinct m \<Longrightarrow> keys_distinct (filter P m)"
  by (rule distinct_map_filter)

lemma length_AList_update:
  "length (AList.update k v m) = (if contains_key m k then length m else Suc (length m))"
  by (induction m) (auto simp: contains_key_def)

lemma length_AList_delete [simp]: "length (AList.delete k m) \<le> length m"
  by (simp add: AList.delete_eq)

lemma set_AList_update_subset: "set (AList.update k v m) \<subseteq> insert (k, v) (set m)"
  by (induction m) auto

lemma in_set_AList_delete: "x \<in> set (AList.delete k m) \<longleftrightarrow> x \<in> set m \<and> fst x \<noteq> k"
  by (auto simp: AList.delete_eq)

section \<open>Reachable states\<close>

text \<open>
  The states a component reaches from its initial states by its own steps. A step relation
  carries the choices the environment makes: which handler runs next, the clock, the fresh
  identifiers, the parsed message.
\<close>

inductive reaches :: "('s \<Rightarrow> 's \<Rightarrow> bool) \<Rightarrow> 's \<Rightarrow> 's \<Rightarrow> bool" for R where
  reaches_refl: "reaches R s s"
| reaches_step: "reaches R s t \<Longrightarrow> R t u \<Longrightarrow> reaches R s u"

inductive_cases reaches_reflE: "reaches R s s"

lemma reaches_trans: "reaches R t u \<Longrightarrow> reaches R s t \<Longrightarrow> reaches R s u"
  by (induction rule: reaches.induct) (auto intro: reaches.intros)

lemma reaches_one: "R s t \<Longrightarrow> reaches R s t"
  by (blast intro: reaches.intros)

text \<open>
  The contract between a component's handlers and the safety properties clients rely on: the
  initial state is well formed and every step keeps it so.
\<close>

locale invariant_system =
  fixes step :: "'s \<Rightarrow> 's \<Rightarrow> bool"
    and inv :: "'s \<Rightarrow> bool"
  assumes step_inv: "inv s \<Longrightarrow> step s t \<Longrightarrow> inv t"
begin

lemma reaches_inv: "reaches step s t \<Longrightarrow> inv s \<Longrightarrow> inv t"
  by (induction rule: reaches.induct) (auto intro: step_inv)

text \<open>A fact that every step keeps, given the invariant, is kept by every run.\<close>

lemma reaches_stable:
  assumes "reaches step s t" and "inv s" and "Q s"
    and "\<And>a b. inv a \<Longrightarrow> Q a \<Longrightarrow> step a b \<Longrightarrow> Q b"
  shows "Q t"
  using assms
proof (induction rule: reaches.induct)
  case (reaches_refl s)
  then show ?case by simp
next
  case (reaches_step s t u)
  then show ?case using reaches_inv by blast
qed

end

text \<open>
  A book of per-connection entries. Leaving forgets the connection and touches nobody else;
  the three books of a tab share (control, explore, video) all promise this.
\<close>

locale connection_book =
  fixes leave :: "'c \<Rightarrow> 'b \<Rightarrow> 'b"
    and mentions :: "'b \<Rightarrow> 'c \<Rightarrow> bool"
  assumes leave_forgets: "\<not> mentions (leave c b) c"
    and leave_keeps: "c' \<noteq> c \<Longrightarrow> mentions (leave c b) c' = mentions b c'"
begin

lemma fold_leave_mentions:
  "mentions (fold leave cs b) c \<longleftrightarrow> mentions b c \<and> c \<notin> set cs"
proof (induction cs arbitrary: b)
  case Nil
  show ?case by simp
next
  case (Cons d cs)
  show ?case
    using Cons.IH [of "leave d b"] leave_forgets leave_keeps by (cases "c = d") auto
qed

lemma leave_idem_mentions: "mentions (leave c (leave c b)) d = mentions (leave c b) d"
  using leave_forgets leave_keeps by metis

end

end
