(* ===== verification/Json.thy ===== *)
theory Json
  imports Prelude "HOL-Library.List_Lexorder" "HOL-Library.Char_ord"
begin

text \<open>
  JSON values as the services read and build them (\<open>serde_json::Value\<close>), and the floating
  point numbers they carry. A JSON object is a map with its keys in byte order, so it is an
  association list sorted by key: \<open>Value::get\<close> is \<open>obj_get\<close>, \<open>Map::insert\<close> is
  \<open>obj_insert\<close>. Parsing text into a value and printing a value back are the library's; a
  model that needs them takes them as arguments.
\<close>

section \<open>Floating point numbers\<close>

datatype f64 = F64_NaN | F64_Inf bool \<comment> \<open>negative?\<close> | F64_Fin rat

instantiation f64 :: ord
begin

fun less_eq_f64 :: "f64 \<Rightarrow> f64 \<Rightarrow> bool" where
  "less_eq_f64 F64_NaN _ = False"
| "less_eq_f64 _ F64_NaN = False"
| "less_eq_f64 (F64_Inf True) _ = True"
| "less_eq_f64 (F64_Inf False) y = (y = F64_Inf False)"
| "less_eq_f64 (F64_Fin a) (F64_Inf n) = (\<not> n)"
| "less_eq_f64 (F64_Fin a) (F64_Fin b) = (a \<le> b)"

definition less_f64 :: "f64 \<Rightarrow> f64 \<Rightarrow> bool" where
  "less_f64 x y \<longleftrightarrow> x \<le> y \<and> \<not> y \<le> x"

instance ..

end

fun is_finite :: "f64 \<Rightarrow> bool" where
  "is_finite (F64_Fin _) = True"
| "is_finite _ = False"

fun f64_abs :: "f64 \<Rightarrow> f64" where
  "f64_abs (F64_Fin r) = F64_Fin \<bar>r\<bar>"
| "f64_abs (F64_Inf _) = F64_Inf False"
| "f64_abs F64_NaN = F64_NaN"

definition f64_in_range :: "rat \<Rightarrow> rat \<Rightarrow> f64 \<Rightarrow> bool" where
  "f64_in_range lo hi x \<longleftrightarrow> F64_Fin lo \<le> x \<and> x \<le> F64_Fin hi"

lemma f64_in_range_iff: "f64_in_range lo hi x \<longleftrightarrow> (\<exists>r. x = F64_Fin r \<and> lo \<le> r \<and> r \<le> hi)"
proof (cases x)
  case (F64_Inf b)
  then show ?thesis by (cases b) (auto simp: f64_in_range_def)
qed (auto simp: f64_in_range_def)

section \<open>Values\<close>

datatype jnum = PosInt nat | NegInt int | JFloat f64

datatype json =
    JNull
  | JBool bool
  | JNum jnum
  | JStr string
  | JArr "json list"
  | JObj "(string \<times> json) list"

type_synonym jobject = "(string \<times> json) list"

fun as_str :: "json \<Rightarrow> string option" where
  "as_str (JStr s) = Some s"
| "as_str _ = None"

fun as_object :: "json \<Rightarrow> jobject option" where
  "as_object (JObj m) = Some m"
| "as_object _ = None"

text \<open>\<open>Number::as_i64\<close>: an unsigned number above the signed range has none, nor has a float.\<close>

fun as_i64 :: "jnum \<Rightarrow> int option" where
  "as_i64 (PosInt n) = (if int n < 2 ^ 63 then Some (int n) else None)"
| "as_i64 (NegInt i) = Some i"
| "as_i64 (JFloat _) = None"

abbreviation obj_get :: "jobject \<Rightarrow> string \<Rightarrow> json option" where
  "obj_get m k \<equiv> map_of m k"

definition value_get :: "json \<Rightarrow> string \<Rightarrow> json option" where
  "value_get v k = (case v of JObj m \<Rightarrow> obj_get m k | _ \<Rightarrow> None)"

fun obj_insert :: "string \<Rightarrow> json \<Rightarrow> jobject \<Rightarrow> jobject" where
  "obj_insert k v [] = [(k, v)]"
| "obj_insert k v ((a, b) # m) =
     (if k < a then (k, v) # (a, b) # m
      else if k = a then (k, v) # m
      else (a, b) # obj_insert k v m)"

lemma obj_get_insert [simp]: "obj_get (obj_insert k v m) k' = (if k' = k then Some v else obj_get m k')"
  by (induction m) auto

definition obj_of_list :: "(string \<times> json) list \<Rightarrow> jobject" where
  "obj_of_list kvs = foldl (\<lambda>m (k, v). obj_insert k v m) [] kvs"

definition obj_sorted :: "jobject \<Rightarrow> bool" where
  "obj_sorted m \<longleftrightarrow> sorted_wrt (<) (map fst m)"

lemma set_obj_insert: "fst ` set (obj_insert k v m) = insert k (fst ` set m)"
  by (induction k v m rule: obj_insert.induct) (simp_all add: insert_commute)

lemma obj_sorted_insert: "obj_sorted m \<Longrightarrow> obj_sorted (obj_insert k v m)"
proof (induction m)
  case Nil
  show ?case by (simp add: obj_sorted_def)
next
  case (Cons p m)
  obtain a b where p: "p = (a, b)" by (cases p)
  from Cons.prems have s: "obj_sorted m" and lt: "\<forall>x \<in> fst ` set m. a < x"
    by (auto simp: obj_sorted_def p)
  from Cons.IH [OF s] have IH: "obj_sorted (obj_insert k v m)" .
  consider "k < a" | "k = a" | "a < k" by force
  then show ?case
  proof cases
    case 1
    with s lt show ?thesis by (auto simp: obj_sorted_def p)
  next
    case 2
    with s lt show ?thesis by (auto simp: obj_sorted_def p)
  next
    case 3
    then have "obj_insert k v (p # m) = (a, b) # obj_insert k v m" by (auto simp: p)
    moreover have "\<forall>x \<in> fst ` set (obj_insert k v m). a < x"
      using lt 3 by (simp add: set_obj_insert)
    ultimately show ?thesis using IH by (auto simp: obj_sorted_def)
  qed
qed

lemma obj_sorted_distinct: "obj_sorted m \<Longrightarrow> distinct (map fst m)"
  unfolding obj_sorted_def using strict_sorted_iff by blast

end
