(* ===== verification/Browser_Control.thy ===== *)
theory Browser_Control
  imports Json
begin

text \<open>
  Control of a shared tab (\<open>runtime-controller/src/browser_shares/control.rs\<close>): the input a
  viewer may send, the commands of the control protocol, and the control state of one share:
  at most one grant, the open requests and a bounded queue of inputs for the publisher.
\<close>

section \<open>Channels\<close>

text \<open>
  A bounded \<open>tokio::sync::mpsc\<close> channel: \<open>try_send\<close> fails when the queue is full or the
  receiver is gone.
\<close>

record 'a channel =
  ch_queue :: "'a list"
  ch_closed :: bool

definition channel_capacity :: nat where
  "channel_capacity = 32"

definition new_channel :: "'a channel" where
  "new_channel = \<lparr>ch_queue = [], ch_closed = False\<rparr>"

definition try_send :: "'a \<Rightarrow> 'a channel \<Rightarrow> 'a channel option" where
  "try_send x ch =
     (if ch_closed ch \<or> channel_capacity \<le> length (ch_queue ch) then None
      else Some (ch\<lparr>ch_queue := ch_queue ch @ [x]\<rparr>))"

lemma try_send_bounded:
  "try_send x ch = Some ch' \<Longrightarrow> length (ch_queue ch') \<le> channel_capacity"
  by (auto simp: try_send_def split: if_splits)

lemma try_send_queue: "try_send x ch = Some ch' \<Longrightarrow> ch_queue ch' = ch_queue ch @ [x]"
  by (auto simp: try_send_def split: if_splits)

section \<open>Input\<close>

datatype tab_input =
    Click f64 f64
  | Wheel f64 f64 f64 f64
  | TextInput string
  | Key string bool

definition tab_point :: "f64 \<Rightarrow> f64 \<Rightarrow> bool" where
  "tab_point x y \<longleftrightarrow> f64_in_range 0 1 x \<and> f64_in_range 0 1 y"

definition tab_keys :: "string list" where
  "tab_keys =
     [''Backspace'', ''Delete'', ''Tab'', ''Enter'', ''ArrowLeft'', ''ArrowRight'', ''ArrowUp'',
      ''ArrowDown'', ''Home'', ''End'', ''PageUp'', ''PageDown'', ''SelectAll'']"

fun tab_input_valid :: "tab_input \<Rightarrow> bool" where
  "tab_input_valid (Click x y) = tab_point x y"
| "tab_input_valid (Wheel x y delta_x delta_y) =
     (tab_point x y \<and> is_finite delta_x \<and> is_finite delta_y
      \<and> f64_abs delta_x \<le> F64_Fin 4096 \<and> f64_abs delta_y \<le> F64_Fin 4096)"
| "tab_input_valid (TextInput text) =
     (text \<noteq> [] \<and> length text \<le> 8192 \<and> CHR 0x00 \<notin> set text)"
| "tab_input_valid (Key key shift) = (key \<in> set tab_keys)"

datatype control_command =
    RequestControl
  | ReleaseControl
  | GrantControl (gc_connection_id: uuid) (gc_grant_id: uuid)
  | DenyControl (dc_connection_id: uuid)
  | ControlInput (cmd_grant_id: uuid) (cmd_input: tab_input)

section \<open>State\<close>

record grant =
  g_id :: uuid
  g_connection_id :: uuid
  g_user_id :: uuid

record control_request =
  cr_connection_id :: uuid
  cr_user_id :: uuid

record control_snapshot =
  c_available :: bool
  c_grant :: "grant option"
  c_requests :: "control_request list"

record control_input =
  ci_kind :: string
  ci_grant_id :: uuid
  ci_input :: tab_input

record control =
  control_state :: control_snapshot
  control_queue :: "control_input channel"
  control_receiver :: bool \<comment> \<open>not yet taken by the publisher\<close>

definition control_snapshot_default :: control_snapshot where
  "control_snapshot_default = \<lparr>c_available = False, c_grant = None, c_requests = []\<rparr>"

definition control_default :: control where
  "control_default =
     \<lparr>control_state = control_snapshot_default, control_queue = new_channel,
      control_receiver = True\<rparr>"

text \<open>\<open>Control::leave\<close>: the connection's request and its grant go.\<close>

definition control_leave :: "uuid \<Rightarrow> control \<Rightarrow> control" where
  "control_leave connection c =
     (let s = control_state c;
          s = s\<lparr>c_requests := retain (\<lambda>r. cr_connection_id r \<noteq> connection) (c_requests s)\<rparr>;
          s = (case c_grant s of
                 Some g \<Rightarrow> if g_connection_id g = connection then s\<lparr>c_grant := None\<rparr> else s
               | None \<Rightarrow> s)
      in c\<lparr>control_state := s\<rparr>)"

section \<open>What a peer is shown\<close>

definition grant_json :: "(uuid \<Rightarrow> string) \<Rightarrow> grant option \<Rightarrow> json" where
  "grant_json show_uuid g =
     (case g of None \<Rightarrow> JNull
      | Some g \<Rightarrow> JObj (obj_of_list
          [(''id'', JStr (show_uuid (g_id g))),
           (''connectionId'', JStr (show_uuid (g_connection_id g))),
           (''userId'', JStr (show_uuid (g_user_id g)))]))"

definition control_request_json :: "(uuid \<Rightarrow> string) \<Rightarrow> control_request \<Rightarrow> json" where
  "control_request_json show_uuid r =
     JObj (obj_of_list
       [(''connectionId'', JStr (show_uuid (cr_connection_id r))),
        (''userId'', JStr (show_uuid (cr_user_id r)))])"

text \<open>\<open>Snapshot::message\<close>: the state as one connection sees it; the requests of the
  audience go to the publisher only.\<close>

definition control_snapshot_message ::
    "(uuid \<Rightarrow> string) \<Rightarrow> control_snapshot \<Rightarrow> uuid \<Rightarrow> bool \<Rightarrow> json" where
  "control_snapshot_message show_uuid s connection publisher =
     (let value = obj_of_list
            [(''type'', JStr ''controlState''), (''available'', JBool (c_available s)),
             (''connectionId'', JStr (show_uuid connection)),
             (''grant'', grant_json show_uuid (c_grant s)),
             (''requested'', JBool (\<exists>r \<in> set (c_requests s). cr_connection_id r = connection))]
      in JObj (if publisher
               then obj_insert ''requests'' (JArr (map (control_request_json show_uuid) (c_requests s))) value
               else value))"

section \<open>Leaving\<close>

definition control_mentions :: "control \<Rightarrow> uuid \<Rightarrow> bool" where
  "control_mentions c connection \<longleftrightarrow>
     (\<exists>r \<in> set (c_requests (control_state c)). cr_connection_id r = connection) \<or>
     (\<exists>g. c_grant (control_state c) = Some g \<and> g_connection_id g = connection)"

interpretation control_book: connection_book control_leave control_mentions
  by unfold_locales
    (auto simp: control_leave_def control_mentions_def Let_def split: option.splits)

lemma control_leave_simps [simp]:
  "c_available (control_state (control_leave k c)) = c_available (control_state c)"
  "control_queue (control_leave k c) = control_queue c"
  "control_receiver (control_leave k c) = control_receiver c"
  "c_requests (control_state (control_leave k c))
     = retain (\<lambda>r. cr_connection_id r \<noteq> k) (c_requests (control_state c))"
  by (simp_all add: control_leave_def Let_def split: option.splits)

lemma control_leave_grant:
  "c_grant (control_state (control_leave k c)) = Some g \<longleftrightarrow>
     c_grant (control_state c) = Some g \<and> g_connection_id g \<noteq> k"
  by (auto simp: control_leave_def Let_def split: option.splits)

end
