(* ===== verification/Browser_Explore.thy ===== *)
theory Browser_Explore
  imports Browser_Control
begin

text \<open>
  Explore views of a shared tab (\<open>runtime-controller/src/browser_shares/explore.rs\<close>): a
  viewer asks for a page of their own in the host's browser, the owner approves it, and its
  frames reach that connection only. The state of one share: the open requests, the views, the
  private frame feed of every connection and a bounded queue of actions for the publisher.
\<close>

datatype feed = Live "byte list option" | Stopped

record viewport =
  vp_width :: "32 word"
  vp_height :: "32 word"
  vp_dpr :: f64

definition viewport_valid :: "viewport \<Rightarrow> bool" where
  "viewport_valid v \<longleftrightarrow>
     240 \<le> vp_width v \<and> vp_width v \<le> 1920 \<and> 160 \<le> vp_height v \<and> vp_height v \<le> 1440
     \<and> is_finite (vp_dpr v) \<and> f64_in_range 1 3 (vp_dpr v)"

record explore_request =
  er_connection_id :: uuid
  er_user_id :: uuid
  er_viewport :: viewport

record view =
  v_view_id :: uuid
  v_connection_id :: uuid
  v_user_id :: uuid
  v_viewport :: viewport

record explore_snapshot =
  e_available :: bool
  e_requests :: "explore_request list"
  e_views :: "view list"

datatype explore_command =
    ExploreRequest viewport
  | ExploreReturn
  | ExploreApprove (ea_connection_id: uuid) (ea_view_id: uuid)
  | ExploreDeny uuid
  | ExploreClose uuid
  | ExploreResize uuid viewport
  | ExploreInput uuid tab_input
  | ExploreNavigate uuid string

datatype explore_action =
    ActInput uuid tab_input
  | ActNavigate uuid string

fun action_id :: "explore_action \<Rightarrow> uuid" where
  "action_id (ActInput view_id _) = view_id"
| "action_id (ActNavigate view_id _) = view_id"

record explore =
  explore_state :: explore_snapshot
  explore_frames :: "(uuid, feed) hash_map"
  explore_queue :: "explore_action channel"
  explore_receiver :: bool
  explore_last_frames :: "(uuid, instant) hash_map"

definition explore_default :: explore where
  "explore_default =
     \<lparr>explore_state = \<lparr>e_available = False, e_requests = [], e_views = []\<rparr>,
      explore_frames = [], explore_queue = new_channel, explore_receiver = True,
      explore_last_frames = []\<rparr>"

definition explore_view_id :: "explore \<Rightarrow> uuid \<Rightarrow> uuid option" where
  "explore_view_id e connection =
     map_option v_view_id
       (List.find (\<lambda>v. v_connection_id v = connection) (e_views (explore_state e)))"

definition explore_join :: "uuid \<Rightarrow> explore \<Rightarrow> explore" where
  "explore_join connection e =
     e\<lparr>explore_frames := AList.update connection (Live None) (explore_frames e)\<rparr>"

definition explore_is_active :: "explore \<Rightarrow> uuid \<Rightarrow> bool" where
  "explore_is_active e connection \<longleftrightarrow>
     (\<exists>v \<in> set (e_views (explore_state e)). v_connection_id v = connection)"

text \<open>\<open>Explore::clear\<close>: the connection's request and view go, the time of the view's last
  frame is forgotten and the connection's private feed shows nothing.\<close>

definition explore_clear :: "uuid \<Rightarrow> explore \<Rightarrow> explore" where
  "explore_clear connection e =
     (let state = explore_state e;
          gone = filter (\<lambda>v. v_connection_id v = connection) (e_views state);
          state = state\<lparr>
            e_requests := retain (\<lambda>r. er_connection_id r \<noteq> connection) (e_requests state),
            e_views := retain (\<lambda>v. v_connection_id v \<noteq> connection) (e_views state)\<rparr>
      in e\<lparr>explore_state := state,
           explore_last_frames :=
             fold (\<lambda>v m. AList.delete (v_view_id v) m) gone (explore_last_frames e),
           explore_frames :=
             (if contains_key (explore_frames e) connection
              then AList.update connection (Live None) (explore_frames e)
              else explore_frames e)\<rparr>)"

definition explore_leave :: "uuid \<Rightarrow> explore \<Rightarrow> explore" where
  "explore_leave connection e =
     (let e = explore_clear connection e
      in e\<lparr>explore_frames := AList.delete connection (explore_frames e)\<rparr>)"

section \<open>What a peer is shown\<close>

definition viewport_json :: "viewport \<Rightarrow> json" where
  "viewport_json v =
     JObj (obj_of_list
       [(''width'', JNum (PosInt (unat (vp_width v)))),
        (''height'', JNum (PosInt (unat (vp_height v)))),
        (''dpr'', JNum (JFloat (vp_dpr v)))])"

definition explore_request_json :: "(uuid \<Rightarrow> string) \<Rightarrow> explore_request \<Rightarrow> json" where
  "explore_request_json show_uuid r =
     JObj (obj_of_list
       [(''connectionId'', JStr (show_uuid (er_connection_id r))),
        (''userId'', JStr (show_uuid (er_user_id r))),
        (''viewport'', viewport_json (er_viewport r))])"

definition view_json :: "(uuid \<Rightarrow> string) \<Rightarrow> view \<Rightarrow> json" where
  "view_json show_uuid v =
     JObj (obj_of_list
       [(''viewId'', JStr (show_uuid (v_view_id v))),
        (''connectionId'', JStr (show_uuid (v_connection_id v))),
        (''userId'', JStr (show_uuid (v_user_id v))),
        (''viewport'', viewport_json (v_viewport v))])"

definition explore_snapshot_message ::
    "(uuid \<Rightarrow> string) \<Rightarrow> explore_snapshot \<Rightarrow> uuid \<Rightarrow> bool \<Rightarrow> json" where
  "explore_snapshot_message show_uuid s connection publisher =
     (let value = obj_of_list
            [(''type'', JStr ''exploreState''), (''available'', JBool (e_available s)),
             (''requested'', JBool (\<exists>r \<in> set (e_requests s). er_connection_id r = connection)),
             (''view'', (case List.find (\<lambda>v. v_connection_id v = connection) (e_views s) of
                           None \<Rightarrow> JNull | Some v \<Rightarrow> view_json show_uuid v))]
      in JObj (if publisher
               then obj_insert ''views'' (JArr (map (view_json show_uuid) (e_views s)))
                      (obj_insert ''requests''
                         (JArr (map (explore_request_json show_uuid) (e_requests s))) value)
               else value))"

section \<open>Leaving\<close>

definition explore_mentions :: "explore \<Rightarrow> uuid \<Rightarrow> bool" where
  "explore_mentions e connection \<longleftrightarrow>
     (\<exists>r \<in> set (e_requests (explore_state e)). er_connection_id r = connection) \<or>
     (\<exists>v \<in> set (e_views (explore_state e)). v_connection_id v = connection) \<or>
     contains_key (explore_frames e) connection"

lemma explore_clear_simps [simp]:
  "e_available (explore_state (explore_clear k e)) = e_available (explore_state e)"
  "e_requests (explore_state (explore_clear k e))
     = retain (\<lambda>r. er_connection_id r \<noteq> k) (e_requests (explore_state e))"
  "e_views (explore_state (explore_clear k e))
     = retain (\<lambda>v. v_connection_id v \<noteq> k) (e_views (explore_state e))"
  "explore_queue (explore_clear k e) = explore_queue e"
  "explore_receiver (explore_clear k e) = explore_receiver e"
  by (simp_all add: explore_clear_def Let_def)

lemma explore_leave_simps [simp]:
  "explore_state (explore_leave k e) = explore_state (explore_clear k e)"
  "explore_queue (explore_leave k e) = explore_queue e"
  "explore_receiver (explore_leave k e) = explore_receiver e"
  by (simp_all add: explore_leave_def Let_def)

lemma explore_leave_frames:
  "contains_key (explore_frames (explore_leave k e)) c \<longleftrightarrow>
     c \<noteq> k \<and> contains_key (explore_frames e) c"
  by (auto simp: explore_leave_def explore_clear_def Let_def contains_key_def
      AList.update_conv' AList.delete_conv')

interpretation explore_book: connection_book explore_leave explore_mentions
  by unfold_locales (auto simp: explore_mentions_def explore_leave_frames)

lemma find_key_unique:
  assumes "distinct (map f xs)" and "x \<in> set xs"
  shows "List.find (\<lambda>y. f y = f x) xs = Some x"
  using assms by (induction xs) (auto simp: image_iff)

lemma explore_view_id_None: "explore_view_id e c = None \<longleftrightarrow> \<not> explore_is_active e c"
  by (auto simp: explore_view_id_def explore_is_active_def find_None_iff)

end
