(* ===== verification/Browser_Video.thy ===== *)
theory Browser_Video
  imports Browser_Explore
begin

text \<open>
  Video signaling of a shared tab (\<open>runtime-controller/src/browser_shares/video.rs\<close>): one
  peer per viewer connection, bound to that connection's explore view, and the rate limit on
  new peers.
\<close>

record peer =
  p_id :: uuid
  p_connection_id :: uuid
  p_view_id :: "uuid option"
  p_viewport :: viewport
  p_configuration :: json
  p_offer :: "string option"
  p_answer :: "string option"
  p_playing :: bool
  p_born :: "instant option"

record video_snapshot =
  vs_available :: bool
  vs_peers :: "peer list"
  vs_needs_follow_frames :: bool

record video =
  video_state :: video_snapshot
  video_requests :: "(uuid, instant list) hash_map"

definition video_default :: video where
  "video_default =
     \<lparr>video_state = \<lparr>vs_available = False, vs_peers = [], vs_needs_follow_frames = False\<rparr>,
      video_requests = []\<rparr>"

definition video_leave :: "uuid \<Rightarrow> video \<Rightarrow> video" where
  "video_leave connection v =
     v\<lparr>video_requests := AList.delete connection (video_requests v),
       video_state := (video_state v)\<lparr>
         vs_peers := retain (\<lambda>p. p_connection_id p \<noteq> connection) (vs_peers (video_state v))\<rparr>\<rparr>"

datatype video_command =
    VideoRequest uuid viewport
  | VideoViewport uuid viewport
  | VideoOffer uuid string
  | VideoAnswer uuid string
  | VideoPlaying uuid
  | VideoClose uuid
  | VideoAlive

definition valid_sdp :: "string \<Rightarrow> bool" where
  "valid_sdp sdp \<longleftrightarrow>
     length sdp \<le> 32768 \<and> starts_with sdp ''v=0'' \<and> contains_str sdp ''m=video ''
     \<and> \<not> contains_str sdp ''m=audio '' \<and> \<not> contains_str sdp ''m=application ''"

section \<open>What a peer is shown\<close>

definition opt_json :: "('a \<Rightarrow> json) \<Rightarrow> 'a option \<Rightarrow> json" where
  "opt_json f x = (case x of None \<Rightarrow> JNull | Some y \<Rightarrow> f y)"

definition peer_json :: "(uuid \<Rightarrow> string) \<Rightarrow> peer \<Rightarrow> json" where
  "peer_json show_uuid p =
     JObj (obj_of_list
       [(''id'', JStr (show_uuid (p_id p))),
        (''connectionId'', JStr (show_uuid (p_connection_id p))),
        (''viewId'', opt_json (\<lambda>v. JStr (show_uuid v)) (p_view_id p)),
        (''viewport'', viewport_json (p_viewport p)),
        (''configuration'', p_configuration p),
        (''offer'', opt_json JStr (p_offer p)),
        (''answer'', opt_json JStr (p_answer p)),
        (''playing'', JBool (p_playing p))])"

definition video_snapshot_message ::
    "(uuid \<Rightarrow> string) \<Rightarrow> video_snapshot \<Rightarrow> uuid \<Rightarrow> bool \<Rightarrow> bool \<Rightarrow> json" where
  "video_snapshot_message show_uuid s connection publisher lease =
     (if publisher \<and> lease then
        JObj (obj_of_list
          [(''type'', JStr ''videoLease''),
           (''peers'', JArr (map (\<lambda>p. JObj (obj_of_list
              [(''id'', JStr (show_uuid (p_id p))),
               (''viewId'', opt_json (\<lambda>v. JStr (show_uuid v)) (p_view_id p))])) (vs_peers s)))])
      else
        JObj (obj_of_list
          [(''type'', JStr ''videoState''), (''available'', JBool (vs_available s)),
           (''needsFollowFrames'', JBool (vs_needs_follow_frames s)),
           (''peers'', JArr (map (peer_json show_uuid)
              (filter (\<lambda>p. publisher \<or> p_connection_id p = connection) (vs_peers s))))]))"

section \<open>Leaving\<close>

definition video_mentions :: "video \<Rightarrow> uuid \<Rightarrow> bool" where
  "video_mentions v connection \<longleftrightarrow>
     (\<exists>p \<in> set (vs_peers (video_state v)). p_connection_id p = connection) \<or>
     contains_key (video_requests v) connection"

interpretation video_book: connection_book video_leave video_mentions
  by unfold_locales
    (auto simp: video_leave_def video_mentions_def contains_key_def AList.delete_conv')

lemma video_leave_simps [simp]:
  "vs_available (video_state (video_leave k v)) = vs_available (video_state v)"
  "vs_peers (video_state (video_leave k v))
     = retain (\<lambda>p. p_connection_id p \<noteq> k) (vs_peers (video_state v))"
  by (simp_all add: video_leave_def)

end
