(* ===== verification/Browser_Registry.thy ===== *)
theory Browser_Registry
  imports Browser_Video
begin

text \<open>
  The registry of local tab shares (\<open>runtime-controller/src/browser_shares.rs\<close>): who shares
  which tab with whom, and every operation of \<open>Registry\<close> on it.

  The watch channels that outlive a share are an explicit store: \<open>feed_chan\<close> holds the last
  value of each share's frame feed by share id, \<open>revoked_chan\<close> the revocation flag of each
  viewer by connection id; every connection that subscribed reads them there. An operation
  runs under the registry's lock and is one function from state to state; the clock it reads and
  the identifiers it draws (\<open>Uuid::new_v4\<close>) are arguments, the clock once per operation.
\<close>

datatype api_error =
    BadRequest string
  | Forbidden string
  | NotFound string
  | TooManyRequests string

record share_info =
  si_id :: uuid
  si_project_id :: uuid
  si_owner_user_id :: uuid
  si_audience :: string
  si_mode :: string

record share =
  s_info :: share_info
  s_born :: instant
  s_seen :: instant
  s_publisher :: bool
  s_selected :: "uuid list option"
  s_removed :: "uuid list"
  s_viewers :: "(uuid, uuid) hash_map" \<comment> \<open>connection to user\<close>
  s_control :: control
  s_explore :: explore
  s_video :: video

record registry =
  shares :: "(uuid, share) hash_map"
  feed_chan :: "uuid \<Rightarrow> feed"
  revoked_chan :: "uuid \<Rightarrow> bool"

record connection =
  cn_id :: uuid
  cn_share :: uuid \<comment> \<open>the share whose channels it subscribed to\<close>
  cn_explore_input :: bool
  cn_input :: bool

definition max_frame :: nat where
  "max_frame = 1024 * 1024"

definition max_lifetime :: nat where
  "max_lifetime = secs 3600"

definition host_timeout :: nat where
  "host_timeout = secs 20"

definition registry_default :: registry where
  "registry_default =
     \<lparr>shares = [], feed_chan = (\<lambda>_. Live None), revoked_chan = (\<lambda>_. False)\<rparr>"

definition share_allows :: "share \<Rightarrow> uuid \<Rightarrow> bool" where
  "share_allows s user \<longleftrightarrow>
     si_owner_user_id (s_info s) = user \<or>
     (user \<notin> set (s_removed s) \<and>
      (case s_selected s of None \<Rightarrow> True | Some users \<Rightarrow> user \<in> set users))"

definition share_alive :: "instant \<Rightarrow> share \<Rightarrow> bool" where
  "share_alive now s \<longleftrightarrow>
     duration_since now (s_born s) < max_lifetime \<and> duration_since now (s_seen s) < host_timeout"

definition set_share :: "uuid \<Rightarrow> share \<Rightarrow> registry \<Rightarrow> registry" where
  "set_share sid s reg = reg\<lparr>shares := AList.update sid s (shares reg)\<rparr>"

definition prune :: "instant \<Rightarrow> registry \<Rightarrow> registry" where
  "prune now reg =
     (let dead = map fst (filter (\<lambda>(sid, s). \<not> share_alive now s) (shares reg))
      in reg\<lparr>shares := filter (\<lambda>(sid, s). share_alive now s) (shares reg),
             feed_chan := (\<lambda>sid. if sid \<in> set dead then Stopped else feed_chan reg sid)\<rparr>)"

definition new_share :: "share_info \<Rightarrow> uuid list option \<Rightarrow> instant \<Rightarrow> share" where
  "new_share info selected now =
     \<lparr>s_info = info, s_born = now, s_seen = now, s_publisher = False, s_selected = selected,
      s_removed = [], s_viewers = [], s_control = control_default, s_explore = explore_default,
      s_video = video_default\<rparr>"

definition create ::
    "uuid \<Rightarrow> uuid \<Rightarrow> uuid list option \<Rightarrow> instant \<Rightarrow> uuid \<Rightarrow> registry \<Rightarrow>
     (api_error + share_info) \<times> registry" where
  "create project owner selected now new_id reg =
     (let reg = prune now reg in
      if 64 \<le> length (shares reg)
         \<or> 8 \<le> length (filter (\<lambda>(i, s). si_project_id (s_info s) = project) (shares reg))
         \<or> (\<exists>(i, s) \<in> set (shares reg). si_owner_user_id (s_info s) = owner)
      then (Inl (TooManyRequests ''Stop the existing tab share before starting another''), reg)
      else
        let info = \<lparr>si_id = new_id, si_project_id = project, si_owner_user_id = owner,
                    si_audience = (if selected \<noteq> None then ''selected'' else ''space''),
                    si_mode = ''view''\<rparr>
        in (Inr info,
            (set_share new_id (new_share info selected now) reg)
              \<lparr>feed_chan := (feed_chan reg)(new_id := Live None)\<rparr>))"

definition list_shares :: "uuid \<Rightarrow> uuid \<Rightarrow> instant \<Rightarrow> registry \<Rightarrow> share_info list \<times> registry" where
  "list_shares project user now reg =
     (let reg = prune now reg in
      (map (\<lambda>(i, s). s_info s)
         (filter (\<lambda>(i, s). si_project_id (s_info s) = project \<and> s_publisher s \<and> share_allows s user)
            (shares reg)),
       reg))"

definition find_share :: "uuid \<Rightarrow> uuid \<Rightarrow> registry \<Rightarrow> share option" where
  "find_share project sid reg =
     (case map_of (shares reg) sid of
        Some s \<Rightarrow> if si_project_id (s_info s) = project then Some s else None
      | None \<Rightarrow> None)"

text \<open>The tail of \<open>connect\<close>: the new connection joins the explore feeds and, for the publisher,
  takes the two input receivers.\<close>

definition open_connection :: "uuid \<Rightarrow> uuid \<Rightarrow> bool \<Rightarrow> share \<Rightarrow> connection \<times> share" where
  "open_connection sid connection_id publish s =
     (\<lparr>cn_id = connection_id, cn_share = sid,
       cn_explore_input = (publish \<and> explore_receiver (s_explore s)),
       cn_input = (publish \<and> control_receiver (s_control s))\<rparr>,
      (if publish then
         s\<lparr>s_explore := (explore_join connection_id (s_explore s))\<lparr>explore_receiver := False\<rparr>,
           s_control := (s_control s)\<lparr>control_receiver := False\<rparr>\<rparr>
       else s\<lparr>s_explore := explore_join connection_id (s_explore s)\<rparr>))"

definition connect ::
    "uuid \<Rightarrow> uuid \<Rightarrow> uuid \<Rightarrow> bool \<Rightarrow> instant \<Rightarrow> uuid \<Rightarrow> registry \<Rightarrow>
     (api_error + connection) \<times> registry" where
  "connect project sid user publish now connection_id reg =
     (let reg = prune now reg in
      case find_share project sid reg of
        None \<Rightarrow> (Inl (NotFound ''Tab share ended''), reg)
      | Some s \<Rightarrow>
          if publish then
            if si_owner_user_id (s_info s) \<noteq> user \<or> s_publisher s
            then (Inl (Forbidden ''Tab share publisher does not match''), reg)
            else
              let (conn, s') = open_connection sid connection_id True (s\<lparr>s_publisher := True\<rparr>)
              in (Inr conn, set_share sid s' reg)
          else if \<not> share_allows s user then (Inl (NotFound ''Tab share unavailable''), reg)
          else if 8 \<le> length (s_viewers s)
          then (Inl (TooManyRequests ''This tab share has eight viewers''), reg)
          else
            let (conn, s') = open_connection sid connection_id False
                  (s\<lparr>s_viewers := AList.update connection_id user (s_viewers s)\<rparr>)
            in (Inr conn,
                (set_share sid s' reg)
                  \<lparr>revoked_chan := (revoked_chan reg)(connection_id := False)\<rparr>))"

definition is_jpeg_frame :: "byte list \<Rightarrow> bool" where
  "is_jpeg_frame bytes \<longleftrightarrow>
     length bytes \<le> max_frame \<and> starts_with bytes [0xff, 0xd8] \<and> ends_with bytes [0xff, 0xd9]"

definition frame :: "uuid \<Rightarrow> byte list \<Rightarrow> instant \<Rightarrow> registry \<Rightarrow> bool \<times> registry" where
  "frame sid bytes now reg =
     (if \<not> is_jpeg_frame bytes then (False, reg)
      else
        let reg = prune now reg in
        case map_of (shares reg) sid of
          None \<Rightarrow> (False, reg)
        | Some s \<Rightarrow>
            if \<not> s_publisher s then (False, reg)
            else
              (True,
               (set_share sid (s\<lparr>s_seen := now\<rparr>) reg)
                 \<lparr>feed_chan := (feed_chan reg)(sid := Live (Some bytes))\<rparr>))"

definition stop :: "uuid \<Rightarrow> uuid \<Rightarrow> uuid \<Rightarrow> registry \<Rightarrow> (api_error + unit) \<times> registry" where
  "stop project sid user reg =
     (case map_of (shares reg) sid of
        None \<Rightarrow> (Inr (), reg)
      | Some s \<Rightarrow>
          if si_project_id (s_info s) \<noteq> project \<or> si_owner_user_id (s_info s) \<noteq> user
          then (Inl (Forbidden ''Only the tab owner can stop this share''), reg)
          else
            (Inr (),
             reg\<lparr>shares := AList.delete sid (shares reg),
                 feed_chan := (feed_chan reg)(sid := Stopped)\<rparr>))"

text \<open>Every connection of the removed person leaves the three books of the share.\<close>

definition drop_connections :: "uuid list \<Rightarrow> share \<Rightarrow> share" where
  "drop_connections gone s =
     s\<lparr>s_viewers := filter (\<lambda>(c, u). c \<notin> set gone) (s_viewers s),
       s_control := fold control_leave gone (s_control s),
       s_explore := fold explore_leave gone (s_explore s),
       s_video := fold video_leave gone (s_video s)\<rparr>"

definition connections_of :: "share \<Rightarrow> uuid \<Rightarrow> uuid list" where
  "connections_of s user = map fst (filter (\<lambda>(c, u). u = user) (s_viewers s))"

definition remove_viewer ::
    "uuid \<Rightarrow> uuid \<Rightarrow> uuid \<Rightarrow> uuid \<Rightarrow> registry \<Rightarrow> (api_error + unit) \<times> registry" where
  "remove_viewer project sid owner user reg =
     (case find_share project sid reg of
        None \<Rightarrow> (Inl (NotFound ''Tab share ended''), reg)
      | Some s \<Rightarrow>
          if si_owner_user_id (s_info s) \<noteq> owner
          then (Inl (Forbidden ''Only the tab owner can remove viewers''), reg)
          else if user = owner
          then (Inl (BadRequest ''Use Stop sharing to end your own share''), reg)
          else if 256 \<le> length (s_removed s) \<and> user \<notin> set (s_removed s)
          then (Inl (TooManyRequests ''Stop sharing to reset the audience''), reg)
          else
            let gone = connections_of s user;
                s' = drop_connections gone (s\<lparr>s_removed := List.insert user (s_removed s)\<rparr>)
            in (Inr (),
                (set_share sid s' reg)
                  \<lparr>revoked_chan := (\<lambda>c. c \<in> set gone \<or> revoked_chan reg c)\<rparr>))"

definition audience_members ::
    "uuid \<Rightarrow> uuid \<Rightarrow> uuid \<Rightarrow> instant \<Rightarrow> registry \<Rightarrow>
     (api_error + (uuid \<times> bool \<times> bool) list) \<times> registry" where
  "audience_members project sid owner now reg =
     (let reg = prune now reg in
      case find_share project sid reg of
        None \<Rightarrow> (Inl (NotFound ''Tab share ended''), reg)
      | Some s \<Rightarrow>
          if si_owner_user_id (s_info s) \<noteq> owner
          then (Inl (Forbidden ''Only the tab owner can inspect viewers''), reg)
          else
            let active = remdups (map snd (s_viewers s));
                users = remdups (active @ (case s_selected s of None \<Rightarrow> [] | Some us \<Rightarrow> us) @ s_removed s)
            in (Inr (map (\<lambda>u. (u, u \<in> set active, u \<in> set (s_removed s)))
                      (filter (\<lambda>u. u \<noteq> owner) users)),
                reg))"

definition leave :: "uuid \<Rightarrow> uuid \<Rightarrow> registry \<Rightarrow> registry" where
  "leave sid connection reg =
     (case map_of (shares reg) sid of
        None \<Rightarrow> reg
      | Some s \<Rightarrow>
          set_share sid
            (s\<lparr>s_viewers := AList.delete connection (s_viewers s),
               s_control := control_leave connection (s_control s),
               s_explore := explore_leave connection (s_explore s),
               s_video := video_leave connection (s_video s)\<rparr>) reg)"

record create_request =
  req_audience :: string
  req_mode :: string
  req_viewer_user_ids :: "uuid list"

definition selection :: "create_request \<Rightarrow> uuid \<Rightarrow> api_error + uuid list option" where
  "selection req owner =
     (if req_mode req \<noteq> ''view'' then Inl (BadRequest ''Only tab viewing is supported'')
      else if req_audience req = ''space'' \<and> req_viewer_user_ids req = [] then Inr None
      else if req_audience req = ''selected'' \<and> req_viewer_user_ids req \<noteq> []
              \<and> length (req_viewer_user_ids req) \<le> 32 \<and> owner \<notin> set (req_viewer_user_ids req)
      then Inr (Some (remdups (req_viewer_user_ids req)))
      else Inl (BadRequest ''Choose the space or between one and 32 other people''))"

end
