(* ===== verification/Browser_Messages.thy ===== *)
theory Browser_Messages
  imports Browser_Registry
begin

text \<open>
  The socket messages of a tab share: \<open>Registry::control_message\<close> (control.rs),
  \<open>explore_message\<close> and \<open>explore_frame\<close> (explore.rs), \<open>video_message\<close> and \<open>reconcile\<close>
  (video.rs), and the checks the publisher's socket makes before it forwards a queued input.
  Parsing a raw message is the JSON library's: a handler takes the parser as an argument. Each
  handler is split where the source has its \<open>match\<close>: the guards in front, then the effect of
  one accepted command on the share.
\<close>

section \<open>Control\<close>

definition enable_control :: "uuid \<Rightarrow> registry \<Rightarrow> registry" where
  "enable_control sid reg =
     (case map_of (shares reg) sid of
        None \<Rightarrow> reg
      | Some s \<Rightarrow>
          let c = s_control s
          in set_share sid
               (s\<lparr>s_control := c\<lparr>control_state := (control_state c)\<lparr>c_available := True\<rparr>\<rparr>\<rparr>) reg)"

text \<open>Whether the socket's identity fits the share: the publisher must be the owner, a viewer
  connection must still be registered to that user, who must still be allowed.\<close>

definition peer_authorized :: "share \<Rightarrow> uuid \<Rightarrow> uuid \<Rightarrow> bool \<Rightarrow> bool" where
  "peer_authorized s connection user publish \<longleftrightarrow>
     (if publish then user = si_owner_user_id (s_info s)
      else map_of (s_viewers s) connection = Some user \<and> share_allows s user)"

definition set_control_state :: "control_snapshot \<Rightarrow> share \<Rightarrow> share" where
  "set_control_state st s = s\<lparr>s_control := (s_control s)\<lparr>control_state := st\<rparr>\<rparr>"

definition grant_is :: "control_snapshot \<Rightarrow> uuid \<Rightarrow> bool" where
  "grant_is st connection \<longleftrightarrow>
     (case c_grant st of Some g \<Rightarrow> g_connection_id g = connection | None \<Rightarrow> False)"

fun control_apply ::
    "uuid \<Rightarrow> uuid \<Rightarrow> bool \<Rightarrow> control_command \<Rightarrow> share \<Rightarrow> bool \<times> share" where
  "control_apply connection user publish RequestControl s =
     (let st = control_state (s_control s) in
      if publish then (False, s)
      else if explore_is_active (s_explore s) connection then (True, s)
      else if (\<exists>r \<in> set (c_requests st). cr_connection_id r = connection) \<or> grant_is st connection
      then (True, s)
      else
        (True, set_control_state
           (st\<lparr>c_requests := c_requests st @ [\<lparr>cr_connection_id = connection, cr_user_id = user\<rparr>]\<rparr>) s))"
| "control_apply connection user publish ReleaseControl s =
     (let st = control_state (s_control s);
          st' = st\<lparr>c_requests := retain (\<lambda>r. cr_connection_id r \<noteq> connection) (c_requests st)\<rparr>
      in (True, set_control_state
            (if publish \<or> grant_is st connection then st'\<lparr>c_grant := None\<rparr> else st') s))"
| "control_apply connection user publish (DenyControl connection_id) s =
     (let st = control_state (s_control s) in
      if \<not> publish then (False, s)
      else (True, set_control_state
              (st\<lparr>c_requests := retain (\<lambda>r. cr_connection_id r \<noteq> connection_id) (c_requests st)\<rparr>) s))"
| "control_apply connection user publish (GrantControl connection_id grant_id) s =
     (let st = control_state (s_control s) in
      if \<not> publish then (False, s)
      else if c_grant st \<noteq> None \<or> explore_is_active (s_explore s) connection_id then (True, s)
      else case List.find (\<lambda>r. cr_connection_id r = connection_id) (c_requests st) of
        None \<Rightarrow> (True, s)
      | Some request \<Rightarrow>
          if \<not> contains_key (s_viewers s) connection_id \<or> \<not> share_allows s (cr_user_id request)
          then (False, s)
          else
            (True, set_control_state
               (st\<lparr>c_grant := Some \<lparr>g_id = grant_id, g_connection_id = connection_id,
                                    g_user_id = cr_user_id request\<rparr>,
                   c_requests :=
                     retain (\<lambda>r. cr_connection_id r \<noteq> connection_id) (c_requests st)\<rparr>) s))"
| "control_apply connection user publish (ControlInput grant_id input) s =
     (let st = control_state (s_control s) in
      if publish then (False, s)
      else if \<not> tab_input_valid input then (False, s)
      else if \<not> (case c_grant st of
                    Some g \<Rightarrow> g_id g = grant_id \<and> g_connection_id g = connection \<and> g_user_id g = user
                  | None \<Rightarrow> False)
      then (True, s)
      else case try_send \<lparr>ci_kind = ''input'', ci_grant_id = grant_id, ci_input = input\<rparr>
                  (control_queue (s_control s)) of
        None \<Rightarrow> (False, s)
      | Some q \<Rightarrow> (True, s\<lparr>s_control := (s_control s)\<lparr>control_queue := q\<rparr>\<rparr>))"

definition control_message ::
    "(string \<Rightarrow> control_command option) \<Rightarrow> uuid \<Rightarrow> uuid \<Rightarrow> uuid \<Rightarrow> bool \<Rightarrow> string \<Rightarrow>
     registry \<Rightarrow> bool \<times> registry" where
  "control_message parse sid connection user publish raw reg =
     (if 16384 < length raw then (False, reg)
      else case parse raw of
        None \<Rightarrow> (False, reg)
      | Some command \<Rightarrow>
          (case map_of (shares reg) sid of
             None \<Rightarrow> (False, reg)
           | Some s \<Rightarrow>
               if \<not> s_publisher s \<or> \<not> c_available (control_state (s_control s))
                  \<or> \<not> peer_authorized s connection user publish
               then (False, reg)
               else
                 let (ok, s') = control_apply connection user publish command s
                 in (ok, set_share sid s' reg)))"

definition input_is_current :: "uuid \<Rightarrow> control_input \<Rightarrow> registry \<Rightarrow> bool" where
  "input_is_current sid input reg =
     (case map_of (shares reg) sid of
        None \<Rightarrow> False
      | Some s \<Rightarrow>
          (case c_grant (control_state (s_control s)) of
             None \<Rightarrow> False
           | Some g \<Rightarrow> g_id g = ci_grant_id input \<and> contains_key (s_viewers s) (g_connection_id g)
                        \<and> share_allows s (g_user_id g)))"

section \<open>Explore\<close>

definition enable_explore :: "uuid \<Rightarrow> registry \<Rightarrow> registry" where
  "enable_explore sid reg =
     (case map_of (shares reg) sid of
        None \<Rightarrow> reg
      | Some s \<Rightarrow>
          let e = s_explore s
          in set_share sid
               (s\<lparr>s_explore := e\<lparr>explore_state := (explore_state e)\<lparr>e_available := True\<rparr>\<rparr>\<rparr>) reg)"

definition exploring :: "uuid \<Rightarrow> uuid \<Rightarrow> registry \<Rightarrow> bool" where
  "exploring sid connection reg =
     (case map_of (shares reg) sid of
        None \<Rightarrow> False | Some s \<Rightarrow> explore_is_active (s_explore s) connection)"

definition set_explore_state :: "explore_snapshot \<Rightarrow> share \<Rightarrow> share" where
  "set_explore_state st s = s\<lparr>s_explore := (s_explore s)\<lparr>explore_state := st\<rparr>\<rparr>"

definition owns_view :: "explore_snapshot \<Rightarrow> uuid \<Rightarrow> uuid \<Rightarrow> uuid \<Rightarrow> bool" where
  "owns_view st connection user view_id \<longleftrightarrow>
     (\<exists>v \<in> set (e_views st).
        v_view_id v = view_id \<and> v_connection_id v = connection \<and> v_user_id v = user)"

definition explore_send :: "explore_action \<Rightarrow> share \<Rightarrow> bool \<times> share" where
  "explore_send action s =
     (case try_send action (explore_queue (s_explore s)) of
        None \<Rightarrow> (False, s)
      | Some q \<Rightarrow> (True, s\<lparr>s_explore := (s_explore s)\<lparr>explore_queue := q\<rparr>\<rparr>))"

fun explore_apply ::
    "uuid \<Rightarrow> uuid \<Rightarrow> bool \<Rightarrow> explore_command \<Rightarrow> share \<Rightarrow> bool \<times> share" where
  "explore_apply connection user publish (ExploreRequest viewport) s =
     (let st = explore_state (s_explore s) in
      if publish then (False, s)
      else if \<not> viewport_valid viewport then (False, s)
      else if (\<exists>v \<in> set (e_views st). v_connection_id v = connection)
              \<or> (\<exists>r \<in> set (e_requests st). er_connection_id r = connection)
      then (True, s)
      else
        (True, set_explore_state
           (st\<lparr>e_requests := e_requests st @
                 [\<lparr>er_connection_id = connection, er_user_id = user, er_viewport = viewport\<rparr>]\<rparr>) s))"
| "explore_apply connection user publish ExploreReturn s =
     (if publish then (False, s)
      else (True, s\<lparr>s_explore := explore_clear connection (s_explore s)\<rparr>))"
| "explore_apply connection user publish (ExploreDeny connection_id) s =
     (let st = explore_state (s_explore s) in
      if \<not> publish then (False, s)
      else (True, set_explore_state
              (st\<lparr>e_requests := retain (\<lambda>r. er_connection_id r \<noteq> connection_id) (e_requests st)\<rparr>) s))"
| "explore_apply connection user publish (ExploreApprove connection_id view_id) s =
     (let st = explore_state (s_explore s) in
      if \<not> publish then (False, s)
      else if 4 \<le> length (e_views st)
              \<or> (\<exists>v \<in> set (e_views st). v_connection_id v = connection_id \<or> v_view_id v = view_id)
      then (True, s)
      else case List.find (\<lambda>r. er_connection_id r = connection_id) (e_requests st) of
        None \<Rightarrow> (True, s)
      | Some request \<Rightarrow>
          if \<not> contains_key (s_viewers s) connection_id \<or> \<not> share_allows s (er_user_id request)
          then (True, s)
          else
            (True, set_explore_state
               (st\<lparr>e_views := e_views st @
                     [\<lparr>v_view_id = view_id, v_connection_id = connection_id,
                       v_user_id = er_user_id request, v_viewport = er_viewport request\<rparr>],
                   e_requests :=
                     retain (\<lambda>r. er_connection_id r \<noteq> connection_id) (e_requests st)\<rparr>)
               (s\<lparr>s_control := control_leave connection_id (s_control s)\<rparr>)))"
| "explore_apply connection user publish (ExploreClose view_id) s =
     (let st = explore_state (s_explore s) in
      if \<not> publish then (False, s)
      else case List.find (\<lambda>v. v_view_id v = view_id) (e_views st) of
        None \<Rightarrow> (True, s)
      | Some view \<Rightarrow> (True, s\<lparr>s_explore := explore_clear (v_connection_id view) (s_explore s)\<rparr>))"
| "explore_apply connection user publish (ExploreResize view_id viewport) s =
     (let st = explore_state (s_explore s) in
      if publish then (False, s)
      else if \<not> viewport_valid viewport then (False, s)
      else if \<not> owns_view st connection user view_id then (True, s)
      else (True, set_explore_state
              (st\<lparr>e_views := update_first (\<lambda>v. v_view_id v = view_id)
                                (\<lambda>v. v\<lparr>v_viewport := viewport\<rparr>) (e_views st)\<rparr>) s))"
| "explore_apply connection user publish (ExploreInput view_id input) s =
     (if publish then (False, s)
      else if \<not> tab_input_valid input then (False, s)
      else if \<not> owns_view (explore_state (s_explore s)) connection user view_id then (True, s)
      else explore_send (ActInput view_id input) s)"
| "explore_apply connection user publish (ExploreNavigate view_id action) s =
     (if publish then (False, s)
      else if action \<notin> {''back'', ''forward'', ''reload''} then (False, s)
      else if \<not> owns_view (explore_state (s_explore s)) connection user view_id then (True, s)
      else explore_send (ActNavigate view_id action) s)"

text \<open>\<open>None\<close>: not an explore message, so the socket tries the control protocol.\<close>

definition explore_message ::
    "(string \<Rightarrow> json option) \<Rightarrow> (json \<Rightarrow> explore_command option) \<Rightarrow> uuid \<Rightarrow> uuid \<Rightarrow> uuid \<Rightarrow>
     bool \<Rightarrow> string \<Rightarrow> registry \<Rightarrow> bool option \<times> registry" where
  "explore_message parse_value from_value sid connection user publish raw reg =
     (if 16384 < length raw then (Some False, reg)
      else case Option.bind (parse_value raw) (\<lambda>v. Option.bind (value_get v ''type'') as_str) of
        None \<Rightarrow> (None, reg)
      | Some kind \<Rightarrow>
          if \<not> starts_with kind ''explore'' then (None, reg)
          else case Option.bind (parse_value raw) from_value of
            None \<Rightarrow> (Some False, reg)
          | Some command \<Rightarrow>
              (case map_of (shares reg) sid of
                 None \<Rightarrow> (Some False, reg)
               | Some s \<Rightarrow>
                   if \<not> s_publisher s \<or> \<not> e_available (explore_state (s_explore s))
                      \<or> \<not> peer_authorized s connection user publish
                   then (Some False, reg)
                   else
                     let (ok, s') = explore_apply connection user publish command s
                     in (Some ok, set_share sid s' reg)))"

definition explore_action_current :: "uuid \<Rightarrow> explore_action \<Rightarrow> registry \<Rightarrow> bool" where
  "explore_action_current sid action reg =
     (case map_of (shares reg) sid of
        None \<Rightarrow> False
      | Some s \<Rightarrow>
          \<exists>v \<in> set (e_views (explore_state (s_explore s))).
            v_view_id v = action_id action \<and> contains_key (s_viewers s) (v_connection_id v)
            \<and> share_allows s (v_user_id v))"

definition explore_magic :: "byte list" where
  "explore_magic = [0x49, 0x45, 0x58, 0x31]" \<comment> \<open>\<open>IEX1\<close>\<close>

definition is_explore_frame :: "byte list \<Rightarrow> bool" where
  "is_explore_frame bytes \<longleftrightarrow>
     44 \<le> length bytes \<and> length bytes \<le> max_frame + 40 \<and> starts_with bytes explore_magic
     \<and> starts_with (drop 40 bytes) [255, 216] \<and> ends_with bytes [255, 217]"

definition explore_frame ::
    "(string \<Rightarrow> uuid option) \<Rightarrow> uuid \<Rightarrow> byte list \<Rightarrow> instant \<Rightarrow> registry \<Rightarrow> bool \<times> registry" where
  "explore_frame parse_uuid sid bytes now reg =
     (if \<not> is_explore_frame bytes then (False, reg)
      else case Option.bind (from_utf8 (take 36 (drop 4 bytes))) parse_uuid of
        None \<Rightarrow> (False, reg)
      | Some view_id \<Rightarrow>
          (case map_of (shares reg) sid of
             None \<Rightarrow> (False, reg)
           | Some s \<Rightarrow>
               let e = s_explore s in
               (case List.find (\<lambda>v. v_view_id v = view_id) (e_views (explore_state e)) of
                  None \<Rightarrow> (True, reg)
                | Some view \<Rightarrow>
                    if \<not> share_allows s (v_user_id view) then (True, reg)
                    else if (case map_of (explore_last_frames e) view_id of
                               Some t \<Rightarrow> duration_since now t < millis 100 | None \<Rightarrow> False)
                    then (True, reg)
                    else
                      (True, set_share sid
                         (s\<lparr>s_explore := e\<lparr>
                              explore_last_frames := AList.update view_id now (explore_last_frames e),
                              explore_frames :=
                                (if contains_key (explore_frames e) (v_connection_id view)
                                 then AList.update (v_connection_id view) (Live (Some bytes))
                                        (explore_frames e)
                                 else explore_frames e)\<rparr>\<rparr>) reg))))"

section \<open>Video\<close>

definition peer_current :: "instant \<Rightarrow> share \<Rightarrow> peer \<Rightarrow> bool" where
  "peer_current now s p \<longleftrightarrow>
     contains_key (s_viewers s) (p_connection_id p)
     \<and> p_view_id p = explore_view_id (s_explore s) (p_connection_id p)
     \<and> (p_playing p \<or>
        (case p_born p of Some born \<Rightarrow> duration_since now born < secs 30 | None \<Rightarrow> False))"

definition reconcile :: "instant \<Rightarrow> share \<Rightarrow> share" where
  "reconcile now s =
     (let st = video_state (s_video s);
          peers = retain (peer_current now s) (vs_peers st);
          st' = st\<lparr>vs_peers := peers,
                   vs_needs_follow_frames :=
                     (\<exists>c \<in> set (map fst (s_viewers s)).
                        explore_view_id (s_explore s) c = None
                        \<and> \<not> (\<exists>p \<in> set peers. p_connection_id p = c \<and> p_playing p))\<rparr>
      in s\<lparr>s_video := (s_video s)\<lparr>video_state := st'\<rparr>\<rparr>)"

definition enable_video :: "uuid \<Rightarrow> registry \<Rightarrow> registry" where
  "enable_video sid reg =
     (case map_of (shares reg) sid of
        None \<Rightarrow> reg
      | Some s \<Rightarrow>
          let v = s_video s
          in set_share sid
               (s\<lparr>s_video := v\<lparr>video_state := (video_state v)\<lparr>vs_available := True\<rparr>\<rparr>\<rparr>) reg)"

definition reconcile_video :: "uuid \<Rightarrow> instant \<Rightarrow> registry \<Rightarrow> registry" where
  "reconcile_video sid now reg =
     (case map_of (shares reg) sid of
        None \<Rightarrow> reg | Some s \<Rightarrow> set_share sid (reconcile now s) reg)"

definition set_peers :: "peer list \<Rightarrow> share \<Rightarrow> share" where
  "set_peers ps s =
     s\<lparr>s_video := (s_video s)\<lparr>video_state := (video_state (s_video s))\<lparr>vs_peers := ps\<rparr>\<rparr>\<rparr>"

text \<open>The requests of the last ten seconds; at most six start a new peer.\<close>

definition recent_requests :: "instant \<Rightarrow> uuid \<Rightarrow> share \<Rightarrow> instant list" where
  "recent_requests now connection s =
     retain (\<lambda>t. duration_since now t < secs 10)
       (case map_of (video_requests (s_video s)) connection of None \<Rightarrow> [] | Some ts \<Rightarrow> ts)"

definition set_requests :: "uuid \<Rightarrow> instant list \<Rightarrow> share \<Rightarrow> share" where
  "set_requests connection ts s =
     s\<lparr>s_video := (s_video s)\<lparr>
         video_requests := AList.update connection ts (video_requests (s_video s))\<rparr>\<rparr>"

text \<open>
  The effect of one command: \<open>Inl ok\<close> ends the handler there with that answer and the given
  share, \<open>Inr ps\<close> goes on to publish the peers \<open>ps\<close> and reconcile.
\<close>

fun video_apply ::
    "instant \<Rightarrow> uuid \<Rightarrow> bool \<Rightarrow> json option \<Rightarrow> video_command \<Rightarrow> share \<Rightarrow>
     (bool + peer list) \<times> share" where
  "video_apply now connection publish configuration VideoAlive s =
     (if publish then (Inl True, s\<lparr>s_seen := now\<rparr>) else (Inl False, s))"
| "video_apply now connection publish configuration (VideoRequest pid viewport) s =
     (let peers = vs_peers (video_state (s_video s)) in
      if publish \<or> \<not> viewport_valid viewport then (Inl False, s)
      else case configuration of
        None \<Rightarrow> (Inl False, s)
      | Some config \<Rightarrow>
          if \<exists>p \<in> set peers. p_id p = pid \<and> p_connection_id p \<noteq> connection then (Inl False, s)
          else if \<exists>p \<in> set peers. p_id p = pid then (Inl True, s)
          else
            let recent = recent_requests now connection s in
            if 6 \<le> length recent then (Inl False, set_requests connection recent s)
            else
              (Inr (retain (\<lambda>p. p_connection_id p \<noteq> connection) peers @
                    [\<lparr>p_id = pid, p_connection_id = connection,
                      p_view_id = explore_view_id (s_explore s) connection,
                      p_viewport = viewport, p_configuration = config, p_offer = None,
                      p_answer = None, p_playing = False, p_born = Some now\<rparr>]),
               set_requests connection (recent @ [now]) s))"
| "video_apply now connection publish configuration (VideoViewport pid viewport) s =
     (if publish \<or> \<not> viewport_valid viewport then (Inl False, s)
      else (Inr (update_first (\<lambda>p. p_id p = pid \<and> p_connection_id p = connection)
                   (\<lambda>p. p\<lparr>p_viewport := viewport\<rparr>) (vs_peers (video_state (s_video s)))), s))"
| "video_apply now connection publish configuration (VideoOffer pid sdp) s =
     (if \<not> publish \<or> \<not> valid_sdp sdp then (Inl False, s)
      else (Inr (update_first (\<lambda>p. p_id p = pid \<and> p_offer p = None)
                   (\<lambda>p. p\<lparr>p_offer := Some sdp\<rparr>) (vs_peers (video_state (s_video s)))), s))"
| "video_apply now connection publish configuration (VideoAnswer pid sdp) s =
     (if publish \<or> \<not> valid_sdp sdp then (Inl False, s)
      else (Inr (update_first
                   (\<lambda>p. p_id p = pid \<and> p_connection_id p = connection \<and> p_offer p \<noteq> None
                         \<and> p_answer p = None)
                   (\<lambda>p. p\<lparr>p_answer := Some sdp\<rparr>) (vs_peers (video_state (s_video s)))), s))"
| "video_apply now connection publish configuration (VideoPlaying pid) s =
     (if publish then (Inl False, s)
      else (Inr (update_first
                   (\<lambda>p. p_id p = pid \<and> p_connection_id p = connection \<and> p_answer p \<noteq> None)
                   (\<lambda>p. p\<lparr>p_playing := True\<rparr>) (vs_peers (video_state (s_video s)))), s))"
| "video_apply now connection publish configuration (VideoClose pid) s =
     (Inr (retain (\<lambda>p. \<not> (p_id p = pid \<and> (publish \<or> p_connection_id p = connection)))
             (vs_peers (video_state (s_video s)))), s)"

definition video_message ::
    "(string \<Rightarrow> video_command option) \<Rightarrow> uuid \<Rightarrow> uuid \<Rightarrow> bool \<Rightarrow> string \<Rightarrow> json option \<Rightarrow>
     instant \<Rightarrow> registry \<Rightarrow> bool option \<times> registry" where
  "video_message parse sid connection publish raw configuration now reg =
     (case parse raw of
        None \<Rightarrow> (None, reg)
      | Some command \<Rightarrow>
          (case map_of (shares reg) sid of
             None \<Rightarrow> (Some False, reg)
           | Some s \<Rightarrow>
               let s = reconcile now s in
               if \<not> vs_available (video_state (s_video s))
                  \<or> (\<not> publish \<and> \<not> contains_key (s_viewers s) connection)
               then (Some False, set_share sid s reg)
               else
                 (case video_apply now connection publish configuration command s of
                    (Inl ok, s') \<Rightarrow> (Some ok, set_share sid s' reg)
                  | (Inr peers, s') \<Rightarrow>
                      (Some True, set_share sid (reconcile now (set_peers peers s')) reg))))"

end
