(* ===== verification/Browser_Socket.thy ===== *)
theory Browser_Socket
  imports Browser_Messages
begin

text \<open>
  The socket of one tab share participant (\<open>serve\<close> in browser_shares.rs): what opening it does
  to the registry, one iteration of its \<open>select!\<close> loop per event, and what closing it does.

  The loop is \<open>biased\<close>: a revoked viewer and a stopped share are seen before anything else, so
  every event is handled behind these two checks. \<open>link\<close> says how many sends of the handler
  complete within their second; a send that does not complete ends the loop. The messages a
  handler gives to the socket are its output. Parsing, the printing of identifiers and the video
  configuration are arguments (\<open>protocol\<close>). A handler that reads a watch channel reads the
  value the share has at that moment.
\<close>

record protocol =
  parse_control :: "string \<Rightarrow> control_command option"
  parse_json :: "string \<Rightarrow> json option"
  explore_from_value :: "json \<Rightarrow> explore_command option"
  parse_video :: "string \<Rightarrow> video_command option"
  parse_uuid_str :: "string \<Rightarrow> uuid option"
  show_uuid_str :: "uuid \<Rightarrow> string"
  video_configuration :: "json option"

record socket =
  k_project :: uuid
  k_share :: uuid
  k_connection :: uuid
  k_user :: uuid
  k_publish :: bool
  k_frame_flow :: bool
  k_video_supported :: bool
  k_control_v1 :: bool
  k_explore_v1 :: bool
  k_message_window :: instant
  k_message_count :: nat
  k_last_frame :: instant
  k_pending_frame :: "instant option"

datatype message =
    ReadyMsg bool
  | FrameAck
  | PongMsg "byte list"
  | StateMsg json
  | InputMsg control_input
  | ActionMsg explore_action
  | BinaryMsg "byte list"

section \<open>Opening and closing\<close>

text \<open>After the first message has been authorized as \<open>user\<close>.\<close>

definition socket_open ::
    "protocol \<Rightarrow> uuid \<Rightarrow> uuid \<Rightarrow> uuid \<Rightarrow> bool \<Rightarrow> bool \<Rightarrow> bool \<Rightarrow> 32 word option \<Rightarrow> 32 word option \<Rightarrow>
     instant \<Rightarrow> uuid \<Rightarrow> registry \<Rightarrow> (message list \<times> socket) option \<times> registry" where
  "socket_open p project sid user publish frame_flow video_supported control_version
       explore_version now connection_id reg =
     (case connect project sid user publish now connection_id reg of
        (Inl _, reg) \<Rightarrow> (None, reg)
      | (Inr conn, reg) \<Rightarrow>
          let reg = (if publish \<and> control_version = Some 1 then enable_control sid reg else reg);
              reg = (if publish \<and> explore_version = Some 1 then enable_explore sid reg else reg);
              reg = (if publish \<and> video_supported \<and> video_configuration p \<noteq> None
                     then enable_video sid reg else reg);
              reg = reconcile_video sid now reg
          in (Some ([ReadyMsg frame_flow],
                \<lparr>k_project = project, k_share = sid, k_connection = cn_id conn, k_user = user,
                 k_publish = publish, k_frame_flow = frame_flow,
                 k_video_supported = video_supported,
                 k_control_v1 = (control_version = Some 1),
                 k_explore_v1 = (explore_version = Some 1), k_message_window = now,
                 k_message_count = 0, k_last_frame = now - secs 1, k_pending_frame = None\<rparr>),
              reg))"

text \<open>When the loop ends, the publisher's socket stops the share and a viewer's leaves it.\<close>

definition socket_end :: "socket \<Rightarrow> registry \<Rightarrow> registry" where
  "socket_end k reg =
     (if k_publish k then snd (stop (k_project k) (k_share k) (k_user k) reg)
      else leave (k_share k) (k_connection k) reg)"

section \<open>One event\<close>

datatype socket_event =
    Lifetime
  | Membership "uuid option" \<comment> \<open>whom \<open>authorize\<close> accepts, if anyone in time\<close>
  | RecvBinary "byte list"
  | RecvPong
  | RecvPing "byte list"
  | RecvText string
  | RecvOther
  | VideoChanged
  | ExploreChanged
  | ExploreInputReady
  | ExploreFeedChanged
  | ControlChanged
  | InputReady
  | FeedChanged

text \<open>What a handler has done so far: whether the loop goes on, the sends that still complete,
  the messages given to the socket, and the state.\<close>

record turn =
  t_ok :: bool
  t_link :: nat
  t_out :: "message list"
  t_socket :: socket
  t_reg :: registry

definition send_msg :: "message \<Rightarrow> turn \<Rightarrow> turn" where
  "send_msg m t =
     (if t_ok t
      then t\<lparr>t_ok := (0 < t_link t), t_link := t_link t - 1, t_out := t_out t @ [m]\<rparr>
      else t)"

definition break_if :: "bool \<Rightarrow> turn \<Rightarrow> turn" where
  "break_if b t = (if b then t\<lparr>t_ok := False\<rparr> else t)"

definition the_share :: "turn \<Rightarrow> share option" where
  "the_share t = map_of (shares (t_reg t)) (k_share (t_socket t))"

text \<open>A message made from the share's current state; a share that is gone has closed the channel.\<close>

definition send_state :: "(share \<Rightarrow> message) \<Rightarrow> turn \<Rightarrow> turn" where
  "send_state f t =
     (case the_share t of None \<Rightarrow> t\<lparr>t_ok := False\<rparr> | Some s \<Rightarrow> send_msg (f s) t)"

definition explore_state_msg :: "protocol \<Rightarrow> socket \<Rightarrow> share \<Rightarrow> message" where
  "explore_state_msg p k s =
     StateMsg (explore_snapshot_message (show_uuid_str p) (explore_state (s_explore s))
       (k_connection k) (k_publish k))"

definition control_state_msg :: "protocol \<Rightarrow> socket \<Rightarrow> share \<Rightarrow> message" where
  "control_state_msg p k s =
     StateMsg (control_snapshot_message (show_uuid_str p) (control_state (s_control s))
       (k_connection k) (k_publish k))"

definition video_state_msg :: "protocol \<Rightarrow> bool \<Rightarrow> socket \<Rightarrow> share \<Rightarrow> message" where
  "video_state_msg p lease k s =
     StateMsg (video_snapshot_message (show_uuid_str p) (video_state (s_video s))
       (k_connection k) (k_publish k) lease)"

text \<open>The publisher's heartbeat: its views, its video leases and its control state.\<close>

definition tick_explore :: "protocol \<Rightarrow> socket \<Rightarrow> turn \<Rightarrow> turn" where
  "tick_explore p k t =
     (if t_ok t \<and> k_publish k \<and> k_explore_v1 k then send_state (explore_state_msg p k) t else t)"

definition tick_video :: "protocol \<Rightarrow> instant \<Rightarrow> socket \<Rightarrow> turn \<Rightarrow> turn" where
  "tick_video p now k t =
     (if t_ok t \<and> k_publish k \<and> k_video_supported k
      then send_state (video_state_msg p True k)
             (t\<lparr>t_reg := reconcile_video (k_share k) now (t_reg t)\<rparr>)
      else t)"

definition tick_control :: "protocol \<Rightarrow> socket \<Rightarrow> turn \<Rightarrow> turn" where
  "tick_control p k t =
     (if t_ok t \<and> k_publish k \<and> k_control_v1 k then send_state (control_state_msg p k) t else t)"

definition on_lifetime :: "protocol \<Rightarrow> instant \<Rightarrow> turn \<Rightarrow> turn" where
  "on_lifetime p now t =
     (let k = t_socket t in
      if (case k_pending_frame k of Some sent \<Rightarrow> secs 5 \<le> duration_since now sent | None \<Rightarrow> False)
      then t\<lparr>t_ok := False\<rparr>
      else
        let t = t\<lparr>t_reg := prune now (t_reg t)\<rparr> in
        if \<not> contains_key (shares (t_reg t)) (k_share k) then t\<lparr>t_ok := False\<rparr>
        else tick_control p k (tick_video p now k (tick_explore p k t)))"

text \<open>A binary message is a frame from the publisher; frames of the shared tab that come faster
  than every 100 ms are dropped.\<close>

definition on_binary :: "protocol \<Rightarrow> byte list \<Rightarrow> instant \<Rightarrow> turn \<Rightarrow> turn" where
  "on_binary p bytes now t =
     (let k = t_socket t in
      if \<not> k_publish k then t\<lparr>t_ok := False\<rparr>
      else
        let t = (if starts_with bytes explore_magic then
                   (let (ok, reg) = explore_frame (parse_uuid_str p) (k_share k) bytes now (t_reg t)
                    in break_if (\<not> ok) (t\<lparr>t_reg := reg\<rparr>))
                 else if millis 100 \<le> duration_since now (k_last_frame k) then
                   (let (ok, reg) = frame (k_share k) bytes now (t_reg t)
                    in break_if (\<not> ok)
                         (t\<lparr>t_reg := reg, t_socket := k\<lparr>k_last_frame := now\<rparr>\<rparr>))
                 else t)
        in if k_frame_flow k then send_msg FrameAck t else t)"

text \<open>A text message goes to the video protocol when the socket speaks it, else to the explore
  protocol, else to the control protocol.\<close>

definition dispatch_text :: "protocol \<Rightarrow> string \<Rightarrow> instant \<Rightarrow> socket \<Rightarrow> registry \<Rightarrow> bool \<times> registry" where
  "dispatch_text p raw now k reg =
     (case (if k_video_supported k
            then video_message (parse_video p) (k_share k) (k_connection k) (k_publish k) raw
                   (video_configuration p) now reg
            else (None, reg)) of
        (Some valid, reg) \<Rightarrow> (valid, reg)
      | (None, reg) \<Rightarrow>
          let (ok, reg) =
                (case explore_message (parse_json p) (explore_from_value p) (k_share k)
                        (k_connection k) (k_user k) (k_publish k) raw reg of
                   (Some ok, reg) \<Rightarrow> (ok, reg)
                 | (None, reg) \<Rightarrow>
                     control_message (parse_control p) (k_share k) (k_connection k) (k_user k)
                       (k_publish k) raw reg)
          in (ok, if ok then reconcile_video (k_share k) now reg else reg))"

definition frame_ack_text :: string where
  "frame_ack_text =
     CHR 0x7B # CHR 0x22 # ''type'' @ CHR 0x22 # CHR 0x3A # CHR 0x22 # ''frameAck'' @ [CHR 0x22, CHR 0x7D]"

definition max_messages :: nat where
  "max_messages = 120"

definition count_message :: "instant \<Rightarrow> socket \<Rightarrow> socket" where
  "count_message now k =
     (let k = (if secs 1 \<le> duration_since now (k_message_window k)
               then k\<lparr>k_message_window := now, k_message_count := 0\<rparr> else k)
      in k\<lparr>k_message_count := k_message_count k + 1\<rparr>)"

definition on_text :: "protocol \<Rightarrow> string \<Rightarrow> instant \<Rightarrow> turn \<Rightarrow> turn" where
  "on_text p raw now t =
     (let k = count_message now (t_socket t); t = t\<lparr>t_socket := k\<rparr> in
      if max_messages < k_message_count k then t\<lparr>t_ok := False\<rparr>
      else if k_frame_flow k \<and> \<not> k_publish k \<and> raw = frame_ack_text
      then t\<lparr>t_socket := k\<lparr>k_pending_frame := None\<rparr>\<rparr>
      else
        let (ok, reg) = dispatch_text p raw now k (t_reg t)
        in break_if (\<not> ok) (t\<lparr>t_reg := reg\<rparr>))"

text \<open>The publisher's receivers: the oldest queued entry is taken and forwarded only when it is
  still current.\<close>

definition take_input :: "uuid \<Rightarrow> registry \<Rightarrow> control_input option \<times> registry" where
  "take_input sid reg =
     (case map_of (shares reg) sid of
        None \<Rightarrow> (None, reg)
      | Some s \<Rightarrow>
          (case ch_queue (control_queue (s_control s)) of
             [] \<Rightarrow> (None, reg)
           | i # q \<Rightarrow>
               (Some i, set_share sid
                  (s\<lparr>s_control := (s_control s)\<lparr>control_queue :=
                       (control_queue (s_control s))\<lparr>ch_queue := q\<rparr>\<rparr>\<rparr>) reg)))"

definition take_action :: "uuid \<Rightarrow> registry \<Rightarrow> explore_action option \<times> registry" where
  "take_action sid reg =
     (case map_of (shares reg) sid of
        None \<Rightarrow> (None, reg)
      | Some s \<Rightarrow>
          (case ch_queue (explore_queue (s_explore s)) of
             [] \<Rightarrow> (None, reg)
           | a # q \<Rightarrow>
               (Some a, set_share sid
                  (s\<lparr>s_explore := (s_explore s)\<lparr>explore_queue :=
                       (explore_queue (s_explore s))\<lparr>ch_queue := q\<rparr>\<rparr>\<rparr>) reg)))"

definition on_input :: "turn \<Rightarrow> turn" where
  "on_input t =
     (let k = t_socket t in
      if \<not> k_publish k then t
      else case take_input (k_share k) (t_reg t) of
        (None, reg) \<Rightarrow> t
      | (Some i, reg) \<Rightarrow>
          let t = t\<lparr>t_reg := reg\<rparr>
          in if input_is_current (k_share k) i reg then send_msg (InputMsg i) t else t)"

definition on_action :: "turn \<Rightarrow> turn" where
  "on_action t =
     (let k = t_socket t in
      if \<not> k_publish k then t
      else case take_action (k_share k) (t_reg t) of
        (None, reg) \<Rightarrow> t
      | (Some a, reg) \<Rightarrow>
          let t = t\<lparr>t_reg := reg\<rparr>
          in if explore_action_current (k_share k) a reg then send_msg (ActionMsg a) t else t)"

definition sent_frame :: "instant \<Rightarrow> byte list \<Rightarrow> turn \<Rightarrow> turn" where
  "sent_frame now bytes t =
     (let t = send_msg (BinaryMsg bytes) t; k = t_socket t
      in if t_ok t \<and> k_frame_flow k then t\<lparr>t_socket := k\<lparr>k_pending_frame := Some now\<rparr>\<rparr> else t)"

text \<open>A viewer that explores sees its own feed, one that does not sees the shared tab's; with
  frame flow, nothing new is sent before the last frame is acknowledged.\<close>

definition on_explore_feed :: "instant \<Rightarrow> turn \<Rightarrow> turn" where
  "on_explore_feed now t =
     (let k = t_socket t in
      if k_publish k \<or> k_pending_frame k \<noteq> None then t
      else case the_share t of
        None \<Rightarrow> t\<lparr>t_ok := False\<rparr>
      | Some s \<Rightarrow>
          (case map_of (explore_frames (s_explore s)) (k_connection k) of
             None \<Rightarrow> t\<lparr>t_ok := False\<rparr>
           | Some (Live (Some bytes)) \<Rightarrow>
               if exploring (k_share k) (k_connection k) (t_reg t) then sent_frame now bytes t else t
           | Some _ \<Rightarrow> t))"

definition on_feed :: "instant \<Rightarrow> turn \<Rightarrow> turn" where
  "on_feed now t =
     (let k = t_socket t in
      if k_pending_frame k \<noteq> None then t
      else case feed_chan (t_reg t) (k_share k) of
        Stopped \<Rightarrow> t\<lparr>t_ok := False\<rparr>
      | Live (Some bytes) \<Rightarrow>
          if \<not> k_publish k \<and> \<not> exploring (k_share k) (k_connection k) (t_reg t)
          then sent_frame now bytes t else t
      | Live None \<Rightarrow> t)"

fun on_event :: "protocol \<Rightarrow> socket_event \<Rightarrow> instant \<Rightarrow> turn \<Rightarrow> turn" where
  "on_event p Lifetime now t = on_lifetime p now t"
| "on_event p (Membership who) now t = break_if (who \<noteq> Some (k_user (t_socket t))) t"
| "on_event p (RecvBinary bytes) now t = on_binary p bytes now t"
| "on_event p RecvPong now t = t"
| "on_event p (RecvPing v) now t = send_msg (PongMsg v) t"
| "on_event p (RecvText raw) now t = on_text p raw now t"
| "on_event p RecvOther now t = t\<lparr>t_ok := False\<rparr>"
| "on_event p VideoChanged now t =
     (if k_video_supported (t_socket t)
      then send_state (video_state_msg p False (t_socket t)) t else t)"
| "on_event p ExploreChanged now t = send_state (explore_state_msg p (t_socket t)) t"
| "on_event p ExploreInputReady now t = on_action t"
| "on_event p ExploreFeedChanged now t = on_explore_feed now t"
| "on_event p ControlChanged now t = send_state (control_state_msg p (t_socket t)) t"
| "on_event p InputReady now t = on_input t"
| "on_event p FeedChanged now t = on_feed now t"

definition socket_step ::
    "protocol \<Rightarrow> socket_event \<Rightarrow> nat \<Rightarrow> instant \<Rightarrow> socket \<Rightarrow> registry \<Rightarrow>
     message list \<times> socket option \<times> registry" where
  "socket_step p ev link now k reg =
     (if (\<not> k_publish k \<and> revoked_chan reg (k_connection k)) \<or> feed_chan reg (k_share k) = Stopped
      then ([], None, socket_end k reg)
      else
        let t = on_event p ev now
                  \<lparr>t_ok = True, t_link = link, t_out = [], t_socket = k, t_reg = reg\<rparr>
        in if t_ok t then (t_out t, Some (t_socket t), t_reg t)
           else (t_out t, None, socket_end (t_socket t) (t_reg t)))"

end
