(* ===== verification/Browser_Invariant.thy ===== *)
theory Browser_Invariant
  imports Browser_Socket
begin

text \<open>
  The invariant of the tab share registry: what every operation of \<open>Registry\<close> keeps true of
  every share, and the step relation of the whole registry, one rule per operation a request or
  a socket can run.
\<close>

section \<open>The invariant of a share\<close>

definition registered :: "share \<Rightarrow> uuid \<Rightarrow> uuid \<Rightarrow> bool" where
  "registered s connection user \<longleftrightarrow> map_of (s_viewers s) connection = Some user"

definition viewers_ok :: "share \<Rightarrow> bool" where
  "viewers_ok s \<longleftrightarrow>
     keys_distinct (s_viewers s) \<and> length (s_viewers s) \<le> 8
     \<and> (\<forall>(c, u) \<in> set (s_viewers s). share_allows s u)
     \<and> distinct (s_removed s) \<and> length (s_removed s) \<le> 256"

definition grant_ok :: "share \<Rightarrow> bool" where
  "grant_ok s \<longleftrightarrow>
     (\<forall>g. c_grant (control_state (s_control s)) = Some g \<longrightarrow>
        registered s (g_connection_id g) (g_user_id g)
        \<and> \<not> explore_is_active (s_explore s) (g_connection_id g))"

definition requests_ok :: "share \<Rightarrow> bool" where
  "requests_ok s \<longleftrightarrow>
     (\<forall>r \<in> set (c_requests (control_state (s_control s))).
        registered s (cr_connection_id r) (cr_user_id r)
        \<and> \<not> explore_is_active (s_explore s) (cr_connection_id r))"

definition views_ok :: "share \<Rightarrow> bool" where
  "views_ok s \<longleftrightarrow>
     (let st = explore_state (s_explore s) in
      length (e_views st) \<le> 4 \<and> distinct (map v_view_id (e_views st))
      \<and> distinct (map v_connection_id (e_views st))
      \<and> (\<forall>v \<in> set (e_views st). registered s (v_connection_id v) (v_user_id v))
      \<and> (\<forall>r \<in> set (e_requests st). registered s (er_connection_id r) (er_user_id r)))"

definition peer_ok :: "peer \<Rightarrow> bool" where
  "peer_ok p \<longleftrightarrow>
     (p_playing p \<longrightarrow> p_answer p \<noteq> None) \<and> (p_answer p \<noteq> None \<longrightarrow> p_offer p \<noteq> None)"

definition peers_ok :: "share \<Rightarrow> bool" where
  "peers_ok s \<longleftrightarrow>
     (let peers = vs_peers (video_state (s_video s)) in
      distinct (map p_id peers) \<and> distinct (map p_connection_id peers)
      \<and> (\<forall>p \<in> set peers. contains_key (s_viewers s) (p_connection_id p) \<and> peer_ok p))"

definition queues_ok :: "share \<Rightarrow> bool" where
  "queues_ok s \<longleftrightarrow>
     length (ch_queue (control_queue (s_control s))) \<le> channel_capacity
     \<and> (\<forall>i \<in> set (ch_queue (control_queue (s_control s))). tab_input_valid (ci_input i))
     \<and> length (ch_queue (explore_queue (s_explore s))) \<le> channel_capacity"

definition share_ok :: "share \<Rightarrow> bool" where
  "share_ok s \<longleftrightarrow>
     viewers_ok s \<and> grant_ok s \<and> requests_ok s \<and> views_ok s \<and> peers_ok s \<and> queues_ok s"

lemmas share_ok_defs =
  share_ok_def viewers_ok_def grant_ok_def requests_ok_def views_ok_def peers_ok_def queues_ok_def
  Let_def

lemma share_allows_cong:
  "s_info s' = s_info s \<Longrightarrow> s_removed s' = s_removed s \<Longrightarrow> s_selected s' = s_selected s \<Longrightarrow>
   share_allows s' u = share_allows s u"
  by (simp add: share_allows_def)

lemma share_allows_simps [simp]:
  "share_allows (s\<lparr>s_control := c\<rparr>) u = share_allows s u"
  "share_allows (s\<lparr>s_explore := e\<rparr>) u = share_allows s u"
  "share_allows (s\<lparr>s_video := v\<rparr>) u = share_allows s u"
  "share_allows (s\<lparr>s_viewers := w\<rparr>) u = share_allows s u"
  "share_allows (s\<lparr>s_seen := t\<rparr>) u = share_allows s u"
  "share_allows (s\<lparr>s_publisher := b\<rparr>) u = share_allows s u"
  by (simp_all add: share_allows_def)

lemma registered_simps [simp]:
  "registered (s\<lparr>s_control := c\<rparr>) = registered s"
  "registered (s\<lparr>s_explore := e\<rparr>) = registered s"
  "registered (s\<lparr>s_video := v\<rparr>) = registered s"
  "registered (s\<lparr>s_seen := t\<rparr>) = registered s"
  "registered (s\<lparr>s_publisher := b\<rparr>) = registered s"
  "registered (s\<lparr>s_removed := r\<rparr>) = registered s"
  by (simp_all add: registered_def fun_eq_iff)

lemma new_share_ok: "share_ok (new_share info selected now)"
  by (simp add: share_ok_defs new_share_def control_default_def control_snapshot_default_def
      explore_default_def video_default_def new_channel_def)

subsection \<open>Control\<close>

lemma explore_is_active_update [simp]:
  "explore_is_active (e\<lparr>explore_queue := q\<rparr>) c = explore_is_active e c"
  "explore_is_active (e\<lparr>explore_frames := f\<rparr>) c = explore_is_active e c"
  "explore_is_active (e\<lparr>explore_last_frames := l\<rparr>) c = explore_is_active e c"
  "explore_is_active (e\<lparr>explore_receiver := b\<rparr>) c = explore_is_active e c"
  by (simp_all add: explore_is_active_def)

text \<open>A new control state is fine when its grant and its requests name registered viewers that do
  not explore.\<close>

lemma set_control_state_ok:
  assumes "share_ok s"
    and "\<And>g. c_grant st = Some g \<Longrightarrow>
           registered s (g_connection_id g) (g_user_id g)
           \<and> \<not> explore_is_active (s_explore s) (g_connection_id g)"
    and "\<And>r. r \<in> set (c_requests st) \<Longrightarrow>
           registered s (cr_connection_id r) (cr_user_id r)
           \<and> \<not> explore_is_active (s_explore s) (cr_connection_id r)"
  shows "share_ok (set_control_state st s)"
  using assms by (simp add: share_ok_defs set_control_state_def)

lemma share_ok_grant:
  "share_ok s \<Longrightarrow> c_grant (control_state (s_control s)) = Some g \<Longrightarrow>
   registered s (g_connection_id g) (g_user_id g)
   \<and> \<not> explore_is_active (s_explore s) (g_connection_id g)"
  by (simp add: share_ok_defs)

lemma share_ok_request:
  "share_ok s \<Longrightarrow> r \<in> set (c_requests (control_state (s_control s))) \<Longrightarrow>
   registered s (cr_connection_id r) (cr_user_id r)
   \<and> \<not> explore_is_active (s_explore s) (cr_connection_id r)"
  by (simp add: share_ok_defs)

lemma control_queue_ok:
  assumes "share_ok s" and "try_send i (control_queue (s_control s)) = Some q"
    and "tab_input_valid (ci_input i)"
  shows "share_ok (s\<lparr>s_control := (s_control s)\<lparr>control_queue := q\<rparr>\<rparr>)"
  using assms try_send_bounded [OF assms(2)] try_send_queue [OF assms(2)]
  by (simp add: share_ok_defs)

lemma find_SomeD: "List.find P xs = Some x \<Longrightarrow> x \<in> set xs \<and> P x"
  by (auto simp: find_Some_iff)

lemma control_apply_ok:
  assumes ok: "share_ok s" and auth: "peer_authorized s connection user publish"
    and app: "control_apply connection user publish cmd s = (b, s')"
  shows "share_ok s'"
proof (cases cmd)
  case RequestControl
  with app ok auth show ?thesis
    by (auto simp: Let_def peer_authorized_def registered_def [symmetric] split: if_splits
        dest: share_ok_grant share_ok_request intro!: set_control_state_ok)
next
  case ReleaseControl
  with app ok show ?thesis
    by (auto simp: Let_def split: if_splits
        dest: share_ok_grant share_ok_request intro!: set_control_state_ok)
next
  case (GrantControl cid gid)
  show ?thesis
  proof (cases "s' = s")
    case False
    let ?st = "control_state (s_control s)"
    from False app GrantControl obtain r where r: "r \<in> set (c_requests ?st)" "cr_connection_id r = cid"
      and s': "s' = set_control_state
        (?st\<lparr>c_grant := Some \<lparr>g_id = gid, g_connection_id = cid, g_user_id = cr_user_id r\<rparr>,
             c_requests := retain (\<lambda>r. cr_connection_id r \<noteq> cid) (c_requests ?st)\<rparr>) s"
      by (auto simp: Let_def split: if_splits option.splits dest!: find_SomeD)
    from share_ok_request [OF ok r(1)] r(2) show ?thesis
      unfolding s' by (intro set_control_state_ok [OF ok]) (auto dest: share_ok_request [OF ok])
  qed (simp add: ok)
next
  case (DenyControl cid)
  with app ok show ?thesis
    by (auto simp: Let_def split: if_splits
        dest: share_ok_grant share_ok_request intro!: set_control_state_ok)
next
  case (ControlInput gid inp)
  with app ok show ?thesis
    by (auto simp: Let_def split: if_splits option.splits intro: control_queue_ok)
qed

subsection \<open>Explore\<close>

lemma set_explore_state_simps [simp]:
  "s_info (set_explore_state st s) = s_info s"
  "s_viewers (set_explore_state st s) = s_viewers s"
  "s_removed (set_explore_state st s) = s_removed s"
  "s_selected (set_explore_state st s) = s_selected s"
  "s_control (set_explore_state st s) = s_control s"
  "s_video (set_explore_state st s) = s_video s"
  "explore_state (s_explore (set_explore_state st s)) = st"
  "explore_queue (s_explore (set_explore_state st s)) = explore_queue (s_explore s)"
  by (simp_all add: set_explore_state_def)

text \<open>A new explore state is fine when its views and requests name registered viewers, its views are
  few and distinct, and no view is held by a connection the control book mentions.\<close>

lemma explore_state_ok:
  assumes "share_ok s"
    and info: "s_info s' = s_info s" "s_viewers s' = s_viewers s" "s_removed s' = s_removed s"
      "s_selected s' = s_selected s" "s_video s' = s_video s" "s_control s' = s_control s"
      "explore_queue (s_explore s') = explore_queue (s_explore s)"
    and st: "explore_state (s_explore s') = st"
    and "length (e_views st) \<le> 4" "distinct (map v_view_id (e_views st))"
      "distinct (map v_connection_id (e_views st))"
    and "\<And>v. v \<in> set (e_views st) \<Longrightarrow> registered s (v_connection_id v) (v_user_id v)"
    and "\<And>r. r \<in> set (e_requests st) \<Longrightarrow> registered s (er_connection_id r) (er_user_id r)"
    and free: "\<And>v. v \<in> set (e_views st) \<Longrightarrow> \<not> control_mentions (s_control s) (v_connection_id v)"
  shows "share_ok s'"
proof -
  have r: "registered s' = registered s" using info by (simp add: registered_def fun_eq_iff)
  have a: "share_allows s' = share_allows s"
    using info by (simp add: share_allows_def fun_eq_iff)
  have gr: "\<not> explore_is_active (s_explore s') c" if "control_mentions (s_control s) c" for c
    using free that by (metis explore_is_active_def st)
  have "grant_ok s'" "requests_ok s'"
    using assms(1) gr
    by (auto simp: share_ok_def grant_ok_def requests_ok_def r info control_mentions_def)
  moreover have "viewers_ok s'" "peers_ok s'" "queues_ok s'"
    using assms(1) by (simp_all add: share_ok_defs info a)
  moreover have "views_ok s'"
    using assms by (simp add: views_ok_def r Let_def)
  ultimately show ?thesis by (simp add: share_ok_def)
qed

lemma share_ok_exclusive:
  "share_ok s \<Longrightarrow> control_mentions (s_control s) c \<Longrightarrow> \<not> explore_is_active (s_explore s) c"
  by (auto simp: share_ok_def grant_ok_def requests_ok_def control_mentions_def)

lemma share_ok_view:
  assumes "share_ok s" and "v \<in> set (e_views (explore_state (s_explore s)))"
  shows "registered s (v_connection_id v) (v_user_id v)"
    and "\<not> control_mentions (s_control s) (v_connection_id v)"
  using assms share_ok_exclusive [OF assms(1)]
  by (simp add: share_ok_defs, metis explore_is_active_def)

lemma share_ok_explore_request:
  "share_ok s \<Longrightarrow> r \<in> set (e_requests (explore_state (s_explore s))) \<Longrightarrow>
   registered s (er_connection_id r) (er_user_id r)"
  by (simp add: share_ok_defs)

lemma share_ok_views:
  assumes "share_ok s"
  shows "length (e_views (explore_state (s_explore s))) \<le> 4"
    and "distinct (map v_view_id (e_views (explore_state (s_explore s))))"
    and "distinct (map v_connection_id (e_views (explore_state (s_explore s))))"
  using assms by (simp_all add: share_ok_defs)

lemma explore_clear_ok:
  assumes ok: "share_ok s"
  shows "share_ok (s\<lparr>s_explore := explore_clear k (s_explore s)\<rparr>)"
proof (rule explore_state_ok [OF ok, where st = "explore_state (explore_clear k (s_explore s))"])
  let ?st = "explore_state (explore_clear k (s_explore s))"
  show "length (e_views ?st) \<le> 4"
    using share_ok_views(1) [OF ok] retain_simps(2) [of _ "e_views (explore_state (s_explore s))"]
    by (simp, blast intro: order_trans)
qed (use share_ok_views [OF ok] in
      \<open>auto simp: distinct_map_retain dest: share_ok_view [OF ok] share_ok_explore_request [OF ok]\<close>)

lemma control_leave_ok:
  assumes "share_ok s"
  shows "share_ok (s\<lparr>s_control := control_leave k (s_control s)\<rparr>)"
  using assms by (simp add: share_ok_defs control_leave_grant)

lemma explore_queue_ok:
  assumes "share_ok s" and "explore_send a s = (b, s')"
  shows "share_ok s'"
proof (cases "try_send a (explore_queue (s_explore s))")
  case None
  with assms show ?thesis by (simp add: explore_send_def)
next
  case (Some q)
  with assms have s': "s' = s\<lparr>s_explore := (s_explore s)\<lparr>explore_queue := q\<rparr>\<rparr>"
    by (simp add: explore_send_def)
  from try_send_bounded [OF Some] assms(1) show ?thesis
    by (simp add: share_ok_defs s')
qed

lemma explore_apply_ok:
  assumes ok: "share_ok s" and auth: "peer_authorized s connection user publish"
    and app: "explore_apply connection user publish cmd s = (b, s')"
  shows "share_ok s'"
proof (cases cmd)
  case (ExploreRequest vp)
  show ?thesis
  proof (cases "s' = s")
    case False
    with app ExploreRequest auth have np: "\<not> publish" and r: "registered s connection user"
      and s': "s' = set_explore_state ((explore_state (s_explore s))
        \<lparr>e_requests := e_requests (explore_state (s_explore s)) @
          [\<lparr>er_connection_id = connection, er_user_id = user, er_viewport = vp\<rparr>]\<rparr>) s"
      by (auto simp: Let_def peer_authorized_def registered_def split: if_splits)
    show ?thesis
      by (rule explore_state_ok [OF ok, where st = "explore_state (s_explore s')"])
        (use r share_ok_views [OF ok] in
          \<open>auto simp: s' dest: share_ok_view [OF ok] share_ok_explore_request [OF ok]\<close>)
  qed (simp add: ok)
next
  case ExploreReturn
  with app ok show ?thesis by (auto intro: explore_clear_ok split: if_splits)
next
  case (ExploreDeny cid)
  show ?thesis
  proof (cases "s' = s")
    case False
    with app ExploreDeny have s': "s' = set_explore_state ((explore_state (s_explore s))
        \<lparr>e_requests := retain (\<lambda>r. er_connection_id r \<noteq> cid)
           (e_requests (explore_state (s_explore s)))\<rparr>) s"
      by (auto simp: Let_def split: if_splits)
    show ?thesis
      by (rule explore_state_ok [OF ok, where st = "explore_state (s_explore s')"])
        (use share_ok_views [OF ok] in
          \<open>auto simp: s' dest: share_ok_view [OF ok] share_ok_explore_request [OF ok]\<close>)
  qed (simp add: ok)
next
  case (ExploreApprove cid vid)
  show ?thesis
  proof (cases "s' = s")
    case False
    let ?st = "explore_state (s_explore s)"
    let ?s1 = "s\<lparr>s_control := control_leave cid (s_control s)\<rparr>"
    from False app ExploreApprove obtain r where
        few: "length (e_views ?st) < 4"
      and new: "\<forall>v \<in> set (e_views ?st). v_connection_id v \<noteq> cid \<and> v_view_id v \<noteq> vid"
      and r: "r \<in> set (e_requests ?st)" "er_connection_id r = cid"
      and s': "s' = set_explore_state (?st\<lparr>e_views := e_views ?st @
          [\<lparr>v_view_id = vid, v_connection_id = cid, v_user_id = er_user_id r,
            v_viewport = er_viewport r\<rparr>],
          e_requests := retain (\<lambda>r. er_connection_id r \<noteq> cid) (e_requests ?st)\<rparr>) ?s1"
      by (auto simp: Let_def split: if_splits option.splits dest!: find_SomeD)
    have ok1: "share_ok ?s1" by (rule control_leave_ok [OF ok])
    have free: "\<not> control_mentions (control_leave cid (s_control s)) c"
      if "c = cid \<or> \<not> control_mentions (s_control s) c" for c
      using that control_book.leave_forgets control_book.leave_keeps by metis
    show ?thesis
      by (rule explore_state_ok [OF ok1, where st = "explore_state (s_explore s')"])
        (use r few new share_ok_views [OF ok] free in
          \<open>auto simp: s' dest: share_ok_view [OF ok] share_ok_explore_request [OF ok]\<close>)
  qed (simp add: ok)
next
  case (ExploreClose vid)
  with app ok show ?thesis
    by (auto simp: Let_def intro: explore_clear_ok split: if_splits option.splits)
next
  case (ExploreResize vid vp)
  show ?thesis
  proof (cases "s' = s")
    case False
    let ?vs = "update_first (\<lambda>v. v_view_id v = vid) (\<lambda>v. v\<lparr>v_viewport := vp\<rparr>)
      (e_views (explore_state (s_explore s)))"
    from False app ExploreResize have s': "s' = set_explore_state
        ((explore_state (s_explore s))\<lparr>e_views := ?vs\<rparr>) s"
      by (auto simp: Let_def split: if_splits)
    have same: "map v_view_id ?vs = map v_view_id (e_views (explore_state (s_explore s)))"
      "map v_connection_id ?vs = map v_connection_id (e_views (explore_state (s_explore s)))"
      by (simp_all add: map_update_first)
    show ?thesis
      by (rule explore_state_ok [OF ok, where st = "explore_state (s_explore s')"])
        (use same share_ok_views [OF ok] in
          \<open>auto simp: s' elim!: in_update_firstE
             dest: share_ok_view [OF ok] share_ok_explore_request [OF ok]\<close>)
  qed (simp add: ok)
next
  case (ExploreInput vid inp)
  with app ok show ?thesis by (auto intro: explore_queue_ok split: if_splits)
next
  case (ExploreNavigate vid act)
  with app ok show ?thesis by (auto intro: explore_queue_ok split: if_splits)
qed


subsection \<open>Video\<close>

lemma set_peers_ok:
  assumes "share_ok s"
    and "distinct (map p_id ps)" and "distinct (map p_connection_id ps)"
    and "\<And>p. p \<in> set ps \<Longrightarrow> contains_key (s_viewers s) (p_connection_id p) \<and> peer_ok p"
  shows "share_ok (set_peers ps s)"
  using assms by (simp add: share_ok_defs set_peers_def)

lemma reconcile_ok:
  assumes "share_ok s"
  shows "share_ok (reconcile now s)"
  using assms by (simp add: share_ok_defs reconcile_def distinct_map_retain)

lemma share_ok_peers:
  assumes "share_ok s"
  shows "distinct (map p_id (vs_peers (video_state (s_video s))))"
    and "distinct (map p_connection_id (vs_peers (video_state (s_video s))))"
    and "p \<in> set (vs_peers (video_state (s_video s))) \<Longrightarrow>
           contains_key (s_viewers s) (p_connection_id p) \<and> peer_ok p"
  using assms by (simp_all add: share_ok_defs)

lemma set_requests_ok: "share_ok s \<Longrightarrow> share_ok (set_requests c ts s)"
  by (simp add: share_ok_defs set_requests_def)

lemma set_requests_simps [simp]:
  "s_viewers (set_requests c ts s) = s_viewers s"
  "s_explore (set_requests c ts s) = s_explore s"
  "s_info (set_requests c ts s) = s_info s"
  "s_removed (set_requests c ts s) = s_removed s"
  "s_selected (set_requests c ts s) = s_selected s"
  "video_state (s_video (set_requests c ts s)) = video_state (s_video s)"
  by (simp_all add: set_requests_def)

lemma update_peer_ok:
  assumes "share_ok s" and "peers = vs_peers (video_state (s_video s))"
    and "\<And>p. P p \<Longrightarrow> peer_ok p \<Longrightarrow> peer_ok (f p)"
    and "\<And>p. p_id (f p) = p_id p" and "\<And>p. p_connection_id (f p) = p_connection_id p"
  shows "share_ok (set_peers (update_first P f peers) s)"
proof (rule set_peers_ok [OF assms(1)])
  show "distinct (map p_id (update_first P f peers))"
    "distinct (map p_connection_id (update_first P f peers))"
    using share_ok_peers [OF assms(1)] assms(2,4,5) by (simp_all add: map_update_first)
  fix p assume "p \<in> set (update_first P f peers)"
  then show "contains_key (s_viewers s) (p_connection_id p) \<and> peer_ok p"
    by (rule in_update_firstE) (use share_ok_peers(3) [OF assms(1)] assms(2-5) in auto)
qed

lemma video_apply_ok:
  assumes ok: "share_ok s" and here: "publish \<or> contains_key (s_viewers s) connection"
    and app: "video_apply now connection publish config cmd s = (r, s')"
  shows "share_ok s'" and "r = Inr ps \<Longrightarrow> share_ok (set_peers ps s')"
proof -
  let ?ps = "vs_peers (video_state (s_video s))"
  have "share_ok s' \<and> (\<forall>ps. r = Inr ps \<longrightarrow> share_ok (set_peers ps s'))"
  proof (cases cmd)
    case (VideoRequest pid vp)
    show ?thesis
    proof (cases "\<exists>ps. r = Inr ps")
      case True
      with app VideoRequest obtain cfg where np: "\<not> publish"
        and new: "\<forall>p \<in> set ?ps. p_id p \<noteq> pid"
        and s': "s' = set_requests connection (recent_requests now connection s @ [now]) s"
        and r: "r = Inr (retain (\<lambda>p. p_connection_id p \<noteq> connection) ?ps @
           [\<lparr>p_id = pid, p_connection_id = connection,
             p_view_id = explore_view_id (s_explore s) connection, p_viewport = vp,
             p_configuration = cfg, p_offer = None, p_answer = None, p_playing = False,
             p_born = Some now\<rparr>])"
        by (auto simp: Let_def split: if_splits option.splits)
      have ok': "share_ok s'" unfolding s' by (rule set_requests_ok [OF ok])
      have "share_ok (set_peers ps s')" if "r = Inr ps" for ps
        by (rule set_peers_ok [OF ok'])
          (use that np new here share_ok_peers [OF ok] in
            \<open>auto simp: r s' peer_ok_def distinct_map_retain image_iff\<close>)
      with ok' show ?thesis by blast
    next
      case False
      with app VideoRequest ok show ?thesis
        by (auto simp: Let_def split: if_splits option.splits intro: set_requests_ok)
    qed
  next
    case (VideoViewport pid vp)
    with app ok show ?thesis
      by (auto split: if_splits intro!: update_peer_ok simp: peer_ok_def)
  next
    case (VideoOffer pid sdp)
    with app ok show ?thesis
      by (auto split: if_splits intro!: update_peer_ok simp: peer_ok_def)
  next
    case (VideoAnswer pid sdp)
    with app ok show ?thesis
      by (auto split: if_splits intro!: update_peer_ok simp: peer_ok_def)
  next
    case (VideoPlaying pid)
    with app ok show ?thesis
      by (auto split: if_splits intro!: update_peer_ok simp: peer_ok_def)
  next
    case (VideoClose pid)
    with app ok show ?thesis
      by (auto intro!: set_peers_ok simp: distinct_map_retain share_ok_peers)
  next
    case VideoAlive
    with app ok show ?thesis by (auto simp: share_ok_defs split: if_splits)
  qed
  then show "share_ok s'" and "r = Inr ps \<Longrightarrow> share_ok (set_peers ps s')" by blast+
qed

subsection \<open>Connections that come and go\<close>

lemma fold_control_leave [simp]:
  "c_requests (control_state (fold control_leave gone c))
     = retain (\<lambda>r. cr_connection_id r \<notin> set gone) (c_requests (control_state c))"
  "control_queue (fold control_leave gone c) = control_queue c"
  "c_grant (control_state (fold control_leave gone c)) = Some g \<longleftrightarrow>
     c_grant (control_state c) = Some g \<and> g_connection_id g \<notin> set gone"
  by (induction gone arbitrary: c) (auto simp: retain_def control_leave_grant conj_commute)

lemma fold_explore_leave [simp]:
  "e_requests (explore_state (fold explore_leave gone e))
     = retain (\<lambda>r. er_connection_id r \<notin> set gone) (e_requests (explore_state e))"
  "e_views (explore_state (fold explore_leave gone e))
     = retain (\<lambda>v. v_connection_id v \<notin> set gone) (e_views (explore_state e))"
  "explore_queue (fold explore_leave gone e) = explore_queue e"
  by (induction gone arbitrary: e) (auto simp: retain_def conj_commute)

lemma fold_video_leave [simp]:
  "vs_peers (video_state (fold video_leave gone v))
     = retain (\<lambda>p. p_connection_id p \<notin> set gone) (vs_peers (video_state v))"
  by (induction gone arbitrary: v) (auto simp: retain_def conj_commute)

lemma registered_drop [simp]:
  "registered (drop_connections gone s) c u \<longleftrightarrow> registered s c u \<and> c \<notin> set gone"
proof -
  have "map_of (filter (\<lambda>(c, u). c \<notin> set gone) (s_viewers s)) c
      = (if c \<notin> set gone then map_of (s_viewers s) c else None)"
    using map_of_filter_fst [of "\<lambda>c. c \<notin> set gone" "s_viewers s" c] by (simp add: case_prod_unfold)
  then show ?thesis by (simp add: registered_def drop_connections_def)
qed

lemma drop_connections_simps [simp]:
  "s_info (drop_connections gone s) = s_info s"
  "s_removed (drop_connections gone s) = s_removed s"
  "s_selected (drop_connections gone s) = s_selected s"
  "s_viewers (drop_connections gone s) = filter (\<lambda>(c, u). c \<notin> set gone) (s_viewers s)"
  "s_control (drop_connections gone s) = fold control_leave gone (s_control s)"
  "s_explore (drop_connections gone s) = fold explore_leave gone (s_explore s)"
  "s_video (drop_connections gone s) = fold video_leave gone (s_video s)"
  by (simp_all add: drop_connections_def)

lemma length_retain_le: "length xs \<le> n \<Longrightarrow> length (retain P xs) \<le> n"
  using retain_simps(2) [of P xs] by (rule order_trans)

lemma drop_connections_ok:
  assumes ok: "share_ok s" and rs: "distinct rs" "length rs \<le> 256"
    and rest: "\<And>c u. (c, u) \<in> set (s_viewers s) \<Longrightarrow> c \<notin> set gone \<Longrightarrow>
                share_allows (s\<lparr>s_removed := rs\<rparr>) u"
  shows "share_ok (drop_connections gone (s\<lparr>s_removed := rs\<rparr>))" (is "share_ok ?s")
proof -
  have allows: "share_allows ?s = share_allows (s\<lparr>s_removed := rs\<rparr>)"
    by (simp add: share_allows_def fun_eq_iff)
  have "length (filter (\<lambda>(c, u). c \<notin> set gone) (s_viewers s)) \<le> 8"
    using ok by (auto simp: share_ok_def viewers_ok_def intro: order_trans [OF length_filter_le])
  then have "viewers_ok ?s"
    using ok rs rest by (auto simp: share_ok_def viewers_ok_def allows)
  moreover have "grant_ok ?s" "requests_ok ?s"
    using ok by (auto simp: share_ok_def grant_ok_def requests_ok_def explore_is_active_def)
  moreover have "views_ok ?s"
    using ok share_ok_views [OF ok]
    by (auto simp: share_ok_def views_ok_def Let_def distinct_map_retain length_retain_le)
  moreover have "contains_key (filter (\<lambda>(c, u). c \<notin> set gone) (s_viewers s)) c"
    if "contains_key (s_viewers s) c" "c \<notin> set gone" for c
    using that by (force simp: contains_key_iff)
  then have "peers_ok ?s"
    using share_ok_peers [OF ok] by (simp add: peers_ok_def Let_def distinct_map_retain)
  moreover have "queues_ok ?s"
    using ok by (simp add: share_ok_def queues_ok_def)
  ultimately show ?thesis by (simp add: share_ok_def)
qed

lemma share_ok_leave:
  assumes ok: "share_ok s"
  shows "share_ok (s\<lparr>s_viewers := AList.delete c (s_viewers s),
     s_control := control_leave c (s_control s), s_explore := explore_leave c (s_explore s),
     s_video := video_leave c (s_video s)\<rparr>)"
proof -
  have "share_ok (drop_connections [c] (s\<lparr>s_removed := s_removed s\<rparr>))"
    by (rule drop_connections_ok [OF ok])
      (use ok in \<open>auto simp: share_ok_def viewers_ok_def\<close>)
  moreover have "filter (\<lambda>(k, u). k \<notin> set [c]) (s_viewers s) = AList.delete c (s_viewers s)"
    by (auto simp: AList.delete_eq intro!: filter_cong)
  ultimately show ?thesis by (simp add: drop_connections_def)
qed

lemma explore_join_simps [simp]:
  "explore_state (explore_join c e) = explore_state e"
  "explore_queue (explore_join c e) = explore_queue e"
  by (simp_all add: explore_join_def)

lemma open_connection_ok:
  assumes "share_ok s" and "open_connection sid c publish s = (conn, s')"
  shows "share_ok s'"
  using assms
  by (auto simp: open_connection_def share_ok_defs explore_is_active_def split: if_splits)

lemma new_viewer_ok:
  assumes ok: "share_ok s" and room: "length (s_viewers s) < 8" and allowed: "share_allows s user"
    and fresh: "\<not> contains_key (s_viewers s) c"
  shows "share_ok (s\<lparr>s_viewers := AList.update c user (s_viewers s)\<rparr>)" (is "share_ok ?s")
proof -
  have mono: "registered ?s k u" if "registered s k u" for k u
    using that fresh by (auto simp: registered_def contains_key_def AList.update_conv')
  have keys: "contains_key (AList.update c user (s_viewers s)) k"
    if "contains_key (s_viewers s) k" for k
    using that by (auto simp: contains_key_def AList.update_conv')
  have "viewers_ok ?s"
    using ok room allowed set_AList_update_subset [of c user "s_viewers s"] fresh
    by (auto simp: share_ok_def viewers_ok_def AList.distinct_update length_AList_update)
  moreover have "grant_ok ?s" "requests_ok ?s" "views_ok ?s" "peers_ok ?s" "queues_ok ?s"
    using ok mono keys by (auto simp: share_ok_defs)
  ultimately show ?thesis by (simp add: share_ok_def)
qed

section \<open>The invariant of the registry\<close>

definition infos :: "registry \<Rightarrow> share_info list" where
  "infos reg = map (\<lambda>(i, s). s_info s) (shares reg)"

definition reg_ok :: "registry \<Rightarrow> bool" where
  "reg_ok reg \<longleftrightarrow>
     keys_distinct (shares reg) \<and> length (shares reg) \<le> 64
     \<and> distinct (map si_owner_user_id (infos reg))
     \<and> (\<forall>p. count_list (map si_project_id (infos reg)) p \<le> 8)
     \<and> (\<forall>(i, s) \<in> set (shares reg). share_ok s \<and> si_id (s_info s) = i)"

lemma reg_ok_default: "reg_ok registry_default"
  by (simp add: reg_ok_def registry_default_def infos_def)

lemma reg_ok_share: "reg_ok reg \<Longrightarrow> map_of (shares reg) sid = Some s \<Longrightarrow> share_ok s \<and> si_id (s_info s) = sid"
  by (auto simp: reg_ok_def dest!: map_of_SomeD)

lemma map_AList_update:
  "map_of m k = Some v \<Longrightarrow> f (k, v') = f (k, v) \<Longrightarrow> map f (AList.update k v' m) = map f m"
  by (induction m) (auto split: if_splits)

lemma infos_set_share:
  "map_of (shares reg) sid = Some s \<Longrightarrow> s_info s' = s_info s \<Longrightarrow> infos (set_share sid s' reg) = infos reg"
  unfolding infos_def set_share_def by (simp, rule map_AList_update) auto

text \<open>Replacing a share by a well-formed one with the same description keeps the registry fine.\<close>

lemma set_share_ok:
  assumes "reg_ok reg" and "map_of (shares reg) sid = Some s" and "share_ok s'"
    and "s_info s' = s_info s"
  shows "reg_ok (set_share sid s' reg)"
proof -
  have "si_id (s_info s) = sid" using reg_ok_share [OF assms(1,2)] by simp
  moreover have "set (AList.update sid s' (shares reg)) \<subseteq> insert (sid, s') (set (shares reg))"
    by (rule set_AList_update_subset)
  moreover have "length (AList.update sid s' (shares reg)) = length (shares reg)"
    using assms(2) by (simp add: length_AList_update contains_key_def)
  ultimately show ?thesis
    using assms infos_set_share [OF assms(2,4)]
    by (fastforce simp: reg_ok_def set_share_def AList.distinct_update)
qed

lemma reg_ok_channels [simp]:
  "reg_ok (reg\<lparr>feed_chan := f\<rparr>) = reg_ok reg"
  "reg_ok (reg\<lparr>revoked_chan := g\<rparr>) = reg_ok reg"
  by (simp_all add: reg_ok_def infos_def)

lemma count_list_filter: "count_list (map f xs) p = length (filter (\<lambda>x. f x = p) xs)"
  by (induction xs) auto

lemma length_filter_filter: "length (filter Q (filter P xs)) \<le> length (filter Q xs)"
  by (induction xs) auto

lemma AList_update_fresh: "\<not> contains_key m k \<Longrightarrow> AList.update k v m = m @ [(k, v)]"
  by (induction m) (auto simp: contains_key_def split: if_splits)

text \<open>Shares may go: the rest stays fine.\<close>

lemma reg_ok_filter:
  assumes "reg_ok reg" and "shares reg' = filter P (shares reg)"
  shows "reg_ok reg'"
proof -
  have "count_list (map si_project_id (infos reg')) p \<le> count_list (map si_project_id (infos reg)) p" for p
    unfolding infos_def assms(2) map_map count_list_filter by (rule length_filter_filter)
  then have "count_list (map si_project_id (infos reg')) p \<le> 8" for p
    using assms(1) by (meson order_trans reg_ok_def)
  moreover have "distinct (map si_owner_user_id (infos reg'))"
    using assms(1) unfolding reg_ok_def infos_def assms(2) map_map
    by (blast intro: distinct_map_filter)
  moreover have "length (shares reg') \<le> 64"
    using assms by (auto simp: reg_ok_def intro: order_trans [OF length_filter_le])
  ultimately show ?thesis using assms by (auto simp: reg_ok_def)
qed

lemma prune_ok: "reg_ok reg \<Longrightarrow> reg_ok (prune now reg)"
  by (erule reg_ok_filter) (simp add: prune_def Let_def)

lemma find_share_Some:
  "find_share project sid reg = Some s \<Longrightarrow>
   map_of (shares reg) sid = Some s \<and> si_project_id (s_info s) = project"
  by (auto simp: find_share_def split: option.splits if_splits)

subsection \<open>Every operation keeps it\<close>

lemma create_ok:
  assumes "reg_ok reg" and fresh: "\<not> contains_key (shares reg) new_id"
  shows "reg_ok (snd (create project owner selected now new_id reg))"
proof -
  let ?r = "prune now reg"
  have ok: "reg_ok ?r" by (rule prune_ok [OF assms(1)])
  have fresh': "\<not> contains_key (shares ?r) new_id"
    using fresh by (auto simp: prune_def Let_def contains_key_iff)
  show ?thesis
  proof (cases "64 \<le> length (shares ?r)
      \<or> 8 \<le> length (filter (\<lambda>(i, s). si_project_id (s_info s) = project) (shares ?r))
      \<or> (\<exists>(i, s) \<in> set (shares ?r). si_owner_user_id (s_info s) = owner)")
    case True
    with ok show ?thesis by (simp add: create_def Let_def)
  next
    case False
    define info where "info = \<lparr>si_id = new_id, si_project_id = project, si_owner_user_id = owner,
      si_audience = (if selected \<noteq> None then ''selected'' else ''space''), si_mode = ''view''\<rparr>"
    define s where "s = new_share info selected now"
    have upd: "AList.update new_id s (shares ?r) = shares ?r @ [(new_id, s)]"
      by (rule AList_update_fresh [OF fresh'])
    have info: "s_info s = info" by (simp add: s_def new_share_def)
    have "count_list (map si_project_id (infos ?r)) p \<le> 7" if "p = project" for p
      using False that by (simp add: count_list_filter infos_def o_def case_prod_unfold)
    moreover have "infos (set_share new_id s ?r) = infos ?r @ [info]"
      by (simp add: infos_def set_share_def upd info)
    moreover have "owner \<notin> set (map si_owner_user_id (infos ?r))"
      using False by (auto simp: infos_def)
    moreover have "shares (set_share new_id s ?r) = shares ?r @ [(new_id, s)]"
      by (simp add: set_share_def upd)
    ultimately have "reg_ok (set_share new_id s ?r)"
      using ok False fresh' new_share_ok [of info selected now] info
      unfolding reg_ok_def contains_key_iff s_def [symmetric] by (auto simp: info_def)
    with False show ?thesis by (simp add: create_def Let_def s_def info_def)
  qed
qed

lemma connect_ok:
  assumes "reg_ok reg"
    and fresh: "\<And>i s. (i, s) \<in> set (shares reg) \<Longrightarrow> \<not> contains_key (s_viewers s) cid"
  shows "reg_ok (snd (connect project sid user publish now cid reg))"
proof (cases "find_share project sid (prune now reg)")
  case None
  with prune_ok [OF assms(1)] show ?thesis by (simp add: connect_def Let_def)
next
  case (Some s)
  let ?r = "prune now reg"
  have ok: "reg_ok ?r" by (rule prune_ok [OF assms(1)])
  from find_share_Some [OF Some] have m: "map_of (shares ?r) sid = Some s" by simp
  from reg_ok_share [OF ok m] have s: "share_ok s" by simp
  from m have "(sid, s) \<in> set (shares reg)"
    by (auto simp: prune_def Let_def dest!: map_of_SomeD)
  then have f: "\<not> contains_key (s_viewers s) cid" by (rule fresh)
  have pub: "share_ok (s\<lparr>s_publisher := True\<rparr>)" using s by (simp add: share_ok_defs)
  show ?thesis
  proof (cases publish)
    case True
    with Some ok m pub show ?thesis
      by (auto simp: connect_def Let_def open_connection_def
          intro!: set_share_ok open_connection_ok [OF pub, of sid cid True])
  next
    case False
    show ?thesis
    proof (cases "share_allows s user \<and> length (s_viewers s) < 8")
      case True
      then have v: "share_ok (s\<lparr>s_viewers := AList.update cid user (s_viewers s)\<rparr>)"
        using new_viewer_ok [OF s] f by blast
      from True False Some ok m show ?thesis
        by (auto simp: connect_def Let_def open_connection_def
            intro!: set_share_ok open_connection_ok [OF v, of sid cid False])
    next
      case False
      with Some ok \<open>\<not> publish\<close> show ?thesis by (auto simp: connect_def Let_def)
    qed
  qed
qed

lemma share_ok_flags [simp]:
  "share_ok (s\<lparr>s_seen := t\<rparr>) = share_ok s"
  "share_ok (s\<lparr>s_publisher := b\<rparr>) = share_ok s"
  "share_ok (s\<lparr>s_control := (s_control s)\<lparr>control_state :=
      (control_state (s_control s))\<lparr>c_available := b\<rparr>\<rparr>\<rparr>) = share_ok s"
  "share_ok (s\<lparr>s_explore := (s_explore s)\<lparr>explore_state :=
      (explore_state (s_explore s))\<lparr>e_available := b\<rparr>\<rparr>\<rparr>) = share_ok s"
  "share_ok (s\<lparr>s_explore := (s_explore s)\<lparr>explore_last_frames := l, explore_frames := f\<rparr>\<rparr>)
     = share_ok s"
  "share_ok (s\<lparr>s_explore := (s_explore s)\<lparr>explore_last_frames := l\<rparr>\<rparr>) = share_ok s"
  "share_ok (s\<lparr>s_video := (s_video s)\<lparr>video_state :=
      (video_state (s_video s))\<lparr>vs_available := b\<rparr>\<rparr>\<rparr>) = share_ok s"
  by (simp_all add: share_ok_defs explore_is_active_def)

lemma set_share_ok':
  assumes "reg_ok reg" and "map_of (shares reg) sid = Some s"
    and "share_ok s \<Longrightarrow> share_ok s'" and "s_info s' = s_info s"
  shows "reg_ok (set_share sid s' reg)"
  using set_share_ok [OF assms(1,2)] reg_ok_share [OF assms(1,2)] assms(3,4) by blast

lemma frame_ok: "reg_ok reg \<Longrightarrow> reg_ok (snd (frame sid bytes now reg))"
  by (auto simp: frame_def Let_def split: option.splits intro: prune_ok set_share_ok')

lemma stop_ok: "reg_ok reg \<Longrightarrow> reg_ok (snd (stop project sid user reg))"
  by (auto simp: stop_def AList.delete_eq split: option.splits intro: reg_ok_filter)

lemma connections_of_iff: "c \<in> set (connections_of s user) \<longleftrightarrow> (c, user) \<in> set (s_viewers s)"
  by (force simp: connections_of_def)

lemma removed_viewer_ok:
  assumes ok: "share_ok s" and room: "length (s_removed s) < 256 \<or> user \<in> set (s_removed s)"
    and owner: "user \<noteq> si_owner_user_id (s_info s)"
  shows "share_ok (drop_connections (connections_of s user)
           (s\<lparr>s_removed := List.insert user (s_removed s)\<rparr>))"
proof (rule drop_connections_ok [OF ok])
  show "distinct (List.insert user (s_removed s))"
    using ok by (simp add: share_ok_def viewers_ok_def)
  show "length (List.insert user (s_removed s)) \<le> 256"
    using ok room by (auto simp: share_ok_def viewers_ok_def List.insert_def)
  fix c u
  assume "(c, u) \<in> set (s_viewers s)" and "c \<notin> set (connections_of s user)"
  then have "u \<noteq> user" and "share_allows s u"
    using ok by (auto simp: connections_of_iff share_ok_def viewers_ok_def)
  then show "share_allows (s\<lparr>s_removed := List.insert user (s_removed s)\<rparr>) u"
    by (auto simp: share_allows_def)
qed

lemma remove_viewer_ok:
  assumes "reg_ok reg"
  shows "reg_ok (snd (remove_viewer project sid owner user reg))"
proof (cases "find_share project sid reg")
  case None
  with assms show ?thesis by (simp add: remove_viewer_def)
next
  case (Some s)
  from find_share_Some [OF Some] have m: "map_of (shares reg) sid = Some s" by simp
  from reg_ok_share [OF assms m] have s: "share_ok s" by simp
  show ?thesis
  proof (cases "owner = si_owner_user_id (s_info s) \<and> user \<noteq> owner
      \<and> (length (s_removed s) < 256 \<or> user \<in> set (s_removed s))")
    case True
    with removed_viewer_ok [OF s, of user] Some assms show ?thesis
      by (simp add: remove_viewer_def Let_def not_le set_share_ok [OF _ m])
  next
    case False
    with Some assms show ?thesis by (auto simp: remove_viewer_def)
  qed
qed

lemma audience_members_ok: "reg_ok reg \<Longrightarrow> reg_ok (snd (audience_members project sid owner now reg))"
  by (auto simp: audience_members_def Let_def split: option.splits intro: prune_ok)

lemma list_shares_ok: "reg_ok reg \<Longrightarrow> reg_ok (snd (list_shares project user now reg))"
  by (simp add: list_shares_def Let_def prune_ok)

lemma leave_ok: "reg_ok reg \<Longrightarrow> reg_ok (leave sid c reg)"
  by (auto simp: leave_def split: option.splits intro!: set_share_ok share_ok_leave dest: reg_ok_share)

lemma enable_ok:
  assumes "reg_ok reg"
  shows "reg_ok (enable_control sid reg)" "reg_ok (enable_explore sid reg)"
    "reg_ok (enable_video sid reg)"
  using assms
  by (auto simp: enable_control_def enable_explore_def enable_video_def Let_def
      split: option.splits intro: set_share_ok')

lemma control_apply_info:
  "control_apply connection user publish cmd s = (b, s') \<Longrightarrow> s_info s' = s_info s"
  by (cases cmd) (auto simp: Let_def set_control_state_def split: if_splits option.splits)

lemma explore_apply_info:
  "explore_apply connection user publish cmd s = (b, s') \<Longrightarrow> s_info s' = s_info s"
  by (cases cmd) (auto simp: Let_def set_explore_state_def explore_send_def
      split: if_splits option.splits)

lemma video_apply_info:
  "video_apply now connection publish config cmd s = (r, s') \<Longrightarrow> s_info s' = s_info s"
  by (cases cmd) (auto simp: Let_def split: if_splits option.splits)

text \<open>A message either leaves the registry alone or replaces its share by what the command makes
  of it.\<close>

lemma control_message_cases:
  assumes "control_message parse sid connection user publish raw reg = (ok, reg')"
  shows "reg' = reg \<or>
    (\<exists>s s' cmd. map_of (shares reg) sid = Some s \<and> peer_authorized s connection user publish
       \<and> s_publisher s \<and> control_apply connection user publish cmd s = (ok, s')
       \<and> reg' = set_share sid s' reg)"
  using assms unfolding control_message_def
  by (simp split: if_splits option.splits prod.splits) blast

lemma explore_message_cases:
  assumes "explore_message pv fv sid connection user publish raw reg = (ok, reg')"
  shows "reg' = reg \<or>
    (\<exists>s s' cmd b. map_of (shares reg) sid = Some s \<and> peer_authorized s connection user publish
       \<and> s_publisher s \<and> explore_apply connection user publish cmd s = (b, s')
       \<and> reg' = set_share sid s' reg)"
  using assms unfolding explore_message_def
  by (simp split: if_splits option.splits prod.splits) blast

lemma control_message_ok:
  assumes "reg_ok reg"
  shows "reg_ok (snd (control_message parse sid connection user publish raw reg))"
proof -
  obtain ok reg' where e: "control_message parse sid connection user publish raw reg = (ok, reg')"
    by (cases "control_message parse sid connection user publish raw reg")
  from control_message_cases [OF e] have "reg_ok reg'"
    using assms set_share_ok' control_apply_ok control_apply_info by metis
  with e show ?thesis by simp
qed

lemma explore_message_ok:
  assumes "reg_ok reg"
  shows "reg_ok (snd (explore_message pv fv sid connection user publish raw reg))"
proof -
  obtain ok reg' where e: "explore_message pv fv sid connection user publish raw reg = (ok, reg')"
    by (cases "explore_message pv fv sid connection user publish raw reg")
  from explore_message_cases [OF e] have "reg_ok reg'"
    using assms set_share_ok' explore_apply_ok explore_apply_info by metis
  with e show ?thesis by simp
qed

lemma explore_frame_ok:
  assumes "reg_ok reg"
  shows "reg_ok (snd (explore_frame parse_uuid sid bytes now reg))"
  using assms by (auto simp: explore_frame_def Let_def split: option.splits intro: set_share_ok')

lemma reconcile_simps [simp]:
  "s_info (reconcile now s) = s_info s"
  "s_viewers (reconcile now s) = s_viewers s"
  "s_removed (reconcile now s) = s_removed s"
  "s_selected (reconcile now s) = s_selected s"
  "s_control (reconcile now s) = s_control s"
  "s_explore (reconcile now s) = s_explore s"
  "s_publisher (reconcile now s) = s_publisher s"
  by (simp_all add: reconcile_def Let_def)

lemma reconcile_video_ok: "reg_ok reg \<Longrightarrow> reg_ok (reconcile_video sid now reg)"
  by (auto simp: reconcile_video_def split: option.splits intro: set_share_ok' reconcile_ok)

lemma set_peers_simps [simp]:
  "s_info (set_peers ps s) = s_info s"
  "s_viewers (set_peers ps s) = s_viewers s"
  "s_removed (set_peers ps s) = s_removed s"
  "s_selected (set_peers ps s) = s_selected s"
  by (simp_all add: set_peers_def)

lemma video_message_cases:
  assumes "video_message parse sid connection publish raw config now reg = (ok, reg')"
  shows "reg' = reg \<or>
    (\<exists>s s'. map_of (shares reg) sid = Some s \<and> reg' = set_share sid s' reg \<and>
       (s' = reconcile now s \<or>
        (publish \<or> contains_key (s_viewers s) connection) \<and>
        (\<exists>cmd r s1. video_apply now connection publish config cmd (reconcile now s) = (r, s1) \<and>
           (s' = s1 \<or> (\<exists>ps. r = Inr ps \<and> s' = reconcile now (set_peers ps s1))))))"
  using assms unfolding video_message_def Let_def
  by (simp split: if_splits option.splits prod.splits sum.splits; blast)

lemma video_message_ok:
  assumes "reg_ok reg"
  shows "reg_ok (snd (video_message parse sid connection publish raw config now reg))"
proof -
  obtain ok reg' where e: "video_message parse sid connection publish raw config now reg = (ok, reg')"
    by (cases "video_message parse sid connection publish raw config now reg")
  from video_message_cases [OF e] consider "reg' = reg"
    | s s' where "map_of (shares reg) sid = Some s" and "reg' = set_share sid s' reg"
      and "s' = reconcile now s \<or> (publish \<or> contains_key (s_viewers s) connection) \<and>
        (\<exists>cmd r s1. video_apply now connection publish config cmd (reconcile now s) = (r, s1) \<and>
           (s' = s1 \<or> (\<exists>ps. r = Inr ps \<and> s' = reconcile now (set_peers ps s1))))"
    by blast
  then have "reg_ok reg'"
  proof cases
    case (2 s s')
    have s: "share_ok (reconcile now s)"
      using reg_ok_share [OF assms 2(1)] by (simp add: reconcile_ok)
    have applied: "share_ok s' \<and> s_info s' = s_info s"
      if app: "video_apply now connection publish config cmd (reconcile now s) = (r, s1)"
        and who: "publish \<or> contains_key (s_viewers s) connection"
        and s': "s' = s1 \<or> (\<exists>ps. r = Inr ps \<and> s' = reconcile now (set_peers ps s1))"
      for cmd r s1
      using video_apply_ok [OF s _ app] video_apply_info [OF app] who s' by (auto simp: reconcile_ok)
    from 2(3) have "share_ok s' \<and> s_info s' = s_info s"
      using s applied by auto
    with 2(1,2) assms show ?thesis by (simp add: set_share_ok)
  qed (use assms in simp)
  with e show ?thesis by simp
qed

end
