(* ===== verification/Browser_Steps.thy ===== *)
theory Browser_Steps
  imports Browser_Invariant
begin

text \<open>
  The registry as a state machine: one rule per operation that runs under its lock, in any order
  and from any socket or request. The properties of tab sharing are facts of every reachable
  registry and of every run.
\<close>

section \<open>Steps\<close>

text \<open>Identifiers come from \<open>Uuid::new_v4\<close>: a share id is not one of the registry's and was not
  the id of a stopped share, a connection id is not in use and was not revoked.\<close>

definition fresh_share :: "registry \<Rightarrow> uuid \<Rightarrow> bool" where
  "fresh_share reg sid \<longleftrightarrow> \<not> contains_key (shares reg) sid \<and> feed_chan reg sid \<noteq> Stopped"

definition fresh_connection :: "registry \<Rightarrow> uuid \<Rightarrow> bool" where
  "fresh_connection reg c \<longleftrightarrow>
     (\<forall>(i, s) \<in> set (shares reg). \<not> contains_key (s_viewers s) c) \<and> \<not> revoked_chan reg c"

inductive reg_step :: "registry \<Rightarrow> registry \<Rightarrow> bool" where
  step_prune: "reg_step reg (prune now reg)"
| step_create: "fresh_share reg sid \<Longrightarrow> reg_step reg (snd (create project owner selected now sid reg))"
| step_connect: "fresh_connection reg c \<Longrightarrow>
    reg_step reg (snd (connect project sid user publish now c reg))"
| step_frame: "reg_step reg (snd (frame sid bytes now reg))"
| step_stop: "reg_step reg (snd (stop project sid user reg))"
| step_remove: "reg_step reg (snd (remove_viewer project sid owner user reg))"
| step_leave: "reg_step reg (leave sid c reg)"
| step_enable_control: "reg_step reg (enable_control sid reg)"
| step_enable_explore: "reg_step reg (enable_explore sid reg)"
| step_enable_video: "reg_step reg (enable_video sid reg)"
| step_control: "reg_step reg (snd (control_message parse sid c user publish raw reg))"
| step_explore: "reg_step reg (snd (explore_message pv fv sid c user publish raw reg))"
| step_explore_frame: "reg_step reg (snd (explore_frame pu sid bytes now reg))"
| step_video: "reg_step reg (snd (video_message pvd sid c publish raw config now reg))"
| step_reconcile: "reg_step reg (reconcile_video sid now reg)"
| step_take_input: "reg_step reg (snd (take_input sid reg))"
| step_take_action: "reg_step reg (snd (take_action sid reg))"

lemma take_ok:
  assumes "reg_ok reg"
  shows "reg_ok (snd (take_input sid reg))" "reg_ok (snd (take_action sid reg))"
  using assms
  by (auto simp: take_input_def take_action_def share_ok_defs explore_is_active_def
      split: option.splits list.splits intro: set_share_ok')

lemmas reg_ops_ok =
  prune_ok frame_ok stop_ok remove_viewer_ok leave_ok enable_ok control_message_ok
  explore_message_ok explore_frame_ok video_message_ok reconcile_video_ok take_ok

interpretation registry_machine: invariant_system reg_step reg_ok
proof unfold_locales
  fix reg reg'
  assume ok: "reg_ok reg" and "reg_step reg reg'"
  from this(2) show "reg_ok reg'"
  proof cases
    case (step_create sid project owner selected now)
    then show ?thesis using create_ok [OF ok] by (auto simp: fresh_share_def)
  next
    case (step_connect c project sid user publish now)
    then show ?thesis using connect_ok [OF ok] by (fastforce simp: fresh_connection_def)
  qed (use ok reg_ops_ok in simp_all)
qed

section \<open>The sockets only take these steps\<close>

lemma reg_step_results:
  "frame sid bytes now reg = (b, reg') \<Longrightarrow> reg_step reg reg'"
  "stop project sid user reg = (r, reg') \<Longrightarrow> reg_step reg reg'"
  "control_message parse sid c user publish raw reg = (b, reg') \<Longrightarrow> reg_step reg reg'"
  "explore_message pv fv sid c user publish raw reg = (ob, reg') \<Longrightarrow> reg_step reg reg'"
  "explore_frame pu sid bytes now reg = (b, reg') \<Longrightarrow> reg_step reg reg'"
  "video_message pvd sid c publish raw config now reg = (ob, reg') \<Longrightarrow> reg_step reg reg'"
  "take_input sid reg = (i, reg') \<Longrightarrow> reg_step reg reg'"
  "take_action sid reg = (a, reg') \<Longrightarrow> reg_step reg reg'"
  by (metis reg_step.intros snd_conv)+

lemmas run_intros = reaches_refl [of reg_step] reaches_step [of reg_step]

lemma run_back: "reg_step s t \<Longrightarrow> reaches reg_step r s \<Longrightarrow> reaches reg_step r t"
  by (rule run_intros(2))

lemma socket_end_reaches: "reaches reg_step reg (socket_end k reg)"
  by (auto simp: socket_end_def intro: reaches_one reg_step.intros)

lemma dispatch_text_reaches:
  "dispatch_text p raw now k reg = (ok, reg') \<Longrightarrow> reaches reg_step reg reg'"
  unfolding dispatch_text_def
  by (auto split: if_splits prod.splits option.splits dest!: reg_step_results)
    ((rule run_back, (assumption | rule step_reconcile))+, rule reaches_refl)+

lemma t_reg_simps [simp]:
  "t_reg (send_msg m t) = t_reg t"
  "t_reg (send_state f t) = t_reg t"
  "t_reg (break_if b t) = t_reg t"
  "t_reg (sent_frame now bytes t) = t_reg t"
  by (simp_all add: send_msg_def send_state_def break_if_def sent_frame_def Let_def split: option.splits)

lemma t_reg_feeds [simp]:
  "t_reg (on_explore_feed now t) = t_reg t"
  "t_reg (on_feed now t) = t_reg t"
  by (simp_all add: on_explore_feed_def on_feed_def Let_def split: option.splits feed.splits)

lemma on_lifetime_reaches: "reaches reg_step (t_reg t) (t_reg (on_lifetime p now t))"
proof -
  let ?r = "prune now (t_reg t)"
  have "t_reg (on_lifetime p now t) \<in> {t_reg t, ?r, reconcile_video (k_share (t_socket t)) now ?r}"
    by (simp add: on_lifetime_def tick_control_def tick_video_def tick_explore_def Let_def)
  then show ?thesis by (auto intro: run_intros(1)) (blast intro: run_intros step_prune step_reconcile)+
qed

lemma on_event_reaches: "reaches reg_step (t_reg t) (t_reg (on_event p ev now t))"
proof (cases ev)
  case Lifetime
  then show ?thesis by (simp add: on_lifetime_reaches)
next
  case (RecvBinary bytes)
  then show ?thesis
    by (auto simp: on_binary_def Let_def split: prod.splits
        intro: reaches_one reaches_refl reg_step_results)
next
  case (RecvText raw)
  then show ?thesis
    by (auto simp: on_text_def Let_def split: prod.splits intro: reaches_refl dispatch_text_reaches)
next
  case ExploreInputReady
  then show ?thesis
    by (auto simp: on_action_def Let_def split: prod.splits option.splits
        intro: reaches_one reaches_refl reg_step_results)
next
  case InputReady
  then show ?thesis
    by (auto simp: on_input_def Let_def split: prod.splits option.splits
        intro: reaches_one reaches_refl reg_step_results)
qed (simp_all add: reaches_refl)

lemma socket_step_reaches:
  "socket_step p ev link now k reg = (out, k', reg') \<Longrightarrow> reaches reg_step reg reg'"
  using on_event_reaches [of "\<lparr>t_ok = True, t_link = link, t_out = [], t_socket = k, t_reg = reg\<rparr>" p ev now]
  by (auto simp: socket_step_def Let_def split: if_splits
      intro: socket_end_reaches reaches_trans [OF socket_end_reaches])

section \<open>What a step keeps of a share\<close>

text \<open>A share never changes its description or its selection, nobody leaves the list of removed
  people, and a share that goes leaves a stopped feed that stays stopped; a revoked connection
  stays revoked.\<close>

definition share_kept :: "share \<Rightarrow> share \<Rightarrow> bool" where
  "share_kept s s' \<longleftrightarrow>
     s_info s' = s_info s \<and> s_born s' = s_born s \<and> s_selected s' = s_selected s
     \<and> set (s_removed s) \<subseteq> set (s_removed s')"

definition ended :: "registry \<Rightarrow> uuid \<Rightarrow> bool" where
  "ended reg sid \<longleftrightarrow> map_of (shares reg) sid = None \<and> feed_chan reg sid = Stopped"

definition follows :: "registry \<Rightarrow> registry \<Rightarrow> uuid \<Rightarrow> bool" where
  "follows reg reg' sid \<longleftrightarrow>
     (\<forall>s. map_of (shares reg) sid = Some s \<longrightarrow>
        (\<exists>s'. map_of (shares reg') sid = Some s' \<and> share_kept s s') \<or> ended reg' sid)
     \<and> (ended reg sid \<longrightarrow> ended reg' sid)"

definition evolves :: "registry \<Rightarrow> registry \<Rightarrow> bool" where
  "evolves reg reg' \<longleftrightarrow>
     (\<forall>sid. follows reg reg' sid) \<and> (\<forall>c. revoked_chan reg c \<longrightarrow> revoked_chan reg' c)"

lemma share_kept_refl [simp]: "share_kept s s"
  by (simp add: share_kept_def)

lemma evolves_refl [simp]: "evolves reg reg"
  by (auto simp: evolves_def follows_def)

lemma share_kept_trans: "share_kept s t \<Longrightarrow> share_kept t u \<Longrightarrow> share_kept s u"
  by (auto simp: share_kept_def)

lemma follows_trans:
  assumes "follows r s sid" and "follows s t sid"
  shows "follows r t sid"
  using assms unfolding follows_def by (metis share_kept_trans)

lemma evolves_trans: "evolves r s \<Longrightarrow> evolves s t \<Longrightarrow> evolves r t"
  by (simp add: evolves_def) (blast intro: follows_trans)

lemma evolves_set_share:
  assumes "map_of (shares reg) sid = Some s"
    and "shares reg' = AList.update sid s' (shares reg)" and "share_kept s s'"
    and "\<And>i. i \<noteq> sid \<Longrightarrow> feed_chan reg' i = feed_chan reg i"
    and "\<And>c. revoked_chan reg c \<Longrightarrow> revoked_chan reg' c"
  shows "evolves reg reg'"
  using assms by (simp add: evolves_def follows_def ended_def AList.update_conv')

lemma evolves_share:
  "map_of (shares reg) sid = Some s \<Longrightarrow> share_kept s s' \<Longrightarrow> evolves reg (set_share sid s' reg)"
  by (rule evolves_set_share) (simp_all add: set_share_def)

lemma map_of_filter_distinct:
  "keys_distinct m \<Longrightarrow>
   map_of (filter P m) k = (case map_of m k of Some v \<Rightarrow> if P (k, v) then Some v else None | None \<Rightarrow> None)"
  by (induction m) (auto split: option.splits simp: map_of_eq_None_iff)

lemma prune_evolves:
  assumes "keys_distinct (shares reg)"
  shows "evolves reg (prune now reg)"
proof -
  have dead: "sid \<in> fst ` set (filter (\<lambda>(sid, s). \<not> share_alive now s) (shares reg))"
    if "map_of (shares reg) sid = Some s" "\<not> share_alive now s" for sid s
    using that by (force dest!: map_of_SomeD)
  show ?thesis
    using dead by (auto simp: evolves_def follows_def ended_def prune_def Let_def map_of_filter_distinct [OF assms] split: option.splits)
qed


lemma reg_ok_keys: "reg_ok reg \<Longrightarrow> keys_distinct (shares reg)"
  by (simp add: reg_ok_def)

lemmas prune_evolves' = prune_evolves [OF reg_ok_keys]

lemma create_evolves:
  assumes "reg_ok reg" and fresh: "fresh_share reg sid"
  shows "evolves reg (snd (create project owner selected now sid reg))"
proof -
  have p: "evolves reg (prune now reg)" by (rule prune_evolves' [OF assms(1)])
  have n: "map_of (shares (prune now reg)) sid = None" "feed_chan (prune now reg) sid \<noteq> Stopped"
    using fresh by (auto simp: fresh_share_def contains_key_iff prune_def Let_def map_of_eq_None_iff)
  then have "evolves (prune now reg) (snd (create project owner selected now sid reg))"
    by (auto simp: create_def Let_def set_share_def evolves_def follows_def ended_def AList.update_conv')
  with p show ?thesis by (rule evolves_trans)
qed

lemma connect_evolves:
  assumes "reg_ok reg" and fresh: "\<not> revoked_chan reg c"
  shows "evolves reg (snd (connect project sid user publish now c reg))"
proof -
  have p: "evolves reg (prune now reg)" by (rule prune_evolves' [OF assms(1)])
  have "revoked_chan (prune now reg) = revoked_chan reg" by (simp add: prune_def Let_def)
  with fresh have "evolves (prune now reg) (snd (connect project sid user publish now c reg))"
    by (auto simp: connect_def Let_def open_connection_def set_share_def share_kept_def
        split: option.splits dest!: find_share_Some intro!: evolves_set_share)
  with p show ?thesis by (rule evolves_trans)
qed

lemma frame_evolves:
  assumes "reg_ok reg"
  shows "evolves reg (snd (frame sid bytes now reg))"
proof (cases "is_jpeg_frame bytes")
  case True
  then have "evolves (prune now reg) (snd (frame sid bytes now reg))"
    by (auto simp: frame_def Let_def set_share_def share_kept_def split: option.splits
        intro!: evolves_set_share)
  with prune_evolves' [OF assms] show ?thesis by (rule evolves_trans)
qed (simp add: frame_def)

lemma stop_evolves: "evolves reg (snd (stop project sid user reg))"
  by (auto simp: stop_def evolves_def follows_def ended_def AList.delete_conv' split: option.splits)

lemma remove_viewer_evolves: "evolves reg (snd (remove_viewer project sid owner user reg))"
  by (auto simp: remove_viewer_def Let_def set_share_def share_kept_def drop_connections_def
      split: option.splits dest!: find_share_Some intro!: evolves_set_share)

lemma control_apply_kept: "control_apply c user publish cmd s = (b, s') \<Longrightarrow> share_kept s s'"
  by (cases cmd) (auto simp: Let_def set_control_state_def share_kept_def split: if_splits option.splits)

lemma explore_apply_kept: "explore_apply c user publish cmd s = (b, s') \<Longrightarrow> share_kept s s'"
  by (cases cmd) (auto simp: Let_def set_explore_state_def explore_send_def share_kept_def
      split: if_splits option.splits)

lemma video_apply_kept: "video_apply now c publish config cmd s = (r, s') \<Longrightarrow> share_kept s s'"
  by (cases cmd) (auto simp: Let_def set_requests_def share_kept_def split: if_splits option.splits)

lemma video_kept [simp]:
  "share_kept s (reconcile now t) = share_kept s t" "share_kept s (set_peers ps t) = share_kept s t"
  "share_kept (reconcile now s) t = share_kept s t"
  by (simp_all add: share_kept_def reconcile_def set_peers_def Let_def)

lemma message_evolves:
  "control_message parse sid c user publish raw reg = (b, reg') \<Longrightarrow> evolves reg reg'"
  "explore_message pv fv sid c user publish raw reg = (ob, reg') \<Longrightarrow> evolves reg reg'"
  by (metis control_message_cases control_apply_kept evolves_refl evolves_share)
    (metis explore_message_cases explore_apply_kept evolves_refl evolves_share)

lemma video_message_evolves:
  assumes "video_message pvd sid c publish raw config now reg = (ob, reg')"
  shows "evolves reg reg'"
proof -
  have "share_kept s s'"
    if "video_apply now c publish config cmd (reconcile now s) = (r, s1)"
      and "s' = s1 \<or> (\<exists>ps. s' = reconcile now (set_peers ps s1))" for s s' s1 cmd r
    using that video_apply_kept [OF that(1)] by auto
  with video_message_cases [OF assms] show ?thesis
    by (auto intro!: evolves_share)
qed

lemma kept_updates:
  "share_kept s (s\<lparr>s_viewers := w, s_control := c, s_explore := e, s_video := v\<rparr>)"
  "share_kept s (s\<lparr>s_control := c\<rparr>)" "share_kept s (s\<lparr>s_explore := e\<rparr>)" "share_kept s (s\<lparr>s_video := v\<rparr>)"
  by (simp_all add: share_kept_def)

lemma other_evolves:
  "evolves reg (leave sid c reg)"
  "evolves reg (enable_control sid reg)" "evolves reg (enable_explore sid reg)"
  "evolves reg (enable_video sid reg)" "evolves reg (reconcile_video sid now reg)"
  "evolves reg (snd (explore_frame pu sid bytes now reg))"
  "evolves reg (snd (take_input sid reg))" "evolves reg (snd (take_action sid reg))"
  by (auto simp: leave_def enable_control_def enable_explore_def enable_video_def
      reconcile_video_def explore_frame_def take_input_def take_action_def Let_def kept_updates
      split: option.splits list.splits intro!: evolves_share)

lemma step_evolves:
  assumes ok: "reg_ok reg" and step: "reg_step reg reg'"
  shows "evolves reg reg'"
  using step
proof cases
  case (step_control parse sid c user publish raw)
  then show ?thesis using message_evolves(1) by (metis prod.collapse)
next
  case (step_explore pv fv sid c user publish raw)
  then show ?thesis using message_evolves(2) by (metis prod.collapse)
next
  case (step_video pvd sid c publish raw config now)
  then show ?thesis using video_message_evolves by (metis prod.collapse)
next
  case (step_connect c project sid user publish now)
  then show ?thesis using connect_evolves [OF ok] by (simp add: fresh_connection_def)
qed (use ok prune_evolves' create_evolves frame_evolves stop_evolves remove_viewer_evolves
       other_evolves in simp_all)

lemma run_evolves: "reaches reg_step reg reg' \<Longrightarrow> reg_ok reg \<Longrightarrow> evolves reg reg'"
  by (rule registry_machine.reaches_stable [where Q = "evolves reg"])
    (auto intro: evolves_trans step_evolves)

end
