(* ===== verification/Browser_Example.thy ===== *)
theory Browser_Example
  imports Browser_Steps
begin

text \<open>
  A concrete run for the witnesses: person 2 shares a tab of project 1 as share 3, publishes on
  connection 10, person 5 watches on connection 11, asks for control and gets the grant 20.
\<close>

definition demo_parse :: "string \<Rightarrow> control_command option" where
  "demo_parse raw =
     (if raw = ''request'' then Some RequestControl
      else if raw = ''grant'' then Some (GrantControl 11 20)
      else if raw = ''enter'' then Some (ControlInput 20 (Key ''Enter'' False))
      else None)"

definition demo_shared :: registry where
  "demo_shared = snd (create 1 2 None 0 3 registry_default)"

definition demo_published :: registry where
  "demo_published = enable_control 3 (snd (connect 1 3 2 True 1 10 demo_shared))"

definition demo_watched :: registry where
  "demo_watched = snd (connect 1 3 5 False 2 11 demo_published)"

definition demo_requested :: registry where
  "demo_requested = snd (control_message demo_parse 3 11 5 False ''request'' demo_watched)"

definition demo_granted :: registry where
  "demo_granted = snd (control_message demo_parse 3 10 2 True ''grant'' demo_requested)"

definition demo_typed :: registry where
  "demo_typed = snd (control_message demo_parse 3 11 5 False ''enter'' demo_granted)"


definition demo_share :: "bool \<Rightarrow> (uuid, uuid) hash_map \<Rightarrow> control_request list \<Rightarrow> grant option \<Rightarrow> share" where
  "demo_share published viewers requests g =
     (new_share \<lparr>si_id = 3, si_project_id = 1, si_owner_user_id = 2, si_audience = ''space'', si_mode = ''view''\<rparr> None 0)
       \<lparr>s_publisher := published, s_viewers := viewers,
        s_control := \<lparr>control_state = \<lparr>c_available = published, c_grant = g, c_requests = requests\<rparr>,
           control_queue = new_channel, control_receiver = \<not> published\<rparr>,
        s_explore := explore_default\<lparr>explore_receiver := \<not> published,
           explore_frames := (if published then [(10, Live None)] else []) @ map (\<lambda>(c, u). (c, Live None)) viewers\<rparr>\<rparr>"

lemmas demo_share_simps =
  demo_share_def new_share_def explore_default_def control_default_def
  control_snapshot_default_def Let_def set_share_def

lemmas demo_message_simps =
  demo_share_simps peer_authorized_def explore_is_active_def share_allows_def
  set_control_state_def grant_is_def contains_key_def retain_def

lemma demo_alive [simp]: "t < host_timeout \<Longrightarrow> share_alive t (demo_share a b c d)"
  by (simp add: share_alive_def demo_share_def new_share_def host_timeout_def max_lifetime_def rust_simps)

lemma demo_timeout [simp]: "Suc 0 < host_timeout" "2 < host_timeout"
  by (simp_all add: host_timeout_def secs_def)

lemma demo_shared_shares: "shares demo_shared = [(3, demo_share False [] [] None)]"
  by (simp add: demo_shared_def create_def prune_def registry_default_def demo_share_simps)

lemma demo_published_shares: "shares demo_published = [(3, demo_share True [] [] None)]"
proof -
  have "shares (prune 1 demo_shared) = [(3, demo_share False [] [] None)]"
    by (simp add: prune_def Let_def demo_shared_shares)
  then show ?thesis
    by (simp add: demo_published_def connect_def find_share_def enable_control_def
        open_connection_def explore_join_def demo_share_simps)
qed

lemma demo_watched_shares: "shares demo_watched = [(3, demo_share True [(11, 5)] [] None)]"
proof -
  have "shares (prune 2 demo_published) = [(3, demo_share True [] [] None)]"
    by (simp add: prune_def Let_def demo_published_shares)
  then show ?thesis
    by (simp add: demo_watched_def connect_def find_share_def open_connection_def explore_join_def
        share_allows_def demo_share_simps)
qed

lemma demo_requested_shares:
  "shares demo_requested =
     [(3, demo_share True [(11, 5)] [\<lparr>cr_connection_id = 11, cr_user_id = 5\<rparr>] None)]"
  by (simp add: demo_requested_def control_message_def demo_watched_shares demo_parse_def
      demo_message_simps)

lemma demo_granted_shares:
  "shares demo_granted =
     [(3, demo_share True [(11, 5)] [] (Some \<lparr>g_id = 20, g_connection_id = 11, g_user_id = 5\<rparr>))]"
  by (simp add: demo_granted_def control_message_def demo_requested_shares demo_parse_def
      demo_message_simps)

lemma channels_kept [simp]:
  "feed_chan (set_share sid s reg) = feed_chan reg"
  "revoked_chan (set_share sid s reg) = revoked_chan reg"
  "revoked_chan (prune now reg) = revoked_chan reg"
  "feed_chan (enable_control sid reg) = feed_chan reg"
  "revoked_chan (enable_control sid reg) = revoked_chan reg"
  "feed_chan (snd (control_message parse sid c user publish raw reg)) = feed_chan reg"
  "revoked_chan (snd (control_message parse sid c user publish raw reg)) = revoked_chan reg"
  by (simp_all add: set_share_def prune_def Let_def enable_control_def control_message_def
      split: option.splits prod.splits)

lemma demo_channels:
  "revoked_chan demo_shared = (\<lambda>_. False)" "feed_chan demo_shared = (\<lambda>_. Live None)"
  "revoked_chan demo_published = (\<lambda>_. False)" "feed_chan demo_published = (\<lambda>_. Live None)"
  "revoked_chan demo_watched = (\<lambda>_. False)" "feed_chan demo_watched = (\<lambda>_. Live None)"
  "revoked_chan demo_requested = (\<lambda>_. False)" "feed_chan demo_requested = (\<lambda>_. Live None)"
  "revoked_chan demo_granted = (\<lambda>_. False)" "feed_chan demo_granted = (\<lambda>_. Live None)"
  "revoked_chan demo_typed = (\<lambda>_. False)" "feed_chan demo_typed = (\<lambda>_. Live None)"
proof -
  show s: "revoked_chan demo_shared = (\<lambda>_. False)" "feed_chan demo_shared = (\<lambda>_. Live None)"
    by (auto simp: demo_shared_def create_def prune_def registry_default_def Let_def)
  have p1: "shares (prune (Suc 0) demo_shared) = shares demo_shared"
    "feed_chan (prune (Suc 0) demo_shared) = feed_chan demo_shared"
    by (simp_all add: prune_def Let_def demo_shared_shares)
  then show p: "revoked_chan demo_published = (\<lambda>_. False)" "feed_chan demo_published = (\<lambda>_. Live None)"
    using s by (simp_all add: demo_published_def connect_def Let_def split: option.splits prod.splits)
  have "feed_chan (prune 2 demo_published) = feed_chan demo_published"
    by (simp add: prune_def Let_def demo_published_shares)
  then show w: "revoked_chan demo_watched = (\<lambda>_. False)" "feed_chan demo_watched = (\<lambda>_. Live None)"
    using p by (auto simp: demo_watched_def connect_def Let_def split: option.splits prod.splits)
  show r: "revoked_chan demo_requested = (\<lambda>_. False)" "feed_chan demo_requested = (\<lambda>_. Live None)"
    using w by (simp_all add: demo_requested_def)
  show g: "revoked_chan demo_granted = (\<lambda>_. False)" "feed_chan demo_granted = (\<lambda>_. Live None)"
    using r by (simp_all add: demo_granted_def)
  show "revoked_chan demo_typed = (\<lambda>_. False)" "feed_chan demo_typed = (\<lambda>_. Live None)"
    using g by (simp_all add: demo_typed_def)
qed

lemma demo_typed_queue:
  "\<exists>s. shares demo_typed = [(3, s)] \<and> s_viewers s = [(11, 5)]
     \<and> c_grant (control_state (s_control s)) = Some \<lparr>g_id = 20, g_connection_id = 11, g_user_id = 5\<rparr>
     \<and> ch_queue (control_queue (s_control s)) =
         [\<lparr>ci_kind = ''input'', ci_grant_id = 20, ci_input = Key ''Enter'' False\<rparr>]"
  by (simp add: demo_typed_def control_message_def demo_granted_shares demo_parse_def
      demo_message_simps tab_keys_def try_send_def new_channel_def channel_capacity_def)

lemma demo_fresh:
  "fresh_share registry_default 3" "fresh_connection demo_shared 10" "fresh_connection demo_published 11"
  by (simp_all add: fresh_share_def fresh_connection_def demo_shared_shares demo_published_shares
      demo_channels demo_share_simps contains_key_def registry_default_def)

lemma demo_reachable:
  "reaches reg_step registry_default demo_shared"
  "reaches reg_step registry_default demo_published"
  "reaches reg_step registry_default demo_watched"
  "reaches reg_step registry_default demo_requested"
  "reaches reg_step registry_default demo_granted"
  "reaches reg_step registry_default demo_typed"
proof -
  have 1: "reg_step registry_default demo_shared"
    unfolding demo_shared_def by (rule step_create [OF demo_fresh(1)])
  have 2: "reg_step demo_shared (snd (connect 1 3 2 True 1 10 demo_shared))"
    by (rule step_connect [OF demo_fresh(2)])
  have 3: "reg_step (snd (connect 1 3 2 True 1 10 demo_shared)) demo_published"
    unfolding demo_published_def by (rule step_enable_control)
  have 4: "reg_step demo_published demo_watched"
    unfolding demo_watched_def by (rule step_connect [OF demo_fresh(3)])
  have 5: "reg_step demo_watched demo_requested"
    unfolding demo_requested_def by (rule step_control)
  have 6: "reg_step demo_requested demo_granted"
    unfolding demo_granted_def by (rule step_control)
  have 7: "reg_step demo_granted demo_typed"
    unfolding demo_typed_def by (rule step_control)
  show s: "reaches reg_step registry_default demo_shared"
    by (rule run_back [OF 1 reaches_refl])
  show p: "reaches reg_step registry_default demo_published"
    by (rule run_back [OF 3 run_back [OF 2 s]])
  show w: "reaches reg_step registry_default demo_watched" by (rule run_back [OF 4 p])
  show r: "reaches reg_step registry_default demo_requested" by (rule run_back [OF 5 w])
  show g: "reaches reg_step registry_default demo_granted" by (rule run_back [OF 6 r])
  show t: "reaches reg_step registry_default demo_typed" by (rule run_back [OF 7 g])
qed

end
