(* ===== verification/Browser_Safety.thy ===== *)
theory Browser_Safety
  imports Browser_Example
begin

text \<open>
  The safety and functional properties of tab sharing: what holds in every reachable registry,
  what removal of a viewer guarantees from then on, what a socket sends and to whom, and what the
  requests answer. The witnesses run on the example share of \<open>Browser_Example\<close>.
\<close>

lemma registered_allowed:
  "share_ok s \<Longrightarrow> registered s c u \<Longrightarrow> share_allows s u"
  by (auto simp: share_ok_def viewers_ok_def registered_def dest!: map_of_SomeD)

lemma reachable_ok: "reaches reg_step registry_default reg \<Longrightarrow> reg_ok reg"
  using registry_machine.reaches_inv reg_ok_default by blast

lemmas reachable_share = reg_ok_share [OF reachable_ok]

lemma length_filter_one:
  "distinct (map f xs) \<Longrightarrow> length (filter (\<lambda>x. f x = y) xs) \<le> 1"
  by (induction xs) (auto simp: filter_empty_conv image_iff)

lemma reg_ok_counts:
  assumes "reg_ok reg"
  shows "length (filter (\<lambda>(i, s). si_project_id (s_info s) = p) (shares reg)) \<le> 8"
    and "length (filter (\<lambda>(i, s). si_owner_user_id (s_info s) = u) (shares reg)) \<le> 1"
  using assms length_filter_one [of "\<lambda>(i, s). si_owner_user_id (s_info s)" "shares reg" u]
  by (simp_all add: reg_ok_def infos_def count_list_filter o_def case_prod_unfold)

section \<open>Safety\<close>

text \<open>C1. In every registry that the operations can reach from the empty one, in any order and
  from any number of sockets: at most 64 shares, at most eight of one project, at most one of one
  owner, and every share has at most eight viewer connections, all of people it allows.\<close>

theorem reachable_share_limits:
  assumes "reaches reg_step registry_default reg"
  shows "length (shares reg) \<le> 64
    \<and> length (filter (\<lambda>(i, s). si_project_id (s_info s) = project) (shares reg)) \<le> 8
    \<and> length (filter (\<lambda>(i, s). si_owner_user_id (s_info s) = owner) (shares reg)) \<le> 1
    \<and> (\<forall>s c user. map_of (shares reg) sid = Some s \<longrightarrow>
         length (s_viewers s) \<le> 8
         \<and> (map_of (s_viewers s) c = Some user \<longrightarrow> share_allows s user))"
  using reachable_ok [OF assms] reg_ok_counts [OF reachable_ok [OF assms]]
    reachable_share [OF assms] registered_allowed
  by (auto simp: reg_ok_def share_ok_def viewers_ok_def registered_def)

theorem reachable_share_limits_witness:
  "reaches reg_step registry_default demo_granted \<and> length (shares demo_granted) \<le> 64
   \<and> (\<exists>s. map_of (shares demo_granted) 3 = Some s \<and> length (s_viewers s) \<le> 8)"
  using demo_reachable(5) reachable_share_limits [OF demo_reachable(5), of 1 2 3]
  by (simp add: demo_granted_shares)

text \<open>C2. Control is exclusive and belongs to somebody present: in every reachable registry the
  grant of a share names a registered connection of an allowed person, that connection has no
  explore view, and no connection with an explore view has an open control request.\<close>

theorem reachable_grant_exclusive:
  assumes "reaches reg_step registry_default reg" and "map_of (shares reg) sid = Some s"
  shows "(\<forall>g. c_grant (control_state (s_control s)) = Some g \<longrightarrow>
            map_of (s_viewers s) (g_connection_id g) = Some (g_user_id g)
            \<and> share_allows s (g_user_id g)
            \<and> \<not> explore_is_active (s_explore s) (g_connection_id g))
       \<and> (\<forall>r \<in> set (c_requests (control_state (s_control s))).
            map_of (s_viewers s) (cr_connection_id r) = Some (cr_user_id r)
            \<and> \<not> explore_is_active (s_explore s) (cr_connection_id r))"
  using reachable_share [OF assms] registered_allowed
  by (auto simp: registered_def [symmetric] dest: share_ok_grant share_ok_request)

theorem reachable_grant_exclusive_witness:
  "\<exists>s. map_of (shares demo_granted) 3 = Some s \<and> map_of (s_viewers s) 11 = Some 5 \<and> share_allows s 5"
proof -
  define s where "s = demo_share True [(11, 5)] [] (Some \<lparr>g_id = 20, g_connection_id = 11, g_user_id = 5\<rparr>)"
  have "map_of (shares demo_granted) 3 = Some s" by (simp add: demo_granted_shares s_def)
  moreover have "c_grant (control_state (s_control s)) = Some \<lparr>g_id = 20, g_connection_id = 11, g_user_id = 5\<rparr>"
    by (simp add: s_def demo_share_def)
  ultimately show ?thesis
    using reachable_grant_exclusive [OF demo_reachable(5), of 3 s] by auto
qed

text \<open>C3. Explore views and video peers in every reachable registry: at most four views, one per
  connection and with distinct ids, each of a registered allowed person; one video peer per
  connection, of a registered connection, and a peer plays only after its answer, which came
  after its offer.\<close>

theorem reachable_views_and_peers:
  assumes "reaches reg_step registry_default reg" and "map_of (shares reg) sid = Some s"
  shows "length (e_views (explore_state (s_explore s))) \<le> 4
       \<and> distinct (map v_view_id (e_views (explore_state (s_explore s))))
       \<and> distinct (map v_connection_id (e_views (explore_state (s_explore s))))
       \<and> (\<forall>v \<in> set (e_views (explore_state (s_explore s))).
            map_of (s_viewers s) (v_connection_id v) = Some (v_user_id v)
            \<and> share_allows s (v_user_id v))
       \<and> distinct (map p_connection_id (vs_peers (video_state (s_video s))))
       \<and> (\<forall>p \<in> set (vs_peers (video_state (s_video s))).
            contains_key (s_viewers s) (p_connection_id p)
            \<and> (p_playing p \<longrightarrow> p_answer p \<noteq> None) \<and> (p_answer p \<noteq> None \<longrightarrow> p_offer p \<noteq> None))"
proof -
  from reachable_share [OF assms] have ok: "share_ok s" by simp
  then show ?thesis
    using registered_allowed [OF ok]
    by (auto simp: share_ok_def views_ok_def peers_ok_def peer_ok_def Let_def registered_def)
qed

theorem reachable_views_and_peers_witness:
  "\<exists>s. map_of (shares demo_granted) 3 = Some s \<and> length (e_views (explore_state (s_explore s))) \<le> 4"
  using reachable_views_and_peers [OF demo_reachable(5), of 3] by (auto simp: demo_granted_shares)

text \<open>C4. Removing a viewer is final: once the owner has removed a person, then as long as the
  share lives, whatever happens next, no connection, grant, request, view or video peer
  of that person is left in it, and a new connection of theirs is refused.\<close>

lemma remove_viewer_done:
  assumes "remove_viewer project sid owner user reg = (Inr (), reg1)"
  shows "\<exists>s. map_of (shares reg1) sid = Some s \<and> user \<in> set (s_removed s)
           \<and> si_owner_user_id (s_info s) \<noteq> user"
  using assms
  by (auto simp: remove_viewer_def Let_def set_share_def drop_connections_def AList.update_conv'
      split: option.splits if_splits)

lemma removed_for_good:
  assumes "remove_viewer project sid owner user reg = (Inr (), reg1)" and "reg_ok reg"
    and "reaches reg_step reg1 reg2" and "map_of (shares reg2) sid = Some s"
  shows "share_ok s \<and> \<not> share_allows s user"
proof -
  have ok1: "reg_ok reg1" using remove_viewer_ok [OF assms(2)] assms(1) by (metis snd_conv)
  have ok2: "reg_ok reg2" using registry_machine.reaches_inv [OF assms(3) ok1] .
  from remove_viewer_done [OF assms(1)] obtain s1 where s1: "map_of (shares reg1) sid = Some s1"
    "user \<in> set (s_removed s1)" "si_owner_user_id (s_info s1) \<noteq> user" by blast
  from run_evolves [OF assms(3) ok1] have "follows reg1 reg2 sid" by (simp add: evolves_def)
  with s1 assms(4) have "share_kept s1 s" by (auto simp: follows_def ended_def)
  with s1 have "\<not> share_allows s user" by (auto simp: share_allows_def share_kept_def)
  with reg_ok_share [OF ok2 assms(4)] show ?thesis by simp
qed

theorem removed_viewer_stays_out:
  assumes "reaches reg_step registry_default reg"
    and "remove_viewer project sid owner user reg = (Inr (), reg1)"
    and "reaches reg_step reg1 reg2" and "map_of (shares reg2) sid = Some s"
  shows "(\<forall>c. map_of (s_viewers s) c \<noteq> Some user)
    \<and> (\<forall>g. c_grant (control_state (s_control s)) = Some g \<longrightarrow> g_user_id g \<noteq> user)
    \<and> (\<forall>r \<in> set (c_requests (control_state (s_control s))). cr_user_id r \<noteq> user)
    \<and> (\<forall>v \<in> set (e_views (explore_state (s_explore s))). v_user_id v \<noteq> user)
    \<and> (\<forall>p \<in> set (vs_peers (video_state (s_video s))).
         \<exists>u. map_of (s_viewers s) (p_connection_id p) = Some u \<and> u \<noteq> user)
    \<and> (\<exists>e. fst (connect project sid user False now c reg2) = Inl e)"
proof -
  have ok: "share_ok s" and no: "\<not> share_allows s user"
    using removed_for_good [OF assms(2) reachable_ok [OF assms(1)] assms(3,4)] by auto
  have unreg: "\<not> registered s c user" for c using registered_allowed [OF ok] no by blast
  have "reg_ok reg1" using remove_viewer_ok [OF reachable_ok [OF assms(1)]] assms(2) by (metis snd_conv)
  then have "keys_distinct (shares reg2)"
    using registry_machine.reaches_inv [OF assms(3)] reg_ok_keys by blast
  then have "find_share project sid (prune now reg2) \<in> {None, Some s}"
    using assms(4) by (simp add: find_share_def prune_def Let_def map_of_filter_distinct split: option.splits)
  then have "\<exists>e. fst (connect project sid user False now c reg2) = Inl e"
    using no by (auto simp: connect_def Let_def)
  moreover have "\<exists>u. map_of (s_viewers s) (p_connection_id p) = Some u \<and> u \<noteq> user"
    if "p \<in> set (vs_peers (video_state (s_video s)))" for p
    using share_ok_peers(3) [OF ok that] unreg [of "p_connection_id p"]
    by (auto simp: contains_key_def registered_def)
  ultimately show ?thesis
    using ok unreg share_ok_grant [OF ok] share_ok_request [OF ok]
    by (auto simp: registered_def share_ok_def views_ok_def Let_def)
qed

lemma demo_removes:
  "fst (remove_viewer 1 3 2 5 demo_granted) = Inr ()"
  "\<exists>s. shares (snd (remove_viewer 1 3 2 5 demo_granted)) = [(3, s)]"
  "connections_of (demo_share True [(11, 5)] rs g) 5 = [11]"
  by (simp_all add: remove_viewer_def find_share_def demo_granted_shares connections_of_def demo_share_simps)

theorem removed_viewer_stays_out_witness:
  "\<exists>reg1 s. remove_viewer 1 3 2 5 demo_granted = (Inr (), reg1) \<and> map_of (shares reg1) 3 = Some s
     \<and> (\<forall>c. map_of (s_viewers s) c \<noteq> Some 5)
     \<and> (\<exists>e. fst (connect 1 3 5 False 4 12 reg1) = Inl e)"
proof -
  let ?r = "snd (remove_viewer 1 3 2 5 demo_granted)"
  have r: "remove_viewer 1 3 2 5 demo_granted = (Inr (), ?r)"
    using demo_removes(1) by (metis prod.collapse)
  from demo_removes(2) obtain s where s: "map_of (shares ?r) 3 = Some s" by auto
  from removed_viewer_stays_out [OF demo_reachable(5) r reaches_refl s] r s show ?thesis by blast
qed

text \<open>C5. A removed person sees nothing more: whatever happened since the removal, the next
  iteration of any socket that belonged to them sends no message at all and ends the
  connection, whichever event wakes it.\<close>

lemma remove_viewer_revokes:
  assumes "remove_viewer project sid owner user reg = (Inr (), reg1)"
    and "map_of (shares reg) sid = Some s" and "(c, user) \<in> set (s_viewers s)"
  shows "revoked_chan reg1 c"
  using assms connections_of_iff [of c s user]
  by (auto simp: remove_viewer_def Let_def split: option.splits if_splits dest: find_share_Some)

theorem removed_viewer_socket_silent:
  assumes "reaches reg_step registry_default reg" and "map_of (shares reg) sid = Some s"
    and "(k_connection k, user) \<in> set (s_viewers s)" and "\<not> k_publish k"
    and "remove_viewer project sid owner user reg = (Inr (), reg1)"
    and "reaches reg_step reg1 reg2"
  shows "socket_step p ev link now k reg2 = ([], None, leave (k_share k) (k_connection k) reg2)"
proof -
  have "reg_ok reg1"
    using remove_viewer_ok [OF reachable_ok [OF assms(1)]] assms(5) by (metis snd_conv)
  then have "evolves reg1 reg2" using run_evolves [OF assms(6)] by blast
  then have "revoked_chan reg2 (k_connection k)"
    using remove_viewer_revokes [OF assms(5,2,3)] by (simp add: evolves_def)
  with assms(4) show ?thesis by (simp add: socket_step_def socket_end_def)
qed

definition demo_socket :: "bool \<Rightarrow> socket" where
  "demo_socket publish =
     \<lparr>k_project = 1, k_share = 3, k_connection = (if publish then 10 else 11),
      k_user = (if publish then 2 else 5), k_publish = publish, k_frame_flow = True,
      k_video_supported = False, k_control_v1 = True, k_explore_v1 = True, k_message_window = 0,
      k_message_count = 0, k_last_frame = 0, k_pending_frame = None\<rparr>"

definition demo_protocol :: protocol where
  "demo_protocol =
     \<lparr>parse_control = demo_parse, parse_json = (\<lambda>_. None), explore_from_value = (\<lambda>_. None),
      parse_video = (\<lambda>_. None), parse_uuid_str = (\<lambda>_. None), show_uuid_str = (\<lambda>_. ''id''),
      video_configuration = None\<rparr>"

theorem removed_viewer_socket_silent_witness:
  "fst (socket_step demo_protocol FeedChanged 1 5 (demo_socket False)
          (snd (remove_viewer 1 3 2 5 demo_granted))) = []"
proof -
  let ?r = "snd (remove_viewer 1 3 2 5 demo_granted)"
  have r: "remove_viewer 1 3 2 5 demo_granted = (Inr (), ?r)"
    using demo_removes(1) by (metis prod.collapse)
  have s: "map_of (shares demo_granted) 3
      = Some (demo_share True [(11, 5)] [] (Some \<lparr>g_id = 20, g_connection_id = 11, g_user_id = 5\<rparr>))"
    by (simp add: demo_granted_shares)
  have k: "(k_connection (demo_socket False), 5) \<in> set (s_viewers (demo_share True [(11, 5)] [] g))"
    "\<not> k_publish (demo_socket False)" for g
    by (simp_all add: demo_socket_def demo_share_def)
  show ?thesis
    using removed_viewer_socket_silent [OF demo_reachable(5) s k r reaches_refl] by simp
qed

section \<open>What a socket sends\<close>

lemma send_msg_out: "t_out (send_msg m t) = t_out t @ (if t_ok t then [m] else [])"
  by (simp add: send_msg_def)

lemma send_states_out:
  "set (t_out (send_state (explore_state_msg p k) t)) \<subseteq> set (t_out t) \<union> range StateMsg"
  "set (t_out (send_state (control_state_msg p k) t)) \<subseteq> set (t_out t) \<union> range StateMsg"
  "set (t_out (send_state (video_state_msg p lease k) t)) \<subseteq> set (t_out t) \<union> range StateMsg"
  by (auto simp: send_state_def send_msg_out explore_state_msg_def control_state_msg_def
      video_state_msg_def split: option.splits)

lemma tick_out:
  "set (t_out (tick_explore p k t)) \<subseteq> set (t_out t) \<union> range StateMsg"
  "set (t_out (tick_video p now k t)) \<subseteq> set (t_out t) \<union> range StateMsg"
  "set (t_out (tick_control p k t)) \<subseteq> set (t_out t) \<union> range StateMsg"
  by (auto simp: tick_explore_def tick_video_def tick_control_def split: if_splits
      dest!: subsetD [OF send_states_out(1)] subsetD [OF send_states_out(2)]
        subsetD [OF send_states_out(3)])

lemma on_lifetime_out: "set (t_out (on_lifetime p now t)) \<subseteq> set (t_out t) \<union> range StateMsg"
proof -
  let ?t0 = "t\<lparr>t_reg := prune now (t_reg t)\<rparr>"
  have "set (t_out (tick_control p k (tick_video p now k (tick_explore p k ?t0))))
      \<subseteq> set (t_out ?t0) \<union> range StateMsg" for k
    using tick_out(1) [of p k ?t0] tick_out(2) [of p now k "tick_explore p k ?t0"]
      tick_out(3) [of p k "tick_video p now k (tick_explore p k ?t0)"] by blast
  then show ?thesis by (simp add: on_lifetime_def Let_def)
qed

lemma break_if_out [simp]: "t_out (break_if b t) = t_out t"
  by (simp add: break_if_def)

lemma on_binary_out: "set (t_out (on_binary p bytes now t)) \<subseteq> set (t_out t) \<union> {FrameAck}"
  by (auto simp: on_binary_def Let_def send_msg_out split: prod.splits if_splits)

lemma on_text_out [simp]: "t_out (on_text p raw now t) = t_out t"
  by (simp add: on_text_def Let_def split: prod.splits)

lemma sent_frame_out [simp]: "t_out (sent_frame now bytes t) = t_out (send_msg (BinaryMsg bytes) t)"
  by (simp add: sent_frame_def Let_def)

text \<open>Which messages each event can send.\<close>

lemma on_event_out:
  assumes "t_out t = []" and "m \<in> set (t_out (on_event p ev now t))"
  shows "(\<exists>j. m = StateMsg j) \<or> m = FrameAck \<or> (\<exists>v. m = PongMsg v)
    \<or> (ev = ExploreInputReady \<and> m \<in> set (t_out (on_action t)))
    \<or> (ev = InputReady \<and> m \<in> set (t_out (on_input t)))
    \<or> (ev = ExploreFeedChanged \<and> m \<in> set (t_out (on_explore_feed now t)))
    \<or> (ev = FeedChanged \<and> m \<in> set (t_out (on_feed now t)))"
  using assms on_lifetime_out [of p now t] on_binary_out [of p _ now t]
    send_states_out(1) [of p "t_socket t" t] send_states_out(2) [of p "t_socket t" t]
    send_states_out(3) [of p False "t_socket t" t]
  by (cases ev) (auto simp: send_msg_out split: if_splits)

lemma on_input_out:
  assumes "t_out t = []" and "m \<in> set (t_out (on_input t))"
  shows "\<exists>i reg. m = InputMsg i \<and> k_publish (t_socket t)
    \<and> take_input (k_share (t_socket t)) (t_reg t) = (Some i, reg)
    \<and> input_is_current (k_share (t_socket t)) i reg"
  using assms by (auto simp: on_input_def Let_def send_msg_out split: prod.splits option.splits if_splits)

lemma on_action_out:
  assumes "t_out t = []" and "m \<in> set (t_out (on_action t))"
  shows "\<exists>a reg. m = ActionMsg a \<and> k_publish (t_socket t)
    \<and> take_action (k_share (t_socket t)) (t_reg t) = (Some a, reg)
    \<and> explore_action_current (k_share (t_socket t)) a reg"
  using assms by (auto simp: on_action_def Let_def send_msg_out split: prod.splits option.splits if_splits)

lemma on_feed_out:
  assumes "t_out t = []" and "m \<in> set (t_out (on_feed now t))"
  shows "\<exists>bytes. m = BinaryMsg bytes \<and> \<not> k_publish (t_socket t) \<and> k_pending_frame (t_socket t) = None
    \<and> feed_chan (t_reg t) (k_share (t_socket t)) = Live (Some bytes)
    \<and> \<not> exploring (k_share (t_socket t)) (k_connection (t_socket t)) (t_reg t)"
  using assms by (auto simp: on_feed_def Let_def send_msg_out split: feed.splits option.splits if_splits)

lemma on_explore_feed_out:
  assumes "t_out t = []" and "m \<in> set (t_out (on_explore_feed now t))"
  shows "\<exists>bytes s. m = BinaryMsg bytes \<and> \<not> k_publish (t_socket t) \<and> k_pending_frame (t_socket t) = None
    \<and> map_of (shares (t_reg t)) (k_share (t_socket t)) = Some s
    \<and> map_of (explore_frames (s_explore s)) (k_connection (t_socket t)) = Some (Live (Some bytes))
    \<and> exploring (k_share (t_socket t)) (k_connection (t_socket t)) (t_reg t)"
  using assms
  by (auto simp: on_explore_feed_def Let_def send_msg_out the_share_def
      split: feed.splits option.splits if_splits)

lemma socket_step_out:
  assumes "socket_step p ev link now k reg = (out, k', reg')" and "m \<in> set out"
  shows "m \<in> set (t_out (on_event p ev now
           \<lparr>t_ok = True, t_link = link, t_out = [], t_socket = k, t_reg = reg\<rparr>))
    \<and> (k_publish k \<or> \<not> revoked_chan reg (k_connection k)) \<and> feed_chan reg (k_share k) \<noteq> Stopped"
  using assms by (auto simp: socket_step_def Let_def split: if_splits)

lemma take_input_Some:
  assumes "take_input sid reg = (Some i, reg')"
  shows "\<exists>s q. map_of (shares reg) sid = Some s \<and> ch_queue (control_queue (s_control s)) = i # q
    \<and> reg' = set_share sid (s\<lparr>s_control := (s_control s)\<lparr>control_queue :=
        (control_queue (s_control s))\<lparr>ch_queue := q\<rparr>\<rparr>\<rparr>) reg"
  using assms by (auto simp: take_input_def split: option.splits list.splits)

text \<open>C6. An input reaches the host's browser only while its grant is in force: when a socket
  forwards an input, it is the publisher's, the share's grant at that moment is the one the input
  was sent under, it is held by a connected and allowed viewer who is not exploring, and the
  input is a valid one.\<close>

theorem forwarded_input_is_granted:
  assumes "reaches reg_step registry_default reg"
    and "socket_step p ev link now k reg = (out, k', reg')" and "InputMsg i \<in> set out"
  shows "k_publish k \<and>
    (\<exists>s g. map_of (shares reg) (k_share k) = Some s \<and> c_grant (control_state (s_control s)) = Some g
       \<and> g_id g = ci_grant_id i \<and> map_of (s_viewers s) (g_connection_id g) = Some (g_user_id g)
       \<and> share_allows s (g_user_id g) \<and> \<not> explore_is_active (s_explore s) (g_connection_id g)
       \<and> tab_input_valid (ci_input i))"
proof -
  let ?t = "\<lparr>t_ok = True, t_link = link, t_out = [], t_socket = k, t_reg = reg\<rparr>"
  have "InputMsg i \<in> set (t_out (on_input ?t))"
    using socket_step_out [OF assms(2,3)] on_event_out [of ?t "InputMsg i" p ev now]
      on_action_out [of ?t "InputMsg i"] on_feed_out [of ?t "InputMsg i" now]
      on_explore_feed_out [of ?t "InputMsg i" now] by auto
  with on_input_out [of ?t "InputMsg i"] obtain r where "k_publish k"
    and take: "take_input (k_share k) reg = (Some i, r)" and cur: "input_is_current (k_share k) i r"
    by auto
  from take_input_Some [OF take] obtain s q where s: "map_of (shares reg) (k_share k) = Some s"
    and q: "ch_queue (control_queue (s_control s)) = i # q"
    and r: "r = set_share (k_share k) (s\<lparr>s_control := (s_control s)\<lparr>control_queue :=
        (control_queue (s_control s))\<lparr>ch_queue := q\<rparr>\<rparr>\<rparr>) reg" by blast
  have ok: "share_ok s" using reachable_share [OF assms(1) s] by simp
  with q have "tab_input_valid (ci_input i)" by (simp add: share_ok_def queues_ok_def)
  moreover obtain g where "c_grant (control_state (s_control s)) = Some g" "g_id g = ci_grant_id i"
    using cur r by (auto simp: input_is_current_def set_share_def AList.update_conv' split: option.splits)
  ultimately show ?thesis
    using \<open>k_publish k\<close> s share_ok_grant [OF ok] registered_allowed [OF ok]
    by (auto simp: registered_def)
qed

theorem forwarded_input_is_granted_witness:
  "\<exists>out k' reg'. socket_step demo_protocol InputReady 1 5 (demo_socket True) demo_typed = (out, k', reg')
     \<and> InputMsg \<lparr>ci_kind = ''input'', ci_grant_id = 20, ci_input = Key ''Enter'' False\<rparr> \<in> set out
     \<and> k_publish (demo_socket True)"
proof -
  let ?i = "\<lparr>ci_kind = ''input'', ci_grant_id = 20, ci_input = Key ''Enter'' False\<rparr>"
  obtain out k' reg' where e: "socket_step demo_protocol InputReady 1 5 (demo_socket True) demo_typed = (out, k', reg')"
    by (metis prod_cases3)
  obtain s where s: "shares demo_typed = [(3, s)]" "s_viewers s = [(11, 5)]"
    "c_grant (control_state (s_control s)) = Some \<lparr>g_id = 20, g_connection_id = 11, g_user_id = 5\<rparr>"
    "ch_queue (control_queue (s_control s)) = [?i]" "share_allows s 5"
    using demo_typed_queue reachable_share [OF demo_reachable(6), of 3] registered_allowed [of _ 11 5]
    by (auto simp: registered_def)
  then have "InputMsg ?i \<in> set out"
    using e by (auto simp: socket_step_def demo_channels demo_socket_def on_input_def take_input_def
        input_is_current_def set_share_def share_allows_def contains_key_def send_msg_def Let_def split: if_splits)
  with e forwarded_input_is_granted [OF demo_reachable(6) e] show ?thesis by blast
qed

text \<open>Only the owner hands out control, and only to somebody who asked: when a control
  message changes the grant to a new one, the message came from the publishing owner, nobody
  held control, and the new holder's open request named the same connection and person.\<close>

theorem grant_only_by_owner:
  assumes "control_message parse sid c user publish raw reg = (b, reg')"
    and "map_of (shares reg) sid = Some s" and "map_of (shares reg') sid = Some s'"
    and "c_grant (control_state (s_control s')) = Some g"
    and "c_grant (control_state (s_control s)) \<noteq> Some g"
  shows "publish \<and> user = si_owner_user_id (s_info s)
    \<and> c_grant (control_state (s_control s)) = None
    \<and> \<lparr>cr_connection_id = g_connection_id g, cr_user_id = g_user_id g\<rparr>
        \<in> set (c_requests (control_state (s_control s)))
    \<and> contains_key (s_viewers s) (g_connection_id g) \<and> share_allows s (g_user_id g)"
proof -
  from control_message_cases [OF assms(1)] assms(2-5) obtain cmd where
    auth: "peer_authorized s c user publish" and app: "control_apply c user publish cmd s = (b, s')"
    by (auto simp: set_share_def AList.update_conv')
  show ?thesis
  proof (cases cmd)
    case (GrantControl cid gid)
    with app assms(4,5) obtain r where "publish" and r: "List.find (\<lambda>r. cr_connection_id r = cid)
        (c_requests (control_state (s_control s))) = Some r"
      and "contains_key (s_viewers s) cid" "share_allows s (cr_user_id r)"
      and g: "g = \<lparr>g_id = gid, g_connection_id = cid, g_user_id = cr_user_id r\<rparr>"
      and "c_grant (control_state (s_control s)) = None"
      by (auto simp: Let_def set_control_state_def split: if_splits option.splits)
    moreover from find_SomeD [OF r] have "\<lparr>cr_connection_id = cid, cr_user_id = cr_user_id r\<rparr>
        \<in> set (c_requests (control_state (s_control s)))" by (metis control_request.surjective unit.exhaust)
    ultimately show ?thesis using auth by (simp add: peer_authorized_def)
  qed (use app assms(4,5) in \<open>auto simp: Let_def set_control_state_def split: if_splits option.splits\<close>)
qed

theorem grant_only_by_owner_witness:
  "\<exists>b s s'. control_message demo_parse 3 10 2 True ''grant'' demo_requested = (b, demo_granted)
     \<and> map_of (shares demo_requested) 3 = Some s \<and> map_of (shares demo_granted) 3 = Some s'
     \<and> \<lparr>cr_connection_id = 11, cr_user_id = 5\<rparr> \<in> set (c_requests (control_state (s_control s)))"
proof -
  obtain b where e: "control_message demo_parse 3 10 2 True ''grant'' demo_requested = (b, demo_granted)"
    unfolding demo_granted_def by (metis prod.collapse)
  let ?g = "\<lparr>g_id = 20, g_connection_id = 11, g_user_id = 5\<rparr>"
  let ?s = "demo_share True [(11, 5)] [\<lparr>cr_connection_id = 11, cr_user_id = 5\<rparr>] None"
  let ?s' = "demo_share True [(11, 5)] [] (Some ?g)"
  have "map_of (shares demo_requested) 3 = Some ?s" "map_of (shares demo_granted) 3 = Some ?s'"
    "c_grant (control_state (s_control ?s')) = Some ?g" "c_grant (control_state (s_control ?s)) \<noteq> Some ?g"
    by (simp_all add: demo_requested_shares demo_granted_shares demo_share_def)
  from grant_only_by_owner [OF e this] this e show ?thesis by auto
qed

text \<open>What pixels a socket sends: a frame goes to a viewer that is neither revoked nor waiting
  for the acknowledgement of an earlier frame, and it is the frame of that connection's own
  explore view when the viewer explores, the frame of the shared tab when it does not.\<close>

theorem frame_goes_to_its_viewer:
  assumes "reaches reg_step registry_default reg"
    and "socket_step p ev link now k reg = (out, k', reg')" and "BinaryMsg bytes \<in> set out"
  shows "\<not> k_publish k \<and> \<not> revoked_chan reg (k_connection k) \<and> k_pending_frame k = None \<and>
    (if exploring (k_share k) (k_connection k) reg
     then \<exists>s v. map_of (shares reg) (k_share k) = Some s
            \<and> map_of (explore_frames (s_explore s)) (k_connection k) = Some (Live (Some bytes))
            \<and> v \<in> set (e_views (explore_state (s_explore s))) \<and> v_connection_id v = k_connection k
            \<and> share_allows s (v_user_id v)
     else feed_chan reg (k_share k) = Live (Some bytes))"
proof -
  let ?t = "\<lparr>t_ok = True, t_link = link, t_out = [], t_socket = k, t_reg = reg\<rparr>"
  note out = socket_step_out [OF assms(2,3)]
  from out on_event_out [of ?t "BinaryMsg bytes" p ev now]
    on_action_out [of ?t "BinaryMsg bytes"] on_input_out [of ?t "BinaryMsg bytes"]
  consider "BinaryMsg bytes \<in> set (t_out (on_feed now ?t))"
    | "BinaryMsg bytes \<in> set (t_out (on_explore_feed now ?t))" by auto
  then show ?thesis
  proof cases
    case 1
    then show ?thesis using on_feed_out [of ?t "BinaryMsg bytes" now] out by auto
  next
    case 2
    from on_explore_feed_out [OF _ 2] obtain s where s: "map_of (shares reg) (k_share k) = Some s"
      and f: "map_of (explore_frames (s_explore s)) (k_connection k) = Some (Live (Some bytes))"
      and e: "exploring (k_share k) (k_connection k) reg" and "\<not> k_publish k" "k_pending_frame k = None"
      by auto
    have ok: "share_ok s" using reachable_share [OF assms(1) s] by simp
    from e s obtain v where v: "v \<in> set (e_views (explore_state (s_explore s)))"
      "v_connection_id v = k_connection k"
      by (auto simp: exploring_def explore_is_active_def)
    with ok have "share_allows s (v_user_id v)"
      using registered_allowed [OF ok] by (auto simp: share_ok_def views_ok_def Let_def)
    with s f e v \<open>\<not> k_publish k\<close> \<open>k_pending_frame k = None\<close> out show ?thesis by auto
  qed
qed

definition demo_frame :: "byte list" where
  "demo_frame = [0xff, 0xd8, 1, 0xff, 0xd9]"

definition demo_live :: registry where
  "demo_live = snd (frame 3 demo_frame 3 demo_granted)"

lemma demo_live:
  "reaches reg_step registry_default demo_live" "feed_chan demo_live 3 = Live (Some demo_frame)"
  "revoked_chan demo_live = (\<lambda>_. False)" "\<not> exploring 3 11 demo_live"
proof -
  have "reg_step demo_granted demo_live" unfolding demo_live_def by (rule step_frame)
  then show "reaches reg_step registry_default demo_live" by (rule run_back [OF _ demo_reachable(5)])
  have p: "shares (prune 3 demo_granted) = shares demo_granted"
    by (simp add: prune_def Let_def demo_granted_shares host_timeout_def secs_def)
  have j: "is_jpeg_frame demo_frame" unfolding demo_frame_def
    by (simp add: is_jpeg_frame_def max_frame_def starts_with_def ends_with_def)
  show "feed_chan demo_live 3 = Live (Some demo_frame)" "revoked_chan demo_live = (\<lambda>_. False)"
    "\<not> exploring 3 11 demo_live"
    using j p by (simp_all add: demo_live_def frame_def Let_def demo_granted_shares demo_share_simps demo_channels
        exploring_def explore_is_active_def)
qed

theorem frame_goes_to_its_viewer_witness:
  "\<exists>k' reg'. socket_step demo_protocol FeedChanged 1 5 (demo_socket False) demo_live
       = ([BinaryMsg demo_frame], k', reg') \<and> \<not> revoked_chan demo_live 11"
proof -
  obtain k' reg' where e: "socket_step demo_protocol FeedChanged 1 5 (demo_socket False) demo_live
      = ([BinaryMsg demo_frame], k', reg')"
    using demo_live by (simp add: socket_step_def demo_socket_def on_feed_def sent_frame_def send_msg_def Let_def)
  from frame_goes_to_its_viewer [OF demo_live(1) e] e show ?thesis by (auto simp: demo_socket_def)
qed

text \<open>Explore frames are private: a frame message of the publisher changes the private feed
  of one connection at most, the one whose view the frame's header names, of a person the share
  still allows, and no other share.\<close>

theorem explore_frame_private:
  assumes "explore_frame parse_uuid sid bytes now reg = (ok, reg')"
    and "map_of (shares reg) i = Some s" and "map_of (shares reg') i = Some s'"
    and "map_of (explore_frames (s_explore s')) c \<noteq> map_of (explore_frames (s_explore s)) c"
  shows "i = sid \<and> ok \<and> is_explore_frame bytes
    \<and> map_of (explore_frames (s_explore s')) c = Some (Live (Some bytes))
    \<and> (\<exists>header v. from_utf8 (take 36 (drop 4 bytes)) = Some header
         \<and> parse_uuid header = Some (v_view_id v) \<and> v \<in> set (e_views (explore_state (s_explore s)))
         \<and> v_connection_id v = c \<and> share_allows s (v_user_id v))"
proof (cases "i = sid")
  case False
  then show ?thesis
    using assms
    by (auto simp: explore_frame_def Let_def set_share_def AList.update_conv' split: if_splits option.splits)
next
  case True
  with assms show ?thesis
    by (auto simp: explore_frame_def Let_def set_share_def AList.update_conv' bind_eq_Some_conv
        split: if_splits option.splits dest!: find_SomeD) blast+
qed

definition demo_uuid_text :: "byte list" where
  "demo_uuid_text = replicate 36 0x61"

definition demo_explore_frame :: "byte list" where
  "demo_explore_frame = explore_magic @ demo_uuid_text @ demo_frame"

definition demo_exploring :: registry where
  "demo_exploring = registry_default\<lparr>shares :=
     [(3, (demo_share True [(11, 5)] [] None)\<lparr>s_explore := explore_default\<lparr>
        explore_state := \<lparr>e_available = True, e_requests = [], e_views =
          [\<lparr>v_view_id = 30, v_connection_id = 11, v_user_id = 5,
            v_viewport = \<lparr>vp_width = 800, vp_height = 600, vp_dpr = F64_Fin 1\<rparr>\<rparr>]\<rparr>,
        explore_frames := [(10, Live None), (11, Live None)]\<rparr>\<rparr>)]\<rparr>"

theorem explore_frame_private_witness:
  "\<exists>reg' s s'. explore_frame (\<lambda>_. Some 30) 3 demo_explore_frame 0 demo_exploring = (True, reg')
     \<and> map_of (shares demo_exploring) 3 = Some s \<and> map_of (shares reg') 3 = Some s'
     \<and> map_of (explore_frames (s_explore s)) 11 = Some (Live None)
     \<and> map_of (explore_frames (s_explore s')) 11 = Some (Live (Some demo_explore_frame))"
proof -
  have f: "is_explore_frame demo_explore_frame"
    by (simp add: is_explore_frame_def demo_explore_frame_def demo_uuid_text_def demo_frame_def
        explore_magic_def max_frame_def starts_with_def ends_with_def)
  have u: "from_utf8 (take 36 (drop 4 demo_explore_frame)) = Some (replicate 36 CHR ''a'')"
    by code_simp
  obtain reg' s s' where *: "explore_frame (\<lambda>_. Some 30) 3 demo_explore_frame 0 demo_exploring = (True, reg')"
    "map_of (shares demo_exploring) 3 = Some s" "map_of (shares reg') 3 = Some s'"
    "map_of (explore_frames (s_explore s)) 11 = Some (Live None)"
    "map_of (explore_frames (s_explore s')) 11 \<noteq> Some (Live None)"
    using f u by (simp add: explore_frame_def demo_exploring_def demo_share_simps share_allows_def
        contains_key_def)
  with explore_frame_private [OF *(1-3), of 11] show ?thesis by auto
qed

text \<open>C10. What a viewer's socket is told of a share depends on its viewer alone: the control, explore
  and video states sent for it are the same for any two shares that agree on what is available, on the
  current grant, and on the requests, the view and the peers of its own connection. The requests, views
  and peers of others do not show, but for one bit of the video state, whether anybody still needs the
  frames of the shared tab: with that bit put in place, the messages are equal.\<close>

lemma find_filter: "List.find P xs = (case filter P xs of [] \<Rightarrow> None | x # _ \<Rightarrow> Some x)"
  by (induction xs) auto

lemma bex_filter: "(\<exists>x \<in> set xs. P x) \<longleftrightarrow> filter P xs \<noteq> []"
  by (auto simp: filter_empty_conv)

theorem viewer_messages_private:
  assumes viewer: "\<not> k_publish k"
    and control: "c_available (control_state (s_control s)) = c_available (control_state (s_control s'))"
      "c_grant (control_state (s_control s)) = c_grant (control_state (s_control s'))"
      "filter (\<lambda>r. cr_connection_id r = k_connection k) (c_requests (control_state (s_control s)))
         = filter (\<lambda>r. cr_connection_id r = k_connection k) (c_requests (control_state (s_control s')))"
    and explore: "e_available (explore_state (s_explore s)) = e_available (explore_state (s_explore s'))"
      "filter (\<lambda>r. er_connection_id r = k_connection k) (e_requests (explore_state (s_explore s)))
         = filter (\<lambda>r. er_connection_id r = k_connection k) (e_requests (explore_state (s_explore s')))"
      "filter (\<lambda>v. v_connection_id v = k_connection k) (e_views (explore_state (s_explore s)))
         = filter (\<lambda>v. v_connection_id v = k_connection k) (e_views (explore_state (s_explore s')))"
    and video: "vs_available (video_state (s_video s)) = vs_available (video_state (s_video s'))"
      "filter (\<lambda>p. p_connection_id p = k_connection k) (vs_peers (video_state (s_video s)))
         = filter (\<lambda>p. p_connection_id p = k_connection k) (vs_peers (video_state (s_video s')))"
  shows "control_state_msg p k s = control_state_msg p k s'
    \<and> explore_state_msg p k s = explore_state_msg p k s'
    \<and> video_state_msg p lease k s = video_state_msg p lease k
        (s'\<lparr>s_video := (s_video s')\<lparr>video_state := (video_state (s_video s'))
             \<lparr>vs_needs_follow_frames := vs_needs_follow_frames (video_state (s_video s))\<rparr>\<rparr>\<rparr>)"
  using assms
  unfolding control_state_msg_def explore_state_msg_def video_state_msg_def
    control_snapshot_message_def explore_snapshot_message_def video_snapshot_message_def
    Let_def bex_filter find_filter
  by simp

text \<open>Another viewer asks for control and plays a video; the viewer of connection 11 is told the same.\<close>

definition demo_other_busy :: share where
  "demo_other_busy =
     (let s = demo_share True [(11, 5), (12, 6)] [\<lparr>cr_connection_id = 12, cr_user_id = 6\<rparr>] None
      in s\<lparr>s_video := (s_video s)\<lparr>video_state := \<lparr>vs_available = False,
             vs_peers = [\<lparr>p_id = 30, p_connection_id = 12, p_view_id = None,
               p_viewport = \<lparr>vp_width = 640, vp_height = 480, vp_dpr = F64_Fin 1\<rparr>, p_configuration = JNull,
               p_offer = None, p_answer = None, p_playing = False, p_born = Some 0\<rparr>],
             vs_needs_follow_frames = True\<rparr>\<rparr>\<rparr>)"

definition demo_other_idle :: share where
  "demo_other_idle = demo_share True [(11, 5), (12, 6)] [] None"

lemma demo_others:
  "\<not> k_publish (demo_socket False)" "k_connection (demo_socket False) = 11"
  "control_state (s_control demo_other_busy) = \<lparr>c_available = True, c_grant = None, c_requests = [\<lparr>cr_connection_id = 12, cr_user_id = 6\<rparr>]\<rparr>"
  "control_state (s_control demo_other_idle) = \<lparr>c_available = True, c_grant = None, c_requests = []\<rparr>"
  "s_explore demo_other_busy = s_explore demo_other_idle"
  "vs_available (video_state (s_video demo_other_busy)) = vs_available (video_state (s_video demo_other_idle))"
  "map p_connection_id (vs_peers (video_state (s_video demo_other_busy))) = [12]"
  "vs_peers (video_state (s_video demo_other_idle)) = []"
  by (simp_all add: demo_socket_def demo_other_busy_def demo_other_idle_def demo_share_def new_share_def video_default_def Let_def)

theorem viewer_messages_private_witness:
  "control_state_msg demo_protocol (demo_socket False) demo_other_busy
   = control_state_msg demo_protocol (demo_socket False) demo_other_idle"
proof -
  have p: "filter (\<lambda>q. p_connection_id q = 11) (vs_peers (video_state (s_video demo_other_busy))) = []"
    using demo_others(7) by (auto simp: filter_empty_conv)
  show ?thesis
    using viewer_messages_private [of "demo_socket False" demo_other_busy demo_other_idle demo_protocol False] p
    by (simp add: demo_others)
qed

text \<open>C11. The message rate of one connection is bounded: a socket that goes on has counted at
  most 120 text messages in its current one-second window, it counts every one, and the
  121st in a window ends the connection without reaching any handler.\<close>

lemma count_message_flags [simp]:
  "k_publish (count_message now k) = k_publish k" "k_share (count_message now k) = k_share k"
  "k_connection (count_message now k) = k_connection k" "k_user (count_message now k) = k_user k"
  "k_project (count_message now k) = k_project k"
  by (simp_all add: count_message_def Let_def)

lemma send_socket [simp]:
  "t_socket (send_msg m t) = t_socket t" "t_socket (send_state f t) = t_socket t"
  "t_socket (break_if b t) = t_socket t"
  by (simp_all add: send_msg_def send_state_def break_if_def split: option.splits)

lemma on_event_count:
  assumes "\<And>raw. ev \<noteq> RecvText raw"
  shows "k_message_count (t_socket (on_event p ev now t)) = k_message_count (t_socket t)"
proof (cases ev)
  case Lifetime
  then show ?thesis
    by (simp add: on_lifetime_def tick_control_def tick_video_def tick_explore_def Let_def)
qed (use assms in \<open>auto simp: on_binary_def on_action_def on_input_def on_explore_feed_def on_feed_def
       sent_frame_def Let_def split: prod.splits option.splits feed.splits\<close>)

lemma on_text_count:
  "k_message_count (t_socket (on_text p raw now t)) = k_message_count (count_message now (t_socket t))"
  "t_ok (on_text p raw now t) \<Longrightarrow> k_message_count (count_message now (t_socket t)) \<le> max_messages"
  by (auto simp: on_text_def Let_def split: prod.splits if_splits)

lemma on_text_over:
  "max_messages < k_message_count (count_message now (t_socket t)) \<Longrightarrow>
   on_text p raw now t = t\<lparr>t_socket := count_message now (t_socket t), t_ok := False\<rparr>"
  by (simp add: on_text_def Let_def)

lemma count_message_count:
  "k_message_count (count_message now k) =
     (if secs 1 \<le> duration_since now (k_message_window k) then 1 else k_message_count k + 1)"
  by (simp add: count_message_def Let_def)

lemma socket_step_goes_on:
  assumes "socket_step p ev link now k reg = (out, Some k', reg')"
  shows "\<exists>t. t_socket t = k \<and> t_ok (on_event p ev now t) \<and> k' = t_socket (on_event p ev now t)"
  using assms
  by (intro exI [of _ "\<lparr>t_ok = True, t_link = link, t_out = [], t_socket = k, t_reg = reg\<rparr>"])
    (auto simp: socket_step_def Let_def split: if_splits)

lemma socket_end_count [simp]: "socket_end (count_message now k) reg = socket_end k reg"
  by (simp add: socket_end_def)

theorem message_rate_bounded:
  assumes "k_message_count k \<le> max_messages"
  shows "(\<forall>out k' reg'. socket_step p ev link now k reg = (out, Some k', reg') \<longrightarrow>
            k_message_count k' \<le> max_messages \<and>
            (case ev of
               RecvText _ \<Rightarrow> k_message_count k' =
                 (if secs 1 \<le> duration_since now (k_message_window k) then 1 else k_message_count k + 1)
             | _ \<Rightarrow> k_message_count k' = k_message_count k))
       \<and> (k_message_count k = max_messages \<and> duration_since now (k_message_window k) < secs 1 \<longrightarrow>
            socket_step p (RecvText raw) link now k reg = ([], None, socket_end k reg))"
proof (intro conjI allI impI)
  fix out k' reg' assume "socket_step p ev link now k reg = (out, Some k', reg')"
  from socket_step_goes_on [OF this] obtain t where t: "t_socket t = k" "t_ok (on_event p ev now t)"
    and k': "k' = t_socket (on_event p ev now t)" by blast
  have "k_message_count k' \<le> max_messages \<and> k_message_count k' = k_message_count (count_message now k)"
    if "ev = RecvText raw" for raw
    using that t k' on_text_count [of p raw now t] by simp
  moreover have "k_message_count k' = k_message_count k" if "\<And>raw. ev \<noteq> RecvText raw"
    using on_event_count [OF that] t(1) k' by simp
  ultimately show "k_message_count k' \<le> max_messages"
    and "case ev of RecvText _ \<Rightarrow> k_message_count k' =
        (if secs 1 \<le> duration_since now (k_message_window k) then 1 else k_message_count k + 1)
      | _ \<Rightarrow> k_message_count k' = k_message_count k"
    using assms by (cases ev; simp add: count_message_count)+
next
  assume "k_message_count k = max_messages \<and> duration_since now (k_message_window k) < secs 1"
  then have "max_messages < k_message_count (count_message now k)" by (simp add: count_message_count)
  then show "socket_step p (RecvText raw) link now k reg = ([], None, socket_end k reg)"
    by (simp add: socket_step_def on_text_over)
qed

theorem message_rate_bounded_witness:
  "socket_step demo_protocol (RecvText ''request'') 1 0 ((demo_socket False)\<lparr>k_message_count := 120\<rparr>) demo_granted
   = ([], None, socket_end ((demo_socket False)\<lparr>k_message_count := 120\<rparr>) demo_granted)"
  using message_rate_bounded [of "(demo_socket False)\<lparr>k_message_count := 120\<rparr>" demo_protocol _ 1 0 demo_granted]
  by (simp add: max_messages_def demo_socket_def duration_since_def secs_def)

section \<open>The requests\<close>

text \<open>Who can open a socket on a share. Watching needs a share of that project that has
  neither reached its hour nor missed its host for twenty seconds, a person it allows and
  a free place among eight; publishing needs the owner and no other publisher. Exactly then
  \<open>connect\<close> succeeds, and a failure changes nothing but the pruning.\<close>

lemma find_share_prune:
  assumes "reg_ok reg"
  shows "find_share project sid (prune now reg) = Some s \<longleftrightarrow>
    map_of (shares reg) sid = Some s \<and> si_project_id (s_info s) = project \<and> share_alive now s"
  using map_of_filter_distinct [OF reg_ok_keys [OF assms]]
  by (auto simp: find_share_def prune_def Let_def split: option.splits)

theorem connect_outcome:
  assumes "reaches reg_step registry_default reg"
  shows "((\<exists>conn. fst (connect project sid user publish now c reg) = Inr conn) \<longleftrightarrow>
    (\<exists>s. map_of (shares reg) sid = Some s \<and> si_project_id (s_info s) = project
       \<and> duration_since now (s_born s) < max_lifetime \<and> duration_since now (s_seen s) < host_timeout
       \<and> (if publish then user = si_owner_user_id (s_info s) \<and> \<not> s_publisher s
          else share_allows s user \<and> length (s_viewers s) < 8)))
    \<and> (\<forall>e. fst (connect project sid user publish now c reg) = Inl e \<longrightarrow>
         snd (connect project sid user publish now c reg) = prune now reg)"
proof (cases "find_share project sid (prune now reg)")
  case None
  then have "\<not> (map_of (shares reg) sid = Some s \<and> si_project_id (s_info s) = project \<and> share_alive now s)" for s
    using find_share_prune [OF reachable_ok [OF assms], of project sid now s] by simp
  with None show ?thesis by (auto simp: connect_def Let_def share_alive_def)
next
  case (Some s)
  with find_share_prune [OF reachable_ok [OF assms], of project sid now s]
  have "map_of (shares reg) sid = Some s \<and> si_project_id (s_info s) = project \<and> share_alive now s" by simp
  with Some show ?thesis
    by (auto simp: connect_def Let_def open_connection_def share_alive_def)
qed

theorem connect_outcome_witness:
  "(\<exists>conn. fst (connect 1 3 5 False 3 12 demo_granted) = Inr conn)
   \<and> \<not> (\<exists>conn. fst (connect 1 3 2 True 3 12 demo_granted) = Inr conn)"
  using connect_outcome [OF demo_reachable(5), of 1 3 5 False 3 12]
    connect_outcome [OF demo_reachable(5), of 1 3 2 True 3 12]
  by (simp add: demo_granted_shares demo_share_simps share_allows_def host_timeout_def
      max_lifetime_def rust_simps)

text \<open>What a person sees in the list of a project: exactly the live shares of that project
  that have a publisher and allow that person; and after the call no share past its hour or without
  its host is left, and the feeds of those that went are stopped.\<close>

theorem list_shares_complete:
  assumes "list_shares project user now reg = (xs, reg')"
  shows "(info \<in> set xs \<longleftrightarrow> (\<exists>(i, s) \<in> set (shares reg). share_alive now s \<and> s_info s = info
            \<and> si_project_id info = project \<and> s_publisher s \<and> share_allows s user))
    \<and> (\<forall>(i, s) \<in> set (shares reg'). share_alive now s)
    \<and> (\<forall>(i, s) \<in> set (shares reg). \<not> share_alive now s \<longrightarrow> feed_chan reg' i = Stopped)"
  using assms by (force simp: list_shares_def prune_def Let_def)

theorem list_shares_complete_witness:
  "\<exists>xs reg' info. list_shares 1 5 3 demo_granted = (xs, reg') \<and> info \<in> set xs"
proof -
  obtain xs reg' where e: "list_shares 1 5 3 demo_granted = (xs, reg')" by (metis prod.collapse)
  let ?s = "demo_share True [(11, 5)] [] (Some \<lparr>g_id = 20, g_connection_id = 11, g_user_id = 5\<rparr>)"
  have "share_alive 3 ?s \<and> si_project_id (s_info ?s) = 1 \<and> s_publisher ?s \<and> share_allows ?s 5"
    by (simp add: demo_share_simps share_allows_def share_alive_def max_lifetime_def host_timeout_def rust_simps)
  with list_shares_complete [OF e, of "s_info ?s"] e show ?thesis
    by (auto simp: demo_granted_shares)
qed

text \<open>The audience of a new share: a request is accepted only in view mode, and then either
  for the whole space with nobody named, or for one to 32 named people, whom the selection lists
  once each and among whom the owner is not.\<close>

lemma length_remdups_pos: "xs \<noteq> [] \<Longrightarrow> remdups xs \<noteq> []"
  by (induction xs) auto

theorem selection_outcome:
  "case selection req owner of
     Inl e \<Rightarrow> \<exists>m. e = BadRequest m
   | Inr None \<Rightarrow> req_mode req = ''view'' \<and> req_audience req = ''space'' \<and> req_viewer_user_ids req = []
   | Inr (Some users) \<Rightarrow> req_mode req = ''view'' \<and> req_audience req = ''selected''
       \<and> distinct users \<and> set users = set (req_viewer_user_ids req) \<and> owner \<notin> set users
       \<and> 1 \<le> length users \<and> length users \<le> 32"
proof -
  have "1 \<le> length (remdups xs)" if "xs \<noteq> []" for xs :: "uuid list"
    using that length_remdups_pos [OF that] by (cases "remdups xs") auto
  moreover have "length (remdups xs) \<le> 32" if "length xs \<le> 32" for xs :: "uuid list"
    using that length_remdups_leq [of xs] by linarith
  ultimately show ?thesis by (auto simp: selection_def)
qed

text \<open>A viewer cannot flood the host with video peers: a request for a new peer while six
  of that connection's requests are younger than ten seconds is refused, the peers stay as they
  were, and the accepted requests that are remembered never number more than six.\<close>

theorem video_requests_limited:
  assumes "length (recent_requests now connection s) \<le> 6"
    and "video_apply now connection False config (VideoRequest pid vp) s = (r, s')"
  shows "length (recent_requests now connection s') \<le> 6
    \<and> (length (recent_requests now connection s) = 6 \<longrightarrow>
         (\<forall>ps. r \<noteq> Inr ps) \<and> vs_peers (video_state (s_video s')) = vs_peers (video_state (s_video s)))"
proof -
  have le: "length (retain P (retain P xs @ ys)) \<le> length (retain P xs) + length ys" for P and xs ys :: "instant list"
    by (simp add: retain_def le_trans [OF length_filter_le])
  show ?thesis
    using assms le [of "\<lambda>t. duration_since now t < secs 10" _ "[now]"] le [of "\<lambda>t. duration_since now t < secs 10" _ "[]"]
    by (auto simp: Let_def recent_requests_def set_requests_def AList.update_conv' retain_def
        split: if_splits option.splits)
qed

theorem video_requests_limited_witness:
  "\<exists>r s'. video_apply 9 11 False (Some JNull)
       (VideoRequest 40 \<lparr>vp_width = 800, vp_height = 600, vp_dpr = F64_Fin 1\<rparr>)
       (set_requests 11 [1, 2, 3, 4, 5, 6] (demo_share True [(11, 5)] [] None)) = (r, s')
     \<and> (\<forall>ps. r \<noteq> Inr ps)"
proof -
  let ?s = "set_requests 11 [1, 2, 3, 4, 5, 6] (demo_share True [(11, 5)] [] None)"
  let ?v = "VideoRequest 40 \<lparr>vp_width = 800, vp_height = 600, vp_dpr = F64_Fin 1\<rparr>"
  have n: "length (recent_requests 9 11 ?s) = 6"
    by (simp add: recent_requests_def set_requests_def AList.update_conv' retain_def rust_simps)
  obtain r s' where e: "video_apply 9 11 False (Some JNull) ?v ?s = (r, s')" by (metis prod.collapse)
  from video_requests_limited [OF _ e] n e show ?thesis by auto
qed

end
