(* ===== verification/Browser_Isolation.thy ===== *)
theory Browser_Isolation
  imports Browser_Safety
begin

text \<open>
  What a viewer's socket can do to the registry, whatever it is sent: it acts for its own connection
  only. \<open>only_own\<close> compares a share before and after; it is kept by every operation a viewer's socket
  runs, and \<open>confined\<close> lifts it to the registry.
\<close>

section \<open>Acting for one connection\<close>

definition own_grant :: "uuid \<Rightarrow> control \<Rightarrow> control_input \<Rightarrow> bool" where
  "own_grant c d i \<longleftrightarrow>
     (case c_grant (control_state d) of
        None \<Rightarrow> False | Some g \<Rightarrow> g_connection_id g = c \<and> ci_grant_id i = g_id g)"

definition own_views :: "uuid \<Rightarrow> explore \<Rightarrow> uuid set" where
  "own_views c e = v_view_id ` {v \<in> set (e_views (explore_state e)). v_connection_id v = c}"

text \<open>Control: others' requests stay, a grant is at most given up by its holder, and what is queued for
  the owner's browser is input under the connection's own grant.\<close>

definition control_own :: "uuid \<Rightarrow> control \<Rightarrow> control \<Rightarrow> bool" where
  "control_own c d d' \<longleftrightarrow>
     c_available (control_state d') = c_available (control_state d) \<and> control_receiver d' = control_receiver d
     \<and> filter (\<lambda>r. cr_connection_id r \<noteq> c) (c_requests (control_state d'))
         = filter (\<lambda>r. cr_connection_id r \<noteq> c) (c_requests (control_state d))
     \<and> (c_grant (control_state d') = c_grant (control_state d)
        \<or> c_grant (control_state d') = None \<and> grant_is (control_state d) c)
     \<and> (\<exists>q. ch_queue (control_queue d') = ch_queue (control_queue d) @ q \<and> list_all (own_grant c d) q)"

text \<open>Explore: others' requests, views, feeds and frame times stay, the connection gains no view, and what
  is queued is about its own views.\<close>

definition explore_own :: "uuid \<Rightarrow> explore \<Rightarrow> explore \<Rightarrow> bool" where
  "explore_own c e e' \<longleftrightarrow>
     e_available (explore_state e') = e_available (explore_state e) \<and> explore_receiver e' = explore_receiver e
     \<and> filter (\<lambda>r. er_connection_id r \<noteq> c) (e_requests (explore_state e'))
         = filter (\<lambda>r. er_connection_id r \<noteq> c) (e_requests (explore_state e))
     \<and> filter (\<lambda>v. v_connection_id v \<noteq> c) (e_views (explore_state e'))
         = filter (\<lambda>v. v_connection_id v \<noteq> c) (e_views (explore_state e))
     \<and> own_views c e' \<subseteq> own_views c e
     \<and> AList.delete c (explore_frames e') = AList.delete c (explore_frames e)
     \<and> (\<forall>v\<in>set (e_views (explore_state e)). v_connection_id v \<noteq> c \<longrightarrow>
          map_of (explore_last_frames e') (v_view_id v) = map_of (explore_last_frames e) (v_view_id v))
     \<and> (\<exists>q. ch_queue (explore_queue e') = ch_queue (explore_queue e) @ q \<and> list_all (\<lambda>a. action_id a \<in> own_views c e) q)"

text \<open>Video: others' peers stay, or all that are no longer current go at once; so do others' request times.\<close>

definition video_own :: "(peer \<Rightarrow> bool) \<Rightarrow> uuid \<Rightarrow> video \<Rightarrow> video \<Rightarrow> bool" where
  "video_own current c v v' \<longleftrightarrow>
     vs_available (video_state v') = vs_available (video_state v)
     \<and> filter (\<lambda>p. p_connection_id p \<noteq> c) (vs_peers (video_state v'))
         \<in> {filter (\<lambda>p. p_connection_id p \<noteq> c) (vs_peers (video_state v)),
            filter (\<lambda>p. p_connection_id p \<noteq> c \<and> current p) (vs_peers (video_state v))}
     \<and> AList.delete c (video_requests v') = AList.delete c (video_requests v)"

definition only_own :: "instant \<Rightarrow> uuid \<Rightarrow> share \<Rightarrow> share \<Rightarrow> bool" where
  "only_own now c s s' \<longleftrightarrow>
     s_info s' = s_info s \<and> s_born s' = s_born s \<and> s_seen s' = s_seen s \<and> s_publisher s' = s_publisher s
     \<and> s_selected s' = s_selected s \<and> s_removed s' = s_removed s
     \<and> AList.delete c (s_viewers s') = AList.delete c (s_viewers s)
     \<and> control_own c (s_control s) (s_control s')
     \<and> explore_own c (s_explore s) (s_explore s')
     \<and> video_own (peer_current now s) c (s_video s) (s_video s')"

lemma own_refl [simp]: "control_own c d d" "explore_own c e e" "video_own P c v v" "only_own now c s s"
  by (simp_all add: control_own_def explore_own_def video_own_def only_own_def)

lemma delete_eq_map_of: "AList.delete c m = AList.delete c m' \<Longrightarrow> d \<noteq> c \<Longrightarrow> map_of m d = map_of m' d"
  by (metis AList.delete_conv' fun_upd_other)

lemma delete_update [simp]: "AList.delete c (AList.update c x m) = AList.delete c m"
  by (induction m) auto

lemma delete_delete [simp]: "AList.delete c (AList.delete c m) = AList.delete c m"
  by (induction m) auto

lemma find_filter_same: "filter P xs = filter P ys \<Longrightarrow> (\<And>x. Q x \<Longrightarrow> P x) \<Longrightarrow> List.find Q xs = List.find Q ys"
proof -
  assume f: "filter P xs = filter P ys" and q: "\<And>x. Q x \<Longrightarrow> P x"
  have "List.find Q zs = List.find Q (filter P zs)" for zs
    by (induction zs) (auto dest: q)
  with f show ?thesis by metis
qed

lemma peer_current_same:
  assumes "only_own now c s t" "p_connection_id p \<noteq> c"
  shows "peer_current now t p = peer_current now s p"
proof -
  have "contains_key (s_viewers t) (p_connection_id p) = contains_key (s_viewers s) (p_connection_id p)"
    using assms delete_eq_map_of [of c "s_viewers t" "s_viewers s"] by (simp add: only_own_def contains_key_def)
  moreover have "explore_view_id (s_explore t) (p_connection_id p) = explore_view_id (s_explore s) (p_connection_id p)"
    unfolding explore_view_id_def
    by (rule arg_cong [OF find_filter_same [where P = "\<lambda>v. v_connection_id v \<noteq> c"]])
      (use assms in \<open>auto simp: only_own_def explore_own_def\<close>)
  ultimately show ?thesis by (simp add: peer_current_def)
qed

lemma control_own_trans: "control_own c d d' \<Longrightarrow> control_own c d' d'' \<Longrightarrow> control_own c d d''"
proof -
  assume a: "control_own c d d'" and b: "control_own c d' d''"
  have g: "own_grant c d i" if "own_grant c d' i" for i
    using a that by (auto simp: control_own_def own_grant_def grant_is_def split: option.splits)
  from a obtain q where q: "ch_queue (control_queue d') = ch_queue (control_queue d) @ q" "list_all (own_grant c d) q"
    by (auto simp: control_own_def)
  from b obtain r where r: "ch_queue (control_queue d'') = ch_queue (control_queue d') @ r" "list_all (own_grant c d') r"
    by (auto simp: control_own_def)
  have "list_all (own_grant c d) r" by (rule list.pred_mono_strong [OF r(2)]) (rule g)
  with q r have "ch_queue (control_queue d'') = ch_queue (control_queue d) @ (q @ r) \<and> list_all (own_grant c d) (q @ r)"
    by simp
  then have "\<exists>q. ch_queue (control_queue d'') = ch_queue (control_queue d) @ q \<and> list_all (own_grant c d) q" by blast
  moreover have "c_grant (control_state d'') = c_grant (control_state d)
      \<or> c_grant (control_state d'') = None \<and> grant_is (control_state d) c"
    using a b unfolding control_own_def grant_is_def by (elim conjE disjE) (simp_all split: option.splits)
  ultimately show ?thesis using a b unfolding control_own_def by (elim conjE) simp
qed

lemma explore_own_trans: "explore_own c e e' \<Longrightarrow> explore_own c e' e'' \<Longrightarrow> explore_own c e e''"
proof -
  assume a: "explore_own c e e'" and b: "explore_own c e' e''"
  from a obtain q where q: "ch_queue (explore_queue e') = ch_queue (explore_queue e) @ q"
      "list_all (\<lambda>a. action_id a \<in> own_views c e) q"
    by (auto simp: explore_own_def)
  from b obtain r where r: "ch_queue (explore_queue e'') = ch_queue (explore_queue e') @ r"
      "list_all (\<lambda>a. action_id a \<in> own_views c e') r"
    by (auto simp: explore_own_def)
  have own: "own_views c e' \<subseteq> own_views c e" using a by (simp add: explore_own_def)
  have "list_all (\<lambda>a. action_id a \<in> own_views c e) r"
    by (rule list.pred_mono_strong [OF r(2)]) (use own in blast)
  with q r have "ch_queue (explore_queue e'') = ch_queue (explore_queue e) @ (q @ r)
      \<and> list_all (\<lambda>a. action_id a \<in> own_views c e) (q @ r)" by simp
  then have queue: "\<exists>q. ch_queue (explore_queue e'') = ch_queue (explore_queue e) @ q
      \<and> list_all (\<lambda>a. action_id a \<in> own_views c e) q" by blast
  have others: "v \<in> set (e_views (explore_state e'))" if "v \<in> set (e_views (explore_state e))" "v_connection_id v \<noteq> c" for v
  proof -
    have "v \<in> set (filter (\<lambda>v. v_connection_id v \<noteq> c) (e_views (explore_state e')))"
      using a that by (simp add: explore_own_def)
    then show ?thesis by simp
  qed
  show ?thesis
    using a b own queue others unfolding explore_own_def by (elim conjE) (intro conjI; simp?; blast?)
qed

lemma video_own_trans:
  assumes "video_own P c v v'" "video_own Q c v' v''" "\<And>p. p_connection_id p \<noteq> c \<Longrightarrow> Q p = P p"
  shows "video_own P c v v''"
proof -
  let ?o = "\<lambda>v. filter (\<lambda>p. p_connection_id p \<noteq> c) (vs_peers (video_state v))"
  have f: "filter (\<lambda>p. p_connection_id p \<noteq> c \<and> R p) (vs_peers (video_state w)) = filter R (?o w)" for R w
    by (simp add: conj_commute)
  have qp: "filter Q (?o w) = filter P (?o w)" for w by (rule filter_cong) (use assms(3) in auto)
  have pp: "filter P (filter P (?o w)) = filter P (?o w)" for w by simp
  have "?o v' = ?o v \<or> ?o v' = filter P (?o v)" using assms(1) unfolding video_own_def f by blast
  moreover have "?o v'' = ?o v' \<or> ?o v'' = filter P (?o v')" using assms(2) unfolding video_own_def f qp by blast
  ultimately have "?o v'' = ?o v \<or> ?o v'' = filter P (?o v)" using pp by metis
  then show ?thesis using assms(1,2) unfolding video_own_def f by simp
qed

lemma only_own_trans: "only_own now c s t \<Longrightarrow> only_own now c t u \<Longrightarrow> only_own now c s u"
proof -
  assume a: "only_own now c s t" and b: "only_own now c t u"
  have "video_own (peer_current now s) c (s_video s) (s_video u)"
    using video_own_trans [of "peer_current now s" c "s_video s" "s_video t" "peer_current now t" "s_video u"]
      peer_current_same [OF a] a b by (simp add: only_own_def)
  moreover have "control_own c (s_control s) (s_control u)" "explore_own c (s_explore s) (s_explore u)"
    using a b control_own_trans explore_own_trans unfolding only_own_def by blast+
  ultimately show ?thesis using a b by (simp add: only_own_def)
qed

section \<open>Operations on a share\<close>

lemma reconcile_own: "only_own now c s (reconcile now s)"
  by (simp add: only_own_def reconcile_def Let_def video_own_def retain_def conj_commute)

lemma set_peers_own:
  "filter (\<lambda>p. p_connection_id p \<noteq> c) ps = filter (\<lambda>p. p_connection_id p \<noteq> c) (vs_peers (video_state (s_video s))) \<Longrightarrow>
     only_own now c s (set_peers ps s)"
  by (simp add: only_own_def set_peers_def video_own_def)

lemma set_requests_own: "only_own now c s (set_requests c ts s)"
  by (simp add: only_own_def set_requests_def video_own_def)

lemma filter_update_first:
  "(\<And>x. x \<in> set xs \<Longrightarrow> P x \<Longrightarrow> \<not> Q x \<and> \<not> Q (f x)) \<Longrightarrow> filter Q (update_first P f xs) = filter Q xs"
  by (induction xs) auto

lemma filter_retain_other: "(\<And>x. Q x \<Longrightarrow> P x) \<Longrightarrow> filter Q (retain P xs) = filter Q xs"
  by (auto simp: retain_def intro!: filter_cong)

lemma video_apply_own:
  assumes "video_apply now c False config cmd s = (r, s')"
  shows "only_own now c s s' \<and> s_control s' = s_control s \<and> s_explore s' = s_explore s
    \<and> (\<forall>ps. r = Inr ps \<longrightarrow> filter (\<lambda>p. p_connection_id p \<noteq> c) ps
              = filter (\<lambda>p. p_connection_id p \<noteq> c) (vs_peers (video_state (s_video s'))))"
  using assms
proof (cases cmd)
  case (VideoRequest pid viewport)
  with assms show ?thesis
    by (auto simp: Let_def set_requests_own set_requests_def filter_retain_other
        split: option.splits if_splits)
      (auto simp: only_own_def video_own_def retain_def)
qed (auto intro!: filter_update_first filter_retain_other split: if_splits)

lemma grant_is_own: "grant_is st c \<Longrightarrow> \<exists>g. c_grant st = Some g \<and> g_connection_id g = c"
  by (auto simp: grant_is_def split: option.splits)

lemma control_apply_own: "only_own now c s (snd (control_apply c user False cmd s))"
proof (cases cmd)
  case ReleaseControl
  then show ?thesis
    by (auto simp: Let_def only_own_def set_control_state_def control_own_def retain_def)
next
  case RequestControl
  then show ?thesis
    by (auto simp: Let_def only_own_def set_control_state_def control_own_def)
next
  case (ControlInput gid input)
  then show ?thesis
    by (auto simp: Let_def only_own_def control_own_def own_grant_def dest!: try_send_queue split: option.splits)
qed (simp_all add: Let_def)

lemma explore_send_own:
  "action_id a \<in> own_views c (s_explore s) \<Longrightarrow> only_own now c s (snd (explore_send a s))"
  by (auto simp: explore_send_def only_own_def explore_own_def own_views_def dest!: try_send_queue split: option.splits)

lemma owns_view_own: "owns_view (explore_state e) c user i \<Longrightarrow> i \<in> own_views c e"
  by (auto simp: owns_view_def own_views_def)

lemma explore_clear_own:
  assumes "distinct (map v_view_id (e_views (explore_state e)))"
  shows "explore_own c e (explore_clear c e)"
proof -
  have m: "map_of (fold (\<lambda>v m. AList.delete (v_view_id v) m) vs m) k = (if k \<in> v_view_id ` set vs then None else map_of m k)"
    for vs :: "view list" and m :: "(uuid, instant) hash_map" and k
    by (induction vs arbitrary: m) (auto simp: AList.delete_conv')
  have "map_of (explore_last_frames (explore_clear c e)) (v_view_id v) = map_of (explore_last_frames e) (v_view_id v)"
    if "v \<in> set (e_views (explore_state e))" "v_connection_id v \<noteq> c" for v
    using that inj_onD [OF assms [unfolded distinct_map, THEN conjunct2]]
    by (auto simp: explore_clear_def Let_def m)
  then show ?thesis
    by (auto simp: explore_own_def own_views_def retain_def) (simp add: explore_clear_def Let_def)
qed

lemma explore_apply_own:
  assumes "distinct (map v_view_id (e_views (explore_state (s_explore s))))"
  shows "only_own now c s (snd (explore_apply c user False cmd s))"
proof (cases cmd)
  case ExploreReturn
  with explore_clear_own [OF assms] show ?thesis by (simp add: only_own_def)
next
  case (ExploreRequest viewport)
  then show ?thesis
    by (auto simp: Let_def only_own_def set_explore_state_def explore_own_def own_views_def)
next
  case (ExploreResize i viewport)
  let ?vs = "e_views (explore_state (s_explore s))"
  let ?f = "\<lambda>v. v\<lparr>v_viewport := viewport\<rparr>"
  have same: "filter (\<lambda>v. v_connection_id v \<noteq> c) (update_first (\<lambda>v. v_view_id v = i) ?f ?vs) = filter (\<lambda>v. v_connection_id v \<noteq> c) ?vs"
    if "owns_view (explore_state (s_explore s)) c user i"
  proof -
    from that obtain v where v: "v \<in> set ?vs" "v_view_id v = i" "v_connection_id v = c" by (auto simp: owns_view_def)
    then have "\<forall>w\<in>set ?vs. v_view_id w = i \<longrightarrow> v_connection_id w = c"
      using inj_onD [OF assms [unfolded distinct_map, THEN conjunct2]] by blast
    then show ?thesis by (intro filter_update_first) auto
  qed
  have "v_view_id ` {v \<in> set (update_first (\<lambda>v. v_view_id v = i) ?f ?vs). v_connection_id v = c} \<subseteq> v_view_id ` {v \<in> set ?vs. v_connection_id v = c}"
    by (auto elim!: in_update_firstE intro: rev_image_eqI)
  with same ExploreResize show ?thesis
    by (auto simp: Let_def only_own_def set_explore_state_def explore_own_def own_views_def)
qed (auto simp: Let_def dest!: owns_view_own intro!: explore_send_own)

lemma leave_share_own:
  assumes "distinct (map v_view_id (e_views (explore_state (s_explore s))))"
  shows "only_own now c s (s\<lparr>s_viewers := AList.delete c (s_viewers s), s_control := control_leave c (s_control s),
           s_explore := explore_leave c (s_explore s), s_video := video_leave c (s_video s)\<rparr>)"
proof -
  have "explore_own c (s_explore s) (explore_leave c (s_explore s))"
    using explore_clear_own [OF assms, of c] by (simp add: explore_own_def own_views_def explore_leave_def Let_def)
  moreover have "control_own c (s_control s) (control_leave c (s_control s))"
    by (auto simp: control_own_def control_leave_def Let_def retain_def grant_is_def split: option.splits)
  moreover have "video_own (peer_current now s) c (s_video s) (video_leave c (s_video s))"
    by (simp add: video_own_def video_leave_def retain_def)
  ultimately show ?thesis by (simp add: only_own_def)
qed

section \<open>The registry\<close>

text \<open>Between two looks at the registry, other shares are unchanged or have gone because their time was over;
  the share of the socket changed by what its connection may do.\<close>

definition confined :: "instant \<Rightarrow> uuid \<Rightarrow> uuid \<Rightarrow> registry \<Rightarrow> registry \<Rightarrow> bool" where
  "confined now sid c reg reg' \<longleftrightarrow>
     revoked_chan reg' = revoked_chan reg
     \<and> (\<forall>i. case map_of (shares reg) i of
              None \<Rightarrow> map_of (shares reg') i = None \<and> feed_chan reg' i = feed_chan reg i
            | Some s \<Rightarrow>
                \<not> share_alive now s \<and> map_of (shares reg') i = None \<and> feed_chan reg' i = Stopped
                \<or> feed_chan reg' i = feed_chan reg i
                  \<and> (\<exists>s'. map_of (shares reg') i = Some s' \<and> (if i = sid then only_own now c s s' else s' = s)))"

lemma confined_refl [simp]: "confined now sid c reg reg"
  by (auto simp: confined_def split: option.split)

lemma only_own_alive: "only_own now c s t \<Longrightarrow> share_alive now t = share_alive now s"
  by (simp add: only_own_def share_alive_def)

lemma confined_trans:
  assumes "confined now sid c r s" "confined now sid c s t"
  shows "confined now sid c r t"
  unfolding confined_def
proof (intro conjI allI)
  show "revoked_chan t = revoked_chan r" using assms by (simp add: confined_def)
  fix i
  from assms(1) have 1: "case map_of (shares r) i of None \<Rightarrow> map_of (shares s) i = None \<and> feed_chan s i = feed_chan r i
      | Some x \<Rightarrow> \<not> share_alive now x \<and> map_of (shares s) i = None \<and> feed_chan s i = Stopped
          \<or> feed_chan s i = feed_chan r i \<and> (\<exists>y. map_of (shares s) i = Some y \<and> (if i = sid then only_own now c x y else y = x))"
    by (simp add: confined_def)
  from assms(2) have 2: "case map_of (shares s) i of None \<Rightarrow> map_of (shares t) i = None \<and> feed_chan t i = feed_chan s i
      | Some x \<Rightarrow> \<not> share_alive now x \<and> map_of (shares t) i = None \<and> feed_chan t i = Stopped
          \<or> feed_chan t i = feed_chan s i \<and> (\<exists>y. map_of (shares t) i = Some y \<and> (if i = sid then only_own now c x y else y = x))"
    by (simp add: confined_def)
  show "case map_of (shares r) i of None \<Rightarrow> map_of (shares t) i = None \<and> feed_chan t i = feed_chan r i
      | Some x \<Rightarrow> \<not> share_alive now x \<and> map_of (shares t) i = None \<and> feed_chan t i = Stopped
          \<or> feed_chan t i = feed_chan r i \<and> (\<exists>y. map_of (shares t) i = Some y \<and> (if i = sid then only_own now c x y else y = x))"
    using 1 2 by (cases "map_of (shares r) i"; cases "map_of (shares s) i")
      (auto split: if_splits dest: only_own_alive only_own_trans)
qed

lemma confined_share:
  "map_of (shares reg) sid = Some s \<Longrightarrow> only_own now c s s' \<Longrightarrow> confined now sid c reg (set_share sid s' reg)"
  by (simp add: confined_def set_share_def AList.update_conv' split: option.split)

lemma confined_prune:
  assumes "keys_distinct (shares reg)"
  shows "confined now sid c reg (prune now reg)"
proof -
  have m: "map_of (shares (prune now reg)) i = (case map_of (shares reg) i of
        Some s \<Rightarrow> if share_alive now s then Some s else None | None \<Rightarrow> None)" for i
    using map_of_filter_distinct [OF assms, of "\<lambda>(sid, s). share_alive now s" i]
    by (simp add: prune_def Let_def split: option.splits)
  have f: "feed_chan (prune now reg) i = (case map_of (shares reg) i of
        Some s \<Rightarrow> if share_alive now s then feed_chan reg i else Stopped | None \<Rightarrow> feed_chan reg i)" for i
  proof -
    have "i \<in> fst ` set (filter (\<lambda>(i, s). \<not> share_alive now s) (shares reg))
        \<longleftrightarrow> (\<exists>s. map_of (shares reg) i = Some s \<and> \<not> share_alive now s)"
      using assms by (force dest: map_of_SomeD)
    then show ?thesis by (auto simp: prune_def Let_def split: option.splits)
  qed
  have "revoked_chan (prune now reg) = revoked_chan reg" by (simp add: prune_def Let_def)
  then show ?thesis unfolding confined_def m f by (auto split: option.split)
qed

section \<open>The socket\<close>

lemma confined_distinct_views:
  assumes "reg_ok reg" "map_of (shares reg) sid = Some s"
  shows "distinct (map v_view_id (e_views (explore_state (s_explore s))))"
  using reg_ok_share [OF assms] by (simp add: share_ok_def views_ok_def Let_def)

lemma reconcile_confined: "confined now sid c reg (reconcile_video sid now reg)"
  by (auto simp: reconcile_video_def intro: confined_share reconcile_own split: option.split)

lemma video_confined:
  assumes "video_message pvd sid c False raw config now reg = (r, reg')"
  shows "confined now sid c reg reg'
    \<and> (\<forall>s s'. map_of (shares reg) sid = Some s \<longrightarrow> map_of (shares reg') sid = Some s' \<longrightarrow>
          s_control s' = s_control s \<and> s_explore s' = s_explore s)"
proof (cases "pvd raw")
  case (Some cmd)
  show ?thesis
  proof (cases "map_of (shares reg) sid")
    case (Some s)
    let ?s = "reconcile now s"
    have keeps: "s_control (reconcile now u) = s_control u" "s_explore (reconcile now u) = s_explore u"
      "s_control (set_peers ps u) = s_control u" "s_explore (set_peers ps u) = s_explore u" for u ps
      by (simp_all add: reconcile_def set_peers_def Let_def)
    have "\<exists>s'. reg' = set_share sid s' reg \<and> only_own now c s s' \<and> s_control s' = s_control s \<and> s_explore s' = s_explore s"
    proof (cases "\<not> vs_available (video_state (s_video ?s)) \<or> \<not> contains_key (s_viewers ?s) c")
      case True
      with assms \<open>pvd raw = Some cmd\<close> Some have "reg' = set_share sid ?s reg" by (auto simp: video_message_def Let_def)
      then show ?thesis using reconcile_own keeps by blast
    next
      case False
      obtain x u where a: "video_apply now c False config cmd ?s = (x, u)" by (cases "video_apply now c False config cmd ?s")
      from video_apply_own [OF a] have u: "only_own now c s u" "s_control u = s_control s" "s_explore u = s_explore s"
        and p: "x = Inr ps \<Longrightarrow> filter (\<lambda>p. p_connection_id p \<noteq> c) ps
              = filter (\<lambda>p. p_connection_id p \<noteq> c) (vs_peers (video_state (s_video u)))" for ps
        using only_own_trans [OF reconcile_own] by (simp_all add: keeps)
      show ?thesis
      proof (cases x)
        case (Inl ok)
        with assms \<open>pvd raw = Some cmd\<close> Some False a have "reg' = set_share sid u reg"
          by (simp add: video_message_def Let_def)
        with u show ?thesis by blast
      next
        case (Inr ps)
        with assms \<open>pvd raw = Some cmd\<close> Some False a have "reg' = set_share sid (reconcile now (set_peers ps u)) reg"
          by (simp add: video_message_def Let_def)
        moreover have "only_own now c s (reconcile now (set_peers ps u))"
          using only_own_trans [OF only_own_trans [OF u(1) set_peers_own [OF p [OF Inr]]] reconcile_own] .
        ultimately show ?thesis using u keeps by auto
      qed
    qed
    with Some show ?thesis
      by (auto simp: set_share_def AList.update_conv' intro: confined_share [unfolded set_share_def])
  qed (use assms Some in \<open>auto simp: video_message_def\<close>)
qed (use assms in \<open>auto simp: video_message_def\<close>)

lemma explore_confined:
  assumes "reg_ok reg" "explore_message pv fv sid c user False raw reg = (r, reg')"
  shows "confined now sid c reg reg'
    \<and> (\<forall>s. map_of (shares reg) sid = Some s \<longrightarrow> \<not> peer_authorized s c user False \<longrightarrow> reg' = reg)"
  using assms(2) confined_distinct_views [OF assms(1)]
  by (auto simp: explore_message_def Let_def split: if_splits option.splits prod.splits)
    (metis confined_share explore_apply_own snd_conv)

lemma control_confined:
  assumes "control_message pc sid c user False raw reg = (r, reg')"
  shows "confined now sid c reg reg'
    \<and> (\<forall>s. map_of (shares reg) sid = Some s \<longrightarrow> \<not> peer_authorized s c user False \<longrightarrow> reg' = reg)"
  using assms
  by (auto simp: control_message_def Let_def split: if_splits option.splits prod.splits)
    (metis confined_share control_apply_own snd_conv)

definition same_authority :: "uuid \<Rightarrow> registry \<Rightarrow> registry \<Rightarrow> bool" where
  "same_authority sid reg reg' \<longleftrightarrow>
     (\<forall>s s'. map_of (shares reg) sid = Some s \<and> map_of (shares reg') sid = Some s' \<longrightarrow>
        s_control s' = s_control s \<and> s_explore s' = s_explore s)"

lemma same_authority_simps [simp]:
  "same_authority sid reg reg" "same_authority sid reg (reconcile_video sid now reg)"
  by (auto simp: same_authority_def reconcile_video_def reconcile_def Let_def set_share_def AList.update_conv'
      split: option.splits)

lemma dispatch_confined:
  assumes ok: "reg_ok reg" and v: "\<not> k_publish k" and d: "dispatch_text p raw now k reg = (b, reg')"
  shows "confined now (k_share k) (k_connection k) reg reg'
    \<and> ((\<forall>s. map_of (shares reg) (k_share k) = Some s \<longrightarrow> \<not> peer_authorized s (k_connection k) (k_user k) False)
         \<longrightarrow> same_authority (k_share k) reg reg')"
proof -
  let ?sid = "k_share k" and ?c = "k_connection k"
  let ?video = "if k_video_supported k then video_message (parse_video p) ?sid ?c False raw (video_configuration p) now reg
      else (None, reg)"
  have p: "k_publish k = False" using v by simp
  obtain vr vreg where vid: "?video = (vr, vreg)" by (cases ?video)
  show ?thesis
  proof (cases vr)
    case (Some valid)
    with vid have m: "video_message (parse_video p) ?sid ?c False raw (video_configuration p) now reg = (Some valid, vreg)"
      by (simp split: if_splits)
    have vid': "?video = (Some valid, vreg)" using vid Some by simp
    have "reg' = vreg" using d [unfolded dispatch_text_def p vid'] by simp
    with video_confined [OF m] show ?thesis unfolding same_authority_def by blast
  next
    case None
    have vreg: "vreg = reg"
      using vid None by (auto simp: video_message_def Let_def split: if_splits option.splits prod.splits sum.splits)
    obtain er ereg where e: "explore_message (parse_json p) (explore_from_value p) ?sid ?c (k_user k) False raw reg = (er, ereg)"
      by (cases "explore_message (parse_json p) (explore_from_value p) ?sid ?c (k_user k) False raw reg")
    note ec = explore_confined [OF ok e]
    have en: "ereg = reg" if "er = None"
      using e that by (auto simp: explore_message_def Let_def split: if_splits option.splits prod.splits)
    obtain cr creg where c: "control_message (parse_control p) ?sid ?c (k_user k) False raw ereg = (cr, creg)"
      by (cases "control_message (parse_control p) ?sid ?c (k_user k) False raw ereg")
    note cc = control_confined [OF c]
    define r where "r = (if er = None then creg else ereg)"
    have vid': "(if k_video_supported k then video_message (parse_video p) ?sid ?c False raw (video_configuration p) now reg
        else (None, reg)) = (None, reg)"
      using vid None vreg by simp
    have r: "reg' = r \<or> reg' = reconcile_video ?sid now r"
      using d [unfolded dispatch_text_def p vid'] c by (cases er) (simp_all add: e r_def split: if_split_asm)
    have rc: "confined now ?sid ?c reg r" using ec cc [of now] en by (cases er) (simp_all add: r_def)
    have ra: "(\<forall>s. map_of (shares reg) ?sid = Some s \<longrightarrow> \<not> peer_authorized s ?c (k_user k) False) \<longrightarrow>
        r = reg \<or> map_of (shares reg) ?sid = None"
    proof (cases "map_of (shares reg) ?sid")
      case (Some s)
      show ?thesis
      proof
        assume "\<forall>s. map_of (shares reg) ?sid = Some s \<longrightarrow> \<not> peer_authorized s ?c (k_user k) False"
        with Some have u: "\<not> peer_authorized s ?c (k_user k) False" by blast
        with Some ec have "ereg = reg" by blast
        moreover from this Some u cc [of now] have "creg = ereg" by auto
        ultimately show "r = reg \<or> map_of (shares reg) ?sid = None" by (simp add: r_def)
      qed
    qed simp
    have rn: "same_authority ?sid reg u" if "map_of (shares reg) ?sid = None" for u
      using that by (simp add: same_authority_def)
    have "confined now ?sid ?c reg reg'"
      using r rc confined_trans [OF rc reconcile_confined] by (elim disjE) simp_all
    moreover have "same_authority ?sid reg reg'" if "r = reg \<or> map_of (shares reg) ?sid = None"
      using that r rn by (elim disjE) simp_all
    ultimately show ?thesis using ra by simp
  qed
qed

lemma socket_end_confined: "reg_ok reg \<Longrightarrow> \<not> k_publish k \<Longrightarrow> confined now (k_share k) (k_connection k) reg (socket_end k reg)"
  by (auto simp: socket_end_def leave_def intro!: confined_share leave_share_own confined_distinct_views split: option.split)

lemma on_event_viewer:
  assumes ok: "reg_ok (t_reg t)" and v: "\<not> k_publish (t_socket t)"
  shows "confined now (k_share (t_socket t)) (k_connection (t_socket t)) (t_reg t) (t_reg (on_event p ev now t))
    \<and> ((\<forall>s. map_of (shares (t_reg t)) (k_share (t_socket t)) = Some s \<longrightarrow>
            \<not> peer_authorized s (k_connection (t_socket t)) (k_user (t_socket t)) False)
         \<longrightarrow> same_authority (k_share (t_socket t)) (t_reg t) (t_reg (on_event p ev now t)))"
proof (cases ev)
  case Lifetime
  have "t_reg (on_lifetime p now t) \<in> {t_reg t, prune now (t_reg t)}"
    using v by (simp add: on_lifetime_def tick_control_def tick_video_def tick_explore_def Let_def)
  moreover have "same_authority (k_share (t_socket t)) (t_reg t) (prune now (t_reg t))"
    using map_of_filter_distinct [OF reg_ok_keys [OF ok], of "\<lambda>(sid, s). share_alive now s"]
    by (auto simp: same_authority_def prune_def Let_def split: if_splits)
  ultimately show ?thesis using Lifetime confined_prune [OF reg_ok_keys [OF ok]] by auto
next
  case (RecvText raw)
  let ?k = "count_message now (t_socket t)"
  obtain b reg' where d: "dispatch_text p raw now ?k (t_reg t) = (b, reg')" by (cases "dispatch_text p raw now ?k (t_reg t)")
  have "t_reg (on_text p raw now t) \<in> {t_reg t, reg'}" using d by (simp add: on_text_def Let_def)
  with dispatch_confined [OF ok _ d] v RecvText show ?thesis by auto
qed (use v in \<open>auto simp: on_binary_def on_action_def on_input_def Let_def\<close>)

lemma socket_step_reg:
  assumes "socket_step p ev link now k reg = (out, k', reg')"
  shows "let t = on_event p ev now \<lparr>t_ok = True, t_link = link, t_out = [], t_socket = k, t_reg = reg\<rparr>
    in reg' = socket_end k reg \<and> k' = None \<or> k' \<noteq> None \<and> reg' = t_reg t \<or> k' = None \<and> reg' = socket_end (t_socket t) (t_reg t)"
  using assms by (auto simp: socket_step_def Let_def split: if_splits)

lemma on_event_names:
  "k_publish (t_socket (on_event p ev now t)) = k_publish (t_socket t)"
  "k_share (t_socket (on_event p ev now t)) = k_share (t_socket t)"
  "k_connection (t_socket (on_event p ev now t)) = k_connection (t_socket t)"
  by (cases ev; auto simp: on_lifetime_def tick_explore_def tick_video_def tick_control_def on_binary_def on_text_def
      on_action_def on_input_def on_explore_feed_def on_feed_def sent_frame_def send_state_def send_msg_def break_if_def Let_def
      split: option.splits feed.splits prod.splits)+

section \<open>Properties\<close>



end
