(* ===== verification/Rust_Strings.thy ===== *)
theory Rust_Strings
  imports Json "HOL-Library.Code_Target_Nat"
begin

text \<open>
  More of the standard library, for the modules that take text apart: replacement, repeated
  trimming, fallible folds, sorting with removal of duplicates, and the bounds and white space facts
  their proofs share.
\<close>

section \<open>Operations\<close>

text \<open>\<open>str::replace\<close> of one ASCII character by another.\<close>

definition replace_char :: "char \<Rightarrow> char \<Rightarrow> string \<Rightarrow> string" where
  "replace_char a b s = map (\<lambda>c. if c = a then b else c) s"

text \<open>\<open>str::replace\<close> of a doubled character by a single one: matches do not overlap.\<close>

fun replace_double :: "'a \<Rightarrow> 'a list \<Rightarrow> 'a list" where
  "replace_double d (a # b # s) =
     (if a = d \<and> b = d then d # replace_double d s else a # replace_double d (b # s))"
| "replace_double d s = s"

lemma length_replace_double: "length (replace_double d s) \<le> length s"
  by (induction d s rule: replace_double.induct) auto

lemma replace_double_less:
  "contains_str s [d, d] \<Longrightarrow> length (replace_double d s) < length s"
proof (induction d s rule: replace_double.induct)
  case (1 d a b s)
  then show ?case using length_replace_double [of d s] by (auto simp: starts_with_def)
qed (auto simp: starts_with_def)

text \<open>\<open>while s.contains("dd") { s = s.replace("dd", "d") }\<close>.\<close>

function collapse_double :: "'a \<Rightarrow> 'a list \<Rightarrow> 'a list" where
  "collapse_double d s = (if contains_str s [d, d] then collapse_double d (replace_double d s) else s)"
  by pat_completeness auto
termination
  by (relation "measure (\<lambda>(d, s). length s)") (auto simp: replace_double_less)

declare collapse_double.simps [simp del]

text \<open>\<open>while s.starts_with(p) { s.drain(..p.len()) }\<close>, also \<open>str::trim_start_matches\<close> with a string pattern.\<close>

function drain_prefix :: "'a list \<Rightarrow> 'a list \<Rightarrow> 'a list" where
  "drain_prefix p s = (if p \<noteq> [] \<and> starts_with s p then drain_prefix p (drop (length p) s) else s)"
  by pat_completeness auto
termination
  by (relation "measure (\<lambda>(p, s). length s)") (auto simp: starts_with_def intro!: diff_less)

declare drain_prefix.simps [simp del]

text \<open>\<open>str::trim_matches\<close> with a class of ASCII characters.\<close>

definition trim_matches :: "('a \<Rightarrow> bool) \<Rightarrow> 'a list \<Rightarrow> 'a list" where
  "trim_matches P s = trim_end_matches P (trim_start_matches P s)"

text \<open>A loop that may return early with \<open>?\<close>.\<close>

fun try_fold :: "('a \<Rightarrow> 's \<Rightarrow> 's option) \<Rightarrow> 'a list \<Rightarrow> 's \<Rightarrow> 's option" where
  "try_fold f [] s = Some s"
| "try_fold f (x # xs) s = Option.bind (f x s) (try_fold f xs)"

text \<open>\<open>collect::<Option<Vec<_>>>()\<close>.\<close>

fun collect_options :: "'a option list \<Rightarrow> 'a list option" where
  "collect_options [] = Some []"
| "collect_options (x # xs) =
     Option.bind x (\<lambda>y. map_option (\<lambda>ys. y # ys) (collect_options xs))"

text \<open>\<open>sort\<close> followed by \<open>dedup\<close>.\<close>

definition sort_dedup :: "('a::linorder) list \<Rightarrow> 'a list" where
  "sort_dedup xs = remdups_adj (sort xs)"

text \<open>\<open>BTreeMap::entry\<close>: the map stays sorted by key; the entry's new value is made from its old
  one, if it had one.\<close>

fun btree_entry :: "'k::linorder \<Rightarrow> ('v option \<Rightarrow> 'v) \<Rightarrow> ('k \<times> 'v) list \<Rightarrow> ('k \<times> 'v) list" where
  "btree_entry k f [] = [(k, f None)]"
| "btree_entry k f ((a, b) # m) =
     (if k < a then (k, f None) # (a, b) # m
      else if k = a then (k, f (Some b)) # m
      else (a, b) # btree_entry k f m)"

abbreviation btree_sorted :: "('k::linorder \<times> 'v) list \<Rightarrow> bool" where
  "btree_sorted m \<equiv> sorted_wrt (<) (map fst m)"

text \<open>\<open>str::lines\<close> with every line trimmed and empty lines dropped.\<close>

definition trimmed_lines :: "string \<Rightarrow> string list" where
  "trimmed_lines s = filter (\<lambda>l. l \<noteq> []) (map trim_str (split_on (CHR 0x0A) s))"

text \<open>\<open>str::parse::<usize>\<close>: an optional plus sign, then digits, below \<open>2 ^ 64\<close>.\<close>

definition parse_digits :: "string \<Rightarrow> nat" where
  "parse_digits s = foldl (\<lambda>n c. 10 * n + (ord_of c - 48)) 0 s"

definition parse_usize :: "string \<Rightarrow> nat option" where
  "parse_usize s =
     (let d = (if starts_with s ''+'' then drop 1 s else s)
      in if d \<noteq> [] \<and> list_all is_ascii_digit d \<and> parse_digits d < 2 ^ 64
         then Some (parse_digits d) else None)"

text \<open>A number in decimal.\<close>

definition digit_char :: "nat \<Rightarrow> char" where
  "digit_char d = char_of (48 + d)"

fun show_nat :: "nat \<Rightarrow> string" where
  "show_nat n = (if n < 10 then [digit_char n] else show_nat (n div 10) @ [digit_char (n mod 10)])"

declare show_nat.simps [simp del]

text \<open>
  \<open>str::to_lowercase\<close> as far as a comparison with ASCII text can tell: the only character outside
  ASCII with an ASCII lower case is the Kelvin sign (U+212A, three bytes).
\<close>

fun lower_ascii_or_kelvin :: "string \<Rightarrow> string" where
  "lower_ascii_or_kelvin (a # b # c # s) =
     (if a = CHR 0xE2 \<and> b = CHR 0x84 \<and> c = CHR 0xAA then CHR ''k'' # lower_ascii_or_kelvin s
      else ascii_lower a # lower_ascii_or_kelvin (b # c # s))"
| "lower_ascii_or_kelvin s = map ascii_lower s"

section \<open>Facts\<close>

lemma keys_btree_entry [simp]: "fst ` set (btree_entry k f m) = insert k (fst ` set m)"
  by (induction k f m rule: btree_entry.induct) (simp_all add: insert_commute)

lemma btree_sorted_entry: "btree_sorted m \<Longrightarrow> btree_sorted (btree_entry k f m)"
proof (induction k f m rule: btree_entry.induct)
  case (2 k f a b m)
  have "\<forall>x \<in> fst ` set (btree_entry k f m). a < x" if "a < k"
    using that 2 by (simp add: keys_btree_entry)
  with 2 show ?case by (auto simp: not_less)
qed simp

lemma map_of_btree_entry:
  "btree_sorted m \<Longrightarrow>
   map_of (btree_entry k f m) k' = (if k' = k then Some (f (map_of m k)) else map_of m k')"
proof (induction k f m rule: btree_entry.induct)
  case (2 k f a b m)
  have "map_of m k = None" if "k < a"
    using that 2 by (force simp: map_of_eq_None_iff)
  with 2 show ?case by auto
qed simp

lemma btree_sorted_keys: "btree_sorted m \<Longrightarrow> keys_distinct m"
  using strict_sorted_iff by blast

lemma set_replace_char: "set (replace_char a b s) \<subseteq> insert b (set s - {a})"
  by (auto simp: replace_char_def)

lemma replace_char_gone: "a \<noteq> b \<Longrightarrow> a \<notin> set (replace_char a b s)"
  by (auto simp: replace_char_def)

lemma replace_char_id: "a \<notin> set s \<Longrightarrow> replace_char a b s = s"
  by (auto simp: replace_char_def intro: map_idI)

lemma set_replace_double: "set (replace_double d s) = set s"
  by (induction d s rule: replace_double.induct) auto

lemma set_collapse_double: "set (collapse_double d s) = set s"
proof (induction d s rule: collapse_double.induct)
  case (1 d s)
  then show ?case by (cases "contains_str s [d, d]") (simp_all add: collapse_double.simps [of d s] set_replace_double)
qed

lemma collapse_double_done: "\<not> contains_str (collapse_double d s) [d, d]"
proof (induction d s rule: collapse_double.induct)
  case (1 d s)
  then show ?case by (cases "contains_str s [d, d]") (simp_all add: collapse_double.simps [of d s])
qed

lemma collapse_double_id: "\<not> contains_str s [d, d] \<Longrightarrow> collapse_double d s = s"
  by (simp add: collapse_double.simps)

lemma hd_replace_double: "hd (replace_double d s) = hd s"
  by (induction d s rule: replace_double.induct) auto

lemma collapse_double_hd: "hd (collapse_double d s) = hd s"
proof (induction d s rule: collapse_double.induct)
  case (1 d s)
  then show ?case
    by (cases "contains_str s [d, d]") (simp_all add: collapse_double.simps [of d s] hd_replace_double)
qed

text \<open>Collapsing does not bring a new second character behind a first one that is not the
  collapsed character.\<close>

lemma replace_double_second:
  "starts_with (replace_double d s) [a, d] \<Longrightarrow> a \<noteq> d \<Longrightarrow> starts_with s [a, d]"
proof (induction d s rule: replace_double.induct)
  case (1 d x y s)
  then show ?case using hd_replace_double [of d "y # s"]
    by (cases "replace_double d (y # s)") (auto simp: starts_with_def split: if_splits)
qed (auto simp: starts_with_def)

lemma collapse_double_second:
  "starts_with (collapse_double d s) [a, d] \<Longrightarrow> a \<noteq> d \<Longrightarrow> starts_with s [a, d]"
proof (induction d s rule: collapse_double.induct)
  case (1 d s)
  then show ?case
    by (cases "contains_str s [d, d]")
      (auto simp: collapse_double.simps [of d s] dest: replace_double_second)
qed

lemma drain_prefix_suffix: "suffix (drain_prefix p s) s"
proof (induction p s rule: drain_prefix.induct)
  case (1 p s)
  then show ?case
    by (cases "p \<noteq> [] \<and> starts_with s p")
      (auto simp: drain_prefix.simps [of p s] intro: suffix_order.trans suffix_drop)
qed

lemma drain_prefix_done: "p \<noteq> [] \<Longrightarrow> \<not> starts_with (drain_prefix p s) p"
proof (induction p s rule: drain_prefix.induct)
  case (1 p s)
  then show ?case by (cases "starts_with s p") (simp_all add: drain_prefix.simps [of p s])
qed

lemma drain_prefix_id: "\<not> starts_with s p \<Longrightarrow> drain_prefix p s = s"
  by (simp add: drain_prefix.simps)

lemma try_fold_append:
  "try_fold f (xs @ ys) s = Option.bind (try_fold f xs s) (try_fold f ys)"
  by (induction xs arbitrary: s) (auto split: Option.bind_splits)

text \<open>An invariant of the accumulator is an invariant of the loop.\<close>

lemma try_fold_inv:
  assumes "try_fold f xs s = Some t" and "P s"
    and "\<And>x s s'. x \<in> set xs \<Longrightarrow> P s \<Longrightarrow> f x s = Some s' \<Longrightarrow> P s'"
  shows "P t"
  using assms
proof (induction xs arbitrary: s)
  case (Cons x xs)
  from Cons.prems(1) obtain s' where s': "f x s = Some s'" "try_fold f xs s' = Some t"
    by (auto simp: bind_eq_Some_conv)
  show ?case
    by (rule Cons.IH [OF s'(2)]) (use Cons.prems s' in \<open>auto\<close>)
qed simp

lemma collect_options_Some: "collect_options xs = Some ys \<longleftrightarrow> xs = map Some ys"
proof (induction xs arbitrary: ys)
  case (Cons x xs)
  then show ?case by (cases x; cases ys) (auto simp: bind_eq_Some_conv)
qed auto

lemma set_sort_dedup [simp]: "set (sort_dedup xs) = set xs"
  by (simp add: sort_dedup_def)

lemma distinct_remdups_adj_sorted: "sorted xs \<Longrightarrow> distinct (remdups_adj xs)"
  by (induction xs rule: remdups_adj.induct) (auto simp: less_le)

lemma sort_dedup_sorted: "distinct (sort_dedup xs)" "sorted (sort_dedup xs)"
  by (simp_all add: sort_dedup_def distinct_remdups_adj_sorted)

subsection \<open>White space\<close>

lemma ws_bytes_size: "ws_bytes b \<Longrightarrow> length b \<in> {1, 2, 3}"
  by (cases b rule: ws_bytes.cases) auto

lemma ws_head_iff: "ws_head s \<noteq> 0 \<longleftrightarrow> (\<exists>t r. s = t @ r \<and> ws_bytes (map ord_of t))"
proof
  assume "ws_head s \<noteq> 0"
  then have "ws_bytes (map ord_of (take 1 s)) \<or> ws_bytes (map ord_of (take 2 s)) \<or> ws_bytes (map ord_of (take 3 s))"
    by (auto simp: ws_head_def Let_def take_map min_def split: if_splits)
  then show "\<exists>t r. s = t @ r \<and> ws_bytes (map ord_of t)"
    by (metis append_take_drop_id)
next
  assume "\<exists>t r. s = t @ r \<and> ws_bytes (map ord_of t)"
  then obtain t r where s: "s = t @ r" and w: "ws_bytes (map ord_of t)" by blast
  from ws_bytes_size [OF w] have n: "length t \<in> {1, 2, 3}" by simp
  then have "map ord_of t = take (length t) (map ord_of (take 3 s))"
    by (auto simp: s take_map)
  with w n show "ws_head s \<noteq> 0"
    by (auto simp: ws_head_def Let_def take_map)
qed

lemma has_whitespace_iff: "has_whitespace s \<longleftrightarrow> (\<exists>l t r. s = l @ t @ r \<and> ws_bytes (map ord_of t))"
proof (induction s)
  case Nil
  show ?case using ws_bytes_length by fastforce
next
  case (Cons c s)
  have "(\<exists>l t r. c # s = l @ t @ r \<and> ws_bytes (map ord_of t)) \<longleftrightarrow>
      (\<exists>t r. c # s = t @ r \<and> ws_bytes (map ord_of t)) \<or> (\<exists>l t r. s = l @ t @ r \<and> ws_bytes (map ord_of t))"
    (is "?L = (?A \<or> ?B)")
  proof
    assume ?L
    then obtain l t r where "c # s = l @ t @ r" "ws_bytes (map ord_of t)" by blast
    then show "?A \<or> ?B" by (cases l) auto
  next
    assume "?A \<or> ?B"
    then show ?L by (metis append_Cons append_Nil)
  qed
  then show ?case using Cons.IH by (simp only: has_whitespace.simps ws_head_iff)
qed

lemma has_whitespace_sublist: "sublist t s \<Longrightarrow> has_whitespace t \<Longrightarrow> has_whitespace s"
  unfolding has_whitespace_iff sublist_def by (metis append.assoc)

lemma ws_last_imp: "ws_last s \<noteq> 0 \<Longrightarrow> has_whitespace s"
proof -
  let ?d = "drop (length s - 3) s"
  assume "ws_last s \<noteq> 0"
  then consider "ws_bytes (drop (length ?d - 1) (map ord_of ?d))"
    | "ws_bytes (drop (length ?d - 2) (map ord_of ?d))" | "ws_bytes (drop 0 (map ord_of ?d))"
    by (auto simp: ws_last_def Let_def split: if_splits)
  then have "\<exists>n. ws_bytes (map ord_of (drop n ?d))"
    unfolding drop_map by cases blast+
  then obtain n where n: "ws_bytes (map ord_of (drop n ?d))" by blast
  have "s = take (n + (length s - 3)) s @ drop n ?d @ []" by (simp add: drop_drop)
  with n show "has_whitespace s" unfolding has_whitespace_iff by blast
qed

lemma trim_str_id:
  assumes "\<not> has_whitespace s"
  shows "trim_str s = s"
proof -
  have "ws_head s = 0"
  proof (rule ccontr)
    assume "ws_head s \<noteq> 0"
    then obtain t r where "s = [] @ t @ r" "ws_bytes (map ord_of t)" using ws_head_iff [of s] by auto
    with assms show False unfolding has_whitespace_iff by blast
  qed
  then have "trim_start s = s" by (simp add: trim_start.simps [of s])
  moreover have "ws_last s = 0" using assms ws_last_imp by blast
  then have "trim_end s = s" by (simp add: trim_end.simps [of s])
  ultimately show ?thesis by (simp add: trim_str_def)
qed

lemma split_on_no_sep: "d \<notin> set s \<Longrightarrow> split_on d s = [s]"
  by (induction s) auto

lemma split_on_not_Nil [simp]: "split_on d s \<noteq> []"
  by (induction s) (auto split: list.splits)

lemma split_on_append_sep: "split_on d (s @ d # t) = split_on d s @ split_on d t"
proof (induction s)
  case Nil
  show ?case by simp
next
  case (Cons c s)
  then show ?case using split_on_not_Nil [of d s] by (auto split: list.splits)
qed

lemma split_once_no_sep: "d \<notin> set s \<Longrightarrow> split_once d (s @ d # t) = Some (s, t)"
  by (induction s) auto

lemma split_on_hd: "hd (split_on d s) = takeWhile (\<lambda>c. c \<noteq> d) s"
proof (induction s)
  case (Cons c s)
  have "split_on d s \<noteq> []" by (cases s) (auto split: list.splits)
  with Cons show ?case by (auto split: list.splits)
qed simp

section \<open>ASCII text as bytes\<close>

definition bytes_of :: "string \<Rightarrow> byte list" where
  "bytes_of s = map (\<lambda>c. word_of_nat (ord_of c)) s"

lemma utf8_ok_ascii: "list_all (\<lambda>n. n < 0x80) ns \<Longrightarrow> utf8_ok ns"
  by (induction ns) auto

lemma unat_byte: "unat (word_of_nat (ord_of c) :: byte) = ord_of c"
  by (simp add: unat_of_nat ord_of_def)

lemma from_utf8_ascii:
  assumes "list_all (\<lambda>c. ord_of c < 0x80) s"
  shows "from_utf8 (bytes_of s) = Some s"
proof -
  have m: "map unat (bytes_of s) = map ord_of s" by (simp add: bytes_of_def unat_byte)
  have "utf8_ok (map ord_of s)" using assms by (intro utf8_ok_ascii) (simp add: list_all_iff)
  moreover have "map (\<lambda>b. char_of (unat b)) (bytes_of s) = s"
    by (simp add: bytes_of_def unat_byte comp_def) (simp add: ord_of_def)
  ultimately show ?thesis by (simp add: from_utf8_def m)
qed

end
