(* ===== verification/Write_Scopes.thy ===== *)
theory Write_Scopes
  imports Rust_Strings
begin

text \<open>
  Which files each of several agents may write
  (\<open>runtime-controller/src/agent_write_scopes.rs\<close>): the scopes a request declares for each agent,
  read from its metadata, and the plan that lets several agents write at once only when their
  scopes are explicit and disjoint.
\<close>

section \<open>Assignments\<close>

datatype write_scope_mode = Owned | ReadOnly | CoordinationRequired | Unscoped

fun mode_str :: "write_scope_mode \<Rightarrow> string" where
  "mode_str Owned = ''owned''"
| "mode_str ReadOnly = ''read_only''"
| "mode_str CoordinationRequired = ''coordination_required''"
| "mode_str Unscoped = ''unscoped''"

record conflict =
  cf_reason :: string
  cf_agents :: "string list"

record assignment =
  a_mode :: write_scope_mode
  a_owned_paths :: "string list"
  a_read_only_paths :: "string list"
  a_rationale :: string
  a_source :: string
  a_conflict :: "conflict option"

definition read_only_assignment :: "string \<Rightarrow> assignment" where
  "read_only_assignment rationale =
     \<lparr>a_mode = ReadOnly, a_owned_paths = [], a_read_only_paths = [], a_rationale = rationale,
      a_source = ''dispatch'', a_conflict = None\<rparr>"

definition owned_assignment :: "string list \<Rightarrow> string \<Rightarrow> string \<Rightarrow> assignment" where
  "owned_assignment paths rationale source =
     \<lparr>a_mode = Owned, a_owned_paths = paths, a_read_only_paths = [], a_rationale = rationale,
      a_source = source, a_conflict = None\<rparr>"

definition unscoped_assignment :: "string \<Rightarrow> assignment" where
  "unscoped_assignment rationale =
     \<lparr>a_mode = Unscoped, a_owned_paths = [], a_read_only_paths = [], a_rationale = rationale,
      a_source = ''dispatch'', a_conflict = None\<rparr>"

definition coordination_required :: "string \<Rightarrow> string list \<Rightarrow> string \<Rightarrow> assignment \<Rightarrow> assignment" where
  "coordination_required reason agents rationale a =
     a\<lparr>a_mode := CoordinationRequired, a_rationale := rationale,
       a_conflict := Some \<lparr>cf_reason = reason, cf_agents = agents\<rparr>\<rparr>"

definition invalid_explicit_scope :: assignment where
  "invalid_explicit_scope =
     (let rationale = ''explicit write scope is invalid; provide valid paths before editing''
      in (coordination_required ''invalid_write_scope'' [] rationale (unscoped_assignment rationale))
           \<lparr>a_source := ''metadata''\<rparr>)"

definition is_coordination_required :: "assignment \<Rightarrow> bool" where
  "is_coordination_required a \<longleftrightarrow> a_mode a = CoordinationRequired"

definition assignment_json :: "assignment \<Rightarrow> json" where
  "assignment_json a =
     (let m = obj_insert ''mode'' (JStr (mode_str (a_mode a))) [];
          m = obj_insert ''ownedPaths'' (JArr (map JStr (a_owned_paths a))) m;
          m = obj_insert ''readOnlyPaths'' (JArr (map JStr (a_read_only_paths a))) m;
          m = obj_insert ''rationale'' (JStr (a_rationale a)) m;
          m = obj_insert ''source'' (JStr (a_source a)) m;
          m = (if a_mode a = CoordinationRequired
               then obj_insert ''coordinationRequired'' (JBool True) m else m);
          m = (case a_conflict a of
                 None \<Rightarrow> m
               | Some c \<Rightarrow> obj_insert ''conflict''
                   (JObj (obj_of_list [(''reason'', JStr (cf_reason c)),
                                       (''agents'', JArr (map JStr (cf_agents c)))])) m)
      in JObj m)"

section \<open>Paths\<close>

definition path_punctuation :: "char \<Rightarrow> bool" where
  "path_punctuation c \<longleftrightarrow> c \<in> set '',;:!?()[]{}''"

definition slash :: char where
  "slash = CHR ''/''"

definition backslash :: char where
  "backslash = CHR 0x5C"

definition normalize_scope_path :: "string \<Rightarrow> string option" where
  "normalize_scope_path raw =
     (let v = replace_char backslash slash (trim_str raw);
          trimmed = trim_end_matches (\<lambda>c. c = CHR ''.'') (trim_matches path_punctuation v)
      in if trimmed \<noteq> v then None
         else
           let v = drain_prefix ''./'' v;
               v = collapse_double slash v
           in if v = [] \<or> starts_with v ''@'' \<or> CHR '':'' \<in> set v \<or> contains_str v ''..''
                 \<or> has_whitespace v \<or> has_control v
              then None else Some v)"

definition normalize_write_scope_path :: "string \<Rightarrow> string option" where
  "normalize_write_scope_path raw =
     (case normalize_scope_path raw of
        None \<Rightarrow> None
      | Some v \<Rightarrow> if starts_with v ''/'' then None else Some v)"

definition normalize_read_only_scope_path :: "string \<Rightarrow> string option" where
  "normalize_read_only_scope_path raw =
     (case normalize_scope_path raw of
        None \<Rightarrow> None
      | Some v \<Rightarrow>
          if starts_with v ''/tmp/'' \<or> starts_with v ''/var/folders/''
             \<or> starts_with v ''/workspace/'' \<or> starts_with v ''/workspaces/''
          then Some v
          else if starts_with v ''/'' then None else Some v)"

text \<open>At most twelve different paths, each once, in order of first occurrence.\<close>

fun unique_paths_loop :: "string list \<Rightarrow> string list \<Rightarrow> string list option" where
  "unique_paths_loop [] out = Some out"
| "unique_paths_loop (path # paths) out =
     (let out = (if path \<in> set out then out else out @ [path])
      in if 12 < length out then None else unique_paths_loop paths out)"

definition unique_paths :: "string list \<Rightarrow> string list option" where
  "unique_paths paths = unique_paths_loop paths []"

definition collect_scope_path_list :: "(string \<Rightarrow> string option) \<Rightarrow> json \<Rightarrow> string list option" where
  "collect_scope_path_list nrm value =
     (case value of
        JStr raw \<Rightarrow> map_option (\<lambda>p. [p]) (nrm raw)
      | JArr items \<Rightarrow>
          Option.bind
            (collect_options (map (\<lambda>item. Option.bind (as_str item) nrm) items))
            unique_paths
      | _ \<Rightarrow> None)"

section \<open>Overlap\<close>

fun pop_slashes_rev :: "string \<Rightarrow> string" where
  "pop_slashes_rev (c # d # s) = (if c = slash then pop_slashes_rev (d # s) else c # d # s)"
| "pop_slashes_rev s = s"

definition write_scope_prefix :: "string \<Rightarrow> string" where
  "write_scope_prefix path =
     (let prefix = hd (split_on (CHR ''*'') path);
          prefix = replace_char backslash slash (drain_prefix ''./'' (trim_str prefix));
          prefix = rev (pop_slashes_rev (rev prefix))
      in if prefix = [] then ''**'' else prefix)"

definition write_scope_paths_overlap :: "string \<Rightarrow> string \<Rightarrow> bool" where
  "write_scope_paths_overlap left right =
     (let left = write_scope_prefix left; right = write_scope_prefix right in
      left = ''**'' \<or> right = ''**'' \<or> left = right
      \<or> (case strip_suffix left ''/'' of Some p \<Rightarrow> starts_with right p | None \<Rightarrow> False)
      \<or> (case strip_suffix right ''/'' of Some p \<Rightarrow> starts_with left p | None \<Rightarrow> False)
      \<or> starts_with left (right @ ''/'') \<or> starts_with right (left @ ''/''))"

definition write_scopes_overlap :: "string list \<Rightarrow> string list \<Rightarrow> bool" where
  "write_scopes_overlap left right \<longleftrightarrow>
     (\<exists>l \<in> set left. \<exists>r \<in> set right. write_scope_paths_overlap l r)"

section \<open>Reading a declared scope\<close>

definition parse_runtime_bool :: "json \<Rightarrow> bool option" where
  "parse_runtime_bool value =
     (case value of
        JBool b \<Rightarrow> Some b
      | JNum n \<Rightarrow> map_option (\<lambda>i. i \<noteq> 0) (as_i64 n)
      | JStr s \<Rightarrow>
          (let t = to_ascii_lowercase (trim_str s) in
           if t \<in> {''1'', ''true'', ''yes'', ''on'', ''required'', ''require''} then Some True
           else if t \<in> {''0'', ''false'', ''no'', ''off'', ''none'', ''optional'', ''disabled''}
           then Some False else None)
      | _ \<Rightarrow> None)"

definition normalize_mode_word :: "string \<Rightarrow> string" where
  "normalize_mode_word raw = replace_char (CHR ''-'') (CHR ''_'') (to_ascii_lowercase (trim_str raw))"

definition canonical_mode :: "string \<Rightarrow> string option" where
  "canonical_mode w =
     (if w = ''readonly'' \<or> w = ''read_only'' then Some ''read_only''
      else if w = ''owned'' \<or> w = ''write'' \<or> w = ''write_scoped'' then Some ''owned''
      else if w = ''coordination_required'' then Some ''coordination_required''
      else None)"

text \<open>A key that repeats an earlier one must agree with it.\<close>

definition agree :: "'a \<Rightarrow> 'a option \<Rightarrow> 'a option option" where
  "agree v previous =
     (case previous of
        Some p \<Rightarrow> if p \<noteq> v then None else Some (Some v)
      | None \<Rightarrow> Some (Some v))"

definition read_mode :: "jobject \<Rightarrow> string option option" where
  "read_mode m =
     try_fold (\<lambda>key mode.
         case obj_get m key of
           None \<Rightarrow> Some mode
         | Some v \<Rightarrow>
             Option.bind (as_str v) (\<lambda>raw.
             Option.bind (canonical_mode (normalize_mode_word raw)) (\<lambda>w. agree w mode)))
       [''mode'', ''status''] None"

definition read_read_only :: "jobject \<Rightarrow> bool option option" where
  "read_read_only m =
     try_fold (\<lambda>key ro.
         case obj_get m key of
           None \<Rightarrow> Some ro
         | Some v \<Rightarrow> Option.bind (parse_runtime_bool v) (\<lambda>b. agree b ro))
       [''readOnly'', ''read_only''] None"

definition read_paths :: "(string \<Rightarrow> string option) \<Rightarrow> string list \<Rightarrow> jobject \<Rightarrow> string list option" where
  "read_paths nrm keys m =
     Option.bind
       (try_fold (\<lambda>key paths.
           case obj_get m key of
             None \<Rightarrow> Some paths
           | Some v \<Rightarrow> map_option (\<lambda>ps. paths @ ps) (collect_scope_path_list nrm v))
         keys [])
       unique_paths"

definition owned_path_keys :: "string list" where
  "owned_path_keys =
     [''ownedPaths'', ''owned_paths'', ''paths'', ''pathGlobs'', ''path_globs'', ''ownedPathGlobs'',
      ''owned_path_globs'']"

definition read_rationale :: "jobject \<Rightarrow> string" where
  "read_rationale m =
     (case map_option trim_str (Option.bind (obj_get m ''rationale'') as_str) of
        Some r \<Rightarrow> if r = [] then ''explicit write scope metadata'' else r
      | None \<Rightarrow> ''explicit write scope metadata'')"

definition parse_scope_object :: "jobject \<Rightarrow> assignment option" where
  "parse_scope_object m =
     Option.bind (read_mode m) (\<lambda>mode.
     Option.bind (read_read_only m) (\<lambda>read_only.
     if (read_only = Some True \<and> mode \<noteq> None \<and> mode \<noteq> Some ''read_only'')
        \<or> (read_only = Some False \<and> mode = Some ''read_only'')
     then None
     else
       let rationale = read_rationale m in
       Option.bind (read_paths normalize_write_scope_path owned_path_keys m) (\<lambda>owned_paths.
       Option.bind (read_paths normalize_read_only_scope_path [''readOnlyPaths'', ''read_only_paths''] m)
         (\<lambda>read_only_paths.
       if mode = Some ''read_only'' \<or> read_only = Some True
       then Some ((read_only_assignment rationale)
                    \<lparr>a_read_only_paths := read_only_paths, a_source := ''metadata''\<rparr>)
       else if mode = Some ''coordination_required''
       then Some ((coordination_required ''explicit_coordination_required'' [] rationale
                     (unscoped_assignment rationale))
                    \<lparr>a_owned_paths := owned_paths, a_read_only_paths := read_only_paths,
                     a_source := ''metadata''\<rparr>)
       else if owned_paths \<noteq> []
       then Some ((owned_assignment owned_paths rationale ''metadata'')
                    \<lparr>a_read_only_paths := read_only_paths\<rparr>)
       else None))))"

definition parse_agent_write_scope_value :: "json \<Rightarrow> assignment option" where
  "parse_agent_write_scope_value value =
     (case value of
        JStr raw \<Rightarrow>
          (let w = normalize_mode_word raw in
           if w = ''read_only'' \<or> w = ''readonly''
           then Some (read_only_assignment ''explicit read-only write scope'')
           else map_option
                  (\<lambda>path. owned_assignment [path] ''explicit single-path write scope'' ''metadata'')
                  (normalize_write_scope_path raw))
      | JArr _ \<Rightarrow>
          Option.bind (collect_scope_path_list normalize_write_scope_path value) (\<lambda>paths.
            if paths = [] then None
            else Some (owned_assignment paths ''explicit owned paths from metadata'' ''metadata''))
      | JObj m \<Rightarrow> parse_scope_object m
      | _ \<Rightarrow> None)"

text \<open>Several declarations for one agent must say the same.\<close>

definition merge_explicit_scope :: "json \<Rightarrow> assignment option \<Rightarrow> assignment option option" where
  "merge_explicit_scope value explicit =
     Option.bind (parse_agent_write_scope_value value) (\<lambda>scope.
       case explicit of
         None \<Rightarrow> Some (Some scope)
       | Some previous \<Rightarrow>
           if a_mode previous \<noteq> a_mode scope
              \<or> set (a_owned_paths previous) \<noteq> set (a_owned_paths scope)
              \<or> set (a_read_only_paths previous) \<noteq> set (a_read_only_paths scope)
           then None else Some explicit)"

section \<open>Handles\<close>

definition handle_char :: "char \<Rightarrow> bool" where
  "handle_char c \<longleftrightarrow> is_ascii_alphanumeric c \<or> c = CHR ''_'' \<or> c = CHR ''-''"

definition normalize_agent_handle :: "string \<Rightarrow> string option" where
  "normalize_agent_handle raw =
     (let t = lower_ascii_or_kelvin
                (trim_str (trim_start_matches (\<lambda>c. c = CHR ''@'') (trim_str raw)))
      in if t = [] \<or> 20 < length t then None
         else if \<not> is_ascii_alphanumeric (hd t) then None
         else if \<not> list_all handle_char t then None
         else Some t)"

section \<open>The plan\<close>

text \<open>The containers that may declare scopes by handle, the nested ones first.\<close>

definition scope_containers :: "jobject \<Rightarrow> json list" where
  "scope_containers metadata =
     (let sel = Option.bind (obj_get metadata ''agentSelection'') as_object
      in map the (filter (\<lambda>c. c \<noteq> None)
           [Option.bind sel (\<lambda>s. obj_get s ''writeScopes''),
            Option.bind sel (\<lambda>s. obj_get s ''write_scopes''),
            obj_get metadata ''agentWriteScopes'',
            obj_get metadata ''agent_write_scopes'',
            obj_get metadata ''writeScopes'',
            obj_get metadata ''write_scopes'']))"

definition merge_container :: "string \<Rightarrow> json \<Rightarrow> assignment option \<Rightarrow> assignment option option" where
  "merge_container handle container explicit =
     Option.bind (as_object container) (\<lambda>scopes.
       try_fold (\<lambda>(key, value) explicit.
           if normalize_agent_handle key = Some handle then merge_explicit_scope value explicit
           else Some explicit)
         scopes explicit)"

definition extract_explicit_agent_write_scope :: "json \<Rightarrow> string \<Rightarrow> nat \<Rightarrow> assignment option" where
  "extract_explicit_agent_write_scope metadata handle target_count =
     (case as_object metadata of
        None \<Rightarrow> None
      | Some metadata_map \<Rightarrow>
          (case normalize_agent_handle handle of
             None \<Rightarrow> None
           | Some handle \<Rightarrow>
               (case try_fold (merge_container handle) (scope_containers metadata_map) None of
                  None \<Rightarrow> Some invalid_explicit_scope
                | Some (Some a) \<Rightarrow> Some a
                | Some None \<Rightarrow>
                    if target_count = 1 then
                      (case try_fold (\<lambda>key explicit.
                               case obj_get metadata_map key of
                                 None \<Rightarrow> Some explicit
                               | Some value \<Rightarrow> merge_explicit_scope value explicit)
                             [''writeScope'', ''write_scope''] None of
                         None \<Rightarrow> Some invalid_explicit_scope
                       | Some explicit \<Rightarrow> explicit)
                    else None)))"

definition sorted_agents :: "string list \<Rightarrow> string list" where
  "sorted_agents handles =
     sort_dedup
       (map (\<lambda>h. ''@'' @ trim_start_matches (\<lambda>c. c = CHR ''@'') (trim_str h)) handles)"

definition require_coordination ::
    "string \<Rightarrow> string \<Rightarrow> string list \<Rightarrow> (string, assignment) hash_map \<Rightarrow> (string, assignment) hash_map" where
  "require_coordination reason rationale handles assignments =
     (let agents = sorted_agents handles in
      fold (\<lambda>h as.
          case map_of as h of
            None \<Rightarrow> as
          | Some a \<Rightarrow> AList.update h (coordination_required reason agents rationale a) as)
        handles assignments)"

text \<open>The handles of the pairs whose scopes overlap, in the order the two loops find them.\<close>

fun overlapping_agents :: "(string, assignment) hash_map \<Rightarrow> string list \<Rightarrow> string list" where
  "overlapping_agents assignments [] = []"
| "overlapping_agents assignments (left # handles) =
     (case map_of assignments left of
        None \<Rightarrow> []
      | Some l \<Rightarrow>
          concat (map (\<lambda>right.
              case map_of assignments right of
                None \<Rightarrow> []
              | Some r \<Rightarrow>
                  if write_scopes_overlap (a_owned_paths l) (a_owned_paths r) then [left, right]
                  else [])
            handles))
     @ overlapping_agents assignments handles"

definition missing_scope_rationale :: string where
  "missing_scope_rationale =
     ''write-heavy sibling agents need explicit disjoint owned paths before concurrent edits''"

definition overlapping_scope_rationale :: string where
  "overlapping_scope_rationale =
     ''write-heavy sibling agents have overlapping owned paths and need manual coordination''"

definition mark_unsafe_multi_agent_write_scopes ::
    "(string, assignment) hash_map \<Rightarrow> (string, assignment) hash_map" where
  "mark_unsafe_multi_agent_write_scopes assignments =
     (let writing = map fst (filter (\<lambda>(h, a). a_mode a \<noteq> ReadOnly) assignments) in
      if length writing \<le> 1 then assignments
      else if \<exists>h \<in> set writing.
                case map_of assignments h of Some a \<Rightarrow> a_owned_paths a = [] | None \<Rightarrow> False
      then require_coordination ''missing_write_scope''
             missing_scope_rationale writing assignments
      else
        let overlapping = remdups (overlapping_agents assignments (sort writing)) in
        if overlapping = [] then assignments
        else require_coordination ''overlapping_write_scope''
               overlapping_scope_rationale overlapping assignments)"

definition assign_handle :: "json \<Rightarrow> bool \<Rightarrow> nat \<Rightarrow> string \<Rightarrow> assignment option" where
  "assign_handle metadata write_intent target_count handle =
     (case extract_explicit_agent_write_scope metadata handle target_count of
        Some a \<Rightarrow> Some a
      | None \<Rightarrow>
          if \<not> write_intent \<and> \<not> 1 < target_count then None
          else if \<not> write_intent
          then Some (read_only_assignment ''request metadata does not declare workspace writes'')
          else if 1 < target_count
          then Some (unscoped_assignment ''write-heavy multi-agent work needs explicit disjoint ownership'')
          else Some (unscoped_assignment
                 ''single-agent write job has no sibling write scope to coordinate with''))"

definition build_agent_write_scope_plan :: "json \<Rightarrow> string list \<Rightarrow> (string, assignment) hash_map" where
  "build_agent_write_scope_plan metadata target_handles =
     (let write_intent =
            (case Option.bind (Option.bind (as_object metadata) (\<lambda>m. obj_get m ''writeIntent''))
                    parse_runtime_bool of
               Some b \<Rightarrow> b | None \<Rightarrow> False);
          multi_agent = 1 < length target_handles;
          assignments = fold (\<lambda>h as.
              case assign_handle metadata write_intent (length target_handles) h of
                None \<Rightarrow> as
              | Some a \<Rightarrow> AList.update h a as)
            target_handles []
      in if multi_agent \<and> (write_intent \<or> (\<exists>(h, a) \<in> set assignments. a_mode a \<noteq> ReadOnly))
         then mark_unsafe_multi_agent_write_scopes assignments
         else assignments)"

section \<open>Writing the claim into the metadata\<close>

definition ensure_object :: "json \<Rightarrow> jobject" where
  "ensure_object v = (case v of JObj m \<Rightarrow> m | _ \<Rightarrow> [])"

definition apply_agent_write_scope_metadata :: "assignment option \<Rightarrow> json \<Rightarrow> json" where
  "apply_agent_write_scope_metadata assignment metadata =
     (case assignment of
        None \<Rightarrow> metadata
      | Some a \<Rightarrow>
          let claim = assignment_json a;
              m = obj_insert ''writeScope'' claim (ensure_object metadata);
              agent = (case obj_get m ''agent'' of Some v \<Rightarrow> ensure_object v | None \<Rightarrow> []);
              m = obj_insert ''agent'' (JObj (obj_insert ''writeScope'' claim agent)) m;
              m = (case obj_get m ''agentCollaboration'' of
                     None \<Rightarrow> m
                   | Some v \<Rightarrow>
                       obj_insert ''agentCollaboration''
                         (JObj (obj_insert ''writeScope'' claim (ensure_object v))) m)
          in JObj m)"

end
