(* ===== verification/Write_Scope_Plan.thy ===== *)
theory Write_Scope_Plan
  imports Write_Scopes
begin

text \<open>
  What the write scope plan guarantees: agents that may write side by side have disjoint scopes,
  disjoint scopes have no file in common, and a declared path stays inside the workspace.
\<close>

section \<open>Marking\<close>

lemma coordination_required_idem [simp]:
  "coordination_required r as ra (coordination_required r as ra a) = coordination_required r as ra a"
  by (simp add: coordination_required_def)

lemma coordination_required_mode [simp]: "a_mode (coordination_required r as ra a) = CoordinationRequired"
  by (simp add: coordination_required_def)

lemma map_of_require_coordination:
  "map_of (require_coordination reason rationale handles as) h =
     (if h \<in> set handles
      then map_option (coordination_required reason (sorted_agents handles) rationale) (map_of as h)
      else map_of as h)"
proof -
  let ?c = "coordination_required reason (sorted_agents handles) rationale"
  let ?f = "\<lambda>h as. case map_of as h of None \<Rightarrow> as | Some a \<Rightarrow> AList.update h (?c a) as"
  have "map_of (fold ?f hs as) h = (if h \<in> set hs then map_option ?c (map_of as h) else map_of as h)" for hs as
  proof (induction hs arbitrary: as)
    case (Cons x hs)
    have "map_of (?f x as) h = (if h = x then map_option ?c (map_of as h) else map_of as h)"
      by (auto simp: AList.update_conv' split: option.splits)
    then show ?case using Cons.IH [of "?f x as"]
      by (auto simp: option.map_comp o_def)
  qed simp
  then show ?thesis by (simp add: require_coordination_def)
qed

lemma paths_overlap_sym: "write_scope_paths_overlap l r = write_scope_paths_overlap r l"
  unfolding write_scope_paths_overlap_def Let_def by (auto split: option.splits)

lemma scopes_overlap_sym: "write_scopes_overlap l r = write_scopes_overlap r l"
  unfolding write_scopes_overlap_def using paths_overlap_sym by blast

lemma overlapping_agents_complete:
  assumes "h1 \<in> set hs" and "h2 \<in> set hs" and "h1 \<noteq> h2"
    and "map_of as h1 = Some a1" and "map_of as h2 = Some a2"
    and "write_scopes_overlap (a_owned_paths a1) (a_owned_paths a2)"
  shows "h1 \<in> set (overlapping_agents as hs)"
  using assms
proof (induction hs)
  case (Cons x hs)
  consider "x = h1" "h2 \<in> set hs" | "x = h2" "h1 \<in> set hs" | "h1 \<in> set hs" "h2 \<in> set hs"
    using Cons.prems by auto
  then show ?case
  proof cases
    case 1
    then show ?thesis using Cons.prems by (auto simp: intro!: bexI [of _ h2])
  next
    case 2
    then show ?thesis using Cons.prems scopes_overlap_sym by (auto intro!: bexI [of _ h1])
  next
    case 3
    then show ?thesis using Cons by auto
  qed
qed simp

lemma mark_unsafe_cases:
  "mark_unsafe_multi_agent_write_scopes as = as \<or>
   (\<exists>reason rationale hs. mark_unsafe_multi_agent_write_scopes as = require_coordination reason rationale hs as)"
  unfolding mark_unsafe_multi_agent_write_scopes_def Let_def by metis

lemma mark_unsafe_changes:
  assumes "map_of (mark_unsafe_multi_agent_write_scopes as) h = Some a" and "a_mode a \<noteq> CoordinationRequired"
  shows "map_of as h = Some a"
  using mark_unsafe_cases [of as]
proof (elim disjE exE)
  fix reason rationale hs
  assume "mark_unsafe_multi_agent_write_scopes as = require_coordination reason rationale hs as"
  with assms show ?thesis by (auto simp: map_of_require_coordination split: if_splits)
qed (use assms in simp)

lemma mark_unsafe_disjoint:
  assumes "h1 \<noteq> h2"
    and "map_of (mark_unsafe_multi_agent_write_scopes as) h1 = Some a1"
    and "map_of (mark_unsafe_multi_agent_write_scopes as) h2 = Some a2"
    and "a_mode a1 \<notin> {ReadOnly, CoordinationRequired}" and "a_mode a2 \<notin> {ReadOnly, CoordinationRequired}"
  shows "a_owned_paths a1 \<noteq> [] \<and> a_owned_paths a2 \<noteq> []
    \<and> \<not> write_scopes_overlap (a_owned_paths a1) (a_owned_paths a2)"
proof -
  let ?w = "map fst (filter (\<lambda>(h, a). a_mode a \<noteq> ReadOnly) as)"
  have m: "map_of as h1 = Some a1" "map_of as h2 = Some a2"
    using mark_unsafe_changes [OF assms(2)] mark_unsafe_changes [OF assms(3)] assms(4,5) by simp_all
  have "(h1, a1) \<in> set (filter (\<lambda>(h, a). a_mode a \<noteq> ReadOnly) as)"
    "(h2, a2) \<in> set (filter (\<lambda>(h, a). a_mode a \<noteq> ReadOnly) as)"
    using assms(4,5) m [THEN map_of_SomeD] by simp_all
  then have w: "h1 \<in> set ?w" "h2 \<in> set ?w"
    unfolding set_map by (metis fst_conv image_eqI)+
  have "card {h1, h2} \<le> card (set ?w)" using w by (intro card_mono finite_set subsetI) (elim insertE emptyE; simp only:)
  with assms(1) have len: "\<not> length ?w \<le> 1"
    using card_length [of ?w] by simp
  have no_missing: "\<not> (\<exists>h \<in> set ?w. case map_of as h of Some a \<Rightarrow> a_owned_paths a = [] | None \<Rightarrow> False)"
  proof (rule notI)
    assume "\<exists>h \<in> set ?w. case map_of as h of Some a \<Rightarrow> a_owned_paths a = [] | None \<Rightarrow> False"
    then have "mark_unsafe_multi_agent_write_scopes as = require_coordination ''missing_write_scope''
        missing_scope_rationale ?w as"
      unfolding mark_unsafe_multi_agent_write_scopes_def Let_def if_not_P [OF len] by (rule if_P)
    with assms(2,4) w(1) show False by (auto simp: map_of_require_coordination)
  qed
  have "\<not> write_scopes_overlap (a_owned_paths a1) (a_owned_paths a2)"
  proof
    assume "write_scopes_overlap (a_owned_paths a1) (a_owned_paths a2)"
    then have "h1 \<in> set (overlapping_agents as (sort ?w))"
      using overlapping_agents_complete [of h1 "sort ?w" h2 as a1 a2] w m assms(1) by simp
    then have "map_of (mark_unsafe_multi_agent_write_scopes as) h1 =
        map_option (coordination_required ''overlapping_write_scope''
          (sorted_agents (remdups (overlapping_agents as (sort ?w))))
          overlapping_scope_rationale)
         (map_of as h1)"
      unfolding mark_unsafe_multi_agent_write_scopes_def Let_def if_not_P [OF len] if_not_P [OF no_missing]
      by (auto simp: map_of_require_coordination)
    with assms(2,4) m show False by (auto dest: arg_cong [of _ _ a_mode])
  qed
  moreover have "a_owned_paths a1 \<noteq> []" "a_owned_paths a2 \<noteq> []"
    using no_missing [unfolded Set.bex_simps not_False_eq_True, THEN bspec, OF w(1)] no_missing [unfolded Set.bex_simps not_False_eq_True, THEN bspec, OF w(2)]
    unfolding m by simp_all
  ultimately show ?thesis by simp
qed

section \<open>Disjoint scopes have no file in common\<close>

text \<open>
  What a declared scope covers: a path covers itself and everything below it; a pattern with a
  \<open>*\<close> covers, at most, what starts with the text in front of the first \<open>*\<close>.
\<close>

definition scope_literal :: "string \<Rightarrow> string" where
  "scope_literal path = takeWhile (\<lambda>c. c \<noteq> CHR ''*'') path"

definition without_slash :: "string \<Rightarrow> string" where
  "without_slash path = (case strip_suffix path ''/'' of Some p \<Rightarrow> p | None \<Rightarrow> path)"

definition scope_covers :: "string \<Rightarrow> string \<Rightarrow> bool" where
  "scope_covers path file \<longleftrightarrow>
     (if CHR ''*'' \<in> set path then starts_with file (scope_literal path)
      else file = without_slash path \<or> starts_with file (without_slash path @ ''/''))"

text \<open>The first \<open>*\<close> of a pattern stands at the start of a path segment.\<close>

definition segment_glob :: "string \<Rightarrow> bool" where
  "segment_glob path \<longleftrightarrow>
     CHR ''*'' \<in> set path \<longrightarrow> scope_literal path = [] \<or> ends_with (scope_literal path) ''/''"

definition normal_path :: "string \<Rightarrow> bool" where
  "normal_path v \<longleftrightarrow> v \<noteq> [] \<and> \<not> starts_with v ''/'' \<and> \<not> starts_with v ''./'' \<and> \<not> starts_with v ''@''
     \<and> CHR '':'' \<notin> set v \<and> backslash \<notin> set v \<and> \<not> contains_str v ''..'' \<and> \<not> contains_str v ''//''
     \<and> \<not> has_whitespace v \<and> \<not> has_control v"

lemma normalize_scope_path_normal:
  assumes "normalize_scope_path raw = Some v"
  shows "v \<noteq> [] \<and> \<not> starts_with v ''./'' \<and> \<not> starts_with v ''@'' \<and> CHR '':'' \<notin> set v
     \<and> backslash \<notin> set v \<and> \<not> contains_str v ''..'' \<and> \<not> contains_str v ''//''
     \<and> \<not> has_whitespace v \<and> \<not> has_control v"
proof -
  let ?u = "replace_char backslash slash (trim_str raw)"
  have v: "v = collapse_double slash (drain_prefix ''./'' ?u)" and
    rest: "v \<noteq> [] \<and> \<not> starts_with v ''@'' \<and> CHR '':'' \<notin> set v \<and> \<not> contains_str v ''..''
      \<and> \<not> has_whitespace v \<and> \<not> has_control v"
    using assms by (auto simp: normalize_scope_path_def Let_def split: if_splits)
  have "\<not> starts_with v ''./''"
    using drain_prefix_done [of "''./''" ?u] collapse_double_second [of slash "drain_prefix ''./'' ?u" "CHR ''.''"]
    unfolding v by (auto simp: slash_def)
  moreover have "backslash \<notin> set v"
    using set_mono_suffix [OF drain_prefix_suffix, of "''./''" ?u] replace_char_gone [of backslash slash "trim_str raw"]
    by (auto simp: v set_collapse_double backslash_def slash_def)
  moreover have "\<not> contains_str v ''//''"
    using collapse_double_done [of slash] by (simp add: v slash_def)
  ultimately show ?thesis using rest by blast
qed

lemma normalize_write_scope_path_normal:
  "normalize_write_scope_path raw = Some v \<Longrightarrow> normal_path v"
  using normalize_scope_path_normal
  by (auto simp: normalize_write_scope_path_def normal_path_def split: option.splits if_splits)

lemma pop_slashes_rev_step:
  "\<not> contains_str s ''//'' \<Longrightarrow> pop_slashes_rev s =
     (case s of c # d # r \<Rightarrow> if c = slash then d # r else s | _ \<Rightarrow> s)"
  by (cases s rule: pop_slashes_rev.cases; cases "tl (tl s)") (auto simp: slash_def split: list.splits)

lemma contains_str_rev: "contains_str (rev s) (rev p) = contains_str s p"
proof -
  have "contains_str (rev s) (rev p)" if "contains_str s p" for s p :: "'a list"
  proof -
    from that obtain l r where "s = l @ p @ r" unfolding contains_str_iff by blast
    then have "rev s = rev r @ rev p @ rev l" by simp
    then show ?thesis unfolding contains_str_iff by blast
  qed
  from this [of s p] this [of "rev s" "rev p"] show ?thesis by auto
qed

lemma contains_str_sublist: "sublist t s \<Longrightarrow> contains_str t p \<Longrightarrow> contains_str s p"
  unfolding contains_str_iff sublist_def by (metis append.assoc)

lemma write_scope_prefix_normal:
  assumes "normal_path v"
  shows "write_scope_prefix v =
    (if scope_literal v = [] then ''**'' else without_slash (scope_literal v))"
proof -
  let ?p = "scope_literal v"
  have pre: "prefix ?p v" unfolding scope_literal_def by (rule takeWhile_is_prefix)
  then have sub: "sublist ?p v" by (rule prefix_imp_sublist)
  have ws: "\<not> has_whitespace ?p" using assms has_whitespace_sublist [OF sub] by (auto simp: normal_path_def)
  have dd: "\<not> contains_str ?p ''//''" using assms contains_str_sublist [OF sub] by (auto simp: normal_path_def)
  have nd: "\<not> starts_with ?p ''./''" and ns: "\<not> starts_with ?p ''/''"
    using assms pre prefix_order.trans unfolding normal_path_def starts_with_iff_prefix by blast+
  have bs: "backslash \<notin> set ?p" using assms set_mono_prefix [OF pre] by (auto simp: normal_path_def)
  have "write_scope_prefix v = (let q = rev (pop_slashes_rev (rev ?p)) in if q = [] then ''**'' else q)"
    unfolding write_scope_prefix_def split_on_hd Let_def
    using trim_str_id [OF ws] drain_prefix_id [OF nd] replace_char_id [OF bs]
    by (simp add: scope_literal_def)
  moreover have "rev (pop_slashes_rev (rev ?p)) = without_slash ?p"
  proof -
    have "\<not> contains_str (rev ?p) ''//''" using dd contains_str_rev [of ?p "''//''"] by simp
    then have e: "pop_slashes_rev (rev ?p) =
        (case rev ?p of c # d # r \<Rightarrow> if c = slash then d # r else rev ?p | _ \<Rightarrow> rev ?p)"
      by (rule pop_slashes_rev_step)
    show ?thesis
    proof (cases "strip_suffix ?p ''/''")
      case None
      then have "strip_suffix ?p ''/'' \<noteq> Some r" for r by simp
      then have "?p \<noteq> r @ ''/''" for r unfolding strip_suffix_Some .
      then have "pop_slashes_rev (rev ?p) = rev ?p"
        unfolding e by (auto simp: slash_def rev_eq_Cons_iff split: list.splits) blast
      with None show ?thesis by (simp add: without_slash_def)
    next
      case (Some r)
      then have p: "?p = r @ [slash]" by (simp add: strip_suffix_Some slash_def)
      with ns have "r \<noteq> []" by (auto simp: slash_def)
      then obtain d s where "rev r = d # s" by (cases "rev r") auto
      with p have "pop_slashes_rev (rev ?p) = rev r" unfolding e by simp
      with Some show ?thesis by (simp add: without_slash_def)
    qed
  qed
  moreover have "without_slash ?p = [] \<longleftrightarrow> ?p = []"
    using ns by (auto simp: without_slash_def strip_suffix_Some split: option.splits)
  ultimately show ?thesis by (simp add: Let_def)
qed


lemma without_slash_no_slash:
  assumes "\<not> contains_str p ''//''"
  shows "strip_suffix (without_slash p) ''/'' = None"
proof (cases "strip_suffix p ''/''")
  case None
  then show ?thesis by (simp add: without_slash_def)
next
  case (Some r)
  then have p: "p = r @ ''/''" by (simp add: strip_suffix_Some)
  have "r \<noteq> q @ ''/''" for q
  proof
    assume "r = q @ ''/''"
    with p have "p = q @ ''//'' @ []" by simp
    with assms show False unfolding contains_str_iff by blast
  qed
  then have "strip_suffix r ''/'' \<noteq> Some q" for q unfolding strip_suffix_Some by simp
  then have "strip_suffix r ''/'' = None" by (metis option.exhaust)
  with Some show ?thesis by (simp add: without_slash_def)
qed

text \<open>What a scope covers lies at or below its prefix.\<close>

definition at_or_below :: "string \<Rightarrow> string \<Rightarrow> bool" where
  "at_or_below file dir \<longleftrightarrow> file = dir \<or> starts_with file (dir @ ''/'')"

lemma covers_at_or_below:
  assumes "normal_path v" and "segment_glob v" and "scope_covers v file" and "write_scope_prefix v \<noteq> ''**''"
  shows "at_or_below file (write_scope_prefix v)"
proof (cases "CHR ''*'' \<in> set v")
  case True
  then have ne: "scope_literal v \<noteq> []" using assms(1,4) write_scope_prefix_normal by auto
  then have "ends_with (scope_literal v) ''/''" using assms(2) True by (simp add: segment_glob_def)
  then obtain r where r: "scope_literal v = r @ ''/''" by (auto simp: ends_with_iff_suffix suffix_def)
  then have "write_scope_prefix v = r"
    using write_scope_prefix_normal [OF assms(1)] ne by (simp add: without_slash_def strip_suffix_Some [THEN iffD2])
  with assms(3) True r show ?thesis by (simp add: scope_covers_def at_or_below_def)
next
  case False
  then have l: "scope_literal v = v" unfolding scope_literal_def by (auto simp: takeWhile_eq_all_conv)
  with assms(1) write_scope_prefix_normal [OF assms(1)] have "write_scope_prefix v = without_slash v"
    by (simp add: normal_path_def)
  with assms(3) False show ?thesis by (simp add: scope_covers_def at_or_below_def)
qed

lemma at_or_below_both:
  assumes "at_or_below file a" and "at_or_below file b"
  shows "a = b \<or> starts_with a (b @ ''/'') \<or> starts_with b (a @ ''/'')"
proof -
  have "prefix a file" "prefix b file"
    using assms by (auto simp: at_or_below_def starts_with_iff_prefix dest: append_prefixD)
  then consider "prefix a b" | "prefix b a" using prefix_same_cases by blast
  then show ?thesis
  proof cases
    case 1
    then obtain r where b: "b = a @ r" by (auto elim: prefixE)
    show ?thesis
    proof (cases r)
      case (Cons c r')
      from assms(2) b obtain q where q: "file = a @ r @ q" by (auto simp: at_or_below_def elim: starts_withE)
      with assms(1) Cons have "c = CHR ''/''" by (auto simp: at_or_below_def starts_with_iff_prefix)
      with b Cons show ?thesis by (simp add: starts_with_iff_prefix)
    qed (use b in simp)
  next
    case 2
    then obtain r where a: "a = b @ r" by (auto elim: prefixE)
    show ?thesis
    proof (cases r)
      case (Cons c r')
      from assms(1) a obtain q where q: "file = b @ r @ q" by (auto simp: at_or_below_def elim: starts_withE)
      with assms(2) Cons have "c = CHR ''/''" by (auto simp: at_or_below_def starts_with_iff_prefix)
      with a Cons show ?thesis by (simp add: starts_with_iff_prefix)
    qed (use a in simp)
  qed
qed

lemma disjoint_scopes:
  assumes "normal_path l" and "normal_path r" and "segment_glob l" and "segment_glob r"
    and "\<not> write_scope_paths_overlap l r"
  shows "\<not> (scope_covers l file \<and> scope_covers r file)"
proof
  assume "scope_covers l file \<and> scope_covers r file"
  moreover have "write_scope_prefix l \<noteq> ''**''" "write_scope_prefix r \<noteq> ''**''"
    using assms(5) by (auto simp: write_scope_paths_overlap_def)
  ultimately have "at_or_below file (write_scope_prefix l)" "at_or_below file (write_scope_prefix r)"
    using covers_at_or_below assms by blast+
  from at_or_below_both [OF this] assms(5) show False
    by (auto simp: write_scope_paths_overlap_def Let_def)
qed

section \<open>Properties\<close>

lemma keys_distinct_fold_assign:
  "keys_distinct as \<Longrightarrow>
   keys_distinct (fold (\<lambda>h as. case f h of None \<Rightarrow> as | Some a \<Rightarrow> AList.update h a as) hs as)"
  by (induction hs arbitrary: as) (auto simp: AList.distinct_update split: option.splits)

text \<open>C17. Agents that write side by side have disjoint scopes: when a plan for several agents
  leaves two of them free to write, each of the two owns explicit paths and no path of one
  overlaps a path of the other.\<close>

theorem plan_writers_disjoint:
  assumes "1 < length handles" and "h1 \<noteq> h2"
    and "map_of (build_agent_write_scope_plan metadata handles) h1 = Some a1"
    and "map_of (build_agent_write_scope_plan metadata handles) h2 = Some a2"
    and "a_mode a1 \<notin> {ReadOnly, CoordinationRequired}" and "a_mode a2 \<notin> {ReadOnly, CoordinationRequired}"
  shows "a_owned_paths a1 \<noteq> [] \<and> a_owned_paths a2 \<noteq> []
    \<and> (\<forall>l \<in> set (a_owned_paths a1). \<forall>r \<in> set (a_owned_paths a2). \<not> write_scope_paths_overlap l r)"
proof -
  obtain as wi where "build_agent_write_scope_plan metadata handles =
      (if 1 < length handles \<and> (wi \<or> (\<exists>(h, a) \<in> set as. a_mode a \<noteq> ReadOnly))
       then mark_unsafe_multi_agent_write_scopes as else as)"
    unfolding build_agent_write_scope_plan_def Let_def by blast
  with assms(1,3,5) have "build_agent_write_scope_plan metadata handles = mark_unsafe_multi_agent_write_scopes as"
    by (auto dest!: map_of_SomeD split: if_splits)
  with mark_unsafe_disjoint [of h1 h2 as a1 a2] assms show ?thesis
    by (simp add: write_scopes_overlap_def)
qed

definition demo_scopes :: json where
  "demo_scopes = JObj [(''agentWriteScopes'',
     JObj [(''ann'', JStr ''src/api''), (''ben'', JArr [JStr ''src/web'', JStr ''docs/*'']), (''cy'', JStr ''src'')])]"

definition demo_plan :: "(string, assignment) hash_map" where
  "demo_plan = build_agent_write_scope_plan demo_scopes [''ann'', ''ben'']"

definition demo_ann :: assignment where
  "demo_ann = owned_assignment [''src/api''] ''explicit single-path write scope'' ''metadata''"

definition demo_ben :: assignment where
  "demo_ben = owned_assignment [''src/web'', ''docs/*''] ''explicit owned paths from metadata'' ''metadata''"

lemma demo_extract:
  "extract_explicit_agent_write_scope demo_scopes ''ann'' 2 = Some demo_ann"
  "extract_explicit_agent_write_scope demo_scopes ''ben'' 2 = Some demo_ben"
  by code_simp+

lemma demo_disjoint:
  "overlapping_agents [(''ann'', demo_ann), (''ben'', demo_ben)] [''ann'', ''ben''] = []"
  "sort [''ann'', ''ben''] = [''ann'', ''ben'']"
  "a_mode demo_ann = Owned" "a_mode demo_ben = Owned"
  "a_owned_paths demo_ann \<noteq> []" "a_owned_paths demo_ben \<noteq> []"
  by code_simp+

lemma demo_plan_eq: "demo_plan = [(''ann'', demo_ann), (''ben'', demo_ben)]"
proof -
  let ?as = "[(''ann'', demo_ann), (''ben'', demo_ben)]"
  have "AList.update ''ben'' demo_ben [(''ann'', demo_ann)] = ?as" by simp
  then have "demo_plan = mark_unsafe_multi_agent_write_scopes ?as"
    by (simp add: demo_plan_def build_agent_write_scope_plan_def assign_handle_def demo_disjoint
        demo_extract [unfolded numeral_2_eq_2] Let_def)
  also have "\<dots> = ?as"
    using demo_disjoint by (simp add: mark_unsafe_multi_agent_write_scopes_def Let_def del: sort_key_simps)
  finally show ?thesis .
qed
theorem plan_writers_disjoint_witness:
  "map_of demo_plan ''ann'' = Some demo_ann \<and> map_of demo_plan ''ben'' = Some demo_ben
   \<and> \<not> write_scope_paths_overlap ''src/api'' ''docs/*''"
proof -
  have m: "map_of demo_plan ''ann'' = Some demo_ann" "map_of demo_plan ''ben'' = Some demo_ben"
    by (simp_all add: demo_plan_eq)
  have "''src/api'' \<in> set (a_owned_paths demo_ann)" "''docs/*'' \<in> set (a_owned_paths demo_ben)"
    by (simp_all add: demo_ann_def demo_ben_def owned_assignment_def)
  with m demo_disjoint(3,4)
    plan_writers_disjoint [of "[''ann'', ''ben'']" "''ann''" "''ben''" demo_scopes demo_ann demo_ben]
  show ?thesis by (simp add: demo_plan_def)
qed

text \<open>C18. Scopes that do not overlap share no file: for two declared paths that the normalization
  accepts, in which a \<open>*\<close> only starts a path segment, the overlap check misses nothing. If it
  reports no overlap then no file lies in both.\<close>

theorem overlap_check_sound:
  assumes "normalize_write_scope_path raw1 = Some l" and "normalize_write_scope_path raw2 = Some r"
    and "segment_glob l" and "segment_glob r" and "\<not> write_scope_paths_overlap l r"
  shows "\<not> (scope_covers l file \<and> scope_covers r file)"
  using disjoint_scopes [OF _ _ assms(3-5)] normalize_write_scope_path_normal assms(1,2) by blast

theorem overlap_check_sound_witness:
  "scope_covers ''src/api'' ''src/api/main.rs'' \<and> \<not> scope_covers ''src/web/*'' ''src/api/main.rs''"
proof -
  have "normalize_write_scope_path ''src/api'' = Some ''src/api''"
    "normalize_write_scope_path ''./src/web/*'' = Some ''src/web/*''"
    "segment_glob ''src/api''" "segment_glob ''src/web/*''" "\<not> write_scope_paths_overlap ''src/api'' ''src/web/*''"
    by code_simp+
  from overlap_check_sound [OF this, of "''src/api/main.rs''"]
  show ?thesis by (simp add: scope_covers_def without_slash_def strip_suffix_def ends_with_def starts_with_def)
qed

text \<open>A \<open>*\<close> inside a segment escapes the check: \<open>src/foo*\<close> and \<open>src/foobar\<close> are accepted as
  disjoint, though the first covers the second.\<close>

lemma overlap_check_misses_partial_segments:
  "normalize_write_scope_path ''src/foo*'' = Some ''src/foo*''
   \<and> normalize_write_scope_path ''src/foobar'' = Some ''src/foobar''
   \<and> scope_covers ''src/foo*'' ''src/foobar'' \<and> scope_covers ''src/foobar'' ''src/foobar''
   \<and> \<not> write_scope_paths_overlap ''src/foo*'' ''src/foobar''"
  by code_simp

text \<open>C19. A declared write path stays inside the workspace: a path that the normalization accepts is
  relative and not empty, names no parent directory, has no doubled or backward slash, no drive or
  scheme colon, and no white space or control character.\<close>

theorem normalized_path_inside_workspace:
  assumes "normalize_write_scope_path raw = Some v"
  shows "v \<noteq> [] \<and> \<not> starts_with v ''/'' \<and> \<not> starts_with v ''./'' \<and> \<not> starts_with v ''@''
     \<and> CHR '':'' \<notin> set v \<and> CHR 0x5C \<notin> set v \<and> \<not> contains_str v ''..'' \<and> \<not> contains_str v ''//''
     \<and> \<not> has_whitespace v \<and> \<not> has_control v"
  using normalize_write_scope_path_normal [OF assms] by (simp add: normal_path_def backslash_def)

theorem normalized_path_inside_workspace_witness:
  "\<exists>v. normalize_write_scope_path ''./src//api'' = Some v \<and> \<not> contains_str v ''//''"
proof -
  have "normalize_write_scope_path ''./src//api'' = Some ''src/api''" by code_simp
  from normalized_path_inside_workspace [OF this] this show ?thesis by blast
qed

text \<open>The punctuation check comes before the leading \<open>./\<close> is dropped, so a name that the check
  would refuse comes through behind it.\<close>

lemma punctuation_behind_dot_slash:
  "normalize_write_scope_path '',src'' = None \<and> normalize_write_scope_path ''./,src'' = Some '',src''"
  by code_simp

text \<open>\<open>unique_paths\<close> is removal of duplicates with a limit: it keeps the first occurrence of
  every path in order, and fails exactly when there are more than twelve different paths.\<close>

fun first_occurrences :: "'a list \<Rightarrow> 'a list" where
  "first_occurrences [] = []"
| "first_occurrences (x # xs) = x # filter (\<lambda>y. y \<noteq> x) (first_occurrences xs)"

lemma set_first_occurrences [simp]: "set (first_occurrences xs) = set xs"
  by (induction xs) auto

lemma distinct_first_occurrences [simp]: "distinct (first_occurrences xs)"
  by (induction xs) auto

lemma unique_paths_loop_spec:
  assumes "length out \<le> 12" and "distinct out"
  shows "unique_paths_loop paths out =
    (let all = out @ filter (\<lambda>p. p \<notin> set out) (first_occurrences paths)
     in if length all \<le> 12 then Some all else None)"
  using assms
proof (induction paths arbitrary: out)
  case (Cons p paths)
  show ?case
  proof (cases "p \<in> set out")
    case True
    then have e: "filter (\<lambda>q. q \<notin> set out) (first_occurrences (p # paths))
        = filter (\<lambda>q. q \<notin> set out) (first_occurrences paths)"
      by (simp, intro filter_cong refl) blast
    from True Cons.prems have "unique_paths_loop (p # paths) out = unique_paths_loop paths out" by simp
    then show ?thesis unfolding e using Cons.IH [OF Cons.prems] by simp
  next
    case False
    have e: "out @ filter (\<lambda>q. q \<notin> set out) (first_occurrences (p # paths))
        = (out @ [p]) @ filter (\<lambda>q. q \<notin> set (out @ [p])) (first_occurrences paths)"
      using False by simp
    show ?thesis
    proof (cases "length out < 12")
      case True
      then have "unique_paths_loop (p # paths) out = unique_paths_loop paths (out @ [p])"
        using False by simp
      then show ?thesis unfolding e using Cons.IH [of "out @ [p]"] Cons.prems True False by simp
    next
      case False
      then show ?thesis unfolding e using \<open>p \<notin> set out\<close> Cons.prems by (simp add: Let_def)
    qed
  qed
qed simp

theorem unique_paths_equiv:
  "unique_paths paths =
     (if card (set paths) \<le> 12 then Some (first_occurrences paths) else None)"
  using unique_paths_loop_spec [of "[]" paths] distinct_card [of "first_occurrences paths"]
  by (simp add: unique_paths_def)

section \<open>Declarations that agree\<close>

definition same_scope :: "assignment \<Rightarrow> assignment \<Rightarrow> bool" where
  "same_scope a b \<longleftrightarrow> a_mode a = a_mode b \<and> set (a_owned_paths a) = set (a_owned_paths b)
     \<and> set (a_read_only_paths a) = set (a_read_only_paths b)"

definition declares :: "json \<Rightarrow> assignment option \<Rightarrow> bool" where
  "declares value explicit \<longleftrightarrow>
     (\<exists>a b. explicit = Some a \<and> parse_agent_write_scope_value value = Some b \<and> same_scope a b)"

lemma merge_explicit_scope_declares:
  assumes "merge_explicit_scope value explicit = Some explicit'"
  shows "declares value explicit'" and "explicit \<noteq> None \<longrightarrow> explicit' = explicit"
  using assms
  by (auto simp: merge_explicit_scope_def declares_def same_scope_def bind_eq_Some_conv
      split: option.splits if_splits)

text \<open>A loop whose steps keep what is settled settles every element it visits.\<close>

lemma try_fold_declares:
  assumes "try_fold f xs s = Some t"
    and step: "\<And>x s s'. x \<in> set xs \<Longrightarrow> f x s = Some s' \<Longrightarrow> (s \<noteq> None \<longrightarrow> s' = s) \<and> P x s'"
    and mono: "\<And>x s s'. P x s \<Longrightarrow> (s \<noteq> None \<longrightarrow> s' = s) \<Longrightarrow> P x s'"
  shows "(s \<noteq> None \<longrightarrow> t = s) \<and> (\<forall>x \<in> set xs. P x t)"
  using assms(1) step
proof (induction xs arbitrary: s)
  case (Cons x xs)
  from Cons.prems(1) obtain s' where s': "f x s = Some s'" and t: "try_fold f xs s' = Some t"
    by (auto simp: bind_eq_Some_conv)
  have IH: "(s' \<noteq> None \<longrightarrow> t = s') \<and> (\<forall>x \<in> set xs. P x t)"
    by (rule Cons.IH [OF t]) (use Cons.prems(2) in auto)
  moreover from Cons.prems(2) [OF _ s'] have "(s \<noteq> None \<longrightarrow> s' = s) \<and> P x s'" by simp
  ultimately show ?case using mono by auto
qed simp

lemma declares_mono: "declares v s \<Longrightarrow> (s \<noteq> None \<longrightarrow> s' = s) \<Longrightarrow> declares v s'"
  by (auto simp: declares_def)

definition agrees_in :: "string \<Rightarrow> json \<Rightarrow> assignment option \<Rightarrow> bool" where
  "agrees_in handle container explicit \<longleftrightarrow>
     (\<exists>scopes. container = JObj scopes \<and>
        (\<forall>(key, value) \<in> set scopes. normalize_agent_handle key = Some handle \<longrightarrow> declares value explicit))"

lemma merge_container_agrees:
  assumes "merge_container handle container explicit = Some explicit'"
  shows "(explicit \<noteq> None \<longrightarrow> explicit' = explicit) \<and> agrees_in handle container explicit'"
proof -
  from assms obtain scopes where c: "container = JObj scopes" and f: "try_fold (\<lambda>(key, value) explicit.
      if normalize_agent_handle key = Some handle then merge_explicit_scope value explicit else Some explicit)
      scopes explicit = Some explicit'"
    by (cases container) (auto simp: merge_container_def)
  have "(explicit \<noteq> None \<longrightarrow> explicit' = explicit) \<and>
    (\<forall>x \<in> set scopes. normalize_agent_handle (fst x) = Some handle \<longrightarrow> declares (snd x) explicit')"
    by (rule try_fold_declares [OF f])
      (use merge_explicit_scope_declares in \<open>fastforce split: if_splits intro: declares_mono\<close>)+
  with c show ?thesis by (auto simp: agrees_in_def)
qed

lemma agrees_in_mono: "agrees_in h c s \<Longrightarrow> (s \<noteq> None \<longrightarrow> s' = s) \<Longrightarrow> agrees_in h c s'"
  unfolding agrees_in_def using declares_mono by blast

text \<open>Declarations of one agent must agree: unless the extracted scope asks for
  coordination, every container that declares scopes is an object, and every declaration in any of
  them that names the agent, in whatever spelling, is valid and declares the same mode and the
  same paths.\<close>

theorem explicit_scopes_agree:
  assumes "extract_explicit_agent_write_scope (JObj m) handle n = Some a"
    and "\<not> is_coordination_required a" and "normalize_agent_handle handle = Some h"
    and "container \<in> set (scope_containers m)"
  shows "\<exists>scopes. container = JObj scopes \<and>
    (\<forall>key value. (key, value) \<in> set scopes \<and> normalize_agent_handle key = Some h \<longrightarrow>
       (\<exists>b. parse_agent_write_scope_value value = Some b \<and> a_mode b = a_mode a
          \<and> set (a_owned_paths b) = set (a_owned_paths a)
          \<and> set (a_read_only_paths b) = set (a_read_only_paths a)))"
proof -
  have inv: "is_coordination_required invalid_explicit_scope"
    by (simp add: is_coordination_required_def invalid_explicit_scope_def coordination_required_def Let_def)
  with assms(1,2,3) obtain e where f: "try_fold (merge_container h) (scope_containers m) None = Some e"
    by (auto simp: extract_explicit_agent_write_scope_def split: option.splits)
  have all: "\<forall>c \<in> set (scope_containers m). agrees_in h c e"
    using try_fold_declares [OF f, of "agrees_in h"] merge_container_agrees agrees_in_mono by blast
  with assms(4) obtain scopes where c: "container = JObj scopes"
    and s: "\<forall>(key, value) \<in> set scopes. normalize_agent_handle key = Some h \<longrightarrow> declares value e"
    unfolding agrees_in_def by blast
  have "a = b" if "e = Some b" for b
    using that f assms(1,3) by (simp add: extract_explicit_agent_write_scope_def)
  with s c show ?thesis by (fastforce simp: declares_def same_scope_def)
qed

theorem explicit_scopes_agree_witness:
  "\<exists>b. parse_agent_write_scope_value (JStr ''src/api'') = Some b \<and> a_mode b = Owned"
proof -
  let ?m = "[(''agentWriteScopes'', JObj [(''@Ann'', JStr ''src/api'')])]"
  have 1: "extract_explicit_agent_write_scope (JObj ?m) ''ann'' 1 = Some demo_ann" by code_simp
  have 2: "\<not> is_coordination_required demo_ann" "a_mode demo_ann = Owned"
    "normalize_agent_handle ''ann'' = Some ''ann''" "normalize_agent_handle ''@Ann'' = Some ''ann''"
    by code_simp+
  have 3: "JObj [(''@Ann'', JStr ''src/api'')] \<in> set (scope_containers ?m)" by code_simp
  from explicit_scopes_agree [OF 1 2(1,3) 3] 2 show ?thesis by auto
qed

text \<open>The claim lands in the metadata and nothing else is lost: after applying an assignment the
  metadata is an object whose \<open>writeScope\<close> and whose agent's \<open>writeScope\<close> are the claim, an
  \<open>agentCollaboration\<close> entry carries it too if there was one, and every other key is as it was.\<close>

theorem metadata_carries_claim:
  assumes "metadata = JObj m"
  shows "\<exists>m'. apply_agent_write_scope_metadata (Some a) metadata = JObj m'
    \<and> obj_get m' ''writeScope'' = Some (assignment_json a)
    \<and> Option.bind (obj_get m' ''agent'') (\<lambda>v. value_get v ''writeScope'') = Some (assignment_json a)
    \<and> (obj_get m' ''agentCollaboration'' = None \<longleftrightarrow> obj_get m ''agentCollaboration'' = None)
    \<and> (obj_get m ''agentCollaboration'' \<noteq> None \<longrightarrow>
         Option.bind (obj_get m' ''agentCollaboration'') (\<lambda>v. value_get v ''writeScope'') = Some (assignment_json a))
    \<and> (\<forall>k. k \<notin> {''writeScope'', ''agent'', ''agentCollaboration''} \<longrightarrow> obj_get m' k = obj_get m k)"
  using assms
  by (auto simp: apply_agent_write_scope_metadata_def Let_def ensure_object_def value_get_def
      split: option.splits)

theorem metadata_carries_claim_witness:
  "\<exists>m'. apply_agent_write_scope_metadata (Some demo_ann) (JObj [(''agent'', JNull), (''x'', JBool True)]) = JObj m'
     \<and> obj_get m' ''writeScope'' = Some (assignment_json demo_ann) \<and> obj_get m' ''x'' = Some (JBool True)"
proof -
  let ?m = "[(''agent'', JNull), (''x'', JBool True)]"
  obtain m' where e: "apply_agent_write_scope_metadata (Some demo_ann) (JObj ?m) = JObj m'"
    and w: "obj_get m' ''writeScope'' = Some (assignment_json demo_ann)"
    and k: "\<forall>k. k \<notin> {''writeScope'', ''agent'', ''agentCollaboration''} \<longrightarrow> obj_get m' k = obj_get ?m k"
    using metadata_carries_claim [OF refl, of demo_ann ?m] by blast
  from k [rule_format, of "''x''"] have "obj_get m' ''x'' = Some (JBool True)" by simp
  with e w show ?thesis by blast
qed

end
