(* ===== verification/Checkout_Eviction.thy ===== *)
theory Checkout_Eviction
  imports Rust_Strings
begin

text \<open>
  Eviction of hosted workspace checkouts from a node's disk
  (\<open>runtime-provider-core/src/allocator/checkout_eviction.rs\<close>).

  The sweep is a function of what it reads: the directory listing it scans, and for every
  candidate what the node answers when the sweep gets to it (the claim, the stamp read again under
  the claim, whether a runtime exists, the marker file, whether the moves succeed). The latter
  is a \<open>probe\<close>, so that whatever starts and stops do between the scan and the eviction is
  covered. A \<open>SystemTime\<close> is a number of nanoseconds since the epoch, sizes are 64-bit words.
\<close>

section \<open>Markers and sizes\<close>

definition durable_marker :: "byte list" where
  "durable_marker = [0x64, 0x75, 0x72, 0x61, 0x62, 0x6C, 0x65, 0x20, 0x76, 0x31, 0x0A]"
  \<comment> \<open>\<open>durable v1\<close> and a line feed\<close>

definition max_size_entries :: nat where
  "max_size_entries = 2000000"

text \<open>The marker path as the file system answers for it: absent or unreadable metadata, something
  that is no regular file, or a file with its reported length and what reading it gives.\<close>

datatype marker_file =
    NoMarker
  | NotRegular
  | RegularFile "64 word" "byte list option"

definition stopped_durably :: "marker_file \<Rightarrow> bool" where
  "stopped_durably marker =
     (case marker of
        RegularFile len content \<Rightarrow>
          unat len = length durable_marker \<and>
          (case content of
             None \<Rightarrow> False
           | Some bytes \<Rightarrow> take (length durable_marker + 1) bytes = durable_marker)
      | _ \<Rightarrow> False)"

text \<open>A directory tree: a file with its length, a directory with its entries (none when it
  cannot be read), an entry whose metadata cannot be read.\<close>

datatype fs_entry =
    FileEntry "64 word"
  | DirEntry "fs_entry list option"
  | BadEntry

definition saturating_add :: "64 word \<Rightarrow> 64 word \<Rightarrow> 64 word" where
  "saturating_add a b = (if unat a + unat b < 2 ^ 64 then a + b else - 1)"

definition saturating_sub :: "64 word \<Rightarrow> 64 word \<Rightarrow> 64 word" where
  "saturating_sub a b = (if b \<le> a then a - b else 0)"

text \<open>The entries of one directory: the running total and count, the directories found on
  the stack; \<open>Inl total\<close> when the bound is passed.\<close>

fun size_entries ::
    "fs_entry list \<Rightarrow> 64 word \<Rightarrow> nat \<Rightarrow> fs_entry list option list \<Rightarrow>
     64 word + (64 word \<times> nat \<times> fs_entry list option list)" where
  "size_entries [] tot seen stack = Inr (tot, seen, stack)"
| "size_entries (e # es) tot seen stack =
     (let seen = seen + 1 in
      if max_size_entries < seen then Inl tot
      else case e of
        BadEntry \<Rightarrow> size_entries es tot seen stack
      | DirEntry d \<Rightarrow> size_entries es tot seen (stack @ [d])
      | FileEntry n \<Rightarrow> size_entries es (saturating_add tot n) seen stack)"

fun fs_weight :: "fs_entry \<Rightarrow> nat" where
  "fs_weight (FileEntry _) = 1"
| "fs_weight BadEntry = 1"
| "fs_weight (DirEntry None) = 2"
| "fs_weight (DirEntry (Some es)) = 2 + sum_list (map fs_weight es)"

definition dir_weight :: "fs_entry list option \<Rightarrow> nat" where
  "dir_weight d = (case d of None \<Rightarrow> 1 | Some es \<Rightarrow> 1 + sum_list (map fs_weight es))"

lemma dir_weight_entry: "fs_weight (DirEntry d) = 1 + dir_weight d"
  by (cases d) (auto simp: dir_weight_def)

lemma size_entries_weight:
  "size_entries es tot seen stack = Inr (tot', seen', stack') \<Longrightarrow>
   sum_list (map dir_weight stack') \<le> sum_list (map dir_weight stack) + sum_list (map fs_weight es)"
proof (induction es arbitrary: tot seen stack)
  case (Cons e es)
  show ?case
  proof (cases e)
    case (FileEntry n)
    with Cons.prems Cons.IH [of "saturating_add tot n" "Suc seen" stack] show ?thesis
      by (simp split: if_splits)
  next
    case (DirEntry d)
    with Cons.prems Cons.IH [of tot "Suc seen" "stack @ [d]"] show ?thesis
      by (simp add: dir_weight_entry split: if_splits)
  next
    case BadEntry
    with Cons.prems Cons.IH [of tot "Suc seen" stack] show ?thesis
      by (simp split: if_splits)
  qed
qed simp

function tree_size_loop :: "fs_entry list option list \<Rightarrow> 64 word \<Rightarrow> nat \<Rightarrow> 64 word" where
  "tree_size_loop stack tot seen =
     (if stack = [] then tot
      else case last stack of
        None \<Rightarrow> tree_size_loop (butlast stack) tot seen
      | Some es \<Rightarrow>
          (case size_entries es tot seen (butlast stack) of
             Inl t \<Rightarrow> t
           | Inr (tot, seen, stack) \<Rightarrow> tree_size_loop stack tot seen))"
  by pat_completeness auto

lemma stack_weight:
  "stack \<noteq> [] \<Longrightarrow>
   sum_list (map dir_weight stack) = sum_list (map dir_weight (butlast stack)) + dir_weight (last stack)"
  by (cases stack rule: rev_cases) auto

termination tree_size_loop
proof (relation "measure (\<lambda>(stack, tot, seen). sum_list (map dir_weight stack))")
  fix stack :: "fs_entry list option list" and tot seen es r tot' seen' stack' b
  assume "stack \<noteq> []" "last stack = Some es"
    and e: "size_entries es tot seen (butlast stack) = Inr r" "(tot', b) = r" "(seen', stack') = b"
  then have "sum_list (map dir_weight stack') \<le> sum_list (map dir_weight (butlast stack)) + sum_list (map fs_weight es)"
    using size_entries_weight [of es tot seen "butlast stack" tot' seen' stack'] by auto
  with stack_weight [OF \<open>stack \<noteq> []\<close>] \<open>last stack = Some es\<close>
  show "((stack', tot', seen'), stack, tot, seen)
      \<in> measure (\<lambda>(stack, tot, seen). sum_list (map dir_weight stack))"
    by (simp add: dir_weight_def)
qed (simp_all add: stack_weight dir_weight_def)

declare tree_size_loop.simps [simp del]

definition tree_size :: "fs_entry list option \<Rightarrow> 64 word" where
  "tree_size dir = tree_size_loop [dir] 0 0"

section \<open>The policy\<close>

record eviction_policy =
  idle_ttl :: "nat option"
  disk_budget_bytes :: "64 word option"
  min_idle_for_budget :: nat

definition policy_default :: eviction_policy where
  "policy_default =
     \<lparr>idle_ttl = Some (secs (7 * 24 * 60 * 60)), disk_budget_bytes = None,
      min_idle_for_budget = secs (60 * 60)\<rparr>"

definition policy_is_enabled :: "eviction_policy \<Rightarrow> bool" where
  "policy_is_enabled p \<longleftrightarrow> idle_ttl p \<noteq> None \<or> disk_budget_bytes p \<noteq> None"

definition eligible :: "eviction_policy \<Rightarrow> nat \<Rightarrow> 64 word \<Rightarrow> string option" where
  "eligible p idle tot =
     (if (case idle_ttl p of Some ttl \<Rightarrow> ttl \<le> idle | None \<Rightarrow> False) then Some ''idle''
      else if (case disk_budget_bytes p of Some budget \<Rightarrow> budget < tot | None \<Rightarrow> False)
              \<and> min_idle_for_budget p \<le> idle
      then Some ''disk_budget'' else None)"

section \<open>The sweep\<close>

record sweep_report =
  evicted :: "(uuid \<times> string) list"
  kept_unpushed :: "uuid list"
  kept :: "(uuid \<times> string) list"

definition report_default :: sweep_report where
  "report_default = \<lparr>evicted = [], kept_unpushed = [], kept = []\<rparr>"

text \<open>One entry of the scanned base directory: its name if it is UTF-8, whether it is a
  directory, and its tree.\<close>

record base_entry =
  be_name :: "string option"
  be_is_dir :: bool
  be_tree :: "fs_entry list option"

record candidate =
  cand_project :: uuid
  cand_path :: string
  cand_last_used :: instant
  cand_tree :: "fs_entry list option"

record probe =
  pr_claimed :: bool
  pr_last_used :: "instant option" \<comment> \<open>the stamp, read again under the claim\<close>
  pr_runtime :: "string + bool" \<comment> \<open>whether a runtime container exists, or the error\<close>
  pr_marker :: marker_file
  pr_trash_error :: "string option"
  pr_rename_error :: "string option"

text \<open>The scan: directories named by a project id; one without a stamp gets one and is no
  candidate this time. \<open>touch_checkout\<close> is recorded as the list of stamped projects.\<close>

fun scan_entries ::
    "(string \<Rightarrow> uuid option) \<Rightarrow> (uuid \<Rightarrow> instant option) \<Rightarrow> base_entry list \<Rightarrow> candidate list \<times> uuid list" where
  "scan_entries parse_uuid stamp [] = ([], [])"
| "scan_entries parse_uuid stamp (e # es) =
     (let (cs, touched) = scan_entries parse_uuid stamp es in
      case Option.bind (be_name e) parse_uuid of
        None \<Rightarrow> (cs, touched)
      | Some project_id \<Rightarrow>
          if \<not> be_is_dir e then (cs, touched)
          else case stamp project_id of
            Some used \<Rightarrow>
              (\<lparr>cand_project = project_id, cand_path = the (be_name e), cand_last_used = used,
                cand_tree = be_tree e\<rparr> # cs, touched)
          | None \<Rightarrow> (cs, project_id # touched))"

definition candidate_sizes :: "eviction_policy \<Rightarrow> candidate list \<Rightarrow> (uuid, 64 word) hash_map" where
  "candidate_sizes p cs =
     (if disk_budget_bytes p \<noteq> None
      then fold (\<lambda>c m. AList.update (cand_project c) (tree_size (cand_tree c)) m) cs []
      else [])"

record sweep =
  sw_total :: "64 word"
  sw_report :: sweep_report

definition keep :: "uuid \<Rightarrow> string \<Rightarrow> sweep \<Rightarrow> sweep" where
  "keep project reason sw =
     sw\<lparr>sw_report := (sw_report sw)\<lparr>kept := kept (sw_report sw) @ [(project, reason)]\<rparr>\<rparr>"

definition sweep_candidate ::
    "eviction_policy \<Rightarrow> instant \<Rightarrow> (uuid, 64 word) hash_map \<Rightarrow> (string \<Rightarrow> probe) \<Rightarrow> candidate \<Rightarrow>
     sweep \<Rightarrow> sweep" where
  "sweep_candidate p now sizes probes c sw =
     (let project = cand_project c; pr = probes (cand_path c) in
      if eligible p (duration_since now (cand_last_used c)) (sw_total sw) = None then sw
      else if \<not> pr_claimed pr then keep project ''a start or stop is in progress'' sw
      else
        let idle = (case pr_last_used pr of Some used \<Rightarrow> duration_since now used | None \<Rightarrow> 0) in
        case eligible p idle (sw_total sw) of
          None \<Rightarrow> sw
        | Some reason \<Rightarrow>
            (case pr_runtime pr of
               Inr True \<Rightarrow> keep project ''a runtime exists here'' sw
             | Inl e \<Rightarrow> keep project (''runtime check failed: '' @ e) sw
             | Inr False \<Rightarrow>
                 if \<not> stopped_durably (pr_marker pr)
                 then sw\<lparr>sw_report := (sw_report sw)\<lparr>
                          kept_unpushed := kept_unpushed (sw_report sw) @ [project]\<rparr>\<rparr>
                 else case pr_trash_error pr of
                   Some e \<Rightarrow> keep project (''eviction failed: '' @ e) sw
                 | None \<Rightarrow>
                     (case pr_rename_error pr of
                        Some e \<Rightarrow> keep project (''eviction failed: '' @ e) sw
                      | None \<Rightarrow>
                          \<lparr>sw_total = saturating_sub (sw_total sw)
                             (case map_of sizes project of Some n \<Rightarrow> n | None \<Rightarrow> 0),
                           sw_report = (sw_report sw)\<lparr>
                             evicted := evicted (sw_report sw) @ [(project, reason)]\<rparr>\<rparr>)))"

text \<open>\<open>sort_by_key\<close> is stable. Without a readable base directory there is nothing to do.\<close>

definition sweep_checkouts ::
    "(string \<Rightarrow> uuid option) \<Rightarrow> (uuid \<Rightarrow> instant option) \<Rightarrow> base_entry list option \<Rightarrow>
     eviction_policy \<Rightarrow> instant \<Rightarrow> (string \<Rightarrow> probe) \<Rightarrow> sweep_report" where
  "sweep_checkouts parse_uuid stamp listing p now probes =
     (if \<not> policy_is_enabled p then report_default
      else case listing of
        None \<Rightarrow> report_default
      | Some entries \<Rightarrow>
          let cs = sort_key cand_last_used (fst (scan_entries parse_uuid stamp entries));
              sizes = candidate_sizes p cs;
              tot = sum_list (map snd sizes)
          in sw_report
               (fold (sweep_candidate p now sizes probes) cs
                  \<lparr>sw_total = tot, sw_report = report_default\<rparr>))"

section \<open>What is evicted\<close>

lemma length_durable_marker [simp]: "length durable_marker = 11"
  by (simp add: durable_marker_def)

lemma stopped_durably_iff:
  "stopped_durably m \<longleftrightarrow> m = RegularFile 11 (Some durable_marker)"
proof
  assume "stopped_durably m"
  then obtain len bytes where m: "m = RegularFile len (Some bytes)" and "unat len = 11"
    and b: "take 12 bytes = durable_marker"
    by (auto simp: stopped_durably_def split: marker_file.splits option.splits)
  then have "unat len = unat (11 :: 64 word)" by simp
  then have "len = 11" by (simp only: word_unat_eq_iff)
  moreover have "length (take 12 bytes) = 11" unfolding b by simp
  then have "length bytes = 11" by (auto simp: min_def split: if_splits)
  then have "bytes = durable_marker" using b by simp
  ultimately show "m = RegularFile 11 (Some durable_marker)" using m by simp
qed (simp add: stopped_durably_def)

definition safe_eviction ::
    "eviction_policy \<Rightarrow> instant \<Rightarrow> (string \<Rightarrow> probe) \<Rightarrow> candidate list \<Rightarrow> uuid \<Rightarrow> string \<Rightarrow> bool" where
  "safe_eviction p now probes cs project reason \<longleftrightarrow>
     (\<exists>c \<in> set cs. cand_project c = project \<and>
        (let pr = probes (cand_path c);
             idle = (case pr_last_used pr of Some used \<Rightarrow> duration_since now used | None \<Rightarrow> 0)
         in pr_claimed pr \<and> pr_runtime pr = Inr False
            \<and> pr_marker pr = RegularFile 11 (Some durable_marker)
            \<and> pr_trash_error pr = None \<and> pr_rename_error pr = None
            \<and> (reason = ''idle'' \<and> (\<exists>ttl. idle_ttl p = Some ttl \<and> ttl \<le> idle)
               \<or> reason = ''disk_budget'' \<and> disk_budget_bytes p \<noteq> None \<and> min_idle_for_budget p \<le> idle)))"

lemma eligible_Some:
  "eligible p idle tot = Some reason \<Longrightarrow>
   (reason = ''idle'' \<and> (\<exists>ttl. idle_ttl p = Some ttl \<and> ttl \<le> idle)
    \<or> reason = ''disk_budget'' \<and> (\<exists>b. disk_budget_bytes p = Some b \<and> b < tot) \<and> min_idle_for_budget p \<le> idle)"
  by (auto simp: eligible_def split: if_splits option.splits)

text \<open>One candidate: the sweep stays as it was up to what it keeps, or evicts that candidate safely.\<close>

lemma sweep_candidate_cases:
  "(evicted (sw_report (sweep_candidate p now sizes probes c sw)) = evicted (sw_report sw)
     \<and> sw_total (sweep_candidate p now sizes probes c sw) = sw_total sw)
   \<or> (\<exists>reason. evicted (sw_report (sweep_candidate p now sizes probes c sw))
          = evicted (sw_report sw) @ [(cand_project c, reason)]
        \<and> sw_total (sweep_candidate p now sizes probes c sw)
          = saturating_sub (sw_total sw) (case map_of sizes (cand_project c) of Some n \<Rightarrow> n | None \<Rightarrow> 0)
        \<and> (reason = ''disk_budget'' \<longrightarrow> (\<exists>b. disk_budget_bytes p = Some b \<and> b < sw_total sw))
        \<and> safe_eviction p now probes [c] (cand_project c) reason)"
proof (cases "evicted (sw_report (sweep_candidate p now sizes probes c sw)) = evicted (sw_report sw)")
  case True
  then show ?thesis
    by (simp add: sweep_candidate_def Let_def keep_def split: option.splits sum.splits if_splits bool.splits)
next
  case False
  let ?pr = "probes (cand_path c)"
  let ?idle = "case pr_last_used ?pr of Some used \<Rightarrow> duration_since now used | None \<Rightarrow> 0"
  from False obtain reason where el: "eligible p ?idle (sw_total sw) = Some reason"
    and "pr_claimed ?pr" "pr_runtime ?pr = Inr False" "stopped_durably (pr_marker ?pr)"
    "pr_trash_error ?pr = None" "pr_rename_error ?pr = None"
    and e: "sweep_candidate p now sizes probes c sw =
      \<lparr>sw_total = saturating_sub (sw_total sw)
         (case map_of sizes (cand_project c) of Some n \<Rightarrow> n | None \<Rightarrow> 0),
       sw_report = (sw_report sw)\<lparr>evicted := evicted (sw_report sw) @ [(cand_project c, reason)]\<rparr>\<rparr>"
    by (simp add: sweep_candidate_def Let_def keep_def split: option.splits sum.splits if_splits bool.splits)
  with eligible_Some [OF el] show ?thesis
    by (auto simp: safe_eviction_def Let_def stopped_durably_iff)
qed

lemma safe_eviction_mono:
  "safe_eviction p now probes cs project reason \<Longrightarrow> set cs \<subseteq> set ds \<Longrightarrow>
   safe_eviction p now probes ds project reason"
  unfolding safe_eviction_def by blast

lemma sweep_fold_safe:
  assumes "(project, reason) \<in> set (evicted (sw_report (fold (sweep_candidate p now sizes probes) cs sw)))"
  shows "(project, reason) \<in> set (evicted (sw_report sw)) \<or> safe_eviction p now probes cs project reason"
  using assms
proof (induction cs arbitrary: sw)
  case (Cons c cs)
  then consider "(project, reason) \<in> set (evicted (sw_report (sweep_candidate p now sizes probes c sw)))"
    | "safe_eviction p now probes cs project reason" by auto
  then show ?case
  proof cases
    case 1
    with sweep_candidate_cases [of p now sizes probes c sw] show ?thesis
      by (auto intro: safe_eviction_mono)
  qed (auto intro: safe_eviction_mono)
qed simp

lemma scan_entries_sound:
  "c \<in> set (fst (scan_entries parse_uuid stamp es)) \<Longrightarrow>
   \<exists>e \<in> set es. be_is_dir e \<and> be_name e = Some (cand_path c) \<and> parse_uuid (cand_path c) = Some (cand_project c)
     \<and> stamp (cand_project c) = Some (cand_last_used c)"
proof (induction es)
  case (Cons e es)
  show ?case
  proof (cases "c \<in> set (fst (scan_entries parse_uuid stamp es))")
    case True
    with Cons.IH show ?thesis by auto
  next
    case False
    with Cons.prems show ?thesis
      by (auto simp: Let_def bind_eq_Some_conv split: prod.splits option.splits if_splits)
  qed
qed simp

text \<open>C23. A checkout is evicted only when its work is safe elsewhere: every evicted project has a
  directory of that name with a recorded last use, the sweep held its claim when it was moved, no
  runtime container of it existed, its last stop left exactly the durable marker, and, by the stamp
  read under the claim, it was idle for the time to live or, for the disk budget, for the
  minimum.\<close>

theorem eviction_is_safe:
  assumes "(project, reason) \<in> set (evicted (sweep_checkouts parse_uuid stamp listing p now probes))"
  shows "\<exists>es e path. listing = Some es \<and> e \<in> set es \<and> be_is_dir e \<and> be_name e = Some path
    \<and> parse_uuid path = Some project \<and> stamp project \<noteq> None
    \<and> pr_claimed (probes path) \<and> pr_runtime (probes path) = Inr False
    \<and> pr_marker (probes path) = RegularFile 11 (Some durable_marker)
    \<and> (let idle = (case pr_last_used (probes path) of Some used \<Rightarrow> duration_since now used | None \<Rightarrow> 0)
       in (reason = ''idle'' \<and> (\<exists>ttl. idle_ttl p = Some ttl \<and> ttl \<le> idle))
          \<or> (reason = ''disk_budget'' \<and> disk_budget_bytes p \<noteq> None \<and> min_idle_for_budget p \<le> idle))"
proof -
  from assms obtain es where es: "listing = Some es"
    by (auto simp: sweep_checkouts_def report_default_def split: if_splits option.splits)
  let ?cs = "sort_key cand_last_used (fst (scan_entries parse_uuid stamp es))"
  from assms es have "safe_eviction p now probes ?cs project reason"
    using sweep_fold_safe [of project reason p now "candidate_sizes p ?cs" probes ?cs
        "\<lparr>sw_total = sum_list (map snd (candidate_sizes p ?cs)), sw_report = report_default\<rparr>"]
    by (auto simp: sweep_checkouts_def report_default_def Let_def split: if_splits)
  then obtain c where c: "c \<in> set (fst (scan_entries parse_uuid stamp es))" "cand_project c = project"
    and safe: "safe_eviction p now probes [c] project reason"
    by (auto simp: safe_eviction_def)
  from scan_entries_sound [OF c(1)] obtain e where "e \<in> set es" "be_is_dir e"
    "be_name e = Some (cand_path c)" "parse_uuid (cand_path c) = Some project" "stamp project \<noteq> None"
    using c(2) by auto
  with es safe show ?thesis by (auto simp: safe_eviction_def Let_def)
qed

definition demo_probe :: probe where
  "demo_probe = \<lparr>pr_claimed = True, pr_last_used = Some 0, pr_runtime = Inr False,
     pr_marker = RegularFile 11 (Some durable_marker), pr_trash_error = None, pr_rename_error = None\<rparr>"

definition demo_listing :: "base_entry list" where
  "demo_listing = [\<lparr>be_name = Some ''p'', be_is_dir = True, be_tree = Some [FileEntry 10]\<rparr>,
     \<lparr>be_name = Some ''q'', be_is_dir = True, be_tree = Some [FileEntry 5]\<rparr>]"

definition demo_ids :: "string \<Rightarrow> uuid option" where
  "demo_ids s = (if s = ''p'' then Some 1 else if s = ''q'' then Some 2 else None)"

definition demo_policy :: eviction_policy where
  "demo_policy = \<lparr>idle_ttl = None, disk_budget_bytes = Some 12, min_idle_for_budget = 5\<rparr>"

lemma demo_sweep:
  "evicted (sweep_checkouts demo_ids (\<lambda>_. Some 0) (Some demo_listing) demo_policy 9 (\<lambda>_. demo_probe))
   = [(1, ''disk_budget'')]"
  by code_simp

theorem eviction_is_safe_witness:
  "demo_ids ''p'' = Some 1 \<and> pr_marker demo_probe = RegularFile 11 (Some durable_marker)"
  using eviction_is_safe [of 1 "''disk_budget''" demo_ids "\<lambda>_. Some 0" "Some demo_listing" demo_policy 9
      "\<lambda>_. demo_probe"] demo_sweep
  by (auto simp: demo_ids_def split: if_splits)

text \<open>The budget is not overdrawn: a checkout goes for the disk budget only while the
  measured total, less what this sweep has evicted already, is above the budget.\<close>

lemma unat_saturating_sub: "unat (saturating_sub a b) = unat a - unat b"
  by (auto simp: saturating_sub_def unat_sub word_le_nat_alt)

definition size_of :: "(uuid, 64 word) hash_map \<Rightarrow> uuid \<Rightarrow> nat" where
  "size_of sizes project = (case map_of sizes project of Some n \<Rightarrow> unat n | None \<Rightarrow> 0)"

lemma sweep_fold_budget:
  assumes "evicted (sw_report (fold (sweep_candidate p now sizes probes) cs sw)) = evicted (sw_report sw) @ ds"
    and "ds = xs @ (project, ''disk_budget'') # ys"
  shows "\<exists>b. disk_budget_bytes p = Some b
    \<and> unat b < unat (sw_total sw) - sum_list (map (size_of sizes \<circ> fst) xs)"
  using assms
proof (induction cs arbitrary: sw ds xs)
  case (Cons c cs)
  let ?s = "sweep_candidate p now sizes probes c sw"
  from sweep_candidate_cases [of p now sizes probes c sw]
  consider "evicted (sw_report ?s) = evicted (sw_report sw)" "sw_total ?s = sw_total sw"
    | reason where "evicted (sw_report ?s) = evicted (sw_report sw) @ [(cand_project c, reason)]"
      "unat (sw_total ?s) = unat (sw_total sw) - size_of sizes (cand_project c)"
      "reason = ''disk_budget'' \<longrightarrow> (\<exists>b. disk_budget_bytes p = Some b \<and> b < sw_total sw)"
    by (auto simp: unat_saturating_sub size_of_def split: option.splits)
  then show ?case
  proof cases
    case 1
    with Cons.IH [of ?s ds xs] Cons.prems show ?thesis by simp
  next
    case (2 reason)
    have more: "\<exists>rest. evicted (sw_report (fold (sweep_candidate p now sizes probes) cs t)) = evicted (sw_report t) @ rest" for t
    proof (induction cs arbitrary: t)
      case (Cons d cs)
      show ?case using Cons [of "sweep_candidate p now sizes probes d t"]
          sweep_candidate_cases [of p now sizes probes d t] by auto
    qed simp
    from more [of ?s] obtain rest where r: "evicted (sw_report (fold (sweep_candidate p now sizes probes) cs ?s))
        = evicted (sw_report ?s) @ rest" by blast
    with Cons.prems 2(1) have ds: "xs @ (project, ''disk_budget'') # ys = (cand_project c, reason) # rest" by simp
    show ?thesis
    proof (cases xs)
      case Nil
      with ds 2(3) show ?thesis by (auto simp: word_less_nat_alt)
    next
      case (Cons x xs')
      with ds have "x = (cand_project c, reason)" "rest = xs' @ (project, ''disk_budget'') # ys" by auto
      with Cons.IH [OF r] 2(2) Cons show ?thesis by (auto simp: diff_diff_left)
    qed
  qed
qed simp

theorem budget_not_overdrawn:
  assumes "evicted (sweep_checkouts parse_uuid stamp (Some es) p now probes)
      = xs @ (project, ''disk_budget'') # ys"
    and "cs = sort_key cand_last_used (fst (scan_entries parse_uuid stamp es))"
    and "sizes = candidate_sizes p cs"
  shows "\<exists>b. disk_budget_bytes p = Some b
    \<and> unat b < unat (sum_list (map snd sizes)) - sum_list (map (size_of sizes \<circ> fst) xs)"
proof -
  have "policy_is_enabled p"
    using assms(1) by (auto simp: sweep_checkouts_def report_default_def split: if_splits)
  then have "evicted (sw_report (fold (sweep_candidate p now sizes probes) cs
      \<lparr>sw_total = sum_list (map snd sizes), sw_report = report_default\<rparr>))
      = evicted report_default @ xs @ (project, ''disk_budget'') # ys"
    using assms by (simp add: sweep_checkouts_def Let_def report_default_def)
  then show ?thesis using sweep_fold_budget [of p now sizes probes cs
      "\<lparr>sw_total = sum_list (map snd sizes), sw_report = report_default\<rparr>"] by simp
qed

theorem budget_not_overdrawn_witness:
  "\<exists>b. disk_budget_bytes demo_policy = Some b"
  using budget_not_overdrawn [of demo_ids "\<lambda>_. Some 0" demo_listing demo_policy 9 "\<lambda>_. demo_probe" "[]" 1 "[]",
      OF _ refl refl] demo_sweep
  by auto

section \<open>Measuring\<close>

text \<open>The bytes and the entries of a tree, as far as it can be read.\<close>

fun fs_bytes :: "fs_entry \<Rightarrow> nat" where
  "fs_bytes (FileEntry n) = unat n"
| "fs_bytes BadEntry = 0"
| "fs_bytes (DirEntry None) = 0"
| "fs_bytes (DirEntry (Some es)) = sum_list (map fs_bytes es)"

fun fs_count :: "fs_entry \<Rightarrow> nat" where
  "fs_count (DirEntry (Some es)) = 1 + sum_list (map fs_count es)"
| "fs_count _ = 1"

definition dir_bytes :: "fs_entry list option \<Rightarrow> nat" where
  "dir_bytes d = (case d of None \<Rightarrow> 0 | Some es \<Rightarrow> sum_list (map fs_bytes es))"

definition dir_count :: "fs_entry list option \<Rightarrow> nat" where
  "dir_count d = (case d of None \<Rightarrow> 0 | Some es \<Rightarrow> sum_list (map fs_count es))"

definition u64_max :: nat where
  "u64_max = 2 ^ 64 - 1"

lemma unat_saturating_add: "unat (saturating_add a b) = min u64_max (unat a + unat b)"
proof (cases "unat a + unat b < 2 ^ 64")
  case True
  then have "unat (a + b) = unat a + unat b" by (simp add: unat_word_ariths)
  with True show ?thesis by (simp add: saturating_add_def u64_max_def)
next
  case False
  moreover have "unat (- 1 :: 64 word) = u64_max" by (simp add: u64_max_def unsigned_minus_1_eq_mask mask_eq_exp_minus_1)
  ultimately show ?thesis by (simp add: saturating_add_def u64_max_def)
qed

lemma dir_measure [simp]:
  "dir_count None = 0" "dir_count (Some es) = sum_list (map fs_count es)"
  "dir_bytes None = 0" "dir_bytes (Some es) = sum_list (map fs_bytes es)"
  by (simp_all add: dir_count_def dir_bytes_def)

lemma entry_measure:
  "fs_bytes (DirEntry d) = dir_bytes d" "fs_count (DirEntry d) = 1 + dir_count d"
  by (cases d; simp add: dir_bytes_def dir_count_def)+

lemma size_entries_measure:
  assumes "seen + sum_list (map fs_count es) + sum_list (map dir_count stack) \<le> max_size_entries"
    and "unat tot = min u64_max n"
  shows "\<exists>tot' seen' stack'. size_entries es tot seen stack = Inr (tot', seen', stack')
    \<and> seen' + sum_list (map dir_count stack') = seen + sum_list (map fs_count es) + sum_list (map dir_count stack)
    \<and> (\<exists>n'. unat tot' = min u64_max n' \<and>
         n' + sum_list (map dir_bytes stack') = n + sum_list (map fs_bytes es) + sum_list (map dir_bytes stack))"
  using assms
proof (induction es arbitrary: tot seen stack n)
  case (Cons e es)
  show ?case
  proof (cases e)
    case (FileEntry k)
    have "unat (saturating_add tot k) = min u64_max (n + unat k)"
      using Cons.prems(2) by (simp add: unat_saturating_add)
    with Cons.IH [of "Suc seen" stack "saturating_add tot k" "n + unat k"] Cons.prems(1) FileEntry
    show ?thesis by (auto simp: add.assoc)
  next
    case (DirEntry d)
    have "Suc seen + sum_list (map fs_count es) + sum_list (map dir_count (stack @ [d])) \<le> max_size_entries"
      using Cons.prems(1) DirEntry by (simp add: entry_measure)
    from Cons.IH [OF this Cons.prems(2)] obtain tot' seen' stack' n' where
      s: "size_entries es tot (Suc seen) (stack @ [d]) = Inr (tot', seen', stack')"
      and c: "seen' + sum_list (map dir_count stack')
        = Suc seen + sum_list (map fs_count es) + sum_list (map dir_count (stack @ [d]))"
      and n': "unat tot' = min u64_max n'"
      and b: "n' + sum_list (map dir_bytes stack')
        = n + sum_list (map fs_bytes es) + sum_list (map dir_bytes (stack @ [d]))" by blast
    have "size_entries (e # es) tot seen stack = Inr (tot', seen', stack')"
      using s DirEntry Cons.prems(1) by (simp add: entry_measure)
    moreover have "seen' + sum_list (map dir_count stack')
        = seen + sum_list (map fs_count (e # es)) + sum_list (map dir_count stack)"
      using c DirEntry by (simp add: entry_measure)
    moreover have "n' + sum_list (map dir_bytes stack')
        = n + sum_list (map fs_bytes (e # es)) + sum_list (map dir_bytes stack)"
      using b DirEntry by (simp add: entry_measure)
    ultimately show ?thesis using n' by blast
  next
    case BadEntry
    with Cons.IH [of "Suc seen" stack tot n] Cons.prems show ?thesis by (auto simp: add.assoc)
  qed
qed auto

lemma tree_size_loop_measure:
  assumes "seen + sum_list (map dir_count stack) \<le> max_size_entries" and "unat tot = min u64_max n"
  shows "unat (tree_size_loop stack tot seen) = min u64_max (n + sum_list (map dir_bytes stack))"
  using assms
proof (induction stack tot seen arbitrary: n rule: tree_size_loop.induct)
  case (1 stack tot seen)
  show ?case
  proof (cases "stack = []")
    case True
    with "1.prems" show ?thesis by (simp add: tree_size_loop.simps [of "[]"])
  next
    case False
    then have st: "stack = butlast stack @ [last stack]" by simp
    have sums: "sum_list (map dir_count stack) = sum_list (map dir_count (butlast stack)) + dir_count (last stack)"
      "sum_list (map dir_bytes stack) = sum_list (map dir_bytes (butlast stack)) + dir_bytes (last stack)"
      by (subst st, simp)+
    show ?thesis
    proof (cases "last stack")
      case None
      with "1.IH"(1) [OF False None] "1.prems" False sums show ?thesis
        by (simp add: tree_size_loop.simps [of stack])
    next
      case (Some es)
      have "seen + sum_list (map fs_count es) + sum_list (map dir_count (butlast stack)) \<le> max_size_entries"
        using "1.prems"(1) sums(1) Some by simp
      from size_entries_measure [OF this "1.prems"(2)] obtain tot' seen' stack' n' where
        s: "size_entries es tot seen (butlast stack) = Inr (tot', seen', stack')"
        and c: "seen' + sum_list (map dir_count stack')
          = seen + sum_list (map fs_count es) + sum_list (map dir_count (butlast stack))"
        and n': "unat tot' = min u64_max n'"
        and b: "n' + sum_list (map dir_bytes stack')
          = n + sum_list (map fs_bytes es) + sum_list (map dir_bytes (butlast stack))" by blast
      have "unat (tree_size_loop stack' tot' seen') = min u64_max (n' + sum_list (map dir_bytes stack'))"
        by (rule "1.IH"(2) [OF False Some s refl refl]) (use c n' "1.prems"(1) sums(1) Some in auto)
      with s b Some False sums(2) show ?thesis
        by (simp add: tree_size_loop.simps [of stack] add.assoc add.commute add.left_commute)
    qed
  qed
qed

text \<open>The measured size is right: for a tree within the entry bound, \<open>tree_size\<close> is the sum of
  the lengths of the files in its readable directories, saturating at the largest 64-bit
  number.\<close>

theorem tree_size_correct:
  assumes "dir_count dir \<le> max_size_entries"
  shows "unat (tree_size dir) = min u64_max (dir_bytes dir)"
  using tree_size_loop_measure [of 0 "[dir]" 0 0] assms by (simp add: tree_size_def)

theorem tree_size_correct_witness:
  "unat (tree_size (Some [FileEntry 7, DirEntry (Some [FileEntry 5, BadEntry]), DirEntry None])) = 12"
  using tree_size_correct [of "Some [FileEntry 7, DirEntry (Some [FileEntry 5, BadEntry]), DirEntry None]"]
  by (simp add: max_size_entries_def u64_max_def)

end
