(* ===== verification/Address_Pools.thy ===== *)
theory Address_Pools
  imports Rust_Strings
begin

text \<open>
  Reclaiming Docker address pools and the census of a node's runtimes
  (\<open>runtime-provider-core/src/allocator/address_pools.rs\<close> and \<open>census.rs\<close>).

  The Docker CLI is an argument: a function from a command line and the state of the node to its
  answer and the new state. The model keeps the list of the commands it ran. \<open>Uuid::try_parse\<close> and
  \<open>Uuid::parse_str\<close> are arguments too, and so is what the controller answers about a space.
\<close>

section \<open>Names\<close>

definition address_pools_exhausted :: string where
  "address_pools_exhausted = ''all predefined address pools have been fully subnetted''"

definition is_address_pool_exhaustion :: "string \<Rightarrow> bool" where
  "is_address_pool_exhaustion text \<longleftrightarrow> contains_str (to_ascii_lowercase text) address_pools_exhausted"

definition is_hex :: "string \<Rightarrow> nat \<Rightarrow> bool" where
  "is_hex value len \<longleftrightarrow> length value = len \<and> list_all is_ascii_hexdigit value"

definition runtime_compose_project :: "(string \<Rightarrow> uuid option) \<Rightarrow> string \<Rightarrow> string \<Rightarrow> uuid option" where
  "runtime_compose_project try_parse pre name =
     (case strip_prefix name pre of
        None \<Rightarrow> None
      | Some rest \<Rightarrow>
          (case split_once (CHR ''-'') rest of
             None \<Rightarrow> None
           | Some (simple, runtime) \<Rightarrow>
               if \<not> is_hex simple 32 \<or> \<not> is_hex runtime 8 then None else try_parse simple))"

definition runtime_network_project :: "(string \<Rightarrow> uuid option) \<Rightarrow> string \<Rightarrow> string \<Rightarrow> string option" where
  "runtime_network_project try_parse pre name =
     (case strip_suffix name ''_default'' of
        None \<Rightarrow> None
      | Some project \<Rightarrow> map_option (\<lambda>_. project) (runtime_compose_project try_parse pre project))"

section \<open>Which spaces are gone\<close>

datatype space_answer =
    SpaceError string
  | SpaceResponse nat "json option" \<comment> \<open>status and body, if the body is JSON\<close>

definition space_is_gone :: "space_answer \<Rightarrow> bool" where
  "space_is_gone a =
     (case a of
        SpaceError _ \<Rightarrow> False
      | SpaceResponse status body \<Rightarrow>
          if status = 404 \<or> status = 410 then True
          else 200 \<le> status \<and> status < 300 \<and>
               (case Option.bind (Option.bind body (\<lambda>b. value_get b ''status'')) as_str of
                  Some s \<Rightarrow> eq_ignore_ascii_case s ''deleted''
                | None \<Rightarrow> False))"

definition controller_gone :: "(uuid \<Rightarrow> space_answer) \<Rightarrow> uuid list \<Rightarrow> uuid list" where
  "controller_gone ask ids = filter (\<lambda>i. space_is_gone (ask i)) ids"

section \<open>Docker\<close>

datatype docker_result =
    DockerError string
  | DockerOutput bool string \<comment> \<open>success and standard output\<close>

type_synonym 'w docker_cli = "string list \<Rightarrow> 'w \<Rightarrow> docker_result \<times> 'w"

record 'w node =
  nd_world :: 'w
  nd_log :: "string list list"

definition docker :: "'w docker_cli \<Rightarrow> string list \<Rightarrow> 'w node \<Rightarrow> docker_result \<times> 'w node" where
  "docker cli args nd =
     (let (r, w) = cli args (nd_world nd) in (r, \<lparr>nd_world = w, nd_log = nd_log nd @ [args]\<rparr>))"

definition run_listing :: "'w docker_cli \<Rightarrow> string list \<Rightarrow> 'w node \<Rightarrow> string list option \<times> 'w node" where
  "run_listing cli args nd =
     (case docker cli args nd of
        (DockerOutput True out, nd') \<Rightarrow> (Some (trimmed_lines out), nd')
      | (_, nd') \<Rightarrow> (None, nd'))"

definition succeeded :: "docker_result \<Rightarrow> bool" where
  "succeeded r = (case r of DockerOutput ok _ \<Rightarrow> ok | DockerError _ \<Rightarrow> False)"

section \<open>The reclaim\<close>

record reclaimed =
  rc_projects :: "string list"
  rc_networks :: "string list"

definition ps_args :: "string list" where
  "ps_args = [''ps'', ''-a'', ''--filter'', ''label=com.docker.compose.project'', ''--format'',
     ''{{.ID}}'' @ CHR 0x09 # ''{{.Label '' @ CHR 0x22 # ''com.docker.compose.project'' @ CHR 0x22 # ''}}'']"

definition network_ls_args :: "string \<Rightarrow> string list" where
  "network_ls_args pre = [''network'', ''ls'', ''--filter'', ''name='' @ pre, ''--format'', ''{{.Name}}'']"

definition network_inspect_args :: "string \<Rightarrow> string list" where
  "network_inspect_args n = [''network'', ''inspect'', ''--format'', ''{{len .Containers}}'', n]"

definition network_rm_args :: "string \<Rightarrow> string list" where
  "network_rm_args n = [''network'', ''rm'', n]"

definition rm_args :: "string list \<Rightarrow> string list" where
  "rm_args containers = [''rm'', ''-f''] @ containers"

text \<open>One line of the container listing: its container id and compose project, when the
  project is a runtime that is not the one being started.\<close>

definition listed_container ::
    "(string \<Rightarrow> uuid option) \<Rightarrow> string \<Rightarrow> string \<Rightarrow> string \<Rightarrow> (string \<times> string \<times> uuid) option" where
  "listed_container try_parse pre starting line =
     (case split_once (CHR 0x09) line of
        None \<Rightarrow> None
      | Some (cid, project) \<Rightarrow>
          let cid = trim_str cid; project = trim_str project in
          if cid = [] \<or> project = starting then None
          else map_option (\<lambda>u. (cid, project, u)) (runtime_compose_project try_parse pre project))"

definition add_container ::
    "(string \<Rightarrow> uuid option) \<Rightarrow> string \<Rightarrow> string \<Rightarrow> string \<Rightarrow>
     (string \<times> uuid \<times> string list) list \<Rightarrow> (string \<times> uuid \<times> string list) list" where
  "add_container try_parse pre starting line projects =
     (case listed_container try_parse pre starting line of
        None \<Rightarrow> projects
      | Some (cid, project, u) \<Rightarrow>
          btree_entry project
            (\<lambda>old. case old of None \<Rightarrow> (u, [cid]) | Some (v, cids) \<Rightarrow> (v, cids @ [cid])) projects)"

definition remove_project ::
    "'w docker_cli \<Rightarrow> uuid list \<Rightarrow> string \<times> uuid \<times> string list \<Rightarrow> reclaimed \<times> 'w node \<Rightarrow> reclaimed \<times> 'w node" where
  "remove_project cli gone entry st =
     (let (project, u, containers) = entry; (rc, nd) = st in
      if u \<notin> set gone then st
      else case docker cli (rm_args containers) nd of
        (r, nd') \<Rightarrow>
          (if succeeded r then rc\<lparr>rc_projects := rc_projects rc @ [project]\<rparr> else rc, nd'))"

definition remove_network ::
    "'w docker_cli \<Rightarrow> (string \<Rightarrow> uuid option) \<Rightarrow> string \<Rightarrow> string \<Rightarrow> string \<Rightarrow>
     reclaimed \<times> 'w node \<Rightarrow> reclaimed \<times> 'w node" where
  "remove_network cli try_parse pre starting network st =
     (let (rc, nd) = st in
      case runtime_network_project try_parse pre network of
        None \<Rightarrow> st
      | Some project \<Rightarrow>
          if project = starting then st
          else
            let (r, nd) = docker cli (network_inspect_args network) nd;
                attached = (case r of
                   DockerOutput True out \<Rightarrow>
                     (case trimmed_lines out of [] \<Rightarrow> None | l # _ \<Rightarrow> parse_usize l)
                 | _ \<Rightarrow> None)
            in if attached \<noteq> Some 0 then (rc, nd)
               else
                 let (r, nd) = docker cli (network_rm_args network) nd
                 in (if succeeded r then rc\<lparr>rc_networks := rc_networks rc @ [network]\<rparr> else rc, nd))"

definition reclaim_runtime_address_space ::
    "'w docker_cli \<Rightarrow> (string \<Rightarrow> uuid option) \<Rightarrow> string \<Rightarrow> string \<Rightarrow> (uuid list \<Rightarrow> uuid list) \<Rightarrow> 'w node \<Rightarrow>
     reclaimed option \<times> 'w node" where
  "reclaim_runtime_address_space cli try_parse pre starting spaces nd =
     (case run_listing cli ps_args nd of
        (None, nd) \<Rightarrow> (None, nd)
      | (Some ls, nd) \<Rightarrow>
          let projects = fold (add_container try_parse pre starting) ls [];
              space_ids = sort_dedup (map (\<lambda>(_, u, _). u) projects);
              gone = (if space_ids = [] then [] else spaces space_ids);
              (rc, nd) = fold (remove_project cli gone) projects
                           (\<lparr>rc_projects = [], rc_networks = []\<rparr>, nd)
          in case run_listing cli (network_ls_args pre) nd of
               (None, nd) \<Rightarrow> (None, nd)
             | (Some networks, nd) \<Rightarrow>
                 (let (rc, nd) = fold (remove_network cli try_parse pre starting) networks (rc, nd)
                  in (Some rc, nd)))"

section \<open>The census\<close>

record census_container =
  cs_compose_project :: string
  cs_project_id :: "uuid option"
  cs_runtime_id :: "uuid option"
  cs_lease_id :: "uuid option"
  cs_running :: bool

record container_facts =
  fa_compose_project :: string
  fa_running :: bool
  fa_env :: "string list"

definition project_of_compose_name :: "(string \<Rightarrow> uuid option) \<Rightarrow> string \<Rightarrow> string \<Rightarrow> uuid option" where
  "project_of_compose_name try_parse pre name =
     Option.bind (strip_prefix name pre) (\<lambda>rest.
     Option.bind (split_once (CHR ''-'') rest) (\<lambda>(simple, _). try_parse simple))"

text \<open>\<open>Iterator::find_map\<close>.\<close>

fun find_map :: "('a \<Rightarrow> 'b option) \<Rightarrow> 'a list \<Rightarrow> 'b option" where
  "find_map f [] = None"
| "find_map f (x # xs) = (case f x of Some y \<Rightarrow> Some y | None \<Rightarrow> find_map f xs)"

definition env_uuid :: "(string \<Rightarrow> uuid option) \<Rightarrow> string list \<Rightarrow> string list \<Rightarrow> uuid option" where
  "env_uuid parse env keys =
     find_map (\<lambda>key.
         Option.bind (find_map (\<lambda>line. strip_prefix (trim_str line) (key @ ''='')) env)
           (\<lambda>value. parse (trim_str value)))
       keys"

definition or_else :: "'a option \<Rightarrow> 'a option \<Rightarrow> 'a option" where
  "or_else a b = (case a of Some _ \<Rightarrow> a | None \<Rightarrow> b)"

definition census_add ::
    "(string \<Rightarrow> uuid option) \<Rightarrow> string \<Rightarrow> container_facts \<Rightarrow> (string \<times> census_container) list \<Rightarrow>
     (string \<times> census_container) list" where
  "census_add parse pre fc grouped =
     (if \<not> starts_with (fa_compose_project fc) pre then grouped
      else
        btree_entry (fa_compose_project fc)
          (\<lambda>old.
             let entry = (case old of
                   Some e \<Rightarrow> e
                 | None \<Rightarrow> \<lparr>cs_compose_project = fa_compose_project fc,
                           cs_project_id = project_of_compose_name parse pre (fa_compose_project fc),
                           cs_runtime_id = None, cs_lease_id = None, cs_running = False\<rparr>)
             in entry\<lparr>
                  cs_running := cs_running entry \<or> fa_running fc,
                  cs_project_id := or_else (env_uuid parse (fa_env fc) [''SPACE_ID'', ''PROJECT_ID'']) (cs_project_id entry),
                  cs_runtime_id := or_else (env_uuid parse (fa_env fc) [''RUNTIME_ID'']) (cs_runtime_id entry),
                  cs_lease_id := or_else (env_uuid parse (fa_env fc) [''RUNTIME_LEASE_ID'', ''ORIGIN_LEASE_ID''])
                                   (cs_lease_id entry)\<rparr>)
          grouped)"

definition group_containers ::
    "(string \<Rightarrow> uuid option) \<Rightarrow> string \<Rightarrow> container_facts list \<Rightarrow> census_container list" where
  "group_containers parse pre facts = map snd (fold (census_add parse pre) facts [])"

section \<open>What a reclaim may touch\<close>

definition runtime_name :: "string \<Rightarrow> string \<Rightarrow> bool" where
  "runtime_name pre name \<longleftrightarrow>
     (\<exists>simple runtime. name = pre @ simple @ ''-'' @ runtime \<and> is_hex simple 32 \<and> is_hex runtime 8)"

lemma runtime_compose_project_shape:
  "runtime_compose_project try_parse pre name = Some u \<Longrightarrow> runtime_name pre name"
  by (auto simp: runtime_compose_project_def runtime_name_def strip_prefix_Some split_once_Some
      split: option.splits if_splits) blast

text \<open>The commands a reclaim runs, given the container lines it read and the spaces reported gone.\<close>

definition allowed_command ::
    "(string \<Rightarrow> uuid option) \<Rightarrow> string \<Rightarrow> string \<Rightarrow> string list \<Rightarrow> uuid list \<Rightarrow> string list \<Rightarrow> bool" where
  "allowed_command try_parse pre starting ls gone cmd \<longleftrightarrow>
     cmd = ps_args \<or> cmd = network_ls_args pre
     \<or> (\<exists>n. cmd = network_inspect_args n)
     \<or> (\<exists>project u containers. cmd = rm_args containers \<and> runtime_name pre project
          \<and> project \<noteq> starting \<and> u \<in> set gone
          \<and> runtime_compose_project try_parse pre project = Some u
          \<and> (\<forall>cid \<in> set containers. \<exists>line \<in> set ls.
               listed_container try_parse pre starting line = Some (cid, project, u)))
     \<or> (\<exists>project. cmd = network_rm_args (project @ ''_default'') \<and> runtime_name pre project
          \<and> project \<noteq> starting)"

lemma docker_log: "docker cli args nd = (r, nd') \<Longrightarrow> nd_log nd' = nd_log nd @ [args]"
  by (auto simp: docker_def Let_def split: prod.splits)

lemma run_listing_log: "run_listing cli args nd = (r, nd') \<Longrightarrow> nd_log nd' = nd_log nd @ [args]"
  using docker_log by (auto simp: run_listing_def split: prod.splits docker_result.splits bool.splits)

definition projects_ok ::
    "(string \<Rightarrow> uuid option) \<Rightarrow> string \<Rightarrow> string \<Rightarrow> string list \<Rightarrow> (string \<times> uuid \<times> string list) list \<Rightarrow> bool" where
  "projects_ok try_parse pre starting ls projects \<longleftrightarrow>
     btree_sorted projects \<and>
     (\<forall>project u containers. map_of projects project = Some (u, containers) \<longrightarrow>
        project \<noteq> starting \<and> runtime_compose_project try_parse pre project = Some u
        \<and> (\<forall>cid \<in> set containers. \<exists>line \<in> set ls.
             listed_container try_parse pre starting line = Some (cid, project, u)))"

lemma listed_container_Some:
  "listed_container try_parse pre starting line = Some (cid, project, u) \<Longrightarrow>
   project \<noteq> starting \<and> runtime_compose_project try_parse pre project = Some u"
  by (auto simp: listed_container_def Let_def split: option.splits if_splits)

lemma add_container_ok:
  assumes ok: "projects_ok try_parse pre starting ls projects" and "line \<in> set ls"
  shows "projects_ok try_parse pre starting ls (add_container try_parse pre starting line projects)"
proof (cases "listed_container try_parse pre starting line")
  case None
  with ok show ?thesis by (simp add: add_container_def)
next
  case (Some r)
  obtain cid project u where r: "r = (cid, project, u)" by (cases r)
  let ?f = "\<lambda>old. case old of None \<Rightarrow> (u, [cid]) | Some (v, cids) \<Rightarrow> (v, cids @ [cid])"
  have l: "listed_container try_parse pre starting line = Some (cid, project, u)" using Some r by simp
  note lc = listed_container_Some [OF l]
  have s: "btree_sorted projects" using ok by (simp add: projects_ok_def)
  have e: "add_container try_parse pre starting line projects = btree_entry project ?f projects"
    by (simp add: add_container_def l)
  show ?thesis
    unfolding projects_ok_def e
  proof (intro conjI allI impI)
    show "btree_sorted (btree_entry project ?f projects)" by (rule btree_sorted_entry [OF s])
    fix q v cs
    assume q: "map_of (btree_entry project ?f projects) q = Some (v, cs)"
    show "q \<noteq> starting" "runtime_compose_project try_parse pre q = Some v"
      "\<forall>cid \<in> set cs. \<exists>line \<in> set ls. listed_container try_parse pre starting line = Some (cid, q, v)"
      using q lc l assms(2) ok unfolding map_of_btree_entry [OF s]
      by (fastforce simp: projects_ok_def split: if_splits option.splits prod.splits)+
  qed
qed

lemma fold_add_container_ok:
  "projects_ok try_parse pre starting ls (fold (add_container try_parse pre starting) ls [])"
proof -
  have "projects_ok try_parse pre starting ls (fold (add_container try_parse pre starting) ks ps)"
    if "set ks \<subseteq> set ls" "projects_ok try_parse pre starting ls ps" for ks ps
    using that by (induction ks arbitrary: ps) (auto intro: add_container_ok)
  from this [of ls "[]"] show ?thesis by (simp add: projects_ok_def)
qed

text \<open>A loop whose rounds only run allowed commands only runs allowed commands.\<close>

lemma fold_log:
  assumes "\<And>x st. x \<in> set xs \<Longrightarrow> \<exists>cs. nd_log (snd (f x st)) = nd_log (snd st) @ cs \<and> list_all P cs"
  shows "\<exists>cs. nd_log (snd (fold f xs st)) = nd_log (snd st) @ cs \<and> list_all P cs"
  using assms
proof (induction xs arbitrary: st)
  case (Cons x xs)
  obtain cs where "nd_log (snd (f x st)) = nd_log (snd st) @ cs" "list_all P cs"
    using Cons.prems [of x st] by auto
  moreover obtain ds where "nd_log (snd (fold f xs (f x st))) = nd_log (snd (f x st)) @ ds" "list_all P ds"
    using Cons.IH [of "f x st"] Cons.prems by auto
  ultimately show ?case by auto
qed simp

lemma remove_project_log:
  assumes "projects_ok try_parse pre starting ls projects" and "x \<in> set projects"
  shows "\<exists>cs. nd_log (snd (remove_project cli gone x st)) = nd_log (snd st) @ cs
    \<and> list_all (allowed_command try_parse pre starting ls gone) cs"
proof -
  obtain project u containers where x: "x = (project, u, containers)" by (cases x)
  show ?thesis
  proof (cases "u \<in> set gone")
    case False
    then show ?thesis by (intro exI [of _ "[]"]) (simp add: remove_project_def x case_prod_beta)
  next
    case True
    have "keys_distinct projects" using assms(1) btree_sorted_keys by (auto simp: projects_ok_def)
    then have "map_of projects project = Some (u, containers)"
      using assms(2) unfolding x by (rule map_of_is_SomeI)
    with assms(1) have "project \<noteq> starting" and u: "runtime_compose_project try_parse pre project = Some u"
      and "\<forall>cid \<in> set containers. \<exists>line \<in> set ls.
         listed_container try_parse pre starting line = Some (cid, project, u)"
      unfolding projects_ok_def by blast+
    with True runtime_compose_project_shape [OF u]
    have "allowed_command try_parse pre starting ls gone (rm_args containers)"
      unfolding allowed_command_def by metis
    moreover have "nd_log (snd (remove_project cli gone x st)) = nd_log (snd st) @ [rm_args containers]"
      using True docker_log [of cli "rm_args containers" "snd st"]
      by (cases "docker cli (rm_args containers) (snd st)") (simp add: remove_project_def x case_prod_beta)
    ultimately show ?thesis by auto
  qed
qed

lemma remove_network_log:
  "\<exists>cs. nd_log (snd (remove_network cli try_parse pre starting network st)) = nd_log (snd st) @ cs
    \<and> list_all (allowed_command try_parse pre starting ls gone) cs"
proof (cases "runtime_network_project try_parse pre network")
  case None
  then show ?thesis by (auto simp: remove_network_def split: prod.splits)
next
  case (Some project)
  then have n: "network = project @ ''_default''" "runtime_name pre project"
    using runtime_compose_project_shape
    by (auto simp: runtime_network_project_def strip_suffix_Some split: option.splits)
  show ?thesis
  proof (cases "project = starting")
    case True
    with Some show ?thesis by (auto simp: remove_network_def split: prod.splits)
  next
    case False
    have ins: "allowed_command try_parse pre starting ls gone (network_inspect_args network)"
      by (auto simp: allowed_command_def)
    have rm: "allowed_command try_parse pre starting ls gone (network_rm_args network)"
      using n False by (auto simp: allowed_command_def)
    obtain rc nd where st: "st = (rc, nd)" by (cases st)
    obtain r nd1 where d1: "docker cli (network_inspect_args network) nd = (r, nd1)" by (metis prod.collapse)
    obtain r2 nd2 where d2: "docker cli (network_rm_args network) nd1 = (r2, nd2)" by (metis prod.collapse)
    have "nd_log (snd (remove_network cli try_parse pre starting network st))
        \<in> {nd_log nd @ [network_inspect_args network],
           nd_log nd @ [network_inspect_args network, network_rm_args network]}"
      using docker_log [OF d1] docker_log [OF d2] Some False
      by (simp add: remove_network_def st d1 d2 Let_def)
    with ins rm st show ?thesis by auto
  qed
qed

lemma reclaim_networks_log:
  assumes "(case run_listing cli (network_ls_args pre) nd2 of
         (None, nd) \<Rightarrow> (None, nd)
       | (Some networks, nd) \<Rightarrow>
           (let (rc, nd) = fold (remove_network cli try_parse pre starting) networks (rc0, nd)
            in (Some rc, nd))) = (result, nd')"
  shows "\<exists>cs. nd_log nd' = nd_log nd2 @ cs \<and> list_all (allowed_command try_parse pre starting ls gone) cs"
proof -
  obtain r3 nd3 where l3: "run_listing cli (network_ls_args pre) nd2 = (r3, nd3)" by (metis prod.collapse)
  note log3 = run_listing_log [OF l3]
  have ok: "allowed_command try_parse pre starting ls gone (network_ls_args pre)" by (simp add: allowed_command_def)
  show ?thesis
  proof (cases r3)
    case None
    with assms l3 log3 ok show ?thesis by auto
  next
    case (Some networks)
    let ?fin = "fold (remove_network cli try_parse pre starting) networks (rc0, nd3)"
    obtain cs4 where log4: "nd_log (snd ?fin) = nd_log nd3 @ cs4"
      "list_all (allowed_command try_parse pre starting ls gone) cs4"
      using fold_log [of networks "remove_network cli try_parse pre starting"
          "allowed_command try_parse pre starting ls gone" "(rc0, nd3)"] remove_network_log by force
    from assms l3 Some have "nd' = snd ?fin" by (simp add: case_prod_beta)
    with log3 log4 ok show ?thesis by (intro exI [of _ "network_ls_args pre # cs4"]) simp
  qed
qed

text \<open>A reclaim touches nothing but runtimes of spaces that are gone and unused runtime networks:
  every command it runs is a listing or an inspection, or removes containers that the listing shows
  in a compose project of exactly the runtime shape, not the one being started, whose space was
  reported gone, or removes a network of exactly the runtime shape, not that of the one
  being started.\<close>

theorem reclaim_touches_only_runtimes:
  assumes "reclaim_runtime_address_space cli try_parse pre starting spaces nd = (result, nd')"
  shows "\<exists>cmds ls ids. nd_log nd' = nd_log nd @ cmds
    \<and> list_all (allowed_command try_parse pre starting ls (spaces ids)) cmds"
proof -
  obtain r1 nd1 where l1: "run_listing cli ps_args nd = (r1, nd1)" by (metis prod.collapse)
  note log1 = run_listing_log [OF l1]
  show ?thesis
  proof (cases r1)
    case None
    with assms l1 log1 show ?thesis
      by (auto simp: reclaim_runtime_address_space_def allowed_command_def intro!: exI [of _ "[ps_args]"])
  next
    case (Some ls)
    define projects where "projects = fold (add_container try_parse pre starting) ls []"
    define ids where "ids = sort_dedup (map (\<lambda>(_, u, _). u) projects)"
    define gone where "gone = (if ids = [] then [] else spaces ids)"
    let ?ok = "allowed_command try_parse pre starting ls"
    have weaken: "list_all (?ok (spaces ids)) cs" if "list_all (?ok gone) cs" for cs
      using that unfolding list_all_iff allowed_command_def gone_def by (cases "ids = []") fastforce+
    have ok: "projects_ok try_parse pre starting ls projects"
      unfolding projects_def by (rule fold_add_container_ok)
    obtain rc0 nd2 where st: "fold (remove_project cli gone) projects (\<lparr>rc_projects = [], rc_networks = []\<rparr>, nd1) = (rc0, nd2)"
      by (metis prod.collapse)
    obtain cs2 where log2: "nd_log nd2 = nd_log nd1 @ cs2" "list_all (?ok gone) cs2"
      using fold_log [of projects "remove_project cli gone" "?ok gone" "(\<lparr>rc_projects = [], rc_networks = []\<rparr>, nd1)"]
        remove_project_log [OF ok] unfolding st by force
    from assms obtain cs3 where log3: "nd_log nd' = nd_log nd2 @ cs3" "list_all (?ok gone) cs3"
      unfolding reclaim_runtime_address_space_def l1 Some prod.case option.case Let_def
        projects_def [symmetric] ids_def [symmetric] gone_def [symmetric] st
      by (blast dest: reclaim_networks_log [unfolded Let_def, where ls = ls and gone = gone])
    have "list_all (?ok (spaces ids)) (ps_args # cs2 @ cs3)"
      using weaken [of "ps_args # cs2 @ cs3"] log2 log3 by (simp add: allowed_command_def)
    with log1 log2 log3 show ?thesis by (metis append.assoc append_Cons append_Nil)
  qed
qed

definition demo_cli :: "nat docker_cli" where
  "demo_cli args w =
     (if args = ps_args
      then (DockerOutput True (''c1'' @ CHR 0x09 # ''rt-'' @ replicate 32 (CHR ''a'') @ ''-'' @ replicate 8 (CHR ''b'')), w)
      else (DockerOutput True ''0'', w + 1))"

theorem reclaim_touches_only_runtimes_witness:
  "\<exists>result nd' cmds ls ids.
     reclaim_runtime_address_space demo_cli (\<lambda>_. Some 7) ''rt-'' ''rt-x'' (\<lambda>ids. ids) \<lparr>nd_world = 0, nd_log = []\<rparr> = (result, nd')
     \<and> nd_log nd' = cmds \<and> list_all (allowed_command (\<lambda>_. Some 7) ''rt-'' ''rt-x'' ls ids) cmds"
proof -
  obtain result nd' where e: "reclaim_runtime_address_space demo_cli (\<lambda>_. Some 7) ''rt-'' ''rt-x'' (\<lambda>ids. ids)
      \<lparr>nd_world = 0, nd_log = []\<rparr> = (result, nd')" by (metis prod.collapse)
  from reclaim_touches_only_runtimes [OF e] e show ?thesis by auto
qed

section \<open>Vouching for spaces\<close>

text \<open>A space the controller cannot vouch for keeps its runtime: the spaces reported gone are
  among those asked about, and each of them was answered with status 404 or 410 or with a success
  whose body says \<open>deleted\<close>; an error, any other status and a body that cannot be read leave
  the space alone.\<close>

theorem gone_only_when_told:
  "u \<in> set (controller_gone ask ids) \<longleftrightarrow> u \<in> set ids \<and>
     (\<exists>status body. ask u = SpaceResponse status body \<and>
        (status = 404 \<or> status = 410 \<or>
         (200 \<le> status \<and> status < 300 \<and>
          (\<exists>b s. body = Some b \<and> value_get b ''status'' = Some (JStr s) \<and> to_ascii_lowercase s = ''deleted''))))"
proof -
  have d: "to_ascii_lowercase ''deleted'' = ''deleted''" by code_simp
  have str: "as_str v = Some s \<longleftrightarrow> v = JStr s" for v s by (cases v) auto
  have "space_is_gone a \<longleftrightarrow> (\<exists>status body. a = SpaceResponse status body \<and>
        (status = 404 \<or> status = 410 \<or>
         (200 \<le> status \<and> status < 300 \<and>
          (\<exists>b s. body = Some b \<and> value_get b ''status'' = Some (JStr s) \<and> to_ascii_lowercase s = ''deleted''))))" for a
    by (cases a) (auto simp: space_is_gone_def bind_eq_Some_conv str eq_ignore_ascii_case_def d split: option.splits)
  then show ?thesis by (simp add: controller_gone_def)
qed

section \<open>The census\<close>

lemma census_add_sorted: "btree_sorted m \<Longrightarrow> btree_sorted (census_add parse pre fc m)"
  by (simp add: census_add_def btree_sorted_entry)

definition census_ok :: "string \<Rightarrow> container_facts list \<Rightarrow> (string \<times> census_container) list \<Rightarrow> bool" where
  "census_ok pre facts m \<longleftrightarrow>
     btree_sorted m \<and>
     (\<forall>name e. map_of m name = Some e \<longrightarrow> cs_compose_project e = name \<and>
        (cs_running e \<longleftrightarrow> (\<exists>fc \<in> set facts. fa_compose_project fc = name \<and> fa_running fc)))
     \<and> (\<forall>name. (\<exists>e. map_of m name = Some e) \<longleftrightarrow>
          starts_with name pre \<and> (\<exists>fc \<in> set facts. fa_compose_project fc = name))"

lemma census_add_ok:
  assumes "census_ok pre facts m"
  shows "census_ok pre (facts @ [fc]) (census_add parse pre fc m)"
proof (cases "starts_with (fa_compose_project fc) pre")
  case False
  with assms show ?thesis by (auto simp: census_ok_def census_add_def)
next
  case True
  have s: "btree_sorted m" using assms by (simp add: census_ok_def)
  let ?k = "fa_compose_project fc"
  have none: "\<not> (\<exists>f \<in> set facts. fa_compose_project f = ?k)" if "map_of m ?k = None"
    using assms that True unfolding census_ok_def by (metis option.distinct(1))
  show ?thesis
    unfolding census_ok_def
  proof (intro conjI allI impI)
    show "btree_sorted (census_add parse pre fc m)" by (rule census_add_sorted [OF s])
    fix name
    show "(\<exists>e. map_of (census_add parse pre fc m) name = Some e) \<longleftrightarrow>
        starts_with name pre \<and> (\<exists>f \<in> set (facts @ [fc]). fa_compose_project f = name)"
      using assms True by (auto simp: census_add_def map_of_btree_entry [OF s] census_ok_def)
    fix e assume e: "map_of (census_add parse pre fc m) name = Some e"
    show "cs_compose_project e = name"
      using e True assms by (auto simp: census_add_def map_of_btree_entry [OF s] census_ok_def Let_def
          split: if_splits option.splits)
    show "cs_running e \<longleftrightarrow> (\<exists>f \<in> set (facts @ [fc]). fa_compose_project f = name \<and> fa_running f)"
    proof (cases "name = ?k")
      case False
      with e assms True show ?thesis
        by (auto simp: census_add_def map_of_btree_entry [OF s] census_ok_def)
    next
      case True
      with e \<open>starts_with ?k pre\<close> none assms show ?thesis
        by (cases "map_of m ?k") (auto simp: census_add_def map_of_btree_entry [OF s] census_ok_def Let_def)
    qed
  qed
qed

lemma census_fold_ok: "census_ok pre facts (fold (census_add parse pre) facts [])"
proof (induction facts rule: rev_induct)
  case Nil
  show ?case by (auto simp: census_ok_def)
next
  case (snoc fc facts)
  then show ?case using census_add_ok by simp
qed

text \<open>The census is complete and exact: it has one entry for every compose project under the
  prefix that some container belongs to, no other entries, sorted by name, and a runtime counts as
  running exactly when one of its containers runs.\<close>

theorem census_complete:
  "map cs_compose_project (group_containers parse pre facts)
     = sorted_list_of_set {n. starts_with n pre \<and> (\<exists>fc \<in> set facts. fa_compose_project fc = n)}
   \<and> map cs_running (group_containers parse pre facts)
     = map (\<lambda>e. \<exists>fc \<in> set facts. fa_compose_project fc = cs_compose_project e \<and> fa_running fc)
         (group_containers parse pre facts)"
proof -
  define m where "m = fold (census_add parse pre) facts []"
  have ok: "census_ok pre facts m" unfolding m_def by (rule census_fold_ok)
  then have s: "btree_sorted m" by (simp add: census_ok_def)
  have in_m: "map_of m (fst x) = Some (snd x)" if "x \<in> set m" for x
    using map_of_is_SomeI [OF btree_sorted_keys [OF s]] that by (metis prod.collapse)
  have names: "map cs_compose_project (map snd m) = map fst m"
    using ok in_m unfolding census_ok_def map_map by (intro map_cong refl) (metis comp_apply)
  have "fst ` set m = {n. starts_with n pre \<and> (\<exists>fc \<in> set facts. fa_compose_project fc = n)}"
    using ok unfolding census_ok_def dom_map_of_conv_image_fst [symmetric] dom_def by auto
  then have "sorted_list_of_set {n. starts_with n pre \<and> (\<exists>fc \<in> set facts. fa_compose_project fc = n)} = map fst m"
    using s by (metis set_map sorted_list_of_set.idem_if_sorted_distinct strict_sorted_iff)
  moreover have "map cs_running (map snd m) = map (\<lambda>e. \<exists>fc \<in> set facts.
      fa_compose_project fc = cs_compose_project e \<and> fa_running fc) (map snd m)"
    using ok in_m unfolding census_ok_def map_map by (intro map_cong refl) (simp, metis)
  ultimately show ?thesis using names by (simp add: group_containers_def m_def)
qed

end
