(* ===== verification/Git_Routing.thy ===== *)
theory Git_Routing
  imports Rust_Strings
begin

text \<open>
  What Git Edge and a Git Shard decide about a request before any repository is touched
  (\<open>git-service/src/routing.rs\<close>, the token extraction of \<open>auth.rs\<close>, the claims of
  \<open>runtime-contracts/src/types.rs\<close>): the repository a path names, the scope a request needs,
  the one shape of a repository deletion, the check of the token claims, the assertion header of
  a rolling save, and the shard of a repository.

  Reading and printing a UUID and decoding base64 are libraries and are arguments. An HTTP method
  is its name, a header map the list of its (lower-case) names and values.
\<close>

unbundle bit_operations_syntax

section \<open>Errors, requests and claims\<close>

datatype service_error =
    BadRequest string | Unauthorized string | Forbidden string | NotFound string
  | BadGateway string | Internal string

fun status_code :: "service_error \<Rightarrow> nat" where
  "status_code (BadRequest _) = 400"
| "status_code (Unauthorized _) = 401"
| "status_code (Forbidden _) = 403"
| "status_code (NotFound _) = 404"
| "status_code (BadGateway _) = 502"
| "status_code (Internal _) = 500"

type_synonym header_map = "(string \<times> string) list"

record git_request =
  rq_method :: string
  rq_path :: string
  rq_query :: "string option"
  rq_headers :: header_map

record access_claims =
  cl_aud :: string
  cl_sub :: string
  cl_project_id :: string
  cl_origin_id :: "string option"
  cl_runtime_id :: "string option"
  cl_protocol :: "string option"
  cl_scopes :: "string list"
  cl_lease_id :: "string option"
  cl_runtime_generation :: "string option"
  cl_run_id :: "string option"
  cl_iat :: int
  cl_exp :: int
  cl_jti :: string
  cl_prefer_runtime :: "string option"
  cl_actor_label :: "string option"
  cl_browser_session_id :: "string option"

definition git_service_header_prefix :: string where
  "git_service_header_prefix = ''x-instafy-git-''"

definition git_delete_result_header :: string where
  "git_delete_result_header = ''x-instafy-git-delete-result''"

definition git_delete_result_deleted :: string where
  "git_delete_result_deleted = ''deleted-v1''"

definition git_delete_result_absent :: string where
  "git_delete_result_absent = ''absent-v1''"

definition git_persist_scope :: string where
  "git_persist_scope = ''git.persist''"

definition git_write_scope :: string where
  "git_write_scope = ''git.write''"

definition git_delete_scope :: string where
  "git_delete_scope = ''git.delete''"

definition git_push_scope_header :: string where
  "git_push_scope_header = ''x-instafy-git-push-scope''"

section \<open>The repository and the scope of a request\<close>

definition is_safe_repo_name :: "string \<Rightarrow> bool" where
  "is_safe_repo_name s \<longleftrightarrow>
     list_all (\<lambda>c. is_ascii_alphanumeric c \<or> c \<in> {CHR ''-'', CHR ''_'', CHR ''.''}) s"

definition parse_repo_segment :: "string \<Rightarrow> service_error + (string \<times> string)" where
  "parse_repo_segment path =
     (let first = hd (split_on (CHR ''/'') (trim_start_matches (\<lambda>c. c = CHR ''/'') path)) in
      if first = [] \<or> \<not> ends_with first ''.git''
      then Inl (NotFound ''expected /<repo>.git/...'')
      else if contains_str first [CHR 0x5C] \<or> contains_str first ''..''
      then Inl (BadRequest ''invalid repo path'')
      else
        (let repo_name = trim_end_str ''.git'' first in
         if repo_name = [] \<or> \<not> is_safe_repo_name repo_name
         then Inl (BadRequest ''invalid repo name'')
         else Inr (first, repo_name)))"

text \<open>\<open>try_parse\<close> is \<open>Uuid::parse_str\<close>, \<open>print\<close> its display.\<close>

definition is_exact_repo_root_delete ::
  "(string \<Rightarrow> uuid option) \<Rightarrow> (uuid \<Rightarrow> string) \<Rightarrow> string \<Rightarrow> string \<Rightarrow> string option \<Rightarrow> service_error + bool" where
  "is_exact_repo_root_delete try_parse print method path query =
     (if method \<noteq> ''DELETE'' then Inr False
      else case parse_repo_segment path of
        Inl e \<Rightarrow> Inl e
      | Inr (repo_dir, repo_name) \<Rightarrow>
          (case Option.bind (try_parse repo_name) (\<lambda>u. if print u = repo_name then Some u else None) of
             None \<Rightarrow> Inl (BadRequest ''repository deletion requires a canonical lowercase UUID repo name'')
           | Some u \<Rightarrow>
               (if path \<noteq> CHR ''/'' # print u @ ''.git'' \<or> repo_dir \<noteq> print u @ ''.git'' \<or> query \<noteq> None
                then Inl (BadRequest ''repository deletion requires exact DELETE /<uuid>.git without a query'')
                else Inr True)))"

definition required_scope ::
  "(string \<Rightarrow> uuid option) \<Rightarrow> (uuid \<Rightarrow> string) \<Rightarrow> string \<Rightarrow> string \<Rightarrow> string option \<Rightarrow> service_error + string" where
  "required_scope try_parse print method path query =
     (case is_exact_repo_root_delete try_parse print method path query of
        Inl e \<Rightarrow> Inl e
      | Inr del \<Rightarrow>
          (if del then Inr git_delete_scope
           else if contains_str (to_ascii_lowercase path) ''git-receive-pack'' then Inr git_write_scope
           else if (case query of None \<Rightarrow> False
                    | Some q \<Rightarrow> contains_str (to_ascii_lowercase q) ''service=git-receive-pack'')
           then Inr git_write_scope
           else Inr ''git.read''))"

definition has_scope :: "access_claims \<Rightarrow> string \<Rightarrow> bool" where
  "has_scope claims scope \<longleftrightarrow> list_ex (\<lambda>s. s = scope) (cl_scopes claims)"

definition authorize_request_claims ::
  "(string \<Rightarrow> uuid option) \<Rightarrow> (uuid \<Rightarrow> string) \<Rightarrow> access_claims \<Rightarrow> string \<Rightarrow> string \<Rightarrow> string option \<Rightarrow> string \<Rightarrow>
   service_error + unit" where
  "authorize_request_claims try_parse print claims method path query repo_name =
     (if cl_protocol claims \<noteq> Some ''git'' then Inl (Forbidden ''token protocol mismatch'')
      else if cl_project_id claims \<noteq> repo_name then Inl (Forbidden ''project mismatch'')
      else case required_scope try_parse print method path query of
        Inl e \<Rightarrow> Inl e
      | Inr scope \<Rightarrow>
          (if has_scope claims scope \<or> (scope = git_write_scope \<and> has_scope claims git_persist_scope)
           then Inr ()
           else Inl (Forbidden (''missing required scope '' @ scope))))"

definition push_scope_assertion :: "access_claims \<Rightarrow> string \<Rightarrow> string option" where
  "push_scope_assertion claims scope =
     (if scope = git_write_scope \<and> \<not> has_scope claims git_write_scope \<and> has_scope claims git_persist_scope
      then Some git_persist_scope else None)"

definition is_forwardable_request_header :: "string \<Rightarrow> bool" where
  "is_forwardable_request_header name =
     (let name = to_ascii_lowercase name in
      name \<noteq> ''host'' \<and> \<not> starts_with name git_service_header_prefix)"

section \<open>The shard of a repository\<close>

definition fnv1a_step :: "64 word \<Rightarrow> char \<Rightarrow> 64 word" where
  "fnv1a_step hash b = (hash XOR word_of_nat (ord_of b)) * 0x00000100000001B3"

definition fnv1a_64 :: "string \<Rightarrow> 64 word" where
  "fnv1a_64 bytes = foldl fnv1a_step 0xcbf29ce484222325 bytes"

definition pick_shard_index :: "string \<Rightarrow> nat \<Rightarrow> nat" where
  "pick_shard_index repo_name shard_count =
     (if shard_count \<le> 1 then 0 else unat (fnv1a_64 repo_name) mod shard_count)"

section \<open>The token of a request\<close>

definition visible_ascii :: "string \<Rightarrow> bool" where
  "visible_ascii v \<longleftrightarrow> list_all (\<lambda>c. (32 \<le> ord_of c \<and> ord_of c < 127) \<or> ord_of c = 9) v"

text \<open>\<open>HeaderValue::to_str\<close>.\<close>

definition header_to_str :: "string \<Rightarrow> string option" where
  "header_to_str v = (if visible_ascii v then Some v else None)"

definition strip_either :: "string \<Rightarrow> string \<Rightarrow> string \<Rightarrow> string option" where
  "strip_either s p q = (case strip_prefix s p of Some r \<Rightarrow> Some r | None \<Rightarrow> strip_prefix s q)"

text \<open>\<open>basic\<close> decodes base64 and reads the bytes as text (\<open>String::from_utf8_lossy\<close>).\<close>

definition extract_token :: "(string \<Rightarrow> string option) \<Rightarrow> header_map \<Rightarrow> service_error + string" where
  "extract_token basic headers =
     (case map_of headers ''authorization'' of
        None \<Rightarrow> Inl (Unauthorized ''missing Authorization header'')
      | Some hv \<Rightarrow>
          (case header_to_str hv of
             None \<Rightarrow> Inl (Unauthorized ''invalid Authorization header'')
           | Some v \<Rightarrow>
               (let raw = trim_str v in
                if raw = [] then Inl (Unauthorized ''missing Authorization header'')
                else case strip_either raw ''Bearer '' ''bearer '' of
                  Some t \<Rightarrow>
                    (if trim_str t = [] then Inl (Unauthorized ''missing bearer token'')
                     else Inr (trim_str t))
                | None \<Rightarrow>
                    (case strip_either raw ''Basic '' ''basic '' of
                       None \<Rightarrow> Inl (Unauthorized ''unsupported Authorization scheme (use Bearer or Basic)'')
                     | Some t \<Rightarrow>
                         (case basic (trim_str t) of
                            None \<Rightarrow> Inl (Unauthorized ''invalid basic auth header'')
                          | Some d \<Rightarrow>
                              (let token = trim_str (case split_once (CHR '':'') d of Some (_, p) \<Rightarrow> p | None \<Rightarrow> d) in
                               if token = [] then Inl (Unauthorized ''missing basic token'')
                               else Inr token))))))"

section \<open>Facts about the decisions\<close>

lemma parse_repo_segment_Inr:
  assumes "parse_repo_segment path = Inr (dir, name)"
  shows "dir = hd (split_on (CHR ''/'') (trim_start_matches (\<lambda>c. c = CHR ''/'') path))"
    and "ends_with dir ''.git''" and "\<not> contains_str dir ''..''" and "\<not> contains_str dir [CHR 0x5C]"
    and "name = trim_end_str ''.git'' dir" and "name \<noteq> []" and "is_safe_repo_name name"
  using assms by (auto simp: parse_repo_segment_def Let_def split: if_splits)

lemma repo_dir_no_slash:
  assumes "parse_repo_segment path = Inr (dir, name)"
  shows "CHR ''/'' \<notin> set dir"
  using set_takeWhileD unfolding parse_repo_segment_Inr(1) [OF assms] split_on_hd by fastforce

lemma exact_delete_iff:
  "is_exact_repo_root_delete try_parse print method path query = Inr True \<longleftrightarrow>
     method = ''DELETE'' \<and> query = None \<and>
     (\<exists>u name. parse_repo_segment path = Inr (print u @ ''.git'', name) \<and> try_parse name = Some u \<and> print u = name
        \<and> path = CHR ''/'' # print u @ ''.git'')"
proof (cases "parse_repo_segment path")
  case (Inl e)
  then show ?thesis by (simp add: is_exact_repo_root_delete_def)
next
  case (Inr p)
  obtain dir name where p: "p = (dir, name)" by (cases p)
  show ?thesis
    using Inr unfolding p is_exact_repo_root_delete_def
    by (cases "try_parse name") auto
qed

lemma scope_not_delete [simp]: "git_write_scope \<noteq> git_delete_scope" "''git.read'' \<noteq> git_delete_scope"
  "git_delete_scope \<noteq> ''git.read''" "git_write_scope \<noteq> ''git.read''" "git_write_scope \<noteq> git_persist_scope"
  "git_delete_scope \<noteq> git_write_scope"
  by (simp_all add: git_write_scope_def git_delete_scope_def git_persist_scope_def)

lemma required_scope_delete:
  "required_scope try_parse print method path query = Inr git_delete_scope \<longleftrightarrow>
     is_exact_repo_root_delete try_parse print method path query = Inr True"
  by (auto simp: required_scope_def split: sum.splits)

lemma required_scope_push:
  assumes "required_scope try_parse print method path query = Inr scope"
    and "contains_str (to_ascii_lowercase path) ''git-receive-pack''" "method \<noteq> ''DELETE''"
  shows "scope = git_write_scope"
  using assms by (auto simp: required_scope_def is_exact_repo_root_delete_def)

lemma authorize_Inr:
  assumes "authorize_request_claims try_parse print claims method path query name = Inr ()"
    and "required_scope try_parse print method path query = Inr scope"
  shows "cl_protocol claims = Some ''git''" and "cl_project_id claims = name"
    and "has_scope claims scope \<or> (scope = git_write_scope \<and> push_scope_assertion claims scope = Some git_persist_scope)"
  using assms by (auto simp: authorize_request_claims_def push_scope_assertion_def split: if_splits)

lemma push_scope_header_reserved [simp]: "\<not> is_forwardable_request_header git_push_scope_header"
  unfolding is_forwardable_request_header_def git_push_scope_header_def git_service_header_prefix_def
  by code_simp

lemma pick_shard_index_less: "0 < n \<Longrightarrow> pick_shard_index name n < n"
  by (simp add: pick_shard_index_def)

end
