(* ===== verification/Git_Edge.thy ===== *)
theory Git_Edge
  imports Git_Routing
begin

text \<open>
  Git Edge (\<open>git-service/src/bin/git-edge.rs\<close>) and its configuration (\<open>config.rs\<close>). A request
  is authorized, routed to a shard by hash or by asking the controller (with a cache of routes),
  and forwarded with the client's headers less the reserved ones. What it sends to the shards is
  the second component of the results; the shards, the controller, the token validator and the
  URL and UUID libraries are the fields of \<open>edge_env\<close>.
\<close>

section \<open>Configuration\<close>

datatype routing_mode = RouteHash | RouteController

record edge_config =
  ec_bind_host :: string
  ec_bind_port :: nat
  ec_skip_auth :: bool
  ec_jwks_url :: string
  ec_audience :: string
  ec_shards :: "string list"
  ec_routing_mode :: routing_mode
  ec_controller_url :: "string option"
  ec_controller_token :: "string option"
  ec_route_cache_seconds :: nat

type_synonym environment = "string \<Rightarrow> string option"
type_synonym url_parser = "string \<Rightarrow> string + string"

definition env_or :: "environment \<Rightarrow> string \<Rightarrow> string \<Rightarrow> string" where
  "env_or env name d = (case env name of Some v \<Rightarrow> v | None \<Rightarrow> d)"

definition env_switch :: "environment \<Rightarrow> string \<Rightarrow> bool" where
  "env_switch env name \<longleftrightarrow> env_or env name ''0'' \<in> {''1'', ''true'', ''yes'', ''on''}"

definition env_trimmed :: "environment \<Rightarrow> string \<Rightarrow> string option" where
  "env_trimmed env name =
     (case env name of None \<Rightarrow> None | Some v \<Rightarrow> (let t = trim_str v in if t = [] then None else Some t))"

definition env_port :: "environment \<Rightarrow> string \<Rightarrow> nat \<Rightarrow> nat" where
  "env_port env name d =
     (case Option.bind (env name) parse_usize of
        Some n \<Rightarrow> (if n < 2 ^ 16 then n else d) | None \<Rightarrow> d)"

definition env_u64 :: "environment \<Rightarrow> string \<Rightarrow> nat \<Rightarrow> nat \<Rightarrow> nat" where
  "env_u64 env name least d =
     (case Option.bind (env name) (\<lambda>v. parse_usize (trim_str v)) of
        Some n \<Rightarrow> (if least \<le> n then n else d) | None \<Rightarrow> d)"

fun collect_urls :: "url_parser \<Rightarrow> string list \<Rightarrow> string + string list" where
  "collect_urls parse_url [] = Inr []"
| "collect_urls parse_url (v # vs) =
     (case parse_url v of
        Inl _ \<Rightarrow> Inl (''invalid GIT_SHARDS entry: '' @ v)
      | Inr u \<Rightarrow> (case collect_urls parse_url vs of Inl e \<Rightarrow> Inl e | Inr us \<Rightarrow> Inr (u # us)))"

definition optional_url :: "url_parser \<Rightarrow> string \<Rightarrow> string option \<Rightarrow> string + string option" where
  "optional_url parse_url name raw =
     (case raw of None \<Rightarrow> Inr None
      | Some r \<Rightarrow> (case parse_url r of Inl _ \<Rightarrow> Inl (''invalid '' @ name @ ''='' @ r) | Inr u \<Rightarrow> Inr (Some u)))"

definition edge_from_env :: "url_parser \<Rightarrow> environment \<Rightarrow> string + edge_config" where
  "edge_from_env parse_url env =
     (let jwks_raw = env_or env ''GIT_JWKS_URL'' ''http://host.docker.internal:8788/.well-known/jwks.json'' in
      case parse_url jwks_raw of
        Inl _ \<Rightarrow> Inl (''invalid GIT_JWKS_URL='' @ jwks_raw)
      | Inr jwks \<Rightarrow>
          (case collect_urls parse_url
                  (filter (\<lambda>v. v \<noteq> []) (map trim_str (split_on (CHR '','')
                     (env_or env ''GIT_SHARDS'' ''http://git-shard-0:8081'')))) of
             Inl e \<Rightarrow> Inl e
           | Inr shards \<Rightarrow>
               (if shards = [] then Inl ''GIT_SHARDS must include at least one shard URL''
                else
                  (let mode = (if to_ascii_lowercase (trim_str (env_or env ''GIT_EDGE_ROUTING'' ''hash''))
                                    \<in> {''controller'', ''controller_v1''}
                               then RouteController else RouteHash) in
                   case optional_url parse_url ''GIT_EDGE_CONTROLLER_URL'' (env_trimmed env ''GIT_EDGE_CONTROLLER_URL'') of
                     Inl e \<Rightarrow> Inl e
                   | Inr controller \<Rightarrow>
                       (if mode = RouteController \<and> controller = None
                        then Inl ''GIT_EDGE_CONTROLLER_URL is required when GIT_EDGE_ROUTING=controller''
                        else Inr \<lparr>ec_bind_host = env_or env ''GIT_EDGE_BIND_HOST'' ''0.0.0.0'',
                                  ec_bind_port = env_port env ''GIT_EDGE_BIND_PORT'' 8080,
                                  ec_skip_auth = env_switch env ''GIT_EDGE_SKIP_AUTH'',
                                  ec_jwks_url = jwks,
                                  ec_audience = env_or env ''GIT_AUDIENCE'' ''git'',
                                  ec_shards = shards,
                                  ec_routing_mode = mode,
                                  ec_controller_url = controller,
                                  ec_controller_token = env_trimmed env ''GIT_EDGE_CONTROLLER_TOKEN'',
                                  ec_route_cache_seconds = env_u64 env ''GIT_EDGE_ROUTE_CACHE_SECONDS'' 1 60\<rparr>)))))"

section \<open>Requests and what the edge reaches\<close>

record http_response =
  rs_status :: nat
  rs_headers :: header_map

record forwarded =
  fw_shard :: string
  fw_method :: string
  fw_segments :: "string list"
  fw_query :: "string option"
  fw_headers :: header_map

datatype controller_answer =
    LookupFailed string
  | LookupAnswer nat string string "string + string"
    \<comment> \<open>status, its display, the body's text, and the body's \<open>shardUrl\<close> or why it has none\<close>

record edge_env =
  ev_parse_uuid :: "string \<Rightarrow> uuid option"
  ev_print_uuid :: "uuid \<Rightarrow> string"
  ev_basic :: "string \<Rightarrow> string option"
  ev_validate :: "string \<Rightarrow> string \<Rightarrow> service_error + access_claims"
  ev_parse_url :: url_parser
  ev_can_be_base :: "string \<Rightarrow> bool"
  ev_method_ok :: "string \<Rightarrow> bool"
  ev_controller :: "string \<Rightarrow> string \<Rightarrow> string option \<Rightarrow> controller_answer"
  ev_send :: "forwarded \<Rightarrow> string + http_response"

record cached_route =
  cr_shard :: string
  cr_expires_at :: instant

type_synonym route_cache = "(string, cached_route) hash_map"

section \<open>Routing\<close>

definition resolve_shard_via_controller ::
  "edge_env \<Rightarrow> edge_config \<Rightarrow> instant \<Rightarrow> string \<Rightarrow> route_cache \<Rightarrow> (service_error + string) \<times> route_cache" where
  "resolve_shard_via_controller ev cfg now project_id cache =
     (case Option.bind (map_of cache project_id) (\<lambda>e. if cr_expires_at e > now then Some e else None) of
        Some e \<Rightarrow> (Inr (cr_shard e), cache)
      | None \<Rightarrow>
          (case ec_controller_url cfg of
             None \<Rightarrow> (Inl (Internal ''controller routing enabled but controller URL is missing''), cache)
           | Some base \<Rightarrow>
               (if \<not> ev_can_be_base ev base then (Inl (Internal ''invalid controller base URL''), cache)
                else case ev_controller ev base project_id (ec_controller_token cfg) of
                  LookupFailed err \<Rightarrow> (Inl (Internal (''controller shard lookup failed: '' @ err)), cache)
                | LookupAnswer status display body payload \<Rightarrow>
                    (if \<not> (200 \<le> status \<and> status < 300)
                     then (Inl (Internal (''controller shard lookup failed: status='' @ display @ '' body='' @ body)), cache)
                     else case payload of
                       Inl err \<Rightarrow> (Inl (Internal (''invalid controller shard response: '' @ err)), cache)
                     | Inr url \<Rightarrow>
                         (case ev_parse_url ev (trim_str url) of
                            Inl err \<Rightarrow> (Inl (Internal (''invalid shardUrl from controller: '' @ err)), cache)
                          | Inr shard \<Rightarrow>
                              (Inr shard,
                               AList.update project_id
                                 \<lparr>cr_shard = shard, cr_expires_at = now + secs (ec_route_cache_seconds cfg)\<rparr> cache))))))"

definition forwarded_headers :: "header_map \<Rightarrow> string option \<Rightarrow> header_map" where
  "forwarded_headers headers push_scope =
     filter (\<lambda>(name, v). is_forwardable_request_header name \<and> visible_ascii v) headers
     @ (case push_scope of Some s \<Rightarrow> [(git_push_scope_header, s)] | None \<Rightarrow> [])"

definition proxy_request ::
  "edge_env \<Rightarrow> string \<Rightarrow> git_request \<Rightarrow> string option \<Rightarrow> (service_error + http_response) \<times> forwarded list" where
  "proxy_request ev shard_base rq push_scope =
     (if \<not> ev_can_be_base ev shard_base then (Inl (Internal ''invalid shard base URL''), [])
      else if \<not> ev_method_ok ev (rq_method rq) then (Inl (BadRequest ''invalid HTTP method''), [])
      else
        (let fw = \<lparr>fw_shard = shard_base, fw_method = rq_method rq,
                   fw_segments = split_on (CHR ''/'') (trim_start_matches (\<lambda>c. c = CHR ''/'') (rq_path rq)),
                   fw_query = rq_query rq,
                   fw_headers = forwarded_headers (rq_headers rq) push_scope\<rparr>
         in case ev_send ev fw of
              Inl err \<Rightarrow> (Inl (Internal (''upstream request failed: '' @ err)), [fw])
            | Inr resp \<Rightarrow> (Inr resp, [fw])))"

definition validate_delete_result :: "http_response \<Rightarrow> service_error + http_response" where
  "validate_delete_result resp =
     (case (if rs_status resp = 204 then Some git_delete_result_deleted
            else if rs_status resp = 404 then Some git_delete_result_absent
            else None) of
        None \<Rightarrow> Inl (BadGateway ''git shard returned an invalid repository deletion status'')
      | Some expected \<Rightarrow>
          (if map snd (filter (\<lambda>(n, _). n = git_delete_result_header) (rs_headers resp)) = [expected]
           then Inr resp
           else Inl (BadGateway ''git shard omitted the exact repository deletion acknowledgement'')))"

section \<open>The handler\<close>

definition request_requires_auth :: "bool \<Rightarrow> string \<Rightarrow> bool" where
  "request_requires_auth skip_auth scope \<longleftrightarrow> \<not> skip_auth \<or> scope = git_delete_scope"

definition claims_decision ::
  "edge_env \<Rightarrow> git_request \<Rightarrow> string \<Rightarrow> string \<Rightarrow> access_claims option \<Rightarrow> service_error + string option" where
  "claims_decision ev rq repo_name scope claims =
     (case claims of
        None \<Rightarrow> Inr None
      | Some c \<Rightarrow>
          (case authorize_request_claims (ev_parse_uuid ev) (ev_print_uuid ev) c
                  (rq_method rq) (rq_path rq) (rq_query rq) repo_name of
             Inl e \<Rightarrow> Inl e
           | Inr _ \<Rightarrow> Inr (push_scope_assertion c scope)))"

definition pick_shard_base ::
  "edge_env \<Rightarrow> edge_config \<Rightarrow> instant \<Rightarrow> string \<Rightarrow> route_cache \<Rightarrow> (service_error + string) \<times> route_cache" where
  "pick_shard_base ev cfg now repo_name cache =
     (let idx = pick_shard_index repo_name (length (ec_shards cfg)) in
      case ec_routing_mode cfg of
        RouteHash \<Rightarrow>
          (if idx < length (ec_shards cfg) then (Inr (ec_shards cfg ! idx), cache)
           else (Inl (Internal ''shard routing failed''), cache))
      | RouteController \<Rightarrow> resolve_shard_via_controller ev cfg now repo_name cache)"

definition forward ::
  "edge_env \<Rightarrow> edge_config \<Rightarrow> instant \<Rightarrow> git_request \<Rightarrow> string \<Rightarrow> access_claims option \<Rightarrow> route_cache \<Rightarrow>
   (service_error + http_response) \<times> forwarded list \<times> route_cache" where
  "forward ev cfg now rq repo_name claims cache =
     (case required_scope (ev_parse_uuid ev) (ev_print_uuid ev) (rq_method rq) (rq_path rq) (rq_query rq) of
        Inl e \<Rightarrow> (Inl e, [], cache)
      | Inr scope \<Rightarrow>
          (case claims_decision ev rq repo_name scope claims of
             Inl e \<Rightarrow> (Inl e, [], cache)
           | Inr push_scope \<Rightarrow>
               (case pick_shard_base ev cfg now repo_name cache of
                  (Inl e, cache) \<Rightarrow> (Inl e, [], cache)
                | (Inr shard, cache) \<Rightarrow>
                    (case proxy_request ev shard rq push_scope of
                       (Inl e, sent) \<Rightarrow> (Inl e, sent, cache)
                     | (Inr resp, sent) \<Rightarrow>
                         ((if scope = git_delete_scope then validate_delete_result resp else Inr resp), sent, cache)))))"

definition edge_claims :: "edge_env \<Rightarrow> edge_config \<Rightarrow> git_request \<Rightarrow> string \<Rightarrow> service_error + access_claims option" where
  "edge_claims ev cfg rq scope =
     (if request_requires_auth (ec_skip_auth cfg) scope
      then (case extract_token (ev_basic ev) (rq_headers rq) of
              Inl e \<Rightarrow> Inl e
            | Inr token \<Rightarrow>
                (case ev_validate ev token (ec_audience cfg) of Inl e \<Rightarrow> Inl e | Inr c \<Rightarrow> Inr (Some c)))
      else Inr None)"

definition handle_proxy ::
  "edge_env \<Rightarrow> edge_config \<Rightarrow> instant \<Rightarrow> git_request \<Rightarrow> route_cache \<Rightarrow>
   (service_error + http_response) \<times> forwarded list \<times> route_cache" where
  "handle_proxy ev cfg now rq cache =
     (case parse_repo_segment (rq_path rq) of
        Inl e \<Rightarrow> (Inl e, [], cache)
      | Inr (_, repo_name) \<Rightarrow>
          (case required_scope (ev_parse_uuid ev) (ev_print_uuid ev) (rq_method rq) (rq_path rq) (rq_query rq) of
             Inl e \<Rightarrow> (Inl e, [], cache)
           | Inr scope \<Rightarrow>
               (case edge_claims ev cfg rq scope of
                  Inl e \<Rightarrow> (Inl e, [], cache)
                | Inr claims \<Rightarrow> forward ev cfg now rq repo_name claims cache)))"

end
