(* ===== verification/Git_Hook.thy ===== *)
theory Git_Hook
  imports Rust_Strings
begin

text \<open>
  The push policy of a shard (\<open>git-service/src/policy.rs\<close>): the predicates the Rust code applies
  to ref names and paths, and the \<open>update\<close> hook the module renders, which git runs for every ref a
  push changes. The hook is a bash script in the text of \<open>render_update_hook\<close>; \<open>update_hook\<close> is
  that script, section by section, and ends with the refusal it prints or with acceptance.

  What the script asks git (the case sensitivity of the repository, ancestry, object types and
  sizes, the difference of two trees) are the fields of \<open>repo_view\<close>; matching an operator's own
  globs is an argument.
\<close>

section \<open>The predicates of the Rust code\<close>

definition repo_policy_deny_patterns :: "string list" where
  "repo_policy_deny_patterns =
     [''node_modules'', ''.next'', ''dist'', ''build'', ''target'', ''.turbo'', ''.vercel'', ''.cache'',
      ''.vite'', ''coverage'', ''playwright-report'', ''test-results'', ''tmp'', ''.supabase'',
      ''.instafy/origin-staging'']"

definition instafy_ref_root :: string where
  "instafy_ref_root = ''refs/instafy''"

definition recovery_ref_root :: string where
  "recovery_ref_root = ''refs/instafy/recovery''"

definition salvage_ref_root :: string where
  "salvage_ref_root = ''refs/instafy/salvage''"

definition working_slot_name :: string where
  "working_slot_name = ''working''"

definition push_report_env :: string where
  "push_report_env = ''INSTAFY_GIT_PUSH_REPORT''"

definition persist_push_env :: string where
  "persist_push_env = ''INSTAFY_GIT_PERSIST_PUSH''"

definition slot_id_byte :: "nat \<Rightarrow> char \<Rightarrow> bool" where
  "slot_id_byte i c \<longleftrightarrow> (if i \<in> {8, 13, 18, 23} then c = CHR ''-'' else is_lower_hex c)"

definition is_working_slot_ref :: "string \<Rightarrow> bool" where
  "is_working_slot_ref refname =
     (case Option.bind (strip_prefix refname recovery_ref_root) (\<lambda>r. strip_prefix r ''/'') of
        None \<Rightarrow> False
      | Some rest \<Rightarrow>
          (case split_once (CHR ''/'') rest of
             None \<Rightarrow> False
           | Some (ident, name) \<Rightarrow>
               name = working_slot_name \<and> length ident = 36
               \<and> list_all (\<lambda>(i, c). slot_id_byte i c) (enumerate 0 ident)))"

definition repo_policy_denies_path :: "string \<Rightarrow> bool" where
  "repo_policy_denies_path path \<longleftrightarrow>
     list_ex (\<lambda>entry.
        (case strip_prefix path entry of Some rest \<Rightarrow> starts_with rest ''/'' | None \<Rightarrow> False)
        \<or> contains_str path (''/'' @ entry @ ''/''))
       repo_policy_deny_patterns"

definition is_literal_pattern :: "string \<Rightarrow> bool" where
  "is_literal_pattern v \<longleftrightarrow>
     v \<noteq> [] \<and> \<not> starts_with v ''/'' \<and> \<not> ends_with v ''/'' \<and> \<not> contains_str v ''//''
     \<and> list_all (\<lambda>c. is_ascii_alphanumeric c \<or> c \<in> {CHR ''.'', CHR ''_'', CHR ''-'', CHR ''/''}) v"

definition validate_default_branch :: "string \<Rightarrow> bool" where
  "validate_default_branch b \<longleftrightarrow>
     b \<noteq> [] \<and> is_literal_pattern b \<and> \<not> starts_with b ''-'' \<and> \<not> contains_str b ''..''"

text \<open>The checks that \<open>render_update_hook\<close> makes before it renders.\<close>

definition render_checks :: "string \<Rightarrow> bool" where
  "render_checks default_branch \<longleftrightarrow>
     validate_default_branch default_branch
     \<and> list_all is_literal_pattern repo_policy_deny_patterns
     \<and> list_all (\<lambda>base. is_literal_pattern base \<and> to_ascii_lowercase base = base)
         [instafy_ref_root, recovery_ref_root, salvage_ref_root]
     \<and> list_all is_ascii_lowercase working_slot_name"

section \<open>The shell\<close>

text \<open>A \<open>case\<close> pattern of literal characters and \<open>*\<close>, which matches any text.\<close>

fun star_match :: "string \<Rightarrow> string \<Rightarrow> bool" where
  "star_match [] s = (s = [])"
| "star_match (c # p) s =
     (if c = CHR ''*'' then (star_match p s \<or> (case s of [] \<Rightarrow> False | _ # s' \<Rightarrow> star_match (c # p) s'))
      else (case s of [] \<Rightarrow> False | d # s' \<Rightarrow> c = d \<and> star_match p s'))"

definition is_zero :: "string \<Rightarrow> bool" where
  "is_zero r \<longleftrightarrow> r \<noteq> [] \<and> list_all (\<lambda>c. c = CHR ''0'') r"

definition recovery_name_char :: "char \<Rightarrow> bool" where
  "recovery_name_char c \<longleftrightarrow> is_ascii_alphanumeric c \<or> c \<in> {CHR ''.'', CHR ''_'', CHR ''-''}"

text \<open>A run of exactly \<open>n\<close> characters of a class, and the rest.\<close>

definition take_class :: "nat \<Rightarrow> (char \<Rightarrow> bool) \<Rightarrow> string \<Rightarrow> string option" where
  "take_class n P s = (if n \<le> length s \<and> list_all P (take n s) then Some (drop n s) else None)"

definition uuid_pattern :: "string \<Rightarrow> string option" where
  "uuid_pattern s =
     Option.bind (take_class 8 is_lower_hex s)
       (try_fold (\<lambda>n s. Option.bind (strip_prefix s ''-'') (take_class n is_lower_hex)) [4, 4, 4, 12])"

text \<open>\<open>recovery_ref_pattern\<close>: the recovery root, a UUID in lower case, and a name.\<close>

definition recovery_ref_pattern :: "string \<Rightarrow> bool" where
  "recovery_ref_pattern refname \<longleftrightarrow>
     (case Option.bind (Option.bind (strip_prefix refname (recovery_ref_root @ ''/'')) uuid_pattern)
             (\<lambda>r. strip_prefix r ''/'') of
        None \<Rightarrow> False
      | Some name \<Rightarrow> name \<noteq> [] \<and> list_all recovery_name_char name)"

text \<open>\<open>${refname##*/}\<close>.\<close>

definition after_last_slash :: "string \<Rightarrow> string" where
  "after_last_slash s = last (split_on (CHR ''/'') s)"

text \<open>\<open>read\<close> splits a line at blanks; the last variable takes the rest.\<close>

definition shell_blank :: "char \<Rightarrow> bool" where
  "shell_blank c \<longleftrightarrow> c \<in> {CHR '' '', CHR 0x09, CHR 0x0A}"

fun read_words :: "nat \<Rightarrow> string \<Rightarrow> string list" where
  "read_words 0 s = [trim_end_matches shell_blank (dropWhile shell_blank s)]"
| "read_words (Suc n) s =
     (let t = dropWhile shell_blank s
      in takeWhile (\<lambda>c. \<not> shell_blank c) t # read_words n (dropWhile (\<lambda>c. \<not> shell_blank c) t))"

definition shell_space :: "char \<Rightarrow> bool" where
  "shell_space c \<longleftrightarrow> ord_of c = 32 \<or> (9 \<le> ord_of c \<and> ord_of c \<le> 13)"

definition shell_trim :: "string \<Rightarrow> string" where
  "shell_trim s = trim_end_matches shell_space (dropWhile shell_space s)"

definition all_digits :: "string \<Rightarrow> bool" where
  "all_digits s \<longleftrightarrow> s \<noteq> [] \<and> list_all is_ascii_digit s"

section \<open>The hook\<close>

record repo_view =
  rv_ignorecase :: bool
  rv_is_ancestor :: "string \<Rightarrow> string \<Rightarrow> bool"
  rv_commit :: "string \<Rightarrow> string option"
  rv_first_parent :: "string \<Rightarrow> string option"
  rv_empty_tree :: string
  rv_diff_tree :: "string \<Rightarrow> string \<Rightarrow> string list \<times> bool"
    \<comment> \<open>the NUL-terminated fields printed, and whether the command succeeded\<close>
  rv_batch_check :: "string list \<Rightarrow> string list"

record hook_config =
  hc_default_branch :: string
  hc_persist_push :: bool
  hc_policy_disabled :: bool
  hc_max_blob_bytes :: "string option"
  hc_deny_paths :: string

text \<open>The settings the script reads from its environment.\<close>

definition hook_config_of :: "string \<Rightarrow> (string \<Rightarrow> string option) \<Rightarrow> hook_config" where
  "hook_config_of default_branch env =
     \<lparr>hc_default_branch = default_branch,
      hc_persist_push = (env persist_push_env = Some ''1''),
      hc_policy_disabled = (env ''GIT_POLICY_DISABLED'' = Some ''1''),
      hc_max_blob_bytes = env ''GIT_MAX_BLOB_BYTES'',
      hc_deny_paths = (case env ''GIT_DENY_PATHS'' of Some v \<Rightarrow> v | None \<Rightarrow> [])\<rparr>"

datatype refusal =
    NotAscii | SalvageReserved | RollingSave | RecoveryMoved | CaseAlias | MainDeleted
  | NonFastForward | ReplaceRef | NotRecovery | NotACommit | BadLimit | NotListed | NotChecked | Hygiene

record ref_update =
  ru_refname :: string
  ru_oldrev :: string
  ru_newrev :: string

definition main_ref :: "hook_config \<Rightarrow> string" where
  "main_ref hc = ''refs/heads/'' @ hc_default_branch hc"

definition ascii_ref_pattern :: "string \<Rightarrow> bool" where
  "ascii_ref_pattern s \<longleftrightarrow> s \<noteq> [] \<and> list_all (\<lambda>c. 33 \<le> ord_of c \<and> ord_of c \<le> 126) s"

definition working_slot :: "string \<Rightarrow> bool" where
  "working_slot refname \<longleftrightarrow> recovery_ref_pattern refname \<and> after_last_slash refname = working_slot_name"

definition at_or_under :: "string \<Rightarrow> string \<Rightarrow> bool" where
  "at_or_under base s \<longleftrightarrow> s = base \<or> starts_with s (base @ ''/'')"

subsection \<open>Authorization: the part no setting switches off\<close>

definition ref_boundaries :: "repo_view \<Rightarrow> hook_config \<Rightarrow> ref_update \<Rightarrow> refusal option" where
  "ref_boundaries rv hc ru =
     (let refname = ru_refname ru; folded = to_ascii_lowercase refname; slot = working_slot refname in
      if \<not> ascii_ref_pattern refname \<and> rv_ignorecase rv then Some NotAscii
      else if at_or_under salvage_ref_root folded then Some SalvageReserved
      else if hc_persist_push hc
        \<and> (\<not> recovery_ref_pattern refname
            \<or> (\<not> slot \<and> (\<not> is_zero (ru_oldrev ru) \<or> is_zero (ru_newrev ru))))
      then Some RollingSave
      else if starts_with folded (recovery_ref_root @ ''/'') \<and> \<not> slot
        \<and> \<not> is_zero (ru_oldrev ru) \<and> \<not> is_zero (ru_newrev ru)
      then Some RecoveryMoved
      else None)"

subsection \<open>The default branch\<close>

definition main_branch_rules :: "repo_view \<Rightarrow> hook_config \<Rightarrow> ref_update \<Rightarrow> refusal option" where
  "main_branch_rules rv hc ru =
     (let refname = ru_refname ru; main = main_ref hc in
      if to_ascii_lowercase refname = to_ascii_lowercase main \<and> refname \<noteq> main then Some CaseAlias
      else if refname = main \<and> is_zero (ru_newrev ru) then Some MainDeleted
      else if refname = main \<and> \<not> is_zero (ru_oldrev ru) \<and> \<not> rv_is_ancestor rv (ru_oldrev ru) (ru_newrev ru)
      then Some NonFastForward
      else None)"

definition reserved_refs :: "ref_update \<Rightarrow> refusal option" where
  "reserved_refs ru =
     (let refname = ru_refname ru; folded = to_ascii_lowercase refname in
      if at_or_under ''refs/replace'' folded then Some ReplaceRef
      else if starts_with folded (instafy_ref_root @ ''/'') \<and> \<not> recovery_ref_pattern refname then Some NotRecovery
      else None)"

subsection \<open>Paths and blobs\<close>

definition denied_by_case :: "string \<Rightarrow> bool" where
  "denied_by_case p \<longleftrightarrow>
     list_ex (\<lambda>entry. star_match (entry @ ''/*'') p \<or> star_match (''*/'' @ entry @ ''/*'') p) repo_policy_deny_patterns"

definition is_denied_path :: "(string \<Rightarrow> string \<Rightarrow> bool) \<Rightarrow> string \<Rightarrow> string \<Rightarrow> bool" where
  "is_denied_path glob deny_extra p \<longleftrightarrow>
     denied_by_case p \<or>
     (deny_extra \<noteq> [] \<and>
      list_ex (\<lambda>raw. let pat = shell_trim raw in pat \<noteq> [] \<and> glob pat p)
        (split_on (CHR '','') (takeWhile (\<lambda>c. c \<noteq> CHR 0x0A) deny_extra)))"

record change_scan =
  ch_blobs :: "(string \<times> string) list" \<comment> \<open>path and object\<close>
  ch_refused :: bool

text \<open>\<open>read -r _old_mode new_mode _old_oid new_oid status <<< "${meta#:}"\<close>.\<close>

definition change_word :: "nat \<Rightarrow> string \<Rightarrow> string" where
  "change_word i meta = read_words 4 (case strip_prefix meta '':'' of Some r \<Rightarrow> r | None \<Rightarrow> meta) ! i"

definition scan_change ::
  "(string \<Rightarrow> string \<Rightarrow> bool) \<Rightarrow> string \<Rightarrow> bool \<Rightarrow> string \<Rightarrow> string \<Rightarrow> change_scan \<Rightarrow> change_scan" where
  "scan_change glob deny_extra slot meta path cs =
     (let new_mode = change_word 1 meta; new_oid = change_word 3 meta; status = change_word 4 meta in
      if status = ''D'' \<and> slot then cs
      else if is_denied_path glob deny_extra path then cs\<lparr>ch_refused := True\<rparr>
      else if status = ''D'' then cs
      else if new_mode = ''160000'' then cs\<lparr>ch_refused := True\<rparr>
      else cs\<lparr>ch_blobs := ch_blobs cs @ [(path, new_oid)]\<rparr>)"

text \<open>The reading loop: \<open>None\<close> when the marker after the listing is missing.\<close>

fun scan_changes ::
  "(string \<Rightarrow> string \<Rightarrow> bool) \<Rightarrow> string \<Rightarrow> bool \<Rightarrow> string list \<Rightarrow> change_scan \<Rightarrow> change_scan option" where
  "scan_changes glob deny_extra slot [] cs = None"
| "scan_changes glob deny_extra slot [meta] cs = (if meta = ''end'' then Some cs else None)"
| "scan_changes glob deny_extra slot (meta # path # fs) cs =
     (if meta = ''end'' then Some cs
      else scan_changes glob deny_extra slot fs (scan_change glob deny_extra slot meta path cs))"

definition blob_refused :: "nat \<Rightarrow> string \<Rightarrow> bool" where
  "blob_refused limit line =
     (let ws = read_words 1 line; obj_type = (if ws ! 1 = ''missing'' then ''missing'' else ws ! 0) in
      obj_type \<noteq> ''blob'' \<or> (all_digits (ws ! 1) \<and> parse_digits (ws ! 1) > limit))"

definition check_changes ::
  "repo_view \<Rightarrow> (string \<Rightarrow> string \<Rightarrow> bool) \<Rightarrow> string \<Rightarrow> nat \<Rightarrow> bool \<Rightarrow> string \<Rightarrow> string \<Rightarrow> refusal option" where
  "check_changes rv glob deny_extra limit slot newcommit against =
     (let (fs, ok) = rv_diff_tree rv against newcommit in
      case scan_changes glob deny_extra slot (fs @ (if ok then [''end''] else []))
             \<lparr>ch_blobs = [], ch_refused = False\<rparr> of
        None \<Rightarrow> Some NotListed
      | Some cs \<Rightarrow>
          (let lines = (if ch_blobs cs = [] then [] else rv_batch_check rv (map snd (ch_blobs cs))) in
           if length lines \<noteq> length (ch_blobs cs) then Some NotChecked
           else if ch_refused cs \<or> list_ex (blob_refused limit) lines then Some Hygiene
           else None))"

text \<open>What the check prints: one line for each path it refuses, all of them before it refuses the push.\<close>

datatype path_refusal =
    BlockedPath string
  | NonBlob string string \<comment> \<open>path and type\<close>
  | TooLargeBlob string string string \<comment> \<open>path, size and limit\<close>

definition hook_quoted :: "string \<Rightarrow> string" where
  "hook_quoted s = CHR 0x27 # s @ [CHR 0x27]"

fun refusal_message :: "path_refusal \<Rightarrow> string" where
  "refusal_message (BlockedPath p) = ''instafy: blocked path '' @ hook_quoted p @ '' (repo hygiene policy)''"
| "refusal_message (NonBlob p obj_type) = ''instafy: blocked non-blob object for '' @ hook_quoted p @ '' (type='' @ obj_type @ '')''"
| "refusal_message (TooLargeBlob p bytes limit) = ''instafy: file too large '' @ hook_quoted p @ '' ('' @ bytes @ '' bytes > '' @ limit @ '')''"

definition change_report :: "(string \<Rightarrow> string \<Rightarrow> bool) \<Rightarrow> string \<Rightarrow> bool \<Rightarrow> string \<Rightarrow> string \<Rightarrow> path_refusal list" where
  "change_report glob deny_extra slot meta path =
     (let new_mode = change_word 1 meta; status = change_word 4 meta in
      if status = ''D'' \<and> slot then []
      else if is_denied_path glob deny_extra path then [BlockedPath path]
      else if status = ''D'' then []
      else if new_mode = ''160000'' then [NonBlob path ''commit'']
      else [])"

fun report_changes :: "(string \<Rightarrow> string \<Rightarrow> bool) \<Rightarrow> string \<Rightarrow> bool \<Rightarrow> string list \<Rightarrow> path_refusal list" where
  "report_changes glob deny_extra slot (meta # path # fs) =
     (if meta = ''end'' then []
      else change_report glob deny_extra slot meta path @ report_changes glob deny_extra slot fs)"
| "report_changes glob deny_extra slot _ = []"

definition blob_report :: "string \<Rightarrow> string \<Rightarrow> string \<Rightarrow> path_refusal list" where
  "blob_report max_blob path line =
     (let ws = read_words 1 line; obj_type = (if ws ! 1 = ''missing'' then ''missing'' else ws ! 0) in
      if obj_type \<noteq> ''blob'' then [NonBlob path obj_type]
      else if all_digits (ws ! 1) \<and> parse_digits (ws ! 1) > parse_digits max_blob then [TooLargeBlob path (ws ! 1) max_blob]
      else [])"

definition hygiene_report ::
  "repo_view \<Rightarrow> (string \<Rightarrow> string \<Rightarrow> bool) \<Rightarrow> string \<Rightarrow> string \<Rightarrow> bool \<Rightarrow> string \<Rightarrow> string \<Rightarrow> path_refusal list" where
  "hygiene_report rv glob deny_extra max_blob slot newcommit against =
     (let (fs, ok) = rv_diff_tree rv against newcommit; fs = fs @ (if ok then [''end''] else [])
      in report_changes glob deny_extra slot fs @
         (case scan_changes glob deny_extra slot fs \<lparr>ch_blobs = [], ch_refused = False\<rparr> of
            None \<Rightarrow> []
          | Some cs \<Rightarrow>
              (let lines = (if ch_blobs cs = [] then [] else rv_batch_check rv (map snd (ch_blobs cs)))
               in concat (map (\<lambda>((path, _), line). blob_report max_blob path line) (zip (ch_blobs cs) lines)))))"

definition accepted_base :: "repo_view \<Rightarrow> hook_config \<Rightarrow> ref_update \<Rightarrow> string" where
  "accepted_base rv hc ru =
     (if \<not> is_zero (ru_oldrev ru) then ru_oldrev ru
      else case (if ru_refname ru \<noteq> main_ref hc then rv_commit rv (main_ref hc) else None) of
        Some base \<Rightarrow> base
      | None \<Rightarrow> rv_empty_tree rv)"

text \<open>\<open>${GIT_MAX_BLOB_BYTES:-20971520}\<close>.\<close>

definition max_blob_bytes :: "hook_config \<Rightarrow> string" where
  "max_blob_bytes hc =
     (case hc_max_blob_bytes hc of
        Some v \<Rightarrow> (if v = [] then ''20971520'' else v) | None \<Rightarrow> ''20971520'')"

definition content_rules ::
  "repo_view \<Rightarrow> (string \<Rightarrow> string \<Rightarrow> bool) \<Rightarrow> hook_config \<Rightarrow> ref_update \<Rightarrow> refusal option" where
  "content_rules rv glob hc ru =
     (case rv_commit rv (ru_newrev ru) of
        None \<Rightarrow> Some NotACommit
      | Some newcommit \<Rightarrow>
          (let max_blob = max_blob_bytes hc in
           if \<not> all_digits max_blob then Some BadLimit
           else
             (let slot = working_slot (ru_refname ru);
                  base = accepted_base rv hc ru;
                  parent = (if slot then rv_first_parent rv newcommit else None);
                  base = (case parent of
                            Some p \<Rightarrow> (if rv_is_ancestor rv p (main_ref hc) then p else base)
                          | None \<Rightarrow> base);
                  check = check_changes rv glob (hc_deny_paths hc) (parse_digits max_blob) slot newcommit
              in case check base of
                   Some r \<Rightarrow> Some r
                 | None \<Rightarrow>
                     (case parent of
                        Some p \<Rightarrow> (if p \<noteq> [] \<and> p \<noteq> base then check p else None)
                      | None \<Rightarrow> None))))"

subsection \<open>The script\<close>

definition update_hook ::
  "repo_view \<Rightarrow> (string \<Rightarrow> string \<Rightarrow> bool) \<Rightarrow> hook_config \<Rightarrow> ref_update \<Rightarrow> refusal option" where
  "update_hook rv glob hc ru =
     (case ref_boundaries rv hc ru of
        Some r \<Rightarrow> Some r
      | None \<Rightarrow>
          (if hc_policy_disabled hc then None
           else case main_branch_rules rv hc ru of
             Some r \<Rightarrow> Some r
           | None \<Rightarrow>
               (if is_zero (ru_newrev ru) then None
                else case reserved_refs ru of
                  Some r \<Rightarrow> Some r
                | None \<Rightarrow> content_rules rv glob hc ru)))"

section \<open>The shell against the Rust code\<close>

lemma star_match_literal:
  "CHR ''*'' \<notin> set l \<Longrightarrow> star_match (l @ p) s \<longleftrightarrow> (\<exists>r. s = l @ r \<and> star_match p r)"
proof (induction l arbitrary: s)
  case Nil
  show ?case by simp
next
  case (Cons c l)
  then have "c \<noteq> CHR ''*''" by auto
  with Cons show ?case by (cases s) auto
qed

lemma star_match_star: "star_match (CHR ''*'' # p) s \<longleftrightarrow> (\<exists>l r. s = l @ r \<and> star_match p r)"
proof (induction s)
  case Nil
  show ?case by simp
next
  case (Cons c s)
  have "star_match (CHR ''*'' # p) (c # s) \<longleftrightarrow> star_match p (c # s) \<or> star_match (CHR ''*'' # p) s" by simp
  also have "\<dots> \<longleftrightarrow> (\<exists>l r. c # s = l @ r \<and> star_match p r)"
    unfolding Cons by (auto simp: Cons_eq_append_conv)
  finally show ?case .
qed

declare star_match.simps(2) [simp del]

lemma star_match_all: "star_match ''*'' s"
  by (simp add: star_match_star)

lemma star_match_prefix: "CHR ''*'' \<notin> set l \<Longrightarrow> star_match (l @ ''*'') s \<longleftrightarrow> starts_with s l"
  by (simp add: star_match_literal star_match_all starts_with_iff_prefix prefix_def)

lemma star_match_infix: "CHR ''*'' \<notin> set l \<Longrightarrow> star_match (''*'' @ l @ ''*'') s \<longleftrightarrow> contains_str s l"
  by (auto simp: star_match_star star_match_literal star_match_all contains_str_iff)

lemma literal_no_star: "is_literal_pattern v \<Longrightarrow> CHR ''*'' \<notin> set v"
  by (auto simp: is_literal_pattern_def list_all_iff ascii_defs)

lemma deny_patterns_literal: "list_all is_literal_pattern repo_policy_deny_patterns"
  unfolding repo_policy_deny_patterns_def by code_simp

lemma case_entry_iff:
  assumes "is_literal_pattern entry"
  shows "star_match (entry @ ''/*'') p \<or> star_match (''*/'' @ entry @ ''/*'') p \<longleftrightarrow>
    (case strip_prefix p entry of Some rest \<Rightarrow> starts_with rest ''/'' | None \<Rightarrow> False)
    \<or> contains_str p (''/'' @ entry @ ''/'')"
proof -
  have "star_match (entry @ ''/*'') p \<longleftrightarrow> starts_with p (entry @ ''/'')"
    using star_match_prefix [of "entry @ ''/''" p] literal_no_star [OF assms] by simp
  moreover have "starts_with p (entry @ ''/'') \<longleftrightarrow>
      (case strip_prefix p entry of Some rest \<Rightarrow> starts_with rest ''/'' | None \<Rightarrow> False)"
    by (cases "strip_prefix p entry")
      (auto simp: strip_prefix_Some starts_with_iff_prefix prefix_def strip_prefix_def split: if_splits)
  moreover have "star_match (''*/'' @ entry @ ''/*'') p \<longleftrightarrow> contains_str p (''/'' @ entry @ ''/'')"
    using star_match_infix [of "''/'' @ entry @ ''/''" p] literal_no_star [OF assms] by simp
  ultimately show ?thesis by simp
qed

lemma denied_by_case_iff: "denied_by_case p \<longleftrightarrow> repo_policy_denies_path p"
  using deny_patterns_literal case_entry_iff
  unfolding denied_by_case_def repo_policy_denies_path_def list_ex_iff list_all_iff by blast

lemma take_class_Some:
  "take_class n P s = Some r \<longleftrightarrow> (\<exists>t. s = t @ r \<and> length t = n \<and> list_all P t)"
  by (auto simp: take_class_def intro!: exI [of _ "take n s"])

text \<open>The 36 characters of a UUID in lower case.\<close>

definition dashed :: "string \<Rightarrow> bool" where
  "dashed ident \<longleftrightarrow> length ident = 36 \<and> list_all (\<lambda>(i, c). slot_id_byte i c) (enumerate 0 ident)"

lemma take_class_length: "take_class n P s = Some r \<Longrightarrow> length s = n + length r"
  by (auto simp: take_class_Some)

lemma uuid_pattern_length: "uuid_pattern s = Some r \<Longrightarrow> length s = 36 + length r"
  by (auto simp: uuid_pattern_def bind_eq_Some_conv strip_prefix_Some dest!: take_class_length)

lemma length_36E:
  assumes "length ident = 36"
  obtains c0 c1 c2 c3 c4 c5 c6 c7 c8 c9 c10 c11 c12 c13 c14 c15 c16 c17 c18 c19 c20 c21 c22 c23 c24 c25 c26 c27
    c28 c29 c30 c31 c32 c33 c34 c35 where "ident = [c0, c1, c2, c3, c4, c5, c6, c7, c8, c9, c10, c11, c12, c13,
      c14, c15, c16, c17, c18, c19, c20, c21, c22, c23, c24, c25, c26, c27, c28, c29, c30, c31, c32, c33, c34, c35]"
  using assms by (auto simp: numeral_eq_Suc length_Suc_conv)

lemma uuid_pattern_36:
  assumes "length ident = 36"
  shows "uuid_pattern (ident @ r) = (if dashed ident then Some r else None)"
  using assms
  by (elim length_36E) (simp add: dashed_def slot_id_byte_def uuid_pattern_def take_class_def strip_prefix_def)

lemma uuid_pattern_Some: "uuid_pattern s = Some r \<longleftrightarrow> (\<exists>ident. s = ident @ r \<and> dashed ident)"
proof
  assume u: "uuid_pattern s = Some r"
  note l = uuid_pattern_length [OF u]
  define ident where "ident = take 36 s"
  have s: "s = ident @ drop 36 s" and len: "length ident = 36" using l by (simp_all add: ident_def)
  from u show "\<exists>ident. s = ident @ r \<and> dashed ident"
    using uuid_pattern_36 [OF len, of "drop 36 s"] s by (metis option.distinct(1) option.inject)
next
  assume "\<exists>ident. s = ident @ r \<and> dashed ident"
  then show "uuid_pattern s = Some r" using uuid_pattern_36 dashed_def by metis
qed

lemma dashed_no_slash:
  assumes "dashed ident"
  shows "CHR ''/'' \<notin> set ident"
proof
  assume "CHR ''/'' \<in> set ident"
  then obtain i where "i < length ident" "ident ! i = CHR ''/''" by (auto simp: in_set_conv_nth)
  with assms have "slot_id_byte i (CHR ''/'')"
    unfolding dashed_def list_all_length by (auto simp: nth_enumerate_eq)
  then show False by (auto simp: slot_id_byte_def ascii_defs split: if_splits)
qed


lemma recovery_ref_pattern_iff:
  "recovery_ref_pattern refname \<longleftrightarrow>
     (\<exists>ident name. refname = recovery_ref_root @ ''/'' @ ident @ ''/'' @ name \<and> dashed ident
        \<and> name \<noteq> [] \<and> list_all recovery_name_char name)"
proof -
  have "recovery_ref_pattern refname \<longleftrightarrow>
      (\<exists>name. Option.bind (Option.bind (strip_prefix refname (recovery_ref_root @ ''/'')) uuid_pattern)
         (\<lambda>r. strip_prefix r ''/'') = Some name \<and> name \<noteq> [] \<and> list_all recovery_name_char name)"
    unfolding recovery_ref_pattern_def by (auto split: option.split)
  then show ?thesis
    by (auto simp: bind_eq_Some_conv strip_prefix_Some uuid_pattern_Some)
qed

lemma recovery_name_no_slash: "list_all recovery_name_char name \<Longrightarrow> CHR ''/'' \<notin> set name"
  by (auto simp: list_all_iff recovery_name_char_def ascii_defs)

lemma after_last_slash_append: "CHR ''/'' \<notin> set t \<Longrightarrow> after_last_slash (s @ CHR ''/'' # t) = t"
  by (simp add: after_last_slash_def split_on_append_sep split_on_no_sep)

lemma working_slot_iff: "working_slot refname \<longleftrightarrow> (\<exists>ident. refname = recovery_ref_root @ ''/'' @ ident @ ''/working'' \<and> dashed ident)"
proof
  assume "working_slot refname"
  then obtain ident name where r: "refname = recovery_ref_root @ ''/'' @ ident @ ''/'' @ name" and d: "dashed ident"
    and n: "list_all recovery_name_char name" "after_last_slash refname = working_slot_name"
    by (auto simp: working_slot_def recovery_ref_pattern_iff)
  have "after_last_slash refname = name"
    using after_last_slash_append [OF recovery_name_no_slash [OF n(1)], of "recovery_ref_root @ ''/'' @ ident"] r by simp
  with n r d show "\<exists>ident. refname = recovery_ref_root @ ''/'' @ ident @ ''/working'' \<and> dashed ident"
    by (auto simp: working_slot_name_def)
next
  assume "\<exists>ident. refname = recovery_ref_root @ ''/'' @ ident @ ''/working'' \<and> dashed ident"
  then obtain ident where r: "refname = recovery_ref_root @ ''/'' @ ident @ ''/'' @ working_slot_name" "dashed ident"
    by (auto simp: working_slot_name_def)
  have w: "list_all recovery_name_char working_slot_name" "working_slot_name \<noteq> []"
    by (simp_all add: working_slot_name_def recovery_name_char_def ascii_defs)
  have "after_last_slash refname = working_slot_name"
    using after_last_slash_append [OF recovery_name_no_slash [OF w(1)], of "recovery_ref_root @ ''/'' @ ident"] r by simp
  with r w show "working_slot refname" by (auto simp: working_slot_def recovery_ref_pattern_iff)
qed

lemma is_working_slot_ref_iff: "is_working_slot_ref refname \<longleftrightarrow> working_slot refname"
proof
  assume "is_working_slot_ref refname"
  then show "working_slot refname"
    unfolding is_working_slot_ref_def working_slot_iff dashed_def
    by (auto split: option.splits simp: bind_eq_Some_conv strip_prefix_Some split_once_Some working_slot_name_def)
next
  assume "working_slot refname"
  then obtain ident where r: "refname = recovery_ref_root @ ''/'' @ ident @ ''/working''" and d: "dashed ident"
    by (auto simp: working_slot_iff)
  have s: "strip_prefix refname recovery_ref_root = Some (''/'' @ ident @ ''/working'')"
    "strip_prefix (''/'' @ ident @ ''/working'') ''/'' = Some (ident @ ''/working'')"
    unfolding strip_prefix_Some r by simp_all
  have "split_once (CHR ''/'') (ident @ ''/working'') = Some (ident, ''working'')"
    using split_once_no_sep [OF dashed_no_slash [OF d]] by simp
  with s d show "is_working_slot_ref refname"
    by (simp add: is_working_slot_ref_def working_slot_name_def dashed_def)
qed

subsection \<open>A complete listing\<close>

definition listing :: "(string \<times> string) list \<Rightarrow> string list" where
  "listing changes = concat (map (\<lambda>(meta, path). [meta, path]) changes)"

lemma scan_changes_listing:
  "list_all (\<lambda>(meta, _). meta \<noteq> ''end'') changes \<Longrightarrow>
     scan_changes glob deny slot (listing changes @ [''end'']) cs =
     Some (fold (\<lambda>(meta, path). scan_change glob deny slot meta path) changes cs)"
  by (induction changes arbitrary: cs) (auto simp: listing_def)

end
