(* ===== verification/Git_Shard.thy ===== *)
theory Git_Shard
  imports Git_Edge Git_Hook
begin

text \<open>
  A Git Shard (\<open>git-service/src/bin/git-shard.rs\<close>), its configuration (\<open>config.rs\<close>), the
  environment it runs \<open>git http-backend\<close> with (\<open>git_http_backend.rs\<close>) and the push events it
  sends (\<open>events.rs\<close>). The work on repositories is an argument; what a request makes the shard do
  is the list of its \<open>shard_op\<close>s.
\<close>

section \<open>Configuration\<close>

record webhook_config =
  wh_url :: string
  wh_token :: "string option"
  wh_timeout_ms :: nat

record shard_config =
  sc_bind_host :: string
  sc_bind_port :: nat
  sc_repo_root :: string
  sc_auto_init :: bool
  sc_default_branch :: string
  sc_max_push_bytes :: nat
  sc_jwks_url :: string
  sc_audience :: string
  sc_events_webhook :: "webhook_config option"

definition default_git_max_push_bytes :: nat where
  "default_git_max_push_bytes = 1024 * 1024 * 1024"

definition parse_max_push_bytes :: "string option \<Rightarrow> string + nat" where
  "parse_max_push_bytes v =
     (case map_option trim_str v of
        None \<Rightarrow> Inr default_git_max_push_bytes
      | Some t \<Rightarrow>
          (if t = [] then Inr default_git_max_push_bytes
           else case parse_usize t of
             Some n \<Rightarrow> (if 0 < n then Inr n
                        else Inl (''GIT_MAX_PUSH_BYTES='' @ t @ '' must be a positive number of bytes''))
           | None \<Rightarrow> Inl (''GIT_MAX_PUSH_BYTES='' @ t @ '' must be a positive number of bytes'')))"

definition shard_from_env :: "url_parser \<Rightarrow> environment \<Rightarrow> string + shard_config" where
  "shard_from_env parse_url env =
     (case parse_max_push_bytes (env ''GIT_MAX_PUSH_BYTES'') of
        Inl e \<Rightarrow> Inl e
      | Inr max_push \<Rightarrow>
          (let jwks_raw = env_or env ''GIT_JWKS_URL'' ''http://host.docker.internal:8788/.well-known/jwks.json'' in
           case parse_url jwks_raw of
             Inl _ \<Rightarrow> Inl (''invalid GIT_JWKS_URL='' @ jwks_raw)
           | Inr jwks \<Rightarrow>
               (case optional_url parse_url ''GIT_EVENTS_WEBHOOK_URL'' (env_trimmed env ''GIT_EVENTS_WEBHOOK_URL'') of
                  Inl e \<Rightarrow> Inl e
                | Inr webhook \<Rightarrow>
                    Inr \<lparr>sc_bind_host = env_or env ''GIT_SHARD_BIND_HOST'' ''0.0.0.0'',
                         sc_bind_port = env_port env ''GIT_SHARD_BIND_PORT'' 8081,
                         sc_repo_root = env_or env ''GIT_REPO_ROOT'' ''/var/lib/instafy-git/repos'',
                         sc_auto_init = env_switch env ''GIT_AUTO_INIT'',
                         sc_default_branch = env_or env ''GIT_DEFAULT_BRANCH'' ''main'',
                         sc_max_push_bytes = max_push,
                         sc_jwks_url = jwks,
                         sc_audience = env_or env ''GIT_AUDIENCE'' ''git'',
                         sc_events_webhook = map_option
                           (\<lambda>url. \<lparr>wh_url = url, wh_token = env_trimmed env ''GIT_EVENTS_WEBHOOK_TOKEN'',
                                   wh_timeout_ms = env_u64 env ''GIT_EVENTS_WEBHOOK_TIMEOUT_MS'' 100 3000\<rparr>)
                           webhook\<rparr>)))"

section \<open>Deleting a repository\<close>

definition git_delete_token_subject :: string where
  "git_delete_token_subject = ''instafy-controller''"

definition git_delete_token_ttl_seconds :: int where
  "git_delete_token_ttl_seconds = 60"

text \<open>\<open>i64::checked_sub\<close>.\<close>

definition checked_sub_i64 :: "int \<Rightarrow> int \<Rightarrow> int option" where
  "checked_sub_i64 a b = (let d = a - b in if - (2 ^ 63) \<le> d \<and> d < 2 ^ 63 then Some d else None)"

definition controller_scoped :: "access_claims \<Rightarrow> bool" where
  "controller_scoped c \<longleftrightarrow>
     cl_origin_id c = None \<and> cl_runtime_id c = None \<and> cl_lease_id c = None \<and> cl_runtime_generation c = None
     \<and> cl_run_id c = None \<and> cl_prefer_runtime c = None \<and> cl_actor_label c = None \<and> cl_browser_session_id c = None"

definition validate_repository_delete_claims :: "access_claims \<Rightarrow> string \<Rightarrow> service_error + unit" where
  "validate_repository_delete_claims claims repo_name =
     (if cl_protocol claims \<noteq> Some ''git'' then Inl (Forbidden ''token protocol mismatch'')
      else if cl_project_id claims \<noteq> repo_name then Inl (Forbidden ''project mismatch'')
      else if cl_sub claims \<noteq> git_delete_token_subject
      then Inl (Forbidden ''repository deletion token subject mismatch'')
      else if cl_scopes claims \<noteq> [git_delete_scope]
      then Inl (Forbidden ''repository deletion requires exact git.delete scope'')
      else if \<not> controller_scoped claims
      then Inl (Forbidden ''repository deletion token must be controller-scoped'')
      else if checked_sub_i64 (cl_exp claims) (cl_iat claims) \<noteq> Some git_delete_token_ttl_seconds
      then Inl (Forbidden ''repository deletion token lifetime mismatch'')
      else Inr ())"

definition repository_delete_response :: "nat \<Rightarrow> string \<Rightarrow> http_response" where
  "repository_delete_response status result =
     \<lparr>rs_status = status, rs_headers = [(git_delete_result_header, result)]\<rparr>"

section \<open>Running \<open>git http-backend\<close>\<close>

record backend_options =
  bo_repo_root :: string
  bo_hooks_dir :: string
  bo_max_push_bytes :: nat
  bo_push_report :: "string option"
  bo_persist_push :: bool

definition backend_config :: "backend_options \<Rightarrow> (string \<times> string) list" where
  "backend_config bo =
     [(''core.hooksPath'', bo_hooks_dir bo),
      (''http.receivepack'', ''true''),
      (''receive.fsckObjects'', ''true''),
      (''transfer.fsckObjects'', ''true''),
      (''receive.maxInputSize'', show_nat (bo_max_push_bytes bo))]"

definition removed_backend_env :: "string list" where
  "removed_backend_env = [''GIT_CONFIG_PARAMETERS'', push_report_env, persist_push_env]"

definition backend_config_env :: "backend_options \<Rightarrow> (string \<times> string) list" where
  "backend_config_env bo =
     (''GIT_CONFIG_COUNT'', show_nat (length (backend_config bo)))
     # concat (map (\<lambda>(i, (k, v)). [(''GIT_CONFIG_KEY_'' @ show_nat i, k), (''GIT_CONFIG_VALUE_'' @ show_nat i, v)])
                (enumerate 0 (backend_config bo)))"

text \<open>\<open>Command::env\<close>, \<open>envs\<close> and \<open>env_remove\<close> on the environment the child starts with.\<close>

definition set_env :: "string \<times> string \<Rightarrow> environment \<Rightarrow> environment" where
  "set_env kv env = env(fst kv \<mapsto> snd kv)"

definition unset_env :: "string \<Rightarrow> environment \<Rightarrow> environment" where
  "unset_env k env = env(k := None)"

definition backend_env :: "backend_options \<Rightarrow> git_request \<Rightarrow> environment \<Rightarrow> environment" where
  "backend_env bo rq inherited =
     (let env = fold set_env [(''GIT_PROJECT_ROOT'', bo_repo_root bo), (''GIT_HTTP_EXPORT_ALL'', ''1'')] inherited;
          env = fold unset_env removed_backend_env env;
          env = fold set_env (backend_config_env bo) env;
          env = (case bo_push_report bo of Some r \<Rightarrow> set_env (push_report_env, r) env | None \<Rightarrow> env);
          env = (if bo_persist_push bo then set_env (persist_push_env, ''1'') env else env);
          header = (\<lambda>k. case Option.bind (map_of (rq_headers rq) k) header_to_str of Some v \<Rightarrow> v | None \<Rightarrow> [])
      in fold set_env
           [(''PATH_INFO'', rq_path rq), (''REQUEST_METHOD'', rq_method rq),
            (''QUERY_STRING'', case rq_query rq of Some q \<Rightarrow> q | None \<Rightarrow> []),
            (''REMOTE_ADDR'', ''0.0.0.0''), (''CONTENT_TYPE'', header ''content-type''),
            (''CONTENT_LENGTH'', header ''content-length'')] env)"

section \<open>The handler\<close>

datatype shard_op =
    DeleteBareRepo string
  | EnsureRepo string
  | HttpBackend environment

record shard_env =
  sv_parse_uuid :: "string \<Rightarrow> uuid option"
  sv_print_uuid :: "uuid \<Rightarrow> string"
  sv_basic :: "string \<Rightarrow> string option"
  sv_validate :: "string \<Rightarrow> string \<Rightarrow> service_error + access_claims"
  sv_delete :: "string \<Rightarrow> service_error + unit"
  sv_ensure :: "string \<Rightarrow> service_error + unit"
  sv_report :: "string option"
  sv_backend :: "environment \<Rightarrow> service_error + http_response"
  sv_inherited :: environment

definition is_receive_pack_request :: "git_request \<Rightarrow> bool" where
  "is_receive_pack_request rq \<longleftrightarrow>
     rq_method rq = ''POST'' \<and> contains_str (to_ascii_lowercase (rq_path rq)) ''git-receive-pack''"

definition authorize_repository_delete ::
  "shard_env \<Rightarrow> shard_config \<Rightarrow> header_map \<Rightarrow> string \<Rightarrow> service_error + unit" where
  "authorize_repository_delete sv cfg headers repo_name =
     (case extract_token (sv_basic sv) headers of
        Inl e \<Rightarrow> Inl e
      | Inr token \<Rightarrow>
          (case sv_validate sv token (sc_audience cfg) of
             Inl e \<Rightarrow> Inl e
           | Inr claims \<Rightarrow> validate_repository_delete_claims claims repo_name))"

definition handle_authorized_repository_delete ::
  "shard_env \<Rightarrow> string \<Rightarrow> service_error + http_response" where
  "handle_authorized_repository_delete sv repo_dir =
     (case sv_delete sv repo_dir of
        Inr _ \<Rightarrow> Inr (repository_delete_response 204 git_delete_result_deleted)
      | Inl (NotFound _) \<Rightarrow> Inr (repository_delete_response 404 git_delete_result_absent)
      | Inl e \<Rightarrow> Inl e)"

definition request_options :: "shard_env \<Rightarrow> shard_config \<Rightarrow> string \<Rightarrow> bool \<Rightarrow> git_request \<Rightarrow> backend_options" where
  "request_options sv cfg hooks_dir reports rq =
     \<lparr>bo_repo_root = sc_repo_root cfg, bo_hooks_dir = hooks_dir,
      bo_max_push_bytes = sc_max_push_bytes cfg,
      bo_push_report = (if reports \<and> is_receive_pack_request rq then sv_report sv else None),
      bo_persist_push = contains_key (rq_headers rq) git_push_scope_header\<rparr>"

definition handle_git ::
  "shard_env \<Rightarrow> shard_config \<Rightarrow> string \<Rightarrow> bool \<Rightarrow> git_request \<Rightarrow> (service_error + http_response) \<times> shard_op list" where
  "handle_git sv cfg hooks_dir reports rq =
     (case parse_repo_segment (rq_path rq) of
        Inl e \<Rightarrow> (Inl e, [])
      | Inr (repo_dir, repo_name) \<Rightarrow>
          (case is_exact_repo_root_delete (sv_parse_uuid sv) (sv_print_uuid sv) (rq_method rq) (rq_path rq) (rq_query rq) of
             Inl e \<Rightarrow> (Inl e, [])
           | Inr True \<Rightarrow>
               (case authorize_repository_delete sv cfg (rq_headers rq) repo_name of
                  Inl e \<Rightarrow> (Inl e, [])
                | Inr _ \<Rightarrow> (handle_authorized_repository_delete sv repo_dir, [DeleteBareRepo repo_dir]))
           | Inr False \<Rightarrow>
               (case sv_ensure sv repo_dir of
                  Inl e \<Rightarrow> (Inl e, [EnsureRepo repo_dir])
                | Inr _ \<Rightarrow>
                    (let env = backend_env (request_options sv cfg hooks_dir reports rq) rq (sv_inherited sv)
                     in (sv_backend sv env, [EnsureRepo repo_dir, HttpBackend env])))))"

section \<open>Push events\<close>

record push_ref_update =
  pu_ref_name :: string
  pu_old_rev :: "string option"
  pu_new_rev :: "string option"
  pu_deleted :: bool

definition is_object_id :: "string \<Rightarrow> bool" where
  "is_object_id v \<longleftrightarrow> length v \<in> {40, 64} \<and> list_all is_lower_hex v"

definition is_zero_object_id :: "string \<Rightarrow> bool" where
  "is_zero_object_id v \<longleftrightarrow> list_all (\<lambda>c. c = CHR ''0'') v"

text \<open>\<open>str::lines\<close>: split at line feeds, a carriage return before one dropped, no last empty line.\<close>

definition chop_cr :: "string \<Rightarrow> string" where
  "chop_cr l = (if ends_with l [CHR 0x0D] then butlast l else l)"

definition str_lines :: "string \<Rightarrow> string list" where
  "str_lines s =
     (let ls = split_on (CHR 0x0A) s in
      if last ls = [] then map chop_cr (butlast ls) else map chop_cr (butlast ls) @ [last ls])"

definition push_update :: "string \<Rightarrow> string \<Rightarrow> string \<Rightarrow> push_ref_update" where
  "push_update old_rev new_rev ref_name =
     (let old = (if is_zero_object_id old_rev then None else Some old_rev);
          new = (if is_zero_object_id new_rev then None else Some new_rev)
      in \<lparr>pu_ref_name = ref_name, pu_old_rev = old, pu_new_rev = new, pu_deleted = (new = None)\<rparr>)"

definition report_line :: "string \<Rightarrow> (string \<times> push_ref_update) list \<Rightarrow> (string \<times> push_ref_update) list option" where
  "report_line line updates =
     (case split_on (CHR '' '') line of
        [old_rev, new_rev, ref_name] \<Rightarrow>
          (if \<not> is_object_id old_rev \<or> \<not> is_object_id new_rev \<or> \<not> starts_with ref_name ''refs/'' then None
           else if \<not> starts_with ref_name ''refs/heads/'' \<and> \<not> starts_with ref_name ''refs/tags/'' then Some updates
           else Some (btree_entry ref_name (\<lambda>_. push_update old_rev new_rev ref_name) updates))
      | _ \<Rightarrow> None)"

definition parse_push_report :: "byte list \<Rightarrow> push_ref_update list option" where
  "parse_push_report report =
     (case from_utf8 report of
        None \<Rightarrow> None
      | Some t \<Rightarrow> map_option (map snd) (try_fold report_line (str_lines t) []))"

record push_event =
  pe_schema :: string
  pe_kind :: string
  pe_repo :: string
  pe_project_id :: "string option"
  pe_default_branch :: string
  pe_updates :: "push_ref_update list"
  pe_received_at_ms :: nat

definition build_push_event_payload ::
  "(string \<Rightarrow> uuid option) \<Rightarrow> (uuid \<Rightarrow> string) \<Rightarrow> nat \<Rightarrow> string \<Rightarrow> string \<Rightarrow> push_ref_update list \<Rightarrow> push_event option" where
  "build_push_event_payload try_parse print now_ms repo default_branch updates =
     (if updates = [] then None
      else
        (let repo_name = trim_str repo in
         if repo_name = [] then None
         else Some \<lparr>pe_schema = ''instafy.git-service.event.v1'',
                    pe_kind = ''git.push.received'',
                    pe_repo = repo_name,
                    pe_project_id = map_option print (try_parse (trim_str (trim_end_str ''.git'' repo_name))),
                    pe_default_branch = trim_str default_branch,
                    pe_updates = updates,
                    pe_received_at_ms = now_ms\<rparr>))"

text \<open>The event sent once \<open>git receive-pack\<close> has exited: \<open>contents\<close> is what could be read of the
  report.\<close>

definition dispatch_push_event_after_exit ::
  "(string \<Rightarrow> uuid option) \<Rightarrow> (uuid \<Rightarrow> string) \<Rightarrow> nat \<Rightarrow> shard_config \<Rightarrow> string \<Rightarrow> byte list option \<Rightarrow>
   (webhook_config \<times> push_event) option" where
  "dispatch_push_event_after_exit try_parse print now_ms cfg repo_dir contents =
     (case sc_events_webhook cfg of
        None \<Rightarrow> None
      | Some webhook \<Rightarrow>
          (case Option.bind contents parse_push_report of
             None \<Rightarrow> None
           | Some updates \<Rightarrow>
               map_option (\<lambda>payload. (webhook, payload))
                 (build_push_event_payload try_parse print now_ms repo_dir (sc_default_branch cfg) updates)))"

end
