(* ===== verification/Git_Safety.thy ===== *)
theory Git_Safety
  imports Git_Shard
begin

text \<open>
  What the Git services promise, from the edge to the hook: who may reach a shard, what a rolling
  save's credential may change, which refs and paths a push may bring, when a repository is deleted,
  that a loaded configuration always routes, and that push events report what the push did.
\<close>

section \<open>What the edge sends to a shard\<close>

lemma forwarded_push_header: "(git_push_scope_header, v) \<in> set (forwarded_headers h ps) \<longleftrightarrow> ps = Some v"
  by (auto simp: forwarded_headers_def split: option.splits)

lemma proxy_request_sent:
  "fw \<in> set (snd (proxy_request ev shard rq ps)) \<Longrightarrow>
     fw_headers fw = forwarded_headers (rq_headers rq) ps \<and> fw_method fw = rq_method rq \<and> fw_query fw = rq_query rq
     \<and> fw_shard fw = shard"
  by (auto simp: proxy_request_def Let_def split: if_splits sum.splits)

definition request_scope :: "edge_env \<Rightarrow> git_request \<Rightarrow> service_error + string" where
  "request_scope ev rq = required_scope (ev_parse_uuid ev) (ev_print_uuid ev) (rq_method rq) (rq_path rq) (rq_query rq)"

lemma forward_sent:
  assumes "forward ev cfg now rq name claims cache = (res, sent, cache')" "fw \<in> set sent"
  obtains scope ps shard where "request_scope ev rq = Inr scope" "claims_decision ev rq name scope claims = Inr ps"
    "fw \<in> set (snd (proxy_request ev shard rq ps))"
proof -
  from assms obtain scope where s: "request_scope ev rq = Inr scope"
    by (cases "request_scope ev rq") (auto simp: forward_def request_scope_def)
  with assms obtain ps where ps: "claims_decision ev rq name scope claims = Inr ps"
    by (cases "claims_decision ev rq name scope claims") (auto simp: forward_def request_scope_def)
  obtain b c where bc: "pick_shard_base ev cfg now name cache = (b, c)" by (metis prod.collapse)
  with assms s ps obtain shard where "b = Inr shard"
    by (cases b) (auto simp: forward_def request_scope_def)
  with assms s ps bc that [OF s ps, of shard] show thesis
    by (auto simp: forward_def request_scope_def split: sum.splits prod.splits)
qed

lemma handle_proxy_sent:
  assumes "handle_proxy ev cfg now rq cache = (res, sent, cache')" "fw \<in> set sent"
  obtains dir name scope claims ps shard where "parse_repo_segment (rq_path rq) = Inr (dir, name)"
    "request_scope ev rq = Inr scope" "edge_claims ev cfg rq scope = Inr claims"
    "claims_decision ev rq name scope claims = Inr ps" "fw \<in> set (snd (proxy_request ev shard rq ps))"
proof -
  from assms obtain dir name where p: "parse_repo_segment (rq_path rq) = Inr (dir, name)"
    by (cases "parse_repo_segment (rq_path rq)") (auto simp: handle_proxy_def)
  with assms obtain scope where s: "request_scope ev rq = Inr scope"
    by (cases "request_scope ev rq") (auto simp: handle_proxy_def request_scope_def)
  with assms p obtain claims where c: "edge_claims ev cfg rq scope = Inr claims"
    by (cases "edge_claims ev cfg rq scope") (auto simp: handle_proxy_def request_scope_def)
  from assms p s c have "forward ev cfg now rq name claims cache = (res, sent, cache')"
    by (simp add: handle_proxy_def request_scope_def)
  from forward_sent [OF this assms(2)] s c p that show thesis by (metis sum.inject(2))
qed

lemma edge_claims_Some:
  assumes "edge_claims ev cfg rq scope = Inr claims" "request_requires_auth (ec_skip_auth cfg) scope"
  obtains token c where "extract_token (ev_basic ev) (rq_headers rq) = Inr token"
    "ev_validate ev token (ec_audience cfg) = Inr c" "claims = Some c"
  using assms by (auto simp: edge_claims_def split: sum.splits)

lemma claims_decision_Some:
  assumes "claims_decision ev rq name scope (Some c) = Inr ps" "request_scope ev rq = Inr scope"
  shows "ps = push_scope_assertion c scope" "cl_protocol c = Some ''git''" "cl_project_id c = name"
    "has_scope c scope \<or> (scope = git_write_scope \<and> ps = Some git_persist_scope)"
proof -
  from assms(1) have a: "authorize_request_claims (ev_parse_uuid ev) (ev_print_uuid ev) c
      (rq_method rq) (rq_path rq) (rq_query rq) name = Inr ()" and p: "ps = push_scope_assertion c scope"
    unfolding claims_decision_def option.case by (simp_all split: sum.splits)
  show "ps = push_scope_assertion c scope" by (rule p)
  show "cl_protocol c = Some ''git''" "cl_project_id c = name"
    "has_scope c scope \<or> (scope = git_write_scope \<and> ps = Some git_persist_scope)"
    using authorize_Inr [OF a assms(2) [unfolded request_scope_def]] p by simp_all
qed

section \<open>The environment of the hook\<close>

lemma fold_set_env_other: "k \<notin> fst ` set kvs \<Longrightarrow> fold set_env kvs env k = env k"
  by (induction kvs arbitrary: env) (auto simp: set_env_def)

lemma fold_unset_env_other: "k \<notin> set ks \<Longrightarrow> fold unset_env ks env k = env k"
  by (induction ks arbitrary: env) (auto simp: unset_env_def)

lemma fold_unset_env: "k \<in> set ks \<Longrightarrow> fold unset_env ks env k = None"
proof (induction ks arbitrary: env)
  case (Cons a ks)
  show ?case
  proof (cases "k \<in> set ks")
    case True
    with Cons.IH show ?thesis by simp
  next
    case False
    with Cons.prems show ?thesis by (simp add: fold_unset_env_other) (simp add: unset_env_def)
  qed
qed simp

lemma config_env_no_persist: "persist_push_env \<notin> fst ` set (backend_config_env bo)"
  by (auto simp: backend_config_env_def backend_config_def persist_push_env_def)

lemma backend_env_persist:
  "backend_env bo rq inherited persist_push_env = (if bo_persist_push bo then Some ''1'' else None)"
proof -
  have r: "push_report_env \<noteq> persist_push_env" "persist_push_env \<in> set removed_backend_env"
    by (simp_all add: push_report_env_def persist_push_env_def removed_backend_env_def)
  have o: "persist_push_env \<notin> fst ` set [(''PATH_INFO'', a), (''REQUEST_METHOD'', b), (''QUERY_STRING'', c),
      (''REMOTE_ADDR'', ''0.0.0.0''), (''CONTENT_TYPE'', d), (''CONTENT_LENGTH'', e)]" for a b c d e :: string
    by (simp add: persist_push_env_def)
  show ?thesis
    unfolding backend_env_def Let_def fold_set_env_other [OF o]
    using r(1) by (auto simp: set_env_def fold_set_env_other [OF config_env_no_persist] fold_unset_env [OF r(2)]
        split: option.splits)
qed

section \<open>The hook\<close>

lemma hook_None:
  assumes "update_hook rv glob hc ru = None"
  shows "ref_boundaries rv hc ru = None"
    and "\<not> hc_policy_disabled hc \<Longrightarrow> main_branch_rules rv hc ru = None"
    and "\<not> hc_policy_disabled hc \<Longrightarrow> \<not> is_zero (ru_newrev ru) \<Longrightarrow>
           reserved_refs ru = None \<and> content_rules rv glob hc ru = None"
  using assms by (simp_all add: update_hook_def split: option.splits if_splits)

lemma boundaries_None:
  assumes "ref_boundaries rv hc ru = None"
  shows "\<not> at_or_under salvage_ref_root (to_ascii_lowercase (ru_refname ru))"
    and "hc_persist_push hc \<Longrightarrow> recovery_ref_pattern (ru_refname ru) \<and>
           (working_slot (ru_refname ru) \<or> is_zero (ru_oldrev ru) \<and> \<not> is_zero (ru_newrev ru))"
    and "starts_with (to_ascii_lowercase (ru_refname ru)) (recovery_ref_root @ ''/'') \<Longrightarrow>
           working_slot (ru_refname ru) \<or> is_zero (ru_oldrev ru) \<or> is_zero (ru_newrev ru)"
  using assms unfolding ref_boundaries_def Let_def by (simp_all split: if_splits)

lemma handle_git_backend:
  assumes "handle_git sv cfg hooks_dir reports rq = (res, ops)" "HttpBackend env \<in> set ops"
  shows "env = backend_env (request_options sv cfg hooks_dir reports rq) rq (sv_inherited sv)"
proof -
  from assms obtain d name where p: "parse_repo_segment (rq_path rq) = Inr (d, name)"
    by (auto simp: handle_git_def split: sum.splits)
  let ?x = "is_exact_repo_root_delete (sv_parse_uuid sv) (sv_print_uuid sv) (rq_method rq) (rq_path rq) (rq_query rq)"
  from assms p have "?x = Inr False"
    by (cases ?x) (auto simp: handle_git_def split: sum.splits bool.splits)
  with assms p show ?thesis by (auto simp: handle_git_def Let_def split: sum.splits)
qed

lemma edge_claims_token:
  assumes "edge_claims ev cfg rq scope = Inr claims" "\<not> ec_skip_auth cfg"
    "extract_token (ev_basic ev) (rq_headers rq) = Inr token" "ev_validate ev token (ec_audience cfg) = Inr c"
  shows "claims = Some c"
  using assms by (simp add: edge_claims_def request_requires_auth_def)

section \<open>Paths and blobs\<close>

definition change_refused :: "(string \<Rightarrow> string \<Rightarrow> bool) \<Rightarrow> string \<Rightarrow> string \<times> string \<Rightarrow> bool" where
  "change_refused glob deny ch \<longleftrightarrow>
     is_denied_path glob deny (snd ch) \<or> (change_word 4 (fst ch) \<noteq> ''D'' \<and> change_word 1 (fst ch) = ''160000'')"

lemma scan_change_not_slot:
  "scan_change glob deny False meta path cs =
     \<lparr>ch_blobs = ch_blobs cs @ (if \<not> change_refused glob deny (meta, path) \<and> change_word 4 meta \<noteq> ''D''
        then [(path, change_word 3 meta)] else []),
      ch_refused = (ch_refused cs \<or> change_refused glob deny (meta, path))\<rparr>"
  unfolding scan_change_def change_refused_def Let_def fst_conv snd_conv by (cases cs) simp

lemma fold_scan_change:
  "fold (\<lambda>(meta, path). scan_change glob deny False meta path) changes cs =
     \<lparr>ch_blobs = ch_blobs cs @ map (\<lambda>(meta, path). (path, change_word 3 meta))
        (filter (\<lambda>ch. \<not> change_refused glob deny ch \<and> change_word 4 (fst ch) \<noteq> ''D'') changes),
      ch_refused = (ch_refused cs \<or> list_ex (change_refused glob deny) changes)\<rparr>"
  by (induction changes arbitrary: cs) (auto simp: scan_change_not_slot)

lemma check_changes_None:
  assumes "check_changes rv glob deny limit False commit against = None"
    and "rv_diff_tree rv against commit = (listing changes, True)"
    and "list_all (\<lambda>(meta, _). meta \<noteq> ''end'') changes"
    and "rv_batch_check rv = map describe" and "(meta, path) \<in> set changes"
  shows "\<not> is_denied_path glob deny path" and "change_word 4 meta \<noteq> ''D'' \<Longrightarrow> change_word 1 meta \<noteq> ''160000''"
    and "change_word 4 meta \<noteq> ''D'' \<Longrightarrow> \<not> blob_refused limit (describe (change_word 3 meta))"
proof -
  let ?blobs = "map (\<lambda>(meta, path). (path, change_word 3 meta))
        (filter (\<lambda>ch. \<not> change_refused glob deny ch \<and> change_word 4 (fst ch) \<noteq> ''D'') changes)"
  have r: "\<not> list_ex (change_refused glob deny) changes"
    and b: "\<not> list_ex (blob_refused limit) (map describe (map snd ?blobs))"
    using assms(1) unfolding check_changes_def assms(2) Let_def prod.case if_True
      scan_changes_listing [OF assms(3)] fold_scan_change option.case assms(4)
    by (auto split: if_splits)
  from r assms(5) have n: "\<not> change_refused glob deny (meta, path)" by (auto simp: list_ex_iff)
  then show "\<not> is_denied_path glob deny path"
    and m: "change_word 4 meta \<noteq> ''D'' \<Longrightarrow> change_word 1 meta \<noteq> ''160000''"
    by (auto simp: change_refused_def)
  show "\<not> blob_refused limit (describe (change_word 3 meta))" if "change_word 4 meta \<noteq> ''D''"
    using b assms(5) n that by (force simp: list_ex_iff)
qed

section \<open>Routing\<close>

lemma edge_from_env_Inr:
  assumes "edge_from_env parse_url env = Inr cfg"
  shows "ec_shards cfg \<noteq> []" and "ec_routing_mode cfg = RouteController \<Longrightarrow> ec_controller_url cfg \<noteq> None"
  using assms unfolding edge_from_env_def Let_def by (auto split: sum.splits if_splits)

section \<open>Push reports\<close>

definition report_text :: "(string \<times> string \<times> string) list \<Rightarrow> string" where
  "report_text moves = concat (map (\<lambda>(old, new, r). old @ '' '' @ new @ '' '' @ r @ [CHR 0x0A]) moves)"

definition reportable :: "string \<times> string \<times> string \<Rightarrow> bool" where
  "reportable mv \<longleftrightarrow> (case mv of (old, new, r) \<Rightarrow>
     is_object_id old \<and> is_object_id new \<and> starts_with r ''refs/'' \<and> CHR '' '' \<notin> set r \<and> CHR 0x0A \<notin> set r
     \<and> CHR 0x0D \<notin> set r)"

definition branch_or_tag :: "string \<Rightarrow> bool" where
  "branch_or_tag r \<longleftrightarrow> starts_with r ''refs/heads/'' \<or> starts_with r ''refs/tags/''"

definition last_move :: "(string \<times> string \<times> string) list \<Rightarrow> string \<Rightarrow> (string \<times> string) option" where
  "last_move moves = map_of (rev (map (\<lambda>(old, new, r). (r, (old, new))) moves))"

lemma split_on_lines:
  "list_all (\<lambda>l. d \<notin> set l) ls \<Longrightarrow> split_on d (concat (map (\<lambda>l. l @ [d]) ls)) = ls @ [[]]"
  by (induction ls) (auto simp: split_on_append_sep split_on_no_sep)

lemma chop_cr_id: "CHR 0x0D \<notin> set l \<Longrightarrow> chop_cr l = l"
  by (auto simp: chop_cr_def ends_with_iff_suffix suffix_def)

lemma str_lines_lines:
  assumes "list_all (\<lambda>l. CHR 0x0A \<notin> set l \<and> CHR 0x0D \<notin> set l) ls"
  shows "str_lines (concat (map (\<lambda>l. l @ [CHR 0x0A]) ls)) = ls"
proof -
  have "list_all (\<lambda>l. CHR 0x0A \<notin> set l) ls" using assms by (simp add: list_all_iff)
  then have s: "split_on (CHR 0x0A) (concat (map (\<lambda>l. l @ [CHR 0x0A]) ls)) = ls @ [[]]" by (rule split_on_lines)
  have "map chop_cr ls = ls" using assms by (intro map_idI) (simp add: chop_cr_id list_all_iff)
  then show ?thesis unfolding str_lines_def s by simp
qed

lemma object_id_chars: "is_object_id v \<Longrightarrow> c \<in> set v \<Longrightarrow> c \<noteq> CHR '' '' \<and> c \<noteq> CHR 0x0A \<and> c \<noteq> CHR 0x0D"
  by (auto simp: is_object_id_def list_all_iff ascii_defs)

definition move_line :: "string \<times> string \<times> string \<Rightarrow> string" where
  "move_line mv = (case mv of (old, new, r) \<Rightarrow> old @ '' '' @ new @ '' '' @ r)"

lemma report_text_lines: "report_text moves = concat (map (\<lambda>l. l @ [CHR 0x0A]) (map move_line moves))"
  by (induction moves) (auto simp: report_text_def move_line_def)

lemma move_line_chars: "reportable mv \<Longrightarrow> CHR 0x0A \<notin> set (move_line mv) \<and> CHR 0x0D \<notin> set (move_line mv)"
  by (auto simp: reportable_def move_line_def dest: object_id_chars split: prod.splits)

lemma split_move_line: "reportable (old, new, r) \<Longrightarrow> split_on (CHR '' '') (move_line (old, new, r)) = [old, new, r]"
proof -
  assume a: "reportable (old, new, r)"
  then have "CHR '' '' \<notin> set old" "CHR '' '' \<notin> set new" "CHR '' '' \<notin> set r"
    by (auto simp: reportable_def dest: object_id_chars)
  then show ?thesis by (simp add: move_line_def split_on_append_sep split_on_no_sep)
qed

definition record_move :: "string \<times> string \<times> string \<Rightarrow> (string \<times> push_ref_update) list \<Rightarrow> (string \<times> push_ref_update) list" where
  "record_move mv m = (case mv of (old, new, r) \<Rightarrow>
     if branch_or_tag r then btree_entry r (\<lambda>_. push_update old new r) m else m)"

lemma report_line_move: "reportable mv \<Longrightarrow> report_line (move_line mv) m = Some (record_move mv m)"
  by (cases mv) (simp add: report_line_def split_move_line record_move_def branch_or_tag_def, simp add: reportable_def)

lemma try_fold_report:
  "list_all reportable moves \<Longrightarrow> try_fold report_line (map move_line moves) m = Some (fold record_move moves m)"
  by (induction moves arbitrary: m) (simp_all add: report_line_move)

lemma record_move_sorted: "btree_sorted m \<Longrightarrow> btree_sorted (record_move mv m)"
  by (simp add: record_move_def btree_sorted_entry split: prod.splits)

lemma fold_record_moves:
  "btree_sorted (fold record_move moves []) \<and>
   (\<forall>r. map_of (fold record_move moves []) r =
      (if branch_or_tag r then map_option (\<lambda>(old, new). push_update old new r) (last_move moves r) else None))"
proof (induction moves rule: rev_induct)
  case Nil
  show ?case by (simp add: last_move_def)
next
  case (snoc mv moves)
  obtain old new r where mv: "mv = (old, new, r)" by (cases mv)
  define m where "m = fold record_move moves []"
  from snoc have s: "btree_sorted m" and g: "\<And>x. map_of m x =
      (if branch_or_tag x then map_option (\<lambda>(old, new). push_update old new x) (last_move moves x) else None)"
    unfolding m_def by blast+
  have l: "last_move (moves @ [mv]) x = (if x = r then Some (old, new) else last_move moves x)" for x
    by (simp add: last_move_def mv)
  have "map_of (record_move mv m) x =
      (if branch_or_tag x then map_option (\<lambda>(old, new). push_update old new x) (last_move (moves @ [mv]) x) else None)" for x
    unfolding l unfolding record_move_def mv by (simp add: map_of_btree_entry [OF s] g)
  with record_move_sorted [OF s] show ?case by (simp add: m_def)
qed

definition zero_id :: string where
  "zero_id = replicate 40 (CHR ''0'')"

definition some_id :: string where
  "some_id = replicate 40 (CHR ''a'')"

definition demo_moves :: "(string \<times> string \<times> string) list" where
  "demo_moves = [(zero_id, some_id, ''refs/heads/main''), (some_id, zero_id, ''refs/heads/old''),
     (zero_id, some_id, ''refs/instafy/x'')]"

lemma demo_moves_reportable: "list_all reportable demo_moves"
  unfolding demo_moves_def zero_id_def some_id_def by code_simp

lemma demo_ascii: "list_all (\<lambda>c. ord_of c < 0x80) (report_text demo_moves)"
  unfolding demo_moves_def zero_id_def some_id_def by code_simp

lemma demo_report: "from_utf8 (bytes_of (report_text demo_moves)) = Some (report_text demo_moves)"
  by (rule from_utf8_ascii [OF demo_ascii])

section \<open>Examples\<close>

definition demo_claims :: "string \<Rightarrow> access_claims" where
  "demo_claims scope =
     \<lparr>cl_aud = ''git'', cl_sub = ''instafy-controller'', cl_project_id = ''space'', cl_origin_id = None, cl_runtime_id = None,
      cl_protocol = Some ''git'', cl_scopes = [scope], cl_lease_id = None, cl_runtime_generation = None,
      cl_run_id = None, cl_iat = 0, cl_exp = 60, cl_jti = ''j'', cl_prefer_runtime = None,
      cl_actor_label = None, cl_browser_session_id = None\<rparr>"

definition demo_push :: git_request where
  "demo_push = \<lparr>rq_method = ''POST'', rq_path = ''/space.git/git-receive-pack'', rq_query = None,
     rq_headers = [(''authorization'', ''Bearer t''), (git_push_scope_header, ''x'')]\<rparr>"

definition demo_edge :: edge_env where
  "demo_edge = \<lparr>ev_parse_uuid = (\<lambda>s. if s = ''space'' then Some 7 else None), ev_print_uuid = (\<lambda>_. ''space''),
     ev_basic = (\<lambda>_. None), ev_validate = (\<lambda>t a. Inr (demo_claims git_persist_scope)),
     ev_parse_url = Inr, ev_can_be_base = (\<lambda>_. True), ev_method_ok = (\<lambda>_. True),
     ev_controller = (\<lambda>_ _ _. LookupFailed ''down''),
     ev_send = (\<lambda>_. Inr \<lparr>rs_status = 200, rs_headers = []\<rparr>)\<rparr>"

definition demo_edge_config :: edge_config where
  "demo_edge_config = \<lparr>ec_bind_host = [], ec_bind_port = 1, ec_skip_auth = False, ec_jwks_url = [], ec_audience = ''git'',
     ec_shards = [''a'', ''b''], ec_routing_mode = RouteHash, ec_controller_url = None, ec_controller_token = None,
     ec_route_cache_seconds = 60\<rparr>"

definition demo_shard :: shard_env where
  "demo_shard = \<lparr>sv_parse_uuid = (\<lambda>s. if s = ''space'' then Some 7 else None), sv_print_uuid = (\<lambda>_. ''space''),
     sv_basic = (\<lambda>_. None), sv_validate = (\<lambda>t a. Inr (demo_claims git_delete_scope)),
     sv_delete = (\<lambda>_. Inr ()), sv_ensure = (\<lambda>_. Inr ()), sv_report = None,
     sv_backend = (\<lambda>_. Inr \<lparr>rs_status = 200, rs_headers = []\<rparr>), sv_inherited = (\<lambda>_. None)\<rparr>"

definition demo_shard_config :: shard_config where
  "demo_shard_config = \<lparr>sc_bind_host = [], sc_bind_port = 1, sc_repo_root = ''/r'', sc_auto_init = True,
     sc_default_branch = ''main'', sc_max_push_bytes = 9, sc_jwks_url = [], sc_audience = ''git'', sc_events_webhook = None\<rparr>"

lemma demo_edge_run:
  "map fw_headers (fst (snd (handle_proxy demo_edge demo_edge_config 0 demo_push []))) =
     [[(''authorization'', ''Bearer t''), (git_push_scope_header, git_persist_scope)]]"
  by code_simp

definition demo_changes :: "(string \<times> string) list" where
  "demo_changes = [('':100644 100644 a b M'', ''src/a.rs''), ('':100644 000000 a 0 D'', ''docs/b.md'')]"

definition demo_repo :: repo_view where
  "demo_repo = \<lparr>rv_ignorecase = False, rv_is_ancestor = (\<lambda>_ _. True), rv_commit = Some, rv_first_parent = (\<lambda>_. None),
     rv_empty_tree = ''t'', rv_diff_tree = (\<lambda>_ _. (listing demo_changes, True)), rv_batch_check = map (\<lambda>_. ''blob 10'')\<rparr>"

definition demo_hook :: hook_config where
  "demo_hook = \<lparr>hc_default_branch = ''main'', hc_persist_push = False, hc_policy_disabled = False,
     hc_max_blob_bytes = None, hc_deny_paths = []\<rparr>"

definition demo_main :: ref_update where
  "demo_main = \<lparr>ru_refname = ''refs/heads/main'', ru_oldrev = ''a1'', ru_newrev = ''b2''\<rparr>"

definition demo_save :: ref_update where
  "demo_save = \<lparr>ru_refname = ''refs/instafy/recovery/12345678-1234-1234-1234-123456789abc/save-1'', ru_oldrev = ''00'', ru_newrev = ''b2''\<rparr>"

lemma demo_main_accepted: "update_hook demo_repo (\<lambda>_ _. False) demo_hook demo_main = None"
  by code_simp

definition demo_marked :: git_request where
  "demo_marked = demo_push\<lparr>rq_headers := [(''authorization'', ''Bearer t''), (git_push_scope_header, git_persist_scope)]\<rparr>"

lemma demo_marked_run:
  "list_ex (\<lambda>op. case op of HttpBackend _ \<Rightarrow> True | _ \<Rightarrow> False)
     (snd (handle_git demo_shard demo_shard_config ''/h'' False demo_marked))"
  by code_simp

lemma demo_save_accepted:
  "update_hook demo_repo (\<lambda>_ _. False)
     (hook_config_of ''main'' (backend_env (request_options demo_shard demo_shard_config ''/h'' False demo_marked) demo_marked
        (sv_inherited demo_shard))) demo_save = None"
  by code_simp

lemma demo_push_facts:
  "is_receive_pack_request demo_push" "\<not> ec_skip_auth demo_edge_config"
  "extract_token (ev_basic demo_edge) (rq_headers demo_push) = Inr ''t''"
  "\<not> has_scope (demo_claims git_persist_scope) git_write_scope"
  by code_simp+

lemma demo_changes_listed:
  "\<not> hc_policy_disabled demo_hook" "\<not> is_zero (ru_newrev demo_main)" "\<not> is_working_slot_ref (ru_refname demo_main)"
  "rv_commit demo_repo (ru_newrev demo_main) = Some ''b2''"
  "rv_diff_tree demo_repo (accepted_base demo_repo demo_hook demo_main) ''b2'' = (listing demo_changes, True)"
  "list_all (\<lambda>(meta, _). meta \<noteq> ''end'') demo_changes"
  by code_simp+

definition demo_delete :: git_request where
  "demo_delete = demo_push\<lparr>rq_method := ''DELETE'', rq_path := ''/space.git''\<rparr>"

lemma demo_delete_run:
  "list_ex (\<lambda>op. case op of DeleteBareRepo d \<Rightarrow> d = ''space.git'' | _ \<Rightarrow> False)
     (snd (handle_git demo_shard demo_shard_config ''/h'' False demo_delete))"
  by code_simp

definition demo_environment :: environment where
  "demo_environment = [''GIT_SHARDS'' \<mapsto> '' http://a , http://b'']"

section \<open>Properties\<close>

text \<open>C29. Git Edge forwards a request that needs a credential only under a validated token
  of the git protocol for exactly the repository the path names, holding the scope the request
  needs; a push let through on a rolling save's scope alone reaches the shard with the assertion
  header.\<close>

theorem edge_forwards_only_authorized:
  assumes "handle_proxy ev cfg now rq cache = (res, sent, cache')" and "fw \<in> set sent"
    and "required_scope (ev_parse_uuid ev) (ev_print_uuid ev) (rq_method rq) (rq_path rq) (rq_query rq) = Inr scope"
    and "request_requires_auth (ec_skip_auth cfg) scope"
  shows "\<exists>token c dir. extract_token (ev_basic ev) (rq_headers rq) = Inr token
    \<and> ev_validate ev token (ec_audience cfg) = Inr c \<and> cl_protocol c = Some ''git''
    \<and> parse_repo_segment (rq_path rq) = Inr (dir, cl_project_id c)
    \<and> (has_scope c scope \<or> scope = git_write_scope \<and> has_scope c git_persist_scope
         \<and> (git_push_scope_header, git_persist_scope) \<in> set (fw_headers fw))"
proof -
  from handle_proxy_sent [OF assms(1,2)] obtain dir name claims ps shard
    where p: "parse_repo_segment (rq_path rq) = Inr (dir, name)" and s: "request_scope ev rq = Inr scope"
      and e: "edge_claims ev cfg rq scope = Inr claims" and d: "claims_decision ev rq name scope claims = Inr ps"
      and f: "fw \<in> set (snd (proxy_request ev shard rq ps))"
    using assms(3) by (metis request_scope_def sum.inject(2))
  from edge_claims_Some [OF e assms(4)] obtain token c where t: "extract_token (ev_basic ev) (rq_headers rq) = Inr token"
    "ev_validate ev token (ec_audience cfg) = Inr c" and c: "claims = Some c" by blast
  note cd = claims_decision_Some [OF d [unfolded c] s]
  have "has_scope c git_persist_scope" if "ps = Some git_persist_scope"
    using that cd(1) by (simp add: push_scope_assertion_def split: if_splits)
  then show ?thesis
    using t p cd proxy_request_sent [OF f] forwarded_push_header by metis
qed

theorem edge_forwards_only_authorized_witness:
  "\<exists>token c dir. extract_token (ev_basic demo_edge) (rq_headers demo_push) = Inr token
    \<and> ev_validate demo_edge token (ec_audience demo_edge_config) = Inr c \<and> cl_protocol c = Some ''git''
    \<and> parse_repo_segment (rq_path demo_push) = Inr (dir, cl_project_id c)"
proof -
  let ?run = "handle_proxy demo_edge demo_edge_config 0 demo_push []"
  obtain res sent cache' where r: "?run = (res, sent, cache')" by (metis prod.collapse)
  with demo_edge_run obtain fw where fw: "fw \<in> set sent" by (cases sent) auto
  have s: "required_scope (ev_parse_uuid demo_edge) (ev_print_uuid demo_edge) (rq_method demo_push) (rq_path demo_push)
      (rq_query demo_push) = Inr git_write_scope" by code_simp
  have a: "request_requires_auth (ec_skip_auth demo_edge_config) git_write_scope" by code_simp
  from edge_forwards_only_authorized [OF r fw s a] show ?thesis by blast
qed

text \<open>C30. End to end: a push the edge forwards for a token without \<open>git.write\<close>
  makes the shard run git with the marker the hook reads, and every ref update the hook then
  accepts is the creation of a recovery ref or a change of a working slot. No branch, tag or other
  ref can be changed with a rolling save's credential.\<close>

theorem rolling_save_changes_only_recovery_refs:
  assumes "handle_proxy ev cfg now rq cache = (res, sent, cache')" and "fw \<in> set sent"
    and "is_receive_pack_request rq" and "\<not> ec_skip_auth cfg"
    and "extract_token (ev_basic ev) (rq_headers rq) = Inr token"
    and "ev_validate ev token (ec_audience cfg) = Inr c" and "\<not> has_scope c git_write_scope"
    and "set (fw_headers fw) \<subseteq> set (rq_headers rq')"
    and "handle_git sv scfg hooks_dir reports rq' = (res', ops)" and "HttpBackend env \<in> set ops"
    and "update_hook rv glob (hook_config_of branch env) ru = None"
  shows "recovery_ref_pattern (ru_refname ru)
    \<and> (is_working_slot_ref (ru_refname ru) \<or> is_zero (ru_oldrev ru) \<and> \<not> is_zero (ru_newrev ru))"
proof -
  obtain dir name scope claims ps shard
    where s: "request_scope ev rq = Inr scope" and e: "edge_claims ev cfg rq scope = Inr claims"
      and d: "claims_decision ev rq name scope claims = Inr ps"
      and f: "fw \<in> set (snd (proxy_request ev shard rq ps))" by (rule handle_proxy_sent [OF assms(1,2)])
  have scope: "scope = git_write_scope"
    using required_scope_push [OF s [unfolded request_scope_def]] assms(3) by (simp add: is_receive_pack_request_def)
  note c = edge_claims_token [OF e assms(4-6)]
  from claims_decision_Some(4) [OF d [unfolded c] s] assms(7) scope
  have "ps = Some git_persist_scope" by simp
  then have "(git_push_scope_header, git_persist_scope) \<in> set (fw_headers fw)"
    using proxy_request_sent [OF f] by (simp add: forwarded_push_header)
  with assms(8) have "(git_push_scope_header, git_persist_scope) \<in> set (rq_headers rq')" by (rule subsetD)
  then have "contains_key (rq_headers rq') git_push_scope_header" by (force simp: contains_key_iff)
  then have "env persist_push_env = Some ''1''"
    unfolding handle_git_backend [OF assms(9,10)] backend_env_persist by (simp add: request_options_def)
  then have "hc_persist_push (hook_config_of branch env)" by (simp add: hook_config_of_def)
  from boundaries_None(2) [OF hook_None(1) [OF assms(11)] this] show ?thesis by (simp add: is_working_slot_ref_iff)
qed

theorem rolling_save_changes_only_recovery_refs_witness:
  "recovery_ref_pattern (ru_refname demo_save)
    \<and> (is_working_slot_ref (ru_refname demo_save) \<or> is_zero (ru_oldrev demo_save) \<and> \<not> is_zero (ru_newrev demo_save))"
proof -
  let ?run = "handle_proxy demo_edge demo_edge_config 0 demo_push []"
  obtain res sent cache' where r: "?run = (res, sent, cache')" by (metis prod.collapse)
  with demo_edge_run obtain fw where fw: "fw \<in> set sent"
    "fw_headers fw = [(''authorization'', ''Bearer t''), (git_push_scope_header, git_persist_scope)]" by (cases sent) auto
  obtain res' ops where g: "handle_git demo_shard demo_shard_config ''/h'' False demo_marked = (res', ops)" by (metis prod.collapse)
  from demo_marked_run [unfolded g snd_conv] obtain env where e: "HttpBackend env \<in> set ops"
    unfolding list_ex_iff by (metis shard_op.exhaust shard_op.simps)
  have h: "update_hook demo_repo (\<lambda>_ _. False) (hook_config_of ''main'' env) demo_save = None"
    unfolding handle_git_backend [OF g e] by (rule demo_save_accepted)
  have v: "ev_validate demo_edge ''t'' (ec_audience demo_edge_config) = Inr (demo_claims git_persist_scope)"
    by (simp add: demo_edge_def)
  have s: "set (fw_headers fw) \<subseteq> set (rq_headers demo_marked)" by (simp add: fw(2) demo_marked_def)
  show ?thesis
    by (rule rolling_save_changes_only_recovery_refs [OF r fw(1) demo_push_facts(1-3) v demo_push_facts(4) s g e h])
qed

text \<open>C31. A ref update the hook accepts never touches a salvage ref in any letter case, and
  never moves a recovery ref other than a working slot, whatever the settings. With the policy on,
  the default branch (and no name that differs from it in case only) is only created or fast-
  forwarded, never deleted; and a created or moved ref is no replace ref, under
  \<open>refs/instafy/\<close> is a recovery ref, and names a commit.\<close>

theorem accepted_updates_respect_refs:
  assumes "update_hook rv glob hc ru = None"
  shows "\<not> at_or_under salvage_ref_root (to_ascii_lowercase (ru_refname ru))
    \<and> (starts_with (to_ascii_lowercase (ru_refname ru)) (recovery_ref_root @ ''/'') \<longrightarrow>
         is_working_slot_ref (ru_refname ru) \<or> is_zero (ru_oldrev ru) \<or> is_zero (ru_newrev ru))
    \<and> (\<not> hc_policy_disabled hc \<longrightarrow>
         (to_ascii_lowercase (ru_refname ru) = to_ascii_lowercase (main_ref hc) \<longrightarrow>
            ru_refname ru = main_ref hc \<and> \<not> is_zero (ru_newrev ru)
            \<and> (is_zero (ru_oldrev ru) \<or> rv_is_ancestor rv (ru_oldrev ru) (ru_newrev ru)))
         \<and> (is_zero (ru_newrev ru)
             \<or> \<not> at_or_under ''refs/replace'' (to_ascii_lowercase (ru_refname ru))
                \<and> (starts_with (to_ascii_lowercase (ru_refname ru)) (instafy_ref_root @ ''/'') \<longrightarrow>
                     recovery_ref_pattern (ru_refname ru))
                \<and> (\<exists>commit. rv_commit rv (ru_newrev ru) = Some commit)))"
proof -
  note h = hook_None [OF assms]
  note b = boundaries_None [OF h(1)]
  have m: "ru_refname ru = main_ref hc \<and> \<not> is_zero (ru_newrev ru)
            \<and> (is_zero (ru_oldrev ru) \<or> rv_is_ancestor rv (ru_oldrev ru) (ru_newrev ru))"
    if "\<not> hc_policy_disabled hc" "to_ascii_lowercase (ru_refname ru) = to_ascii_lowercase (main_ref hc)"
    using h(2) [OF that(1)] that(2) unfolding main_branch_rules_def Let_def by (simp split: if_splits)
  have r: "\<not> at_or_under ''refs/replace'' (to_ascii_lowercase (ru_refname ru))
      \<and> (starts_with (to_ascii_lowercase (ru_refname ru)) (instafy_ref_root @ ''/'') \<longrightarrow> recovery_ref_pattern (ru_refname ru))
      \<and> (\<exists>commit. rv_commit rv (ru_newrev ru) = Some commit)"
    if "\<not> hc_policy_disabled hc" "\<not> is_zero (ru_newrev ru)"
  proof -
    from h(3) [OF that] have "reserved_refs ru = None" "content_rules rv glob hc ru = None" by simp_all
    then show ?thesis
      unfolding reserved_refs_def content_rules_def Let_def
      by (cases "rv_commit rv (ru_newrev ru)") (simp_all split: if_splits)
  qed
  from b m r show ?thesis unfolding is_working_slot_ref_iff by blast
qed

theorem accepted_updates_respect_refs_witness:
  "ru_refname demo_main = main_ref demo_hook \<and> \<not> is_zero (ru_newrev demo_main)
     \<and> (is_zero (ru_oldrev demo_main) \<or> rv_is_ancestor demo_repo (ru_oldrev demo_main) (ru_newrev demo_main))"
proof -
  have "to_ascii_lowercase (ru_refname demo_main) = to_ascii_lowercase (main_ref demo_hook)" "\<not> hc_policy_disabled demo_hook"
    by code_simp+
  with accepted_updates_respect_refs [OF demo_main_accepted] show ?thesis by blast
qed

text \<open>C32. With the policy on, an accepted update of a ref that is not a working slot, compared with what the
  repository had already accepted (the ref's old value, else the default branch, else nothing): every
  path in which the two trees differ is outside the denied directories and the operator's globs, and
  every path the new tree adds or changes there is a blob within the size limit, never a submodule. What
  a commit between the two adds and a later one removes is not looked at.\<close>

theorem accepted_updates_respect_paths:
  assumes "update_hook rv glob hc ru = None" and "\<not> hc_policy_disabled hc" and "\<not> is_zero (ru_newrev ru)"
    and "\<not> is_working_slot_ref (ru_refname ru)" and "rv_commit rv (ru_newrev ru) = Some commit"
    and "rv_diff_tree rv (accepted_base rv hc ru) commit = (listing changes, True)"
    and "list_all (\<lambda>(meta, _). meta \<noteq> ''end'') changes" and "rv_batch_check rv = map describe"
    and "(meta, path) \<in> set changes"
  shows "\<not> repo_policy_denies_path path \<and> \<not> is_denied_path glob (hc_deny_paths hc) path
    \<and> (change_word 4 meta = ''D'' \<or> change_word 1 meta \<noteq> ''160000''
         \<and> \<not> blob_refused (parse_digits (max_blob_bytes hc)) (describe (change_word 3 meta)))"
proof -
  have "content_rules rv glob hc ru = None" using hook_None(3) [OF assms(1-3)] by blast
  then have c: "check_changes rv glob (hc_deny_paths hc) (parse_digits (max_blob_bytes hc)) False commit (accepted_base rv hc ru) = None"
    using assms(4,5) unfolding content_rules_def Let_def
    by (simp add: is_working_slot_ref_iff split: if_splits option.splits)
  note n = check_changes_None [OF c assms(6-9)]
  from n(1) have "\<not> denied_by_case path" by (simp add: is_denied_path_def)
  with n show ?thesis by (simp add: denied_by_case_iff) blast
qed

theorem accepted_updates_respect_paths_witness:
  "\<not> repo_policy_denies_path ''src/a.rs'' \<and> \<not> is_denied_path (\<lambda>_ _. False) (hc_deny_paths demo_hook) ''src/a.rs''"
proof -
  have b: "rv_batch_check demo_repo = map (\<lambda>_. ''blob 10'')" by (simp add: demo_repo_def)
  have m: "('':100644 100644 a b M'', ''src/a.rs'') \<in> set demo_changes" by (simp add: demo_changes_def)
  from accepted_updates_respect_paths [OF demo_main_accepted demo_changes_listed b m] show ?thesis by blast
qed

text \<open>C33. The shell script and the Rust code decide alike: the hook takes for a working
  slot exactly the refs \<open>is_working_slot_ref\<close> accepts, and its rendered
  \<open>case\<close> patterns deny exactly the paths \<open>repo_policy_denies_path\<close>
  denies.\<close>

theorem hook_agrees_with_policy:
  "(working_slot refname \<longleftrightarrow> is_working_slot_ref refname) \<and> (denied_by_case path \<longleftrightarrow> repo_policy_denies_path path)"
  by (simp add: is_working_slot_ref_iff denied_by_case_iff)

text \<open>C34. A shard deletes a repository only for \<open>DELETE /<uuid>.git\<close> without a
  query, under a validated token of the controller for that very project whose only scope is
  \<open>git.delete\<close>, bound to no runtime or session and living exactly a minute; nothing
  else is done in that request.\<close>

theorem repository_deletion_is_exact:
  assumes "handle_git sv cfg hooks_dir reports rq = (res, ops)" and "DeleteBareRepo dir \<in> set ops"
  shows "\<exists>u token c. rq_method rq = ''DELETE'' \<and> rq_query rq = None \<and> rq_path rq = CHR ''/'' # dir
    \<and> dir = sv_print_uuid sv u @ ''.git'' \<and> ops = [DeleteBareRepo dir]
    \<and> extract_token (sv_basic sv) (rq_headers rq) = Inr token \<and> sv_validate sv token (sc_audience cfg) = Inr c
    \<and> cl_project_id c = sv_print_uuid sv u \<and> cl_protocol c = Some ''git'' \<and> cl_scopes c = [git_delete_scope]
    \<and> cl_sub c = git_delete_token_subject \<and> cl_exp c - cl_iat c = git_delete_token_ttl_seconds \<and> controller_scoped c"
proof -
  from assms obtain d name where p: "parse_repo_segment (rq_path rq) = Inr (d, name)"
    by (auto simp: handle_git_def split: sum.splits)
  let ?x = "is_exact_repo_root_delete (sv_parse_uuid sv) (sv_print_uuid sv) (rq_method rq) (rq_path rq) (rq_query rq)"
  from assms p have x: "?x = Inr True"
    by (auto simp: handle_git_def Let_def split: sum.splits bool.splits)
  from assms p x have a: "authorize_repository_delete sv cfg (rq_headers rq) name = Inr ()"
    and ops: "ops = [DeleteBareRepo d]"
    by (auto simp: handle_git_def split: sum.splits)
  from ops assms(2) have "d = dir" by simp
  moreover from x p obtain u where "d = sv_print_uuid sv u @ ''.git''" "name = sv_print_uuid sv u" "rq_method rq = ''DELETE''"
    "rq_query rq = None" "rq_path rq = CHR ''/'' # sv_print_uuid sv u @ ''.git''"
    unfolding exact_delete_iff by auto
  moreover from a obtain token c where "extract_token (sv_basic sv) (rq_headers rq) = Inr token"
    "sv_validate sv token (sc_audience cfg) = Inr c" and v: "validate_repository_delete_claims c name = Inr ()"
    unfolding authorize_repository_delete_def by (auto split: sum.splits)
  moreover from v have "cl_project_id c = name" "cl_protocol c = Some ''git''" "cl_scopes c = [git_delete_scope]"
    "cl_sub c = git_delete_token_subject" "controller_scoped c"
    "checked_sub_i64 (cl_exp c) (cl_iat c) = Some git_delete_token_ttl_seconds"
    unfolding validate_repository_delete_claims_def by (simp_all split: if_splits)
  moreover from this(6) have "cl_exp c - cl_iat c = git_delete_token_ttl_seconds"
    by (auto simp: checked_sub_i64_def Let_def split: if_splits)
  ultimately show ?thesis using ops by metis
qed

theorem repository_deletion_is_exact_witness:
  "\<exists>u token c. rq_method demo_delete = ''DELETE'' \<and> rq_path demo_delete = CHR ''/'' # ''space.git''
    \<and> ''space.git'' = sv_print_uuid demo_shard u @ ''.git''
    \<and> sv_validate demo_shard token (sc_audience demo_shard_config) = Inr c \<and> cl_scopes c = [git_delete_scope]"
proof -
  obtain res ops where g: "handle_git demo_shard demo_shard_config ''/h'' False demo_delete = (res, ops)" by (metis prod.collapse)
  from demo_delete_run [unfolded g snd_conv list_ex_iff] obtain x
    where x: "x \<in> set ops" "case x of DeleteBareRepo d \<Rightarrow> d = ''space.git'' | _ \<Rightarrow> False" by blast
  from x(2) have "x = DeleteBareRepo ''space.git''" by (cases x) simp_all
  with x(1) have "DeleteBareRepo ''space.git'' \<in> set ops" by simp
  from repository_deletion_is_exact [OF g this] show ?thesis by blast
qed

text \<open>C35. How the edge routes under a configuration it loads. By hashing, it always picks one of the
  configured shards. By the controller, a shard it picks is the one it cached for the project, unexpired,
  or the URL the controller just answered with, which it then caches for the configured time; when it
  picks none, the cache stays as it was and the reason is never that the controller's URL is missing.\<close>

theorem loaded_config_always_routes:
  assumes "edge_from_env parse_url env = Inr cfg"
  shows "(ec_routing_mode cfg = RouteHash \<longrightarrow>
      (\<exists>shard \<in> set (ec_shards cfg). pick_shard_base ev cfg now name cache = (Inr shard, cache)))
    \<and> (ec_routing_mode cfg = RouteController \<longrightarrow>
       (case pick_shard_base ev cfg now name cache of
          (Inl err, cache') \<Rightarrow>
            cache' = cache \<and> err \<noteq> Internal ''controller routing enabled but controller URL is missing''
        | (Inr shard, cache') \<Rightarrow>
            (\<exists>cached. map_of cache name = Some cached \<and> now < cr_expires_at cached \<and> cr_shard cached = shard \<and> cache' = cache)
            \<or> (\<exists>base status display body url. ec_controller_url cfg = Some base
                 \<and> ev_controller ev base name (ec_controller_token cfg) = LookupAnswer status display body (Inr url)
                 \<and> 200 \<le> status \<and> status < 300 \<and> ev_parse_url ev (trim_str url) = Inr shard
                 \<and> cache' = AList.update name
                      \<lparr>cr_shard = shard, cr_expires_at = now + secs (ec_route_cache_seconds cfg)\<rparr> cache)))"
proof -
  note e = edge_from_env_Inr [OF assms]
  have idx: "pick_shard_index name (length (ec_shards cfg)) < length (ec_shards cfg)"
    using e(1) by (simp add: pick_shard_index_less)
  then have h: "\<exists>shard \<in> set (ec_shards cfg). pick_shard_base ev cfg now name cache = (Inr shard, cache)"
    if "ec_routing_mode cfg = RouteHash" using that by (simp add: pick_shard_base_def)
  show ?thesis
  proof (intro conjI impI)
    assume "ec_routing_mode cfg = RouteController"
    with e(2) obtain base where "ec_controller_url cfg = Some base" "ec_routing_mode cfg = RouteController" by blast
    then show "case pick_shard_base ev cfg now name cache of
          (Inl err, cache') \<Rightarrow>
            cache' = cache \<and> err \<noteq> Internal ''controller routing enabled but controller URL is missing''
        | (Inr shard, cache') \<Rightarrow>
            (\<exists>cached. map_of cache name = Some cached \<and> now < cr_expires_at cached \<and> cr_shard cached = shard \<and> cache' = cache)
            \<or> (\<exists>base status display body url. ec_controller_url cfg = Some base
                 \<and> ev_controller ev base name (ec_controller_token cfg) = LookupAnswer status display body (Inr url)
                 \<and> 200 \<le> status \<and> status < 300 \<and> ev_parse_url ev (trim_str url) = Inr shard
                 \<and> cache' = AList.update name
                      \<lparr>cr_shard = shard, cr_expires_at = now + secs (ec_route_cache_seconds cfg)\<rparr> cache)"
      unfolding pick_shard_base_def resolve_shard_via_controller_def
      by (auto split: option.splits controller_answer.splits sum.splits if_splits simp: bind_eq_Some_conv bind_eq_None_conv)
  qed (use h in blast)
qed

theorem loaded_config_always_routes_witness:
  "\<exists>cfg. edge_from_env Inr demo_environment = Inr cfg
     \<and> (\<exists>shard. pick_shard_base demo_edge cfg 0 ''space'' [] = (Inr shard, []))"
proof -
  have "case edge_from_env Inr demo_environment of Inl _ \<Rightarrow> False | Inr cfg \<Rightarrow> ec_routing_mode cfg = RouteHash"
    by code_simp
  then obtain cfg where c: "edge_from_env Inr demo_environment = Inr cfg" "ec_routing_mode cfg = RouteHash"
    by (cases "edge_from_env Inr demo_environment") auto
  from loaded_config_always_routes [OF c(1), of demo_edge 0 "''space''" "[]"] c show ?thesis by blast
qed

text \<open>C36. Reading back the report of a push gives exactly one update for each branch or tag
  the push moved, with its last old and new revision, sorted by name, and nothing for other
  refs.\<close>

theorem push_report_round_trip:
  assumes "from_utf8 report = Some (report_text moves)" and "list_all reportable moves"
  shows "\<exists>updates. parse_push_report report = Some updates \<and> sorted_wrt (<) (map pu_ref_name updates)
    \<and> (\<forall>u. u \<in> set updates \<longleftrightarrow>
        (\<exists>r old new. branch_or_tag r \<and> last_move moves r = Some (old, new) \<and> u = push_update old new r))"
proof -
  define m where "m = fold record_move moves []"
  have s: "btree_sorted m" and g: "\<And>r. map_of m r =
      (if branch_or_tag r then map_option (\<lambda>(old, new). push_update old new r) (last_move moves r) else None)"
    using fold_record_moves unfolding m_def by blast+
  have "list_all (\<lambda>l. CHR 0x0A \<notin> set l \<and> CHR 0x0D \<notin> set l) (map move_line moves)"
    using assms(2) move_line_chars unfolding list_all_iff by force
  then have p: "parse_push_report report = Some (map snd m)"
    unfolding parse_push_report_def assms(1) report_text_lines option.case
    by (simp only: str_lines_lines try_fold_report [OF assms(2)] m_def option.map)
  have entry: "(r, u) \<in> set m \<longleftrightarrow> branch_or_tag r \<and> (\<exists>old new. last_move moves r = Some (old, new) \<and> u = push_update old new r)" for r u
  proof -
    have "(r, u) \<in> set m \<longleftrightarrow> map_of m r = Some u" using btree_sorted_keys [OF s] by (metis map_of_eq_Some_iff)
    then show ?thesis unfolding g by auto
  qed
  have "pu_ref_name u = r" if "(r, u) \<in> set m" for r u
    using that by (auto simp: entry push_update_def Let_def)
  then have "map pu_ref_name (map snd m) = map fst m"
    unfolding map_map comp_def by (intro map_cong [OF refl]) (metis prod.collapse)
  with s have "sorted_wrt (<) (map pu_ref_name (map snd m))" by (simp only:)
  moreover have "u \<in> set (map snd m) \<longleftrightarrow>
        (\<exists>r old new. branch_or_tag r \<and> last_move moves r = Some (old, new) \<and> u = push_update old new r)" for u
  proof -
    have "u \<in> set (map snd m) \<longleftrightarrow> (\<exists>r. (r, u) \<in> set m)" by force
    then show ?thesis unfolding entry by blast
  qed
  ultimately show ?thesis using p by blast
qed

theorem push_report_round_trip_witness:
  "\<exists>updates. parse_push_report (bytes_of (report_text demo_moves)) = Some updates \<and> sorted_wrt (<) (map pu_ref_name updates)
     \<and> push_update zero_id some_id ''refs/heads/main'' \<in> set updates"
proof -
  have "branch_or_tag ''refs/heads/main''" by code_simp
  moreover have "last_move demo_moves ''refs/heads/main'' = Some (zero_id, some_id)" by (simp add: last_move_def demo_moves_def)
  ultimately show ?thesis using push_report_round_trip [OF demo_report demo_moves_reportable] by blast
qed

end
