(* ===== verification/Apply_Receipts.thy ===== *)
theory Apply_Receipts
  imports Rust_Strings
begin

text \<open>
  Write-ahead receipts that make an apply happen once per idempotency key
  (\<open>origin-http-server/src/apply_idempotency.rs\<close>). A receipt is a file named after its key, a lock
  file beside it is held (\<open>flock\<close>) for as long as the process that claimed the key works on it.

  The state is the receipt directory: the receipt files with their modification time, and the lock
  files with whether some process holds them. Every file system call may fail: \<open>faults\<close> says
  which calls of one operation do, and a failing call ends the operation with its error and the
  directory as it is at that point; the messages leave out the name and the cause the code adds. The clock, the fresh claim id and the file name of a key
  (a UUIDv5 of it) are arguments. Instants are seconds.
\<close>

section \<open>Data\<close>

datatype origin_error = OBadRequest string | OConflict string | OUnavailable string | OInternal string

datatype receipt_status = StatusPending | StatusSucceeded

record stored_receipt =
  sr_idempotency_key :: string
  sr_status :: "receipt_status option"
  sr_claim_id :: "string option"
  sr_request_fingerprint :: "string option"
  sr_claim_created_at :: "int option"
  sr_claim_expires_at :: "int option"
  sr_rev :: "string option"
  sr_base_rev :: "string option"
  sr_file_count :: "nat option"
  sr_bytes_written :: "nat option"

record apply_success =
  as_rev :: string
  as_base_rev :: "string option"
  as_file_count :: "nat option"
  as_bytes_written :: "nat option"

record apply_claim =
  ac_idempotency_key :: string
  ac_claim_id :: string
  ac_request_fingerprint :: "string option"
  ac_receipt_name :: string

datatype claim_outcome = Acquired apply_claim | ClaimPending | ClaimSucceeded apply_success

datatype lookup_outcome = LookupPending | LookupSucceeded apply_success

datatype existing_lock = LockMissing | LockBusy | LockAcquired

text \<open>What reading a receipt file finds.\<close>

datatype content = Parsed stored_receipt | Malformed | Unbounded

record receipt_file =
  rf_content :: content
  rf_modified :: int

record receipts =
  rs_files :: "(string, receipt_file) hash_map"
  rs_locks :: "(string, bool) hash_map"

definition apply_idempotency_value_max_len :: nat where
  "apply_idempotency_value_max_len = 256"

definition apply_pending_claim_ttl :: int where
  "apply_pending_claim_ttl = 60 * 60"

definition max_apply_receipts :: nat where
  "max_apply_receipts = 10000"

definition apply_receipt_retention :: int where
  "apply_receipt_retention = 30 * 24 * 60 * 60"

section \<open>Operations that may fail\<close>

datatype io_point =
    OpenWorkspace | OpenMetadata | OpenReceiptDir | CreateLock | OpenLock string | StatLock string | LockNotRegular string | FlushLock | SyncLock
  | Flock string | StatReceipt | OpenReceipt string | StatOpened string | ReadReceipt string
  | ReceiptGrew string | ReceiptMtime
  | OpenMaintenance | CreateMaintenance | StatMaintenance | MaintenanceNotRegular | FlushMaintenance | SyncMaintenance
  | MaintenanceLock | ListReceipts | StatEntry string | EvictReceipt string | SyncEvicted
  | RemoveLock string | SyncUnlocked string | CreateTemporary | WriteTemporary | FlushTemporary | LinkReceipt | SyncLinked
  | RenameReceipt | SyncReplaced | RemoveReceipt | SyncAborted

type_synonym faults = "io_point \<Rightarrow> bool"
type_synonym 'a fallible = "receipts \<Rightarrow> (origin_error + 'a) \<times> receipts"

definition ret :: "'a \<Rightarrow> 'a fallible" where
  "ret x rs = (Inr x, rs)"

definition throw :: "origin_error \<Rightarrow> 'a fallible" where
  "throw e rs = (Inl e, rs)"

definition andthen :: "'a fallible \<Rightarrow> ('a \<Rightarrow> 'b fallible) \<Rightarrow> 'b fallible" where
  "andthen m f rs = (case m rs of (Inl e, rs) \<Rightarrow> (Inl e, rs) | (Inr x, rs) \<Rightarrow> f x rs)"

definition io :: "faults \<Rightarrow> io_point \<Rightarrow> string \<Rightarrow> unit fallible" where
  "io flt p msg = (if flt p then throw (OInternal msg) else ret ())"

definition update_files :: "((string, receipt_file) hash_map \<Rightarrow> (string, receipt_file) hash_map) \<Rightarrow> unit fallible" where
  "update_files f rs = (Inr (), rs\<lparr>rs_files := f (rs_files rs)\<rparr>)"

definition update_locks :: "((string, bool) hash_map \<Rightarrow> (string, bool) hash_map) \<Rightarrow> unit fallible" where
  "update_locks f rs = (Inr (), rs\<lparr>rs_locks := f (rs_locks rs)\<rparr>)"

definition get_dir :: "receipts fallible" where
  "get_dir rs = (Inr rs, rs)"

text \<open>Dropping an \<open>ApplyReceiptLock\<close>: the file stays, nobody holds it.\<close>

definition release :: "string \<Rightarrow> receipts \<Rightarrow> receipts" where
  "release name rs =
     (if contains_key (rs_locks rs) name then rs\<lparr>rs_locks := AList.update name False (rs_locks rs)\<rparr> else rs)"

text \<open>A scope that owns the lock: it is dropped when the scope ends, unless \<open>keeps\<close> says that the
  result carries it on.\<close>

definition with_lock :: "string \<Rightarrow> ('a \<Rightarrow> bool) \<Rightarrow> 'a fallible \<Rightarrow> 'a fallible" where
  "with_lock name keeps m rs =
     (case m rs of
        (Inr x, rs) \<Rightarrow> (Inr x, if keeps x then rs else release name rs)
      | (Inl e, rs) \<Rightarrow> (Inl e, release name rs))"

definition open_receipt_dir :: "faults \<Rightarrow> unit fallible" where
  "open_receipt_dir flt =
     (if flt OpenWorkspace then throw (OBadRequest ''workspace root is unsafe'')
      else if flt OpenMetadata then throw (OBadRequest ''workspace metadata directory is unsafe'')
      else if flt OpenReceiptDir then throw (OBadRequest ''apply receipt directory is unsafe'')
      else ret ())"

section \<open>Keys\<close>

definition transport_char :: "char \<Rightarrow> bool" where
  "transport_char c \<longleftrightarrow> is_ascii_alphanumeric c \<or> c \<in> {CHR '':'', CHR ''.'', CHR ''_'', CHR ''-''}"

definition normalize_transport_value :: "string option \<Rightarrow> string \<Rightarrow> origin_error + string option" where
  "normalize_transport_value v field_name =
     (case v of
        None \<Rightarrow> Inr None
      | Some v \<Rightarrow>
          (let trimmed = trim_str v in
           if trimmed = [] then Inr None
           else if length trimmed > apply_idempotency_value_max_len
           then Inl (OBadRequest (field_name @ '' is too long (max 256 chars)''))
           else if \<not> list_all transport_char trimmed
           then Inl (OBadRequest (field_name @ '' must contain only letters, numbers, ':', '.', '_' or '-'' @ [CHR 0x27]))
           else Inr (Some trimmed)))"

definition normalize_apply_idempotency_key :: "string option \<Rightarrow> origin_error + string option" where
  "normalize_apply_idempotency_key v = normalize_transport_value v ''idempotencyKey''"

definition normalize_apply_request_fingerprint :: "string option \<Rightarrow> origin_error + string option" where
  "normalize_apply_request_fingerprint v = normalize_transport_value v ''requestFingerprint''"

definition required_key :: "string \<Rightarrow> string fallible" where
  "required_key key =
     (case normalize_apply_idempotency_key (Some key) of
        Inl e \<Rightarrow> throw e
      | Inr None \<Rightarrow> throw (OBadRequest ''idempotencyKey is required'')
      | Inr (Some k) \<Rightarrow> ret k)"

definition fingerprint_of :: "string option \<Rightarrow> string option fallible" where
  "fingerprint_of v = (case normalize_apply_request_fingerprint v of Inl e \<Rightarrow> throw e | Inr f \<Rightarrow> ret f)"

section \<open>Reading receipts\<close>

definition read_stored_receipt_unchecked :: "faults \<Rightarrow> string \<Rightarrow> stored_receipt fallible" where
  "read_stored_receipt_unchecked flt name =
     andthen get_dir (\<lambda>rs.
       case map_of (rs_files rs) name of
         None \<Rightarrow> throw (OInternal ''failed to open apply receipt'')
       | Some f \<Rightarrow>
           andthen (io flt (OpenReceipt name) ''failed to open apply receipt'') (\<lambda>_.
             andthen (io flt (StatOpened name) ''failed to inspect apply receipt'') (\<lambda>_.
               if rf_content f = Unbounded then throw (OBadRequest ''apply receipt must be a bounded regular file'')
               else andthen (io flt (ReadReceipt name) ''failed to read apply receipt'') (\<lambda>_.
                 if flt (ReceiptGrew name) then throw (OBadRequest ''apply receipt is too large'')
                 else case rf_content f of
                   Parsed r \<Rightarrow> ret r
                 | _ \<Rightarrow> throw (OInternal ''failed to parse apply receipt'')))))"

definition read_stored_receipt :: "faults \<Rightarrow> string \<Rightarrow> string \<Rightarrow> stored_receipt fallible" where
  "read_stored_receipt flt name expected_key =
     andthen (read_stored_receipt_unchecked flt name) (\<lambda>r.
       if sr_idempotency_key r \<noteq> expected_key then throw (OInternal ''apply receipt key mismatch'') else ret r)"

definition read_optional_stored_receipt :: "faults \<Rightarrow> string \<Rightarrow> string \<Rightarrow> stored_receipt option fallible" where
  "read_optional_stored_receipt flt name expected_key =
     andthen (io flt StatReceipt ''failed to inspect apply receipt'') (\<lambda>_.
       andthen get_dir (\<lambda>rs.
         if contains_key (rs_files rs) name
         then andthen (read_stored_receipt flt name expected_key) (\<lambda>r. ret (Some r))
         else ret None))"

section \<open>Locks\<close>

definition check_lock_file :: "faults \<Rightarrow> string \<Rightarrow> unit fallible" where
  "check_lock_file flt name =
     andthen (io flt (StatLock name) ''failed to inspect apply receipt lock'') (\<lambda>_.
       if flt (LockNotRegular name) then throw (OBadRequest ''apply receipt lock must be a regular file'') else ret ())"

text \<open>\<open>try_lock_exclusive\<close>.\<close>

definition try_flock :: "faults \<Rightarrow> string \<Rightarrow> bool fallible" where
  "try_flock flt name =
     andthen (io flt (Flock name) ''failed to lock apply receipt'') (\<lambda>_.
       andthen get_dir (\<lambda>rs.
         if map_of (rs_locks rs) name = Some True then ret False
         else andthen (update_locks (AList.update name True)) (\<lambda>_. ret True)))"

definition try_acquire_receipt_lock :: "faults \<Rightarrow> string \<Rightarrow> bool fallible" where
  "try_acquire_receipt_lock flt name =
     andthen get_dir (\<lambda>rs.
       if contains_key (rs_locks rs) name
       then andthen (io flt (OpenLock name) ''failed to open apply receipt lock'') (\<lambda>_.
         andthen (check_lock_file flt name) (\<lambda>_. try_flock flt name))
       else andthen (io flt CreateLock ''failed to create apply receipt lock'') (\<lambda>_.
         andthen (update_locks (AList.update name False)) (\<lambda>_.
           andthen (check_lock_file flt name) (\<lambda>_.
             andthen (io flt FlushLock ''failed to flush apply receipt lock'') (\<lambda>_.
               andthen (io flt SyncLock ''failed to flush apply receipt directory'') (\<lambda>_.
                 try_flock flt name))))))"

definition try_acquire_existing_receipt_lock :: "faults \<Rightarrow> string \<Rightarrow> existing_lock fallible" where
  "try_acquire_existing_receipt_lock flt name =
     andthen get_dir (\<lambda>rs.
       if \<not> contains_key (rs_locks rs) name then ret LockMissing
       else andthen (io flt (OpenLock name) ''failed to open apply receipt lock'') (\<lambda>_.
         andthen (check_lock_file flt name) (\<lambda>_.
           andthen (try_flock flt name) (\<lambda>got. ret (if got then LockAcquired else LockBusy)))))"

definition remove_receipt_lock :: "faults \<Rightarrow> string \<Rightarrow> unit fallible" where
  "remove_receipt_lock flt name =
     andthen get_dir (\<lambda>rs.
       if \<not> contains_key (rs_locks rs) name then ret ()
       else andthen (io flt (RemoveLock name) ''failed to remove terminal apply receipt lock'') (\<lambda>_.
         andthen (update_locks (AList.delete name)) (\<lambda>_.
           io flt (SyncUnlocked name) ''failed to flush apply receipt directory'')))"

text \<open>The lock that serializes the accounting of the directory is held to the close of the claim and
  guards nothing of the state, only its failures show; a call of the branch that creates the lock file and
  one of the branch that opens it are both points that may fail.\<close>

definition acquire_receipt_maintenance_lock :: "faults \<Rightarrow> unit fallible" where
  "acquire_receipt_maintenance_lock flt =
     andthen (io flt OpenMaintenance ''failed to open receipt maintenance lock'') (\<lambda>_.
       andthen (io flt CreateMaintenance ''failed to create receipt maintenance lock'') (\<lambda>_.
         andthen (io flt StatMaintenance ''failed to inspect receipt maintenance lock'') (\<lambda>_.
           if flt MaintenanceNotRegular then throw (OBadRequest ''receipt maintenance lock must be a regular file'')
           else andthen (io flt FlushMaintenance ''failed to flush receipt maintenance lock'') (\<lambda>_.
             andthen (io flt SyncMaintenance ''failed to flush apply receipt directory'') (\<lambda>_.
               io flt MaintenanceLock ''failed to lock receipt maintenance'')))))"

section \<open>Writing receipts\<close>

definition write_temporary_receipt :: "faults \<Rightarrow> unit fallible" where
  "write_temporary_receipt flt =
     andthen (io flt CreateTemporary ''failed to create temporary apply receipt'') (\<lambda>_.
       andthen (io flt WriteTemporary ''failed to write temporary apply receipt'') (\<lambda>_.
         io flt FlushTemporary ''failed to flush temporary apply receipt''))"

definition persist_new_receipt :: "faults \<Rightarrow> int \<Rightarrow> string \<Rightarrow> stored_receipt \<Rightarrow> bool fallible" where
  "persist_new_receipt flt now name r =
     andthen (write_temporary_receipt flt) (\<lambda>_.
       andthen get_dir (\<lambda>rs.
         if contains_key (rs_files rs) name then ret False
         else andthen (io flt LinkReceipt ''failed to create apply receipt'') (\<lambda>_.
           andthen (update_files (AList.update name \<lparr>rf_content = Parsed r, rf_modified = now\<rparr>)) (\<lambda>_.
             andthen (io flt SyncLinked ''failed to flush apply receipt directory'') (\<lambda>_. ret True)))))"

definition replace_receipt :: "faults \<Rightarrow> int \<Rightarrow> string \<Rightarrow> stored_receipt \<Rightarrow> unit fallible" where
  "replace_receipt flt now name r =
     andthen (write_temporary_receipt flt) (\<lambda>_.
       andthen (io flt RenameReceipt ''failed to replace apply receipt'') (\<lambda>_.
         andthen (update_files (AList.update name \<lparr>rf_content = Parsed r, rf_modified = now\<rparr>)) (\<lambda>_.
           io flt SyncReplaced ''failed to flush apply receipt directory'')))"

definition new_pending_claim ::
  "string \<Rightarrow> string \<Rightarrow> string option \<Rightarrow> int \<Rightarrow> string \<Rightarrow> apply_claim \<times> stored_receipt" where
  "new_pending_claim claim_id key fingerprint now name =
     (\<lparr>ac_idempotency_key = key, ac_claim_id = claim_id, ac_request_fingerprint = fingerprint, ac_receipt_name = name\<rparr>,
      \<lparr>sr_idempotency_key = key, sr_status = Some StatusPending, sr_claim_id = Some claim_id,
       sr_request_fingerprint = fingerprint, sr_claim_created_at = Some now,
       sr_claim_expires_at = Some (now + apply_pending_claim_ttl),
       sr_rev = None, sr_base_rev = None, sr_file_count = None, sr_bytes_written = None\<rparr>)"

section \<open>Capacity\<close>

fun list_entries :: "faults \<Rightarrow> (string \<times> receipt_file) list \<Rightarrow> (string \<times> int) list fallible" where
  "list_entries flt [] = ret []"
| "list_entries flt ((name, f) # fs) =
     andthen (io flt (StatEntry name) ''failed to inspect apply receipt'') (\<lambda>_.
       andthen (list_entries flt fs) (\<lambda>es. ret ((name, rf_modified f) # es)))"

text \<open>The body of the eviction loop with the lock (if any) in hand: whether the receipt went.\<close>

definition evict_one :: "faults \<Rightarrow> string \<Rightarrow> bool fallible" where
  "evict_one flt name rs =
     (case read_stored_receipt_unchecked flt name rs of
        (Inl _, rs) \<Rightarrow> (Inr False, rs)
      | (Inr r, rs) \<Rightarrow>
          (if sr_status r = Some StatusPending then (Inr False, rs)
           else andthen (io flt (EvictReceipt name) ''failed to evict apply receipt'') (\<lambda>_.
                  andthen (update_files (AList.delete name)) (\<lambda>_.
                    andthen (remove_receipt_lock flt name) (\<lambda>_. ret True))) rs))"

fun evict_loop :: "faults \<Rightarrow> int \<Rightarrow> nat \<Rightarrow> (string \<times> int) list \<Rightarrow> nat fallible" where
  "evict_loop flt cutoff count [] = ret count"
| "evict_loop flt cutoff count ((name, modified) # es) =
     (if count < max_apply_receipts \<or> modified > cutoff then ret count
      else andthen (try_acquire_existing_receipt_lock flt name) (\<lambda>lock.
        case lock of
          LockBusy \<Rightarrow> evict_loop flt cutoff count es
        | LockAcquired \<Rightarrow>
            andthen (with_lock name (\<lambda>_. False) (evict_one flt name)) (\<lambda>gone.
              evict_loop flt cutoff (if gone then count - 1 else count) es)
        | LockMissing \<Rightarrow>
            andthen (evict_one flt name) (\<lambda>gone.
              evict_loop flt cutoff (if gone then count - 1 else count) es)))"

definition ensure_receipt_capacity :: "faults \<Rightarrow> int \<Rightarrow> unit fallible" where
  "ensure_receipt_capacity flt now =
     andthen (io flt ListReceipts ''failed to enumerate apply receipts'') (\<lambda>_.
       andthen get_dir (\<lambda>rs.
         andthen (list_entries flt (rs_files rs)) (\<lambda>entries.
           if length entries < max_apply_receipts then ret ()
           else
             andthen (evict_loop flt (now - apply_receipt_retention) (length entries) (sort_key snd entries)) (\<lambda>count.
               if max_apply_receipts \<le> count then throw (OUnavailable ''apply receipt quota reached (10000); retry after retained receipts expire'')
               else io flt SyncEvicted ''failed to flush apply receipt directory''))))"

section \<open>Claiming\<close>

definition pending_claim_is_expired :: "faults \<Rightarrow> stored_receipt \<Rightarrow> string \<Rightarrow> int \<Rightarrow> bool fallible" where
  "pending_claim_is_expired flt r name now =
     (case sr_claim_expires_at r of
        Some e \<Rightarrow> ret (now \<ge> e)
      | None \<Rightarrow>
          andthen (io flt ReceiptMtime ''failed to read apply receipt timestamp'') (\<lambda>_.
            andthen get_dir (\<lambda>rs.
              case map_of (rs_files rs) name of
                None \<Rightarrow> throw (OInternal ''failed to read apply receipt timestamp'')
              | Some f \<Rightarrow> ret (now \<ge> rf_modified f + apply_pending_claim_ttl))))"

definition success_of :: "stored_receipt \<Rightarrow> apply_success option" where
  "success_of r =
     (case sr_rev r of
        None \<Rightarrow> None
      | Some rev' \<Rightarrow>
          (if trim_str rev' = [] then None
           else Some \<lparr>as_rev = rev', as_base_rev = sr_base_rev r, as_file_count = sr_file_count r,
                      as_bytes_written = sr_bytes_written r\<rparr>))"

definition different_fingerprint :: origin_error where
  "different_fingerprint = OConflict ''idempotencyKey was already used with a different requestFingerprint''"

definition classify_existing_receipt ::
  "faults \<Rightarrow> string \<Rightarrow> stored_receipt \<Rightarrow> string \<Rightarrow> string \<Rightarrow> string option \<Rightarrow> int \<Rightarrow> claim_outcome fallible" where
  "classify_existing_receipt flt claim_id r name key fingerprint now =
     (if sr_status r \<noteq> None \<and> sr_request_fingerprint r \<noteq> fingerprint then throw different_fingerprint
      else case sr_status r of
        Some StatusPending \<Rightarrow>
          andthen (pending_claim_is_expired flt r name now) (\<lambda>expired.
            if \<not> expired then ret ClaimPending
            else
              (let (claim, replacement) = new_pending_claim claim_id key fingerprint now name in
               andthen (replace_receipt flt now name replacement) (\<lambda>_. ret (Acquired claim))))
      | _ \<Rightarrow>
          (case success_of r of
             None \<Rightarrow> throw (OInternal ''succeeded apply receipt is missing its revision'')
           | Some success \<Rightarrow> andthen (remove_receipt_lock flt name) (\<lambda>_. ret (ClaimSucceeded success))))"

fun is_acquired :: "claim_outcome \<Rightarrow> bool" where
  "is_acquired (Acquired _) = True"
| "is_acquired _ = False"

text \<open>What another process may create between our look and our link.\<close>

definition raced_create :: "string \<Rightarrow> receipt_file option \<Rightarrow> unit fallible" where
  "raced_create name raced = (case raced of None \<Rightarrow> ret () | Some f \<Rightarrow> update_files (AList.update name f))"

definition claim_fresh ::
  "faults \<Rightarrow> string \<Rightarrow> string \<Rightarrow> string \<Rightarrow> string option \<Rightarrow> int \<Rightarrow> receipt_file option \<Rightarrow> claim_outcome fallible" where
  "claim_fresh flt claim_id name key fingerprint now raced =
     andthen (acquire_receipt_maintenance_lock flt) (\<lambda>_.
       andthen
         (\<lambda>rs. case ensure_receipt_capacity flt now rs of
            (Inl e, rs) \<Rightarrow> (Inl e, snd (remove_receipt_lock flt name rs))
          | r \<Rightarrow> r)
         (\<lambda>_.
           andthen (raced_create name raced) (\<lambda>_.
             (let (claim, stored) = new_pending_claim claim_id key fingerprint now name in
              andthen (persist_new_receipt flt now name stored) (\<lambda>persisted.
                if persisted then ret (Acquired claim)
                else andthen (read_stored_receipt flt name key) (\<lambda>existing.
                  classify_existing_receipt flt claim_id existing name key fingerprint now))))))"

definition claim_locked ::
  "faults \<Rightarrow> string \<Rightarrow> string \<Rightarrow> string \<Rightarrow> string option \<Rightarrow> int \<Rightarrow> receipt_file option \<Rightarrow> claim_outcome fallible" where
  "claim_locked flt claim_id name key fingerprint now raced =
     andthen (read_optional_stored_receipt flt name key) (\<lambda>existing.
       case existing of
         Some r \<Rightarrow> classify_existing_receipt flt claim_id r name key fingerprint now
       | None \<Rightarrow> claim_fresh flt claim_id name key fingerprint now raced)"

definition claim_apply_idempotency_at ::
  "faults \<Rightarrow> (string \<Rightarrow> string) \<Rightarrow> string \<Rightarrow> string \<Rightarrow> string option \<Rightarrow> int \<Rightarrow> receipt_file option \<Rightarrow> claim_outcome fallible" where
  "claim_apply_idempotency_at flt name_of claim_id key fingerprint now raced =
     andthen (required_key key) (\<lambda>key.
       andthen (fingerprint_of fingerprint) (\<lambda>fingerprint.
         andthen (open_receipt_dir flt) (\<lambda>_.
           let name = name_of key in
           andthen (try_acquire_receipt_lock flt name) (\<lambda>got.
             if \<not> got then ret ClaimPending
             else with_lock name is_acquired (claim_locked flt claim_id name key fingerprint now raced)))))"

section \<open>Looking up\<close>

definition lookup_receipt :: "faults \<Rightarrow> string \<Rightarrow> string \<Rightarrow> string option \<Rightarrow> lookup_outcome option fallible" where
  "lookup_receipt flt name key fingerprint =
     andthen (read_optional_stored_receipt flt name key) (\<lambda>existing.
       case existing of
         None \<Rightarrow> ret None
       | Some r \<Rightarrow>
           (if sr_status r \<noteq> None \<and> sr_request_fingerprint r \<noteq> fingerprint then throw different_fingerprint
            else if sr_status r = Some StatusPending then ret (Some LookupPending)
            else case success_of r of
              None \<Rightarrow> throw (OInternal ''succeeded apply receipt is missing its revision'')
            | Some success \<Rightarrow> ret (Some (LookupSucceeded success))))"

text \<open>\<open>exists_dir\<close>: whether the receipt directory is there at all.\<close>

definition lookup_apply_idempotency ::
  "faults \<Rightarrow> (string \<Rightarrow> string) \<Rightarrow> bool \<Rightarrow> string \<Rightarrow> string option \<Rightarrow> lookup_outcome option fallible" where
  "lookup_apply_idempotency flt name_of exists_dir key fingerprint =
     andthen (required_key key) (\<lambda>key.
       andthen (fingerprint_of fingerprint) (\<lambda>fingerprint.
         andthen (open_receipt_dir flt) (\<lambda>_.
           if \<not> exists_dir then ret None
           else
             (let name = name_of key in
              andthen (try_acquire_existing_receipt_lock flt name) (\<lambda>lock.
                case lock of
                  LockBusy \<Rightarrow> ret (Some LookupPending)
                | LockAcquired \<Rightarrow> with_lock name (\<lambda>_. False) (lookup_receipt flt name key fingerprint)
                | LockMissing \<Rightarrow> lookup_receipt flt name key fingerprint)))))"

section \<open>Finishing a claim\<close>

definition owns_receipt :: "apply_claim \<Rightarrow> stored_receipt \<Rightarrow> bool" where
  "owns_receipt claim r \<longleftrightarrow>
     sr_status r = Some StatusPending \<and> sr_claim_id r = Some (ac_claim_id claim)
     \<and> sr_request_fingerprint r = ac_request_fingerprint claim"

definition not_owned :: origin_error where
  "not_owned = OConflict ''apply idempotency claim is no longer owned by this request''"

definition complete_apply_idempotency_claim :: "faults \<Rightarrow> int \<Rightarrow> apply_claim \<Rightarrow> apply_success \<Rightarrow> unit fallible" where
  "complete_apply_idempotency_claim flt now claim success =
     andthen (read_stored_receipt flt (ac_receipt_name claim) (ac_idempotency_key claim)) (\<lambda>existing.
       if \<not> owns_receipt claim existing then throw not_owned
       else if trim_str (as_rev success) = []
       then throw (OInternal ''cannot complete apply idempotency claim without a revision'')
       else
         andthen (replace_receipt flt now (ac_receipt_name claim)
           \<lparr>sr_idempotency_key = ac_idempotency_key claim, sr_status = Some StatusSucceeded,
            sr_claim_id = Some (ac_claim_id claim), sr_request_fingerprint = ac_request_fingerprint claim,
            sr_claim_created_at = sr_claim_created_at existing, sr_claim_expires_at = sr_claim_expires_at existing,
            sr_rev = Some (as_rev success), sr_base_rev = as_base_rev success,
            sr_file_count = as_file_count success, sr_bytes_written = as_bytes_written success\<rparr>)
          (\<lambda>_. remove_receipt_lock flt (ac_receipt_name claim)))"

definition abort_apply_idempotency_claim :: "faults \<Rightarrow> apply_claim \<Rightarrow> unit fallible" where
  "abort_apply_idempotency_claim flt claim =
     andthen (read_stored_receipt flt (ac_receipt_name claim) (ac_idempotency_key claim)) (\<lambda>existing.
       if \<not> owns_receipt claim existing then throw not_owned
       else
         andthen (io flt RemoveReceipt ''failed to abort apply receipt'') (\<lambda>_.
           andthen (update_files (AList.delete (ac_receipt_name claim))) (\<lambda>_.
             andthen (remove_receipt_lock flt (ac_receipt_name claim)) (\<lambda>_.
               io flt SyncAborted ''failed to flush apply receipt directory''))))"

end
