(* ===== verification/Apply_Frames.thy ===== *)
theory Apply_Frames
  imports Apply_Receipts
begin

text \<open>
  What the operations on the receipt directory leave alone. The locale \<open>kept_relation\<close> lifts a
  reflexive and transitive relation between directories through the sequencing of operations; it is
  interpreted for the relations the proofs need: nothing of a receipt changes (\<open>untouched\<close>),
  nothing of a receipt that somebody holds changes (\<open>spares\<close>), the file or all files stay, file
  names stay distinct, and a young settled receipt stays (\<open>young_kept\<close>). With them: what claiming a
  key does to the receipts of others, and what it does to its own.
\<close>

section \<open>What an operation keeps\<close>

definition keeps :: "(receipts \<Rightarrow> receipts \<Rightarrow> bool) \<Rightarrow> 'a fallible \<Rightarrow> bool" where
  "keeps R m \<longleftrightarrow> (\<forall>rs. R rs (snd (m rs)))"

lemma andthen_Inr_iff: "andthen m f rs = (Inr y, rs'') \<longleftrightarrow> (\<exists>x rs'. m rs = (Inr x, rs') \<and> f x rs' = (Inr y, rs''))"
  by (auto simp: andthen_def split: prod.splits sum.splits)

lemma andthen_get_dir [simp]: "andthen get_dir f rs = f rs rs"
  by (simp add: andthen_def get_dir_def)

lemma andthen_ret [simp]: "andthen (ret x) f = f x"
  by (simp add: fun_eq_iff andthen_def ret_def)

lemma andthen_throw [simp]: "andthen (throw e) f = throw e"
  by (simp add: fun_eq_iff andthen_def throw_def)

lemma andthen_update [simp]:
  "andthen (update_files g) f rs = f () (rs\<lparr>rs_files := g (rs_files rs)\<rparr>)"
  "andthen (update_locks h) f rs = f () (rs\<lparr>rs_locks := h (rs_locks rs)\<rparr>)"
  by (simp_all add: andthen_def update_files_def update_locks_def)

lemma write_temporary_Inr [simp]:
  "write_temporary_receipt flt rs = (Inr x, rs') \<longleftrightarrow>
     \<not> flt CreateTemporary \<and> \<not> flt WriteTemporary \<and> \<not> flt FlushTemporary \<and> rs' = rs"
  by (auto simp: write_temporary_receipt_def io_def ret_def throw_def)

lemma maintenance_Inr: "acquire_receipt_maintenance_lock flt rs = (Inr x, rs') \<Longrightarrow> rs' = rs"
  by (auto simp: acquire_receipt_maintenance_lock_def io_def ret_def throw_def split: if_splits)

locale kept_relation =
  fixes R :: "receipts \<Rightarrow> receipts \<Rightarrow> bool"
  assumes kept_refl: "R rs rs" and kept_trans: "R rs rs' \<Longrightarrow> R rs' rs'' \<Longrightarrow> R rs rs''"
begin

lemma keeps_ret: "keeps R (ret x)"
  by (simp add: keeps_def ret_def kept_refl)

lemma keeps_throw: "keeps R (throw e)"
  by (simp add: keeps_def throw_def kept_refl)

lemma keeps_io: "keeps R (io flt p msg)"
  by (simp add: io_def keeps_ret keeps_throw)

lemma kept_andthen:
  assumes "keeps R m" and "\<And>x rs'. m rs = (Inr x, rs') \<Longrightarrow> R rs' (snd (f x rs'))"
  shows "R rs (snd (andthen m f rs))"
proof -
  obtain r rs' where m: "m rs = (r, rs')" by (metis prod.collapse)
  with assms(1) have k: "R rs rs'" unfolding keeps_def by (metis snd_conv)
  show ?thesis
  proof (cases r)
    case (Inl e)
    with m k show ?thesis by (simp add: andthen_def)
  next
    case (Inr x)
    with m assms(2) kept_trans [OF k] show ?thesis by (simp add: andthen_def)
  qed
qed

lemma keeps_andthen: "keeps R m \<Longrightarrow> (\<And>x. keeps R (f x)) \<Longrightarrow> keeps R (andthen m f)"
  unfolding keeps_def [of R "andthen m f"] by (blast intro: kept_andthen dest: keeps_def [THEN iffD1, rule_format])

lemma keeps_get: "(\<And>rs. R rs (snd (f rs rs))) \<Longrightarrow> keeps R (andthen get_dir f)"
  by (simp add: keeps_def)

lemma keeps_get_dir: "(\<And>rs. keeps R (f rs)) \<Longrightarrow> keeps R (andthen get_dir f)"
  by (simp add: keeps_def)

lemma keeps_if: "keeps R m \<Longrightarrow> keeps R n \<Longrightarrow> keeps R (if b then m else n)"
  by simp

lemma keeps_read_unchecked: "keeps R (read_stored_receipt_unchecked flt name)"
  unfolding read_stored_receipt_unchecked_def
  by (intro keeps_get_dir) (auto split: option.split content.split intro!: keeps_andthen keeps_io keeps_throw keeps_ret)

lemma keeps_read: "keeps R (read_stored_receipt flt name key)"
  unfolding read_stored_receipt_def by (intro keeps_andthen keeps_read_unchecked keeps_if keeps_throw keeps_ret)

lemma keeps_read_optional: "keeps R (read_optional_stored_receipt flt name key)"
  unfolding read_optional_stored_receipt_def
  by (intro keeps_andthen keeps_io keeps_get_dir keeps_if keeps_read keeps_ret)

lemma keeps_check_lock: "keeps R (check_lock_file flt name)"
  unfolding check_lock_file_def by (intro keeps_andthen keeps_io keeps_if keeps_throw keeps_ret)

lemma keeps_list_entries: "keeps R (list_entries flt es)"
  by (induction flt es rule: list_entries.induct) (auto intro!: keeps_andthen keeps_io keeps_ret)

lemma keeps_expired: "keeps R (pending_claim_is_expired flt r name now)"
  unfolding pending_claim_is_expired_def
  by (auto split: option.split intro!: keeps_ret keeps_andthen keeps_io keeps_get_dir keeps_throw)

lemma keeps_keys: "keeps R (required_key key)" "keeps R (fingerprint_of fp)" "keeps R (open_receipt_dir flt)"
  unfolding required_key_def fingerprint_of_def open_receipt_dir_def
  by (auto split: sum.split option.split intro!: keeps_ret keeps_throw)

lemma keeps_maintenance: "keeps R (acquire_receipt_maintenance_lock flt)"
  unfolding acquire_receipt_maintenance_lock_def by (intro keeps_andthen keeps_io keeps_if keeps_throw)

lemma keeps_temporary: "keeps R (write_temporary_receipt flt)"
  unfolding write_temporary_receipt_def by (intro keeps_andthen keeps_io)

lemmas keeps_intros = keeps_ret keeps_throw keeps_io keeps_andthen keeps_get_dir keeps_if keeps_read_unchecked keeps_read
  keeps_read_optional keeps_check_lock keeps_list_entries keeps_expired keeps_keys keeps_maintenance keeps_temporary

end

definition held :: "receipts \<Rightarrow> string \<Rightarrow> bool" where
  "held rs name \<longleftrightarrow> map_of (rs_locks rs) name = Some True"

definition untouched :: "string \<Rightarrow> receipts \<Rightarrow> receipts \<Rightarrow> bool" where
  "untouched n rs rs' \<longleftrightarrow>
     map_of (rs_files rs') n = map_of (rs_files rs) n \<and> map_of (rs_locks rs') n = map_of (rs_locks rs) n"

definition spares :: "string \<Rightarrow> receipts \<Rightarrow> receipts \<Rightarrow> bool" where
  "spares n rs rs' \<longleftrightarrow> (held rs n \<longrightarrow> untouched n rs rs')"

definition same_file :: "string \<Rightarrow> receipts \<Rightarrow> receipts \<Rightarrow> bool" where
  "same_file n rs rs' \<longleftrightarrow> map_of (rs_files rs') n = map_of (rs_files rs) n"

definition same_files :: "receipts \<Rightarrow> receipts \<Rightarrow> bool" where
  "same_files rs rs' \<longleftrightarrow> rs_files rs' = rs_files rs"

interpretation untouched: kept_relation "untouched n" for n
  by unfold_locales (auto simp: untouched_def)

interpretation spares: kept_relation "spares n" for n
  by unfold_locales (auto simp: untouched_def spares_def held_def)

interpretation same_file: kept_relation "same_file n" for n
  by unfold_locales (auto simp: same_file_def)

interpretation same_files: kept_relation same_files
  by unfold_locales (auto simp: same_files_def)

definition distinct_files :: "receipts \<Rightarrow> receipts \<Rightarrow> bool" where
  "distinct_files rs rs' \<longleftrightarrow> (keys_distinct (rs_files rs) \<longrightarrow> keys_distinct (rs_files rs'))"

interpretation distinct_files: kept_relation distinct_files
  by unfold_locales (auto simp: distinct_files_def)

section \<open>Files and locks of others\<close>

lemma keeps_updates:
  "k \<noteq> n \<Longrightarrow> keeps (untouched n) (update_files (AList.update k v))"
  "k \<noteq> n \<Longrightarrow> keeps (untouched n) (update_files (AList.delete k))"
  "k \<noteq> n \<Longrightarrow> keeps (untouched n) (update_locks (AList.update k b))"
  "k \<noteq> n \<Longrightarrow> keeps (untouched n) (update_locks (AList.delete k))"
  by (simp_all add: keeps_def untouched_def update_files_def update_locks_def AList.update_conv' AList.delete_conv')

lemma keeps_updates_distinct:
  "keeps distinct_files (update_files (AList.update k v))" "keeps distinct_files (update_files (AList.delete k))"
  "keeps distinct_files (update_locks h)"
  by (simp_all add: keeps_def distinct_files_def update_files_def update_locks_def distinct_update distinct_delete)

lemma untouched_release: "k \<noteq> n \<Longrightarrow> untouched n rs (release k rs)"
  by (simp add: untouched_def release_def AList.update_conv')

lemma keeps_with_lock:
  assumes "keeps R m" "\<And>rs rs'. R rs rs' \<Longrightarrow> R rs (release name rs')"
  shows "keeps R (with_lock name k m)"
  using assms unfolding keeps_def with_lock_def by (auto split: prod.splits sum.splits) (metis snd_conv)+

lemma keeps_evict_one:
  assumes "keeps R (read_stored_receipt_unchecked flt name)" and trans: "\<And>rs rs' rs''. R rs rs' \<Longrightarrow> R rs' rs'' \<Longrightarrow> R rs rs''"
    and "keeps R (andthen (io flt (EvictReceipt name) ''failed to evict apply receipt'') (\<lambda>_.
                  andthen (update_files (AList.delete name)) (\<lambda>_.
                    andthen (remove_receipt_lock flt name) (\<lambda>_. ret True))))"
  shows "keeps R (evict_one flt name)"
  unfolding keeps_def
proof
  fix rs
  obtain r rs' where r: "read_stored_receipt_unchecked flt name rs = (r, rs')" by (metis prod.collapse)
  with assms(1) have k: "R rs rs'" unfolding keeps_def by (metis snd_conv)
  from assms(3) have e: "R rs' (snd (andthen (io flt (EvictReceipt name) ''failed to evict apply receipt'') (\<lambda>_.
                  andthen (update_files (AList.delete name)) (\<lambda>_.
                    andthen (remove_receipt_lock flt name) (\<lambda>_. ret True))) rs'))"
    unfolding keeps_def by blast
  show "R rs (snd (evict_one flt name rs))"
    unfolding evict_one_def r using k trans [OF k e] by (simp split: sum.split)
qed

context kept_relation
begin

lemma keeps_try_flock: "keeps R (update_locks (AList.update name True)) \<Longrightarrow> keeps R (try_flock flt name)"
  unfolding try_flock_def by (intro keeps_intros)

lemma keeps_remove_lock: "keeps R (update_locks (AList.delete name)) \<Longrightarrow> keeps R (remove_receipt_lock flt name)"
  unfolding remove_receipt_lock_def by (intro keeps_intros)

lemma keeps_acquire_existing:
  "keeps R (update_locks (AList.update name True)) \<Longrightarrow> keeps R (try_acquire_existing_receipt_lock flt name)"
  unfolding try_acquire_existing_receipt_lock_def by (intro keeps_intros keeps_try_flock)

lemma keeps_acquire:
  assumes "\<And>b. keeps R (update_locks (AList.update name b))"
  shows "keeps R (try_acquire_receipt_lock flt name)"
  unfolding try_acquire_receipt_lock_def by (intro keeps_intros keeps_try_flock assms)

lemma keeps_persist: "(\<And>f. keeps R (update_files (AList.update name f))) \<Longrightarrow> keeps R (persist_new_receipt flt now name r)"
  unfolding persist_new_receipt_def by (intro keeps_intros)

lemma keeps_replace: "(\<And>f. keeps R (update_files (AList.update name f))) \<Longrightarrow> keeps R (replace_receipt flt now name r)"
  unfolding replace_receipt_def by (intro keeps_intros)

lemma keeps_evict:
  assumes "keeps R (update_files (AList.delete name))" "keeps R (update_locks (AList.delete name))"
  shows "keeps R (evict_one flt name)"
  by (intro keeps_evict_one keeps_intros keeps_remove_lock assms) (rule kept_trans)

lemma keeps_classify:
  assumes "\<And>f. keeps R (update_files (AList.update name f))" "keeps R (update_locks (AList.delete name))"
  shows "keeps R (classify_existing_receipt flt cid r name key fp now)"
  unfolding classify_existing_receipt_def new_pending_claim_def Let_def prod.case
  by (auto split: option.split receipt_status.split intro!: keeps_intros keeps_replace keeps_remove_lock assms)

lemma keeps_evict_loop:
  assumes "\<And>name. name \<in> fst ` set es \<Longrightarrow> keeps R (update_files (AList.delete name))"
    and "\<And>name b. name \<in> fst ` set es \<Longrightarrow> keeps R (update_locks (AList.delete name)) \<and> keeps R (update_locks (AList.update name b))"
    and "\<And>name rs rs'. name \<in> fst ` set es \<Longrightarrow> R rs rs' \<Longrightarrow> R rs (release name rs')"
  shows "keeps R (evict_loop flt cutoff count es)"
  using assms
  by (induction flt cutoff count es rule: evict_loop.induct)
    (auto split: existing_lock.split intro!: keeps_intros keeps_acquire_existing keeps_with_lock keeps_evict)

end

section \<open>Eviction\<close>

lemma keeps_untouched_spares: "keeps (untouched n) m \<Longrightarrow> keeps (spares n) m"
  by (simp add: keeps_def spares_def)

lemmas untouched_intros = keeps_updates untouched.keeps_intros untouched.keeps_classify untouched.keeps_persist
  untouched.keeps_acquire untouched.keeps_acquire_existing untouched.keeps_remove_lock untouched.keeps_replace

lemma held_contains: "held rs n \<Longrightarrow> contains_key (rs_locks rs) n"
  by (metis contains_key_def held_def option.simps(3))

lemma io_cases: "io flt p msg rs = (Inr (), rs) \<or> (\<exists>e. io flt p msg rs = (Inl e, rs))"
  by (simp add: io_def ret_def throw_def)

lemma check_lock_cases: "check_lock_file flt n rs = (Inr (), rs) \<or> (\<exists>e. check_lock_file flt n rs = (Inl e, rs))"
  by (simp add: check_lock_file_def io_def ret_def throw_def andthen_def)

lemma flock_held: "held rs n \<Longrightarrow> try_flock flt n rs = (Inr False, rs) \<or> (\<exists>e. try_flock flt n rs = (Inl e, rs))"
  using io_cases [of flt "Flock n" "''failed to lock apply receipt''" rs]
  by (auto simp: try_flock_def andthen_def get_dir_def held_def ret_def)

lemma existing_held:
  assumes "held rs n"
  shows "try_acquire_existing_receipt_lock flt n rs = (Inr LockBusy, rs)
    \<or> (\<exists>e. try_acquire_existing_receipt_lock flt n rs = (Inl e, rs))"
  using held_contains [OF assms] io_cases [of flt "OpenLock n" "''failed to open apply receipt lock''" rs]
    check_lock_cases [of flt n rs] flock_held [OF assms, of flt]
  by (auto simp: try_acquire_existing_receipt_lock_def andthen_def get_dir_def ret_def)

lemma acquire_held:
  assumes "held rs n"
  shows "try_acquire_receipt_lock flt n rs = (Inr False, rs) \<or> (\<exists>e. try_acquire_receipt_lock flt n rs = (Inl e, rs))"
  using held_contains [OF assms] io_cases [of flt "OpenLock n" "''failed to open apply receipt lock''" rs]
    check_lock_cases [of flt n rs] flock_held [OF assms, of flt]
  by (auto simp: try_acquire_receipt_lock_def andthen_def get_dir_def)

lemma spares_trivial: "\<not> held rs n \<Longrightarrow> spares n rs rs'"
  by (simp add: spares_def)

lemma keeps_evict_loop_spares: "keeps (spares n) (evict_loop flt cutoff count es)"
proof (induction flt cutoff count es rule: evict_loop.induct)
  case (1 flt cutoff count)
  show ?case by (simp add: spares.keeps_ret)
next
  case (2 flt cutoff count name modified es)
  show ?case
  proof (cases "count < max_apply_receipts \<or> modified > cutoff")
    case True
    then show ?thesis by (simp add: spares.keeps_ret)
  next
    case go: False
    note IH = 2 [OF go]
    show ?thesis
    proof (cases "name = n")
      case False
      note u = keeps_updates [OF False]
      have r: "spares n rs (release name rs')" if "spares n rs rs'" for rs rs'
        using that untouched_release [OF False, of rs'] by (auto simp: spares_def untouched_def)
      have e: "keeps (spares n) (evict_one flt name)" by (intro keeps_untouched_spares untouched.keeps_evict u)
      have "keeps (spares n) (try_acquire_existing_receipt_lock flt name)"
        by (intro keeps_untouched_spares untouched.keeps_acquire_existing u)
      then show ?thesis
        using go IH by (auto split: existing_lock.split intro!: spares.keeps_andthen keeps_with_lock r e)
    next
      case True
      show ?thesis
        unfolding keeps_def
      proof
        fix rs
        show "spares n rs (snd (evict_loop flt cutoff count ((name, modified) # es) rs))"
        proof (cases "held rs n")
          case False
          then show ?thesis by (rule spares_trivial)
        next
          case h: True
          have "keeps (spares n) (evict_loop flt cutoff count es)" using IH by (metis (full_types))
          then have "spares n rs (snd (evict_loop flt cutoff count es rs))" by (simp add: keeps_def)
          with existing_held [OF h, of flt] go True show ?thesis
            by (auto simp: andthen_def spares.kept_refl)
        qed
      qed
    qed
  qed
qed

lemma evict_loop_young:
  "(\<And>m. (n, m) \<in> set es \<Longrightarrow> cutoff < m) \<Longrightarrow> keeps (untouched n) (evict_loop flt cutoff count es)"
proof (induction flt cutoff count es rule: evict_loop.induct)
  case (1 flt cutoff count)
  show ?case by (simp add: untouched.keeps_ret)
next
  case (2 flt cutoff count name modified es)
  show ?case
  proof (cases "count < max_apply_receipts \<or> modified > cutoff")
    case True
    then show ?thesis by (simp add: untouched.keeps_ret)
  next
    case go: False
    with 2(4) have d: "name \<noteq> n" by auto
    note u = keeps_updates [OF d]
    have r: "untouched n rs (release name rs')" if "untouched n rs rs'" for rs rs'
      using that untouched_release [OF d, of rs'] by (auto simp: untouched_def)
    have es: "\<And>m. (n, m) \<in> set es \<Longrightarrow> cutoff < m" using 2(4) by simp
    have e: "keeps (untouched n) (evict_one flt name)" by (intro untouched.keeps_evict u)
    have "keeps (untouched n) (try_acquire_existing_receipt_lock flt name)"
      by (intro untouched.keeps_acquire_existing u)
    then show ?thesis
      using go 2(1-3) [OF go es] by (auto split: existing_lock.split intro!: untouched.keeps_andthen keeps_with_lock r e)
  qed
qed

lemma list_entries_Inr:
  "list_entries flt fs rs = (Inr es, rs') \<Longrightarrow> es = map (\<lambda>(n, f). (n, rf_modified f)) fs"
  by (induction flt fs arbitrary: es rs rs' rule: list_entries.induct) (auto simp: ret_def andthen_Inr_iff)

lemma keeps_capacity_spares: "keeps (spares n) (ensure_receipt_capacity flt now)"
  unfolding ensure_receipt_capacity_def
  by (intro spares.keeps_intros keeps_evict_loop_spares)

lemma keeps_capacity_distinct: "keeps distinct_files (ensure_receipt_capacity flt now)"
proof -
  have "distinct_files rs (release name rs')" if "distinct_files rs rs'" for rs rs' name
    using that by (simp add: distinct_files_def release_def)
  then have "keeps distinct_files (evict_loop flt cutoff count es)" for cutoff count es
    by (intro distinct_files.keeps_evict_loop) (auto intro: keeps_updates_distinct)
  then show ?thesis
    unfolding ensure_receipt_capacity_def by (intro distinct_files.keeps_intros)
qed

lemma capacity_young:
  assumes "keys_distinct (rs_files rs)" "map_of (rs_files rs) n = Some f" "now - apply_receipt_retention < rf_modified f"
  shows "untouched n rs (snd (ensure_receipt_capacity flt now rs))"
proof -
  have loop: "keeps (untouched n) (evict_loop flt (now - apply_receipt_retention) c (sort_key snd es))"
    if le: "list_entries flt (rs_files rs) rs' = (Inr es, rs'')" for c es rs' rs''
  proof (rule evict_loop_young)
    fix m assume "(n, m) \<in> set (sort_key snd es)"
    then obtain f' where "(n, f') \<in> set (rs_files rs)" "m = rf_modified f'"
      unfolding list_entries_Inr [OF le] by auto
    with assms map_of_distinct_in [OF assms(1)] show "now - apply_receipt_retention < m" by fastforce
  qed
  show ?thesis
    unfolding ensure_receipt_capacity_def
    apply (rule untouched.kept_andthen, rule untouched.keeps_io)
    apply (auto simp: io_def ret_def throw_def split: if_splits)
    apply (rule untouched.kept_andthen, rule untouched.keeps_list_entries)
    subgoal for es rs'
      using loop [of rs es rs']
      by (auto simp: untouched.keeps_ret [unfolded keeps_def] intro!: untouched.kept_andthen
          untouched.keeps_throw [unfolded keeps_def, rule_format] untouched.keeps_io [unfolded keeps_def, rule_format])
    done
qed

section \<open>Claims\<close>

interpretation unchanged: kept_relation "(=)"
  by unfold_locales auto

definition young_kept :: "int \<Rightarrow> string \<Rightarrow> receipts \<Rightarrow> receipts \<Rightarrow> bool" where
  "young_kept now n rs rs' \<longleftrightarrow>
     (keys_distinct (rs_files rs) \<and> (\<exists>f. map_of (rs_files rs) n = Some f \<and> now - apply_receipt_retention < rf_modified f) \<longrightarrow>
      keys_distinct (rs_files rs') \<and> map_of (rs_files rs') n = map_of (rs_files rs) n)"

interpretation young_kept: kept_relation "young_kept now n" for now n
  by unfold_locales (auto simp: young_kept_def)

lemma young_keptI: "keeps (untouched n) m \<Longrightarrow> keeps distinct_files m \<Longrightarrow> keeps (young_kept now n) m"
  by (auto simp: keeps_def untouched_def distinct_files_def young_kept_def)

context kept_relation
begin

lemma keeps_recover:
  assumes "keeps R a" "keeps R b"
  shows "keeps R (\<lambda>rs. case a rs of (Inl e, rs) \<Rightarrow> (Inl e, snd (b rs)) | r \<Rightarrow> r)"
  unfolding keeps_def
proof
  fix rs
  obtain r rs' where a: "a rs = (r, rs')" by (metis prod.collapse)
  with assms(1) have k: "R rs rs'" unfolding keeps_def by (metis snd_conv)
  from assms(2) have "R rs' (snd (b rs'))" by (simp add: keeps_def)
  with kept_trans [OF k] k show "R rs (snd (case a rs of (Inl e, rs) \<Rightarrow> (Inl e, snd (b rs)) | r \<Rightarrow> r))"
    unfolding a by (simp split: sum.split)
qed

lemma keeps_claim_locked:
  assumes "\<And>f. keeps R (update_files (AList.update name f))" "keeps R (update_locks (AList.delete name))"
    "keeps R (ensure_receipt_capacity flt now)"
  shows "keeps R (claim_locked flt cid name key fp now raced)"
proof -
  have "keeps R (raced_create name raced)"
    unfolding raced_create_def by (cases raced) (auto intro: keeps_ret assms)
  then have "keeps R (claim_fresh flt cid name key fp now raced)"
    unfolding claim_fresh_def new_pending_claim_def Let_def prod.case
    by (intro keeps_intros keeps_recover keeps_persist keeps_classify keeps_remove_lock assms)
  then show ?thesis
    unfolding claim_locked_def
    by (auto split: option.split intro!: keeps_intros keeps_classify assms)
qed

lemma keeps_claim:
  assumes "\<And>k f. keeps R (update_files (AList.update (name_of k) f))"
    "\<And>k b. keeps R (update_locks (AList.update (name_of k) b))" "\<And>k. keeps R (update_locks (AList.delete (name_of k)))"
    "keeps R (ensure_receipt_capacity flt now)" "\<And>k rs rs'. R rs rs' \<Longrightarrow> R rs (release (name_of k) rs')"
  shows "keeps R (claim_apply_idempotency_at flt name_of cid key fp now raced)"
  unfolding claim_apply_idempotency_at_def Let_def
  by (intro keeps_intros keeps_acquire keeps_with_lock keeps_claim_locked assms)

end

lemma distinct_release: "distinct_files rs rs' \<Longrightarrow> distinct_files rs (release name rs')"
  by (simp add: distinct_files_def release_def)

lemma claim_distinct: "keeps distinct_files (claim_apply_idempotency_at flt name_of cid key fp now raced)"
  by (intro distinct_files.keeps_claim keeps_updates_distinct keeps_capacity_distinct distinct_release)

lemma keeps_eqD: "keeps (=) m \<Longrightarrow> m rs = (r, rs') \<Longrightarrow> rs' = rs"
  unfolding keeps_def by (metis snd_conv)

lemma read_Inr:
  assumes "read_stored_receipt flt name key rs = (Inr r, rs')"
  shows "rs' = rs \<and> (\<exists>f. map_of (rs_files rs) name = Some f \<and> rf_content f = Parsed r) \<and> sr_idempotency_key r = key"
proof -
  have "rs' = rs" using keeps_eqD [OF unchanged.keeps_read assms] .
  with assms show ?thesis
    by (auto simp: read_stored_receipt_def read_stored_receipt_unchecked_def andthen_Inr_iff io_def ret_def throw_def
        split: option.splits content.splits if_splits)
qed

lemma read_optional_Inr:
  assumes "read_optional_stored_receipt flt name key rs = (Inr x, rs')"
  shows "rs' = rs" and "case x of None \<Rightarrow> map_of (rs_files rs) name = None
    | Some r \<Rightarrow> (\<exists>f. map_of (rs_files rs) name = Some f \<and> rf_content f = Parsed r) \<and> sr_idempotency_key r = key"
proof -
  show "rs' = rs" using keeps_eqD [OF unchanged.keeps_read_optional assms] .
  from assms show "case x of None \<Rightarrow> map_of (rs_files rs) name = None
    | Some r \<Rightarrow> (\<exists>f. map_of (rs_files rs) name = Some f \<and> rf_content f = Parsed r) \<and> sr_idempotency_key r = key"
    unfolding read_optional_stored_receipt_def andthen_Inr_iff
    by (auto simp: io_def ret_def throw_def andthen_Inr_iff get_dir_def contains_key_def split: if_splits dest: read_Inr)
qed

lemma acquire_True:
  assumes "try_acquire_receipt_lock flt n rs = (Inr True, rs')"
  shows "\<not> held rs n" "held rs' n" "rs_files rs' = rs_files rs"
proof -
  have f: "try_flock flt n rs1 = (Inr True, rs2) \<Longrightarrow> \<not> held rs1 n \<and> held rs2 n \<and> rs_files rs2 = rs_files rs1" for rs1 rs2
    by (auto simp: try_flock_def andthen_Inr_iff io_def ret_def throw_def held_def AList.update_conv' update_locks_def
        split: if_splits)
  have c: "check_lock_file flt n rs1 = (Inr u, rs2) \<Longrightarrow> rs2 = rs1" for rs1 rs2 u
    using keeps_eqD [OF unchanged.keeps_check_lock] .
  have "\<not> held rs n \<and> held rs' n \<and> rs_files rs' = rs_files rs"
    using assms unfolding try_acquire_receipt_lock_def
    by (auto simp: andthen_Inr_iff io_def ret_def throw_def contains_key_def held_def split: if_splits dest!: f c)
  then show "\<not> held rs n" "held rs' n" "rs_files rs' = rs_files rs" by auto
qed


section \<open>What an acquired claim owns\<close>

lemma ws_bytes_first: "ws_bytes b \<Longrightarrow> \<exists>x \<in> set b. x < 33 \<or> 127 < x"
  by (induction b rule: ws_bytes.induct) auto

lemma transport_no_whitespace: "list_all transport_char s \<Longrightarrow> \<not> has_whitespace s"
proof
  assume a: "list_all transport_char s" and "has_whitespace s"
  then obtain l t r where "s = l @ t @ r" "ws_bytes (map ord_of t)" unfolding has_whitespace_iff by blast
  with ws_bytes_first obtain c where "c \<in> set s" "ord_of c < 33 \<or> 127 < ord_of c" by fastforce
  with a show False by (auto simp: list_all_iff transport_char_def ascii_defs)
qed

lemma normalize_again: "normalize_transport_value v fld = Inr (Some k) \<Longrightarrow> normalize_transport_value (Some k) fld = Inr (Some k)"
  using trim_str_id [OF transport_no_whitespace]
  by (auto simp: normalize_transport_value_def Let_def split: option.splits if_splits)

definition claim_wf :: "(string \<Rightarrow> string) \<Rightarrow> apply_claim \<Rightarrow> bool" where
  "claim_wf name_of c \<longleftrightarrow> ac_receipt_name c = name_of (ac_idempotency_key c)
     \<and> normalize_apply_idempotency_key (Some (ac_idempotency_key c)) = Inr (Some (ac_idempotency_key c))
     \<and> normalize_apply_request_fingerprint (ac_request_fingerprint c) = Inr (ac_request_fingerprint c)"

definition claim_backed :: "receipts \<Rightarrow> apply_claim \<Rightarrow> bool" where
  "claim_backed rs c \<longleftrightarrow> held rs (ac_receipt_name c) \<and>
     (\<exists>f r. map_of (rs_files rs) (ac_receipt_name c) = Some f \<and> rf_content f = Parsed r \<and> owns_receipt c r
        \<and> sr_idempotency_key r = ac_idempotency_key c)"

lemma backed_fresh:
  assumes "held rs name" "rs_locks rs' = rs_locks rs" "new_pending_claim cid key fp now name = (c, r)"
    "map_of (rs_files rs') name = Some \<lparr>rf_content = Parsed r, rf_modified = now\<rparr>"
  shows "claim_backed rs' c \<and> ac_receipt_name c = name \<and> ac_idempotency_key c = key \<and> ac_request_fingerprint c = fp"
  using assms by (auto simp: claim_backed_def held_def new_pending_claim_def owns_receipt_def)

lemma replace_Inr:
  "replace_receipt flt now name r rs = (Inr u, rs') \<Longrightarrow>
     rs_locks rs' = rs_locks rs \<and> map_of (rs_files rs') name = Some \<lparr>rf_content = Parsed r, rf_modified = now\<rparr>"
  by (auto simp: replace_receipt_def andthen_Inr_iff update_files_def io_def ret_def throw_def AList.update_conv' split: if_splits)

lemma persist_True:
  "persist_new_receipt flt now name r rs = (Inr True, rs') \<Longrightarrow>
     rs_locks rs' = rs_locks rs \<and> map_of (rs_files rs') name = Some \<lparr>rf_content = Parsed r, rf_modified = now\<rparr>"
  by (auto simp: persist_new_receipt_def andthen_Inr_iff get_dir_def update_files_def io_def ret_def throw_def
      AList.update_conv' split: if_splits)

lemma persist_False: "persist_new_receipt flt now name r rs = (Inr False, rs') \<Longrightarrow> rs' = rs"
  by (auto simp: persist_new_receipt_def andthen_Inr_iff get_dir_def update_files_def io_def ret_def throw_def split: if_splits)

lemma classify_acquired:
  assumes "classify_existing_receipt flt cid r name key fp now rs = (Inr (Acquired c), rs')" "held rs name"
  shows "claim_backed rs' c \<and> ac_receipt_name c = name \<and> ac_idempotency_key c = key \<and> ac_request_fingerprint c = fp"
proof -
  obtain claim stored where n: "new_pending_claim cid key fp now name = (claim, stored)" by (metis prod.collapse)
  have p: "sr_status r = Some StatusPending"
    using assms(1) unfolding classify_existing_receipt_def
    by (auto simp: throw_def ret_def andthen_Inr_iff split: if_splits option.splits receipt_status.splits)
  with assms(1) obtain rs1 u where e: "pending_claim_is_expired flt r name now rs = (Inr True, rs1)"
    and x: "replace_receipt flt now name stored rs1 = (Inr u, rs')" and c: "c = claim"
    unfolding classify_existing_receipt_def n
    by (auto simp: throw_def ret_def andthen_Inr_iff split: if_splits)
  from keeps_eqD [OF unchanged.keeps_expired e] have "rs1 = rs" .
  with replace_Inr [OF x] backed_fresh [OF assms(2) _ n] c p show ?thesis by blast
qed

lemma raced_create_locks: "raced_create name raced rs = (Inr u, rs') \<Longrightarrow> rs_locks rs' = rs_locks rs"
  by (auto simp: raced_create_def ret_def update_files_def split: option.splits)

lemma recover_Inr: "(case p of (Inl e, rs) \<Rightarrow> (Inl e, f rs) | (Inr y, rs) \<Rightarrow> (Inr y, rs)) = (Inr x, rs') \<longleftrightarrow> p = (Inr x, rs')"
  by (auto split: prod.splits sum.splits)

lemma fresh_acquired:
  assumes "claim_fresh flt cid name key fp now raced rs = (Inr (Acquired c), rs')" "held rs name"
  shows "claim_backed rs' c \<and> ac_receipt_name c = name \<and> ac_idempotency_key c = key \<and> ac_request_fingerprint c = fp"
proof -
  obtain claim stored where n: "new_pending_claim cid key fp now name = (claim, stored)" by (metis prod.collapse)
  from assms(1) obtain rs1 rs2 rs3 persisted where cap: "ensure_receipt_capacity flt now rs = (Inr (), rs1)"
    and raced: "raced_create name raced rs1 = (Inr (), rs2)"
    and per: "persist_new_receipt flt now name stored rs2 = (Inr persisted, rs3)"
    and fin: "(if persisted then ret (Acquired claim)
                else andthen (read_stored_receipt flt name key) (\<lambda>existing.
                  classify_existing_receipt flt cid existing name key fp now)) rs3 = (Inr (Acquired c), rs')"
    unfolding claim_fresh_def n prod.case Let_def andthen_Inr_iff recover_Inr
    by (auto dest!: maintenance_Inr)
  have "spares name rs rs1" using keeps_capacity_spares [of name flt now] cap unfolding keeps_def by (metis snd_conv)
  with assms(2) have "held rs1 name" by (simp add: spares_def untouched_def held_def)
  with raced_create_locks [OF raced] have h2: "held rs2 name" by (simp add: held_def)
  show ?thesis
  proof (cases persisted)
    case True
    with per have per: "persist_new_receipt flt now name stored rs2 = (Inr True, rs3)" by simp
    from fin True have "c = claim" "rs' = rs3" by (simp_all add: ret_def)
    with persist_True [OF per] backed_fresh [OF h2 _ n] show ?thesis by blast
  next
    case False
    with per have per: "persist_new_receipt flt now name stored rs2 = (Inr False, rs3)" by simp
    from fin False obtain r rs4 where r: "read_stored_receipt flt name key rs3 = (Inr r, rs4)"
      and cl: "classify_existing_receipt flt cid r name key fp now rs4 = (Inr (Acquired c), rs')"
      by (auto simp: andthen_Inr_iff)
    have "rs4 = rs2" using persist_False [OF per] read_Inr [OF r] by simp
    with classify_acquired [OF cl] h2 show ?thesis by simp
  qed
qed


lemma claim_acquired:
  assumes "claim_apply_idempotency_at flt name_of cid key fp now raced rs = (Inr (Acquired c), rs')"
  shows "claim_backed rs' c" "\<not> held rs (ac_receipt_name c)" "claim_wf name_of c"
proof -
  from assms obtain k f rs1 where k: "normalize_apply_idempotency_key (Some key) = Inr (Some k)"
    and f: "normalize_apply_request_fingerprint fp = Inr f"
    and a: "try_acquire_receipt_lock flt (name_of k) rs = (Inr True, rs1)"
    and w: "with_lock (name_of k) is_acquired (claim_locked flt cid (name_of k) k f now raced) rs1 = (Inr (Acquired c), rs')"
    unfolding claim_apply_idempotency_at_def Let_def
    by (auto simp: andthen_Inr_iff required_key_def fingerprint_of_def open_receipt_dir_def ret_def throw_def
        split: sum.splits option.splits if_splits)
  let ?n = "name_of k"
  note l = acquire_True [OF a]
  from w have "claim_locked flt cid ?n k f now raced rs1 = (Inr (Acquired c), rs')"
    by (auto simp: with_lock_def split: prod.splits sum.splits if_splits)
  then obtain x rs2 where o: "read_optional_stored_receipt flt ?n k rs1 = (Inr x, rs2)"
    and y: "(case x of Some r \<Rightarrow> classify_existing_receipt flt cid r ?n k f now
       | None \<Rightarrow> claim_fresh flt cid ?n k f now raced) rs2 = (Inr (Acquired c), rs')"
    by (auto simp: claim_locked_def andthen_Inr_iff)
  have "rs2 = rs1" using read_optional_Inr(1) [OF o] .
  with y l(2) have c: "claim_backed rs' c \<and> ac_receipt_name c = ?n \<and> ac_idempotency_key c = k \<and> ac_request_fingerprint c = f"
    by (auto split: option.splits dest: classify_acquired fresh_acquired)
  then show "claim_backed rs' c" "\<not> held rs (ac_receipt_name c)" using l by simp_all
  have "normalize_apply_request_fingerprint f = Inr f"
    using f normalize_again
    by (cases f) (auto simp: normalize_apply_request_fingerprint_def normalize_transport_value_def)
  with c k normalize_again show "claim_wf name_of c"
    by (auto simp: claim_wf_def normalize_apply_idempotency_key_def)
qed

lemma spares_release: "spares n rs rs' \<Longrightarrow> k \<noteq> n \<Longrightarrow> spares n rs (release k rs')"
  using untouched_release [of k n rs'] by (auto simp: spares_def untouched_def)

lemma keeps_updates_spares:
  assumes "k \<noteq> n"
  shows "keeps (spares n) (update_files (AList.update k v))" "keeps (spares n) (update_locks (AList.update k b))"
    "keeps (spares n) (update_locks (AList.delete k))" "keeps (spares n) (update_files (AList.delete k))"
  by (rule keeps_untouched_spares, rule keeps_updates [OF assms])+

lemma claim_spares: "keeps (spares n) (claim_apply_idempotency_at flt name_of cid key fp now raced)"
proof -
  have step: "keeps (spares n) (andthen (try_acquire_receipt_lock flt name) (\<lambda>got.
       if \<not> got then ret ClaimPending
       else with_lock name is_acquired (claim_locked flt cid name k f now raced)))" for name k f
  proof (cases "name = n")
    case False
    then show ?thesis
      by (intro spares.keeps_intros spares.keeps_acquire keeps_with_lock spares.keeps_claim_locked
          keeps_updates_spares keeps_capacity_spares spares_release)
  next
    case True
    have "spares n rs (snd (andthen (try_acquire_receipt_lock flt n) g rs))"
      if "g False = ret ClaimPending" for rs and g :: "bool \<Rightarrow> claim_outcome fallible"
      using acquire_held [of rs n flt] that by (cases "held rs n") (auto simp: spares_trivial andthen_def ret_def spares.kept_refl)
    with True show ?thesis by (simp add: keeps_def)
  qed
  show ?thesis
    unfolding claim_apply_idempotency_at_def Let_def by (intro spares.keeps_andthen spares.keeps_keys step)
qed

section \<open>Settled receipts\<close>

definition settled :: "receipts \<Rightarrow> string \<Rightarrow> stored_receipt \<Rightarrow> bool" where
  "settled rs n r \<longleftrightarrow> (\<exists>f. map_of (rs_files rs) n = Some f \<and> rf_content f = Parsed r) \<and> sr_status r \<noteq> Some StatusPending"

lemma keeps_lock_updates_same:
  "keeps same_files (update_locks h)" "same_files rs rs' \<Longrightarrow> same_files rs (release n rs')"
  by (simp_all add: keeps_def same_files_def update_locks_def release_def)

lemma classify_settled:
  assumes "sr_status r \<noteq> Some StatusPending"
  shows "keeps same_files (classify_existing_receipt flt cid r name key fp now)"
    and "classify_existing_receipt flt cid r name key fp now rs = (Inr x, rs') \<Longrightarrow>
      \<exists>success. x = ClaimSucceeded success \<and> success_of r = Some success"
  using assms unfolding classify_existing_receipt_def
  by (auto split: option.splits receipt_status.splits if_splits simp: andthen_Inr_iff throw_def ret_def
      intro!: same_files.keeps_intros same_files.keeps_remove_lock keeps_lock_updates_same)

lemma claim_locked_settled:
  assumes "settled rs name r"
  shows "same_files rs (snd (claim_locked flt cid name key fp now raced rs))"
    and "claim_locked flt cid name key fp now raced rs = (Inr x, rs') \<Longrightarrow>
      \<exists>success. x = ClaimSucceeded success \<and> success_of r = Some success"
proof -
  have s: "x = Some r \<and> rs' = rs" if "read_optional_stored_receipt flt name key rs = (Inr x, rs')" for x rs'
    using read_optional_Inr [OF that] assms by (auto simp: settled_def split: option.splits)
  have n: "sr_status r \<noteq> Some StatusPending" using assms by (simp add: settled_def)
  show "same_files rs (snd (claim_locked flt cid name key fp now raced rs))"
    unfolding claim_locked_def
    by (rule same_files.kept_andthen [OF same_files.keeps_read_optional])
      (use s classify_settled(1) [OF n] in \<open>auto simp: keeps_def\<close>)
  show "\<exists>success. x = ClaimSucceeded success \<and> success_of r = Some success"
    if "claim_locked flt cid name key fp now raced rs = (Inr x, rs')"
    using that s classify_settled(2) [OF n] unfolding claim_locked_def andthen_Inr_iff by fastforce
qed

lemma settled_same_files: "same_files rs rs' \<Longrightarrow> settled rs n r \<Longrightarrow> settled rs' n r"
  by (simp add: settled_def same_files_def)

lemma keeps_acquire_same: "keeps same_files (try_acquire_receipt_lock flt name)"
  by (intro same_files.keeps_acquire keeps_lock_updates_same)

lemma with_lock_same: "same_files rs (snd (m rs)) \<Longrightarrow> same_files rs (snd (with_lock name k m rs))"
  by (auto simp: with_lock_def keeps_lock_updates_same split: prod.splits sum.splits)

lemma with_lock_Inr: "with_lock name k m rs = (Inr x, rs') \<Longrightarrow> \<exists>rs1. m rs = (Inr x, rs1)"
  by (auto simp: with_lock_def split: prod.splits sum.splits if_splits)

definition claim_named ::
  "faults \<Rightarrow> string \<Rightarrow> string \<Rightarrow> string \<Rightarrow> string option \<Rightarrow> int \<Rightarrow> receipt_file option \<Rightarrow> claim_outcome fallible" where
  "claim_named flt cid name key fp now raced =
     andthen (try_acquire_receipt_lock flt name) (\<lambda>got.
       if \<not> got then ret ClaimPending
       else with_lock name is_acquired (claim_locked flt cid name key fp now raced))"

lemma claim_unfold:
  "claim_apply_idempotency_at flt name_of cid key fp now raced =
     andthen (required_key key) (\<lambda>key. andthen (fingerprint_of fp) (\<lambda>fp. andthen (open_receipt_dir flt) (\<lambda>_.
       claim_named flt cid (name_of key) key fp now raced)))"
  by (simp add: claim_apply_idempotency_at_def claim_named_def Let_def)

lemma claim_named_settled:
  assumes "settled rs name r"
  shows "same_files rs (snd (claim_named flt cid name key fp now raced rs))"
    and "claim_named flt cid name key fp now raced rs = (Inr x, rs') \<Longrightarrow>
      x = ClaimPending \<or> (\<exists>success. x = ClaimSucceeded success \<and> success_of r = Some success)"
proof -
  have s: "settled rs1 name r" if "try_acquire_receipt_lock flt name rs = (Inr got, rs1)" for got rs1
    using settled_same_files [OF _ assms] keeps_acquire_same [of flt name] that unfolding keeps_def by (metis snd_conv)
  show "same_files rs (snd (claim_named flt cid name key fp now raced rs))"
    unfolding claim_named_def
    by (rule same_files.kept_andthen [OF keeps_acquire_same])
      (auto simp: same_files.kept_refl ret_def intro!: with_lock_same claim_locked_settled(1) s)
  show "x = ClaimPending \<or> (\<exists>success. x = ClaimSucceeded success \<and> success_of r = Some success)"
    if "claim_named flt cid name key fp now raced rs = (Inr x, rs')"
  proof -
    from that obtain got rs1 where a: "try_acquire_receipt_lock flt name rs = (Inr got, rs1)"
      and b: "(if \<not> got then ret ClaimPending
        else with_lock name is_acquired (claim_locked flt cid name key fp now raced)) rs1 = (Inr x, rs')"
      unfolding claim_named_def andthen_Inr_iff by blast
    show ?thesis
    proof (cases got)
      case False
      with b show ?thesis by (simp add: ret_def)
    next
      case True
      with b obtain rs2 where "claim_locked flt cid name key fp now raced rs1 = (Inr x, rs2)"
        using with_lock_Inr by fastforce
      from claim_locked_settled(2) [OF s [OF a] this] show ?thesis by simp
    qed
  qed
qed

lemma claim_young:
  assumes "settled rs n r"
  shows "young_kept now n rs (snd (claim_apply_idempotency_at flt name_of cid key fp now raced rs))"
proof -
  have cap: "keeps (young_kept now n) (ensure_receipt_capacity flt now)"
    using keeps_capacity_distinct [of flt now] capacity_young [of _ n _ now flt]
    unfolding keeps_def young_kept_def distinct_files_def untouched_def by blast
  have up: "keeps (young_kept now n) (update_files (AList.update k v))" "keeps (young_kept now n) (update_locks (AList.update k b))"
    "keeps (young_kept now n) (update_locks (AList.delete k))" if "k \<noteq> n" for k v b
    by (rule young_keptI, rule keeps_updates [OF that], rule keeps_updates_distinct)+
  have other: "keeps (young_kept now n) (claim_named flt cid k key fp now raced)" if "k \<noteq> n" for k key fp
  proof -
    have "young_kept now n rs (release k rs')" if "young_kept now n rs rs'" for rs rs'
      using that by (simp add: young_kept_def release_def)
    then show ?thesis
      unfolding claim_named_def
      by (intro young_kept.keeps_intros young_kept.keeps_acquire keeps_with_lock young_kept.keeps_claim_locked up that cap)
  qed
  have own: "young_kept now n rs (snd (claim_named flt cid n key fp now raced rs))" for key fp
    using claim_named_settled(1) [OF assms] by (simp add: young_kept_def same_files_def)
  have named: "young_kept now n rs (snd (claim_named flt cid k key fp now raced rs))" for k key fp
    using own other by (cases "k = n") (auto simp: keeps_def)
  show ?thesis
    unfolding claim_unfold
    by (intro young_kept.kept_andthen young_kept.keeps_keys) (auto dest!: keeps_eqD [OF unchanged.keeps_keys(1)]
        keeps_eqD [OF unchanged.keeps_keys(2)] keeps_eqD [OF unchanged.keeps_keys(3)] intro!: named)
qed

end
