(* ===== verification/Apply_Once.thy ===== *)
theory Apply_Once
  imports Apply_Frames
begin

text \<open>
  The processes that share a receipt directory as a machine: claims that are won and lost, looks, claims
  that are completed, aborted or dropped by a crash, in any order and with any failures of the file
  system, and its properties: a receipt has one owner, a completed apply is answered from its receipt,
  and within the retention no settled apply is repeated.
\<close>

section \<open>Looking up and finishing\<close>

lemma lookup_spares: "keeps (spares n) (lookup_apply_idempotency flt name_of ex key fp)"
proof -
  have look: "keeps R (lookup_receipt flt name k f)" if "kept_relation R" for R name k f
  proof -
    from that show ?thesis
      unfolding lookup_receipt_def
      by (auto split: option.split intro!: kept_relation.keeps_andthen kept_relation.keeps_read_optional
          kept_relation.keeps_if kept_relation.keeps_ret kept_relation.keeps_throw)
  qed
  let ?m = "\<lambda>name k f lock. case lock of
      LockBusy \<Rightarrow> ret (Some LookupPending)
    | LockAcquired \<Rightarrow> with_lock name (\<lambda>_. False) (lookup_receipt flt name k f)
    | LockMissing \<Rightarrow> lookup_receipt flt name k f"
  have step: "keeps (spares n) (andthen (try_acquire_existing_receipt_lock flt name) (?m name k f))" for name k f
  proof (cases "name = n")
    case False
    show ?thesis
      by (auto split: existing_lock.split intro!: spares.keeps_andthen spares.keeps_acquire_existing keeps_updates_spares
          keeps_with_lock look spares.kept_relation_axioms spares.keeps_ret spares_release False)
  next
    case True
    show ?thesis
      unfolding keeps_def
    proof
      fix rs
      show "spares n rs (snd (andthen (try_acquire_existing_receipt_lock flt name) (?m name k f) rs))"
        using existing_held [of rs n flt] True
        by (cases "held rs n") (auto simp: spares_trivial andthen_def ret_def spares.kept_refl)
    qed
  qed
  then show ?thesis
    unfolding lookup_apply_idempotency_def Let_def
    by (intro spares.keeps_andthen spares.keeps_keys spares.keeps_if spares.keeps_ret step)
qed

lemma lookup_same: "keeps same_files (lookup_apply_idempotency flt name_of ex key fp)"
proof -
  have "keeps same_files (lookup_receipt flt name k f)" for name k f
    unfolding lookup_receipt_def by (auto split: option.split intro!: same_files.keeps_intros)
  then show ?thesis
    unfolding lookup_apply_idempotency_def Let_def
    by (auto split: existing_lock.split intro!: same_files.keeps_intros same_files.keeps_acquire_existing
        keeps_lock_updates_same keeps_with_lock)
qed

context kept_relation
begin

lemma keeps_finish:
  assumes "\<And>f. keeps R (update_files (AList.update (ac_receipt_name c) f))" "keeps R (update_files (AList.delete (ac_receipt_name c)))"
    "keeps R (update_locks (AList.delete (ac_receipt_name c)))"
  shows "keeps R (complete_apply_idempotency_claim flt now c success)" "keeps R (abort_apply_idempotency_claim flt c)"
  unfolding complete_apply_idempotency_claim_def abort_apply_idempotency_claim_def
  by (intro keeps_intros keeps_replace keeps_remove_lock assms)+

end

section \<open>The machine\<close>

record receipt_system =
  sy_dir :: receipts
  sy_live :: "apply_claim list"
  sy_now :: int

inductive receipt_step :: "(string \<Rightarrow> string) \<Rightarrow> receipt_system \<Rightarrow> receipt_system \<Rightarrow> bool" for name_of where
  tick: "sy_now s \<le> t \<Longrightarrow> receipt_step name_of s (s\<lparr>sy_now := t\<rparr>)"
| claim_won: "claim_apply_idempotency_at flt name_of cid key fp (sy_now s) raced (sy_dir s) = (Inr (Acquired c), dir) \<Longrightarrow>
    receipt_step name_of s (s\<lparr>sy_dir := dir, sy_live := c # sy_live s\<rparr>)"
| claim_lost: "claim_apply_idempotency_at flt name_of cid key fp (sy_now s) raced (sy_dir s) = (res, dir) \<Longrightarrow>
    \<nexists>c. res = Inr (Acquired c) \<Longrightarrow> receipt_step name_of s (s\<lparr>sy_dir := dir\<rparr>)"
| look_up: "lookup_apply_idempotency flt name_of ex key fp (sy_dir s) = (found, dir) \<Longrightarrow>
    receipt_step name_of s (s\<lparr>sy_dir := dir\<rparr>)"
| complete: "c \<in> set (sy_live s) \<Longrightarrow> complete_apply_idempotency_claim flt (sy_now s) c success (sy_dir s) = (fin, dir) \<Longrightarrow>
    receipt_step name_of s (s\<lparr>sy_dir := release (ac_receipt_name c) dir, sy_live := remove1 c (sy_live s)\<rparr>)"
| abort: "c \<in> set (sy_live s) \<Longrightarrow> abort_apply_idempotency_claim flt c (sy_dir s) = (fin, dir) \<Longrightarrow>
    receipt_step name_of s (s\<lparr>sy_dir := release (ac_receipt_name c) dir, sy_live := remove1 c (sy_live s)\<rparr>)"
| crash: "c \<in> set (sy_live s) \<Longrightarrow>
    receipt_step name_of s (s\<lparr>sy_dir := release (ac_receipt_name c) (sy_dir s), sy_live := remove1 c (sy_live s)\<rparr>)"

definition receipt_inv :: "(string \<Rightarrow> string) \<Rightarrow> receipt_system \<Rightarrow> bool" where
  "receipt_inv name_of s \<longleftrightarrow> distinct (map ac_receipt_name (sy_live s)) \<and> (\<forall>c \<in> set (sy_live s). claim_backed (sy_dir s) c \<and> claim_wf name_of c)
     \<and> keys_distinct (rs_files (sy_dir s))"

lemma backed_untouched: "claim_backed rs c \<Longrightarrow> untouched (ac_receipt_name c) rs rs' \<Longrightarrow> claim_backed rs' c"
  by (simp add: claim_backed_def untouched_def held_def)

lemma backed_held: "claim_backed rs c \<Longrightarrow> held rs (ac_receipt_name c)"
  by (simp add: claim_backed_def)

lemma backed_spares: "claim_backed rs c \<Longrightarrow> spares (ac_receipt_name c) rs rs' \<Longrightarrow> claim_backed rs' c"
  unfolding spares_def by (blast intro: backed_untouched backed_held)

lemma keepsD: "keeps R m \<Longrightarrow> m rs = (x, rs') \<Longrightarrow> R rs rs'"
  unfolding keeps_def by (metis snd_conv)

lemma finish_inv:
  assumes "receipt_inv name_of s" "c \<in> set (sy_live s)" "\<And>n. n \<noteq> ac_receipt_name c \<Longrightarrow> untouched n (sy_dir s) dir"
    "distinct_files (sy_dir s) dir"
  shows "receipt_inv name_of (s\<lparr>sy_dir := release (ac_receipt_name c) dir, sy_live := remove1 c (sy_live s)\<rparr>)"
proof -
  have d: "distinct (map ac_receipt_name (sy_live s))" and b: "\<forall>c \<in> set (sy_live s). claim_backed (sy_dir s) c \<and> claim_wf name_of c"
    and k: "keys_distinct (rs_files (sy_dir s))" using assms(1) by (simp_all add: receipt_inv_def)
  have "claim_backed (release (ac_receipt_name c) dir) c' \<and> claim_wf name_of c'" if "c' \<in> set (remove1 c (sy_live s))" for c'
  proof -
    from d have dl: "distinct (sy_live s)" by (simp add: distinct_map)
    with that have c': "c' \<in> set (sy_live s)" "c' \<noteq> c" by (simp_all add: set_remove1_eq)
    with d assms(2) have n: "ac_receipt_name c' \<noteq> ac_receipt_name c" by (auto simp: distinct_map inj_on_def)
    have "untouched (ac_receipt_name c') (sy_dir s) (release (ac_receipt_name c) dir)"
      by (rule untouched.kept_trans [OF assms(3) [OF n] untouched_release [OF n [symmetric]]])
    with b c'(1) show ?thesis using backed_untouched by blast
  qed
  moreover have "distinct (map ac_receipt_name (remove1 c (sy_live s)))"
    using d set_remove1_subset [of c "sy_live s"] by (auto simp: distinct_map intro: inj_on_subset)
  moreover have "keys_distinct (rs_files (release (ac_receipt_name c) dir))"
    using assms(4) k by (simp add: distinct_files_def release_def)
  ultimately show ?thesis by (simp add: receipt_inv_def)
qed

lemma step_receipt_inv:
  assumes "receipt_inv name_of s" "receipt_step name_of s t"
  shows "receipt_inv name_of t"
  using assms(2,1)
proof cases
  case (claim_won flt cid key fp raced c dir)
  note sp = keepsD [OF claim_spares claim_won(2)]
  note acq = claim_acquired [OF claim_won(2)]
  have "ac_receipt_name c \<notin> ac_receipt_name ` set (sy_live s)"
    using acq(2) assms(1) by (auto simp: receipt_inv_def claim_backed_def)
  moreover have "distinct_files (sy_dir s) dir" by (rule keepsD [OF claim_distinct claim_won(2)])
  ultimately show ?thesis
    using assms(1) acq(1,3) sp backed_spares unfolding claim_won(1) by (auto simp: receipt_inv_def distinct_files_def)
next
  case (claim_lost flt cid key fp raced res dir)
  note sp = keepsD [OF claim_spares claim_lost(2)]
  have "distinct_files (sy_dir s) dir" by (rule keepsD [OF claim_distinct claim_lost(2)])
  then show ?thesis
    using assms(1) sp backed_spares unfolding claim_lost(1) by (auto simp: receipt_inv_def distinct_files_def)
next
  case (look_up flt ex key fp found dir)
  note sp = keepsD [OF lookup_spares look_up(2)]
  have "same_files (sy_dir s) dir" by (rule keepsD [OF lookup_same look_up(2)])
  then show ?thesis
    using assms(1) sp backed_spares unfolding look_up(1) by (auto simp: receipt_inv_def same_files_def)
next
  case (complete c flt success fin dir)
  have "untouched n (sy_dir s) dir" if "n \<noteq> ac_receipt_name c" for n
    by (rule keepsD [OF untouched.keeps_finish(1) complete(3)]; rule keeps_updates; use that in blast)
  moreover have "distinct_files (sy_dir s) dir"
    by (rule keepsD [OF distinct_files.keeps_finish(1) complete(3)]; rule keeps_updates_distinct)
  ultimately show ?thesis unfolding complete(1) by (intro finish_inv assms complete)
next
  case (abort c flt fin dir)
  have "untouched n (sy_dir s) dir" if "n \<noteq> ac_receipt_name c" for n
    by (rule keepsD [OF untouched.keeps_finish(2) abort(3)]; rule keeps_updates; use that in blast)
  moreover have "distinct_files (sy_dir s) dir"
    by (rule keepsD [OF distinct_files.keeps_finish(2) abort(3)]; rule keeps_updates_distinct)
  ultimately show ?thesis unfolding abort(1) by (intro finish_inv assms abort)
next
  case (crash c)
  show ?thesis unfolding crash(1)
    by (intro finish_inv assms crash) (simp_all add: untouched.kept_refl distinct_files.kept_refl)
qed (simp add: receipt_inv_def)

interpretation receipt_machine: invariant_system "receipt_step name_of" "receipt_inv name_of" for name_of
  by unfold_locales (rule step_receipt_inv)

section \<open>What the machine promises\<close>

lemma live_backed:
  assumes "sy_live s0 = []" "keys_distinct (rs_files (sy_dir s0))" "reaches (receipt_step name_of) s0 s"
  shows "receipt_inv name_of s"
  using receipt_machine.reaches_inv [OF assms(3)] assms(1,2) by (simp add: receipt_inv_def)

lemma filter_key_single:
  "distinct (map f xs) \<Longrightarrow> x \<in> set xs \<Longrightarrow> filter (\<lambda>y. f y = f x) xs = [x]"
proof (induction xs)
  case (Cons y ys)
  show ?case
  proof (cases "x = y")
    case True
    with Cons.prems(1) have "f x \<notin> f ` set ys" by simp
    then have "\<forall>z \<in> set ys. f z \<noteq> f x" by (metis imageI)
    with True show ?thesis by (simp add: filter_empty_conv)
  next
    case False
    with Cons.prems have "x \<in> set ys" "f y \<noteq> f x" by auto
    with Cons show ?thesis by simp
  qed
qed simp


section \<open>A completed apply is answered from its receipt\<close>

abbreviation no_faults :: faults where
  "no_faults \<equiv> \<lambda>_. False"

definition succeeded_receipt :: "apply_claim \<Rightarrow> stored_receipt \<Rightarrow> apply_success \<Rightarrow> stored_receipt" where
  "succeeded_receipt c r success =
     \<lparr>sr_idempotency_key = ac_idempotency_key c, sr_status = Some StatusSucceeded,
      sr_claim_id = Some (ac_claim_id c), sr_request_fingerprint = ac_request_fingerprint c,
      sr_claim_created_at = sr_claim_created_at r, sr_claim_expires_at = sr_claim_expires_at r,
      sr_rev = Some (as_rev success), sr_base_rev = as_base_rev success,
      sr_file_count = as_file_count success, sr_bytes_written = as_bytes_written success\<rparr>"

lemma io_no_faults [simp]: "io no_faults p msg = ret ()"
  by (simp add: io_def)

lemma write_temporary_no_faults [simp]: "write_temporary_receipt no_faults = ret ()"
  by (simp add: write_temporary_receipt_def)

lemma read_parsed:
  assumes "map_of (rs_files rs) n = Some f" "rf_content f = Parsed r"
  shows "read_stored_receipt_unchecked no_faults n rs = (Inr r, rs)"
    and "sr_idempotency_key r = key \<Longrightarrow> read_stored_receipt no_faults n key rs = (Inr r, rs)"
  using assms by (simp_all add: read_stored_receipt_unchecked_def read_stored_receipt_def andthen_def get_dir_def ret_def)

lemma complete_backed:
  assumes "claim_backed rs c" "trim_str (as_rev success) \<noteq> []"
  shows "\<exists>r dir. complete_apply_idempotency_claim no_faults now c success rs = (Inr (), dir)
    \<and> map_of (rs_files dir) (ac_receipt_name c) = Some \<lparr>rf_content = Parsed (succeeded_receipt c r success), rf_modified = now\<rparr>
    \<and> \<not> contains_key (rs_locks dir) (ac_receipt_name c)"
proof -
  from assms(1) obtain f r where f: "map_of (rs_files rs) (ac_receipt_name c) = Some f" "rf_content f = Parsed r"
    and o: "owns_receipt c r" and k: "sr_idempotency_key r = ac_idempotency_key c" and h: "held rs (ac_receipt_name c)"
    by (auto simp: claim_backed_def)
  show ?thesis
    using assms(2) h o
    by (auto simp: complete_apply_idempotency_claim_def read_parsed [OF f] k andthen_def [of "read_stored_receipt _ _ _"]
        replace_receipt_def remove_receipt_lock_def held_def contains_key_def succeeded_receipt_def ret_def
        andthen_def update_files_def update_locks_def get_dir_def AList.update_conv' AList.delete_conv' intro!: exI [of _ r])
qed

lemma release_absent [simp]: "\<not> contains_key (rs_locks rs) n \<Longrightarrow> release n rs = rs"
  by (simp add: release_def)

lemma acquire_absent:
  assumes "\<not> contains_key (rs_locks rs) n"
  shows "\<exists>rs'. try_acquire_receipt_lock no_faults n rs = (Inr True, rs') \<and> rs_files rs' = rs_files rs"
  using assms
  by (simp add: try_acquire_receipt_lock_def check_lock_file_def try_flock_def andthen_def get_dir_def update_locks_def
      ret_def AList.update_conv')

lemma read_optional_parsed:
  assumes "map_of (rs_files rs) n = Some f" "rf_content f = Parsed r" "sr_idempotency_key r = key"
  shows "read_optional_stored_receipt no_faults n key rs = (Inr (Some r), rs)"
  using assms read_parsed(2) [OF assms(1,2)]
  by (simp add: read_optional_stored_receipt_def contains_key_def andthen_def get_dir_def ret_def)

lemma remove_lock_no_faults: "\<exists>rs'. remove_receipt_lock no_faults n rs = (Inr (), rs') \<and> rs_files rs' = rs_files rs"
  by (simp add: remove_receipt_lock_def andthen_def get_dir_def update_locks_def ret_def)

lemma keys_normalized:
  assumes "claim_wf name_of c"
  shows "required_key (ac_idempotency_key c) = ret (ac_idempotency_key c)"
    "fingerprint_of (ac_request_fingerprint c) = ret (ac_request_fingerprint c)"
  using assms by (simp_all add: claim_wf_def required_key_def fingerprint_of_def)

lemma success_of_succeeded: "trim_str (as_rev success) \<noteq> [] \<Longrightarrow> success_of (succeeded_receipt c r success) = Some success"
  by (simp add: success_of_def succeeded_receipt_def)

lemma replay:
  assumes "claim_wf name_of c" "trim_str (as_rev success) \<noteq> []"
    "map_of (rs_files rs) (ac_receipt_name c) = Some \<lparr>rf_content = Parsed (succeeded_receipt c r success), rf_modified = t\<rparr>"
    "\<not> contains_key (rs_locks rs) (ac_receipt_name c)"
  shows "fst (claim_apply_idempotency_at no_faults name_of cid (ac_idempotency_key c) (ac_request_fingerprint c) now raced rs)
      = Inr (ClaimSucceeded success)"
    "fst (lookup_apply_idempotency no_faults name_of True (ac_idempotency_key c) (ac_request_fingerprint c) rs)
      = Inr (Some (LookupSucceeded success))"
proof -
  let ?n = "ac_receipt_name c" and ?r = "succeeded_receipt c r success"
  have n: "name_of (ac_idempotency_key c) = ?n" using assms(1) by (simp add: claim_wf_def)
  have k: "sr_idempotency_key ?r = ac_idempotency_key c" and fp: "sr_request_fingerprint ?r = ac_request_fingerprint c"
    and st: "sr_status ?r = Some StatusSucceeded"
    by (simp_all add: succeeded_receipt_def)
  have dir: "open_receipt_dir no_faults = ret ()" by (simp add: open_receipt_dir_def)
  obtain rs1 where a: "try_acquire_receipt_lock no_faults ?n rs = (Inr True, rs1)" "rs_files rs1 = rs_files rs"
    using acquire_absent [OF assms(4)] by blast
  have rd: "read_optional_stored_receipt no_faults ?n (ac_idempotency_key c) rs' = (Inr (Some ?r), rs')"
    if "rs_files rs' = rs_files rs" for rs'
    using read_optional_parsed [of rs' ?n _ ?r] assms(3) that k by simp
  obtain rs2 where u: "remove_receipt_lock no_faults ?n rs1 = (Inr (), rs2)" using remove_lock_no_faults by blast
  show "fst (claim_apply_idempotency_at no_faults name_of cid (ac_idempotency_key c) (ac_request_fingerprint c) now raced rs)
      = Inr (ClaimSucceeded success)"
    unfolding claim_unfold keys_normalized [OF assms(1)] dir andthen_ret n claim_named_def
    by (simp add: andthen_def a rd u with_lock_def claim_locked_def classify_existing_receipt_def fp st
        success_of_succeeded [OF assms(2)] ret_def)
  show "fst (lookup_apply_idempotency no_faults name_of True (ac_idempotency_key c) (ac_request_fingerprint c) rs)
      = Inr (Some (LookupSucceeded success))"
    unfolding lookup_apply_idempotency_def keys_normalized [OF assms(1)] dir andthen_ret n Let_def
    using assms(4)
    by (simp add: try_acquire_existing_receipt_lock_def andthen_def get_dir_def rd lookup_receipt_def fp st
        success_of_succeeded [OF assms(2)] ret_def)
qed

section \<open>A settled receipt stays for its retention\<close>

lemma finish_same_file:
  assumes "n \<noteq> ac_receipt_name c"
  shows "complete_apply_idempotency_claim flt now c success rs = (fin, dir) \<Longrightarrow> same_file n rs (release (ac_receipt_name c) dir)"
    "abort_apply_idempotency_claim flt c rs = (fin', dir) \<Longrightarrow> same_file n rs (release (ac_receipt_name c) dir)"
proof -
  have up: "keeps (untouched n) (update_files (AList.update (ac_receipt_name c) f))"
    "keeps (untouched n) (update_files (AList.delete (ac_receipt_name c)))"
    "keeps (untouched n) (update_locks (AList.delete (ac_receipt_name c)))" for f
    by (rule keeps_updates, use assms in blast)+
  show "complete_apply_idempotency_claim flt now c success rs = (fin, dir) \<Longrightarrow> same_file n rs (release (ac_receipt_name c) dir)"
    using keepsD [OF untouched.keeps_finish(1) [OF up]] by (fastforce simp: untouched_def same_file_def release_def)
  show "abort_apply_idempotency_claim flt c rs = (fin', dir) \<Longrightarrow> same_file n rs (release (ac_receipt_name c) dir)"
    using keepsD [OF untouched.keeps_finish(2) [OF up]] by (fastforce simp: untouched_def same_file_def release_def)
qed

lemma settled_not_live: "receipt_inv name_of s \<Longrightarrow> settled (sy_dir s) n r \<Longrightarrow> c \<in> set (sy_live s) \<Longrightarrow> n \<noteq> ac_receipt_name c"
  by (auto simp: receipt_inv_def claim_backed_def settled_def owns_receipt_def)

lemma step_settled:
  assumes "receipt_step name_of s t" "receipt_inv name_of s" "map_of (rs_files (sy_dir s)) n = Some f"
    "rf_content f = Parsed r" "sr_status r \<noteq> Some StatusPending" "sy_now s < rf_modified f + apply_receipt_retention"
  shows "map_of (rs_files (sy_dir t)) n = Some f"
  using assms(1)
proof cases
  case (claim_won flt cid key fp raced c dir)
  have "settled (sy_dir s) n r" using assms(3-5) by (simp add: settled_def)
  from claim_young [OF this, of "sy_now s" flt name_of cid key fp raced] claim_won show ?thesis
    using assms(2,3,6) by (simp add: young_kept_def receipt_inv_def)
next
  case (claim_lost flt cid key fp raced res dir)
  have "settled (sy_dir s) n r" using assms(3-5) by (simp add: settled_def)
  from claim_young [OF this, of "sy_now s" flt name_of cid key fp raced] claim_lost show ?thesis
    using assms(2,3,6) by (simp add: young_kept_def receipt_inv_def)
next
  case (look_up flt ex key fp found dir)
  with keepsD [OF lookup_same look_up(2)] assms(3) show ?thesis by (simp add: same_files_def)
next
  case (complete c flt success fin dir)
  have "n \<noteq> ac_receipt_name c"
    by (rule settled_not_live [OF assms(2) _ complete(2)]) (use assms(3-5) in \<open>simp add: settled_def\<close>)
  from finish_same_file(1) [OF this complete(3)] complete(1) assms(3) show ?thesis by (simp add: same_file_def)
next
  case (abort c flt fin dir)
  have "n \<noteq> ac_receipt_name c"
    by (rule settled_not_live [OF assms(2) _ abort(2)]) (use assms(3-5) in \<open>simp add: settled_def\<close>)
  from finish_same_file(2) [OF this abort(3)] abort(1) assms(3) show ?thesis by (simp add: same_file_def)
next
  case (crash c)
  with assms(3) show ?thesis by (simp add: release_def)
qed (use assms(3) in simp)

lemma step_now: "receipt_step name_of s t \<Longrightarrow> sy_now s \<le> sy_now t"
  by (cases rule: receipt_step.cases) auto

lemma claim_settled_outcome:
  assumes "settled rs n r" "claim_apply_idempotency_at flt name_of cid key fp now raced rs = (Inr x, rs')"
    "normalize_apply_idempotency_key (Some key) = Inr (Some k)" "name_of k = n"
  shows "x = ClaimPending \<or> (\<exists>success. x = ClaimSucceeded success \<and> success_of r = Some success)"
proof -
  from assms(2,3) obtain fp' where "claim_named flt cid (name_of k) k fp' now raced rs = (Inr x, rs')"
    unfolding claim_unfold required_key_def fingerprint_of_def open_receipt_dir_def
    by (auto simp: andthen_Inr_iff ret_def throw_def split: sum.splits if_splits option.splits)
  with claim_named_settled(2) [of rs n r] assms(1,4) show ?thesis by blast
qed

section \<open>A run\<close>

definition example_name :: "string \<Rightarrow> string" where
  "example_name key = key @ ''.json''"

definition example_start :: receipt_system where
  "example_start = \<lparr>sy_dir = \<lparr>rs_files = [], rs_locks = []\<rparr>, sy_live = [], sy_now = 100\<rparr>"

definition example_claim :: apply_claim where
  "example_claim = \<lparr>ac_idempotency_key = ''k'', ac_claim_id = ''c1'', ac_request_fingerprint = Some ''fp'', ac_receipt_name = ''k.json''\<rparr>"

definition example_claimed :: receipt_system where
  "example_claimed =
     \<lparr>sy_dir = snd (claim_apply_idempotency_at no_faults example_name ''c1'' ''k'' (Some ''fp'') 100 None (sy_dir example_start)),
      sy_live = [example_claim], sy_now = 100\<rparr>"

definition example_success :: apply_success where
  "example_success = \<lparr>as_rev = ''r1'', as_base_rev = None, as_file_count = Some 1, as_bytes_written = Some 3\<rparr>"

definition example_done :: receipt_system where
  "example_done =
     \<lparr>sy_dir = release ''k.json'' (snd (complete_apply_idempotency_claim no_faults 100 example_claim example_success (sy_dir example_claimed))),
      sy_live = [], sy_now = 100\<rparr>"

definition example_later :: receipt_system where
  "example_later = example_done\<lparr>sy_now := 3700\<rparr>"

lemma example_start_facts: "sy_live example_start = []" "keys_distinct (rs_files (sy_dir example_start))"
  by (simp_all add: example_start_def)

lemma example_claim_wins:
  "claim_apply_idempotency_at no_faults example_name ''c1'' ''k'' (Some ''fp'') (sy_now example_start) None (sy_dir example_start)
     = (Inr (Acquired example_claim), sy_dir example_claimed)"
  by code_simp

lemma example_reached: "reaches (receipt_step example_name) example_start example_claimed"
proof -
  have "example_claimed = example_start\<lparr>sy_dir := sy_dir example_claimed, sy_live := example_claim # sy_live example_start\<rparr>"
    by (simp add: example_claimed_def example_start_def)
  with receipt_step.claim_won [OF example_claim_wins] have "receipt_step example_name example_start example_claimed" by simp
  then show ?thesis by (blast intro: reaches.intros)
qed

lemma example_done_reached: "reaches (receipt_step example_name) example_start example_done"
proof -
  obtain fin dir where d: "complete_apply_idempotency_claim no_faults (sy_now example_claimed) example_claim example_success
      (sy_dir example_claimed) = (fin, dir)"
    by (metis prod.collapse)
  have l: "example_claim \<in> set (sy_live example_claimed)" by (simp add: example_claimed_def)
  have "example_done = example_claimed\<lparr>sy_dir := release (ac_receipt_name example_claim) dir,
      sy_live := remove1 example_claim (sy_live example_claimed)\<rparr>"
    using d by (simp add: example_done_def example_claimed_def example_claim_def)
  with receipt_step.complete [OF l d] have "receipt_step example_name example_claimed example_done" by simp
  with example_reached show ?thesis by (blast intro: reaches.intros)
qed

lemma example_later_reached: "reaches (receipt_step example_name) example_done example_later"
proof -
  have "receipt_step example_name example_done example_later"
    unfolding example_later_def by (rule receipt_step.tick) (simp add: example_done_def)
  then show ?thesis by (blast intro: reaches.intros)
qed

definition example_receipt :: stored_receipt where
  "example_receipt = \<lparr>sr_idempotency_key = ''k'', sr_status = Some StatusSucceeded, sr_claim_id = Some ''c1'',
     sr_request_fingerprint = Some ''fp'', sr_claim_created_at = Some 100, sr_claim_expires_at = Some 3700,
     sr_rev = Some ''r1'', sr_base_rev = None, sr_file_count = Some 1, sr_bytes_written = Some 3\<rparr>"

section \<open>Properties\<close>



text \<open>C38. The owner of a claim can finish it: when no file system call fails, completing a live
  claim with a revision succeeds, and the next request with the same key and fingerprint, at any later
  time, gets that success as the answer, from a claim (which does not win the key again) and from a
  lookup.\<close>

theorem completed_apply_is_replayed:
  assumes "sy_live s0 = []" "keys_distinct (rs_files (sy_dir s0))" "reaches (receipt_step name_of) s0 s"
    and "c \<in> set (sy_live s)" and "trim_str (as_rev success) \<noteq> []"
  shows "\<exists>dir. complete_apply_idempotency_claim no_faults (sy_now s) c success (sy_dir s) = (Inr (), dir)
    \<and> fst (claim_apply_idempotency_at no_faults name_of cid (ac_idempotency_key c) (ac_request_fingerprint c) later raced
             (release (ac_receipt_name c) dir)) = Inr (ClaimSucceeded success)
    \<and> fst (lookup_apply_idempotency no_faults name_of True (ac_idempotency_key c) (ac_request_fingerprint c)
             (release (ac_receipt_name c) dir)) = Inr (Some (LookupSucceeded success))"
proof -
  from live_backed [OF assms(1-3)] assms(4) have b: "claim_backed (sy_dir s) c" and w: "claim_wf name_of c"
    by (simp_all add: receipt_inv_def)
  from complete_backed [OF b assms(5)] obtain r dir
    where "complete_apply_idempotency_claim no_faults (sy_now s) c success (sy_dir s) = (Inr (), dir)"
      "map_of (rs_files dir) (ac_receipt_name c) = Some \<lparr>rf_content = Parsed (succeeded_receipt c r success), rf_modified = sy_now s\<rparr>"
      "\<not> contains_key (rs_locks dir) (ac_receipt_name c)" by blast
  with replay [OF w assms(5)] show ?thesis by auto
qed

theorem completed_apply_is_replayed_witness:
  "\<exists>dir. complete_apply_idempotency_claim no_faults (sy_now example_claimed) example_claim example_success (sy_dir example_claimed) = (Inr (), dir)
    \<and> fst (claim_apply_idempotency_at no_faults example_name ''c2'' (ac_idempotency_key example_claim) (ac_request_fingerprint example_claim) 200 None
             (release (ac_receipt_name example_claim) dir)) = Inr (ClaimSucceeded example_success)
    \<and> fst (lookup_apply_idempotency no_faults example_name True (ac_idempotency_key example_claim) (ac_request_fingerprint example_claim)
             (release (ac_receipt_name example_claim) dir)) = Inr (Some (LookupSucceeded example_success))"
proof (rule completed_apply_is_replayed [OF example_start_facts example_reached])
  show "example_claim \<in> set (sy_live example_claimed)" by (simp add: example_claimed_def)
  show "trim_str (as_rev example_success) \<noteq> []" by code_simp
qed

text \<open>C39. A succeeded receipt stays what it is for the retention, through every run of claims,
  lookups, completions, aborts and crashes, evictions by other claims included; and as long as
  it stays, no claim on its key wins: every claim that returns says pending or answers with the
  recorded success.\<close>

theorem settled_apply_is_not_repeated:
  assumes "sy_live s0 = []" "keys_distinct (rs_files (sy_dir s0))" "reaches (receipt_step name_of) s0 s"
    and "reaches (receipt_step name_of) s s'" and "map_of (rs_files (sy_dir s)) n = Some f" "rf_content f = Parsed r" "sr_status r = Some StatusSucceeded"
    and "sy_now s' < rf_modified f + apply_receipt_retention"
  shows "map_of (rs_files (sy_dir s')) n = Some f
    \<and> (\<forall>flt cid key fp now raced outcome dir k.
         claim_apply_idempotency_at flt name_of cid key fp now raced (sy_dir s') = (Inr outcome, dir)
         \<and> normalize_apply_idempotency_key (Some key) = Inr (Some k) \<and> name_of k = n \<longrightarrow>
         outcome = ClaimPending \<or> (\<exists>success. outcome = ClaimSucceeded success \<and> success_of r = Some success))"
proof -
  let ?Q = "\<lambda>a. sy_now a < rf_modified f + apply_receipt_retention \<longrightarrow> map_of (rs_files (sy_dir a)) n = Some f"
  have np: "sr_status r \<noteq> Some StatusPending" using assms(7) by simp
  have "?Q s'"
  proof (rule receipt_machine.reaches_stable [OF assms(4) live_backed [OF assms(1-3)]])
    show "?Q s" using assms(5) by simp
    fix a b
    assume inv: "receipt_inv name_of a" and q: "?Q a" and st: "receipt_step name_of a b"
    show "?Q b"
    proof
      assume b: "sy_now b < rf_modified f + apply_receipt_retention"
      with step_now [OF st] have a: "sy_now a < rf_modified f + apply_receipt_retention" by simp
      with q have "map_of (rs_files (sy_dir a)) n = Some f" by blast
      from step_settled [OF st inv this assms(6) np a] show "map_of (rs_files (sy_dir b)) n = Some f" .
    qed
  qed
  with assms(8) have kept: "map_of (rs_files (sy_dir s')) n = Some f" by blast
  with assms(6) np have "settled (sy_dir s') n r" by (simp add: settled_def)
  with kept show ?thesis using claim_settled_outcome by blast
qed

theorem settled_apply_is_not_repeated_witness:
  "map_of (rs_files (sy_dir example_later)) ''k.json'' = Some \<lparr>rf_content = Parsed example_receipt, rf_modified = 100\<rparr>"
proof -
  have "map_of (rs_files (sy_dir example_done)) ''k.json'' = Some \<lparr>rf_content = Parsed example_receipt, rf_modified = 100\<rparr>"
    by code_simp
  from settled_apply_is_not_repeated [OF example_start_facts example_done_reached example_later_reached this, of example_receipt]
  show ?thesis by (simp add: example_receipt_def example_later_def apply_receipt_retention_def)
qed

end
