(* ===== verification/Goal_Policy.thy ===== *)
theory Goal_Policy
  imports Rust_Strings
begin

text \<open>
  The policy of durable conversation goals (\<open>runtime-controller/src/conversation_goals/policy.rs\<close>):
  reading a stored goal, applying a goal update, judging whether automatic turns get anywhere, and
  deciding on one more. Instants are the texts the code stores; \<open>str::to_lowercase\<close> on free text is an
  argument \<open>lower\<close>.
\<close>

section \<open>Goals\<close>

definition max_continuations :: nat where
  "max_continuations = 100"

datatype goal_status = Active | Paused | Completed | Blocked | Canceled

fun goal_status_str :: "goal_status \<Rightarrow> string" where
  "goal_status_str Active = ''active''"
| "goal_status_str Paused = ''paused''"
| "goal_status_str Completed = ''completed''"
| "goal_status_str Blocked = ''blocked''"
| "goal_status_str Canceled = ''canceled''"

record goal =
  g_id :: string
  g_objective :: string
  g_status :: goal_status
  g_done_when :: "string option"
  g_stop_when :: "string option"
  g_progress_summary :: "string option"
  g_parent_goal_id :: "string option"
  g_created_at :: string
  g_updated_at :: string
  g_created_by :: "string option"
  g_updated_by :: "string option"

definition nonempty_text :: "json option \<Rightarrow> string option" where
  "nonempty_text v =
     (case v of
        Some (JStr s) \<Rightarrow> (if trim_str s = [] then None else Some (trim_str s))
      | _ \<Rightarrow> None)"

definition goal_field :: "jobject \<Rightarrow> string \<Rightarrow> string \<Rightarrow> json option" where
  "goal_field m camel snake =
     (case obj_get m camel of
        Some v \<Rightarrow> (if v = JNull then obj_get m snake else Some v)
      | None \<Rightarrow> obj_get m snake)"

definition read_status :: "json option \<Rightarrow> goal_status option" where
  "read_status v =
     (case nonempty_text v of
        None \<Rightarrow> None
      | Some s \<Rightarrow>
          (let s = lower_ascii_or_kelvin s in
           if s = ''active'' then Some Active
           else if s = ''paused'' then Some Paused
           else if s = ''completed'' then Some Completed
           else if s = ''blocked'' then Some Blocked
           else if s = ''canceled'' then Some Canceled
           else None))"

definition normalize_goal :: "string \<Rightarrow> json \<Rightarrow> goal option" where
  "normalize_goal now v =
     (case as_object v of
        None \<Rightarrow> None
      | Some m \<Rightarrow>
          (let created_at = (case nonempty_text (goal_field m ''createdAt'' ''created_at'') of Some t \<Rightarrow> t | None \<Rightarrow> now) in
           case (nonempty_text (obj_get m ''id''), nonempty_text (obj_get m ''objective'')) of
             (Some i, Some objective) \<Rightarrow>
               Some \<lparr>g_id = i, g_objective = objective,
                     g_status = (case read_status (obj_get m ''status'') of Some s \<Rightarrow> s | None \<Rightarrow> Active),
                     g_done_when = nonempty_text (goal_field m ''doneWhen'' ''done_when''),
                     g_stop_when = nonempty_text (goal_field m ''stopWhen'' ''stop_when''),
                     g_progress_summary = nonempty_text (goal_field m ''progressSummary'' ''progress_summary''),
                     g_parent_goal_id = nonempty_text (goal_field m ''parentGoalId'' ''parent_goal_id''),
                     g_created_at = created_at,
                     g_updated_at = (case nonempty_text (goal_field m ''updatedAt'' ''updated_at'') of
                        Some t \<Rightarrow> t | None \<Rightarrow> created_at),
                     g_created_by = nonempty_text (goal_field m ''createdBy'' ''created_by''),
                     g_updated_by = nonempty_text (goal_field m ''updatedBy'' ''updated_by'')\<rparr>
           | _ \<Rightarrow> None))"

text \<open>The stored form (\<open>serde_json::to_value\<close>): camel case names, null for what is absent.\<close>

definition json_opt :: "string option \<Rightarrow> json" where
  "json_opt v = (case v of Some s \<Rightarrow> JStr s | None \<Rightarrow> JNull)"

definition goal_json :: "goal \<Rightarrow> json" where
  "goal_json g = JObj (obj_of_list
     [(''id'', JStr (g_id g)), (''objective'', JStr (g_objective g)),
      (''status'', JStr (goal_status_str (g_status g))),
      (''doneWhen'', json_opt (g_done_when g)), (''stopWhen'', json_opt (g_stop_when g)),
      (''progressSummary'', json_opt (g_progress_summary g)), (''parentGoalId'', json_opt (g_parent_goal_id g)),
      (''createdAt'', JStr (g_created_at g)), (''updatedAt'', JStr (g_updated_at g)),
      (''createdBy'', json_opt (g_created_by g)), (''updatedBy'', json_opt (g_updated_by g))])"

section \<open>Updates\<close>

datatype goal_update = Ignored | SetGoal goal | ClearGoal

definition is_wrapper :: "jobject \<Rightarrow> bool" where
  "is_wrapper details \<longleftrightarrow>
     list_ex (\<lambda>key. case obj_get details key of Some (JStr _) \<Rightarrow> True | _ \<Rightarrow> False)
       [''runtimeId'', ''runtime_id'', ''displayName'', ''display_name'', ''messageType'', ''message_type'']
     \<or> (case nonempty_text (obj_get details ''kind'') of
          Some s \<Rightarrow> eq_ignore_ascii_case s ''runtime_selection'' | None \<Rightarrow> False)"

fun unwrap_details :: "nat \<Rightarrow> jobject \<Rightarrow> jobject" where
  "unwrap_details 0 details = details"
| "unwrap_details (Suc n) details =
     (case obj_get details ''details'' of
        Some (JObj nested) \<Rightarrow> (if is_wrapper details then unwrap_details n nested else details)
      | _ \<Rightarrow> details)"

definition action_details :: "json \<Rightarrow> jobject option" where
  "action_details metadata =
     (case as_object metadata of
        None \<Rightarrow> None
      | Some m \<Rightarrow> Some (unwrap_details 3 (case obj_get m ''details'' of Some (JObj d) \<Rightarrow> d | _ \<Rightarrow> m)))"

definition asks_clear :: "jobject \<Rightarrow> bool" where
  "asks_clear details \<longleftrightarrow>
     list_ex (\<lambda>key. case nonempty_text (obj_get details key) of
        Some s \<Rightarrow> eq_ignore_ascii_case s ''clear'' | None \<Rightarrow> False) [''operation'', ''op'']"

definition new_goal :: "string \<Rightarrow> string \<Rightarrow> string \<Rightarrow> string option \<Rightarrow> goal" where
  "new_goal i objective now actor =
     \<lparr>g_id = i, g_objective = objective, g_status = Active, g_done_when = None, g_stop_when = None,
      g_progress_summary = None, g_parent_goal_id = None, g_created_at = now, g_updated_at = now,
      g_created_by = actor, g_updated_by = actor\<rparr>"

definition or_keep :: "'a option \<Rightarrow> 'a \<Rightarrow> 'a" where
  "or_keep v x = (case v of Some y \<Rightarrow> y | None \<Rightarrow> x)"

definition keep_some :: "'a option \<Rightarrow> 'a option \<Rightarrow> 'a option" where
  "keep_some v x = (case v of Some y \<Rightarrow> Some y | None \<Rightarrow> x)"

definition revise_goal :: "jobject \<Rightarrow> string \<Rightarrow> string \<Rightarrow> string option \<Rightarrow> goal \<Rightarrow> goal" where
  "revise_goal details content now actor g =
     g\<lparr>g_objective := or_keep (nonempty_text (obj_get details ''objective'')) (g_objective g),
       g_status := or_keep (read_status (obj_get details ''status'')) (g_status g),
       g_done_when := keep_some (nonempty_text (goal_field details ''doneWhen'' ''done_when'')) (g_done_when g),
       g_stop_when := keep_some (nonempty_text (goal_field details ''stopWhen'' ''stop_when'')) (g_stop_when g),
       g_progress_summary := keep_some
         (nonempty_text
           (case goal_field details ''progressSummary'' ''progress_summary'' of
              Some v \<Rightarrow> (if v = JNull then Some (JStr content) else Some v)
            | None \<Rightarrow> Some (JStr content)))
         (g_progress_summary g),
       g_updated_at := now, g_updated_by := actor\<rparr>"

definition apply_goal_update ::
  "goal option \<Rightarrow> json \<Rightarrow> string \<Rightarrow> string \<Rightarrow> string \<Rightarrow> string option \<Rightarrow> goal_update" where
  "apply_goal_update current metadata content new_goal_id now actor =
     (let details = (case action_details metadata of Some d \<Rightarrow> d | None \<Rightarrow> []) in
      if asks_clear details then (if current \<noteq> None then ClearGoal else Ignored)
      else
        (let start =
           (case current of
              Some g \<Rightarrow> Some g
            | None \<Rightarrow>
                (case nonempty_text (obj_get details ''objective'') of
                   None \<Rightarrow> None
                 | Some objective \<Rightarrow>
                     (if trim_str new_goal_id = [] then None
                      else Some (new_goal (trim_str new_goal_id) objective now actor))))
         in case start of
              None \<Rightarrow> Ignored
            | Some g \<Rightarrow>
                (let next' = revise_goal details content now actor g in
                 if current = Some next' then Ignored else SetGoal next')))"

section \<open>Whether the turns get anywhere\<close>

record run_evidence =
  re_assistant_text :: "string option"
  re_has_activity :: bool
  re_turn :: "nat option"

datatype stagnation = NoStagnation | StagnationWarning string string | StagnationBlocked string string

text \<open>\<open>str::split_whitespace\<close>, with the characters of the word so far.\<close>

function split_ws :: "string \<Rightarrow> string \<Rightarrow> string list" where
  "split_ws w s =
     (case s of
        [] \<Rightarrow> (if w = [] then [] else [w])
      | c # s' \<Rightarrow>
          (if ws_head s = 0 then split_ws (w @ [c]) s'
           else (if w = [] then [] else [w]) @ split_ws [] (drop (ws_head s) s)))"
  by pat_completeness auto
termination
  by (relation "measure (\<lambda>(w, s). length s)") auto

declare split_ws.simps [simp del]

fun join_str :: "string \<Rightarrow> string list \<Rightarrow> string" where
  "join_str sep [] = []"
| "join_str sep [x] = x"
| "join_str sep (x # y # xs) = x @ sep @ join_str sep (y # xs)"

definition compact_text :: "string \<Rightarrow> string" where
  "compact_text s = join_str '' '' (split_ws [] s)"

text \<open>\<open>encode_utf16().count()\<close> of UTF-8 text: one unit for each character, two for one of four bytes.\<close>

definition utf16_len :: "string \<Rightarrow> nat" where
  "utf16_len s =
     length (filter (\<lambda>c. \<not> is_cont (ord_of c)) s) + length (filter (\<lambda>c. 0xF0 \<le> ord_of c) s)"

definition recent_texts :: "run_evidence list \<Rightarrow> string list" where
  "recent_texts recent =
     take 3 (filter (\<lambda>t. t \<noteq> []) (map trim_str (List.map_filter re_assistant_text (rev recent))))"

definition repeated_blocked :: string where
  "repeated_blocked = ''Stopped because several automatic goal turns repeated the same assistant output without completing or blocking the goal.''"

definition repeated_warning :: string where
  "repeated_warning = ''Recent automatic goal turns look repetitive. The next turn should complete, block, or change strategy.''"

definition low_activity_warning :: string where
  "low_activity_warning = ''The goal has used several automatic turns with little observable activity. The next turn should reassess the plan.''"

definition assess_stagnation :: "(string \<Rightarrow> string) \<Rightarrow> nat \<Rightarrow> run_evidence list \<Rightarrow> stagnation" where
  "assess_stagnation lower turn_count recent =
     (if turn_count < 3 then NoStagnation
      else
        (let texts = recent_texts recent;
             normalized = map (\<lambda>t. compact_text (lower t)) texts;
             repeated_two = 2 \<le> length normalized \<and> normalized ! 0 = normalized ! 1
         in if 5 \<le> turn_count \<and> length normalized = 3 \<and> repeated_two \<and> normalized ! 1 = normalized ! 2
            then StagnationBlocked ''repeated_assistant_output'' repeated_blocked
            else if repeated_two then StagnationWarning ''repeated_assistant_output'' repeated_warning
            else if 5 \<le> turn_count \<and> 3 \<le> length recent \<and> list_all (\<lambda>r. \<not> re_has_activity r) (take 3 (rev recent))
              \<and> length texts = 3 \<and> list_all (\<lambda>t. utf16_len t < 160) texts
            then StagnationWarning ''low_activity_continuations'' low_activity_warning
            else NoStagnation))"

section \<open>Deciding on the next turn\<close>

datatype continuation_decision = Continue nat "string option" | Stop string string

definition decide_continuation :: "(string \<Rightarrow> string) \<Rightarrow> goal \<Rightarrow> nat \<Rightarrow> run_evidence list \<Rightarrow> continuation_decision" where
  "decide_continuation lower g turn_count recent =
     (if g_status g \<noteq> Active then Stop ''inactive'' ''The goal is not active.''
      else if max_continuations \<le> turn_count
      then Stop ''continuation_limit'' ''Stopped after the automatic goal continuation turn limit.''
      else case assess_stagnation lower turn_count recent of
        StagnationBlocked reason summary \<Rightarrow> Stop reason summary
      | StagnationWarning _ summary \<Rightarrow> Continue (turn_count + 1) (Some summary)
      | NoStagnation \<Rightarrow> Continue (turn_count + 1) None)"

text \<open>\<open>chars().count()\<close> and \<open>chars().take(n)\<close> of UTF-8 text.\<close>

definition chars_len :: "string \<Rightarrow> nat" where
  "chars_len s = length (filter (\<lambda>c. \<not> is_cont (ord_of c)) s)"

fun chars_take :: "nat \<Rightarrow> string \<Rightarrow> string" where
  "chars_take n [] = []"
| "chars_take n (c # s) =
     (if is_cont (ord_of c) then c # chars_take n s
      else if n = 0 then [] else c # chars_take (n - 1) s)"

definition continuation_instructions :: string where
  "continuation_instructions = [CHR 0x0A] @ ''Review the checkpoint and evidence, then do meaningful remaining work without repeating completed work. Use available tools and project context to inspect, implement, or verify as needed. If recent work repeated or had little activity, change strategy before continuing.'' @ [CHR 0x0A] @
     ''If the goal is satisfied, emit a goal_update with status completed and the supporting evidence. If a required capability or resource is unavailable, unsafe, or unreachable, emit status blocked with the concrete blocker. Missing evidence alone is not a blocker: gather it when possible. Otherwise keep the goal active and record useful progress for the next turn, even when the goal needs work across multiple turns. Follow the goal'' @ [CHR 0x27] @ ''s stop conditions and existing permissions.''"

definition evidence_line :: "nat \<Rightarrow> run_evidence \<Rightarrow> string" where
  "evidence_line index run =
     (let label = (case re_turn run of Some t \<Rightarrow> ''turn '' @ show_nat t | None \<Rightarrow> ''recent run '' @ show_nat (index + 1));
          activity = (if re_has_activity run then ''tool/file activity observed'' else ''no tool/file activity observed'');
          result = (case map_option compact_text (re_assistant_text run) of
             Some t \<Rightarrow> (if t = [] then ''no visible assistant result'' else t)
           | None \<Rightarrow> ''no visible assistant result'');
          shown = (if 220 < chars_len result then chars_take 220 result @ [CHR 0xE2, CHR 0x80, CHR 0xA6] else result)
      in ''- '' @ label @ '': '' @ activity @ ''; assistant result: '' @ shown)"

definition is_signal :: "run_evidence \<Rightarrow> bool" where
  "is_signal run \<longleftrightarrow> re_turn run \<noteq> None \<or> re_has_activity run
     \<or> (case re_assistant_text run of Some t \<Rightarrow> trim_str t \<noteq> [] | None \<Rightarrow> False)"

definition build_continuation_prompt :: "goal \<Rightarrow> nat \<Rightarrow> run_evidence list \<Rightarrow> string option \<Rightarrow> string" where
  "build_continuation_prompt g next_turn recent warning =
     (let heads = [''Continue the active goal: '' @ g_objective g,
          ''This is automatic goal continuation turn '' @ show_nat next_turn @ '' of '' @ show_nat max_continuations @ ''.''];
          labelled = List.map_filter (\<lambda>(label, v). map_option (\<lambda>t. label @ '': '' @ t) v)
            [(''Done when'', g_done_when g), (''Stop when'', g_stop_when g), (''Latest checkpoint'', g_progress_summary g)];
          signals = filter is_signal recent;
          latest = drop (length signals - 3) signals;
          evidence = (if latest = [] then []
            else ([CHR 0x0A] @ ''Recent run evidence (historical observations):'')
              # map (\<lambda>(i, r). evidence_line i r) (zip [0..<length latest] latest));
          warn = (case warning of Some w \<Rightarrow> [[CHR 0x0A] @ ''Goal health warning: '' @ w] | None \<Rightarrow> [])
      in join_str [CHR 0x0A] (heads @ labelled @ evidence @ warn @ [continuation_instructions]))"

end
