(* ===== verification/Goal_State.thy ===== *)
theory Goal_State
  imports Goal_Policy "HOL-Library.Product_Lexorder"
begin

text \<open>
  The durable state of a conversation's goal and the operations on it
  (\<open>runtime-controller/src/conversation_goals\<close>: mod.rs, state.rs, request.rs). The state is the row of
  the conversation (its metadata object, which holds the goal and the controller's revision), its agent jobs in
  the order \<open>(created_at, id)\<close>, and its rows of \<open>conversation_goal_continuations\<close>. Every
  operation runs in a transaction that locks the conversation row, so it is one function; a query that fails
  rolls its transaction back and is not shown. SQL conditions are written out over the lists. Arguments: the
  clock, fresh UUIDs, \<open>u\<close> (how a UUID is printed and parsed), \<open>json_text\<close> (how Postgres
  prints a JSON value that is no string).
\<close>

section \<open>JSON access\<close>

record uuid_text =
  ut_parse :: "string \<Rightarrow> uuid option"
  ut_show :: "uuid \<Rightarrow> string"

text \<open>\<open>Value::pointer\<close> and the Postgres path operators, for keys that are no array index.\<close>

fun pointer :: "json \<Rightarrow> string list \<Rightarrow> json option" where
  "pointer v [] = Some v"
| "pointer v (k # ks) = (case value_get v k of Some w \<Rightarrow> pointer w ks | None \<Rightarrow> None)"

definition pointer_str :: "json \<Rightarrow> string list \<Rightarrow> string option" where
  "pointer_str v ks = Option.bind (pointer v ks) as_str"

definition path_text :: "(json \<Rightarrow> string) \<Rightarrow> json \<Rightarrow> string list \<Rightarrow> string option" where
  "path_text json_text v ks =
     (case pointer v ks of
        None \<Rightarrow> None
      | Some JNull \<Rightarrow> None
      | Some (JStr s) \<Rightarrow> Some s
      | Some w \<Rightarrow> Some (json_text w))"

definition uuid_at :: "uuid_text \<Rightarrow> json \<Rightarrow> string list \<Rightarrow> uuid option" where
  "uuid_at u v ks = Option.bind (pointer_str v ks) (ut_parse u)"

definition obj_remove :: "string \<Rightarrow> jobject \<Rightarrow> jobject" where
  "obj_remove k m = filter (\<lambda>(a, _). a \<noteq> k) m"

definition obj_has :: "jobject \<Rightarrow> string \<Rightarrow> bool" where
  "obj_has m k \<longleftrightarrow> obj_get m k \<noteq> None"

section \<open>The tables\<close>

record job =
  jb_id :: uuid
  jb_payload :: json
  jb_owner :: "uuid option"
  jb_role :: "string option"
  jb_status :: string
  jb_planning :: bool
  jb_run :: "uuid option"
  jb_project :: uuid
  jb_session :: "uuid option"
  jb_target :: "uuid option"

datatype wake_status = WPending | WClaimed | WDispatched | WCanceled | WBlocked

record wakeup =
  wk_source :: uuid
  wk_revision :: uuid
  wk_owner :: uuid
  wk_status :: wake_status
  wk_next_attempt :: int
  wk_locked_until :: "int option"
  wk_claim :: "uuid option"
  wk_attempts :: nat
  wk_request :: "json option"
  wk_run :: "uuid option"
  wk_error :: "string option"

record conversation =
  cv_metadata :: jobject
  cv_jobs :: "job list"
  cv_wakeups :: "wakeup list"

definition find_job :: "conversation \<Rightarrow> uuid \<Rightarrow> job option" where
  "find_job cv i = find (\<lambda>j. jb_id j = i) (cv_jobs cv)"

definition update_wakeups :: "(wakeup \<Rightarrow> bool) \<Rightarrow> (wakeup \<Rightarrow> wakeup) \<Rightarrow> conversation \<Rightarrow> conversation" where
  "update_wakeups P f cv = cv\<lparr>cv_wakeups := map (\<lambda>w. if P w then f w else w) (cv_wakeups cv)\<rparr>"

section \<open>Reading the goal and the revision\<close>

definition stored_goal :: "jobject \<Rightarrow> json option" where
  "stored_goal m = (case obj_get m ''instafyGoal'' of Some v \<Rightarrow> Some v | None \<Rightarrow> obj_get m ''instafy_goal'')"

definition goal_of :: "string \<Rightarrow> jobject \<Rightarrow> goal option" where
  "goal_of now m = Option.bind (stored_goal m) (normalize_goal now)"

definition revision :: "uuid_text \<Rightarrow> jobject \<Rightarrow> uuid option" where
  "revision u m = uuid_at u (JObj m) [''_goalController'', ''revision'']"

section \<open>Edits by clients\<close>

definition controller_stamp :: "uuid_text \<Rightarrow> uuid \<Rightarrow> uuid option \<Rightarrow> json" where
  "controller_stamp u rev' owner =
     JObj (obj_of_list ((''revision'', JStr (ut_show u rev'))
       # (case owner of Some w \<Rightarrow> [(''ownerUserId'', JStr (ut_show u w))] | None \<Rightarrow> [])))"

definition prepare_client_metadata :: "uuid_text \<Rightarrow> uuid \<Rightarrow> json \<Rightarrow> json" where
  "prepare_client_metadata u fresh v =
     (case as_object v of
        None \<Rightarrow> v
      | Some m \<Rightarrow>
          (let m = obj_remove ''_goalController'' m;
               alias = obj_get m ''instafy_goal'';
               m = obj_remove ''instafy_goal'' m;
               m = (if obj_has m ''instafyGoal'' then m
                    else case alias of Some g \<Rightarrow> obj_insert ''instafyGoal'' g m | None \<Rightarrow> m)
           in JObj (if obj_has m ''instafyGoal''
                    then obj_insert ''_goalController'' (controller_stamp u fresh None) m else m)))"

definition preserve_unchanged_goal_revision :: "uuid_text \<Rightarrow> json \<Rightarrow> jobject option \<Rightarrow> json" where
  "preserve_unchanged_goal_revision u patch existing =
     (case existing of
        None \<Rightarrow> patch
      | Some ex \<Rightarrow>
          (if revision u ex \<noteq> None
              \<and> (case value_get patch ''instafyGoal'' of
                   Some g \<Rightarrow> g \<noteq> JNull \<and> stored_goal ex = Some g
                 | None \<Rightarrow> False)
           then (case patch of JObj p \<Rightarrow> JObj (obj_remove ''_goalController'' p) | _ \<Rightarrow> patch)
           else patch))"

text \<open>The update of the metadata handler: \<open>(metadata - 'instafy_goal') || patch\<close>.\<close>

definition merge_patch :: "jobject \<Rightarrow> jobject \<Rightarrow> jobject" where
  "merge_patch m patch =
     foldl (\<lambda>m (k, v). obj_insert k v m) (if obj_has patch ''instafyGoal'' then obj_remove ''instafy_goal'' m else m) patch"

definition strip_client_internal_metadata :: "jobject \<Rightarrow> jobject" where
  "strip_client_internal_metadata m =
     obj_remove ''_goalController'' (obj_remove ''spaceReview'' (obj_remove ''internalPurpose'' m))"

definition client_edit :: "uuid_text \<Rightarrow> uuid \<Rightarrow> jobject \<Rightarrow> conversation \<Rightarrow> conversation" where
  "client_edit u fresh patch cv =
     (case preserve_unchanged_goal_revision u
         (prepare_client_metadata u fresh (JObj (strip_client_internal_metadata patch))) (Some (cv_metadata cv)) of
        JObj p \<Rightarrow> cv\<lparr>cv_metadata := merge_patch (cv_metadata cv) p\<rparr>
      | _ \<Rightarrow> cv)"

section \<open>Jobs that carry the goal\<close>

definition binding :: "uuid_text \<Rightarrow> json \<Rightarrow> (uuid \<times> uuid) option" where
  "binding u payload =
     (case (uuid_at u payload [''metadata'', ''_controllerGoal'', ''revision''],
            uuid_at u payload [''metadata'', ''_controllerGoal'', ''ownerUserId'']) of
        (Some r, Some w) \<Rightarrow> Some (r, w)
      | _ \<Rightarrow> None)"

definition checkpoint_source_metadata :: "json \<Rightarrow> jobject option" where
  "checkpoint_source_metadata payload =
     (case pointer payload [''metadata'', ''multiAgentPlan''] of
        Some (JObj plan) \<Rightarrow>
          (let role = Option.bind (obj_get plan ''role'') as_str in
           if role = Some ''worker''
              \<or> (role = Some ''lead_continuation'' \<or> role = Some ''synthesis'')
                \<and> Option.bind (obj_get plan ''checkpointKind'') as_str = Some ''early_failure''
           then Some plan else None)
      | _ \<Rightarrow> None)"

definition worker_or_early_lead :: "json \<Rightarrow> bool" where
  "worker_or_early_lead payload \<longleftrightarrow>
     (let metadata = (case value_get payload ''metadata'' of Some m \<Rightarrow> m | None \<Rightarrow> JNull);
          plan = (case value_get metadata ''multiAgentPlan'' of Some p \<Rightarrow> Some p | None \<Rightarrow> value_get metadata ''multi_agent_plan'')
      in (case plan of Some p \<Rightarrow> Option.bind (value_get p ''role'') as_str = Some ''worker'' | None \<Rightarrow> False)
         \<or> checkpoint_source_metadata payload \<noteq> None)"

record bound_goal =
  bg_revision :: uuid
  bg_owner :: uuid
  bg_metadata :: jobject
  bg_goal :: "goal option"
  bg_job_status :: string
  bg_planning_receipt :: bool
  bg_user_turn :: bool

definition load_bound_goal :: "uuid_text \<Rightarrow> string \<Rightarrow> uuid \<Rightarrow> json \<Rightarrow> conversation \<Rightarrow> bound_goal option" where
  "load_bound_goal u now job_id payload cv =
     (case binding u payload of
        None \<Rightarrow> None
      | Some (rev', owner) \<Rightarrow>
          (if worker_or_early_lead payload then None
           else case find_job cv job_id of
             None \<Rightarrow> None
           | Some j \<Rightarrow>
               (let m = cv_metadata cv;
                    controller = uuid_at u (JObj m) [''_goalController'', ''ownerUserId''];
                    raw = stored_goal m;
                    g = Option.bind raw (normalize_goal now)
                in if binding u (jb_payload j) \<noteq> Some (rev', owner)
                      \<or> jb_owner j \<noteq> Some owner
                      \<or> jb_role j = Some ''worker''
                      \<or> worker_or_early_lead (jb_payload j)
                      \<or> revision u m \<noteq> Some rev'
                      \<or> (controller \<noteq> None \<and> controller \<noteq> Some owner)
                   then None
                   else if raw \<noteq> None \<and> raw \<noteq> Some JNull \<and> g = None then None
                   else Some \<lparr>bg_revision = rev', bg_owner = owner, bg_metadata = m, bg_goal = g,
                              bg_job_status = jb_status j, bg_planning_receipt = jb_planning j,
                              bg_user_turn = pointer (jb_payload j) [''metadata'', ''_controllerGoal'', ''userTurn''] = Some (JBool True)\<rparr>)))"

definition persist_goal :: "jobject \<Rightarrow> goal option \<Rightarrow> conversation \<Rightarrow> conversation" where
  "persist_goal m g cv =
     cv\<lparr>cv_metadata := obj_insert ''instafyGoal'' (case g of Some g \<Rightarrow> goal_json g | None \<Rightarrow> JNull)
          (obj_remove ''instafy_goal'' m)\<rparr>"

text \<open>The results of the operations below: the changed conversation, if it changed.\<close>

definition apply_runtime_update ::
  "uuid_text \<Rightarrow> string \<Rightarrow> uuid \<Rightarrow> uuid \<Rightarrow> json \<Rightarrow> json \<Rightarrow> string \<Rightarrow> conversation \<Rightarrow> conversation option" where
  "apply_runtime_update u now fresh job_id payload metadata content cv =
     (case load_bound_goal u now job_id payload cv of
        None \<Rightarrow> None
      | Some b \<Rightarrow>
          (if bg_job_status b \<noteq> ''leased'' then None
           else if \<not> bg_user_turn b \<and> (case bg_goal b of Some g \<Rightarrow> g_status g \<noteq> Active | None \<Rightarrow> True) then None
           else case apply_goal_update (bg_goal b) metadata content (ut_show u fresh) now (Some (ut_show u (bg_owner b))) of
             Ignored \<Rightarrow> None
           | SetGoal g \<Rightarrow> Some (persist_goal (bg_metadata b) (Some g) cv)
           | ClearGoal \<Rightarrow> Some (persist_goal (bg_metadata b) None cv)))"

definition new_wakeup :: "int \<Rightarrow> uuid \<Rightarrow> uuid \<Rightarrow> uuid \<Rightarrow> wakeup" where
  "new_wakeup at_time source rev' owner =
     \<lparr>wk_source = source, wk_revision = rev', wk_owner = owner, wk_status = WPending, wk_next_attempt = at_time,
      wk_locked_until = None, wk_claim = None, wk_attempts = 0, wk_request = None, wk_run = None, wk_error = None\<rparr>"

definition settle_job ::
  "uuid_text \<Rightarrow> string \<Rightarrow> int \<Rightarrow> uuid \<Rightarrow> json \<Rightarrow> string \<Rightarrow> conversation \<Rightarrow> conversation" where
  "settle_job u now at_time job_id payload outcome cv =
     (case load_bound_goal u now job_id payload cv of
        None \<Rightarrow> cv
      | Some b \<Rightarrow>
          (case bg_goal b of
             None \<Rightarrow> cv
           | Some g \<Rightarrow>
               (if g_status g \<noteq> Active then cv
                else if outcome = ''succeeded'' \<and> bg_job_status b = ''completed''
                then (if bg_planning_receipt b \<or> (\<exists>w \<in> set (cv_wakeups cv). wk_source w = job_id) then cv
                      else cv\<lparr>cv_wakeups := cv_wakeups cv @ [new_wakeup at_time job_id (bg_revision b) (bg_owner b)]\<rparr>)
                else if (outcome = ''failed'' \<and> bg_job_status b = ''failed'')
                  \<or> (outcome = ''canceled'' \<and> bg_job_status b = ''canceled'')
                  \<or> (outcome = ''expired'' \<and> (bg_job_status b = ''expired'' \<or> bg_job_status b = ''failed''))
                then persist_goal (bg_metadata b)
                  (Some (g\<lparr>g_status := (if outcome = ''failed'' then Blocked else Canceled),
                           g_progress_summary := Some (''The goal run '' @ outcome @ ''.''),
                           g_updated_at := now, g_updated_by := Some (ut_show u (bg_owner b))\<rparr>)) cv
                else cv)))"

definition pause_for_user_stop :: "uuid_text \<Rightarrow> string \<Rightarrow> uuid \<Rightarrow> uuid \<Rightarrow> conversation \<Rightarrow> conversation option" where
  "pause_for_user_stop u now fresh actor cv =
     (case goal_of now (cv_metadata cv) of
        None \<Rightarrow> None
      | Some g \<Rightarrow>
          (if g_status g \<noteq> Active then None
           else Some (persist_goal (obj_insert ''_goalController'' (controller_stamp u fresh (Some actor)) (cv_metadata cv))
                  (Some (g\<lparr>g_status := Paused, g_updated_at := now, g_updated_by := Some (ut_show u actor)\<rparr>)) cv)))"

section \<open>Admitting a turn\<close>

datatype goal_error = Conflict string

record request_context =
  rc_user :: "uuid option"
  rc_service_role :: bool
  rc_scoped_claims :: bool

record dispatch_request =
  dr_metadata :: jobject
  dr_goal_wakeup :: "(uuid \<times> uuid) option"
  dr_goal_parent :: "uuid option"
  dr_trigger_user :: "uuid option"
  dr_delegating_job :: "uuid option"

definition strip_job_claims :: "jobject \<Rightarrow> jobject" where
  "strip_job_claims m = obj_remove ''_controllerGoal'' m"

definition is_legacy_automatic_continuation :: "jobject \<Rightarrow> bool" where
  "is_legacy_automatic_continuation m \<longleftrightarrow>
     (case (case obj_get m ''goalContinuation'' of Some v \<Rightarrow> Some v | None \<Rightarrow> obj_get m ''goal_continuation'') of
        Some v \<Rightarrow> value_get v ''triggerRunId'' \<noteq> None
      | None \<Rightarrow> False)"

definition is_object :: "json option \<Rightarrow> bool" where
  "is_object v \<longleftrightarrow> (case v of Some (JObj _) \<Rightarrow> True | _ \<Rightarrow> False)"

definition is_system_turn :: "jobject \<Rightarrow> bool" where
  "is_system_turn m \<longleftrightarrow>
     \<not> obj_has m ''steeredByPerson''
     \<and> (is_object (obj_get m ''browserHandBack'') \<or> is_object (obj_get m ''automaticRetry'')
        \<or> (is_object (obj_get m ''browserCardTurn'')
           \<and> Option.bind (obj_get m ''browserCardTurn'') (\<lambda>v. value_get v ''routed'') \<noteq> Some (JBool True)))"

definition is_current_source :: "uuid_text \<Rightarrow> (json \<Rightarrow> string) \<Rightarrow> conversation \<Rightarrow> uuid \<Rightarrow> uuid \<Rightarrow> bool" where
  "is_current_source u json_text cv source rev' \<longleftrightarrow>
     list_all (\<lambda>j. path_text json_text (jb_payload j) [''metadata'', ''_controllerGoal'', ''revision''] \<noteq> Some (ut_show u rev'))
       (drop 1 (dropWhile (\<lambda>j. jb_id j \<noteq> source) (cv_jobs cv)))"

text \<open>\<open>waiting\<close>: whether user input or a queued send of the conversation waits.\<close>

definition ensure_idle :: "bool \<Rightarrow> conversation \<Rightarrow> uuid \<Rightarrow> goal_error option" where
  "ensure_idle waiting cv source =
     (if list_ex (\<lambda>j. jb_status j = ''queued'' \<or> jb_status j = ''leased'') (cv_jobs cv) \<or> waiting
      then Some (Conflict ''The conversation has work or user input waiting.'')
      else if (case find_job cv source of Some j \<Rightarrow> jb_planning j | None \<Rightarrow> False)
      then Some (Conflict (''The goal is waiting for its team'' @ [CHR 0x27] @ ''s final checkpoint.''))
      else None)"

definition goal_changed :: goal_error where
  "goal_changed = Conflict ''The goal changed before this turn started. Resume the current goal to continue.''"

definition require_goal_command_snapshot :: "string \<Rightarrow> jobject \<Rightarrow> jobject \<Rightarrow> goal_error option" where
  "require_goal_command_snapshot now request_metadata conversation_metadata =
     (if pointer_str (JObj request_metadata) [''command'', ''type''] \<noteq> Some ''goal'' then None
      else
        (let requested = Option.bind (obj_get request_metadata ''goal'') (normalize_goal now);
             current = goal_of now conversation_metadata
         in if (case requested of Some g \<Rightarrow> g_status g \<noteq> Active | None \<Rightarrow> True) \<or> requested \<noteq> current
            then Some goal_changed else None))"

definition find_claim :: "conversation \<Rightarrow> uuid \<Rightarrow> uuid \<Rightarrow> int \<Rightarrow> wakeup option" where
  "find_claim cv source token at_time =
     find (\<lambda>w. wk_source w = source \<and> wk_claim w = Some token \<and> wk_status w = WClaimed
        \<and> (case wk_locked_until w of Some t \<Rightarrow> at_time < t | None \<Rightarrow> False)) (cv_wakeups cv)"

definition bound_request :: "string \<Rightarrow> json \<Rightarrow> jobject \<Rightarrow> dispatch_request \<Rightarrow> dispatch_request" where
  "bound_request now stamp m req =
     (let rm = obj_insert ''_controllerGoal'' stamp (dr_metadata req) in
      req\<lparr>dr_metadata :=
        (case goal_of now m of
           Some g \<Rightarrow> obj_insert ''goal'' (goal_json g) rm
         | None \<Rightarrow> obj_remove ''goal'' rm)\<rparr>)"

definition job_stamp :: "uuid_text \<Rightarrow> uuid \<Rightarrow> uuid \<Rightarrow> bool \<Rightarrow> json" where
  "job_stamp u rev' owner user_turn =
     JObj (obj_of_list ([(''revision'', JStr (ut_show u rev')), (''ownerUserId'', JStr (ut_show u owner))]
       @ (if user_turn then [(''userTurn'', JBool True)] else [])))"

definition bind_wakeup ::
  "uuid_text \<Rightarrow> (json \<Rightarrow> string) \<Rightarrow> string \<Rightarrow> int \<Rightarrow> bool \<Rightarrow> uuid \<Rightarrow> uuid \<Rightarrow> uuid \<Rightarrow> conversation \<Rightarrow> goal_error + json" where
  "bind_wakeup u json_text now at_time waiting owner source token cv =
     (case find_claim cv source token at_time of
        None \<Rightarrow> Inl (Conflict ''Goal continuation claim is no longer current.'')
      | Some w \<Rightarrow>
          (if revision u (cv_metadata cv) \<noteq> Some (wk_revision w) \<or> wk_owner w \<noteq> owner
              \<or> (case goal_of now (cv_metadata cv) of Some g \<Rightarrow> g_status g \<noteq> Active | None \<Rightarrow> True)
           then Inl (Conflict ''The goal changed before its continuation started.'')
           else if \<not> is_current_source u json_text cv source (wk_revision w)
           then Inl (Conflict ''A newer goal turn superseded this continuation.'')
           else case ensure_idle waiting cv source of
             Some e \<Rightarrow> Inl e
           | None \<Rightarrow> Inr (job_stamp u (wk_revision w) owner False)))"

text \<open>The binding of a team's final checkpoint: its planner's, without the authority of a user turn. Null
  becomes an object when it is indexed; a value of any other kind, which no writer leaves there, does not.\<close>

fun binding_object :: "json \<Rightarrow> jobject option" where
  "binding_object (JObj b) = Some b"
| "binding_object JNull = Some []"
| "binding_object _ = None"

definition bind_checkpoint :: "uuid_text \<Rightarrow> uuid \<Rightarrow> uuid \<Rightarrow> conversation \<Rightarrow> json option" where
  "bind_checkpoint u owner parent cv =
     (case find_job cv parent of
        None \<Rightarrow> None
      | Some j \<Rightarrow>
          (case Option.bind (pointer (jb_payload j) [''metadata'', ''_controllerGoal'']) binding_object of
             Some b \<Rightarrow>
               (if jb_owner j \<noteq> Some owner
                   \<or> Option.bind (Option.bind (obj_get b ''revision'') as_str) (ut_parse u) \<noteq> revision u (cv_metadata cv)
                then None
                else
                  (let b = obj_insert ''userTurn'' (JBool False) b in
                   Some (JObj (if obj_has b ''rootJobId'' then b else obj_insert ''rootJobId'' (JStr (ut_show u parent)) b))))
           | None \<Rightarrow> None))"

definition is_human_turn :: "request_context \<Rightarrow> dispatch_request \<Rightarrow> uuid \<Rightarrow> bool" where
  "is_human_turn ctx req owner \<longleftrightarrow>
     \<not> rc_service_role ctx \<and> \<not> rc_scoped_claims ctx \<and> dr_delegating_job req = None
     \<and> dr_trigger_user req = Some owner \<and> \<not> is_system_turn (dr_metadata req)"

definition bind_dispatch ::
  "uuid_text \<Rightarrow> (json \<Rightarrow> string) \<Rightarrow> string \<Rightarrow> int \<Rightarrow> uuid \<Rightarrow> bool \<Rightarrow> request_context \<Rightarrow> dispatch_request \<Rightarrow> conversation
     \<Rightarrow> goal_error + dispatch_request \<times> conversation" where
  "bind_dispatch u json_text now at_time fresh waiting ctx req cv =
     (case rc_user ctx of
        None \<Rightarrow> Inr (req, cv)
      | Some owner \<Rightarrow>
          (case dr_goal_wakeup req of
             Some (source, token) \<Rightarrow>
               (case bind_wakeup u json_text now at_time waiting owner source token cv of
                  Inl e \<Rightarrow> Inl e
                | Inr stamp \<Rightarrow> Inr (bound_request now stamp (cv_metadata cv) req, cv))
           | None \<Rightarrow>
               (case dr_goal_parent req of
                  Some parent \<Rightarrow>
                    (case bind_checkpoint u owner parent cv of
                       None \<Rightarrow> Inr (req, cv)
                     | Some stamp \<Rightarrow> Inr (bound_request now stamp (cv_metadata cv) req, cv))
                | None \<Rightarrow>
                    (if \<not> is_human_turn ctx req owner then Inr (req, cv)
                     else case require_goal_command_snapshot now (dr_metadata req) (cv_metadata cv) of
                       Some e \<Rightarrow> Inl e
                     | None \<Rightarrow>
                         (let m = obj_insert ''_goalController'' (controller_stamp u fresh (Some owner)) (cv_metadata cv) in
                          Inr (bound_request now (job_stamp u fresh owner True) m req, cv\<lparr>cv_metadata := m\<rparr>))))))"

definition record_dispatch :: "(uuid \<times> uuid) option \<Rightarrow> uuid \<Rightarrow> conversation \<Rightarrow> conversation" where
  "record_dispatch wake run cv =
     (case wake of
        None \<Rightarrow> cv
      | Some (source, token) \<Rightarrow>
          update_wakeups (\<lambda>w. wk_source w = source \<and> wk_claim w = Some token \<and> wk_status w = WClaimed)
            (\<lambda>w. w\<lparr>wk_status := WDispatched, wk_run := Some run, wk_locked_until := None, wk_claim := None\<rparr>) cv)"

section \<open>Wakeups\<close>

definition wake_due :: "int \<Rightarrow> wakeup \<Rightarrow> bool" where
  "wake_due at_time w \<longleftrightarrow>
     (wk_status w = WPending \<and> wk_next_attempt w \<le> at_time)
     \<or> (wk_status w = WClaimed \<and> (case wk_locked_until w of Some t \<Rightarrow> t \<le> at_time | None \<Rightarrow> False))"

definition claim :: "int \<Rightarrow> uuid \<Rightarrow> uuid option \<Rightarrow> conversation \<Rightarrow> wakeup option \<times> conversation" where
  "claim at_time token source cv =
     (case sort_key (\<lambda>w. (wk_next_attempt w, wk_source w))
         (filter (\<lambda>w. (case source of Some i \<Rightarrow> wk_source w = i | None \<Rightarrow> True) \<and> wake_due at_time w) (cv_wakeups cv)) of
        [] \<Rightarrow> (None, cv)
      | c # _ \<Rightarrow>
          (let taken = c\<lparr>wk_status := WClaimed, wk_claim := Some token, wk_locked_until := Some (at_time + 300)\<rparr>
           in (Some taken, update_wakeups (\<lambda>w. wk_source w = wk_source c) (\<lambda>_. taken) cv)))"

definition block_goal :: "uuid_text \<Rightarrow> string \<Rightarrow> wakeup \<Rightarrow> string \<Rightarrow> conversation \<Rightarrow> conversation" where
  "block_goal u now wake reason cv =
     (case goal_of now (cv_metadata cv) of
        None \<Rightarrow> cv
      | Some g \<Rightarrow>
          (if revision u (cv_metadata cv) \<noteq> Some (wk_revision wake) \<or> g_status g \<noteq> Active then cv
           else cv\<lparr>cv_metadata := obj_insert ''instafyGoal''
                  (goal_json (g\<lparr>g_status := Blocked, g_progress_summary := Some reason, g_updated_at := now\<rparr>)) (cv_metadata cv)\<rparr>))"

text \<open>The turns of a goal so far: \<open>greatest(0, least(100, n))::bigint\<close> of the number a job carries.\<close>

fun turn_number :: "json \<Rightarrow> nat" where
  "turn_number (JNum (PosInt n)) = min 100 n"
| "turn_number (JNum (JFloat (F64_Fin r))) = nat \<lfloor>max 0 (min 100 r) + 1 / 2\<rfloor>"
| "turn_number _ = 0"

definition job_turn :: "job \<Rightarrow> nat" where
  "job_turn j = (case pointer (jb_payload j) [''metadata'', ''goalContinuation'', ''turn''] of Some v \<Rightarrow> turn_number v | None \<Rightarrow> 0)"

definition of_goal :: "uuid_text \<Rightarrow> (json \<Rightarrow> string) \<Rightarrow> goal \<Rightarrow> uuid \<Rightarrow> job \<Rightarrow> bool" where
  "of_goal u json_text g rev' j \<longleftrightarrow>
     path_text json_text (jb_payload j) [''metadata'', ''goal'', ''id''] = Some (g_id g)
     \<or> path_text json_text (jb_payload j) [''metadata'', ''_controllerGoal'', ''revision''] = Some (ut_show u rev')"

definition turn_count :: "uuid_text \<Rightarrow> (json \<Rightarrow> string) \<Rightarrow> goal \<Rightarrow> uuid \<Rightarrow> conversation \<Rightarrow> nat" where
  "turn_count u json_text g rev' cv = foldl max 0 (map job_turn (filter (of_goal u json_text g rev') (cv_jobs cv)))"

text \<open>What a run said and did (\<open>replies\<close>, \<open>active\<close>: the messages of a run, another table).\<close>

definition evidence_turn :: "job \<Rightarrow> nat option" where
  "evidence_turn j =
     (case pointer (jb_payload j) [''metadata'', ''goalContinuation'', ''turn''] of
        Some (JNum (PosInt n)) \<Rightarrow> (if n < 2 ^ 32 then Some n else None)
      | _ \<Rightarrow> None)"

definition recent_runs ::
  "uuid_text \<Rightarrow> (json \<Rightarrow> string) \<Rightarrow> (uuid option \<Rightarrow> string option) \<Rightarrow> (uuid option \<Rightarrow> bool) \<Rightarrow> goal \<Rightarrow> uuid \<Rightarrow> conversation
     \<Rightarrow> run_evidence list" where
  "recent_runs u json_text replies active g rev' cv =
     map (\<lambda>j. \<lparr>re_assistant_text = replies (jb_run j), re_has_activity = active (jb_run j), re_turn = evidence_turn j\<rparr>)
       (rev (take 101 (rev (filter (\<lambda>j. of_goal u json_text g rev' j \<and> jb_status j = ''completed'' \<and> \<not> jb_planning j) (cv_jobs cv)))))"

definition kept_keys :: "string list" where
  "kept_keys = [''execution_mode'', ''executionMode'', ''workspaceMode'', ''workspace_mode'', ''writeIntent'', ''write_intent'',
     ''writeScope'', ''write_scope'', ''runtimePreference'', ''runtimeRouting'', ''runtime_routing'', ''assistantCapabilityContext'']"

definition continuation_metadata :: "json \<Rightarrow> jobject" where
  "continuation_metadata source =
     (let m = foldl (\<lambda>m key. case value_get source key of
            Some v \<Rightarrow>
              (if key = ''writeScope'' \<and> Option.bind (value_get v ''mode'') as_str = Some ''unscoped'' then m
               else obj_insert key v m)
          | None \<Rightarrow> m) [] kept_keys
      in case pointer_str source [''agent'', ''handle''] of
           Some handle \<Rightarrow> obj_insert ''agentSelection''
             (JObj (obj_of_list [(''active'', JArr [JStr handle]), (''mentions'', JArr [JStr handle])])) m
         | None \<Rightarrow> m)"

definition not_null :: "json option \<Rightarrow> bool" where
  "not_null v \<longleftrightarrow> v \<noteq> None \<and> v \<noteq> Some JNull"

definition source_requires_explicit_resume :: "json \<Rightarrow> bool" where
  "source_requires_explicit_resume source \<longleftrightarrow>
     list_ex (\<lambda>key. not_null (value_get source key))
       [''browserTransport'', ''browser_transport'', ''browserRuntimeId'', ''browser_runtime_id'', ''browserPageId'', ''browser_page_id'']
     \<or> list_ex (\<lambda>key. case value_get source key of
          Some expectations \<Rightarrow>
            list_ex (\<lambda>k. not_null (value_get expectations k) \<and> value_get expectations k \<noteq> Some (JBool False))
              [''browserExecution'', ''browser_execution'']
        | None \<Rightarrow> False) [''runtimeExpectations'', ''runtime_expectations'']"

definition uuid_json :: "uuid_text \<Rightarrow> uuid option \<Rightarrow> json" where
  "uuid_json u v = (case v of Some i \<Rightarrow> JStr (ut_show u i) | None \<Rightarrow> JNull)"

definition next_metadata :: "uuid_text \<Rightarrow> goal \<Rightarrow> nat \<Rightarrow> job \<Rightarrow> uuid \<Rightarrow> json \<Rightarrow> jobject" where
  "next_metadata u g next_turn source source_id settings_metadata =
     obj_insert ''clientMessageId'' (JStr (''goal-continuation:'' @ g_id g @ '':'' @ ut_show u source_id))
       (obj_insert ''goalContinuation''
         (JObj (obj_of_list [(''goalId'', JStr (g_id g)), (''triggerRunId'', uuid_json u (jb_run source)),
            (''turn'', JNum (PosInt next_turn)), (''source'', JStr ''controller'')]))
         (obj_insert ''goal'' (goal_json g) (continuation_metadata settings_metadata)))"

definition continuation_request :: "uuid_text \<Rightarrow> uuid \<Rightarrow> job \<Rightarrow> string \<Rightarrow> jobject \<Rightarrow> json \<Rightarrow> uuid option \<Rightarrow> json" where
  "continuation_request u conversation_id source prompt metadata settings runtime_id =
     JObj (obj_of_list
       [(''projectId'', JStr (ut_show u (jb_project source))), (''sessionId'', uuid_json u (jb_session source)),
        (''conversationId'', JStr (ut_show u conversation_id)), (''promptText'', JStr prompt), (''metadata'', JObj metadata),
        (''toolLimits'', (case value_get settings ''tool_limits'' of Some v \<Rightarrow> v | None \<Rightarrow> JNull)),
        (''runtimeId'', uuid_json u runtime_id), (''preferRuntime'', JBool False), (''intent'', JStr ''feature'')])"

text \<open>The job whose settings the next turn keeps: the root of a team's checkpoint, else the source.\<close>

definition settings_job :: "uuid_text \<Rightarrow> job \<Rightarrow> conversation \<Rightarrow> job option" where
  "settings_job u source cv =
     (case uuid_at u (jb_payload source) [''metadata'', ''_controllerGoal'', ''rootJobId''] of
        Some root_id \<Rightarrow> find_job cv root_id
      | None \<Rightarrow> Some source)"

definition needs_browser :: string where
  "needs_browser = ''This goal needs browser control. Resume it from the browser to choose the current page and permissions.''"

definition stop_wakeup :: "uuid \<Rightarrow> string \<Rightarrow> conversation \<Rightarrow> conversation" where
  "stop_wakeup source reason =
     update_wakeups (\<lambda>w. wk_source w = source)
       (\<lambda>w. w\<lparr>wk_status := WBlocked, wk_error := Some reason, wk_claim := None, wk_locked_until := None\<rparr>)"

definition prepare_request ::
  "uuid_text \<Rightarrow> (json \<Rightarrow> string) \<Rightarrow> (string \<Rightarrow> string) \<Rightarrow> (uuid option \<Rightarrow> string option) \<Rightarrow> (uuid option \<Rightarrow> bool)
     \<Rightarrow> string \<Rightarrow> int \<Rightarrow> bool \<Rightarrow> uuid \<Rightarrow> wakeup \<Rightarrow> conversation \<Rightarrow> json option \<times> conversation" where
  "prepare_request u json_text lower replies active now at_time waiting conversation_id wake cv =
     (let mine = (\<lambda>w. wk_source w = wk_source wake \<and> wk_claim w = wk_claim wake \<and> wk_status w = WClaimed) in
      case (find mine (cv_wakeups cv), find_job cv (wk_source wake)) of
        (Some w, Some source) \<Rightarrow>
          (case goal_of now (cv_metadata cv) of
             Some g \<Rightarrow>
               (if revision u (cv_metadata cv) \<noteq> Some (wk_revision wake) \<or> g_status g \<noteq> Active
                   \<or> \<not> is_current_source u json_text cv (wk_source wake) (wk_revision wake)
                then (None, update_wakeups (\<lambda>w. wk_source w = wk_source wake \<and> wk_claim w = wk_claim wake)
                        (\<lambda>w. w\<lparr>wk_status := WCanceled, wk_locked_until := None, wk_claim := None\<rparr>) cv)
                else case wk_request w of
                  Some request \<Rightarrow> (Some request, cv)
                | None \<Rightarrow>
                    (if ensure_idle waiting cv (wk_source wake) \<noteq> None
                     then (None, update_wakeups (\<lambda>w. wk_source w = wk_source wake \<and> wk_claim w = wk_claim wake)
                             (\<lambda>w. w\<lparr>wk_status := WPending, wk_next_attempt := at_time + 30, wk_locked_until := None,
                                     wk_claim := None\<rparr>) cv)
                     else
                       (let recent = recent_runs u json_text replies active g (wk_revision wake) cv in
                        case decide_continuation lower g (turn_count u json_text g (wk_revision wake) cv) recent of
                          Stop _ summary \<Rightarrow>
                            (None, stop_wakeup (wk_source wake) summary (block_goal u now wake summary cv))
                        | Continue next_turn warning \<Rightarrow>
                            (case settings_job u source cv of
                               None \<Rightarrow> (None, cv)
                             | Some sj \<Rightarrow>
                                 (let settings = jb_payload sj;
                                      settings_metadata = (case value_get settings ''metadata'' of Some m \<Rightarrow> m | None \<Rightarrow> JNull)
                                  in if source_requires_explicit_resume settings_metadata
                                     then (None, stop_wakeup (wk_source wake) needs_browser (block_goal u now wake needs_browser cv))
                                     else
                                       (let request = continuation_request u conversation_id source
                                              (build_continuation_prompt g next_turn recent warning)
                                              (next_metadata u g next_turn source (wk_source wake) settings_metadata)
                                              settings (jb_target sj)
                                        in (Some request,
                                            update_wakeups (\<lambda>w. wk_source w = wk_source wake \<and> wk_claim w = wk_claim wake)
                                              (\<lambda>w. w\<lparr>wk_request := Some request\<rparr>) cv)))))))
           | None \<Rightarrow>
               (None, update_wakeups (\<lambda>w. wk_source w = wk_source wake \<and> wk_claim w = wk_claim wake)
                  (\<lambda>w. w\<lparr>wk_status := WCanceled, wk_locked_until := None, wk_claim := None\<rparr>) cv))
      | _ \<Rightarrow> (None, cv))"

text \<open>How dispatching the request ended, and how the wakeup is settled by it.\<close>

datatype dispatch_result = Dispatched uuid | NoRun | DispatchConflict | DispatchError bool \<comment> \<open>of the server?\<close> string

definition not_permitted :: string where
  "not_permitted = ''Goal continuation could not start under the current conversation permissions.''"

definition wake_result :: "dispatch_result \<Rightarrow> nat \<Rightarrow> wake_status \<times> uuid option \<times> string option \<times> bool" where
  "wake_result r attempts =
     (case r of
        Dispatched run \<Rightarrow> (WDispatched, Some run, None, False)
      | NoRun \<Rightarrow> (WBlocked, None, Some not_permitted, False)
      | DispatchConflict \<Rightarrow> (WPending, None, None, False)
      | DispatchError server message \<Rightarrow> (if server \<and> attempts < 2 then WPending else WBlocked, None, Some message, True))"

definition finish_wakeup :: "uuid_text \<Rightarrow> string \<Rightarrow> int \<Rightarrow> wakeup \<Rightarrow> dispatch_result \<Rightarrow> conversation \<Rightarrow> conversation" where
  "finish_wakeup u now at_time wake r cv =
     (let (status, run, error, failed) = wake_result r (wk_attempts wake);
          mine = (\<lambda>w. wk_source w = wk_source wake \<and> wk_claim w = wk_claim wake \<and> wk_status w = WClaimed);
          cv' = update_wakeups mine
            (\<lambda>w. w\<lparr>wk_status := status, wk_run := run, wk_error := error,
                    wk_attempts := wk_attempts w + (if failed then 1 else 0), wk_next_attempt := at_time + 30,
                    wk_locked_until := None, wk_claim := None\<rparr>) cv
      in if list_ex mine (cv_wakeups cv) \<and> status = WBlocked
         then block_goal u now wake (case error of Some e \<Rightarrow> e | None \<Rightarrow> ''Goal continuation could not start.'') cv'
         else cv')"

end
