(* ===== verification/Goal_Steps.thy ===== *)
theory Goal_Steps
  imports Goal_State
begin

text \<open>
  Conversation goals as a machine: what clients, people who press stop, runtimes, the wakeup scheduler and the
  dispatcher do to a conversation, one rule per transaction, in any order. A claim and the request prepared for it
  are in flight until they are used; \<open>gs_log\<close> is a ghost that records each automatic turn with
  the revision it was dispatched under. The flag of a step says whether a person acted.
  A job that is inserted comes after the ones that are there (in the order of \<open>created_at\<close>), and carries
  what the bound request says of the goal.
\<close>

section \<open>The machine\<close>

record goal_system =
  gs_conversation :: conversation
  gs_in_flight :: "(wakeup \<times> json option) list"
  gs_log :: "(uuid \<times> nat) list"

abbreviation revision_path :: "string list" where
  "revision_path \<equiv> [''metadata'', ''_controllerGoal'', ''revision'']"

abbreviation turn_path :: "string list" where
  "turn_path \<equiv> [''metadata'', ''goalContinuation'', ''turn'']"

definition carries :: "jobject \<Rightarrow> job \<Rightarrow> bool" where
  "carries m j \<longleftrightarrow>
     (\<forall>k \<in> {''_controllerGoal'', ''goal'', ''goalContinuation''}. pointer (jb_payload j) [''metadata'', k] = obj_get m k)"

definition request_turn :: "json \<Rightarrow> nat" where
  "request_turn request = (case pointer request turn_path of Some v \<Rightarrow> turn_number v | None \<Rightarrow> 0)"

text \<open>Leasing, completing or requeueing a job changes neither its identity nor its payload.\<close>

definition same_job :: "job \<Rightarrow> job \<Rightarrow> bool" where
  "same_job j j' \<longleftrightarrow> jb_id j' = jb_id j \<and> jb_payload j' = jb_payload j \<and> jb_owner j' = jb_owner j \<and> jb_role j' = jb_role j"

definition insert_jobs :: "job list \<Rightarrow> conversation \<Rightarrow> conversation" where
  "insert_jobs js cv = cv\<lparr>cv_jobs := cv_jobs cv @ js\<rparr>"

inductive goal_step ::
  "uuid_text \<Rightarrow> (json \<Rightarrow> string) \<Rightarrow> (string \<Rightarrow> string) \<Rightarrow> bool \<Rightarrow> goal_system \<Rightarrow> goal_system \<Rightarrow> bool"
  for u json_text lower where
  edit: "goal_step u json_text lower True s (s\<lparr>gs_conversation := client_edit u fresh patch (gs_conversation s)\<rparr>)"
| stop: "pause_for_user_stop u now fresh actor (gs_conversation s) = Some cv \<Longrightarrow>
    goal_step u json_text lower True s (s\<lparr>gs_conversation := cv\<rparr>)"
| job_moves: "list_all2 same_job (cv_jobs (gs_conversation s)) js \<Longrightarrow>
    goal_step u json_text lower False s (s\<lparr>gs_conversation := (gs_conversation s)\<lparr>cv_jobs := js\<rparr>\<rparr>)"
| update: "apply_runtime_update u now fresh job_id payload metadata content (gs_conversation s) = Some cv \<Longrightarrow>
    goal_step u json_text lower False s (s\<lparr>gs_conversation := cv\<rparr>)"
| settle: "goal_step u json_text lower False s
    (s\<lparr>gs_conversation := settle_job u now at_time job_id payload outcome (gs_conversation s)\<rparr>)"
| claimed: "claim at_time token source (gs_conversation s) = (Some w, cv) \<Longrightarrow>
    goal_step u json_text lower False s (s\<lparr>gs_conversation := cv, gs_in_flight := (w, None) # gs_in_flight s\<rparr>)"
| prepared: "(w, r) \<in> set (gs_in_flight s) \<Longrightarrow>
    prepare_request u json_text lower replies active now at_time waiting conversation_id w (gs_conversation s) = (request, cv) \<Longrightarrow>
    goal_step u json_text lower False s (s\<lparr>gs_conversation := cv, gs_in_flight := (w, request) # gs_in_flight s\<rparr>)"
| woken: "(w, Some request) \<in> set (gs_in_flight s) \<Longrightarrow>
    obj_get m ''goalContinuation'' = pointer request [''metadata'', ''goalContinuation''] \<Longrightarrow>
    wk_claim w = Some token \<Longrightarrow>
    dr_goal_wakeup req = Some (wk_source w, token) \<Longrightarrow> dr_metadata req = strip_job_claims m \<Longrightarrow>
    bind_dispatch u json_text now at_time fresh waiting
      \<lparr>rc_user = Some (wk_owner w), rc_service_role = False, rc_scoped_claims = False\<rparr> req (gs_conversation s) = Inr (req', cv) \<Longrightarrow>
    js \<noteq> [] \<Longrightarrow> list_all (carries (dr_metadata req')) js \<Longrightarrow>
    goal_step u json_text lower False s
      (s\<lparr>gs_conversation := record_dispatch (dr_goal_wakeup req') run (insert_jobs js cv),
         gs_log := (wk_revision w, request_turn request) # gs_log s\<rparr>)"
| dispatched: "dr_goal_wakeup req = None \<Longrightarrow> dr_metadata req = strip_job_claims m \<Longrightarrow> \<not> is_legacy_automatic_continuation m \<Longrightarrow>
    bind_dispatch u json_text now at_time fresh waiting ctx req (gs_conversation s) = Inr (req', cv) \<Longrightarrow>
    list_all (carries (dr_metadata req')) js \<Longrightarrow>
    human = (case rc_user ctx of Some owner \<Rightarrow> dr_goal_parent req = None \<and> is_human_turn ctx req owner | None \<Rightarrow> False) \<Longrightarrow>
    goal_step u json_text lower human s (s\<lparr>gs_conversation := insert_jobs js cv\<rparr>)"
| repeated: "goal_step u json_text lower False s (s\<lparr>gs_conversation := record_dispatch wake run (gs_conversation s)\<rparr>)"
| finished: "(w, Some request) \<in> set (gs_in_flight s) \<Longrightarrow>
    goal_step u json_text lower False s (s\<lparr>gs_conversation := finish_wakeup u now at_time w r (gs_conversation s)\<rparr>)"

section \<open>Reading what was written\<close>

lemma obj_get_remove [simp]: "obj_get (obj_remove k m) a = (if a = k then None else obj_get m a)"
  by (induction m) (auto simp: obj_remove_def)

lemma obj_get_foldl:
  "obj_get (foldl (\<lambda>m (k, v). obj_insert k v m) acc kvs) k = (case map_of (rev kvs) k of Some v \<Rightarrow> Some v | None \<Rightarrow> obj_get acc k)"
  by (induction kvs arbitrary: acc) (auto simp: map_add_def split: option.splits)

lemma obj_get_of_list: "obj_get (obj_of_list kvs) k = map_of (rev kvs) k"
  by (simp add: obj_of_list_def obj_get_foldl split: option.splits)

lemma value_get_obj [simp]: "value_get (JObj m) k = obj_get m k"
  by (simp add: value_get_def)

lemma revision_stamp:
  assumes "\<And>x. ut_parse u (ut_show u x) = Some x"
  shows "revision u (obj_insert ''_goalController'' (controller_stamp u r actor) m) = Some r"
  using assms by (cases actor) (simp_all add: revision_def uuid_at_def pointer_str_def controller_stamp_def obj_get_of_list)

lemma goal_of_paused:
  assumes "goal_of now (obj_insert ''instafyGoal'' (goal_json g) m) = Some g'"
  shows "g_status g' = g_status g"
proof -
  have "read_status (Some (JStr (goal_status_str st))) = Some st" for st
    by (induction st) code_simp+
  with assms show ?thesis
    by (auto simp: goal_of_def stored_goal_def normalize_goal_def goal_json_def obj_get_of_list Let_def split: option.splits)
qed

section \<open>What the wakeup operations leave alone\<close>

lemma update_wakeups_simps [simp]:
  "cv_metadata (update_wakeups P f cv) = cv_metadata cv" "cv_jobs (update_wakeups P f cv) = cv_jobs cv"
  by (simp_all add: update_wakeups_def)

lemma record_dispatch_simps [simp]:
  "cv_metadata (record_dispatch wake run cv) = cv_metadata cv" "cv_jobs (record_dispatch wake run cv) = cv_jobs cv"
  by (simp_all add: record_dispatch_def split: option.split)

lemma insert_jobs_simps [simp]:
  "cv_metadata (insert_jobs js cv) = cv_metadata cv" "cv_jobs (insert_jobs js cv) = cv_jobs cv @ js"
  "cv_wakeups (insert_jobs js cv) = cv_wakeups cv"
  by (simp_all add: insert_jobs_def)

text \<open>The rows of two states agree on what never changes: key, revision and owner.\<close>

definition wake_key :: "wakeup \<Rightarrow> uuid \<times> uuid \<times> uuid" where
  "wake_key w = (wk_source w, wk_revision w, wk_owner w)"

definition same_wakes :: "conversation \<Rightarrow> conversation \<Rightarrow> bool" where
  "same_wakes cv cv' \<longleftrightarrow> map wake_key (cv_wakeups cv') = map wake_key (cv_wakeups cv)"

lemma same_wakes_refl [simp]: "same_wakes cv cv"
  by (simp add: same_wakes_def)

lemma same_wakes_trans: "same_wakes a b \<Longrightarrow> same_wakes b c \<Longrightarrow> same_wakes a c"
  by (simp add: same_wakes_def)

lemma same_wakes_update: "(\<And>w. w \<in> set (cv_wakeups cv) \<Longrightarrow> P w \<Longrightarrow> wake_key (f w) = wake_key w) \<Longrightarrow> same_wakes cv (update_wakeups P f cv)"
  by (auto simp: same_wakes_def update_wakeups_def)

lemma same_wakes_record: "same_wakes cv (record_dispatch wake run cv)"
  unfolding record_dispatch_def by (auto split: option.split intro!: same_wakes_update simp: wake_key_def)

lemma same_wakes_stop: "same_wakes cv (stop_wakeup source reason cv)"
  unfolding stop_wakeup_def by (rule same_wakes_update) (simp add: wake_key_def)

lemma stop_wakeup_simps [simp]:
  "cv_metadata (stop_wakeup source reason cv) = cv_metadata cv" "cv_jobs (stop_wakeup source reason cv) = cv_jobs cv"
  by (simp_all add: stop_wakeup_def)

lemma block_goal_simps [simp]:
  "cv_jobs (block_goal u now wake reason cv) = cv_jobs cv" "cv_wakeups (block_goal u now wake reason cv) = cv_wakeups cv"
  by (simp_all add: block_goal_def split: option.split)

lemma block_goal_other: "revision u (cv_metadata cv) \<noteq> Some (wk_revision wake) \<Longrightarrow> block_goal u now wake reason cv = cv"
  by (simp add: block_goal_def split: option.split)

lemma claim_same_wakes:
  assumes "claim at_time token source cv = (Some w, cv')" "distinct (map wk_source (cv_wakeups cv))"
  shows "same_wakes cv cv'" "wake_key w \<in> wake_key ` set (cv_wakeups cv)" "cv_metadata cv' = cv_metadata cv" "cv_jobs cv' = cv_jobs cv"
    "map wk_request (cv_wakeups cv') = map wk_request (cv_wakeups cv)"
proof -
  define due where "due = sort_key (\<lambda>w. (wk_next_attempt w, wk_source w))
      (filter (\<lambda>w. (case source of Some i \<Rightarrow> wk_source w = i | None \<Rightarrow> True) \<and> wake_due at_time w) (cv_wakeups cv))"
  from assms(1) obtain c rest where c: "due = c # rest"
    by (cases due) (auto simp: claim_def due_def Let_def split: list.splits)
  then have "c \<in> set due" by simp
  then have cin: "c \<in> set (cv_wakeups cv)" by (simp add: due_def)
  let ?t = "c\<lparr>wk_status := WClaimed, wk_claim := Some token, wk_locked_until := Some (at_time + 300)\<rparr>"
  from assms(1) c have w: "w = ?t" and cv': "cv' = update_wakeups (\<lambda>w. wk_source w = wk_source c) (\<lambda>_. ?t) cv"
    by (auto simp: claim_def due_def [symmetric] Let_def)
  have only: "x = c" if "x \<in> set (cv_wakeups cv)" "wk_source x = wk_source c" for x
    using that cin assms(2) by (auto simp: distinct_map inj_on_def)
  show "same_wakes cv cv'" unfolding cv' by (rule same_wakes_update) (auto dest: only simp: wake_key_def)
  show "wake_key w \<in> wake_key ` set (cv_wakeups cv)"
    using cin by (auto simp: w wake_key_def intro!: rev_image_eqI [of c])
  show "cv_metadata cv' = cv_metadata cv" "cv_jobs cv' = cv_jobs cv" by (simp_all add: cv')
  show "map wk_request (cv_wakeups cv') = map wk_request (cv_wakeups cv)"
    using only by (auto simp: cv' update_wakeups_def)
qed

lemma prepare_jobs [simp]: "cv_jobs (snd (prepare_request u jt lower replies active now at_time waiting cid wake cv)) = cv_jobs cv"
  by (simp add: prepare_request_def Let_def split: option.split continuation_decision.split)

lemma prepare_same_wakes: "same_wakes cv (snd (prepare_request u jt lower replies active now at_time waiting cid wake cv))"
proof -
  have blocked: "same_wakes cv (stop_wakeup source reason (block_goal u now wake reason' cv))" for source reason reason'
    using same_wakes_stop [of "block_goal u now wake reason' cv" source reason] by (simp add: same_wakes_def)
  show ?thesis
    unfolding prepare_request_def Let_def
    by (auto split: option.split continuation_decision.split intro!: blocked same_wakes_update simp: wake_key_def)
qed

lemma prepare_other:
  assumes "revision u (cv_metadata cv) \<noteq> Some (wk_revision wake)"
  shows "cv_metadata (snd (prepare_request u jt lower replies active now at_time waiting cid wake cv)) = cv_metadata cv"
  using assms by (simp add: prepare_request_def Let_def split: option.split)

lemma finish_jobs [simp]: "cv_jobs (finish_wakeup u now at_time wake r cv) = cv_jobs cv"
  by (simp add: finish_wakeup_def Let_def split: prod.split)

lemma same_wakes_block: "same_wakes cv cv' \<Longrightarrow> same_wakes cv (block_goal u now wake reason cv')"
  by (simp add: same_wakes_def)

lemma finish_same_wakes: "same_wakes cv (finish_wakeup u now at_time wake r cv)"
  unfolding finish_wakeup_def Let_def
  by (auto split: prod.split intro!: same_wakes_block same_wakes_update simp: wake_key_def)

lemma finish_other:
  assumes "revision u (cv_metadata cv) \<noteq> Some (wk_revision wake)"
  shows "cv_metadata (finish_wakeup u now at_time wake r cv) = cv_metadata cv"
  using assms by (simp add: finish_wakeup_def Let_def block_goal_other split: prod.split)

section \<open>A stopped goal\<close>

definition parked :: "uuid_text \<Rightarrow> uuid \<Rightarrow> jobject \<Rightarrow> goal_system \<Rightarrow> bool" where
  "parked u fresh m s \<longleftrightarrow>
     cv_metadata (gs_conversation s) = m
     \<and> distinct (map wk_source (cv_wakeups (gs_conversation s)))
     \<and> (\<forall>w \<in> set (cv_wakeups (gs_conversation s)). wk_revision w \<noteq> fresh)
     \<and> (\<forall>p \<in> set (gs_in_flight s). wk_revision (fst p) \<noteq> fresh)
     \<and> (\<forall>j \<in> set (cv_jobs (gs_conversation s)). uuid_at u (jb_payload j) revision_path \<noteq> Some fresh)"

lemma find_job_in: "find_job cv i = Some j \<Longrightarrow> j \<in> set (cv_jobs cv) \<and> jb_id j = i"
  by (auto simp: find_job_def find_Some_iff)

lemma unbound_None:
  assumes "\<forall>j \<in> set (cv_jobs cv). uuid_at u (jb_payload j) revision_path \<noteq> Some fresh" "revision u (cv_metadata cv) = Some fresh"
  shows "load_bound_goal u now job_id payload cv = None"
  using assms
  by (auto simp: load_bound_goal_def binding_def Let_def split: option.split prod.split dest!: find_job_in)

lemma same_wakes_revisions:
  assumes "same_wakes cv cv'"
  shows "wk_revision ` set (cv_wakeups cv') = wk_revision ` set (cv_wakeups cv)"
    "map wk_source (cv_wakeups cv') = map wk_source (cv_wakeups cv)"
proof -
  have r: "map wk_revision (cv_wakeups c) = map (\<lambda>k. fst (snd k)) (map wake_key (cv_wakeups c))"
    "map wk_source (cv_wakeups c) = map fst (map wake_key (cv_wakeups c))" for c
    by (simp_all add: wake_key_def)
  from assms show "map wk_source (cv_wakeups cv') = map wk_source (cv_wakeups cv)"
    unfolding same_wakes_def r by simp
  from assms have "map wk_revision (cv_wakeups cv') = map wk_revision (cv_wakeups cv)"
    unfolding same_wakes_def r by simp
  then show "wk_revision ` set (cv_wakeups cv') = wk_revision ` set (cv_wakeups cv)" by (metis image_set)
qed

lemma parked_wakes:
  assumes "parked u fresh m s" "same_wakes (gs_conversation s) cv" "cv_metadata cv = m" "cv_jobs cv = cv_jobs (gs_conversation s)"
  shows "parked u fresh m (s\<lparr>gs_conversation := cv\<rparr>)"
proof -
  from assms(1) have "\<forall>r \<in> wk_revision ` set (cv_wakeups (gs_conversation s)). r \<noteq> fresh" by (auto simp: parked_def)
  then have "\<forall>r \<in> wk_revision ` set (cv_wakeups cv). r \<noteq> fresh"
    unfolding same_wakes_revisions(1) [OF assms(2)] .
  with assms(1,3,4) show ?thesis by (simp add: parked_def same_wakes_revisions(2) [OF assms(2)])
qed

lemma uuid_at_carried:
  assumes "carries m j"
  shows "uuid_at u (jb_payload j) revision_path = uuid_at u (JObj m) [''_controllerGoal'', ''revision'']"
proof -
  have two: "pointer v (a # b # ks) = (case pointer v [a, b] of Some w \<Rightarrow> pointer w ks | None \<Rightarrow> None)" for v a b ks
    by (simp split: option.split)
  from assms have "pointer (jb_payload j) [''metadata'', ''_controllerGoal''] = obj_get m ''_controllerGoal''"
    by (simp add: carries_def)
  then show ?thesis
    unfolding uuid_at_def pointer_str_def two [of _ "''metadata''" "''_controllerGoal''" "[''revision'']"] by simp
qed

lemma bind_checkpoint_revision:
  assumes "bind_checkpoint u owner parent cv = Some stamp"
  shows "\<exists>j \<in> set (cv_jobs cv). uuid_at u (jb_payload j) revision_path = revision u (cv_metadata cv)"
proof -
  from assms obtain j b where j: "find_job cv parent = Some j"
    and b: "Option.bind (pointer (jb_payload j) [''metadata'', ''_controllerGoal'']) binding_object = Some b"
    and r: "Option.bind (Option.bind (obj_get b ''revision'') as_str) (ut_parse u) = revision u (cv_metadata cv)"
    by (auto simp: bind_checkpoint_def split: option.splits if_splits)
  obtain v where v: "pointer (jb_payload j) [''metadata'', ''_controllerGoal''] = Some v" "binding_object v = Some b"
    using b by (auto simp: bind_eq_Some_conv)
  have "value_get v ''revision'' = obj_get b ''revision''"
    using v(2) by (cases v) (auto simp: value_get_def)
  then have "uuid_at u (jb_payload j) revision_path = revision u (cv_metadata cv)"
    using v(1) r by (auto simp: uuid_at_def pointer_str_def split: option.splits)
  with find_job_in [OF j] show ?thesis by blast
qed

lemma moved_payloads: "list_all2 same_job js js' \<Longrightarrow> map jb_payload js' = map jb_payload js"
  by (induction rule: list_all2_induct) (simp_all add: same_job_def)

lemma parked_step:
  assumes "goal_step u jt lower False s t" "parked u fresh m s" "revision u m = Some fresh"
  shows "parked u fresh m t \<and> gs_log t = gs_log s"
  using assms(1)
proof cases
  case (job_moves js)
  have same: "jb_payload ` set js = jb_payload ` set (cv_jobs (gs_conversation s))"
    unfolding set_map [symmetric] moved_payloads [OF job_moves(2)] ..
  have "\<forall>p \<in> jb_payload ` set (cv_jobs (gs_conversation s)). uuid_at u p revision_path \<noteq> Some fresh"
    using assms(2) by (simp add: parked_def)
  then have "\<forall>p \<in> jb_payload ` set js. uuid_at u p revision_path \<noteq> Some fresh" unfolding same .
  with assms(2) show ?thesis unfolding job_moves(1) by (simp add: parked_def)
next
  case (update now fresh' job_id payload metadata content cv)
  have "load_bound_goal u now job_id payload (gs_conversation s) = None"
    by (rule unbound_None) (use assms(2,3) in \<open>auto simp: parked_def\<close>)
  with update show ?thesis by (simp add: apply_runtime_update_def)
next
  case (settle now at_time job_id payload outcome)
  have "load_bound_goal u now job_id payload (gs_conversation s) = None"
    by (rule unbound_None) (use assms(2,3) in \<open>auto simp: parked_def\<close>)
  with settle assms(2) show ?thesis by (simp add: settle_job_def)
next
  case (claimed at_time token source w cv)
  have d: "distinct (map wk_source (cv_wakeups (gs_conversation s)))" using assms(2) by (simp add: parked_def)
  note c = claim_same_wakes [OF claimed(2) d]
  have "wk_revision w \<noteq> fresh" using c(2) assms(2) by (auto simp: parked_def wake_key_def)
  moreover have "parked u fresh m (s\<lparr>gs_conversation := cv\<rparr>)"
    by (rule parked_wakes [OF assms(2) c(1)]) (use c(3,4) assms(2) in \<open>simp_all add: parked_def\<close>)
  ultimately show ?thesis using claimed(1) by (auto simp: parked_def)
next
  case (prepared w r replies active now at_time waiting cid request cv)
  have ne: "wk_revision w \<noteq> fresh" using assms(2) prepared(2) by (auto simp: parked_def)
  have other: "revision u (cv_metadata (gs_conversation s)) \<noteq> Some (wk_revision w)" using assms(2,3) ne by (simp add: parked_def)
  from prepare_other [OF other, of jt lower replies active now at_time waiting cid] prepared(3) have cm: "cv_metadata cv = cv_metadata (gs_conversation s)"
    by simp
  from prepare_same_wakes [of "gs_conversation s" u jt lower replies active now at_time waiting cid w] prepared(3)
  have sw: "same_wakes (gs_conversation s) cv" by simp
  from prepare_jobs [of u jt lower replies active now at_time waiting cid w "gs_conversation s"] prepared(3)
  have sj: "cv_jobs cv = cv_jobs (gs_conversation s)" by simp
  have "parked u fresh m (s\<lparr>gs_conversation := cv\<rparr>)"
    by (rule parked_wakes [OF assms(2) sw _ sj]) (use cm assms(2) in \<open>simp add: parked_def\<close>)
  then show ?thesis using prepared(1) ne by (auto simp: parked_def)
next
  case (woken w request m' token req now at_time fresh' waiting req' cv js run)
  have "False"
    using woken(5,7) assms(2,3)
    by (auto simp: bind_dispatch_def bind_wakeup_def parked_def find_claim_def find_Some_iff split: option.splits if_splits)
  then show ?thesis ..
next
  case (dispatched req m' now at_time fresh' waiting ctx req' cv js)
  have "\<not> (\<exists>owner parent stamp. bind_checkpoint u owner parent (gs_conversation s) = Some stamp)"
    using bind_checkpoint_revision [of u _ _ "gs_conversation s"] assms(2,3) by (fastforce simp: parked_def)
  with dispatched(2,5,7) have r: "req' = req" "cv = gs_conversation s"
    by (auto simp: bind_dispatch_def split: option.splits if_splits)
  have "uuid_at u (jb_payload j) revision_path = None" if "j \<in> set js" for j
    using uuid_at_carried [of "dr_metadata req'" j u] dispatched(3,6) that
    by (auto simp: r list_all_iff strip_job_claims_def uuid_at_def pointer_str_def)
  with assms(2) r show ?thesis by (auto simp: dispatched(1) parked_def)
next
  case (repeated wake run)
  show ?thesis
    unfolding repeated by (intro conjI parked_wakes [OF assms(2) same_wakes_record]) (use assms(2) in \<open>simp_all add: parked_def\<close>)
next
  case (finished w request now at_time r)
  have ne: "wk_revision w \<noteq> fresh" using assms(2) finished(2) by (auto simp: parked_def)
  have other: "revision u (cv_metadata (gs_conversation s)) \<noteq> Some (wk_revision w)" using assms(2,3) ne by (simp add: parked_def)
  show ?thesis
    unfolding finished(1)
    by (intro conjI parked_wakes [OF assms(2) finish_same_wakes])
      (use finish_other [OF other] assms(2) in \<open>simp_all add: parked_def\<close>)
qed simp_all

definition unused_revision :: "uuid_text \<Rightarrow> uuid \<Rightarrow> goal_system \<Rightarrow> bool" where
  "unused_revision u fresh s \<longleftrightarrow>
     list_all (\<lambda>w. wk_revision w \<noteq> fresh) (cv_wakeups (gs_conversation s))
     \<and> list_all (\<lambda>(w, _). wk_revision w \<noteq> fresh) (gs_in_flight s)
     \<and> list_all (\<lambda>j. uuid_at u (jb_payload j) revision_path \<noteq> Some fresh) (cv_jobs (gs_conversation s))"

lemma pause_simps:
  assumes "pause_for_user_stop u now fresh actor cv = Some cv'"
  shows "cv_jobs cv' = cv_jobs cv" "cv_wakeups cv' = cv_wakeups cv"
    "(\<And>x. ut_parse u (ut_show u x) = Some x) \<Longrightarrow> revision u (cv_metadata cv') = Some fresh"
    "\<And>later g. goal_of later (cv_metadata cv') = Some g \<Longrightarrow> g_status g = Paused"
proof -
  from assms obtain g where g: "cv' = persist_goal
      (obj_insert ''_goalController'' (controller_stamp u fresh (Some actor)) (cv_metadata cv))
      (Some (g\<lparr>g_status := Paused, g_updated_at := now, g_updated_by := Some (ut_show u actor)\<rparr>)) cv"
    by (auto simp: pause_for_user_stop_def split: option.splits if_splits)
  show "cv_jobs cv' = cv_jobs cv" "cv_wakeups cv' = cv_wakeups cv" by (simp_all add: g persist_goal_def)
  show "revision u (cv_metadata cv') = Some fresh" if "\<And>x. ut_parse u (ut_show u x) = Some x"
  proof -
    have "revision u (cv_metadata cv') = revision u (obj_insert ''_goalController'' (controller_stamp u fresh (Some actor)) (cv_metadata cv))"
      by (simp add: g persist_goal_def revision_def uuid_at_def pointer_str_def)
    then show ?thesis by (simp only: revision_stamp [OF that])
  qed
  show "g_status g' = Paused" if "goal_of later (cv_metadata cv') = Some g'" for later g'
    using goal_of_paused [of later _ _ g'] that by (auto simp: g persist_goal_def)
qed

end
