(* ===== verification/Goal_Turns.thy ===== *)
theory Goal_Turns
  imports Goal_Steps
begin

text \<open>
  Every automatic turn of a goal has a number above all turns under its revision, so that they run out. The
  invariant ties each saved request to the jobs it may follow, and the log to the jobs that were dispatched.
\<close>

section \<open>Counting turns\<close>

definition rev_text :: "(json \<Rightarrow> string) \<Rightarrow> job \<Rightarrow> string option" where
  "rev_text json_text j = path_text json_text (jb_payload j) revision_path"

definition job_key :: "job \<Rightarrow> uuid \<times> json" where
  "job_key j = (jb_id j, jb_payload j)"

definition wake_core :: "wakeup \<Rightarrow> (uuid \<times> uuid \<times> uuid) \<times> json option" where
  "wake_core w = (wake_key w, wk_request w)"

definition wake_ok :: "uuid_text \<Rightarrow> (json \<Rightarrow> string) \<Rightarrow> conversation \<Rightarrow> (uuid \<times> uuid \<times> uuid) \<times> json option \<Rightarrow> bool" where
  "wake_ok u jt cv c \<longleftrightarrow>
     (case c of ((source, r, _), request) \<Rightarrow>
        source \<in> jb_id ` set (cv_jobs cv)
        \<and> (\<forall>req. request = Some req \<longrightarrow> request_turn req \<in> {1..100}
             \<and> (is_current_source u jt cv source r \<longrightarrow>
                (\<forall>j \<in> set (cv_jobs cv). rev_text jt j = Some (ut_show u r) \<longrightarrow> job_turn j < request_turn req))))"

definition flight_ok :: "conversation \<Rightarrow> wakeup \<times> json option \<Rightarrow> bool" where
  "flight_ok cv p \<longleftrightarrow>
     (\<exists>c \<in> wake_core ` set (cv_wakeups cv). fst c = wake_key (fst p) \<and> (\<forall>req. snd p = Some req \<longrightarrow> snd c = Some req))"

definition log_ok :: "uuid_text \<Rightarrow> (json \<Rightarrow> string) \<Rightarrow> conversation \<Rightarrow> (uuid \<times> nat) list \<Rightarrow> bool" where
  "log_ok u jt cv lg \<longleftrightarrow>
     (\<forall>(r, t) \<in> set lg. t \<in> {1..100} \<and> (\<exists>j \<in> set (cv_jobs cv). rev_text jt j = Some (ut_show u r) \<and> t \<le> job_turn j))
     \<and> sorted_wrt (\<lambda>(r, t) (r', t'). r = r' \<longrightarrow> t' < t) lg"

definition turns_inv :: "uuid_text \<Rightarrow> (json \<Rightarrow> string) \<Rightarrow> goal_system \<Rightarrow> bool" where
  "turns_inv u jt s \<longleftrightarrow>
     distinct (map wk_source (cv_wakeups (gs_conversation s)))
     \<and> (\<forall>c \<in> wake_core ` set (cv_wakeups (gs_conversation s)). wake_ok u jt (gs_conversation s) c)
     \<and> (\<forall>p \<in> set (gs_in_flight s). flight_ok (gs_conversation s) p)
     \<and> log_ok u jt (gs_conversation s) (gs_log s)"

lemma is_current_keys:
  assumes "map job_key (cv_jobs cv') = map job_key (cv_jobs cv)"
  shows "is_current_source u jt cv' source r = is_current_source u jt cv source r"
proof -
  define P where "P = (\<lambda>(i :: uuid, p). path_text jt p revision_path \<noteq> Some (ut_show u r))"
  have k: "is_current_source u jt c source r \<longleftrightarrow> list_all P (drop 1 (dropWhile (\<lambda>(i, _). i \<noteq> source) (map job_key (cv_jobs c))))" for c
    by (simp add: is_current_source_def P_def dropWhile_map drop_map list.pred_map o_def job_key_def)
  show ?thesis unfolding k assms ..
qed

lemma keys_transfer:
  assumes "map job_key (cv_jobs cv') = map job_key (cv_jobs cv)"
  shows "(\<forall>j \<in> set (cv_jobs cv'). Q (jb_id j) (jb_payload j)) \<longleftrightarrow> (\<forall>j \<in> set (cv_jobs cv). Q (jb_id j) (jb_payload j))"
    "(\<exists>j \<in> set (cv_jobs cv'). Q (jb_id j) (jb_payload j)) \<longleftrightarrow> (\<exists>j \<in> set (cv_jobs cv). Q (jb_id j) (jb_payload j))"
    "jb_id ` set (cv_jobs cv') = jb_id ` set (cv_jobs cv)"
proof -
  have k: "(\<forall>j \<in> set js. Q (jb_id j) (jb_payload j)) \<longleftrightarrow> list_all (\<lambda>(i, p). Q i p) (map job_key js)"
    "(\<exists>j \<in> set js. Q (jb_id j) (jb_payload j)) \<longleftrightarrow> list_ex (\<lambda>(i, p). Q i p) (map job_key js)"
    "jb_id ` set js = set (map fst (map job_key js))" for js
    by (auto simp: list_all_iff list_ex_iff job_key_def)
  show "(\<forall>j \<in> set (cv_jobs cv'). Q (jb_id j) (jb_payload j)) \<longleftrightarrow> (\<forall>j \<in> set (cv_jobs cv). Q (jb_id j) (jb_payload j))"
    unfolding k(1) assms ..
  show "(\<exists>j \<in> set (cv_jobs cv'). Q (jb_id j) (jb_payload j)) \<longleftrightarrow> (\<exists>j \<in> set (cv_jobs cv). Q (jb_id j) (jb_payload j))"
    unfolding k(2) assms ..
  show "jb_id ` set (cv_jobs cv') = jb_id ` set (cv_jobs cv)" unfolding k(3) assms ..
qed

lemma ok_keys:
  assumes "map job_key (cv_jobs cv') = map job_key (cv_jobs cv)"
  shows "wake_ok u jt cv' = wake_ok u jt cv" "log_ok u jt cv' = log_ok u jt cv"
proof -
  have ex: "(\<exists>j \<in> set (cv_jobs cv'). rev_text jt j = x \<and> t \<le> job_turn j) = (\<exists>j \<in> set (cv_jobs cv). rev_text jt j = x \<and> t \<le> job_turn j)" for x t
    unfolding rev_text_def job_turn_def by (rule keys_transfer(2) [OF assms])
  show "log_ok u jt cv' = log_ok u jt cv" by (simp add: fun_eq_iff log_ok_def ex)
  have all: "(\<forall>j \<in> set (cv_jobs cv'). rev_text jt j = x \<longrightarrow> job_turn j < t) = (\<forall>j \<in> set (cv_jobs cv). rev_text jt j = x \<longrightarrow> job_turn j < t)" for x t
    unfolding rev_text_def job_turn_def by (rule keys_transfer(1) [OF assms])
  show "wake_ok u jt cv' = wake_ok u jt cv"
    by (simp add: fun_eq_iff wake_ok_def all is_current_keys [OF assms] keys_transfer(3) [OF assms])
qed

lemma inv_keys:
  assumes "turns_inv u jt s" "map job_key (cv_jobs cv) = map job_key (cv_jobs (gs_conversation s))"
    "map wake_core (cv_wakeups cv) = map wake_core (cv_wakeups (gs_conversation s))"
    "\<forall>p \<in> set fl. p \<in> set (gs_in_flight s) \<or> flight_ok (gs_conversation s) p"
  shows "turns_inv u jt (s\<lparr>gs_conversation := cv, gs_in_flight := fl\<rparr>)"
proof -
  have core: "wake_core ` set (cv_wakeups cv) = wake_core ` set (cv_wakeups (gs_conversation s))"
    unfolding set_map [symmetric] assms(3) ..
  have src: "map wk_source ws = map (\<lambda>c. fst (fst c)) (map wake_core ws)" for ws by (simp add: wake_core_def wake_key_def)
  have "map wk_source (cv_wakeups cv) = map wk_source (cv_wakeups (gs_conversation s))" unfolding src assms(3) ..
  moreover have "flight_ok cv p \<longleftrightarrow> flight_ok (gs_conversation s) p" for p unfolding flight_ok_def core ..
  ultimately show ?thesis using assms(1,4) ok_keys [OF assms(2)] by (auto simp: turns_inv_def core)
qed

lemma is_current_append:
  assumes "source \<in> jb_id ` set (cv_jobs cv)"
  shows "is_current_source u jt (insert_jobs js cv) source r \<longleftrightarrow>
    is_current_source u jt cv source r \<and> (\<forall>j \<in> set js. rev_text jt j \<noteq> Some (ut_show u r))"
proof -
  from assms obtain j where j: "j \<in> set (cv_jobs cv)" "jb_id j = source" by auto
  have d: "dropWhile (\<lambda>j. jb_id j \<noteq> source) (cv_jobs cv @ js) = dropWhile (\<lambda>j. jb_id j \<noteq> source) (cv_jobs cv) @ js"
    by (rule dropWhile_append1 [OF j(1)]) (simp add: j(2))
  moreover have "dropWhile (\<lambda>j. jb_id j \<noteq> source) (cv_jobs cv) \<noteq> []" using assms by (auto simp: dropWhile_eq_Nil_conv)
  ultimately have "drop 1 (dropWhile (\<lambda>j. jb_id j \<noteq> source) (cv_jobs cv @ js)) = drop 1 (dropWhile (\<lambda>j. jb_id j \<noteq> source) (cv_jobs cv)) @ js"
    by (cases "dropWhile (\<lambda>j. jb_id j \<noteq> source) (cv_jobs cv)") simp_all
  then show ?thesis by (simp add: is_current_source_def insert_jobs_def list_all_iff rev_text_def ball_Un)
qed

lemma wake_ok_append: "wake_ok u jt cv c \<Longrightarrow> wake_ok u jt (insert_jobs js cv) c"
  by (auto simp: wake_ok_def is_current_append split: prod.splits)

lemma log_ok_append: "log_ok u jt cv lg \<Longrightarrow> log_ok u jt (insert_jobs js cv) lg"
  by (fastforce simp: log_ok_def)

lemma inv_insert:
  assumes "turns_inv u jt s"
  shows "turns_inv u jt (s\<lparr>gs_conversation := insert_jobs js (gs_conversation s)\<rparr>)"
  using assms wake_ok_append log_ok_append by (auto simp: turns_inv_def flight_ok_def)

section \<open>Preparing a request\<close>

lemma core_update:
  "(\<And>w. P w \<Longrightarrow> wake_core (f w) = wake_core w) \<Longrightarrow>
     map wake_core (cv_wakeups (update_wakeups P f cv)) = map wake_core (cv_wakeups cv)"
  by (simp add: update_wakeups_def)

lemma core_stop: "map wake_core (cv_wakeups (stop_wakeup source reason cv)) = map wake_core (cv_wakeups cv)"
  unfolding stop_wakeup_def by (rule core_update) (simp add: wake_core_def wake_key_def)

lemma core_record: "map wake_core (cv_wakeups (record_dispatch wake run cv)) = map wake_core (cv_wakeups cv)"
  unfolding record_dispatch_def by (auto split: option.split intro!: core_update simp: wake_core_def wake_key_def)

lemma core_finish: "map wake_core (cv_wakeups (finish_wakeup u now at_time wake r cv)) = map wake_core (cv_wakeups cv)"
  unfolding finish_wakeup_def Let_def
  by (auto split: prod.split intro!: core_update simp: wake_core_def wake_key_def)

lemma core_claim:
  assumes "claim at_time token source cv = (Some w, cv')" "distinct (map wk_source (cv_wakeups cv))"
  shows "map wake_core (cv_wakeups cv') = map wake_core (cv_wakeups cv)"
proof -
  have zip: "map wake_core ws = zip (map wake_key ws) (map wk_request ws)" for ws by (induction ws) (simp_all add: wake_core_def)
  show ?thesis unfolding zip using claim_same_wakes(1,5) [OF assms] by (simp add: same_wakes_def)
qed

lemma foldl_max: "(m :: nat) \<le> foldl max m xs" "x \<in> set xs \<Longrightarrow> x \<le> foldl max m xs"
  by (induction xs arbitrary: m) (auto intro: order_trans [OF max.cobounded1] order_trans [OF max.cobounded2])

lemma turn_count_above:
  assumes "j \<in> set (cv_jobs cv)" "rev_text jt j = Some (ut_show u r)"
  shows "job_turn j \<le> turn_count u jt g r cv"
  unfolding turn_count_def
  by (rule foldl_max(2)) (use assms in \<open>auto simp: of_goal_def rev_text_def\<close>)

lemma decide_turn: "decide_continuation lower g n recent = Continue m warning \<Longrightarrow> m = n + 1 \<and> n < 100"
  by (auto simp: decide_continuation_def max_continuations_def split: if_splits stagnation.splits)

lemma request_turn_of:
  "request_turn (continuation_request u cid source prompt (next_metadata u g n source source_id settings) sj target) = min 100 n"
  by (simp add: request_turn_def continuation_request_def next_metadata_def obj_get_of_list)

text \<open>Preparing changes no row but to put a request with the next turn where there was none.\<close>

lemma prepare_cases:
  assumes "prepare_request u jt lower replies active now at_time waiting cid wake cv = (request, cv')"
  obtains (same) "map wake_core (cv_wakeups cv') = map wake_core (cv_wakeups cv)" "request = None"
  | (saved) w req where "cv' = cv" "request = Some req" "w \<in> set (cv_wakeups cv)" "wk_source w = wk_source wake" "wk_request w = Some req"
  | (fresh) w req where "request = Some req" "w \<in> set (cv_wakeups cv)" "wk_source w = wk_source wake"
      "wk_claim w = wk_claim wake" "wk_request w = None"
      "cv' = update_wakeups (\<lambda>w. wk_source w = wk_source wake \<and> wk_claim w = wk_claim wake) (\<lambda>w. w\<lparr>wk_request := Some req\<rparr>) cv"
      "request_turn req \<in> {1..100}"
      "\<forall>j \<in> set (cv_jobs cv). rev_text jt j = Some (ut_show u (wk_revision wake)) \<longrightarrow> job_turn j < request_turn req"
proof -
  let ?mine = "\<lambda>w. wk_source w = wk_source wake \<and> wk_claim w = wk_claim wake \<and> wk_status w = WClaimed"
  show thesis
  proof (cases "find ?mine (cv_wakeups cv)")
    case None
    with assms same show thesis by (simp add: prepare_request_def)
  next
    case (Some w)
    then have w: "w \<in> set (cv_wakeups cv)" "wk_source w = wk_source wake" "wk_claim w = wk_claim wake" by (auto simp: find_Some_iff)
    show thesis
    proof (cases "\<exists>req. request = Some req")
      case False
      then have "request = None" by (cases request) auto
      moreover have "map wake_core (cv_wakeups cv') = map wake_core (cv_wakeups cv)"
        using assms \<open>request = None\<close>
        by (auto simp: prepare_request_def Let_def core_stop wake_core_def wake_key_def
            split: option.splits if_splits continuation_decision.splits intro!: core_update)
      ultimately show thesis using same by blast
    next
      case True
      then obtain req where req: "request = Some req" by blast
      show thesis
      proof (cases "wk_request w")
        case (Some old)
        with assms req \<open>find ?mine (cv_wakeups cv) = Some w\<close> have "cv' = cv" "old = req"
          by (auto simp: prepare_request_def Let_def split: option.splits if_splits)
        with saved [of req w] req w Some show thesis by blast
      next
        case None
        have "\<exists>g recent warning n. decide_continuation lower g (turn_count u jt g (wk_revision wake) cv) recent = Continue n warning
            \<and> request_turn req = min 100 n
            \<and> cv' = update_wakeups (\<lambda>w. wk_source w = wk_source wake \<and> wk_claim w = wk_claim wake) (\<lambda>w. w\<lparr>wk_request := Some req\<rparr>) cv"
          using assms req None \<open>find ?mine (cv_wakeups cv) = Some w\<close>
          by (auto simp: prepare_request_def Let_def request_turn_of split: option.splits if_splits continuation_decision.splits) blast+
        then obtain g recent warning n where
          n: "decide_continuation lower g (turn_count u jt g (wk_revision wake) cv) recent = Continue n warning"
          and r: "request_turn req = min 100 n"
          and cv': "cv' = update_wakeups (\<lambda>w. wk_source w = wk_source wake \<and> wk_claim w = wk_claim wake) (\<lambda>w. w\<lparr>wk_request := Some req\<rparr>) cv"
          by blast
        have t: "request_turn req = turn_count u jt g (wk_revision wake) cv + 1" "request_turn req \<in> {1..100}"
          using decide_turn [OF n] by (simp_all add: r)
        have "\<forall>j \<in> set (cv_jobs cv). rev_text jt j = Some (ut_show u (wk_revision wake)) \<longrightarrow> job_turn j < request_turn req"
          unfolding t(1) using turn_count_above by (metis Suc_eq_plus1 le_imp_less_Suc)
        then show thesis by (rule fresh [OF req w None cv' t(2)])
      qed
    qed
  qed
qed

lemma inv_conversation:
  assumes "turns_inv u jt s" "cv_jobs cv = cv_jobs (gs_conversation s)" "map wake_core (cv_wakeups cv) = map wake_core (cv_wakeups (gs_conversation s))"
  shows "turns_inv u jt (s\<lparr>gs_conversation := cv\<rparr>)"
  using inv_keys [OF assms(1) _ assms(3), of "gs_in_flight s"] assms(2) by (cases s) simp

lemma inv_flight:
  assumes "turns_inv u jt s" "flight_ok (gs_conversation s) p"
  shows "turns_inv u jt (s\<lparr>gs_in_flight := p # gs_in_flight s\<rparr>)"
  using assms by (simp add: turns_inv_def)

lemma flight_row:
  assumes "turns_inv u jt s" "(w, r) \<in> set (gs_in_flight s)" "x \<in> set (cv_wakeups (gs_conversation s))" "wk_source x = wk_source w"
  shows "wake_key x = wake_key w" "r = Some req \<Longrightarrow> wk_request x = Some req"
proof -
  from assms(1,2) have "flight_ok (gs_conversation s) (w, r)" by (simp add: turns_inv_def)
  then obtain y where y: "y \<in> set (cv_wakeups (gs_conversation s))" "wake_key y = wake_key w" "\<And>req. r = Some req \<Longrightarrow> wk_request y = Some req"
    by (auto simp: flight_ok_def wake_core_def)
  from y(2) assms(4) have "wk_source y = wk_source x" by (simp add: wake_key_def)
  with y(1) assms(1,3) have "y = x" by (auto simp: turns_inv_def distinct_map inj_on_def)
  with y show "wake_key x = wake_key w" "r = Some req \<Longrightarrow> wk_request x = Some req" by auto
qed

lemma wake_key_request [simp]: "wake_key (w\<lparr>wk_request := r\<rparr>) = wake_key w"
  by (simp add: wake_key_def)

lemma persist_revision: "revision u (cv_metadata (persist_goal m g cv)) = revision u m"
  by (simp add: persist_goal_def revision_def uuid_at_def pointer_str_def)

lemma settle_cases:
  obtains (same) m where "settle_job u now at_time job_id payload outcome cv = cv\<lparr>cv_metadata := m\<rparr>" "revision u m = revision u (cv_metadata cv)"
  | (woke) r owner where "settle_job u now at_time job_id payload outcome cv = cv\<lparr>cv_wakeups := cv_wakeups cv @ [new_wakeup at_time job_id r owner]\<rparr>"
      "job_id \<in> jb_id ` set (cv_jobs cv)" "job_id \<notin> wk_source ` set (cv_wakeups cv)" "revision u (cv_metadata cv) = Some r"
proof -
  let ?s = "settle_job u now at_time job_id payload outcome cv"
  let ?same = "\<lambda>c. \<exists>m. c = cv\<lparr>cv_metadata := m\<rparr> \<and> revision u m = revision u (cv_metadata cv)"
  have id: "?same cv" by (rule exI [of _ "cv_metadata cv"]) simp
  show thesis
  proof (cases "load_bound_goal u now job_id payload cv")
    case None
    then have "?s = cv" by (simp add: settle_job_def)
    with id same show thesis by metis
  next
    case (Some b)
    then have j: "job_id \<in> jb_id ` set (cv_jobs cv)" and r: "revision u (cv_metadata cv) = Some (bg_revision b)"
      by (auto simp: load_bound_goal_def Let_def split: option.splits prod.splits if_splits dest!: find_job_in)
    have m: "bg_metadata b = cv_metadata cv"
      using Some by (auto simp: load_bound_goal_def Let_def split: option.splits prod.splits if_splits)
    have "?same ?s \<or>
        (?s = cv\<lparr>cv_wakeups := cv_wakeups cv @ [new_wakeup at_time job_id (bg_revision b) (bg_owner b)]\<rparr>
          \<and> job_id \<notin> wk_source ` set (cv_wakeups cv))"
    proof (cases "bg_goal b")
      case None
      with Some id show ?thesis by (simp add: settle_job_def)
    next
      case (Some g)
      let ?woke = "outcome = ''succeeded'' \<and> bg_job_status b = ''completed''"
      show ?thesis
      proof (cases "g_status g = Active \<and> ?woke \<and> \<not> bg_planning_receipt b \<and> job_id \<notin> wk_source ` set (cv_wakeups cv)")
        case True
        with Some \<open>load_bound_goal u now job_id payload cv = Some b\<close> show ?thesis
          by (auto simp: settle_job_def)
      next
        case False
        with Some \<open>load_bound_goal u now job_id payload cv = Some b\<close>
        have "?s = cv \<or> (\<exists>gg. ?s = persist_goal (cv_metadata cv) gg cv)"
          by (simp add: settle_job_def m) blast
        then show ?thesis
        proof
          assume "?s = cv"
          with id show ?thesis by simp
        next
          assume "\<exists>gg. ?s = persist_goal (cv_metadata cv) gg cv"
          then obtain gg where "?s = persist_goal (cv_metadata cv) gg cv" ..
          then show ?thesis using persist_revision [of u "cv_metadata cv" gg cv] unfolding persist_goal_def by auto
        qed
      qed
    qed
    then show thesis using same woke [OF _ j _ r] by blast
  qed
qed

lemma inv_wake:
  assumes "turns_inv u jt s" "job_id \<in> jb_id ` set (cv_jobs (gs_conversation s))" "job_id \<notin> wk_source ` set (cv_wakeups (gs_conversation s))"
  shows "turns_inv u jt (s\<lparr>gs_conversation := (gs_conversation s)\<lparr>cv_wakeups := cv_wakeups (gs_conversation s) @ [new_wakeup at_time job_id r owner]\<rparr>\<rparr>)"
proof -
  let ?cv = "(gs_conversation s)\<lparr>cv_wakeups := cv_wakeups (gs_conversation s) @ [new_wakeup at_time job_id r owner]\<rparr>"
  have k: "map job_key (cv_jobs ?cv) = map job_key (cv_jobs (gs_conversation s))" by simp
  have "wake_ok u jt (gs_conversation s) (wake_core (new_wakeup at_time job_id r owner))"
    using assms(2) by (simp add: wake_ok_def wake_core_def wake_key_def new_wakeup_def)
  with assms show ?thesis
    unfolding turns_inv_def using ok_keys [OF k] by (auto simp: flight_ok_def new_wakeup_def)
qed

lemma inv_prepared:
  assumes "turns_inv u jt s" "(w, r) \<in> set (gs_in_flight s)"
    "prepare_request u jt lower replies active now at_time waiting cid w (gs_conversation s) = (request, cv)"
  shows "turns_inv u jt (s\<lparr>gs_conversation := cv, gs_in_flight := (w, request) # gs_in_flight s\<rparr>)"
proof -
  have jobs: "cv_jobs cv = cv_jobs (gs_conversation s)"
    using prepare_jobs [of u jt lower replies active now at_time waiting cid w "gs_conversation s"] assms(3) by simp
  then have k: "map job_key (cv_jobs cv) = map job_key (cv_jobs (gs_conversation s))" by simp
  from assms(1,2) have fw: "flight_ok (gs_conversation s) (w, r)" by (simp add: turns_inv_def)
  show ?thesis
    using assms(3)
  proof (cases rule: prepare_cases)
    case same
    then have "flight_ok (gs_conversation s) (w, request)" using fw by (auto simp: flight_ok_def)
    with inv_keys [OF assms(1) k same(1), of "(w, request) # gs_in_flight s"] show ?thesis by auto
  next
    case (saved x req)
    note row = flight_row(1) [OF assms(1,2) saved(3,4)]
    have "flight_ok (gs_conversation s) (w, request)"
      using saved(2,3,5) row by (auto simp: flight_ok_def wake_core_def intro!: bexI [of _ x])
    with inv_flight [OF assms(1)] show ?thesis by (simp add: saved(1))
  next
    case (fresh x req)
    let ?cv = "gs_conversation s"
    note row = flight_row(1) [OF assms(1,2) fresh(2,3)]
    let ?f = "\<lambda>y. if wk_source y = wk_source w \<and> wk_claim y = wk_claim w then y\<lparr>wk_request := Some req\<rparr> else y"
    have only: "y = x" if "y \<in> set (cv_wakeups ?cv)" "wk_source y = wk_source w" for y
      using that fresh(2,3) assms(1) by (auto simp: turns_inv_def distinct_map inj_on_def)
    have ws: "cv_wakeups cv = map ?f (cv_wakeups ?cv)" by (simp add: fresh(6) update_wakeups_def)
    have core: "wake_core (?f y) = (if y = x then (wake_key w, Some req) else wake_core y)" if "y \<in> set (cv_wakeups ?cv)" for y
    proof (cases "y = x")
      case True
      with fresh(3,4) row show ?thesis by (simp add: wake_core_def)
    next
      case False
      with only [OF that] have "wk_source y \<noteq> wk_source w" by blast
      with False show ?thesis by simp
    qed
    have "map wk_source (cv_wakeups cv) = map wk_source (cv_wakeups ?cv)" by (simp add: ws)
    moreover have "wake_ok u jt cv c" if "c \<in> wake_core ` set (cv_wakeups cv)" for c
    proof -
      from that obtain y where y: "y \<in> set (cv_wakeups ?cv)" "c = wake_core (?f y)" by (auto simp: ws)
      from y(1) assms(1) have ok: "wake_ok u jt ?cv (wake_core y)" by (auto simp: turns_inv_def)
      show ?thesis
      proof (cases "y = x")
        case True
        with core [OF y(1)] y(2) have c: "c = (wake_key w, Some req)" by simp
        from ok row True have "wk_source w \<in> jb_id ` set (cv_jobs ?cv)" by (simp add: wake_ok_def wake_core_def wake_key_def)
        with fresh(7,8) show ?thesis unfolding ok_keys(1) [OF k] c by (simp add: wake_ok_def wake_key_def)
      next
        case False
        with core [OF y(1)] y(2) ok show ?thesis unfolding ok_keys(1) [OF k] by simp
      qed
    qed
    moreover have "flight_ok cv p" if "p = (w, Some req) \<or> p \<in> set (gs_in_flight s)" for p
    proof -
      have "(wake_key w, Some req) \<in> wake_core ` set (cv_wakeups cv)"
      proof -
        have "?f x \<in> set (cv_wakeups cv)" unfolding ws set_map by (rule imageI) (rule fresh(2))
        then have "wake_core (?f x) \<in> wake_core ` set (cv_wakeups cv)" by (rule imageI)
        then show ?thesis using core [OF fresh(2)] by simp
      qed
      note new = this
      show ?thesis
      proof (cases "p = (w, Some req)")
        case True
        show ?thesis unfolding flight_ok_def by (rule bexI [OF _ new]) (simp add: True)
      next
        case False
        with that assms(1) have "flight_ok ?cv p" by (auto simp: turns_inv_def)
        then obtain y where y: "y \<in> set (cv_wakeups ?cv)" "wake_key y = wake_key (fst p)" "\<And>q. snd p = Some q \<Longrightarrow> wk_request y = Some q"
          by (auto simp: flight_ok_def wake_core_def)
        show ?thesis
        proof (cases "y = x")
          case True
          with y(3) fresh(5) have "snd p = None" by (cases "snd p") auto
          with y(2) row True show ?thesis unfolding flight_ok_def by (intro bexI [OF _ new]) simp
        next
          case False
          have "wake_core (?f y) \<in> wake_core ` set (cv_wakeups cv)" unfolding ws set_map by (intro imageI y(1))
          with core [OF y(1)] False have "wake_core y \<in> wake_core ` set (cv_wakeups cv)" by simp
          with y(2,3) show ?thesis unfolding flight_ok_def by (intro bexI [of _ "wake_core y"]) (simp_all add: wake_core_def)
        qed
      qed
    qed
    ultimately show ?thesis
      using assms(1) ok_keys(2) [OF k] by (simp add: turns_inv_def fresh(1))
  qed
qed

section \<open>The turns of a run\<close>

lemma client_edit_simps [simp]:
  "cv_jobs (client_edit u fresh patch cv) = cv_jobs cv" "cv_wakeups (client_edit u fresh patch cv) = cv_wakeups cv"
  by (simp_all add: client_edit_def split: json.split)

lemma update_tables:
  assumes "apply_runtime_update u now fresh job_id payload metadata content cv = Some cv'"
  shows "cv_jobs cv' = cv_jobs cv" "cv_wakeups cv' = cv_wakeups cv"
  using assms by (auto simp: apply_runtime_update_def persist_goal_def split: option.splits goal_update.splits if_splits)

lemma bind_tables:
  assumes "bind_dispatch u jt now at_time fresh waiting ctx req cv = Inr (req', cv')"
  shows "cv_jobs cv' = cv_jobs cv" "cv_wakeups cv' = cv_wakeups cv"
  using assms by (auto simp: bind_dispatch_def Let_def split: option.splits if_splits sum.splits)

lemma bind_wakeup_facts:
  assumes "bind_wakeup u jt now at_time waiting owner source token cv = Inr stamp"
  obtains w where "w \<in> set (cv_wakeups cv)" "wk_source w = source" "revision u (cv_metadata cv) = Some (wk_revision w)"
    "is_current_source u jt cv source (wk_revision w)" "stamp = job_stamp u (wk_revision w) owner False"
proof -
  from assms obtain w where f: "find_claim cv source token at_time = Some w"
    and w: "revision u (cv_metadata cv) = Some (wk_revision w)" "is_current_source u jt cv source (wk_revision w)"
      "stamp = job_stamp u (wk_revision w) owner False"
    by (auto simp: bind_wakeup_def split: option.splits if_splits)
  from f have "w \<in> set (cv_wakeups cv)" "wk_source w = source" by (auto simp: find_claim_def find_Some_iff)
  with that w show thesis by blast
qed

lemma carried_turn:
  assumes "carries m j" "obj_get m ''goalContinuation'' = pointer request [''metadata'', ''goalContinuation'']"
  shows "job_turn j = request_turn request"
proof -
  have two: "pointer v (a # b # ks) = (case pointer v [a, b] of Some w \<Rightarrow> pointer w ks | None \<Rightarrow> None)" for v a b ks
    by (simp split: option.split)
  have "pointer (jb_payload j) [''metadata'', ''goalContinuation''] = pointer request [''metadata'', ''goalContinuation'']"
    using assms by (simp add: carries_def)
  then show ?thesis
    unfolding job_turn_def request_turn_def two [of _ "''metadata''" "''goalContinuation''" "[''turn'']"] by simp
qed

lemma carried_revision:
  assumes "carries m j" "obj_get m ''_controllerGoal'' = Some (job_stamp u r owner flag)"
  shows "rev_text jt j = Some (ut_show u r)"
proof -
  have two: "pointer v (a # b # ks) = (case pointer v [a, b] of Some w \<Rightarrow> pointer w ks | None \<Rightarrow> None)" for v a b ks
    by (simp split: option.split)
  have "pointer (jb_payload j) [''metadata'', ''_controllerGoal''] = Some (job_stamp u r owner flag)"
    using assms by (simp add: carries_def)
  then show ?thesis
    unfolding rev_text_def path_text_def two [of _ "''metadata''" "''_controllerGoal''" "[''revision'']"]
    by (simp add: job_stamp_def obj_get_of_list)
qed

lemma bind_dispatch_woken:
  assumes "bind_dispatch u jt now at_time fresh waiting ctx req cv = Inr (req', cv')"
    "dr_goal_wakeup req = Some (source, token)" "rc_user ctx = Some owner"
  obtains stamp where "bind_wakeup u jt now at_time waiting owner source token cv = Inr stamp"
    "req' = bound_request now stamp (cv_metadata cv) req" "cv' = cv"
proof (cases "bind_wakeup u jt now at_time waiting owner source token cv")
  case (Inl e)
  with assms show thesis by (simp add: bind_dispatch_def)
next
  case (Inr stamp)
  then have "bind_dispatch u jt now at_time fresh waiting ctx req cv = Inr (bound_request now stamp (cv_metadata cv) req, cv)"
    by (simp add: bind_dispatch_def assms(2,3))
  then have "(bound_request now stamp (cv_metadata cv) req, cv) = (req', cv')" unfolding assms(1) by simp
  then have "req' = bound_request now stamp (cv_metadata cv) req" "cv' = cv" by blast+
  then show thesis by (rule that [OF Inr])
qed

lemma inv_woken:
  assumes "turns_inv u jt s" "(w, Some request) \<in> set (gs_in_flight s)"
    "obj_get m ''goalContinuation'' = pointer request [''metadata'', ''goalContinuation'']"
    "dr_goal_wakeup req = Some (wk_source w, token)" "dr_metadata req = strip_job_claims m"
    "bind_dispatch u jt now at_time fresh waiting \<lparr>rc_user = Some owner, rc_service_role = a, rc_scoped_claims = b\<rparr> req
       (gs_conversation s) = Inr (req', cv)"
    "js \<noteq> []" "list_all (carries (dr_metadata req')) js"
  shows "turns_inv u jt (s\<lparr>gs_conversation := insert_jobs js cv, gs_log := (wk_revision w, request_turn request) # gs_log s\<rparr>)"
    "revision u (cv_metadata (gs_conversation s)) = Some (wk_revision w)" "cv = gs_conversation s"
proof -
  let ?cv = "gs_conversation s" and ?T = "request_turn request"
  obtain stamp where st: "bind_wakeup u jt now at_time waiting owner (wk_source w) token ?cv = Inr stamp"
    and r: "req' = bound_request now stamp (cv_metadata ?cv) req" "cv = ?cv"
    by (rule bind_dispatch_woken [OF assms(6) assms(4)]) simp
  show "cv = ?cv" by (rule r(2))
  obtain x where x: "x \<in> set (cv_wakeups ?cv)" "wk_source x = wk_source w" and rv: "revision u (cv_metadata ?cv) = Some (wk_revision x)"
    and cur: "is_current_source u jt ?cv (wk_source w) (wk_revision x)" and stamp: "stamp = job_stamp u (wk_revision x) owner False"
    using bind_wakeup_facts [OF st] .
  have row: "wk_revision x = wk_revision w" "wk_request x = Some request"
    using flight_row [OF assms(1,2) x] by (simp_all add: wake_key_def)
  show "revision u (cv_metadata ?cv) = Some (wk_revision w)" using rv row by simp
  have new: "job_turn j = ?T \<and> rev_text jt j = Some (ut_show u (wk_revision w))" if "j \<in> set js" for j
  proof -
    have c: "carries (dr_metadata req') j" using assms(8) that by (simp add: list_all_iff)
    have "obj_get (dr_metadata req') ''goalContinuation'' = obj_get m ''goalContinuation''"
      using assms(5) by (simp add: r(1) bound_request_def strip_job_claims_def Let_def split: option.split)
    with carried_turn [OF c, of request] assms(3) have "job_turn j = ?T" by simp
    moreover have "obj_get (dr_metadata req') ''_controllerGoal'' = Some (job_stamp u (wk_revision w) owner False)"
      using stamp row(1) by (simp add: r(1) bound_request_def Let_def split: option.split)
    ultimately show ?thesis using carried_revision [OF c] by blast
  qed
  have "wake_ok u jt ?cv (wake_core x)" using assms(1) x(1) by (simp add: turns_inv_def)
  then have T: "?T \<in> {1..100}" and above: "\<And>j. j \<in> set (cv_jobs ?cv) \<Longrightarrow> rev_text jt j = Some (ut_show u (wk_revision w)) \<Longrightarrow> job_turn j < ?T"
    using cur row x(2) by (simp_all add: wake_ok_def wake_core_def wake_key_def)
  have old: "turns_inv u jt (s\<lparr>gs_conversation := insert_jobs js ?cv\<rparr>)" by (rule inv_insert [OF assms(1)])
  from assms(7) obtain j where j: "j \<in> set js" by (cases js) auto
  have less: "t < ?T" if "(wk_revision w, t) \<in> set (gs_log s)" for t
  proof -
    from that assms(1) obtain j where "j \<in> set (cv_jobs ?cv)" "rev_text jt j = Some (ut_show u (wk_revision w))" "t \<le> job_turn j"
      by (fastforce simp: turns_inv_def log_ok_def)
    with above show ?thesis by fastforce
  qed
  have "log_ok u jt (insert_jobs js ?cv) ((wk_revision w, ?T) # gs_log s)"
    using old new [OF j] j T less by (auto simp: turns_inv_def log_ok_def)
  with old show "turns_inv u jt (s\<lparr>gs_conversation := insert_jobs js cv, gs_log := (wk_revision w, ?T) # gs_log s\<rparr>)"
    unfolding r(2) by (simp add: turns_inv_def)
qed

lemma step_turns_inv:
  assumes "goal_step u jt lower human s t" "turns_inv u jt s"
  shows "turns_inv u jt t"
  using assms(1)
proof cases
  case (job_moves js)
  have "map job_key js = map job_key (cv_jobs (gs_conversation s))"
    using job_moves(3) by (induction rule: list_all2_induct) (simp_all add: same_job_def job_key_def)
  then show ?thesis
    using inv_keys [OF assms(2), of "(gs_conversation s)\<lparr>cv_jobs := js\<rparr>" "gs_in_flight s"] by (cases s) (simp add: job_moves)
next
  case (update now fresh job_id payload metadata content cv)
  show ?thesis unfolding update by (rule inv_conversation [OF assms(2)]) (use update_tables [OF update(3)] in simp_all)
next
  case (settle now at_time job_id payload outcome)
  show ?thesis
  proof (cases rule: settle_cases [of u now at_time job_id payload outcome "gs_conversation s"])
    case (same m)
    show ?thesis unfolding settle same(1) by (rule inv_conversation [OF assms(2)]) simp_all
  next
    case (woke r owner)
    show ?thesis unfolding settle woke(1) by (rule inv_wake [OF assms(2) woke(2,3)])
  qed
next
  case (claimed at_time token source w cv)
  have d: "distinct (map wk_source (cv_wakeups (gs_conversation s)))" using assms(2) by (simp add: turns_inv_def)
  have k: "map job_key (cv_jobs cv) = map job_key (cv_jobs (gs_conversation s))"
    using claim_same_wakes(4) [OF claimed(3) d] by simp
  have "flight_ok (gs_conversation s) (w, None)"
    using claim_same_wakes(2) [OF claimed(3) d] by (auto simp: flight_ok_def wake_core_def)
  then show ?thesis
    using inv_keys [OF assms(2) k core_claim [OF claimed(3) d], of "(w, None) # gs_in_flight s"] claimed(2) by simp
next
  case (prepared w r replies active now at_time waiting cid request cv)
  then show ?thesis using inv_prepared [OF assms(2)] by simp
next
  case (woken w request m token req now at_time fresh waiting req' cv js run)
  have inv: "turns_inv u jt (s\<lparr>gs_conversation := insert_jobs js cv, gs_log := (wk_revision w, request_turn request) # gs_log s\<rparr>)"
    by (rule inv_woken(1) [OF assms(2) woken(3,4,6,7,8,9,10)])
  show ?thesis
    using inv_conversation [OF inv, of "record_dispatch (dr_goal_wakeup req') run (insert_jobs js cv)"]
    by (cases s) (simp add: woken(2) core_record)
next
  case (dispatched req m now at_time fresh waiting ctx req' cv js)
  have "turns_inv u jt (s\<lparr>gs_conversation := cv\<rparr>)"
    by (rule inv_conversation [OF assms(2)]) (use bind_tables [OF dispatched(5)] in simp_all)
  from inv_insert [OF this, of js] show ?thesis by (simp add: dispatched(1))
next
  case (repeated wake run)
  show ?thesis unfolding repeated by (rule inv_conversation [OF assms(2)]) (simp_all add: core_record)
next
  case (finished w request now at_time r)
  show ?thesis unfolding finished(2) by (rule inv_conversation [OF assms(2)]) (simp_all add: core_finish)
next
  case (edit fresh patch)
  show ?thesis unfolding edit by (rule inv_conversation [OF assms(2)]) simp_all
next
  case (stop now fresh actor cv)
  show ?thesis unfolding stop by (rule inv_conversation [OF assms(2)]) (use pause_simps(1,2) [OF stop(3)] in simp_all)
qed

interpretation goal_machine: invariant_system "\<lambda>s t. \<exists>human. goal_step u jt lower human s t" "turns_inv u jt" for u jt lower
  by unfold_locales (use step_turns_inv in blast)

section \<open>Without people\<close>

lemma bind_automatic:
  assumes "bind_dispatch u jt now at_time fresh waiting ctx req cv = Inr (req', cv')"
    "\<not> (case rc_user ctx of Some owner \<Rightarrow> dr_goal_parent req = None \<and> is_human_turn ctx req owner | None \<Rightarrow> False)"
    "dr_goal_wakeup req = None"
  shows "cv' = cv"
  using assms by (auto simp: bind_dispatch_def split: option.splits if_splits)

lemma block_revision: "revision u (cv_metadata (block_goal u now wake reason cv)) = revision u (cv_metadata cv)"
  by (simp add: block_goal_def revision_def uuid_at_def pointer_str_def split: option.split)

lemma prepare_revision:
  "revision u (cv_metadata (snd (prepare_request u jt lower replies active now at_time waiting cid wake cv))) = revision u (cv_metadata cv)"
  by (simp add: prepare_request_def Let_def block_revision split: option.split continuation_decision.split)

lemma finish_revision: "revision u (cv_metadata (finish_wakeup u now at_time wake r cv)) = revision u (cv_metadata cv)"
  by (simp add: finish_wakeup_def Let_def block_revision split: prod.split)

lemma update_revision:
  assumes "apply_runtime_update u now fresh job_id payload metadata content cv = Some cv'"
  shows "revision u (cv_metadata cv') = revision u (cv_metadata cv)"
proof -
  from assms obtain b gg where b: "load_bound_goal u now job_id payload cv = Some b" and cv': "cv' = persist_goal (bg_metadata b) gg cv"
    by (auto simp: apply_runtime_update_def split: option.splits goal_update.splits if_splits)
  have "bg_metadata b = cv_metadata cv"
    using b by (auto simp: load_bound_goal_def Let_def split: option.splits prod.splits if_splits)
  then show ?thesis by (simp add: cv' persist_revision)
qed

lemma automatic_step:
  assumes "goal_step u jt lower False s t" "turns_inv u jt s"
  shows "revision u (cv_metadata (gs_conversation t)) = revision u (cv_metadata (gs_conversation s))
    \<and> (\<exists>new. gs_log t = new @ gs_log s \<and> (\<forall>(r, _) \<in> set new. revision u (cv_metadata (gs_conversation s)) = Some r))"
  using assms(1)
proof cases
  case (update now fresh job_id payload metadata content cv)
  show ?thesis unfolding update(1) using update_revision [OF update(2)] by simp
next
  case (settle now at_time job_id payload outcome)
  show ?thesis
    unfolding settle by (cases rule: settle_cases [of u now at_time job_id payload outcome "gs_conversation s"]) simp_all
next
  case (claimed at_time token source w cv)
  have d: "distinct (map wk_source (cv_wakeups (gs_conversation s)))" using assms(2) by (simp add: turns_inv_def)
  show ?thesis using claim_same_wakes(3) [OF claimed(2) d] by (simp add: claimed(1))
next
  case (prepared w r replies active now at_time waiting cid request cv)
  show ?thesis
    using prepare_revision [of u jt lower replies active now at_time waiting cid w "gs_conversation s"] prepared(3)
    by (simp add: prepared(1))
next
  case (woken w request m token req now at_time fresh waiting req' cv js run)
  have "revision u (cv_metadata (gs_conversation s)) = Some (wk_revision w)" "cv = gs_conversation s"
    by (rule inv_woken(2,3) [OF assms(2) woken(2,3,5,6,7,8,9)])+
  then show ?thesis unfolding woken(1) by (intro conjI exI [of _ "[(wk_revision w, request_turn request)]"]) simp_all
next
  case (dispatched req m now at_time fresh waiting ctx req' cv js)
  have "cv = gs_conversation s" by (rule bind_automatic [OF dispatched(5) _ dispatched(2)]) (use dispatched(7) in simp)
  then show ?thesis by (simp add: dispatched(1))
next
  case (finished w request now at_time r)
  show ?thesis by (simp add: finished(1) finish_revision)
qed simp_all

lemma automatic_run:
  assumes "reaches (goal_step u jt lower False) s t" "turns_inv u jt s"
  shows "turns_inv u jt t \<and> revision u (cv_metadata (gs_conversation t)) = revision u (cv_metadata (gs_conversation s))
    \<and> (\<exists>new. gs_log t = new @ gs_log s \<and> (\<forall>(r, _) \<in> set new. revision u (cv_metadata (gs_conversation s)) = Some r))"
  using assms
proof (induction rule: reaches.induct)
  case (reaches_refl s)
  then show ?case by simp
next
  case (reaches_step s t v)
  then have inv: "turns_inv u jt t" and r: "revision u (cv_metadata (gs_conversation t)) = revision u (cv_metadata (gs_conversation s))"
    and l: "\<exists>new. gs_log t = new @ gs_log s \<and> (\<forall>(r, _) \<in> set new. revision u (cv_metadata (gs_conversation s)) = Some r)"
    by blast+
  from l obtain new where new: "gs_log t = new @ gs_log s" "\<forall>(r, _) \<in> set new. revision u (cv_metadata (gs_conversation s)) = Some r"
    by blast
  from automatic_step [OF reaches_step.hyps(2) inv] obtain more
    where rv: "revision u (cv_metadata (gs_conversation v)) = revision u (cv_metadata (gs_conversation t))"
      and more: "gs_log v = more @ gs_log t" "\<forall>(r, _) \<in> set more. revision u (cv_metadata (gs_conversation t)) = Some r"
    by blast
  have "gs_log v = (more @ new) @ gs_log s" by (simp add: more(1) new(1))
  moreover have "\<forall>(r, _) \<in> set (more @ new). revision u (cv_metadata (gs_conversation s)) = Some r"
    using more(2) new(2) r by auto
  ultimately show ?case using step_turns_inv [OF reaches_step.hyps(2) inv] rv r by metis
qed

text \<open>The turns logged for one revision are numbered downwards from the newest, within the limit.\<close>

lemma log_numbers:
  assumes "log_ok u jt cv lg"
  shows "sorted_wrt (>) (map snd (filter (\<lambda>(r', _). r' = r) lg))" "length (filter (\<lambda>(r', _). r' = r) lg) \<le> 100"
proof -
  let ?ts = "map snd (filter (\<lambda>(r', _). r' = r) lg)"
  have "sorted_wrt (\<lambda>(r, t) (r', t'). r = r' \<longrightarrow> t' < t) lg" using assms by (simp add: log_ok_def)
  then show s: "sorted_wrt (>) ?ts"
    by (induction lg) (auto split: prod.splits)
  then have "sorted_wrt (<) (rev ?ts)" by (simp add: sorted_wrt_rev)
  then have d: "distinct ?ts" using strict_sorted_iff by (metis distinct_rev)
  have "set ?ts \<subseteq> {1..100}" using assms by (auto simp: log_ok_def)
  then have "card (set ?ts) \<le> card {1..100 :: nat}" by (intro card_mono) simp_all
  with distinct_card [OF d] show "length (filter (\<lambda>(r', _). r' = r) lg) \<le> 100" by simp
qed

end
