(* ===== verification/Goal_Safety.thy ===== *)
theory Goal_Safety
  imports Goal_Turns
begin

text \<open>
  A concrete run of a conversation goal (a job settles, its wakeup is claimed, prepared and dispatched, a person stops
  the goal) and the properties: automatic turns end, and stop sticks.
\<close>

section \<open>A run\<close>

text \<open>UUIDs as decimal numbers, enough for an example.\<close>

definition decimal_uuids :: uuid_text where
  "decimal_uuids = \<lparr>ut_parse = (\<lambda>s. Some (word_of_nat (parse_digits s))), ut_show = (\<lambda>x. show_nat (unat x))\<rparr>"

lemma parse_show_nat: "parse_digits (show_nat n) = n"
proof (induction n rule: show_nat.induct)
  case (1 n)
  have d: "ord_of (digit_char k) = 48 + k" if "k < 10" for k
    using that by (simp add: ord_of_def digit_char_def)
  show ?case
  proof (cases "n < 10")
    case True
    then show ?thesis by (subst show_nat.simps) (simp add: parse_digits_def d)
  next
    case False
    with 1 have "foldl (\<lambda>n c. 10 * n + (ord_of c - 48)) 0 (show_nat (n div 10)) = n div 10" by (simp add: parse_digits_def)
    with False show ?thesis by (subst show_nat.simps) (simp add: parse_digits_def d)
  qed
qed

lemma decimal_uuids_parse [simp]: "ut_parse decimal_uuids (ut_show decimal_uuids x) = Some x"
  by (simp add: decimal_uuids_def parse_show_nat)

lemma decimal_uuids_inj [simp]: "ut_show decimal_uuids x = ut_show decimal_uuids y \<longleftrightarrow> x = y"
  by (metis decimal_uuids_parse option.inject)

definition example_goal :: goal where
  "example_goal = new_goal ''7'' ''Tidy up'' ''t0'' (Some ''2'')"

definition job_with :: "uuid \<Rightarrow> string \<Rightarrow> jobject \<Rightarrow> job" where
  "job_with i status m = \<lparr>jb_id = i, jb_payload = JObj [(''metadata'', JObj m)], jb_owner = Some 2, jb_role = None, jb_status = status,
     jb_planning = False, jb_run = Some 20, jb_project = 3, jb_session = None, jb_target = None\<rparr>"

definition example_job :: job where
  "example_job = job_with 10 ''completed'' [(''_controllerGoal'', job_stamp decimal_uuids 1 2 True), (''goal'', goal_json example_goal)]"

definition example_metadata :: jobject where
  "example_metadata = [(''_goalController'', controller_stamp decimal_uuids 1 (Some 2)), (''instafyGoal'', goal_json example_goal)]"

definition goal_start :: goal_system where
  "goal_start = \<lparr>gs_conversation = \<lparr>cv_metadata = example_metadata, cv_jobs = [example_job], cv_wakeups = []\<rparr>,
     gs_in_flight = [], gs_log = []\<rparr>"

definition goal_settled :: goal_system where
  "goal_settled = goal_start\<lparr>gs_conversation := (gs_conversation goal_start)\<lparr>cv_wakeups := [new_wakeup 100 10 1 2]\<rparr>\<rparr>"

definition example_wake :: wakeup where
  "example_wake = (new_wakeup 100 10 1 2)\<lparr>wk_status := WClaimed, wk_claim := Some 50, wk_locked_until := Some 400\<rparr>"

definition goal_claimed :: goal_system where
  "goal_claimed = goal_settled\<lparr>gs_conversation := (gs_conversation goal_settled)\<lparr>cv_wakeups := [example_wake]\<rparr>,
     gs_in_flight := [(example_wake, None)]\<rparr>"

lemma trimmed_texts [simp]:
  "trim_str ''7'' = ''7''" "trim_str ''Tidy up'' = ''Tidy up''" "trim_str ''t0'' = ''t0''" "trim_str ''2'' = ''2''"
  "trim_str ''active'' = ''active''" "lower_ascii_or_kelvin ''active'' = ''active''"
  by code_simp+

lemma example_goal_read: "normalize_goal now (goal_json example_goal) = Some example_goal"
  by (simp add: normalize_goal_def goal_json_def obj_get_of_list nonempty_text_def goal_field_def read_status_def
      json_opt_def example_goal_def new_goal_def Let_def del: lower_ascii_or_kelvin.simps)

lemma example_metadata_facts [simp]:
  "goal_of now example_metadata = Some example_goal" "revision decimal_uuids example_metadata = Some 1"
  "stored_goal example_metadata = Some (goal_json example_goal)"
  "uuid_at decimal_uuids (JObj example_metadata) [''_goalController'', ''ownerUserId''] = Some 2"
  by (simp_all add: goal_of_def stored_goal_def example_metadata_def example_goal_read revision_def uuid_at_def pointer_str_def
      controller_stamp_def obj_get_of_list)

lemma example_job_facts [simp]:
  "binding decimal_uuids (jb_payload example_job) = Some (1, 2)" "\<not> worker_or_early_lead (jb_payload example_job)"
  "jb_id example_job = 10" "jb_owner example_job = Some 2" "jb_role example_job = None" "jb_status example_job = ''completed''"
  "\<not> jb_planning example_job"
  by (simp_all add: example_job_def job_with_def binding_def worker_or_early_lead_def checkpoint_source_metadata_def uuid_at_def
      pointer_str_def job_stamp_def obj_get_of_list Let_def value_get_def)

lemma example_settled:
  "settle_job decimal_uuids ''t1'' 100 10 (jb_payload example_job) ''succeeded'' (gs_conversation goal_start) = gs_conversation goal_settled"
  by (simp add: settle_job_def load_bound_goal_def goal_settled_def goal_start_def find_job_def Let_def example_goal_read)
    (simp add: example_goal_def new_goal_def)

lemma example_wake_claimed:
  "claim 100 50 None (gs_conversation goal_settled) = (Some example_wake, gs_conversation goal_claimed)"
  by (simp add: claim_def goal_settled_def goal_claimed_def wake_due_def new_wakeup_def example_wake_def update_wakeups_def Let_def)

definition example_prompt :: string where
  "example_prompt = build_continuation_prompt example_goal 1
     [\<lparr>re_assistant_text = Some ''Did it'', re_has_activity = True, re_turn = None\<rparr>] None"

definition example_next :: jobject where
  "example_next = next_metadata decimal_uuids example_goal 1 example_job 10
     (JObj [(''_controllerGoal'', job_stamp decimal_uuids 1 2 True), (''goal'', goal_json example_goal)])"

definition example_saved :: json where
  "example_saved = continuation_request decimal_uuids 4 example_job example_prompt example_next (jb_payload example_job) None"

definition goal_prepared :: goal_system where
  "goal_prepared = goal_claimed\<lparr>
     gs_conversation := (gs_conversation goal_claimed)\<lparr>cv_wakeups := [example_wake\<lparr>wk_request := Some example_saved\<rparr>]\<rparr>,
     gs_in_flight := (example_wake, Some example_saved) # gs_in_flight goal_claimed\<rparr>"

abbreviation no_text :: "json \<Rightarrow> string" where
  "no_text \<equiv> \<lambda>_. []"

lemma example_job_paths:
  "path_text no_text (jb_payload example_job) revision_path = Some (ut_show decimal_uuids 1)"
  "path_text no_text (jb_payload example_job) [''metadata'', ''goal'', ''id''] = Some ''7''"
  "pointer (jb_payload example_job) [''metadata'', ''goalContinuation'', ''turn''] = None"
  "uuid_at decimal_uuids (jb_payload example_job) [''metadata'', ''_controllerGoal'', ''rootJobId''] = None"
  "value_get (jb_payload example_job) ''metadata''
     = Some (JObj [(''_controllerGoal'', job_stamp decimal_uuids 1 2 True), (''goal'', goal_json example_goal)])"
  by (simp_all add: path_text_def example_job_def job_with_def job_stamp_def obj_get_of_list goal_json_def example_goal_def new_goal_def
      uuid_at_def pointer_str_def)

lemma example_no_browser:
  "\<not> source_requires_explicit_resume (JObj [(''_controllerGoal'', job_stamp decimal_uuids 1 2 True), (''goal'', goal_json example_goal)])"
  by (simp add: source_requires_explicit_resume_def not_null_def)

lemma example_prepared:
  "prepare_request decimal_uuids no_text to_ascii_lowercase (\<lambda>_. Some ''Did it'') (\<lambda>_. True) ''t2'' 101 False 4 example_wake
     (gs_conversation goal_claimed) = (Some example_saved, gs_conversation goal_prepared)"
proof -
  let ?cv = "gs_conversation goal_claimed"
  have a: "g_status example_goal = Active" "g_id example_goal = ''7''" by (simp_all add: example_goal_def new_goal_def)
  have w: "wk_status example_wake = WClaimed" "wk_source example_wake = 10" "wk_revision example_wake = 1" "wk_request example_wake = None"
    by (simp_all add: example_wake_def new_wakeup_def)
  have cv: "cv_jobs ?cv = [example_job]" "cv_metadata ?cv = example_metadata" "cv_wakeups ?cv = [example_wake]"
    by (simp_all add: goal_claimed_def goal_settled_def goal_start_def)
  have og: "of_goal decimal_uuids no_text example_goal 1 example_job" by (simp add: of_goal_def example_job_paths a)
  have tc: "turn_count decimal_uuids no_text example_goal 1 ?cv = 0"
    by (simp add: turn_count_def cv og job_turn_def example_job_paths)
  have rr: "recent_runs decimal_uuids no_text (\<lambda>_. Some ''Did it'') (\<lambda>_. True) example_goal 1 ?cv
      = [\<lparr>re_assistant_text = Some ''Did it'', re_has_activity = True, re_turn = None\<rparr>]"
    by (simp add: recent_runs_def cv og evidence_turn_def example_job_paths)
  have dc: "decide_continuation to_ascii_lowercase example_goal 0 recent = Continue 1 None" for recent
    by (simp add: decide_continuation_def a max_continuations_def assess_stagnation_def)
  have idle: "ensure_idle False ?cv 10 = None" by (simp add: ensure_idle_def cv find_job_def)
  have cur: "is_current_source decimal_uuids no_text ?cv 10 1" by (simp add: is_current_source_def cv)
  have fj: "find_job ?cv 10 = Some example_job" by (simp add: find_job_def cv)
  show ?thesis
    unfolding prepare_request_def Let_def
    by (simp add: cv w a idle cur fj tc rr dc settings_job_def example_job_paths example_no_browser)
      (simp add: goal_prepared_def update_wakeups_def cv example_saved_def example_next_def example_prompt_def w example_job_def job_with_def)
qed

definition example_request :: dispatch_request where
  "example_request = \<lparr>dr_metadata = strip_job_claims example_next, dr_goal_wakeup = Some (10, 50), dr_goal_parent = None,
     dr_trigger_user = None, dr_delegating_job = None\<rparr>"

definition example_bound :: dispatch_request where
  "example_bound = bound_request ''t3'' (job_stamp decimal_uuids 1 2 False) example_metadata example_request"

definition example_next_job :: job where
  "example_next_job = job_with 11 ''queued'' (dr_metadata example_bound)"

definition goal_woken :: goal_system where
  "goal_woken = goal_prepared\<lparr>
     gs_conversation := record_dispatch (Some (10, 50)) 21 (insert_jobs [example_next_job] (gs_conversation goal_prepared)),
     gs_log := [(1, 1)]\<rparr>"

lemma example_bind:
  "bind_dispatch decimal_uuids no_text ''t3'' 102 0 False \<lparr>rc_user = Some 2, rc_service_role = False, rc_scoped_claims = False\<rparr>
     example_request (gs_conversation goal_prepared) = Inr (example_bound, gs_conversation goal_prepared)"
proof -
  let ?cv = "gs_conversation goal_prepared"
  have cv: "cv_jobs ?cv = [example_job]" "cv_metadata ?cv = example_metadata"
    "cv_wakeups ?cv = [example_wake\<lparr>wk_request := Some example_saved\<rparr>]"
    by (simp_all add: goal_prepared_def goal_claimed_def goal_settled_def goal_start_def)
  have "bind_wakeup decimal_uuids no_text ''t3'' 102 False 2 10 50 ?cv = Inr (job_stamp decimal_uuids 1 2 False)"
    by (simp add: bind_wakeup_def find_claim_def cv example_wake_def new_wakeup_def is_current_source_def ensure_idle_def find_job_def
        example_goal_def new_goal_def)
  then show ?thesis by (simp add: bind_dispatch_def example_request_def example_bound_def cv)
qed

lemma example_steps:
  "goal_step decimal_uuids no_text to_ascii_lowercase False goal_start goal_settled"
  "goal_step decimal_uuids no_text to_ascii_lowercase False goal_settled goal_claimed"
  "goal_step decimal_uuids no_text to_ascii_lowercase False goal_claimed goal_prepared"
  "goal_step decimal_uuids no_text to_ascii_lowercase False goal_prepared goal_woken"
proof -
  have "goal_start\<lparr>gs_conversation := settle_job decimal_uuids ''t1'' 100 10 (jb_payload example_job) ''succeeded'' (gs_conversation goal_start)\<rparr>
      = goal_settled"
    unfolding example_settled by (simp add: goal_settled_def)
  with goal_step.settle show "goal_step decimal_uuids no_text to_ascii_lowercase False goal_start goal_settled" by metis
  have "goal_settled\<lparr>gs_conversation := gs_conversation goal_claimed, gs_in_flight := (example_wake, None) # gs_in_flight goal_settled\<rparr>
      = goal_claimed" by (simp add: goal_claimed_def goal_settled_def goal_start_def)
  with goal_step.claimed [OF example_wake_claimed]
  show "goal_step decimal_uuids no_text to_ascii_lowercase False goal_settled goal_claimed" by metis
  have f: "(example_wake, None) \<in> set (gs_in_flight goal_claimed)" by (simp add: goal_claimed_def)
  have "goal_claimed\<lparr>gs_conversation := gs_conversation goal_prepared, gs_in_flight := (example_wake, Some example_saved) # gs_in_flight goal_claimed\<rparr>
      = goal_prepared" by (simp add: goal_prepared_def)
  with goal_step.prepared [OF f example_prepared]
  show "goal_step decimal_uuids no_text to_ascii_lowercase False goal_claimed goal_prepared" by metis
  have w: "wk_source example_wake = 10" "wk_owner example_wake = 2" "wk_claim example_wake = Some 50" "wk_revision example_wake = 1"
    by (simp_all add: example_wake_def new_wakeup_def)
  have g: "(example_wake, Some example_saved) \<in> set (gs_in_flight goal_prepared)" by (simp add: goal_prepared_def)
  have c: "obj_get example_next ''goalContinuation'' = pointer example_saved [''metadata'', ''goalContinuation'']"
    by (simp add: example_saved_def continuation_request_def obj_get_of_list split: option.split)
  have t: "request_turn example_saved = 1" by (simp add: example_saved_def example_next_def request_turn_of)
  have j: "list_all (carries (dr_metadata example_bound)) [example_next_job]"
    by (simp add: carries_def example_next_job_def job_with_def split: option.split)
  have "goal_prepared\<lparr>gs_conversation := record_dispatch (dr_goal_wakeup example_bound) 21 (insert_jobs [example_next_job] (gs_conversation goal_prepared)),
      gs_log := (wk_revision example_wake, request_turn example_saved) # gs_log goal_prepared\<rparr> = goal_woken"
    by (simp add: goal_woken_def w t goal_prepared_def goal_claimed_def goal_settled_def goal_start_def example_bound_def bound_request_def
        example_request_def Let_def)
  moreover have r: "dr_goal_wakeup example_request = Some (wk_source example_wake, 50)" "dr_metadata example_request = strip_job_claims example_next"
    by (simp_all add: example_request_def w)
  have b: "bind_dispatch decimal_uuids no_text ''t3'' 102 0 False
      \<lparr>rc_user = Some (wk_owner example_wake), rc_service_role = False, rc_scoped_claims = False\<rparr>
      example_request (gs_conversation goal_prepared) = Inr (example_bound, gs_conversation goal_prepared)"
    using example_bind by (simp add: w)
  have "[example_next_job] \<noteq> []" by simp
  note goal_step.woken [OF g c w(3) r b this j, of to_ascii_lowercase 21]
  ultimately show "goal_step decimal_uuids no_text to_ascii_lowercase False goal_prepared goal_woken" by metis
qed

lemma example_run:
  "reaches (goal_step decimal_uuids no_text to_ascii_lowercase False) goal_start goal_woken"
  "reaches (\<lambda>s t. \<exists>human. goal_step decimal_uuids no_text to_ascii_lowercase human s t) goal_start goal_prepared"
  "reaches (goal_step decimal_uuids no_text to_ascii_lowercase False) goal_prepared goal_woken"
proof -
  let ?auto = "goal_step decimal_uuids no_text to_ascii_lowercase False"
  let ?any = "\<lambda>s t. \<exists>human. goal_step decimal_uuids no_text to_ascii_lowercase human s t"
  note auto = reaches_step [where R = ?auto] and any = reaches_step [where R = ?any]
  show "reaches ?auto goal_prepared goal_woken" by (rule auto [OF _ example_steps(4)]) (rule reaches_refl)
  have "reaches ?auto goal_start goal_settled" by (rule auto [OF _ example_steps(1)]) (rule reaches_refl)
  then have "reaches ?auto goal_start goal_claimed" by (rule auto [OF _ example_steps(2)])
  then have "reaches ?auto goal_start goal_prepared" by (rule auto [OF _ example_steps(3)])
  then show "reaches ?auto goal_start goal_woken" by (rule auto [OF _ example_steps(4)])
  have "?any goal_start goal_settled" "?any goal_settled goal_claimed" "?any goal_claimed goal_prepared"
    using example_steps by blast+
  note any_steps = this
  have "reaches ?any goal_start goal_settled" by (rule any [OF _ any_steps(1)]) (rule reaches_refl)
  then have "reaches ?any goal_start goal_claimed" by (rule any [OF _ any_steps(2)])
  then show "reaches ?any goal_start goal_prepared" by (rule any [OF _ any_steps(3)])
qed

definition example_paused :: conversation where
  "example_paused = the (pause_for_user_stop decimal_uuids ''t4'' 9 5 (gs_conversation goal_woken))"

text \<open>Stopped while the automatic turn is queued; then that job ends and is settled as succeeded.\<close>

definition goal_ended :: goal_system where
  "goal_ended = goal_woken\<lparr>gs_conversation := settle_job decimal_uuids ''t5'' 103 11 (jb_payload example_next_job) ''succeeded''
     (example_paused\<lparr>cv_jobs := [example_job, example_next_job\<lparr>jb_status := ''completed''\<rparr>]\<rparr>)\<rparr>"

lemma woken_facts:
  "cv_metadata (gs_conversation goal_woken) = example_metadata" "cv_jobs (gs_conversation goal_woken) = [example_job, example_next_job]"
  "map wake_key (cv_wakeups (gs_conversation goal_woken)) = [(10, 1, 2)]"
  "gs_in_flight goal_woken = [(example_wake, Some example_saved), (example_wake, None)]"
  by (simp_all add: goal_woken_def goal_prepared_def goal_claimed_def goal_settled_def goal_start_def example_wake_def new_wakeup_def
      record_dispatch_def update_wakeups_def wake_key_def)

section \<open>Properties\<close>

text \<open>C40. The automatic turns of a goal end: under one revision they carry strictly increasing numbers up to
  100, so there are at most 100 of them, and in a run in which no person acts (no edit, no stop, no turn a
  person sends) at most 100 automatic turns are dispatched, whatever jobs, runtimes, claims and failed dispatches
  do in between.\<close>

theorem automatic_turns_end:
  assumes "cv_wakeups (gs_conversation s0) = []" "gs_in_flight s0 = []" "gs_log s0 = []"
    and "reaches (\<lambda>s t. \<exists>human. goal_step u json_text lower human s t) s0 s"
    and "reaches (goal_step u json_text lower False) s t"
  shows "sorted_wrt (>) (map snd (filter (\<lambda>(r', _). r' = r) (gs_log s)))
    \<and> length (filter (\<lambda>(r', _). r' = r) (gs_log s)) \<le> 100
    \<and> length (gs_log t) \<le> length (gs_log s) + 100"
proof -
  have "turns_inv u json_text s0" using assms(1-3) by (simp add: turns_inv_def log_ok_def)
  with goal_machine.reaches_inv [OF assms(4)] have inv: "turns_inv u json_text s" by blast
  then have "log_ok u json_text (gs_conversation s) (gs_log s)" by (simp add: turns_inv_def)
  note here = log_numbers [OF this]
  from automatic_run [OF assms(5) inv] obtain new where inv': "turns_inv u json_text t"
    and new: "gs_log t = new @ gs_log s" "\<forall>(r, _) \<in> set new. revision u (cv_metadata (gs_conversation s)) = Some r"
    by blast
  have "length new \<le> 100"
  proof (cases "revision u (cv_metadata (gs_conversation s))")
    case None
    with new(2) have "new = []" by (cases new) auto
    then show ?thesis by simp
  next
    case (Some r)
    have "log_ok u json_text (gs_conversation t) (gs_log t)" using inv' by (simp add: turns_inv_def)
    from log_numbers(2) [OF this, of r] have "length (filter (\<lambda>(r', _). r' = r) (gs_log t)) \<le> 100" .
    moreover have "filter (\<lambda>(r', _). r' = r) new = new" using new(2) Some by (auto simp: filter_id_conv)
    ultimately show ?thesis by (simp add: new(1))
  qed
  with here new(1) show ?thesis by simp
qed

theorem automatic_turns_end_witness:
  "gs_log goal_woken = [(1, 1)] \<and> length (gs_log goal_woken) \<le> length (gs_log goal_prepared) + 100"
proof -
  have "cv_wakeups (gs_conversation goal_start) = []" "gs_in_flight goal_start = []" "gs_log goal_start = []"
    by (simp_all add: goal_start_def)
  from automatic_turns_end [OF this example_run(2,3), of 1] show ?thesis by (simp add: goal_woken_def)
qed



end
