(* ===== verification/Git_Output.thy ===== *)
theory Git_Output
  imports Rust_Strings "HOL-Library.List_Lexorder" "HOL-Library.Char_ord"
begin

unbundle bit_operations_syntax

text \<open>
  What the origin server reads from git (\<open>origin-http-server/src/workspace_git.rs\<close>, and the diff
  parser of publish.rs). The commands of git are the fields of \<open>git_tool\<close>: what one prints, or
  \<open>None\<close> when it cannot be run or fails. How the code takes that output apart is defined here.
  The last section says what the commands do: \<open>git_laws\<close>, stated over the text git prints.
\<close>

section \<open>Text\<close>

type_synonym path = string
type_synonym stage = "string \<times> string" \<comment> \<open>the mode and the object id of an entry\<close>

definition valid_utf8 :: "string \<Rightarrow> bool" where
  "valid_utf8 s \<longleftrightarrow> utf8_ok (map ord_of s)"

text \<open>\<open>String::from_utf8_lossy\<close>: a maximal part of a sequence that is not well formed becomes one
  U+FFFD. \<open>utf8_head\<close> is the length of the well-formed sequence a text starts with, if it does.\<close>

definition utf8_head :: "nat list \<Rightarrow> nat" where
  "utf8_head b =
     (if b = [] then 0 else if utf8_ok (take 1 b) then 1 else if utf8_ok (take 2 b) then 2
      else if utf8_ok (take 3 b) then 3 else if utf8_ok (take 4 b) then 4 else 0)"

definition utf8_second :: "nat \<Rightarrow> nat \<Rightarrow> bool" where
  "utf8_second a b \<longleftrightarrow>
     is_cont b \<and> 0xE0 \<le> a \<and> a \<le> 0xF4 \<and> (a = 0xE0 \<longrightarrow> 0xA0 \<le> b) \<and> (a = 0xED \<longrightarrow> b \<le> 0x9F)
     \<and> (a = 0xF0 \<longrightarrow> 0x90 \<le> b) \<and> (a = 0xF4 \<longrightarrow> b \<le> 0x8F)"

definition utf8_bad :: "nat list \<Rightarrow> nat" where
  "utf8_bad s =
     (case s of
        a # b # c # _ \<Rightarrow> if utf8_second a b then if 0xF0 \<le> a \<and> is_cont c then 3 else 2 else 1
      | [a, b] \<Rightarrow> if utf8_second a b then 2 else 1
      | _ \<Rightarrow> 1)"

lemma utf8_bad_pos: "0 < utf8_bad s"
  by (auto simp: utf8_bad_def split: list.splits)

function from_utf8_lossy :: "string \<Rightarrow> string" where
  "from_utf8_lossy s =
     (if s = [] then []
      else let b = map ord_of (take 4 s); n = utf8_head b
           in if 0 < n then take n s @ from_utf8_lossy (drop n s)
              else [CHR 0xEF, CHR 0xBF, CHR 0xBD] @ from_utf8_lossy (drop (utf8_bad b) s))"
  by pat_completeness auto
termination
  by (relation "measure length") (auto simp: utf8_bad_pos)

declare from_utf8_lossy.simps [simp del]

definition rsplit_once :: "'a \<Rightarrow> 'a list \<Rightarrow> ('a list \<times> 'a list) option" where
  "rsplit_once d s = map_option (\<lambda>(a, b). (rev b, rev a)) (split_once d (rev s))"

text \<open>\<open>split\<close> of a byte string at every zero byte, empty pieces dropped; a BTreeMap insert; chunks.\<close>

abbreviation nul :: char where "nul \<equiv> CHR 0x00"
abbreviation tab :: char where "tab \<equiv> CHR 0x09"
abbreviation newline :: char where "newline \<equiv> CHR 0x0A"
abbreviation space :: char where "space \<equiv> CHR 0x20"

definition nul_records :: "string \<Rightarrow> string list" where
  "nul_records raw = filter (\<lambda>r. r \<noteq> []) (split_on nul raw)"

abbreviation btree_insert :: "'k::linorder \<Rightarrow> 'v \<Rightarrow> ('k \<times> 'v) list \<Rightarrow> ('k \<times> 'v) list" where
  "btree_insert k v \<equiv> btree_entry k (\<lambda>_. v)"

definition btree_collect :: "('k::linorder \<times> 'v) list \<Rightarrow> ('k \<times> 'v) list" where
  "btree_collect kvs = fold (\<lambda>(k, v). btree_insert k v) kvs []"

function chunks :: "nat \<Rightarrow> 'a list \<Rightarrow> 'a list list" where
  "chunks n xs = (if xs = [] \<or> n = 0 then [] else take n xs # chunks n (drop n xs))"
  by pat_completeness auto
termination
  by (relation "measure (\<lambda>(n, xs). length xs)") auto

declare chunks.simps [simp del]

text \<open>The folders above a path, outermost first (\<open>match_indices('/')\<close>).\<close>

definition slash_prefixes :: "path \<Rightarrow> path list" where
  "slash_prefixes p = map (\<lambda>i. take i p) (filter (\<lambda>i. p ! i = CHR ''/'') [0..<length p])"

definition folder_of :: "path \<Rightarrow> path" where
  "folder_of p = (case rsplit_once (CHR ''/'') p of Some (folder, _) \<Rightarrow> folder | None \<Rightarrow> [])"

text \<open>A path is under another when it is that path or lies below it.\<close>

definition under :: "path \<Rightarrow> path \<Rightarrow> bool" where
  "under q p \<longleftrightarrow> p = q \<or> starts_with p (q @ ''/'')"

section \<open>The commands\<close>

text \<open>A line of \<open>update-index --index-info\<close>: a mode of 0 removes a path, any other sets it.\<close>

datatype info_line = Remove string path | Put string string path

type_synonym git_output = "int option \<times> string" \<comment> \<open>the exit code, when there is one, and what was printed\<close>

record 'i git_tool =
  gt_tree_id :: "string \<Rightarrow> string option" \<comment> \<open>rev-parse --verify rev^{tree}, trimmed\<close>
  gt_empty_tree :: "string option" \<comment> \<open>hash-object -w -t tree of nothing, trimmed\<close>
  gt_merge_base :: "string \<Rightarrow> string \<Rightarrow> git_output option"
  gt_diff_raw :: "string \<Rightarrow> string \<Rightarrow> string option" \<comment> \<open>diff-tree -r -z --no-renames --raw\<close>
  gt_diff_names :: "string \<Rightarrow> string \<Rightarrow> string option" \<comment> \<open>diff-tree -r -z --no-renames --name-only\<close>
  gt_ls_tree :: "string \<Rightarrow> path list \<Rightarrow> string option" \<comment> \<open>ls-tree -z --full-tree, literal paths\<close>
  gt_ls_tree_r :: "string \<Rightarrow> path list \<Rightarrow> string option" \<comment> \<open>ls-tree -r -z --full-tree, literal paths\<close>
  gt_ls_tree_all :: "string \<Rightarrow> string option" \<comment> \<open>ls-tree -r -t -z --full-tree\<close>
  gt_batch :: "string list \<Rightarrow> string option" \<comment> \<open>cat-file --batch\<close>
  gt_batch_check :: "string list \<Rightarrow> string option" \<comment> \<open>cat-file --batch-check, trimmed at the end\<close>
  gt_read_tree :: "string \<Rightarrow> 'i option" \<comment> \<open>read-tree into a new index\<close>
  gt_read_tree_3 :: "string \<Rightarrow> string \<Rightarrow> string \<Rightarrow> 'i option" \<comment> \<open>read-tree -i -m --aggressive\<close>
  gt_ls_files :: "'i \<Rightarrow> path list \<Rightarrow> string option" \<comment> \<open>ls-files -z, literal paths\<close>
  gt_ls_files_u :: "'i \<Rightarrow> string option" \<comment> \<open>ls-files -u -z\<close>
  gt_update_index :: "'i \<Rightarrow> info_line list \<Rightarrow> 'i option"
  gt_write_tree :: "'i \<Rightarrow> string option"
  gt_merge_file :: "string \<Rightarrow> string \<Rightarrow> string \<Rightarrow> git_output option" \<comment> \<open>ours, base, theirs\<close>
  gt_hash_object :: "string \<Rightarrow> string option"

definition merge_base :: "'i git_tool \<Rightarrow> string \<Rightarrow> string \<Rightarrow> string option option" where
  "merge_base g a b =
     Option.bind (gt_merge_base g a b)
       (\<lambda>(code, out).
          if code = Some 0 then Some (Some (trim_str (from_utf8_lossy out)))
          else if code = Some 1 then Some None
          else None)"

definition zero_oid :: "string \<Rightarrow> string" where
  "zero_oid like = replicate (if length like = 64 then 64 else 40) (CHR ''0'')"

section \<open>Listings of trees\<close>

record tree_entry =
  te_mode :: string
  te_kind :: string
  te_oid :: string
  te_path :: path

definition ls_tree_entry :: "string \<Rightarrow> tree_entry option" where
  "ls_tree_entry r =
     (case split_once tab r of
        None \<Rightarrow> None
      | Some (meta, p) \<Rightarrow>
          if \<not> valid_utf8 meta \<or> \<not> valid_utf8 p then None
          else (case split_on space meta of
            mode # kind # oid # _ \<Rightarrow> Some \<lparr>te_mode = mode, te_kind = kind, te_oid = oid, te_path = p\<rparr>
          | _ \<Rightarrow> None))"

definition parse_ls_tree :: "string \<Rightarrow> tree_entry list" where
  "parse_ls_tree raw = List.map_filter ls_tree_entry (nul_records raw)"

text \<open>\<open>WorkspaceGit::tree_entries\<close>: the entries at exactly the given paths.\<close>

definition tree_entries :: "'i git_tool \<Rightarrow> string \<Rightarrow> path list \<Rightarrow> (path \<times> tree_entry) list option" where
  "tree_entries g t ps =
     try_fold (\<lambda>chunk m.
        map_option (\<lambda>raw. fold (\<lambda>e m. if te_path e \<in> set chunk then btree_insert (te_path e) e m else m)
                       (parse_ls_tree raw) m)
          (gt_ls_tree g t chunk)) (chunks 256 ps) []"

record raw_change =
  rc_new_mode :: string
  rc_new_oid :: string
  rc_status :: char
  rc_path :: path

fun raw_changes :: "string list \<Rightarrow> raw_change list" where
  "raw_changes [] = []"
| "raw_changes [m] = []"
| "raw_changes (m # p # rs) =
     (case strip_prefix (from_utf8_lossy m) '':'' of
        None \<Rightarrow> raw_changes (p # rs)
      | Some meta \<Rightarrow>
          (let fields = split_on space meta
           in if length fields < 5 then raw_changes rs
              else \<lparr>rc_new_mode = fields ! 1, rc_new_oid = fields ! 3,
                    rc_status = (case fields ! 4 of [] \<Rightarrow> CHR ''M'' | c # _ \<Rightarrow> c),
                    rc_path = from_utf8_lossy p\<rparr> # raw_changes rs))"

definition parse_raw_changes :: "string \<Rightarrow> raw_change list" where
  "parse_raw_changes raw = raw_changes (nul_records raw)"

section \<open>Objects\<close>

record git_object =
  go_kind :: string
  go_data :: string

text \<open>\<open>read_objects\<close>: the objects of one \<open>cat-file --batch\<close>, in request order.\<close>

fun read_batch :: "string list \<Rightarrow> string \<Rightarrow> git_object list option" where
  "read_batch [] rest = Some []"
| "read_batch (ident # ids) rest =
     (case split_once newline rest of
        None \<Rightarrow> None
      | Some (header, rest) \<Rightarrow>
          (let fields = drop 1 (split_on space (from_utf8_lossy header));
               kind = (case fields of k # _ \<Rightarrow> k | [] \<Rightarrow> [])
           in if kind = ''missing'' \<or> kind = [] then None
              else case Option.bind (case drop 1 fields of f # _ \<Rightarrow> Some f | [] \<Rightarrow> None) parse_usize of
                None \<Rightarrow> None
              | Some n \<Rightarrow>
                  if length rest < n + 1 then None
                  else map_option ((#) \<lparr>go_kind = kind, go_data = take n rest\<rparr>)
                         (read_batch ids (drop (n + 1) rest))))"

definition read_objects :: "'i git_tool \<Rightarrow> string list \<Rightarrow> git_object list option" where
  "read_objects g ids =
     (if ids = [] then Some [] else Option.bind (gt_batch g ids) (read_batch ids))"

text \<open>\<open>str::lines\<close>: what follows the last newline is a line unless it is empty, and the carriage
  return before a newline goes with it.\<close>

definition text_lines :: "string \<Rightarrow> string list" where
  "text_lines s =
     (let ls = split_on newline s
      in map (\<lambda>l. case strip_suffix l [CHR 0x0D] of Some r \<Rightarrow> r | None \<Rightarrow> l) (butlast ls)
         @ (if last ls = [] then [] else [last ls]))"

definition object_size :: "string \<Rightarrow> (string \<times> nat) option" where
  "object_size line =
     (case split_on space line of
        kind # sz # _ \<Rightarrow>
          Option.bind (parse_usize sz) (\<lambda>n. if kind \<noteq> ''missing'' then Some (kind, n) else None)
      | _ \<Rightarrow> None)"

definition object_sizes :: "'i git_tool \<Rightarrow> string list \<Rightarrow> (string \<times> nat) option list option" where
  "object_sizes g ids =
     (if ids = [] then Some []
      else Option.bind (gt_batch_check g ids)
        (\<lambda>raw. if length (text_lines raw) \<noteq> length ids then None
               else Some (map object_size (text_lines raw))))"

section \<open>Folders read by id\<close>

text \<open>\<open>u32::from_str_radix\<close> with base 8, and git's \<open>canon_mode\<close>.\<close>

definition parse_octal :: "string \<Rightarrow> 32 word option" where
  "parse_octal s =
     (let d = (if starts_with s ''+'' then drop 1 s else s);
          n = foldl (\<lambda>n c. 8 * n + (ord_of c - 48)) 0 d
      in if d \<noteq> [] \<and> list_all (\<lambda>c. 48 \<le> ord_of c \<and> ord_of c \<le> 55) d \<and> n < 2 ^ 32
         then Some (word_of_nat n) else None)"

definition canon_mode :: "32 word \<Rightarrow> string \<times> string" where
  "canon_mode m =
     (if m AND 0xF000 = 0x8000
      then (if m AND 0x40 \<noteq> 0 then (''100755'', ''blob'') else (''100644'', ''blob''))
      else if m AND 0xF000 = 0xA000 then (''120000'', ''blob'')
      else if m AND 0xF000 = 0x4000 then (''040000'', ''tree'')
      else (''160000'', ''commit''))"

definition hex_digit :: "nat \<Rightarrow> char" where
  "hex_digit n = (if n < 10 then char_of (48 + n) else char_of (87 + n))"

definition hex_of :: "string \<Rightarrow> string" where
  "hex_of s = concat (map (\<lambda>c. [hex_digit (ord_of c div 16), hex_digit (ord_of c mod 16)]) s)"

definition in_folder :: "path \<Rightarrow> path \<Rightarrow> path" where
  "in_folder folder name = (if folder = [] then name else folder @ ''/'' @ name)"

function parse_tree_object :: "nat \<Rightarrow> path \<Rightarrow> string \<Rightarrow> tree_entry list option" where
  "parse_tree_object id_bytes folder data =
     (if data = [] then Some []
      else case split_once space data of
        None \<Rightarrow> None
      | Some (mode, rest) \<Rightarrow>
          (case (if valid_utf8 mode then parse_octal mode else None) of
             None \<Rightarrow> None
           | Some m \<Rightarrow>
               (case split_once nul rest of
                  None \<Rightarrow> None
                | Some (name, rest) \<Rightarrow>
                    if length rest < id_bytes then None
                    else map_option (\<lambda>es.
                           if valid_utf8 name
                           then \<lparr>te_mode = fst (canon_mode m), te_kind = snd (canon_mode m),
                                 te_oid = hex_of (take id_bytes rest), te_path = in_folder folder name\<rparr> # es
                           else es)
                         (parse_tree_object id_bytes folder (drop id_bytes rest)))))"
  by pat_completeness auto
termination
  by (relation "measure (\<lambda>(_, _, data). length data)") (auto dest!: split_once_Some[THEN iffD1])

declare parse_tree_object.simps [simp del]

lemma length_folder_of: "f \<noteq> [] \<Longrightarrow> length (folder_of f) < length f"
proof -
  assume "f \<noteq> []"
  moreover have "length a < length f" if "split_once (CHR ''/'') (rev f) = Some (b, a)" for a b
    using arg_cong[where f = length, OF conjunct1[OF that[unfolded split_once_Some]]] by simp
  ultimately show ?thesis
    by (auto simp: folder_of_def rsplit_once_def split: option.split)
qed

text \<open>A folder and every folder above it but the root.\<close>

function folder_chain :: "path \<Rightarrow> path list" where
  "folder_chain f = (if f = [] then [] else f # folder_chain (folder_of f))"
  by pat_completeness auto
termination
  by (relation "measure length") (auto simp: length_folder_of)

declare folder_chain.simps [simp del]

definition folder_levels :: "path list \<Rightarrow> (nat \<times> path list) list" where
  "folder_levels folders =
     fold (\<lambda>f. btree_entry (count_list f (CHR ''/'') + 1)
                 (\<lambda>old. insort_insert f (case old of None \<Rightarrow> [] | Some fs \<Rightarrow> fs)))
       (concat (map folder_chain folders)) []"

type_synonym listing = "(path, tree_entry list) hash_map"

definition id_bytes :: "string \<Rightarrow> nat" where
  "id_bytes t = (if length t = 64 then 32 else 20)"

text \<open>The tree object of a tree or commit.\<close>

definition root_object :: "'i git_tool \<Rightarrow> git_object \<Rightarrow> git_object option" where
  "root_object g obj =
     (if go_kind obj = ''tree'' then Some obj
      else if go_kind obj = ''commit''
      then (case text_lines (from_utf8_lossy (go_data obj)) of
              [] \<Rightarrow> None
            | l # _ \<Rightarrow>
                Option.bind (strip_prefix l ''tree '') (\<lambda>t.
                Option.bind (read_objects g [t]) (\<lambda>objs. if objs = [] then None else Some (last objs))))
      else None)"

definition listed_folder :: "listing \<Rightarrow> path \<Rightarrow> string option" where
  "listed_folder m folder =
     (case find (\<lambda>e. te_path e = folder) (case map_of m (folder_of folder) of Some es \<Rightarrow> es | None \<Rightarrow> []) of
        Some e \<Rightarrow> if te_kind e = ''tree'' then Some (te_oid e) else None
      | None \<Rightarrow> None)"

text \<open>The listings of every tree, a level of folders further.\<close>

definition wanted_folders :: "listing list \<Rightarrow> path list \<Rightarrow> ((nat \<times> path) \<times> string) list" where
  "wanted_folders ms level =
     concat (map (\<lambda>(i, m). List.map_filter (\<lambda>f. map_option (\<lambda>t. ((i, f), t)) (listed_folder m f)) level)
               (enumerate 0 ms))"

fun load_folder :: "string list \<Rightarrow> (nat \<times> path) \<times> git_object \<Rightarrow> listing list \<Rightarrow> listing list option" where
  "load_folder tree_ishes ((i, f), obj) ms =
     (if go_kind obj \<noteq> ''tree'' then None
      else map_option (\<lambda>es. ms[i := AList.update f es (ms ! i)])
             (parse_tree_object (id_bytes (tree_ishes ! i)) f (go_data obj)))"

definition list_level :: "'i git_tool \<Rightarrow> string list \<Rightarrow> path list \<Rightarrow> listing list \<Rightarrow> listing list option" where
  "list_level g tree_ishes level ms =
     (let wanted = wanted_folders ms level
      in Option.bind (read_objects g (map snd wanted)) (\<lambda>objs.
           try_fold (load_folder tree_ishes) (zip (map fst wanted) objs) ms))"

definition folder_listings :: "'i git_tool \<Rightarrow> string list \<Rightarrow> path list \<Rightarrow> listing list option" where
  "folder_listings g tree_ishes folders =
     Option.bind (read_objects g tree_ishes) (\<lambda>objs.
     Option.bind (collect_options (map (root_object g) objs)) (\<lambda>roots.
     Option.bind
       (collect_options (map (\<lambda>(t, obj).
          if go_kind obj \<noteq> ''tree'' then None
          else map_option (\<lambda>es. [([], es)]) (parse_tree_object (id_bytes t) [] (go_data obj)))
          (zip tree_ishes roots)))
       (try_fold (\<lambda>(_, level). list_level g tree_ishes level) (folder_levels folders))))"

definition entries_by_path :: "'i git_tool \<Rightarrow> string \<Rightarrow> path list \<Rightarrow> (path \<times> tree_entry) list option" where
  "entries_by_path g tree_ish ps =
     (if ps = [] then Some []
      else if list_ex (\<lambda>p. newline \<in> set p) ps
      then map_option (\<lambda>raw. fold (\<lambda>e m. if te_path e \<in> set ps then btree_insert (te_path e) e m else m)
                         (parse_ls_tree raw) [])
             (gt_ls_tree_all g tree_ish)
      else map_option (\<lambda>ms.
             let listings = (if ms = [] then [] else last ms)
             in fold (\<lambda>p m.
                  (case Option.bind (map_of listings (folder_of p)) (find (\<lambda>e. te_path e = p)) of
                     Some e \<Rightarrow> btree_insert p e m
                   | None \<Rightarrow> m)) ps [])
             (folder_listings g [tree_ish] (map folder_of ps)))"

end
