(* ===== verification/Git_Laws.thy ===== *)
theory Git_Laws
  imports Git_Output
begin

text \<open>
  What git promises about the commands of \<open>git_tool\<close>, as \<open>git_laws\<close>, and what the readers of
  \<open>Git_Output\<close> then return. The laws speak of \<open>node\<close>, the entry a tree has at a path, of the
  objects the store holds, and of the slots of an index; they are stated over the text git prints.
\<close>

section \<open>Text that survives its format\<close>

definition field_ok :: "string \<Rightarrow> bool" where
  "field_ok s \<longleftrightarrow> s \<noteq> [] \<and> list_all (\<lambda>c. 33 \<le> ord_of c \<and> ord_of c \<le> 126) s"

definition path_ok :: "path \<Rightarrow> bool" where
  "path_ok p \<longleftrightarrow> p \<noteq> [] \<and> nul \<notin> set p \<and> valid_utf8 p"

lemma field_okD:
  assumes "field_ok s"
  shows "s \<noteq> []" "space \<notin> set s" "tab \<notin> set s" "nul \<notin> set s" "newline \<notin> set s" "list_all (\<lambda>c. ord_of c < 0x80) s"
proof -
  have c: "33 \<le> ord_of c \<and> ord_of c \<le> 126" if "c \<in> set s" for c
    using assms that by (simp add: field_ok_def list_all_iff)
  show "s \<noteq> []" using assms by (simp add: field_ok_def)
  show "space \<notin> set s" "tab \<notin> set s" "nul \<notin> set s" "newline \<notin> set s"
    using c [of space] c [of tab] c [of nul] c [of newline] by (auto simp: ord_of_def)
  show "list_all (\<lambda>c. ord_of c < 0x80) s"
    unfolding list_all_iff
  proof
    fix x
    assume "x \<in> set s"
    from c [OF this] show "ord_of x < 0x80" by simp
  qed
qed

lemma valid_utf8_ascii: "list_all (\<lambda>c. ord_of c < 0x80) s \<Longrightarrow> valid_utf8 s"
  unfolding valid_utf8_def by (rule utf8_ok_ascii) (simp add: list_all_iff)

lemma utf8_head_ok:
  assumes ok: "utf8_ok b" and ne: "b \<noteq> []"
  shows "0 < utf8_head b \<and> utf8_ok (drop (utf8_head b) b)"
proof -
  from ne obtain a r where b: "b = a # r" by (cases b) auto
  show ?thesis
  proof (cases "a < 0x80")
    case True
    then show ?thesis using ok by (simp add: b utf8_head_def)
  next
    case a: False
    with ok obtain x r1 where r: "r = x # r1" by (cases r) (simp_all add: b)
    show ?thesis
    proof (cases "0xC2 \<le> a \<and> a \<le> 0xDF")
      case True
      then show ?thesis using ok a by (simp add: b r utf8_head_def)
    next
      case two: False
      with ok a obtain y r2 where r1: "r1 = y # r2" by (cases r1) (simp_all add: b r)
      show ?thesis
      proof (cases "0xE0 \<le> a \<and> a \<le> 0xEF")
        case True
        then show ?thesis using ok a two by (simp add: b r r1 utf8_head_def)
      next
        case three: False
        with ok a two obtain z r3 where r2: "r2 = z # r3" by (cases r2) (simp_all add: b r r1)
        from ok a two three show ?thesis by (simp add: b r r1 r2 utf8_head_def)
      qed
    qed
  qed
qed

lemma utf8_head_take: "utf8_head (take 4 b) = utf8_head b"
  by (simp add: utf8_head_def take_take)

lemma from_utf8_lossy_id: "valid_utf8 s \<Longrightarrow> from_utf8_lossy s = s"
proof (induction s rule: length_induct)
  case (1 s)
  show ?case
  proof (cases "s = []")
    case False
    let ?n = "utf8_head (map ord_of s)"
    from 1 False have "0 < ?n" "valid_utf8 (drop ?n s)"
      using utf8_head_ok [of "map ord_of s"] by (auto simp: valid_utf8_def drop_map)
    moreover from this have "from_utf8_lossy (drop ?n s) = drop ?n s"
      using 1 False by auto
    ultimately show ?thesis
      by (subst from_utf8_lossy.simps) (simp add: Let_def False utf8_head_take flip: take_map)
  qed (simp add: from_utf8_lossy.simps)
qed

lemma nul_records_ended:
  "list_all (\<lambda>x. x \<noteq> [] \<and> nul \<notin> set x) xs \<Longrightarrow> nul_records (concat (map (\<lambda>x. x @ [nul]) xs)) = xs"
proof (induction xs)
  case (Cons x xs)
  then show ?case
    using split_on_append_sep [of nul x "concat (map (\<lambda>x. x @ [nul]) xs)"]
    by (simp add: nul_records_def split_on_no_sep)
qed (simp add: nul_records_def)

lemma map_filter_Some: "(\<And>x. x \<in> set xs \<Longrightarrow> f x = Some (h x)) \<Longrightarrow> List.map_filter f xs = map h xs"
  by (induction xs) (simp_all add: List.map_filter_def)

text \<open>Numbers.\<close>

lemma parse_digits_snoc: "parse_digits (s @ [c]) = 10 * parse_digits s + (ord_of c - 48)"
  by (simp add: parse_digits_def)

lemma ord_of_digit [simp]: "d < 10 \<Longrightarrow> ord_of (digit_char d) = 48 + d"
  by (simp add: ord_of_def digit_char_def)

lemma show_nat_digits: "list_all is_ascii_digit (show_nat n) \<and> show_nat n \<noteq> [] \<and> parse_digits (show_nat n) = n"
proof (induction n rule: show_nat.induct)
  case (1 n)
  have "n mod 10 < 10" by simp
  then show ?case
    using 1 by (subst (1 2 3) show_nat.simps)
      (auto simp: is_ascii_digit_def parse_digits_snoc parse_digits_def [of "[_]"] list_all_iff)
qed

lemma show_nat_field: "field_ok (show_nat n)"
  using show_nat_digits [of n] by (auto simp: field_ok_def is_ascii_digit_def list_all_iff)

lemma parse_usize_show_nat: "n < 2 ^ 64 \<Longrightarrow> parse_usize (show_nat n) = Some n"
proof -
  assume n: "n < 2 ^ 64"
  have "\<not> starts_with (show_nat n) ''+''"
    using show_nat_digits [of n] by (cases "show_nat n") (auto simp: is_ascii_digit_def ord_of_def)
  then show ?thesis
    using show_nat_digits [of n] n by (simp add: parse_usize_def)
qed

section \<open>Listings of trees\<close>

definition ls_tree_line :: "tree_entry \<Rightarrow> string" where
  "ls_tree_line e = te_mode e @ [space] @ te_kind e @ [space] @ te_oid e @ [tab] @ te_path e"

definition entry_ok :: "tree_entry \<Rightarrow> bool" where
  "entry_ok e \<longleftrightarrow> field_ok (te_mode e) \<and> field_ok (te_kind e) \<and> field_ok (te_oid e) \<and> path_ok (te_path e)"

definition ls_tree_output :: "tree_entry list \<Rightarrow> string" where
  "ls_tree_output es = concat (map (\<lambda>l. l @ [nul]) (map ls_tree_line es))"

lemma split_fields_3:
  assumes "space \<notin> set a" "space \<notin> set b" "space \<notin> set c"
  shows "split_on space (a @ [space] @ b @ [space] @ c) = [a, b, c]"
  using assms split_on_append_sep [of space a "b @ [space] @ c"] split_on_append_sep [of space b c]
  by (simp add: split_on_no_sep)

lemma ls_tree_entry_line:
  assumes "entry_ok e"
  shows "ls_tree_entry (ls_tree_line e) = Some e"
proof -
  let ?meta = "te_mode e @ [space] @ te_kind e @ [space] @ te_oid e"
  note f = field_okD [of "te_mode e"] field_okD [of "te_kind e"] field_okD [of "te_oid e"]
  have "split_once tab (?meta @ tab # te_path e) = Some (?meta, te_path e)"
    using assms f by (intro split_once_no_sep) (auto simp: entry_ok_def)
  moreover have "valid_utf8 ?meta"
    using assms f by (intro valid_utf8_ascii) (auto simp: entry_ok_def ord_of_def)
  moreover have "split_on space ?meta = [te_mode e, te_kind e, te_oid e]"
    using assms f by (intro split_fields_3) (auto simp: entry_ok_def)
  ultimately show ?thesis
    using assms by (simp add: ls_tree_entry_def ls_tree_line_def entry_ok_def path_ok_def)
qed

lemma ls_tree_line_ok: "entry_ok e \<Longrightarrow> ls_tree_line e \<noteq> [] \<and> nul \<notin> set (ls_tree_line e)"
  by (auto simp: ls_tree_line_def entry_ok_def path_ok_def dest: field_okD)

lemma parse_ls_tree_output:
  assumes "list_all entry_ok es"
  shows "parse_ls_tree (ls_tree_output es) = es"
proof -
  have "nul_records (ls_tree_output es) = map ls_tree_line es"
    unfolding ls_tree_output_def using assms by (intro nul_records_ended) (simp add: list_all_iff ls_tree_line_ok)
  then have "parse_ls_tree (ls_tree_output es) = List.map_filter (ls_tree_entry \<circ> ls_tree_line) es"
    by (simp add: parse_ls_tree_def List.map_filter_def filter_map comp_def)
  also have "\<dots> = map (\<lambda>e. e) es"
    using assms by (intro map_filter_Some) (simp add: ls_tree_entry_line list_all_iff)
  finally show ?thesis by simp
qed

section \<open>Diffs\<close>

record diff_line =
  dl_old_mode :: string
  dl_old_oid :: string
  dl_change :: raw_change

definition diff_meta :: "diff_line \<Rightarrow> string" where
  "diff_meta d =
     '':'' @ dl_old_mode d @ [space] @ rc_new_mode (dl_change d) @ [space] @ dl_old_oid d @ [space]
     @ rc_new_oid (dl_change d) @ [space] @ [rc_status (dl_change d)]"

definition diff_output :: "diff_line list \<Rightarrow> string" where
  "diff_output ds = concat (map (\<lambda>l. l @ [nul]) (concat (map (\<lambda>d. [diff_meta d, rc_path (dl_change d)]) ds)))"

definition diff_ok :: "diff_line \<Rightarrow> bool" where
  "diff_ok d \<longleftrightarrow>
     field_ok (dl_old_mode d) \<and> field_ok (dl_old_oid d) \<and> field_ok (rc_new_mode (dl_change d))
     \<and> field_ok (rc_new_oid (dl_change d)) \<and> field_ok [rc_status (dl_change d)] \<and> path_ok (rc_path (dl_change d))"

lemma raw_changes_lines:
  "list_all diff_ok ds \<Longrightarrow>
   raw_changes (concat (map (\<lambda>d. [diff_meta d, rc_path (dl_change d)]) ds)) = map dl_change ds"
proof (induction ds)
  case (Cons d ds)
  let ?m = "drop 1 (diff_meta d)"
  note f = field_okD [of "dl_old_mode d"] field_okD [of "dl_old_oid d"] field_okD [of "rc_new_mode (dl_change d)"]
    field_okD [of "rc_new_oid (dl_change d)"] field_okD [of "[rc_status (dl_change d)]"]
  from Cons.prems have ok: "diff_ok d" by simp
  have "valid_utf8 (diff_meta d)"
    using ok f by (intro valid_utf8_ascii) (auto simp: diff_ok_def diff_meta_def ord_of_def)
  then have "strip_prefix (from_utf8_lossy (diff_meta d)) '':'' = Some ?m"
    by (simp add: from_utf8_lossy_id strip_prefix_Some) (simp add: diff_meta_def)
  moreover have "split_on space ?m =
      [dl_old_mode d, rc_new_mode (dl_change d), dl_old_oid d, rc_new_oid (dl_change d), [rc_status (dl_change d)]]"
    using ok f by (simp add: diff_ok_def diff_meta_def split_on_append_sep split_on_no_sep)
  moreover have "from_utf8_lossy (rc_path (dl_change d)) = rc_path (dl_change d)"
    using ok by (simp add: diff_ok_def path_ok_def from_utf8_lossy_id)
  ultimately show ?case
    using Cons by simp
qed simp

lemma diff_records_ok:
  assumes "diff_ok d"
  shows "diff_meta d \<noteq> []" "nul \<notin> set (diff_meta d)" "rc_path (dl_change d) \<noteq> []" "nul \<notin> set (rc_path (dl_change d))"
proof -
  note f = field_okD [of "dl_old_mode d"] field_okD [of "dl_old_oid d"] field_okD [of "rc_new_mode (dl_change d)"]
    field_okD [of "rc_new_oid (dl_change d)"] field_okD [of "[rc_status (dl_change d)]"]
  show "diff_meta d \<noteq> []" by (simp add: diff_meta_def)
  show "nul \<notin> set (diff_meta d)"
    using assms f unfolding diff_ok_def diff_meta_def by simp
  show "rc_path (dl_change d) \<noteq> []" "nul \<notin> set (rc_path (dl_change d))"
    using assms by (simp_all add: diff_ok_def path_ok_def)
qed

lemma parse_diff_output:
  assumes "list_all diff_ok ds"
  shows "parse_raw_changes (diff_output ds) = map dl_change ds"
proof -
  have "list_all (\<lambda>x. x \<noteq> [] \<and> nul \<notin> set x) (concat (map (\<lambda>d. [diff_meta d, rc_path (dl_change d)]) ds))"
    using assms by (induction ds) (simp_all add: diff_records_ok)
  from nul_records_ended [OF this] show ?thesis
    using assms by (simp add: parse_raw_changes_def diff_output_def raw_changes_lines)
qed

section \<open>Objects\<close>

definition batch_item :: "(string \<Rightarrow> git_object option) \<Rightarrow> string \<Rightarrow> string" where
  "batch_item store ident =
     (case store ident of
        None \<Rightarrow> ident @ '' missing'' @ [newline]
      | Some obj \<Rightarrow>
          ident @ [space] @ go_kind obj @ [space] @ show_nat (length (go_data obj)) @ [newline]
          @ go_data obj @ [newline])"

definition object_ok :: "git_object \<Rightarrow> bool" where
  "object_ok obj \<longleftrightarrow> field_ok (go_kind obj) \<and> go_kind obj \<noteq> ''missing'' \<and> length (go_data obj) < 2 ^ 64"

lemma read_batch_items:
  assumes "list_all field_ok ids" "\<And>i obj. store i = Some obj \<Longrightarrow> object_ok obj"
  shows "read_batch ids (concat (map (batch_item store) ids)) = collect_options (map store ids)"
  using assms(1)
proof (induction ids)
  case (Cons i ids)
  let ?rest = "concat (map (batch_item store) ids)"
  from Cons.prems have i: "field_ok i" by simp
  note f = field_okD [OF i]
  show ?case
  proof (cases "store i")
    case None
    have s: "batch_item store i @ ?rest = (i @ '' missing'') @ newline # ?rest"
      using None by (simp add: batch_item_def)
    have "split_once newline ((i @ '' missing'') @ newline # ?rest) = Some (i @ '' missing'', ?rest)"
      using f by (intro split_once_no_sep) auto
    moreover have "from_utf8_lossy (i @ '' missing'') = i @ '' missing''"
      using f by (intro from_utf8_lossy_id valid_utf8_ascii) (auto simp: ord_of_def)
    moreover have "split_on space (i @ '' missing'') = [i, ''missing'']"
      using f split_on_append_sep [of space i "''missing''"] by (simp add: split_on_no_sep)
    ultimately have "read_batch (i # ids) (batch_item store i @ ?rest) = None"
      unfolding s by (simp del: append_assoc)
    then show ?thesis
      using None by simp
  next
    case (Some obj)
    have ok: "object_ok obj" using assms(2) Some .
    note k = field_okD [of "go_kind obj"] field_okD [OF show_nat_field [of "length (go_data obj)"]]
    let ?h = "i @ [space] @ go_kind obj @ [space] @ show_nat (length (go_data obj))"
    have s: "batch_item store i @ ?rest = ?h @ newline # (go_data obj @ newline # ?rest)"
      using Some by (simp add: batch_item_def)
    have "split_once newline (?h @ newline # (go_data obj @ newline # ?rest)) = Some (?h, go_data obj @ newline # ?rest)"
      using f k ok by (intro split_once_no_sep) (auto simp: object_ok_def)
    moreover have "from_utf8_lossy ?h = ?h"
      using f k ok by (intro from_utf8_lossy_id valid_utf8_ascii) (auto simp: object_ok_def ord_of_def)
    moreover have "split_on space ?h = [i, go_kind obj, show_nat (length (go_data obj))]"
      using f k ok by (intro split_fields_3) (auto simp: object_ok_def)
    moreover have "go_kind obj \<noteq> []" "go_kind obj \<noteq> ''missing''" "parse_usize (show_nat (length (go_data obj))) = Some (length (go_data obj))"
      using ok k by (simp_all add: object_ok_def parse_usize_show_nat)
    ultimately have "read_batch (i # ids) (batch_item store i @ ?rest)
        = map_option ((#) \<lparr>go_kind = go_kind obj, go_data = go_data obj\<rparr>) (read_batch ids ?rest)"
      unfolding s by simp
    moreover have "\<lparr>go_kind = go_kind obj, go_data = go_data obj\<rparr> = obj" by (cases obj) simp
    ultimately show ?thesis
      using Cons Some by (simp add: map_option_case split: option.split)
  qed
qed simp

end
