(* ===== verification/Git_Store.thy ===== *)
theory Git_Store
  imports Git_Laws
begin

text \<open>
  The laws of git's trees and objects, and what the lookups by path return under them: whichever
  way \<open>entries_by_path\<close> and \<open>tree_entries\<close> ask, they find the entries at the given paths.
\<close>

section \<open>Raw tree objects\<close>

type_synonym tree_record = "string \<times> string \<times> string" \<comment> \<open>mode, name, raw id\<close>

definition record_bytes :: "tree_record \<Rightarrow> string" where
  "record_bytes r = (case r of (mode, name, ident) \<Rightarrow> mode @ [space] @ name @ [nul] @ ident)"

definition record_ok :: "nat \<Rightarrow> tree_record \<Rightarrow> bool" where
  "record_ok k r \<longleftrightarrow>
     (case r of (mode, name, ident) \<Rightarrow>
        field_ok mode \<and> parse_octal mode \<noteq> None \<and> path_ok name \<and> CHR ''/'' \<notin> set name \<and> length ident = k)"

definition record_entry :: "path \<Rightarrow> tree_record \<Rightarrow> tree_entry" where
  "record_entry folder r =
     (case r of (mode, name, ident) \<Rightarrow>
        (let m = canon_mode (the (parse_octal mode))
         in \<lparr>te_mode = fst m, te_kind = snd m, te_oid = hex_of ident, te_path = in_folder folder name\<rparr>))"

lemma parse_tree_object_records:
  "list_all (record_ok k) rs \<Longrightarrow>
   parse_tree_object k folder (concat (map record_bytes rs)) = Some (map (record_entry folder) rs)"
proof (induction rs)
  case (Cons r rs)
  obtain mode name ident where r: "r = (mode, name, ident)" by (cases r)
  let ?rest = "concat (map record_bytes rs)"
  from Cons.prems have ok: "field_ok mode" "parse_octal mode \<noteq> None" "path_ok name" "length ident = k"
    by (auto simp: record_ok_def r)
  have bytes: "record_bytes r @ ?rest = mode @ space # (name @ nul # (ident @ ?rest))"
    by (simp add: r record_bytes_def)
  have s: "split_once space (mode @ space # (name @ nul # (ident @ ?rest))) = Some (mode, name @ nul # (ident @ ?rest))"
    "split_once nul (name @ nul # (ident @ ?rest)) = Some (name, ident @ ?rest)"
    using ok by (auto intro!: split_once_no_sep dest: field_okD simp: path_ok_def)
  have v: "valid_utf8 mode" "valid_utf8 name"
    using ok by (auto intro: valid_utf8_ascii dest: field_okD(6) simp: path_ok_def)
  obtain m where m: "parse_octal mode = Some m" using ok(2) by auto
  have "parse_tree_object k folder (record_bytes r @ ?rest) =
      map_option ((#) (record_entry folder r)) (parse_tree_object k folder ?rest)"
    using s v m ok(4) unfolding bytes
    by (subst parse_tree_object.simps) (simp add: r record_entry_def Let_def)
  then show ?case using Cons by simp
qed (simp add: parse_tree_object.simps)

section \<open>Folders of paths\<close>

lemma folder_of_in_folder: "CHR ''/'' \<notin> set n \<Longrightarrow> folder_of (in_folder f n) = f"
proof (cases "f = []")
  case True
  assume "CHR ''/'' \<notin> set n"
  then have "split_once (CHR ''/'') (rev n) = None" by (simp add: split_once_None)
  then show ?thesis by (simp add: True in_folder_def folder_of_def rsplit_once_def)
next
  case False
  assume "CHR ''/'' \<notin> set n"
  then have "split_once (CHR ''/'') (rev n @ CHR ''/'' # rev f) = Some (rev n, rev f)"
    by (intro split_once_no_sep) simp
  then show ?thesis using False by (simp add: in_folder_def folder_of_def rsplit_once_def)
qed

lemma folder_of_split:
  assumes "folder_of p = f" "f \<noteq> []"
  obtains n where "p = f @ ''/'' @ n" "CHR ''/'' \<notin> set n"
proof (cases "split_once (CHR ''/'') (rev p)")
  case None
  then show ?thesis using assms by (simp add: folder_of_def rsplit_once_def)
next
  case (Some x)
  obtain a b where x: "x = (a, b)" by (cases x)
  with Some have s: "rev p = a @ CHR ''/'' # b" "CHR ''/'' \<notin> set a"
    by (simp_all add: split_once_Some)
  have "p = rev b @ ''/'' @ rev a"
    using arg_cong [OF s(1), of rev] by simp
  moreover have "f = rev b"
    using assms Some x by (simp add: folder_of_def rsplit_once_def)
  ultimately show ?thesis using that s(2) by simp
qed

abbreviation depth :: "path \<Rightarrow> nat" where "depth f \<equiv> count_list f (CHR ''/'') + 1"

lemma depth_folder_of: "folder_of f \<noteq> [] \<Longrightarrow> depth f = depth (folder_of f) + 1"
proof -
  assume f: "folder_of f \<noteq> []"
  obtain n where n: "f = folder_of f @ ''/'' @ n" "CHR ''/'' \<notin> set n"
    using folder_of_split [OF refl f] by blast
  have "count_list f (CHR ''/'') = count_list (folder_of f @ ''/'' @ n) (CHR ''/'')"
    using n(1) by (rule arg_cong)
  then show ?thesis using n(2) by (simp add: count_list_0_iff)
qed

lemma folder_of_Nil [simp]: "folder_of [] = []"
  by (simp add: folder_of_def rsplit_once_def)

lemma folder_chain_self: "f \<noteq> [] \<Longrightarrow> f \<in> set (folder_chain f)"
  by (subst folder_chain.simps) simp

lemma folder_chain_closed: "f \<in> set (folder_chain p) \<Longrightarrow> folder_of f \<noteq> [] \<Longrightarrow> folder_of f \<in> set (folder_chain p)"
proof (induction p rule: folder_chain.induct)
  case (1 p)
  show ?case
  proof (cases "p = []")
    case True
    with 1 show ?thesis by (simp add: folder_chain.simps)
  next
    case False
    then have c: "folder_chain p = p # folder_chain (folder_of p)" by (simp add: folder_chain.simps)
    show ?thesis
      using 1 False folder_chain_self [of "folder_of p"] by (auto simp: c)
  qed
qed

lemma folder_chain_not_Nil: "f \<in> set (folder_chain p) \<Longrightarrow> f \<noteq> []"
proof (induction p rule: folder_chain.induct)
  case (1 p)
  then show ?case
    by (cases "p = []") (auto simp: folder_chain.simps [of p] folder_chain.simps [of "[]"])
qed

section \<open>Levels\<close>

definition level_of :: "(nat \<times> path list) list \<Rightarrow> nat \<Rightarrow> path set" where
  "level_of L d = (case map_of L d of None \<Rightarrow> {} | Some fs \<Rightarrow> set fs)"

definition add_level :: "path \<Rightarrow> (nat \<times> path list) list \<Rightarrow> (nat \<times> path list) list" where
  "add_level f = btree_entry (depth f) (\<lambda>old. insort_insert f (case old of None \<Rightarrow> [] | Some fs \<Rightarrow> fs))"

lemma fold_levels:
  "btree_sorted L \<Longrightarrow>
   btree_sorted (fold add_level xs L)
   \<and> level_of (fold add_level xs L) d = level_of L d \<union> {f \<in> set xs. depth f = d}
   \<and> fst ` set (fold add_level xs L) = fst ` set L \<union> depth ` set xs"
proof (induction xs arbitrary: L)
  case (Cons f xs)
  have "btree_sorted (add_level f L)" using Cons.prems unfolding add_level_def by (rule btree_sorted_entry)
  moreover have "level_of (add_level f L) d = level_of L d \<union> (if depth f = d then {f} else {})"
    using Cons.prems by (auto simp: level_of_def add_level_def map_of_btree_entry set_insort_insert split: option.splits)
  moreover have "fst ` set (add_level f L) = insert (depth f) (fst ` set L)"
    by (simp add: add_level_def)
  ultimately show ?case
    using Cons.IH [of "add_level f L"] by auto
qed simp

abbreviation all_folders :: "path list \<Rightarrow> path set" where
  "all_folders folders \<equiv> set (concat (map folder_chain folders))"

lemma folder_levels_fold: "folder_levels folders = fold add_level (concat (map folder_chain folders)) []"
  unfolding folder_levels_def add_level_def ..

lemma folder_levels_sorted: "btree_sorted (folder_levels folders)"
  and folder_levels_depths: "fst ` set (folder_levels folders) = depth ` all_folders folders"
  using fold_levels [of "[]" "concat (map folder_chain folders)"] unfolding folder_levels_fold by simp_all

lemma folder_levels_depth:
  assumes "f \<in> all_folders folders"
  shows "depth f \<in> set (map fst (folder_levels folders))"
  unfolding list.set_map [of fst "folder_levels folders"] folder_levels_depths
  by (rule image_eqI [where x = f], rule refl, fact assms)

lemma folder_levels_at:
  assumes "(d, fs) \<in> set (folder_levels folders)"
  shows "set fs = {f \<in> all_folders folders. depth f = d}"
proof -
  have "map_of (folder_levels folders) d = Some fs"
    using btree_sorted_keys [OF folder_levels_sorted] assms by (rule map_of_distinct_in)
  moreover have "level_of (folder_levels folders) d = {f \<in> all_folders folders. depth f = d}"
    using fold_levels [of "[]" "concat (map folder_chain folders)" d]
    unfolding folder_levels_fold by (simp add: level_of_def)
  ultimately show ?thesis
    by (simp add: level_of_def)
qed

section \<open>The laws\<close>

text \<open>What a path of an index holds: nothing or an entry, or the versions of a merge (base, ours,
  theirs) it has left open.\<close>

datatype slot = Merged "stage option" | Unmerged "stage option" "stage option" "stage option"

record 'i git_model =
  gm_node :: "string \<Rightarrow> path \<Rightarrow> tree_entry option" \<comment> \<open>the entry of a tree at a path\<close>
  gm_folder :: "string \<Rightarrow> path \<Rightarrow> string option" \<comment> \<open>the tree of a folder of a tree\<close>
  gm_store :: "string \<Rightarrow> git_object option"
  gm_slot :: "'i \<Rightarrow> path \<Rightarrow> slot"

definition is_tree :: "'i git_tool \<Rightarrow> string \<Rightarrow> bool" where
  "is_tree g t \<longleftrightarrow> gt_tree_id g t = Some t"

definition leaf :: "'i git_model \<Rightarrow> string \<Rightarrow> path \<Rightarrow> stage option" where
  "leaf m t p =
     (case gm_node m t p of
        Some e \<Rightarrow> if te_kind e = ''tree'' then None else Some (te_mode e, te_oid e)
      | None \<Rightarrow> None)"

definition children :: "'i git_model \<Rightarrow> string \<Rightarrow> path \<Rightarrow> tree_entry set" where
  "children m t f = {e. gm_node m t (te_path e) = Some e \<and> folder_of (te_path e) = f}"

text \<open>Trees: names resolve to trees, a path has an entry with a folder at every prefix of it, and
  the object of a folder lists its entries.\<close>

definition node_law :: "'i git_model \<Rightarrow> string \<Rightarrow> path \<Rightarrow> tree_entry \<Rightarrow> bool" where
  "node_law m t p e \<longleftrightarrow>
     entry_ok e \<and> te_path e = p \<and> (te_kind e = ''tree'' \<longrightarrow> gm_folder m t p = Some (te_oid e))
     \<and> (\<forall>q r. p = q @ ''/'' @ r \<longrightarrow> (\<exists>f. gm_node m t q = Some f \<and> te_kind f = ''tree''))"

definition folder_law :: "'i git_model \<Rightarrow> string \<Rightarrow> path \<Rightarrow> string \<Rightarrow> bool" where
  "folder_law m t f s \<longleftrightarrow>
     field_ok s
     \<and> (\<forall>obj. gm_store m s = Some obj \<longrightarrow>
          (\<exists>rs. obj = \<lparr>go_kind = ''tree'', go_data = concat (map record_bytes rs)\<rparr>
             \<and> list_all (record_ok (id_bytes t)) rs \<and> record_entry f ` set rs = children m t f))"

definition tree_laws :: "'i git_tool \<Rightarrow> 'i git_model \<Rightarrow> bool" where
  "tree_laws g m \<longleftrightarrow>
     (\<forall>r t. gt_tree_id g r = Some t \<longrightarrow> is_tree g t \<and> gm_folder m t [] = Some t)
     \<and> (\<forall>t. gt_empty_tree g = Some t \<longrightarrow> is_tree g t \<and> (\<forall>p. gm_node m t p = None))
     \<and> (\<forall>t p e. is_tree g t \<longrightarrow> gm_node m t p = Some e \<longrightarrow> node_law m t p e)
     \<and> (\<forall>t f s. is_tree g t \<longrightarrow> gm_folder m t f = Some s \<longrightarrow> folder_law m t f s)
     \<and> (\<forall>i obj. gm_store m i = Some obj \<longrightarrow> object_ok obj)
     \<and> (\<forall>ids out. list_all field_ok ids \<longrightarrow> gt_batch g ids = Some out \<longrightarrow>
          out = concat (map (batch_item (gm_store m)) ids))"

text \<open>Listings: the entries at the given paths, the files at or below them, every entry; and the
  difference of two trees.\<close>

definition lists :: "'i git_model \<Rightarrow> string \<Rightarrow> tree_entry list \<Rightarrow> bool" where
  "lists m t es \<longleftrightarrow> (\<forall>e \<in> set es. gm_node m t (te_path e) = Some e)"

definition diff_law :: "'i git_model \<Rightarrow> string \<Rightarrow> string \<Rightarrow> raw_change list \<Rightarrow> bool" where
  "diff_law m a b cs \<longleftrightarrow>
     (\<forall>c \<in> set cs. leaf m a (rc_path c) \<noteq> leaf m b (rc_path c)
        \<and> leaf m b (rc_path c) = (if rc_status c = CHR ''D'' then None else Some (rc_new_mode c, rc_new_oid c)))
     \<and> (\<forall>p. leaf m a p \<noteq> leaf m b p \<longrightarrow> p \<in> rc_path ` set cs)"

definition listing_laws :: "'i git_tool \<Rightarrow> 'i git_model \<Rightarrow> bool" where
  "listing_laws g m \<longleftrightarrow>
     (\<forall>t ps out. is_tree g t \<longrightarrow> gt_ls_tree g t ps = Some out \<longrightarrow>
        (\<exists>es. out = ls_tree_output es \<and> lists m t es
           \<and> (\<forall>p \<in> set ps. \<forall>e. gm_node m t p = Some e \<longrightarrow> e \<in> set es)))
     \<and> (\<forall>t ps out. is_tree g t \<longrightarrow> gt_ls_tree_r g t ps = Some out \<longrightarrow>
        (\<exists>es. out = ls_tree_output es \<and> lists m t es \<and> (\<forall>e \<in> set es. te_kind e \<noteq> ''tree'')
           \<and> (\<forall>q \<in> set ps. \<forall>p e. under q p \<longrightarrow> gm_node m t p = Some e \<longrightarrow> te_kind e \<noteq> ''tree'' \<longrightarrow> e \<in> set es)))
     \<and> (\<forall>t out. is_tree g t \<longrightarrow> gt_ls_tree_all g t = Some out \<longrightarrow>
        (\<exists>es. out = ls_tree_output es \<and> lists m t es \<and> (\<forall>p e. gm_node m t p = Some e \<longrightarrow> e \<in> set es)))
     \<and> (\<forall>a b out. is_tree g a \<longrightarrow> is_tree g b \<longrightarrow> gt_diff_raw g a b = Some out \<longrightarrow>
        (\<exists>ds. out = diff_output ds \<and> list_all diff_ok ds \<and> diff_law m a b (map dl_change ds)))
     \<and> (\<forall>a b out. is_tree g a \<longrightarrow> is_tree g b \<longrightarrow> gt_diff_names g a b = Some out \<longrightarrow>
        (\<exists>ps. out = concat (map (\<lambda>p. p @ [nul]) ps) \<and> list_all path_ok ps
           \<and> set ps = {p. leaf m a p \<noteq> leaf m b p}))"

lemma listing_lawsD:
  assumes "listing_laws g m" "is_tree g t"
  shows ls_treeD: "gt_ls_tree g t ps = Some out \<Longrightarrow> \<exists>es. out = ls_tree_output es \<and> lists m t es
           \<and> (\<forall>p \<in> set ps. \<forall>e. gm_node m t p = Some e \<longrightarrow> e \<in> set es)"
    and ls_tree_rD: "gt_ls_tree_r g t ps = Some out \<Longrightarrow> \<exists>es. out = ls_tree_output es \<and> lists m t es
           \<and> (\<forall>e \<in> set es. te_kind e \<noteq> ''tree'')
           \<and> (\<forall>q \<in> set ps. \<forall>p e. under q p \<longrightarrow> gm_node m t p = Some e \<longrightarrow> te_kind e \<noteq> ''tree'' \<longrightarrow> e \<in> set es)"
    and ls_tree_allD: "gt_ls_tree_all g t = Some out \<Longrightarrow> \<exists>es. out = ls_tree_output es \<and> lists m t es
           \<and> (\<forall>p e. gm_node m t p = Some e \<longrightarrow> e \<in> set es)"
    and diff_rawD: "is_tree g b \<Longrightarrow> gt_diff_raw g t b = Some out \<Longrightarrow>
           \<exists>ds. out = diff_output ds \<and> list_all diff_ok ds \<and> diff_law m t b (map dl_change ds)"
    and diff_namesD: "is_tree g b \<Longrightarrow> gt_diff_names g t b = Some out \<Longrightarrow>
           \<exists>ps. out = concat (map (\<lambda>p. p @ [nul]) ps) \<and> list_all path_ok ps \<and> set ps = {p. leaf m t p \<noteq> leaf m b p}"
  using assms by (simp_all add: listing_laws_def)

section \<open>Lookups by path\<close>

lemma tree_idD:
  assumes "tree_laws g m" "gt_tree_id g r = Some t"
  shows "is_tree g t" "gm_folder m t [] = Some t"
  using assms unfolding tree_laws_def by blast+

lemma node_lawD: "tree_laws g m \<Longrightarrow> is_tree g t \<Longrightarrow> gm_node m t p = Some e \<Longrightarrow> node_law m t p e"
  unfolding tree_laws_def by blast

lemma folder_lawD: "tree_laws g m \<Longrightarrow> is_tree g t \<Longrightarrow> gm_folder m t f = Some s \<Longrightarrow> folder_law m t f s"
  unfolding tree_laws_def by blast

lemma lists_ok: "tree_laws g m \<Longrightarrow> is_tree g t \<Longrightarrow> lists m t es \<Longrightarrow> list_all entry_ok es"
  unfolding lists_def list_all_iff by (blast dest: node_lawD [unfolded node_law_def])

lemma node_path: "tree_laws g m \<Longrightarrow> is_tree g t \<Longrightarrow> gm_node m t p = Some e \<Longrightarrow> te_path e = p"
  by (drule (2) node_lawD) (simp add: node_law_def)

lemma read_objects_spec:
  assumes "tree_laws g m" "list_all field_ok ids" "read_objects g ids = Some objs"
  shows "map (gm_store m) ids = map Some objs"
proof (cases "ids = []")
  case True
  with assms(3) show ?thesis by (simp add: read_objects_def)
next
  case False
  with assms(3) obtain out where out: "gt_batch g ids = Some out" "read_batch ids out = Some objs"
    by (auto simp: read_objects_def bind_eq_Some_conv)
  from assms(1) have store: "\<And>i obj. gm_store m i = Some obj \<Longrightarrow> object_ok obj"
    unfolding tree_laws_def by blast
  from assms(1,2) out(1) have "out = concat (map (batch_item (gm_store m)) ids)"
    unfolding tree_laws_def by blast
  with read_batch_items [OF assms(2) store] out(2) show ?thesis
    by (simp add: collect_options_Some)
qed

lemma fold_lookup:
  fixes m0 :: "(path \<times> tree_entry) list"
  assumes "btree_sorted m0"
  shows "btree_sorted (fold (\<lambda>e m. if te_path e \<in> S then btree_insert (te_path e) e m else m) es m0)
    \<and> (\<forall>p e. map_of (fold (\<lambda>e m. if te_path e \<in> S then btree_insert (te_path e) e m else m) es m0) p = Some e
         \<longrightarrow> (map_of m0 p = Some e \<or> (e \<in> set es \<and> te_path e = p \<and> p \<in> S)))
    \<and> (\<forall>p. map_of (fold (\<lambda>e m. if te_path e \<in> S then btree_insert (te_path e) e m else m) es m0) p = None
         \<longleftrightarrow> map_of m0 p = None \<and> (\<forall>e \<in> set es. te_path e = p \<longrightarrow> p \<notin> S))"
  using assms
proof (induction es arbitrary: m0)
  case (Cons e es)
  let ?m = "if te_path e \<in> S then btree_insert (te_path e) e m0 else m0"
  have s: "btree_sorted ?m"
    using Cons.prems by (simp add: btree_sorted_entry)
  have l: "map_of ?m p = (if te_path e \<in> S \<and> p = te_path e then Some e else map_of m0 p)" for p
    using Cons.prems by (simp add: map_of_btree_entry)
  from Cons.IH [OF s] show ?case
    by (simp only: fold.simps comp_def l) (auto split: if_splits)
qed auto

lemma concat_chunks: "0 < n \<Longrightarrow> concat (chunks n xs) = xs"
proof (induction n xs rule: chunks.induct)
  case (1 n xs)
  then show ?case by (cases "xs = []") (simp_all add: chunks.simps [of n xs] chunks.simps [of n "[]"])
qed

text \<open>A map that holds entries of the tree only, and at some paths all it has.\<close>

definition finds :: "'i git_model \<Rightarrow> string \<Rightarrow> path set \<Rightarrow> (path \<times> tree_entry) list \<Rightarrow> bool" where
  "finds m t P mm \<longleftrightarrow> btree_sorted mm \<and> (\<forall>p. map_of mm p = (if p \<in> P then gm_node m t p else None))"

lemma finds_listing:
  assumes "finds m t P mm" "lists m t es" "\<forall>p \<in> S. \<forall>e. gm_node m t p = Some e \<longrightarrow> e \<in> set es"
    and path: "\<And>p e. gm_node m t p = Some e \<Longrightarrow> te_path e = p"
  shows "finds m t (P \<union> S) (fold (\<lambda>e m. if te_path e \<in> S then btree_insert (te_path e) e m else m) es mm)"
    (is "finds m t _ ?r")
proof -
  from assms(1) have mm: "btree_sorted mm" "\<And>p. map_of mm p = (if p \<in> P then gm_node m t p else None)"
    by (auto simp: finds_def)
  note f = fold_lookup [OF mm(1), of S es]
  have "map_of ?r p = (if p \<in> P \<union> S then gm_node m t p else None)" for p
  proof (cases "map_of ?r p")
    case None
    with f have n: "map_of mm p = None" "\<And>e. e \<in> set es \<Longrightarrow> te_path e = p \<Longrightarrow> p \<notin> S" by auto
    have "p \<in> S \<Longrightarrow> gm_node m t p = None"
      using n(2) assms(3) path by (cases "gm_node m t p") blast+
    then show ?thesis using None n(1) mm(2) by auto
  next
    case (Some e)
    with f have "map_of mm p = Some e \<or> (e \<in> set es \<and> te_path e = p \<and> p \<in> S)" by blast
    then show ?thesis using Some mm(2) assms(2) by (auto simp: lists_def split: if_splits)
  qed
  with f show ?thesis by (simp add: finds_def)
qed

lemma finds_Nil: "finds m t {} []"
  by (simp add: finds_def)

lemma tree_entries_spec:
  assumes laws: "tree_laws g m" "listing_laws g m" and t: "is_tree g t"
    and res: "tree_entries g t ps = Some mm"
  shows "finds m t (set ps) mm"
proof -
  define f where "f = (\<lambda>chunk mm. map_option (\<lambda>raw. fold (\<lambda>e m. if te_path e \<in> set chunk
      then btree_insert (te_path e) e m else m) (parse_ls_tree raw) mm) (gt_ls_tree g t chunk))"
  have "finds m t (P \<union> set (concat cs)) r" if "try_fold f cs mm = Some r" "finds m t P mm" for cs mm r P
    using that
  proof (induction cs arbitrary: mm P)
    case (Cons c cs)
    from Cons.prems(1) obtain raw where raw: "gt_ls_tree g t c = Some raw"
      and rest: "try_fold f cs (fold (\<lambda>e m. if te_path e \<in> set c then btree_insert (te_path e) e m else m)
                  (parse_ls_tree raw) mm) = Some r"
      by (auto simp: f_def bind_eq_Some_conv)
    obtain es where es: "raw = ls_tree_output es" "lists m t es"
      "\<forall>p \<in> set c. \<forall>e. gm_node m t p = Some e \<longrightarrow> e \<in> set es"
      using ls_treeD [OF laws(2) t raw] by blast
    have "parse_ls_tree raw = es"
      using es lists_ok [OF laws(1) t] by (simp add: parse_ls_tree_output)
    with rest Cons.IH [of _ "P \<union> set c"] finds_listing [OF Cons.prems(2) es(2,3) node_path [OF laws(1) t]]
    show ?case by (simp add: Un_assoc)
  qed simp
  from this [OF _ finds_Nil] res show ?thesis
    unfolding tree_entries_def f_def [symmetric] by (fastforce simp: concat_chunks)
qed

text \<open>The listings of the folders of one tree.\<close>

definition sound_listing :: "'i git_model \<Rightarrow> string \<Rightarrow> listing \<Rightarrow> bool" where
  "sound_listing m t l \<longleftrightarrow> (\<forall>f es. map_of l f = Some es \<longrightarrow> set es = children m t f)"

lemma find_child:
  assumes "sound_listing m t l" "map_of l (folder_of p) = Some es"
    and path: "\<And>p e. gm_node m t p = Some e \<Longrightarrow> te_path e = p"
  shows "find (\<lambda>e. te_path e = p) es = gm_node m t p"
proof -
  from assms(1,2) have es: "set es = children m t (folder_of p)" by (simp add: sound_listing_def)
  show ?thesis
  proof (cases "find (\<lambda>e. te_path e = p) es")
    case None
    then have "e \<notin> set es" if "te_path e = p" for e using that by (auto simp: find_None_iff)
    then show ?thesis
      using None es path by (cases "gm_node m t p") (auto simp: children_def)
  next
    case (Some e)
    then have "e \<in> set es" "te_path e = p" by (auto simp: find_Some_iff)
    with Some es show ?thesis by (auto simp: children_def)
  qed
qed

lemma listed_folder_sound:
  assumes "sound_listing m t l" "listed_folder l f = Some s"
    and "tree_laws g m" "is_tree g t"
  shows "gm_folder m t f = Some s \<and> gm_node m t f \<noteq> None"
proof -
  from assms(2) obtain es e where e: "map_of l (folder_of f) = Some es" "find (\<lambda>e. te_path e = f) es = Some e"
    "te_kind e = ''tree''" "te_oid e = s"
    by (auto simp: listed_folder_def split: option.splits if_splits)
  from find_child [OF assms(1) e(1) node_path [OF assms(3,4)]] e(2)
  have n: "gm_node m t f = Some e" by simp
  with node_lawD [OF assms(3,4) n] e show ?thesis by (simp add: node_law_def)
qed

lemma load_folders:
  assumes laws: "tree_laws g m" and t: "is_tree g t"
    and "\<forall>((i, f), s) \<in> set w. i = 0 \<and> gm_folder m t f = Some s"
    and "map (gm_store m) (map snd w) = map Some objs"
    and "sound_listing m t l"
    and "try_fold (load_folder [t]) (zip (map fst w) objs) [l] = Some ls"
  shows "\<exists>l'. ls = [l'] \<and> sound_listing m t l'
           \<and> (\<forall>f. map_of l' f \<noteq> None \<longleftrightarrow> map_of l f \<noteq> None \<or> f \<in> (snd \<circ> fst) ` set w)"
  using assms(3-6)
proof (induction w arbitrary: objs l)
  case (Cons x w)
  from Cons.prems(1) obtain f s where x: "x = ((0, f), s)" and f: "gm_folder m t f = Some s"
    by (cases x) auto
  from Cons.prems(2) obtain obj objs' where o: "objs = obj # objs'" "gm_store m s = Some obj"
    "map (gm_store m) (map snd w) = map Some objs'"
    by (cases objs) (auto simp: x)
  from folder_lawD [OF laws t f] o(2) obtain rs where rs:
    "obj = \<lparr>go_kind = ''tree'', go_data = concat (map record_bytes rs)\<rparr>"
    "list_all (record_ok (id_bytes t)) rs" "record_entry f ` set rs = children m t f"
    unfolding folder_law_def by blast
  let ?l = "AList.update f (map (record_entry f) rs) l"
  have step: "load_folder [t] ((0, f), obj) [l] = Some [?l]"
    using rs by (simp add: parse_tree_object_records)
  have "sound_listing m t ?l"
    using Cons.prems(3) rs(3) by (auto simp: sound_listing_def update_conv)
  moreover have "try_fold (load_folder [t]) (zip (map fst w) objs') [?l] = Some ls"
    using Cons.prems(4) step by (simp add: x o(1))
  moreover have "\<forall>((i, f), s) \<in> set w. i = 0 \<and> gm_folder m t f = Some s"
    using Cons.prems(1) by auto
  ultimately obtain l' where l': "ls = [l']" "sound_listing m t l'"
    "\<forall>f. map_of l' f \<noteq> None \<longleftrightarrow> map_of ?l f \<noteq> None \<or> f \<in> (snd \<circ> fst) ` set w"
    using Cons.IH [of objs' ?l] o(3) by blast
  have "map_of ?l h \<noteq> None \<longleftrightarrow> map_of l h \<noteq> None \<or> h = f" for h
    by (simp add: update_conv)
  with l' show ?case by (auto simp: x)
qed auto

lemma in_map_filter: "y \<in> set (List.map_filter f xs) \<longleftrightarrow> (\<exists>x \<in> set xs. f x = Some y)"
  by (force simp: List.map_filter_def)

lemma list_level_spec:
  assumes laws: "tree_laws g m" and t: "is_tree g t" and l: "sound_listing m t l"
    and res: "list_level g [t] level [l] = Some ls"
  shows "\<exists>l'. ls = [l'] \<and> sound_listing m t l'
           \<and> (\<forall>f. map_of l' f \<noteq> None \<longleftrightarrow> map_of l f \<noteq> None \<or> (f \<in> set level \<and> listed_folder l f \<noteq> None))"
proof -
  let ?w = "wanted_folders [l] level"
  have w: "x \<in> set ?w \<longleftrightarrow> (\<exists>f \<in> set level. \<exists>s. x = ((0, f), s) \<and> listed_folder l f = Some s)" for x
    by (auto simp: wanted_folders_def in_map_filter)
  have ok: "\<forall>((i, f), s) \<in> set ?w. i = 0 \<and> gm_folder m t f = Some s"
  proof (rule ballI, clarify)
    fix i f s
    assume "((i, f), s) \<in> set ?w"
    then have "i = 0" "listed_folder l f = Some s" unfolding w by auto
    with listed_folder_sound [OF l _ laws t, of f s]
    show "i = 0 \<and> gm_folder m t f = Some s" by simp
  qed
  from res obtain objs where objs: "read_objects g (map snd ?w) = Some objs"
    "try_fold (load_folder [t]) (zip (map fst ?w) objs) [l] = Some ls"
    by (auto simp: list_level_def Let_def bind_eq_Some_conv)
  have "field_ok s" if "gm_folder m t f = Some s" for f s
    using folder_lawD [OF laws t that] by (simp add: folder_law_def)
  with ok have "list_all field_ok (map snd ?w)"
    by (auto simp: list_all_iff)
  from load_folders [OF laws t ok read_objects_spec [OF laws this objs(1)] l objs(2)]
  obtain l' where l': "ls = [l']" "sound_listing m t l'"
    "\<And>f. map_of l' f \<noteq> None \<longleftrightarrow> map_of l f \<noteq> None \<or> f \<in> (snd \<circ> fst) ` set ?w" by blast
  have k: "f \<in> (snd \<circ> fst) ` set ?w \<longleftrightarrow> f \<in> set level \<and> listed_folder l f \<noteq> None" for f
  proof
    assume "f \<in> (snd \<circ> fst) ` set ?w"
    then obtain x where "x \<in> set ?w" "f = snd (fst x)" by auto
    then show "f \<in> set level \<and> listed_folder l f \<noteq> None" unfolding w by auto
  next
    assume "f \<in> set level \<and> listed_folder l f \<noteq> None"
    then obtain s where "((0, f), s) \<in> set ?w" unfolding w by auto
    then show "f \<in> (snd \<circ> fst) ` set ?w" by (rule rev_image_eqI) simp
  qed
  show ?thesis
    by (rule exI [of _ l']) (simp only: l' k simp_thms)
qed

definition is_folder :: "'i git_model \<Rightarrow> string \<Rightarrow> path \<Rightarrow> bool" where
  "is_folder m t f \<longleftrightarrow> (\<exists>e. gm_node m t f = Some e \<and> te_kind e = ''tree'')"

lemma parent_is_folder:
  assumes "tree_laws g m" "is_tree g t" "gm_node m t p = Some e" "folder_of p \<noteq> []"
  shows "is_folder m t (folder_of p)"
proof -
  obtain n where "p = folder_of p @ ''/'' @ n"
    using folder_of_split [OF refl assms(4)] by blast
  with node_lawD [OF assms(1-3)] show ?thesis
    unfolding node_law_def is_folder_def by blast
qed

lemma sorted_below_take:
  assumes "sorted_wrt (<) ks" "x \<in> set ks" "k < length ks" "x < ks ! k"
  shows "(x::nat) \<in> set (take k ks)"
proof -
  from assms(2) obtain i where i: "i < length ks" "ks ! i = x" by (auto simp: in_set_conv_nth)
  have "i < k"
  proof (rule ccontr)
    assume "\<not> i < k"
    then have "ks ! k \<le> ks ! i"
      using assms(1,3) i(1) by (cases "i = k") (auto simp: sorted_wrt_iff_nth_less intro: less_imp_le)
    with assms(4) i(2) show False by simp
  qed
  with i assms(3) show ?thesis by (auto simp: in_set_conv_nth intro!: exI [of _ i])
qed

lemma load_levels:
  assumes laws: "tree_laws g m" and t: "is_tree g t"
    and l0: "sound_listing m t l0" "map_of l0 [] \<noteq> None"
    and L: "L = folder_levels fs"
  shows "try_fold (\<lambda>(_, level). list_level g [t] level) (take k L) [l0] = Some ls \<Longrightarrow>
    \<exists>l. ls = [l] \<and> sound_listing m t l \<and> map_of l [] \<noteq> None
      \<and> (\<forall>f \<in> all_folders fs. depth f \<in> set (map fst (take k L)) \<longrightarrow> is_folder m t f \<longrightarrow> map_of l f \<noteq> None)"
proof (induction k arbitrary: ls)
  case 0
  then have "ls = [l0]" by simp
  then show ?case using l0 by simp
next
  case (Suc k)
  show ?case
  proof (cases "k < length L")
    case False
    then have "take (Suc k) L = take k L" by simp
    with Suc show ?thesis by simp
  next
    case True
    obtain d level where x: "L ! k = (d, level)" by (cases "L ! k")
    have tk: "take (Suc k) L = take k L @ [(d, level)]"
      using True x by (simp add: take_Suc_conv_app_nth)
    from Suc.prems obtain ls' where s: "try_fold (\<lambda>(_, level). list_level g [t] level) (take k L) [l0] = Some ls'"
      "list_level g [t] level ls' = Some ls"
      unfolding tk try_fold_append by (auto simp: bind_eq_Some_conv)
    from Suc.IH [OF s(1)] obtain l where l: "ls' = [l]" "sound_listing m t l" "map_of l [] \<noteq> None"
      "\<And>f. f \<in> all_folders fs \<Longrightarrow> depth f \<in> set (map fst (take k L)) \<Longrightarrow> is_folder m t f \<Longrightarrow> map_of l f \<noteq> None"
      by blast
    from list_level_spec [OF laws t l(2) s(2) [unfolded l(1)]] obtain l' where l': "ls = [l']"
      "sound_listing m t l'"
      "\<And>f. map_of l' f \<noteq> None \<longleftrightarrow> map_of l f \<noteq> None \<or> (f \<in> set level \<and> listed_folder l f \<noteq> None)" by blast
    have in_L: "(d, level) \<in> set (folder_levels fs)"
      using True x L nth_mem by metis
    have new: "map_of l' f \<noteq> None" if f: "f \<in> all_folders fs" "depth f = d" "is_folder m t f" for f
    proof -
      have "f \<in> set level" using folder_levels_at [OF in_L] f by simp
      moreover have parent: "map_of l (folder_of f) \<noteq> None"
      proof (cases "folder_of f = []")
        case True
        with l(3) show ?thesis by simp
      next
        case False
        from f(3) obtain e where "gm_node m t f = Some e" by (auto simp: is_folder_def)
        then have "is_folder m t (folder_of f)" using parent_is_folder [OF laws t _ False] by simp
        moreover have pf: "folder_of f \<in> all_folders fs"
          using f(1) folder_chain_closed [OF _ False] by auto
        moreover have "depth (folder_of f) \<in> set (take k (map fst L))"
        proof (rule sorted_below_take)
          show "sorted_wrt (<) (map fst L)" unfolding L by (rule folder_levels_sorted)
          show "depth (folder_of f) \<in> set (map fst L)"
            unfolding L using pf by (rule folder_levels_depth)
          show "k < length (map fst L)" using True by simp
          show "depth (folder_of f) < map fst L ! k"
            using depth_folder_of [OF False] f(2) True x by simp
        qed
        ultimately show ?thesis using l(4) by (simp add: take_map)
      qed
      moreover have "listed_folder l f \<noteq> None"
      proof -
        from parent obtain es where es: "map_of l (folder_of f) = Some es" by auto
        from find_child [OF l(2) es node_path [OF laws t]] f(3) show ?thesis
          using es by (auto simp: listed_folder_def is_folder_def)
      qed
      ultimately show ?thesis using l'(3) [of f] by blast
    qed
    have old: "map_of l' f \<noteq> None"
      if "f \<in> all_folders fs" "depth f \<in> set (map fst (take k L))" "is_folder m t f" for f
      using l(4) [OF that] l'(3) by simp
    have d: "depth f \<in> set (map fst (take k L)) \<or> depth f = d" if "depth f \<in> set (map fst (take (Suc k) L))" for f
      using that unfolding tk by auto
    show ?thesis
    proof (intro exI conjI ballI impI)
      show "ls = [l']" "sound_listing m t l'" by (fact l')+
      show "map_of l' [] \<noteq> None" using l(3) l'(3) by simp
      fix f
      assume "f \<in> all_folders fs" "depth f \<in> set (map fst (take (Suc k) L))" "is_folder m t f"
      then show "map_of l' f \<noteq> None" using d old new by metis
    qed
  qed
qed

lemma folder_listings_spec:
  assumes laws: "tree_laws g m" and t: "is_tree g t"
    and res: "folder_listings g [t] fs = Some ms"
  shows "\<exists>l. ms = [l] \<and> sound_listing m t l \<and> map_of l [] \<noteq> None
           \<and> (\<forall>f \<in> all_folders fs. is_folder m t f \<longrightarrow> map_of l f \<noteq> None)"
proof -
  have tt: "gm_folder m t [] = Some t" using tree_idD [OF laws] t by (simp add: is_tree_def)
  note fl = folder_lawD [OF laws t tt, unfolded folder_law_def]
  from res obtain objs where objs: "read_objects g [t] = Some objs"
    by (auto simp: folder_listings_def bind_eq_Some_conv)
  with read_objects_spec [OF laws _ objs] fl obtain obj where obj: "objs = [obj]" "gm_store m t = Some obj"
    by auto
  with fl obtain rs where rs: "obj = \<lparr>go_kind = ''tree'', go_data = concat (map record_bytes rs)\<rparr>"
    "list_all (record_ok (id_bytes t)) rs" "record_entry [] ` set rs = children m t []"
    by blast
  let ?l0 = "[([], map (record_entry []) rs)]"
  have l0: "sound_listing m t ?l0" "map_of ?l0 [] \<noteq> None"
    using rs(3) by (auto simp: sound_listing_def split: if_splits)
  let ?L = "folder_levels fs"
  have "try_fold (\<lambda>(_, level). list_level g [t] level) (take (length ?L) ?L) [?l0] = Some ms"
    using res objs obj rs by (simp add: folder_listings_def root_object_def parse_tree_object_records)
  from load_levels [OF laws t l0 refl this, unfolded take_all [OF order.refl]] obtain l where l: "ms = [l]" "sound_listing m t l" "map_of l [] \<noteq> None"
    "\<And>f. f \<in> all_folders fs \<Longrightarrow> depth f \<in> set (map fst ?L) \<Longrightarrow> is_folder m t f \<Longrightarrow> map_of l f \<noteq> None"
    by blast
  show ?thesis
  proof (intro exI conjI ballI impI)
    show "ms = [l]" "sound_listing m t l" "map_of l [] \<noteq> None" by (fact l)+
    fix f
    assume f: "f \<in> all_folders fs" and "is_folder m t f"
    then show "map_of l f \<noteq> None" by (intro l(4) folder_levels_depth)
  qed
qed

lemma entries_by_path_spec:
  assumes laws: "tree_laws g m" "listing_laws g m" and t: "is_tree g t"
    and res: "entries_by_path g t ps = Some mm"
  shows "finds m t (set ps) mm"
proof -
  note path = node_path [OF laws(1) t]
  consider (none) "ps = []" | (all) "ps \<noteq> []" "list_ex (\<lambda>p. newline \<in> set p) ps"
    | (walk) "ps \<noteq> []" "\<not> list_ex (\<lambda>p. newline \<in> set p) ps" by blast
  then show ?thesis
  proof cases
    case none
    with res show ?thesis by (simp add: entries_by_path_def finds_Nil)
  next
    case all
    with res obtain raw where raw: "gt_ls_tree_all g t = Some raw"
      and mm: "mm = fold (\<lambda>e m. if te_path e \<in> set ps then btree_insert (te_path e) e m else m) (parse_ls_tree raw) []"
      by (auto simp: entries_by_path_def)
    obtain es where es: "raw = ls_tree_output es" "lists m t es"
      "\<forall>p e. gm_node m t p = Some e \<longrightarrow> e \<in> set es"
      using ls_tree_allD [OF laws(2) t raw] by blast
    have "parse_ls_tree raw = es"
      using es lists_ok [OF laws(1) t] by (simp add: parse_ls_tree_output)
    with finds_listing [OF finds_Nil es(2), of "set ps"] es(3) path mm show ?thesis by simp
  next
    case walk
    with res obtain ms where ms: "folder_listings g [t] (map folder_of ps) = Some ms"
      and mm: "mm = fold (\<lambda>p m. (case Option.bind (map_of (if ms = [] then [] else last ms) (folder_of p)) (find (\<lambda>e. te_path e = p)) of
                     Some e \<Rightarrow> btree_insert p e m | None \<Rightarrow> m)) ps []"
      by (auto simp: entries_by_path_def Let_def)
    from folder_listings_spec [OF laws(1) t ms] obtain l where l: "ms = [l]" "sound_listing m t l" "map_of l [] \<noteq> None"
      "\<And>f. f \<in> all_folders (map folder_of ps) \<Longrightarrow> is_folder m t f \<Longrightarrow> map_of l f \<noteq> None" by blast
    have look: "Option.bind (map_of l (folder_of p)) (find (\<lambda>e. te_path e = p)) = gm_node m t p" if "p \<in> set ps" for p
    proof (cases "map_of l (folder_of p)")
      case (Some es)
      with find_child [OF l(2) this path] show ?thesis by simp
    next
      case None
      with l(3) have ne: "folder_of p \<noteq> []" by auto
      have "folder_of p \<in> all_folders (map folder_of ps)"
        using that folder_chain_self [OF ne] by auto
      with None l(4) have "\<not> is_folder m t (folder_of p)" by blast
      then have "gm_node m t p = None"
        using parent_is_folder [OF laws(1) t _ ne] by (cases "gm_node m t p") auto
      with None show ?thesis by simp
    qed
    have "finds m t (P \<union> set qs) (fold (\<lambda>p m. (case Option.bind (map_of l (folder_of p)) (find (\<lambda>e. te_path e = p)) of
            Some e \<Rightarrow> btree_insert p e m | None \<Rightarrow> m)) qs m0)"
      if "finds m t P m0" "set qs \<subseteq> set ps" for qs P m0
      using that
    proof (induction qs arbitrary: P m0)
      case (Cons q qs)
      have "finds m t (P \<union> {q}) (case gm_node m t q of Some e \<Rightarrow> btree_insert q e m0 | None \<Rightarrow> m0)"
        using Cons.prems(1)
        by (auto simp: finds_def btree_sorted_entry map_of_btree_entry split: option.splits)
      from Cons.IH [OF this] Cons.prems(2) look show ?case by (simp add: Un_assoc)
    qed simp
    from this [OF finds_Nil subset_refl] show ?thesis by (simp add: mm l(1))
  qed
qed

end
