(* ===== verification/Git_Index.thy ===== *)
theory Git_Index
  imports Git_Store
begin

text \<open>
  The laws of the index: what \<open>read-tree\<close>, \<open>ls-files\<close>, \<open>update-index\<close> and
  \<open>write-tree\<close> do to its slots, and what a sequence of \<open>--index-info\<close> lines leaves at a path.
\<close>

section \<open>Laws\<close>

text \<open>A path is resolved by a three-way \<open>read-tree\<close> when at most one side changed it.\<close>

definition one_side :: "stage option \<Rightarrow> stage option \<Rightarrow> stage option \<Rightarrow> stage option \<Rightarrow> bool" where
  "one_side b u t v \<longleftrightarrow> (u = t \<and> v = u) \<or> (b = u \<and> v = t) \<or> (b = t \<and> v = u)"

definition merge_slot :: "stage option \<Rightarrow> stage option \<Rightarrow> stage option \<Rightarrow> slot \<Rightarrow> bool" where
  "merge_slot b u t s \<longleftrightarrow>
     (case s of
        Merged v \<Rightarrow> one_side b u t v
      | Unmerged x y z \<Rightarrow>
          (x, y, z) = (b, u, t) \<and> (x, y, z) \<noteq> (None, None, None)
          \<and> (x \<noteq> None \<and> y \<noteq> None \<and> z \<noteq> None \<longrightarrow> x \<noteq> y \<and> x \<noteq> z \<and> y \<noteq> z))"

fun slot_stage :: "slot \<Rightarrow> nat \<Rightarrow> stage option" where
  "slot_stage (Merged v) n = None"
| "slot_stage (Unmerged x y z) n = (if n = 1 then x else if n = 2 then y else if n = 3 then z else None)"

definition unmerged_line :: "path \<times> nat \<times> stage \<Rightarrow> string" where
  "unmerged_line r =
     (case r of (p, n, mode, oid) \<Rightarrow> mode @ [space] @ oid @ [space] @ show_nat n @ [tab] @ p)"

definition unmerged_ok :: "path \<times> nat \<times> stage \<Rightarrow> bool" where
  "unmerged_ok r \<longleftrightarrow> (case r of (p, n, mode, oid) \<Rightarrow> path_ok p \<and> field_ok mode \<and> field_ok oid \<and> 1 \<le> n \<and> n \<le> 3)"

definition lines_output :: "string list \<Rightarrow> string" where
  "lines_output ls = concat (map (\<lambda>l. l @ [nul]) ls)"

fun set_line :: "info_line \<Rightarrow> (path \<Rightarrow> slot) \<Rightarrow> (path \<Rightarrow> slot)" where
  "set_line (Remove z p) f = f(p := Merged None)"
| "set_line (Put mode oid p) f = f(p := Merged (Some (mode, oid)))"

definition index_laws :: "'i git_tool \<Rightarrow> 'i git_model \<Rightarrow> bool" where
  "index_laws g m \<longleftrightarrow>
     (\<forall>t i. is_tree g t \<longrightarrow> gt_read_tree g t = Some i \<longrightarrow> (\<forall>p. gm_slot m i p = Merged (leaf m t p)))
     \<and> (\<forall>b u t i. is_tree g b \<longrightarrow> is_tree g u \<longrightarrow> is_tree g t \<longrightarrow> gt_read_tree_3 g b u t = Some i \<longrightarrow>
          (\<forall>p. merge_slot (leaf m b p) (leaf m u p) (leaf m t p) (gm_slot m i p)))
     \<and> (\<forall>i ps out. gt_ls_files g i ps = Some out \<longrightarrow>
          (\<exists>fs. out = lines_output fs \<and> list_all path_ok fs
             \<and> (\<forall>q \<in> set ps. \<forall>p. under q p \<longrightarrow> gm_slot m i p \<noteq> Merged None \<longrightarrow> p \<in> set fs)))
     \<and> (\<forall>i out. gt_ls_files_u g i = Some out \<longrightarrow>
          (\<exists>rs. out = lines_output (map unmerged_line rs) \<and> list_all unmerged_ok rs
             \<and> (\<forall>p n s. (p, n, s) \<in> set rs \<longleftrightarrow> slot_stage (gm_slot m i p) n = Some s)))
     \<and> (\<forall>i ls i'. gt_update_index g i ls = Some i' \<longrightarrow> gm_slot m i' = fold set_line ls (gm_slot m i))
     \<and> (\<forall>i t. gt_write_tree g i = Some t \<longrightarrow> is_tree g t \<and> (\<forall>p. gm_slot m i p = Merged (leaf m t p)))"

definition git_laws :: "'i git_tool \<Rightarrow> 'i git_model \<Rightarrow> bool" where
  "git_laws g m \<longleftrightarrow> tree_laws g m \<and> listing_laws g m \<and> index_laws g m"

lemma git_lawsD: "git_laws g m \<Longrightarrow> tree_laws g m" "git_laws g m \<Longrightarrow> listing_laws g m" "git_laws g m \<Longrightarrow> index_laws g m"
  by (simp_all add: git_laws_def)

lemma index_lawsD:
  assumes "git_laws g m"
  shows slot_read_tree: "is_tree g t \<Longrightarrow> gt_read_tree g t = Some i \<Longrightarrow> gm_slot m i p = Merged (leaf m t p)"
    and slot_read_tree_3: "is_tree g b \<Longrightarrow> is_tree g u \<Longrightarrow> is_tree g t \<Longrightarrow> gt_read_tree_3 g b u t = Some i \<Longrightarrow>
      merge_slot (leaf m b p) (leaf m u p) (leaf m t p) (gm_slot m i p)"
    and slot_update: "gt_update_index g i ls = Some i' \<Longrightarrow> gm_slot m i' = fold set_line ls (gm_slot m i)"
    and slot_write: "gt_write_tree g i = Some t \<Longrightarrow> is_tree g t \<and> (\<forall>p. gm_slot m i p = Merged (leaf m t p))"
    and ls_filesD: "gt_ls_files g i ps = Some out \<Longrightarrow> \<exists>fs. out = lines_output fs \<and> list_all path_ok fs
           \<and> (\<forall>q \<in> set ps. \<forall>p. under q p \<longrightarrow> gm_slot m i p \<noteq> Merged None \<longrightarrow> p \<in> set fs)"
    and ls_files_uD: "gt_ls_files_u g i = Some out \<Longrightarrow> \<exists>rs. out = lines_output (map unmerged_line rs)
           \<and> list_all unmerged_ok rs
           \<and> (\<forall>p n s. (p, n, s) \<in> set rs \<longleftrightarrow> slot_stage (gm_slot m i p) n = Some s)"
  using assms by (simp_all add: git_laws_def index_laws_def)

lemma nul_records_output: "list_all path_ok fs \<Longrightarrow> nul_records (lines_output fs) = fs"
  unfolding lines_output_def by (rule nul_records_ended) (auto simp: list_all_iff path_ok_def)

section \<open>Sequences of lines\<close>

fun line_path :: "info_line \<Rightarrow> path" where
  "line_path (Remove z p) = p"
| "line_path (Put mode oid p) = p"

lemma fold_lines_other: "p \<notin> line_path ` set ls \<Longrightarrow> fold set_line ls f p = f p"
proof (induction ls arbitrary: f)
  case (Cons l ls)
  then show ?case by (cases l) auto
qed simp

lemma fold_lines_removed:
  assumes "\<And>mode oid. Put mode oid p \<notin> set ls" "p \<in> line_path ` set ls \<or> f p = Merged None"
  shows "fold set_line ls f p = Merged None"
  using assms
proof (induction ls arbitrary: f)
  case (Cons l ls)
  have r: "Put mode oid p \<notin> set ls" for mode oid using Cons.prems(1) by simp
  show ?case
  proof (cases l)
    case (Remove z q)
    then show ?thesis using Cons.IH [OF r] Cons.prems(2) by auto
  next
    case (Put mode oid q)
    then have "q \<noteq> p" using Cons.prems(1) by auto
    then show ?thesis using Put Cons.IH [OF r] Cons.prems(2) by auto
  qed
qed simp

lemma fold_lines_put:
  assumes "\<And>z. Remove z p \<notin> set ls" "\<And>mode oid. Put mode oid p \<in> set ls \<Longrightarrow> (mode, oid) = v"
    and "p \<in> line_path ` set ls \<or> f p = Merged (Some v)"
  shows "fold set_line ls f p = Merged (Some v)"
  using assms
proof (induction ls arbitrary: f)
  case (Cons l ls)
  have r: "Remove z p \<notin> set ls" "Put mode oid p \<in> set ls \<Longrightarrow> (mode, oid) = v" for z mode oid
    using Cons.prems(1,2) by auto
  show ?case
  proof (cases l)
    case (Remove z q)
    then have "q \<noteq> p" using Cons.prems(1) by auto
    then show ?thesis using Remove Cons.IH [OF r] Cons.prems(3) by auto
  next
    case (Put mode oid q)
    then have "q = p \<Longrightarrow> (mode, oid) = v" using Cons.prems(2) by auto
    then show ?thesis using Put Cons.IH [OF r] Cons.prems(3) by (cases "q = p") auto
  qed
qed simp

end
