(* ===== verification/Tree_Merge.thy ===== *)
theory Tree_Merge
  imports Git_Index
begin

text \<open>
  The three-way merge of trees (\<open>origin-http-server/src/tree_merge.rs\<close>): \<open>read-tree\<close> in a
  scratch index resolves what one side changed, \<open>merge-file\<close> the files both did, and what is
  left is a conflict that keeps ours. With it the filter of a tree's entries, which the restore of
  unsaved work uses to put paths back.
\<close>

section \<open>The code\<close>

record merge_result =
  mr_tree :: string
  mr_conflicts :: "path list"

type_synonym stages = "stage option \<times> stage option \<times> stage option" \<comment> \<open>base, ours, theirs\<close>

definition is_regular :: "string \<Rightarrow> bool" where
  "is_regular mode \<longleftrightarrow> mode = ''100644'' \<or> mode = ''100755''"

fun set_stage :: "nat \<Rightarrow> stage \<Rightarrow> stages \<Rightarrow> stages" where
  "set_stage n s (b, u, t) =
     (if n = 1 then (Some s, u, t) else if n = 2 then (b, Some s, t) else (b, u, Some s))"

text \<open>A record of \<open>ls-files -u\<close>: mode, object, stage and path.\<close>

definition unmerged_record :: "string \<Rightarrow> (path \<times> nat \<times> stage) option" where
  "unmerged_record r =
     (case split_once tab r of
        None \<Rightarrow> None
      | Some (meta, p) \<Rightarrow>
          if \<not> valid_utf8 meta \<or> \<not> valid_utf8 p then None
          else (let fields = split_on space meta;
                    mode = hd fields;
                    oid = (if 1 < length fields then fields ! 1 else [])
                in case (if 2 < length fields then parse_usize (fields ! 2) else None) of
                     None \<Rightarrow> None
                   | Some n \<Rightarrow> if 1 \<le> n \<and> n \<le> 3 then Some (p, n, (mode, oid)) else None))"

definition add_record :: "string \<Rightarrow> (path \<times> stages) list \<Rightarrow> (path \<times> stages) list option" where
  "add_record r m =
     map_option (\<lambda>(p, n, s).
        btree_entry p (\<lambda>old. set_stage n s (case old of None \<Rightarrow> (None, None, None) | Some x \<Rightarrow> x)) m)
       (unmerged_record r)"

definition read_stages :: "string \<Rightarrow> (path \<times> stages) list option" where
  "read_stages raw = try_fold add_record (nul_records raw) []"

fun all_regular :: "stages \<Rightarrow> bool" where
  "all_regular (Some b, Some u, Some t) \<longleftrightarrow> is_regular (fst b) \<and> is_regular (fst u) \<and> is_regular (fst t)"
| "all_regular _ \<longleftrightarrow> False"

definition mergeable_entry :: "path \<times> stages \<Rightarrow> bool" where
  "mergeable_entry x \<longleftrightarrow> all_regular (snd x)"

text \<open>\<open>merge_file\<close>: \<open>None\<close> inside when the versions conflict or are binary.\<close>

definition merge_file :: "'i git_tool \<Rightarrow> string \<Rightarrow> string \<Rightarrow> string \<Rightarrow> string option option" where
  "merge_file g base ours theirs =
     map_option (\<lambda>(code, out). if code = Some 0 then Some out else None) (gt_merge_file g ours base theirs)"

definition stage_oid :: "stage option \<Rightarrow> string" where
  "stage_oid s = (case s of Some (_, oid) \<Rightarrow> oid | None \<Rightarrow> [])"

fun blob_ids :: "stages \<Rightarrow> string list" where
  "blob_ids (b, u, t) = [stage_oid b, stage_oid u, stage_oid t]"

text \<open>If only one side changed the mode, that side wins.\<close>

definition merged_mode :: "string \<Rightarrow> string \<Rightarrow> string \<Rightarrow> string" where
  "merged_mode b u t = (if u = t \<or> t = b then u else t)"

text \<open>The loop over the unmerged paths. The blobs are those of the mergeable paths, three for each,
  in the order of the paths; the index into them moves on at every mergeable path.\<close>

record merge_loop =
  ml_index :: nat
  ml_resolved :: "(path \<times> stage option) list"
  ml_conflicts :: "path list"

definition merge_path :: "'i git_tool \<Rightarrow> path list \<Rightarrow> git_object list \<Rightarrow> path \<times> stages \<Rightarrow> merge_loop \<Rightarrow> merge_loop option" where
  "merge_path g mergeable blobs entry l =
     (case entry of (p, b, u, t) \<Rightarrow>
        (if ml_index l < length mergeable \<and> mergeable ! ml_index l = p
         then (let i = 3 * ml_index l; l = l\<lparr>ml_index := ml_index l + 1\<rparr>
               in Option.bind
                    (merge_file g (go_data (blobs ! i)) (go_data (blobs ! (i + 1))) (go_data (blobs ! (i + 2))))
                    (\<lambda>merged. case merged of
                       None \<Rightarrow> Some (l\<lparr>ml_conflicts := ml_conflicts l @ [p], ml_resolved := ml_resolved l @ [(p, u)]\<rparr>)
                     | Some content \<Rightarrow>
                         map_option (\<lambda>oid.
                           l\<lparr>ml_resolved := ml_resolved l
                               @ [(p, Some (merged_mode (fst (the b)) (fst (the u)) (fst (the t)), oid))]\<rparr>)
                           (gt_hash_object g content)))
         else Some (l\<lparr>ml_conflicts := ml_conflicts l @ [p], ml_resolved := ml_resolved l @ [(p, u)]\<rparr>)))"

definition stages_oid_len :: "(path \<times> stages) list \<Rightarrow> nat" where
  "stages_oid_len st =
     (case concat (map (\<lambda>(_, b, u, t). List.map_filter id [b, u, t]) st) of
        [] \<Rightarrow> 40
      | (_, oid) # _ \<Rightarrow> length oid)"

definition resolution_info :: "(path \<times> stages) list \<Rightarrow> (path \<times> stage option) list \<Rightarrow> info_line list" where
  "resolution_info st resolved =
     map (\<lambda>(p, _). Remove (replicate (stages_oid_len st) (CHR ''0'')) p) resolved
     @ List.map_filter (\<lambda>(p, s). map_option (\<lambda>(mode, oid). Put mode oid p) s) resolved"

definition merge_trees :: "'i git_tool \<Rightarrow> string \<Rightarrow> string \<Rightarrow> string \<Rightarrow> merge_result option" where
  "merge_trees g base ours theirs =
     Option.bind (gt_read_tree_3 g base ours theirs) (\<lambda>index.
     Option.bind (gt_ls_files_u g index) (\<lambda>raw.
     Option.bind (read_stages raw) (\<lambda>st.
       if st = [] then map_option (\<lambda>t. \<lparr>mr_tree = t, mr_conflicts = []\<rparr>) (gt_write_tree g index)
       else
         let mergeable = map fst (filter mergeable_entry st)
         in Option.bind (read_objects g (concat (map (\<lambda>p. blob_ids (the (map_of st p))) mergeable))) (\<lambda>blobs.
            Option.bind (try_fold (merge_path g mergeable blobs) st
                           \<lparr>ml_index = 0, ml_resolved = [], ml_conflicts = []\<rparr>) (\<lambda>l.
            Option.bind (gt_update_index g index (resolution_info st (ml_resolved l))) (\<lambda>index.
              map_option (\<lambda>t. \<lparr>mr_tree = t, mr_conflicts = ml_conflicts l\<rparr>) (gt_write_tree g index)))))))"

definition three_way :: "'i git_tool \<Rightarrow> string option \<Rightarrow> string \<Rightarrow> string \<Rightarrow> merge_result option" where
  "three_way g base ours theirs =
     Option.bind (case base of Some b \<Rightarrow> gt_tree_id g b | None \<Rightarrow> gt_empty_tree g) (\<lambda>base_tree.
     Option.bind (gt_tree_id g ours) (\<lambda>ours_tree.
     Option.bind (gt_tree_id g theirs) (\<lambda>theirs_tree.
       if theirs_tree = base_tree \<or> theirs_tree = ours_tree
       then Some \<lparr>mr_tree = ours_tree, mr_conflicts = []\<rparr>
       else if ours_tree = base_tree
       then Some \<lparr>mr_tree = theirs_tree, mr_conflicts = []\<rparr>
       else merge_trees g base_tree ours_tree theirs_tree)))"

definition changed_paths :: "'i git_tool \<Rightarrow> string \<Rightarrow> string \<Rightarrow> path list option" where
  "changed_paths g a b = map_option (\<lambda>raw. map from_utf8_lossy (nul_records raw)) (gt_diff_names g a b)"

definition under_any :: "path list \<Rightarrow> path \<Rightarrow> bool" where
  "under_any qs p \<longleftrightarrow> list_ex (\<lambda>q. under q p) qs"

lemma rsplit_once_shorter: "rsplit_once d s = Some (a, b) \<Longrightarrow> length a < length s"
proof -
  assume "rsplit_once d s = Some (a, b)"
  hence "split_once d (rev s) = Some (rev b, rev a)"
    by (auto simp: rsplit_once_def)
  hence "rev s = rev b @ d # rev a"
    by (simp add: split_once_Some)
  thus ?thesis
    using length_rev[of s] by simp
qed

function ancestors_up :: "path \<Rightarrow> path list" where
  "ancestors_up p = (case rsplit_once (CHR ''/'') p of None \<Rightarrow> [] | Some (parent, _) \<Rightarrow> parent # ancestors_up parent)"
  by pat_completeness auto
termination
  by (relation "measure length") (auto dest: rsplit_once_shorter)

declare ancestors_up.simps [simp del]

definition tree_with_entries_from :: "'i git_tool \<Rightarrow> string \<Rightarrow> string option \<Rightarrow> path list \<Rightarrow> string option" where
  "tree_with_entries_from g t source ps =
     (if ps = [] then gt_tree_id g t
      else
        Option.bind (gt_read_tree g t) (\<lambda>index.
        Option.bind (gt_tree_id g t) (\<lambda>ident.
          let zero = replicate (length ident) (CHR ''0'')
          in Option.bind
               (try_fold (\<lambda>chunk info. map_option (\<lambda>listed.
                    info @ map (Remove zero) (filter (under_any ps) (map from_utf8_lossy (nul_records listed))))
                  (gt_ls_files g index chunk)) (chunks 256 ps) []) (\<lambda>info.
             Option.bind
               (case source of
                  None \<Rightarrow> Some info
                | Some src \<Rightarrow>
                    try_fold (\<lambda>chunk info. map_option (\<lambda>raw.
                        info @ concat (map (\<lambda>e.
                          if under_any ps (te_path e)
                          then map (Remove zero) (ancestors_up (te_path e)) @ [Put (te_mode e) (te_oid e) (te_path e)]
                          else []) (parse_ls_tree raw)))
                      (gt_ls_tree_r g src chunk)) (chunks 256 ps) info) (\<lambda>info.
             Option.bind (gt_update_index g index info) (gt_write_tree g))))))"

definition tree_without :: "'i git_tool \<Rightarrow> string \<Rightarrow> path list \<Rightarrow> string option" where
  "tree_without g t ps =
     Option.bind (gt_read_tree g t) (\<lambda>index.
     Option.bind (gt_update_index g index (map (Remove (replicate (length t) (CHR ''0''))) ps)) (gt_write_tree g))"

definition overlay :: "'i git_tool \<Rightarrow> string \<Rightarrow> string \<Rightarrow> path list \<Rightarrow> string option" where
  "overlay g base upper keep =
     Option.bind (gt_diff_raw g base upper) (\<lambda>raw.
       tree_with_entries_from g base (Some upper)
         (filter (\<lambda>p. \<not> under_any keep p)
            (map rc_path (filter (\<lambda>c. rc_status c \<noteq> CHR ''D'') (parse_raw_changes raw)))))"

section \<open>The stages of the unmerged paths\<close>

lemma unmerged_record_line:
  assumes "unmerged_ok (p, n, s)"
  shows "unmerged_record (unmerged_line (p, n, s)) = Some (p, n, s)"
    "unmerged_line (p, n, s) \<noteq> []" "nul \<notin> set (unmerged_line (p, n, s))"
proof -
  obtain mode oid where s: "s = (mode, oid)" by (cases s)
  let ?meta = "mode @ [space] @ oid @ [space] @ show_nat n"
  from assms have ok: "path_ok p" "field_ok mode" "field_ok oid" "1 \<le> n" "n \<le> 3"
    by (simp_all add: unmerged_ok_def s)
  note f = field_okD [OF ok(2)] field_okD [OF ok(3)] field_okD [OF show_nat_field [of n]]
  have "split_once tab (?meta @ tab # p) = Some (?meta, p)"
    using f by (intro split_once_no_sep) auto
  moreover have "valid_utf8 ?meta"
    using f by (intro valid_utf8_ascii) (auto simp: ord_of_def)
  moreover have "split_on space ?meta = [mode, oid, show_nat n]"
    using f by (intro split_fields_3) auto
  moreover have "parse_usize (show_nat n) = Some n"
    using ok(5) by (intro parse_usize_show_nat) simp
  ultimately show "unmerged_record (unmerged_line (p, n, s)) = Some (p, n, s)"
    using ok by (simp add: unmerged_record_def unmerged_line_def s path_ok_def Let_def)
  show "unmerged_line (p, n, s) \<noteq> []" "nul \<notin> set (unmerged_line (p, n, s))"
    using f ok(1) by (simp_all add: unmerged_line_def s path_ok_def)
qed

definition stages_hold :: "(path \<Rightarrow> slot) \<Rightarrow> (path \<times> nat) set \<Rightarrow> (path \<times> stages) list \<Rightarrow> bool" where
  "stages_hold f D st \<longleftrightarrow>
     btree_sorted st
     \<and> (\<forall>p. map_of st p =
          (let have = (\<lambda>n. if (p, n) \<in> D then slot_stage (f p) n else None)
           in if p \<in> fst ` D then Some (have 1, have 2, have 3) else None))"

lemma add_records:
  assumes "list_all unmerged_ok rs" "\<And>p n s. (p, n, s) \<in> set rs \<Longrightarrow> slot_stage (f p) n = Some s"
    and "stages_hold f D st" "try_fold add_record (map unmerged_line rs) st = Some st'"
  shows "stages_hold f (D \<union> (\<lambda>(p, n, s). (p, n)) ` set rs) st'"
  using assms
proof (induction rs arbitrary: D st)
  case (Cons r rs)
  obtain p n s where r: "r = (p, n, s)" by (cases r)
  with Cons.prems have ok: "unmerged_ok (p, n, s)" "slot_stage (f p) n = Some s" by auto
  then have n: "n = 1 \<or> n = 2 \<or> n = 3" by (auto simp: unmerged_ok_def)
  let ?st = "btree_entry p (\<lambda>old. set_stage n s (case old of None \<Rightarrow> (None, None, None) | Some x \<Rightarrow> x)) st"
  have "add_record (unmerged_line r) st = Some ?st"
    using unmerged_record_line(1) [OF ok(1)] by (simp add: add_record_def r)
  with Cons.prems(4) have rest: "try_fold add_record (map unmerged_line rs) ?st = Some st'" by simp
  from Cons.prems(3) have st: "btree_sorted st" "\<And>q. map_of st q =
      (if q \<in> fst ` D then Some (if (q, 1) \<in> D then slot_stage (f q) 1 else None,
         if (q, 2) \<in> D then slot_stage (f q) 2 else None, if (q, 3) \<in> D then slot_stage (f q) 3 else None) else None)"
    by (simp_all add: stages_hold_def Let_def)
  have none: "(p, k) \<notin> D" if "p \<notin> fst ` D" for k using that by force
  have "stages_hold f (insert (p, n) D) ?st"
    unfolding stages_hold_def Let_def map_of_btree_entry [OF st(1)]
  proof (intro conjI allI)
    show "btree_sorted ?st" using st(1) by (rule btree_sorted_entry)
    fix q
    show "(if q = p then Some (set_stage n s (case map_of st p of None \<Rightarrow> (None, None, None) | Some x \<Rightarrow> x)) else map_of st q) =
      (if q \<in> fst ` insert (p, n) D
       then Some (if (q, 1) \<in> insert (p, n) D then slot_stage (f q) 1 else None,
                  if (q, 2) \<in> insert (p, n) D then slot_stage (f q) 2 else None,
                  if (q, 3) \<in> insert (p, n) D then slot_stage (f q) 3 else None) else None)"
      using n ok(2) none by (cases "q = p") (auto simp: st(2))
  qed
  from Cons.IH [OF _ _ this rest] Cons.prems(1,2) show ?case by (simp add: r)
qed simp

lemma read_stages_spec:
  assumes laws: "git_laws g m" and raw: "gt_ls_files_u g i = Some raw" and st: "read_stages raw = Some st"
    and ne: "\<And>p. gm_slot m i p \<noteq> Unmerged None None None"
  shows "btree_sorted st"
    and "map_of st p = (case gm_slot m i p of Unmerged x y z \<Rightarrow> Some (x, y, z) | Merged v \<Rightarrow> None)"
proof -
  from ls_files_uD [OF laws raw] obtain rs where rs: "raw = lines_output (map unmerged_line rs)"
    "list_all unmerged_ok rs" "\<And>p n s. (p, n, s) \<in> set rs \<longleftrightarrow> slot_stage (gm_slot m i p) n = Some s"
    by blast
  have "list_all (\<lambda>l. l \<noteq> [] \<and> nul \<notin> set l) (map unmerged_line rs)"
    unfolding list_all_iff
  proof
    fix l
    assume "l \<in> set (map unmerged_line rs)"
    then obtain p n s where "l = unmerged_line (p, n, s)" "(p, n, s) \<in> set rs" by auto
    with rs(2) show "l \<noteq> [] \<and> nul \<notin> set l"
      using unmerged_record_line(2,3) [of p n s] by (auto simp: list_all_iff)
  qed
  then have "nul_records raw = map unmerged_line rs"
    unfolding rs(1) lines_output_def by (rule nul_records_ended)
  with st have "try_fold add_record (map unmerged_line rs) [] = Some st"
    by (simp add: read_stages_def)
  from add_records [OF rs(2) _ _ this, of "gm_slot m i" "{}"] rs(3)
  have h: "stages_hold (gm_slot m i) ((\<lambda>(p, n, s). (p, n)) ` set rs) st"
    by (simp add: stages_hold_def)
  let ?D = "(\<lambda>(p, n, s). (p, n)) ` set rs"
  have D: "(q, n) \<in> ?D \<longleftrightarrow> slot_stage (gm_slot m i q) n \<noteq> None" for q n
    using rs(3) by force
  from h show "btree_sorted st" by (simp add: stages_hold_def)
  have e: "(if x \<noteq> None then x else None) = x" for x :: "stage option" by (cases x) auto
  from h have l: "map_of st p = (if p \<in> fst ` ?D then Some (slot_stage (gm_slot m i p) 1,
      slot_stage (gm_slot m i p) 2, slot_stage (gm_slot m i p) 3) else None)"
    unfolding stages_hold_def Let_def D e by blast
  have i: "p \<in> fst ` ?D \<longleftrightarrow> (\<exists>n. slot_stage (gm_slot m i p) n \<noteq> None)"
    unfolding D [symmetric] by force
  show "map_of st p = (case gm_slot m i p of Unmerged x y z \<Rightarrow> Some (x, y, z) | Merged v \<Rightarrow> None)"
  proof (cases "gm_slot m i p")
    case (Merged v)
    with l i show ?thesis by simp
  next
    case (Unmerged x y z)
    with ne [of p] consider "x \<noteq> None" | "y \<noteq> None" | "z \<noteq> None" by auto
    then have "\<exists>n. slot_stage (Unmerged x y z) n \<noteq> None"
    proof cases
      case 1
      then show ?thesis by (intro exI [of _ 1]) simp
    next
      case 2
      then show ?thesis by (intro exI [of _ 2]) simp
    next
      case 3
      then show ?thesis by (intro exI [of _ 3]) simp
    qed
    with l i Unmerged show ?thesis by simp
  qed
qed

section \<open>The loop over the unmerged paths\<close>

definition blob_of :: "'i git_model \<Rightarrow> string \<Rightarrow> string" where
  "blob_of m oid = go_data (the (gm_store m oid))"

text \<open>All three versions are files that differ, \<open>merge-file\<close> merges them cleanly, and the result
  has the mode of the side that changed it.\<close>

fun file_merge :: "'i git_tool \<Rightarrow> 'i git_model \<Rightarrow> stages \<Rightarrow> stage \<Rightarrow> bool" where
  "file_merge g m (Some (bm, b), Some (um, u), Some (tm, t)) v \<longleftrightarrow>
     is_regular bm \<and> is_regular um \<and> is_regular tm
     \<and> (\<exists>content. merge_file g (blob_of m b) (blob_of m u) (blob_of m t) = Some (Some content)
          \<and> gt_hash_object g content = Some (snd v) \<and> fst v = merged_mode bm um tm)"
| "file_merge g m _ v \<longleftrightarrow> False"

definition stage_settled ::
  "'i git_tool \<Rightarrow> 'i git_model \<Rightarrow> (path \<times> stage option) list \<Rightarrow> path list \<Rightarrow> path \<Rightarrow> stages \<Rightarrow> bool" where
  "stage_settled g m R C p s \<longleftrightarrow>
     (if p \<in> set C then map_of R p = Some (fst (snd s))
      else \<exists>v. map_of R p = Some (Some v) \<and> file_merge g m s v)"

lemma nth_3_concat:
  assumes "list_all (\<lambda>xs. length xs = 3) xss" "k < length xss" "j < 3"
  shows "concat xss ! (3 * k + j) = xss ! k ! j"
  using assms
proof (induction xss arbitrary: k)
  case (Cons xs xss)
  then show ?case
    by (cases k) (auto simp: nth_append)
qed simp

lemma length_blob_ids [simp]: "length (blob_ids s) = 3"
  by (cases s) simp

definition entry_blobs :: "path \<times> stages \<Rightarrow> string list" where
  "entry_blobs x = blob_ids (snd x)"

lemma length_entry_blobs [simp]: "length (entry_blobs x) = 3"
  by (simp add: entry_blobs_def)

lemma mergeable_entry_simps [simp]: "mergeable_entry (p, s) = all_regular s" "entry_blobs (p, s) = blob_ids s"
  by (simp_all add: mergeable_entry_def entry_blobs_def)

lemma merge_loop:
  fixes st :: "(path \<times> stages) list"
  assumes "distinct (map fst (front @ st))"
    and mergeable: "mergeable = map fst (filter mergeable_entry (front @ st))"
    and blobs: "map (gm_store m) (concat (map entry_blobs (filter mergeable_entry (front @ st)))) = map Some blobs"
    and "ml_index l = length (filter mergeable_entry front)"
    and "try_fold (merge_path g mergeable blobs) st l = Some l'"
  shows "\<exists>R C. ml_resolved l' = ml_resolved l @ R \<and> ml_conflicts l' = ml_conflicts l @ C
           \<and> map fst R = map fst st \<and> set C \<subseteq> fst ` set st \<and> (\<forall>(p, s) \<in> set st. stage_settled g m R C p s)"
  using assms
proof (induction st arbitrary: front l)
  case Nil
  then show ?case by simp
next
  case (Cons x st)
  obtain p b u t where x: "x = (p, b, u, t)" by (cases x)
  let ?f = "filter mergeable_entry"
  from Cons.prems(5) obtain l1 where l1: "merge_path g mergeable blobs x l = Some l1"
    "try_fold (merge_path g mergeable blobs) st l1 = Some l'"
    by (auto simp: bind_eq_Some_conv)
  have p_new: "p \<notin> fst ` set front" "p \<notin> fst ` set st" using Cons.prems(1) x by auto
  have here: "ml_index l < length mergeable \<and> mergeable ! ml_index l = p \<longleftrightarrow> all_regular (b, u, t)"
  proof (cases "all_regular (b, u, t)")
    case True
    then show ?thesis unfolding Cons.prems(2,4) by (simp add: x nth_append)
  next
    case False
    have "mergeable ! ml_index l \<in> fst ` set st" if "ml_index l < length mergeable"
    proof -
      have "mergeable = map fst (?f front) @ map fst (?f st)" using False Cons.prems(2) by (simp add: x)
      with that Cons.prems(4) have "map fst (?f st) \<noteq> []" "mergeable ! ml_index l = hd (map fst (?f st))"
        by (auto simp: nth_append hd_conv_nth)
      then have "mergeable ! ml_index l \<in> set (map fst (?f st))" using hd_in_set by metis
      then show ?thesis by auto
    qed
    with p_new(2) False show ?thesis by auto
  qed
  have step: "\<exists>r C. ml_resolved l1 = ml_resolved l @ [(p, r)] \<and> ml_conflicts l1 = ml_conflicts l @ C
      \<and> ml_index l1 = length (?f (front @ [x])) \<and> ((C = [p] \<and> r = u) \<or> (C = [] \<and> (\<exists>v. r = Some v \<and> file_merge g m (b, u, t) v)))"
  proof (cases "all_regular (b, u, t)")
    case False
    with l1(1) here have "l1 = l\<lparr>ml_conflicts := ml_conflicts l @ [p], ml_resolved := ml_resolved l @ [(p, u)]\<rparr>"
      unfolding merge_path_def x by auto
    with False Cons.prems(4) show ?thesis by (simp add: x)
  next
    case True
    then obtain bm bo um uo tm tt where s: "b = Some (bm, bo)" "u = Some (um, uo)" "t = Some (tm, tt)"
      "is_regular bm" "is_regular um" "is_regular tm"
      by (cases "(b, u, t)" rule: all_regular.cases) auto
    let ?k = "ml_index l"
    define F where "F = ?f (front @ x # st)"
    let ?ids = "concat (map entry_blobs F)"
    have k: "?k < length F" and kk: "F ! ?k = x"
      using True Cons.prems(4) by (simp_all add: F_def x nth_append)
    have three: "list_all (\<lambda>xs. length xs = 3) (map entry_blobs F)"
      by (simp add: list_all_iff)
    have id: "?ids ! (3 * ?k + j) = blob_ids (b, u, t) ! j" if "j < 3" for j
      using nth_3_concat [OF three, of ?k j] k kk that by (simp add: x)
    have len: "length ?ids = 3 * length F"
      by (simp add: length_concat comp_def sum_list_triv)
    have nth: "gm_store m (?ids ! i) = Some (blobs ! i)" if "i < length ?ids" for i
      using Cons.prems(3) [folded F_def] that by (metis length_map nth_map)
    have blob: "go_data (blobs ! (3 * ?k + j)) = blob_of m (blob_ids (b, u, t) ! j)" if "j < 3" for j
      using nth [of "3 * ?k + j"] id [OF that] that k len by (simp add: blob_of_def)
    have bl: "go_data (blobs ! (3 * ?k)) = blob_of m bo" "go_data (blobs ! Suc (3 * ?k)) = blob_of m uo"
      "go_data (blobs ! Suc (Suc (3 * ?k))) = blob_of m tt"
      using blob [of 0] blob [of 1] blob [of 2] by (simp_all add: s stage_oid_def)
    obtain mf where mf: "merge_file g (blob_of m bo) (blob_of m uo) (blob_of m tt) = Some mf"
      using l1(1) here True unfolding merge_path_def x by (auto simp: Let_def bl bind_eq_Some_conv)
    show ?thesis
    proof (cases mf)
      case None
      with l1(1) here True mf have "l1 = l\<lparr>ml_index := ?k + 1, ml_conflicts := ml_conflicts l @ [p], ml_resolved := ml_resolved l @ [(p, u)]\<rparr>"
        unfolding merge_path_def x by (simp add: Let_def bl)
      with True Cons.prems(4) show ?thesis by (simp add: x)
    next
      case (Some content)
      from l1(1) here True mf Some obtain oid where oid: "gt_hash_object g content = Some oid"
        "l1 = l\<lparr>ml_index := ?k + 1, ml_resolved := ml_resolved l @ [(p, Some (merged_mode bm um tm, oid))]\<rparr>"
        unfolding merge_path_def x by (auto simp: Let_def bl s)
      with True Cons.prems(4) mf Some s show ?thesis by (simp add: x)
    qed
  qed
  then obtain r C1 where r: "ml_resolved l1 = ml_resolved l @ [(p, r)]" "ml_conflicts l1 = ml_conflicts l @ C1"
    "ml_index l1 = length (?f (front @ [x]))"
    "(C1 = [p] \<and> r = u) \<or> (C1 = [] \<and> (\<exists>v. r = Some v \<and> file_merge g m (b, u, t) v))" by blast
  from Cons.IH [of "front @ [x]" l1] Cons.prems(1-3) r(3) l1(2) obtain R C where ih:
    "ml_resolved l' = ml_resolved l1 @ R" "ml_conflicts l' = ml_conflicts l1 @ C"
    "map fst R = map fst st" "set C \<subseteq> fst ` set st" "\<forall>(q, s) \<in> set st. stage_settled g m R C q s" by auto
  have "stage_settled g m ((p, r) # R) (C1 @ C) q s" if "(q, s) \<in> set (x # st)" for q s
  proof (cases "(q, s) \<in> set st")
    case True
    then have "q \<noteq> p" using p_new(2) by force
    moreover have "q \<notin> set C1" using r(4) \<open>q \<noteq> p\<close> by auto
    moreover have "stage_settled g m R C q s" using ih(5) True by auto
    ultimately show ?thesis by (cases "q \<in> set C") (auto simp: stage_settled_def)
  next
    case False
    with that x have "q = p" "s = (b, u, t)" by auto
    moreover have "p \<notin> set C" using ih(4) p_new(2) by auto
    ultimately show ?thesis using r(4) by (auto simp: stage_settled_def)
  qed
  moreover have "set (C1 @ C) \<subseteq> fst ` set (x # st)" using r(4) ih(4) x by auto
  ultimately show ?case
    using ih r by (intro exI [of _ "(p, r) # R"] exI [of _ "C1 @ C"]) (auto simp: x)
qed

lemma resolution_info_slot:
  assumes "distinct (map fst R)"
  shows "fold set_line (resolution_info st R) f p = (case map_of R p of None \<Rightarrow> f p | Some x \<Rightarrow> Merged x)"
proof -
  let ?removes = "map (\<lambda>(p, _). Remove (replicate (stages_oid_len st) (CHR ''0'')) p) R"
  let ?puts = "List.map_filter (\<lambda>(p, s). map_option (\<lambda>(mode, oid). Put mode oid p) s) R"
  have info: "fold set_line (resolution_info st R) f = fold set_line ?puts (fold set_line ?removes f)"
    by (simp add: resolution_info_def)
  have removes: "line_path ` set ?removes = fst ` set R" by force
  have put: "l \<in> set ?puts \<longleftrightarrow> (\<exists>q mode oid. (q, Some (mode, oid)) \<in> set R \<and> l = Put mode oid q)" for l
    by (force simp: in_map_filter)
  show ?thesis
  proof (cases "map_of R p")
    case None
    then have "p \<notin> fst ` set R" by (simp add: map_of_eq_None_iff)
    moreover from this have "p \<notin> line_path ` set ?puts" using put by force
    ultimately show ?thesis unfolding info using None removes by (simp add: fold_lines_other)
  next
    case (Some x)
    then have "p \<in> line_path ` set ?removes" unfolding removes by (auto dest: map_of_SomeD intro: rev_image_eqI)
    then have rm: "fold set_line ?removes f p = Merged None"
      by (intro fold_lines_removed) auto
    have uniq: "(p, y) \<in> set R \<Longrightarrow> y = x" for y
      using Some assms map_of_is_SomeI [of R p y] by simp
    show ?thesis
    proof (cases x)
      case None
      have "fold set_line ?puts (fold set_line ?removes f) p = Merged None"
        using rm uniq None by (intro fold_lines_removed) (auto simp: put)
      with Some None show ?thesis unfolding info by simp
    next
      case (Some v)
      obtain mode oid where v: "v = (mode, oid)" by (cases v)
      have "Put mode oid p \<in> set ?puts"
        using \<open>map_of R p = Some x\<close> Some v by (auto simp: put dest: map_of_SomeD)
      then have "p \<in> line_path ` set ?puts" by (rule rev_image_eqI) simp
      then have "fold set_line ?puts (fold set_line ?removes f) p = Merged (Some v)"
        using uniq Some by (intro fold_lines_put) (auto simp: put)
      with \<open>map_of R p = Some x\<close> Some show ?thesis unfolding info by simp
    qed
  qed
qed

text \<open>What a merge leaves at a path, of its base, our and their version.\<close>

definition merged_entry ::
  "'i git_tool \<Rightarrow> 'i git_model \<Rightarrow> bool \<Rightarrow> stage option \<Rightarrow> stage option \<Rightarrow> stage option \<Rightarrow> stage option \<Rightarrow> bool" where
  "merged_entry g m conflict b u t v \<longleftrightarrow>
     (if conflict then v = u
      else one_side b u t v
           \<or> (b \<noteq> u \<and> b \<noteq> t \<and> u \<noteq> t \<and> (\<exists>w. v = Some w \<and> file_merge g m (b, u, t) w)))"

lemma file_merge_all_regular: "file_merge g m s v \<Longrightarrow> all_regular s"
  by (cases "(g, m, s, v)" rule: file_merge.cases) auto

lemma leaf_field_ok:
  assumes "tree_laws g m" "is_tree g t" "leaf m t p = Some (mode, oid)"
  shows "field_ok mode" "field_ok oid" "path_ok p"
  using assms node_lawD [OF assms(1,2)]
  by (auto simp: leaf_def node_law_def entry_ok_def split: option.splits if_splits)

lemma merge_trees_spec:
  assumes laws: "git_laws g m" and trees: "is_tree g b" "is_tree g u" "is_tree g t"
    and res: "merge_trees g b u t = Some r"
  shows "is_tree g (mr_tree r)
    \<and> (\<forall>p. merged_entry g m (p \<in> set (mr_conflicts r)) (leaf m b p) (leaf m u p) (leaf m t p) (leaf m (mr_tree r) p))"
proof -
  note tl = git_lawsD(1) [OF laws]
  from res obtain i raw st where i: "gt_read_tree_3 g b u t = Some i" "gt_ls_files_u g i = Some raw"
    "read_stages raw = Some st"
    by (auto simp: merge_trees_def bind_eq_Some_conv)
  have slot: "merge_slot (leaf m b p) (leaf m u p) (leaf m t p) (gm_slot m i p)" for p
    using slot_read_tree_3 [OF laws trees i(1)] .
  have "gm_slot m i p \<noteq> Unmerged None None None" for p
    using slot [of p] by (auto simp: merge_slot_def)
  note st = read_stages_spec [OF laws i(2,3) this]
  have written: "is_tree g t' \<and> (\<forall>p. gm_slot m j p = Merged (leaf m t' p))" if "gt_write_tree g j = Some t'" for j t'
    using slot_write [OF laws that] .
  have merged: "map_of st p = None \<Longrightarrow> gm_slot m i p = Merged v \<Longrightarrow> one_side (leaf m b p) (leaf m u p) (leaf m t p) v" for p v
    using slot [of p] by (simp add: merge_slot_def)
  show ?thesis
  proof (cases "st = []")
    case True
    with res i obtain t' where r: "r = \<lparr>mr_tree = t', mr_conflicts = []\<rparr>" "gt_write_tree g i = Some t'"
      by (auto simp: merge_trees_def)
    then show ?thesis
      using written [OF r(2)] merged True by (auto simp: merged_entry_def)
  next
    case False
    let ?mergeable = "map fst (filter mergeable_entry st)"
    have keys: "distinct (map fst st)" using btree_sorted_keys [OF st(1)] .
    have look: "map_of st (fst x) = Some (snd x)" if "x \<in> set st" for x
      using keys that by (simp add: map_of_is_SomeI)
    have "map (\<lambda>p. blob_ids (the (map_of st p))) ?mergeable = map entry_blobs (filter mergeable_entry st)"
      using look by (simp add: entry_blobs_def)
    then have ids: "concat (map (\<lambda>p. blob_ids (the (map_of st p))) ?mergeable)
        = concat (map entry_blobs (filter mergeable_entry st))" by (rule arg_cong)
    from res i False obtain blobs l j t' where l:
      "read_objects g (concat (map entry_blobs (filter mergeable_entry st))) = Some blobs"
      "try_fold (merge_path g ?mergeable blobs) st \<lparr>ml_index = 0, ml_resolved = [], ml_conflicts = []\<rparr> = Some l"
      "gt_update_index g i (resolution_info st (ml_resolved l)) = Some j" "gt_write_tree g j = Some t'"
      "r = \<lparr>mr_tree = t', mr_conflicts = ml_conflicts l\<rparr>"
      by (auto simp: merge_trees_def Let_def ids bind_eq_Some_conv simp del: map_map)
    have stages: "gm_slot m i p = Unmerged x y z \<and> (x, y, z) = (leaf m b p, leaf m u p, leaf m t p)"
      if "(p, x, y, z) \<in> set st" for p x y z
      using look [OF that] st(2) [of p] slot [of p] by (auto simp: merge_slot_def split: slot.splits)
    have "field_ok oid" if "x \<in> set st" "mergeable_entry x" "oid \<in> set (entry_blobs x)" for x oid
    proof -
      obtain p y z w where x: "x = (p, y, z, w)" by (cases x)
      have sl: "(y, z, w) = (leaf m b p, leaf m u p, leaf m t p)" using stages that(1) x by blast
      from that(2) x obtain ym yo zm zo wm wo where "y = Some (ym, yo)" "z = Some (zm, zo)" "w = Some (wm, wo)"
        by (cases "(y, z, w)" rule: all_regular.cases) auto
      then show ?thesis
        using that(3) x sl leaf_field_ok(2) [OF tl trees(1), of p ym yo]
          leaf_field_ok(2) [OF tl trees(2), of p zm zo] leaf_field_ok(2) [OF tl trees(3), of p wm wo]
        by (auto simp: stage_oid_def)
    qed
    then have "list_all field_ok (concat (map entry_blobs (filter mergeable_entry st)))"
      by (auto simp: list_all_iff)
    note blobs = read_objects_spec [OF tl this l(1)]
    obtain R C where R: "ml_resolved l = R" "ml_conflicts l = C" "map fst R = map fst st" "set C \<subseteq> fst ` set st"
      "\<forall>(p, s) \<in> set st. stage_settled g m R C p s"
      using merge_loop [of "[]" st ?mergeable m blobs "\<lparr>ml_index = 0, ml_resolved = [], ml_conflicts = []\<rparr>" g l]
        keys blobs l(2) by auto
    have "gm_slot m j = fold set_line (resolution_info st R) (gm_slot m i)"
      using slot_update [OF laws l(3)] R(1) by simp
    then have j: "gm_slot m j p = (case map_of R p of None \<Rightarrow> gm_slot m i p | Some x \<Rightarrow> Merged x)" for p
      using resolution_info_slot [of R st "gm_slot m i" p] keys R(3) by simp
    have "merged_entry g m (p \<in> set C) (leaf m b p) (leaf m u p) (leaf m t p) (leaf m t' p)" for p
    proof (cases "p \<in> fst ` set st")
      case False
      then have "p \<notin> set C" "map_of R p = None" "map_of st p = None"
        using R(3,4) by (auto simp: map_of_eq_None_iff simp flip: set_map)
      moreover have "gm_slot m i p = Merged (leaf m t' p)"
        using j [of p] written [OF l(4)] \<open>map_of R p = None\<close> by simp
      ultimately show ?thesis using merged by (simp add: merged_entry_def)
    next
      case True
      then obtain x y z where s: "(p, x, y, z) \<in> set st" by auto
      with R(5) have "stage_settled g m R C p (x, y, z)" by auto
      moreover note stages [OF s]
      moreover have "map_of R p = Some v \<Longrightarrow> leaf m t' p = v" for v
        using j [of p] written [OF l(4)] by simp
      ultimately show ?thesis
        using slot [of p]
        by (fastforce simp: stage_settled_def merged_entry_def merge_slot_def split: if_splits
            dest: file_merge_all_regular elim: all_regular.elims)
    qed
    then show ?thesis using written [OF l(4)] l(5) R(2) by simp
  qed
qed

definition rev_leaf :: "'i git_tool \<Rightarrow> 'i git_model \<Rightarrow> string \<Rightarrow> path \<Rightarrow> stage option" where
  "rev_leaf g m r p = (case gt_tree_id g r of Some t \<Rightarrow> leaf m t p | None \<Rightarrow> None)"

definition base_leaf :: "'i git_tool \<Rightarrow> 'i git_model \<Rightarrow> string option \<Rightarrow> path \<Rightarrow> stage option" where
  "base_leaf g m base p = (case base of Some b \<Rightarrow> rev_leaf g m b p | None \<Rightarrow> None)"

lemma empty_treeD:
  assumes "tree_laws g m" "gt_empty_tree g = Some t"
  shows "is_tree g t" "leaf m t p = None"
proof -
  from assms have "is_tree g t \<and> (\<forall>p. gm_node m t p = None)"
    unfolding tree_laws_def by blast
  then show "is_tree g t" "leaf m t p = None" by (simp_all add: leaf_def)
qed

lemma three_way_spec:
  assumes laws: "git_laws g m" and res: "three_way g base ours theirs = Some r"
  shows "is_tree g (mr_tree r)"
    and "merged_entry g m (p \<in> set (mr_conflicts r)) (base_leaf g m base p) (rev_leaf g m ours p)
           (rev_leaf g m theirs p) (leaf m (mr_tree r) p)"
proof -
  note tl = git_lawsD(1) [OF laws]
  from res obtain bt ut tt where ids:
    "(case base of Some b \<Rightarrow> gt_tree_id g b | None \<Rightarrow> gt_empty_tree g) = Some bt"
    "gt_tree_id g ours = Some ut" "gt_tree_id g theirs = Some tt"
    and r: "(if tt = bt \<or> tt = ut then Some \<lparr>mr_tree = ut, mr_conflicts = []\<rparr>
       else if ut = bt then Some \<lparr>mr_tree = tt, mr_conflicts = []\<rparr>
       else merge_trees g bt ut tt) = Some r"
    unfolding three_way_def by (auto simp: bind_eq_Some_conv)
  have b: "is_tree g bt" "base_leaf g m base p = leaf m bt p" for p
    using ids(1) tree_idD(1) [OF tl] empty_treeD [OF tl]
    by (auto simp: base_leaf_def rev_leaf_def split: option.splits)
  have ut: "is_tree g ut" "is_tree g tt" "rev_leaf g m ours p = leaf m ut p" "rev_leaf g m theirs p = leaf m tt p" for p
    using ids(2,3) tree_idD(1) [OF tl] by (simp_all add: rev_leaf_def)
  consider (same) "tt = bt \<or> tt = ut" "r = \<lparr>mr_tree = ut, mr_conflicts = []\<rparr>"
    | (theirs) "ut = bt" "r = \<lparr>mr_tree = tt, mr_conflicts = []\<rparr>"
    | (merge) "merge_trees g bt ut tt = Some r"
    using r by (metis option.inject)
  then have "is_tree g (mr_tree r) \<and> (\<forall>p. merged_entry g m (p \<in> set (mr_conflicts r)) (leaf m bt p) (leaf m ut p)
      (leaf m tt p) (leaf m (mr_tree r) p))"
  proof cases
    case same
    then show ?thesis using ut by (auto simp: merged_entry_def one_side_def)
  next
    case theirs
    then show ?thesis using ut by (auto simp: merged_entry_def one_side_def)
  next
    case merge
    then show ?thesis using merge_trees_spec [OF laws b(1) ut(1,2)] by blast
  qed
  then show "is_tree g (mr_tree r)"
    and "merged_entry g m (p \<in> set (mr_conflicts r)) (base_leaf g m base p) (rev_leaf g m ours p)
           (rev_leaf g m theirs p) (leaf m (mr_tree r) p)"
    by (simp_all add: b(2) ut(3,4))
qed

section \<open>Entries taken from another tree\<close>

definition below :: "path \<Rightarrow> path \<Rightarrow> bool" where
  "below q p \<longleftrightarrow> starts_with p (q @ ''/'')"

lemma below_iff: "below q p \<longleftrightarrow> (\<exists>r. p = q @ ''/'' @ r)"
  by (auto simp: below_def starts_with_iff_prefix prefix_def)

lemma under_iff: "under q p \<longleftrightarrow> p = q \<or> below q p"
  by (simp add: under_def below_def)

lemma rsplit_once_Some:
  "rsplit_once d s = Some (a, b) \<longleftrightarrow> s = a @ d # b \<and> d \<notin> set b"
proof -
  have "rsplit_once d s = Some (a, b) \<longleftrightarrow> split_once d (rev s) = Some (rev b, rev a)"
    by (auto simp: rsplit_once_def)
  also have "\<dots> \<longleftrightarrow> rev s = rev (a @ d # b) \<and> d \<notin> set b"
    by (simp add: split_once_Some)
  finally show ?thesis by (simp only: rev_is_rev_conv)
qed

lemma ancestors_up_iff: "q \<in> set (ancestors_up p) \<longleftrightarrow> below q p"
proof (induction p rule: ancestors_up.induct)
  case (1 p)
  show ?case
  proof (cases "rsplit_once (CHR ''/'') p")
    case None
    then have "CHR ''/'' \<notin> set p" by (simp add: rsplit_once_def split_once_None)
    then show ?thesis using None by (auto simp: ancestors_up.simps [of p] below_iff)
  next
    case (Some ab)
    obtain a b where ab: "ab = (a, b)" by (cases ab)
    with Some have p: "p = a @ CHR ''/'' # b" "CHR ''/'' \<notin> set b" by (simp_all add: rsplit_once_Some)
    have "below q p \<longleftrightarrow> q = a \<or> below q a"
    proof
      assume "below q p"
      then obtain r where "q @ CHR ''/'' # r = a @ CHR ''/'' # b" unfolding below_iff p(1) by auto
      then consider us where "q = a @ us" "us @ CHR ''/'' # r = CHR ''/'' # b"
        | us where "q @ us = a" "CHR ''/'' # r = us @ CHR ''/'' # b"
        by (auto simp: append_eq_append_conv2)
      then show "q = a \<or> below q a"
      proof cases
        case 1
        then show ?thesis using p(2) by (cases us) auto
      next
        case 2
        then show ?thesis by (cases us) (auto simp: below_iff)
      qed
    qed (auto simp: p(1) below_iff)
    with 1 [OF Some ab [symmetric]] Some ab show ?thesis
      by (simp add: ancestors_up.simps [of p])
  qed
qed

lemma try_fold_collect:
  "try_fold (\<lambda>c acc. map_option (\<lambda>x. acc @ F x) (G c)) cs acc = Some r \<longleftrightarrow>
   (\<exists>xs. map G cs = map Some xs \<and> r = acc @ concat (map F xs))"
proof (induction cs arbitrary: acc)
  case (Cons c cs)
  show ?case
  proof (cases "G c")
    case (Some x)
    then have "try_fold (\<lambda>c acc. map_option (\<lambda>x. acc @ F x) (G c)) (c # cs) acc = Some r
        \<longleftrightarrow> (\<exists>xs. map G cs = map Some xs \<and> r = (acc @ F x) @ concat (map F xs))"
      using Cons.IH [of "acc @ F x"] by simp
    also have "\<dots> \<longleftrightarrow> (\<exists>ys. map G (c # cs) = map Some ys \<and> r = acc @ concat (map F ys))"
      (is "?l \<longleftrightarrow> ?r")
    proof
      assume ?l
      then obtain xs where "map G cs = map Some xs" "r = (acc @ F x) @ concat (map F xs)" by blast
      then show ?r using Some by (intro exI [of _ "x # xs"]) simp
    next
      assume ?r
      then obtain ys where "map G (c # cs) = map Some ys" "r = acc @ concat (map F ys)" by blast
      with Some show ?l by (cases ys) auto
    qed
    finally show ?thesis .
  next
    case None
    then show ?thesis by (auto simp: Cons_eq_map_conv)
  qed
qed auto

lemma in_chunks:
  assumes "map G (chunks 256 ps) = map Some xs" "p \<in> set ps"
  obtains c x where "p \<in> set c" "G c = Some x" "x \<in> set xs"
proof -
  have "p \<in> set (concat (chunks 256 ps))" using assms(2) by (simp add: concat_chunks)
  then obtain c where c: "c \<in> set (chunks 256 ps)" "p \<in> set c" by auto
  then have "G c \<in> set (map Some xs)" using assms(1) by (metis image_eqI list.set_map)
  with c that show ?thesis by auto
qed

lemma from_chunks:
  assumes "map G (chunks 256 ps) = map Some xs" "x \<in> set xs"
  obtains c where "G c = Some x"
proof -
  have "Some x \<in> set (map G (chunks 256 ps))" using assms by simp
  then show ?thesis using that by auto
qed

text \<open>The two halves of the lines: what goes, and what comes from the source.\<close>

lemma removed_lines:
  assumes laws: "git_laws g m" and "is_tree g t" "gt_read_tree g t = Some i"
    and info: "map (gt_ls_files g i) (chunks 256 ps) = map Some xs"
      "lines = concat (map (\<lambda>listed. map (Remove zero) (filter (under_any ps) (map from_utf8_lossy (nul_records listed)))) xs)"
  shows "l \<in> set lines \<Longrightarrow> \<exists>q. l = Remove zero q \<and> under_any ps q"
    and "under_any ps p \<Longrightarrow> leaf m t p \<noteq> None \<Longrightarrow> Remove zero p \<in> set lines"
proof -
  show "\<exists>q. l = Remove zero q \<and> under_any ps q" if "l \<in> set lines"
    using that unfolding info(2) by auto
  assume p: "under_any ps p" "leaf m t p \<noteq> None"
  then obtain q where q: "q \<in> set ps" "under q p" by (auto simp: under_any_def list_ex_iff)
  obtain c x where c: "q \<in> set c" "gt_ls_files g i c = Some x" "x \<in> set xs"
    using in_chunks [OF info(1) q(1)] .
  from ls_filesD [OF laws c(2)] obtain fs where fs: "x = lines_output fs" "list_all path_ok fs"
    "\<forall>q \<in> set c. \<forall>p. under q p \<longrightarrow> gm_slot m i p \<noteq> Merged None \<longrightarrow> p \<in> set fs"
    by blast
  have "p \<in> set fs"
    using fs(3) c(1) q(2) p(2) slot_read_tree [OF laws assms(2,3)] by auto
  moreover have "map from_utf8_lossy (nul_records x) = fs"
    unfolding fs(1) nul_records_output [OF fs(2)] using fs(2)
    by (intro map_idI) (auto simp: list_all_iff path_ok_def from_utf8_lossy_id)
  ultimately have "Remove zero p \<in> set (map (Remove zero) (filter (under_any ps) (map from_utf8_lossy (nul_records x))))"
    using p(1) by (simp only:) simp
  then show "Remove zero p \<in> set lines" unfolding info(2) using c(3) by auto
qed

definition entry_lines :: "path list \<Rightarrow> string \<Rightarrow> tree_entry \<Rightarrow> info_line list" where
  "entry_lines ps zero e =
     (if under_any ps (te_path e)
      then map (Remove zero) (ancestors_up (te_path e)) @ [Put (te_mode e) (te_oid e) (te_path e)] else [])"

lemma source_lines:
  assumes laws: "git_laws g m" and src: "is_tree g src"
    and info: "map (gt_ls_tree_r g src) (chunks 256 ps) = map Some xs"
      "lines = concat (map (\<lambda>raw. concat (map (entry_lines ps zero) (parse_ls_tree raw))) xs)"
  shows "Put mode oid p \<in> set lines \<longleftrightarrow> under_any ps p \<and> leaf m src p = Some (mode, oid)"
    and "Remove z p \<in> set lines \<longleftrightarrow> z = zero \<and> (\<exists>q. under_any ps q \<and> leaf m src q \<noteq> None \<and> below p q)"
proof -
  let ?E = "\<Union>x \<in> set xs. set (parse_ls_tree x)"
  note tl = git_lawsD(1) [OF laws]
  have listed: "\<exists>es. parse_ls_tree x = es \<and> lists m src es \<and> (\<forall>e \<in> set es. te_kind e \<noteq> ''tree'')
      \<and> (\<forall>q \<in> set c. \<forall>p e. under q p \<longrightarrow> gm_node m src p = Some e \<longrightarrow> te_kind e \<noteq> ''tree'' \<longrightarrow> e \<in> set es)"
    if out: "gt_ls_tree_r g src c = Some x" for c x
  proof -
    obtain es where es: "x = ls_tree_output es" "lists m src es"
      "\<forall>e \<in> set es. te_kind e \<noteq> ''tree''"
      "\<forall>q \<in> set c. \<forall>p e. under q p \<longrightarrow> gm_node m src p = Some e \<longrightarrow> te_kind e \<noteq> ''tree'' \<longrightarrow> e \<in> set es"
      using ls_tree_rD [OF git_lawsD(2) [OF laws] src out] by blast
    then show ?thesis
      using parse_ls_tree_output [OF lists_ok [OF tl src es(2)]] by auto
  qed
  have sound: "gm_node m src (te_path e) = Some e \<and> te_kind e \<noteq> ''tree''" if "e \<in> ?E" for e
  proof -
    from that obtain x where x: "x \<in> set xs" "e \<in> set (parse_ls_tree x)" by auto
    obtain c where "gt_ls_tree_r g src c = Some x" using from_chunks [OF info(1) x(1)] .
    from listed [OF this] x(2) show ?thesis by (auto simp: lists_def)
  qed
  have complete: "e \<in> ?E" if e: "gm_node m src p = Some e" "te_kind e \<noteq> ''tree''" "under_any ps p" for e p
  proof -
    from e(3) obtain q where q: "q \<in> set ps" "under q p" by (auto simp: under_any_def list_ex_iff)
    obtain c x where c: "q \<in> set c" "gt_ls_tree_r g src c = Some x" "x \<in> set xs"
      using in_chunks [OF info(1) q(1)] .
    from listed [OF c(2)] c(1) q(2) e(1,2) have "e \<in> set (parse_ls_tree x)" by blast
    with c(3) show ?thesis by blast
  qed
  have in_lines: "l \<in> set lines \<longleftrightarrow> (\<exists>e \<in> ?E. l \<in> set (entry_lines ps zero e))" for l
    unfolding info(2) by auto
  show "Put mode oid p \<in> set lines \<longleftrightarrow> under_any ps p \<and> leaf m src p = Some (mode, oid)"
  proof
    assume "Put mode oid p \<in> set lines"
    then obtain e where e: "e \<in> ?E" "Put mode oid p \<in> set (entry_lines ps zero e)" unfolding in_lines by blast
    then have "te_path e = p" "te_mode e = mode" "te_oid e = oid" "under_any ps p"
      by (auto simp: entry_lines_def split: if_splits)
    with sound [OF e(1)] show "under_any ps p \<and> leaf m src p = Some (mode, oid)" by (auto simp: leaf_def)
  next
    assume p: "under_any ps p \<and> leaf m src p = Some (mode, oid)"
    then obtain e where e: "gm_node m src p = Some e" "te_kind e \<noteq> ''tree''" "te_mode e = mode" "te_oid e = oid"
      by (auto simp: leaf_def split: option.splits if_splits)
    with complete p have "e \<in> ?E" by blast
    moreover have "Put mode oid p \<in> set (entry_lines ps zero e)"
      using p e node_path [OF tl src e(1)] by (simp add: entry_lines_def)
    ultimately show "Put mode oid p \<in> set lines" unfolding in_lines by blast
  qed
  show "Remove z p \<in> set lines \<longleftrightarrow> z = zero \<and> (\<exists>q. under_any ps q \<and> leaf m src q \<noteq> None \<and> below p q)"
  proof
    assume "Remove z p \<in> set lines"
    then obtain e where e: "e \<in> ?E" "Remove z p \<in> set (entry_lines ps zero e)" unfolding in_lines by blast
    then have "z = zero" "below p (te_path e)" "under_any ps (te_path e)"
      by (auto simp: entry_lines_def ancestors_up_iff split: if_splits)
    moreover have "leaf m src (te_path e) \<noteq> None" using sound [OF e(1)] by (simp add: leaf_def)
    ultimately show "z = zero \<and> (\<exists>q. under_any ps q \<and> leaf m src q \<noteq> None \<and> below p q)" by blast
  next
    assume "z = zero \<and> (\<exists>q. under_any ps q \<and> leaf m src q \<noteq> None \<and> below p q)"
    then obtain q where z: "z = zero" and q: "under_any ps q" "leaf m src q \<noteq> None" "below p q" by blast
    then obtain e where e: "gm_node m src q = Some e" "te_kind e \<noteq> ''tree''"
      by (auto simp: leaf_def split: option.splits if_splits)
    with complete q have "e \<in> ?E" by blast
    moreover have "Remove z p \<in> set (entry_lines ps zero e)"
      using q z node_path [OF tl src e(1)] by (simp add: entry_lines_def ancestors_up_iff)
    ultimately show "Remove z p \<in> set lines" unfolding in_lines by blast
  qed
qed

lemma leaf_above_leaf:
  assumes "tree_laws g m" "is_tree g t" "leaf m t p \<noteq> None" "below q p"
  shows "leaf m t q = None"
proof -
  from assms(3) obtain e where e: "gm_node m t p = Some e" by (auto simp: leaf_def split: option.splits)
  from assms(4) obtain r where "p = q @ ''/'' @ r" by (auto simp: below_iff)
  with node_lawD [OF assms(1,2) e] obtain f where "gm_node m t q = Some f" "te_kind f = ''tree''"
    unfolding node_law_def by blast
  then show ?thesis by (simp add: leaf_def)
qed

definition source_leaf :: "'i git_model \<Rightarrow> string option \<Rightarrow> path \<Rightarrow> stage option" where
  "source_leaf m source p = (case source of Some src \<Rightarrow> leaf m src p | None \<Rightarrow> None)"

lemma source_above_leaf:
  assumes "tree_laws g m" "\<And>s. source = Some s \<Longrightarrow> is_tree g s" "source_leaf m source p \<noteq> None" "below q p"
  shows "source_leaf m source q = None"
proof (cases source)
  case (Some s)
  then show ?thesis
    using leaf_above_leaf [OF assms(1) assms(2) [OF Some] _ assms(4)] assms(3) by (simp add: source_leaf_def)
qed (simp add: source_leaf_def)

text \<open>What the filter leaves at a path: the source's entry at and below the paths, nothing where a
  folder of such an entry has to be, and the tree's entry elsewhere.\<close>

definition taken_entry ::
  "path list \<Rightarrow> (path \<Rightarrow> stage option) \<Rightarrow> (path \<Rightarrow> stage option) \<Rightarrow> path \<Rightarrow> stage option \<Rightarrow> bool" where
  "taken_entry ps src old p v \<longleftrightarrow>
     (if under_any ps p then v = src p
      else if \<exists>q. under_any ps q \<and> src q \<noteq> None \<and> below p q then v = None
      else v = old p)"

lemma tree_with_entries_from_spec:
  assumes laws: "git_laws g m" and t: "is_tree g t" and src: "\<And>s. source = Some s \<Longrightarrow> is_tree g s"
    and res: "tree_with_entries_from g t source ps = Some t'"
  shows "is_tree g t'" and "taken_entry ps (source_leaf m source) (leaf m t) p (leaf m t' p)"
proof -
  have "is_tree g t' \<and> (\<forall>p. taken_entry ps (source_leaf m source) (leaf m t) p (leaf m t' p))"
  proof (cases "ps = []")
    case True
    with res t show ?thesis
      by (simp add: tree_with_entries_from_def is_tree_def taken_entry_def under_any_def)
  next
    case False
    let ?zero = "replicate (length t) (CHR ''0'')"
    from res False t obtain i info1 info j where i: "gt_read_tree g t = Some i"
      and info1: "try_fold (\<lambda>chunk info. map_option (\<lambda>listed.
                    info @ map (Remove ?zero) (filter (under_any ps) (map from_utf8_lossy (nul_records listed))))
                  (gt_ls_files g i chunk)) (chunks 256 ps) [] = Some info1"
      and info: "(case source of None \<Rightarrow> Some info1
                | Some src \<Rightarrow>
                    try_fold (\<lambda>chunk info. map_option (\<lambda>raw.
                        info @ concat (map (entry_lines ps ?zero) (parse_ls_tree raw)))
                      (gt_ls_tree_r g src chunk)) (chunks 256 ps) info1) = Some info"
      and j: "gt_update_index g i info = Some j" "gt_write_tree g j = Some t'"
      unfolding tree_with_entries_from_def is_tree_def entry_lines_def
      by (auto simp: Let_def bind_eq_Some_conv)
    from info1 obtain xs where xs: "map (gt_ls_files g i) (chunks 256 ps) = map Some xs"
      "info1 = concat (map (\<lambda>listed. map (Remove ?zero) (filter (under_any ps) (map from_utf8_lossy (nul_records listed)))) xs)"
      unfolding try_fold_collect by auto
    note rm = removed_lines [OF laws t i xs]
    obtain info2 where info2: "info = info1 @ info2"
      "\<And>mode oid p. Put mode oid p \<in> set info2 \<longleftrightarrow> under_any ps p \<and> source_leaf m source p = Some (mode, oid)"
      "\<And>z p. Remove z p \<in> set info2 \<longleftrightarrow> z = ?zero \<and> (\<exists>q. under_any ps q \<and> source_leaf m source q \<noteq> None \<and> below p q)"
    proof (cases source)
      case None
      with info that [of "[]"] show ?thesis by (simp add: source_leaf_def)
    next
      case (Some s)
      with info obtain ys where ys: "map (gt_ls_tree_r g s) (chunks 256 ps) = map Some ys"
        "info = info1 @ concat (map (\<lambda>raw. concat (map (entry_lines ps ?zero) (parse_ls_tree raw))) ys)"
        by (auto simp: try_fold_collect)
      note sl = source_lines [OF laws src [OF Some] ys(1) refl, where zero = ?zero]
      show ?thesis
        by (rule that [OF ys(2)]) (simp_all only: sl source_leaf_def Some option.case)
    qed
    have t': "is_tree g t'"
      using slot_write [OF laws j(2)] by simp
    have s0: "gm_slot m i = (\<lambda>p. Merged (leaf m t p))"
      using slot_read_tree [OF laws t i] by (rule ext)
    have final: "Merged (leaf m t' p) = fold set_line info2 (fold set_line info1 (\<lambda>p. Merged (leaf m t p))) p" for p
      using slot_update [OF laws j(1)] slot_write [OF laws j(2)] info2(1) by (simp add: s0)
    have no_put: "Put mode oid p \<notin> set info1" for mode oid p using rm(1) by blast
    have "taken_entry ps (source_leaf m source) (leaf m t) p (leaf m t' p)" for p
    proof (cases "under_any ps p")
      case True
      show ?thesis
      proof (cases "source_leaf m source p")
        case None
        have "fold set_line info1 (\<lambda>p. Merged (leaf m t p)) p = Merged None"
        proof (rule fold_lines_removed [OF no_put])
          show "p \<in> line_path ` set info1 \<or> Merged (leaf m t p) = Merged None"
            using rm(2) [OF True] by (cases "leaf m t p") (auto intro: rev_image_eqI)
        qed
        then have "fold set_line info2 (fold set_line info1 (\<lambda>p. Merged (leaf m t p))) p = Merged None"
          using None by (intro fold_lines_removed) (simp_all add: info2(2))
        with final [of p] True None show ?thesis by (simp add: taken_entry_def)
      next
        case (Some v)
        obtain mode oid where v: "v = (mode, oid)" by (cases v)
        have "Put mode oid p \<in> set info2" using Some True v by (simp add: info2(2))
        then have "p \<in> line_path ` set info2" by (rule rev_image_eqI) simp
        moreover have "Remove z p \<notin> set info2" for z
        proof
          assume "Remove z p \<in> set info2"
          then obtain q where "source_leaf m source q \<noteq> None" "below p q" unfolding info2(3) by blast
          from source_above_leaf [OF git_lawsD(1) [OF laws] src this] Some show False by simp
        qed
        ultimately have "fold set_line info2 (fold set_line info1 (\<lambda>p. Merged (leaf m t p))) p = Merged (Some v)"
          using Some by (intro fold_lines_put) (simp_all add: info2(2))
        with final [of p] True Some show ?thesis by (simp add: taken_entry_def)
      qed
    next
      case False
      have "p \<notin> line_path ` set info1"
        using rm(1) False by force
      then have i1: "fold set_line info1 (\<lambda>p. Merged (leaf m t p)) p = Merged (leaf m t p)"
        by (rule fold_lines_other)
      have np: "Put mode oid p \<notin> set info2" for mode oid using False by (simp add: info2(2))
      show ?thesis
      proof (cases "\<exists>q. under_any ps q \<and> source_leaf m source q \<noteq> None \<and> below p q")
        case True
        then have "Remove ?zero p \<in> set info2" by (simp only: info2(3) simp_thms)
        then have "p \<in> line_path ` set info2" by (rule rev_image_eqI) simp
        then have "fold set_line info2 (fold set_line info1 (\<lambda>p. Merged (leaf m t p))) p = Merged None"
          using np by (intro fold_lines_removed) auto
        with final [of p] True False show ?thesis by (simp add: taken_entry_def)
      next
        case none: False
        have "p \<notin> line_path ` set info2"
        proof
          assume "p \<in> line_path ` set info2"
          then obtain l where l: "l \<in> set info2" "p = line_path l" by blast
          show False
          proof (cases l)
            case (Remove z q)
            with l have "Remove z p \<in> set info2" by simp
            with none show False unfolding info2(3) by blast
          next
            case (Put mode oid q)
            with l np show False by simp
          qed
        qed
        from fold_lines_other [OF this] final [of p] i1 have "leaf m t' p = leaf m t p" by simp
        then show ?thesis unfolding taken_entry_def if_not_P [OF False] if_not_P [OF none] .
      qed
    qed
    with t' show ?thesis by blast
  qed
  then show "is_tree g t'" "taken_entry ps (source_leaf m source) (leaf m t) p (leaf m t' p)" by simp_all
qed

end
