(* ===== verification/Publish_Policy.thy ===== *)
theory Publish_Policy
  imports Git_Hook Git_Output
begin

text \<open>
  Which paths may come into a space's history (\<open>origin-http-server/src/publish_policy.rs\<close>, with
  the reserved names of paths.rs and git.rs): the reasons a path is refused, and the rule by which
  a restore of unsaved work may bring a change back.
\<close>

section \<open>Reserved names\<close>

definition windows_alias_key :: "string \<Rightarrow> string" where
  "windows_alias_key segment = trim_end_matches (\<lambda>c. c = CHR '' '' \<or> c = CHR ''.'') segment"

definition is_char_boundary :: "string \<Rightarrow> nat \<Rightarrow> bool" where
  "is_char_boundary s n \<longleftrightarrow> n = 0 \<or> n = length s \<or> (n < length s \<and> \<not> is_cont (ord_of (s ! n)))"

definition ascii_case_insensitive_starts_with :: "string \<Rightarrow> string \<Rightarrow> bool" where
  "ascii_case_insensitive_starts_with v p \<longleftrightarrow>
     is_char_boundary v (length p) \<and> eq_ignore_ascii_case (take (length p) v) p"

definition bind_state_dir :: string where
  "bind_state_dir = ''.bind''"

definition is_reserved_path :: "string \<Rightarrow> bool" where
  "is_reserved_path normalized \<longleftrightarrow>
     eq_ignore_ascii_case (windows_alias_key (hd (split_on (CHR ''/'') normalized))) ''.instafy''
     \<or> list_ex (\<lambda>s. let segment = windows_alias_key s
                    in eq_ignore_ascii_case segment ''.git''
                       \<or> eq_ignore_ascii_case segment bind_state_dir
                       \<or> ascii_case_insensitive_starts_with segment ''.git.instafy-hidden-'')
         (split_on (CHR ''/'') normalized)"

definition is_dependency_churn_path :: "string \<Rightarrow> bool" where
  "is_dependency_churn_path p \<longleftrightarrow>
     list_ex (\<lambda>s. s = ''node_modules'' \<or> s = ''.pnpm-store'')
       (split_on (CHR ''/'') (trim_matches (\<lambda>c. c = CHR ''/'') (trim_str p)))"

definition is_repo_hygiene_blocked_path :: "string \<Rightarrow> bool" where
  "is_repo_hygiene_blocked_path p \<longleftrightarrow>
     list_ex (\<lambda>s. s = ''tmp'') (split_on (CHR ''/'') (trim_matches (\<lambda>c. c = CHR ''/'') (trim_str p)))"

definition is_sync_reserved_path :: "string \<Rightarrow> bool" where
  "is_sync_reserved_path p \<longleftrightarrow>
     (let trimmed = to_ascii_lowercase (trim_start_matches (\<lambda>c. c = CHR ''/'') (trim_str p))
      in trimmed = ''.instafy'' \<or> starts_with trimmed ''.instafy/'' \<or> is_reserved_path trimmed
         \<or> is_dependency_churn_path trimmed \<or> is_repo_hygiene_blocked_path trimmed)"

section \<open>Reasons\<close>

datatype reject_reason = Excluded | Secret | Attachment | Ignored | TooLarge | Policy | Unsupported

fun reason_name :: "reject_reason \<Rightarrow> string" where
  "reason_name Excluded = ''excluded''"
| "reason_name Secret = ''secret''"
| "reason_name Attachment = ''attachment''"
| "reason_name Ignored = ''ignored''"
| "reason_name TooLarge = ''too_large''"
| "reason_name Policy = ''policy''"
| "reason_name Unsupported = ''unsupported''"

definition max_publish_blob_bytes :: nat where
  "max_publish_blob_bytes = 20 * 1024 * 1024"

definition is_secret_path :: "string \<Rightarrow> bool" where
  "is_secret_path p \<longleftrightarrow>
     (let name = to_ascii_lowercase (last (split_on (CHR ''/'') (trim_end_matches (\<lambda>c. c = CHR ''/'') p)))
      in if starts_with name ''.env''
         then \<not> (name = ''.env.example'' \<or> name = ''.env.sample'' \<or> name = ''.env.template'')
         else ends_with name ''.pem'' \<or> ends_with name ''.key'' \<or> starts_with name ''id_rsa''
              \<or> starts_with name ''id_ed25519'' \<or> starts_with name ''id_ecdsa''
              \<or> name = ''.npmrc'' \<or> name = ''.pypirc'' \<or> name = ''.netrc'')"

definition is_legacy_attachment_path :: "string \<Rightarrow> bool" where
  "is_legacy_attachment_path p \<longleftrightarrow>
     (let lower = to_ascii_lowercase (trim_start_matches (\<lambda>c. c = CHR ''/'') p)
      in (CHR ''/'' \<notin> set lower \<and> starts_with lower ''chat-upload-'')
         \<or> starts_with lower ''artifacts/instafy-merge/'')"

definition is_unsafe_path :: "string \<Rightarrow> bool" where
  "is_unsafe_path p \<longleftrightarrow>
     p = [] \<or> starts_with p ''/''
     \<or> list_ex (\<lambda>segment.
          segment = [] \<or> segment = ''.'' \<or> segment = ''..''
          \<or> eq_ignore_ascii_case (trim_end_matches (\<lambda>c. c = CHR '' '' \<or> c = CHR ''.'') segment) ''.git'')
         (split_on (CHR ''/'') p)
     \<or> is_reserved_path p"

definition unpublishable_reason :: "string \<Rightarrow> reject_reason option" where
  "unpublishable_reason p =
     (if repo_policy_denies_path p \<or> is_sync_reserved_path p then Some Excluded
      else if is_secret_path p then Some Secret
      else if is_legacy_attachment_path p then Some Attachment
      else None)"

definition is_unpublishable :: "string \<Rightarrow> bool" where
  "is_unpublishable p \<longleftrightarrow> unpublishable_reason p \<noteq> None"

definition deletion_allowed :: "string \<Rightarrow> bool" where
  "deletion_allowed p \<longleftrightarrow> unpublishable_reason p \<noteq> Some Excluded \<and> \<not> is_unsafe_path p"

definition restore_refusal :: "string \<Rightarrow> bool \<Rightarrow> string \<Rightarrow> nat option \<Rightarrow> reject_reason option" where
  "restore_refusal p deleted new_mode sz =
     (if deleted then (if deletion_allowed p then None else Some Excluded)
      else case unpublishable_reason p of
        Some reason \<Rightarrow> Some reason
      | None \<Rightarrow>
          if is_unsafe_path p \<or> new_mode = ''160000'' then Some Unsupported
          else (case sz of Some n \<Rightarrow> if max_publish_blob_bytes < n then Some TooLarge else None | None \<Rightarrow> None))"

end
