(* ===== verification/Restore_Plan.thy ===== *)
theory Restore_Plan
  imports Tree_Merge Publish_Policy
begin

text \<open>
  What a restore of unsaved work brings back (\<open>origin-http-server/src/restore_plan.rs\<close>, and
  \<open>left_out_reason\<close> of recovery_view.rs): which changes of the work come in, which stay out and
  why, which clashes the person must settle, and whether the ref that holds the work may go.

  Beside git the plan takes \<open>portable_key\<close>, which folds a name as a disk that ignores case and
  Unicode form does, and \<open>check_ignore\<close>, which runs \<open>git check-ignore\<close> over a scratch tree
  holding the given \<open>.gitignore\<close> files; both are arguments here.
\<close>

section \<open>Paths and what lies below them\<close>

text \<open>\<open>PathRoots\<close> is a \<open>BTreeSet\<close>: a list in order, without duplicates.\<close>

type_synonym path_roots = "path list"

definition roots_insert :: "path \<Rightarrow> path_roots \<Rightarrow> path_roots" where
  "roots_insert p roots = insort_insert p roots"

definition roots_of :: "path list \<Rightarrow> path_roots" where
  "roots_of ps = sort_dedup ps"

definition covers :: "path_roots \<Rightarrow> path \<Rightarrow> bool" where
  "covers roots p \<longleftrightarrow> p \<in> set roots \<or> list_ex (\<lambda>q. q \<in> set roots) (slash_prefixes p)"

definition range_from :: "path \<Rightarrow> path list \<Rightarrow> path list" where
  "range_from lower xs = dropWhile (\<lambda>x. x < lower) xs"

definition roots_at_or_below :: "path_roots \<Rightarrow> path \<Rightarrow> path list" where
  "roots_at_or_below roots folder =
     filter (\<lambda>p. length p = length folder \<or> starts_with (drop (length folder) p) ''/'')
       (takeWhile (\<lambda>p. starts_with p folder) (range_from folder roots))"

section \<open>Reasons\<close>

definition kept :: string where "kept = ''kept''"
definition path_alias :: string where "path_alias = ''path_alias''"
definition nothing_to_keep :: string where "nothing_to_keep = ''nothing_to_keep''"

definition left_out_reason :: "reject_reason option \<Rightarrow> bool \<Rightarrow> string option" where
  "left_out_reason refused keeps =
     (case refused of Some reason \<Rightarrow> Some (reason_name reason) | None \<Rightarrow> if keeps then Some kept else None)"

type_synonym reasons = "(path \<times> string) list" \<comment> \<open>a BTreeMap\<close>

text \<open>Why a path left out at a folder above, or below where the target holds something, was
  refused: the nearest folder above first.\<close>

definition refused_around :: "reasons \<Rightarrow> path list \<Rightarrow> path list \<Rightarrow> path \<Rightarrow> string option" where
  "refused_around left_out refused put_back p =
     (let above = find (\<lambda>q. q \<in> set refused) (rev (slash_prefixes p));
          below = find (\<lambda>q. q \<in> set refused \<and> q \<in> set put_back)
                    (takeWhile (\<lambda>q. starts_with q (p @ ''/'')) (range_from (p @ ''/'') (map fst left_out)))
      in Option.bind (case above of Some q \<Rightarrow> Some q | None \<Rightarrow> below) (map_of left_out))"

section \<open>Names that a disk takes for one\<close>

type_synonym names = "(string \<times> (path \<times> bool) list) list"

definition names_by_key :: "(string \<Rightarrow> string) \<Rightarrow> (path \<times> bool) list \<Rightarrow> names" where
  "names_by_key portable_key entries =
     fold (\<lambda>(p, folder). btree_entry (portable_key p)
             (\<lambda>old. (case old of None \<Rightarrow> [] | Some es \<Rightarrow> es) @ [(p, folder)])) entries []"

text \<open>The other entries of a name's key, with whether each is a folder.\<close>

definition others :: "(string \<Rightarrow> string) \<Rightarrow> names \<Rightarrow> path \<Rightarrow> bool list" where
  "others portable_key names name =
     map snd (filter (\<lambda>(other, _). other \<noteq> name)
       (case map_of names (portable_key name) of None \<Rightarrow> [] | Some es \<Rightarrow> es))"

definition alias_clashes :: "(string \<Rightarrow> string) \<Rightarrow> (path \<times> bool) list \<Rightarrow> path list \<Rightarrow> path list" where
  "alias_clashes portable_key entries added =
     (let names = names_by_key portable_key entries
      in filter (\<lambda>p.
           (case map_of names (portable_key p) of
              None \<Rightarrow> False | Some found \<Rightarrow> list_ex (\<lambda>(name, _). name = p) found)
           \<and> (others portable_key names p \<noteq> []
              \<or> list_ex (\<lambda>q. list_ex (\<lambda>folder. \<not> folder) (others portable_key names q)) (slash_prefixes p)))
         added)"

definition every_entry :: "'i git_tool \<Rightarrow> string \<Rightarrow> tree_entry list option" where
  "every_entry g t = map_option parse_ls_tree (gt_ls_tree_all g t)"

definition is_folder_entry :: "tree_entry \<Rightarrow> bool" where
  "is_folder_entry e \<longleftrightarrow> te_kind e = ''tree''"

definition aliases_in :: "'i git_tool \<Rightarrow> (string \<Rightarrow> string) \<Rightarrow> string \<Rightarrow> path list \<Rightarrow> path list option" where
  "aliases_in g portable_key t added =
     (if added = [] then Some []
      else map_option (\<lambda>es. alias_clashes portable_key (map (\<lambda>e. (te_path e, is_folder_entry e)) es) added)
             (every_entry g t))"

section \<open>Ignore rules\<close>

definition gitignores_for :: "path \<Rightarrow> path list" where
  "gitignores_for p = ''.gitignore'' # map (\<lambda>q. q @ ''/.gitignore'') (slash_prefixes p)"

type_synonym check_ignore = "(path \<times> string) list \<Rightarrow> path list \<Rightarrow> git_output option"
  \<comment> \<open>the \<open>.gitignore\<close> files with their content, and the paths asked about\<close>

definition check_ignored :: "'i git_tool \<Rightarrow> check_ignore \<Rightarrow> (path \<times> string) list \<Rightarrow> path list \<Rightarrow> path list option" where
  "check_ignored g check rules ps =
     (if rules = [] \<or> ps = [] then Some []
      else
        Option.bind (read_objects g (map snd rules)) (\<lambda>contents.
        Option.bind (check (zip (map fst rules) (map go_data contents)) ps) (\<lambda>(code, out).
          if code = Some 0 \<or> code = Some 1 then Some (map from_utf8_lossy (nul_records out)) else None)))"

definition ignored_in :: "'i git_tool \<Rightarrow> check_ignore \<Rightarrow> string \<Rightarrow> path list \<Rightarrow> path list option" where
  "ignored_in g check t ps =
     (if ps = [] then Some []
      else Option.bind (tree_entries g t (sort_dedup (concat (map gitignores_for ps))))
        (\<lambda>entries. check_ignored g check
           (map (\<lambda>(p, e). (p, te_oid e)) (filter (\<lambda>(_, e). is_regular (te_mode e)) entries)) ps))"

section \<open>The plan\<close>

record restore_input =
  ri_onto :: "string option"
  ri_saved :: string
  ri_keep :: path_roots
  ri_refused_before :: "(path \<times> reject_reason) list"

record not_restored =
  nr_path :: path
  nr_reason :: string

record restore_plan =
  rp_tree :: string
  rp_onto_tree :: string
  rp_not_restored :: "not_restored list"
  rp_refused :: nat
  rp_unsettled :: nat

definition made :: "restore_plan \<Rightarrow> bool" where
  "made pl \<longleftrightarrow> rp_tree pl \<noteq> rp_onto_tree pl"

definition lets_ref_go :: "restore_plan \<Rightarrow> bool" where
  "lets_ref_go pl \<longleftrightarrow> rp_refused pl = 0 \<and> rp_unsettled pl = 0"

definition marks_restored :: "restore_plan \<Rightarrow> bool" where
  "marks_restored pl \<longleftrightarrow> rp_unsettled pl = 0"

datatype plan_error = Conflict "path list" | Failed

text \<open>\<open>?\<close> on a command: its failure is the plan's.\<close>

definition or_failed :: "'a option \<Rightarrow> ('a \<Rightarrow> plan_error + 'b) \<Rightarrow> plan_error + 'b" where
  "or_failed x f = (case x of None \<Rightarrow> Inl Failed | Some y \<Rightarrow> f y)"

definition leaves_of :: "(path \<times> tree_entry) list \<Rightarrow> (path \<times> stage) list" where
  "leaves_of entries =
     map (\<lambda>(p, e). (p, (te_mode e, te_oid e))) (filter (\<lambda>(_, e). \<not> is_folder_entry e) entries)"

definition is_deleted :: "raw_change \<Rightarrow> bool" where
  "is_deleted c \<longleftrightarrow> rc_status c = CHR ''D''"

definition work_entry :: "raw_change \<Rightarrow> stage option" where
  "work_entry c = (if is_deleted c then None else Some (rc_new_mode c, rc_new_oid c))"

text \<open>The first judgement of every change: what the target already holds, what is refused, what the
  person keeps, and which new files go through the ignore check.\<close>

record judgement =
  jd_left_out :: reasons
  jd_refused :: "path list"
  jd_nothing_in :: path_roots
  jd_unignored :: "path list"

definition refusal_of ::
  "(path \<times> reject_reason) list \<Rightarrow> (string \<times> nat) list \<Rightarrow> (path \<times> stage) list \<Rightarrow> raw_change \<Rightarrow> reject_reason option" where
  "refusal_of refused_before sizes at_onto c =
     (case map_of refused_before (rc_path c) of
        Some reason \<Rightarrow> Some reason
      | None \<Rightarrow>
          (case restore_refusal (rc_path c) (is_deleted c) (rc_new_mode c) (map_of sizes (rc_new_oid c)) of
             Some reason \<Rightarrow> Some reason
           | None \<Rightarrow>
               (case map_of at_onto (rc_path c) of
                  Some (mode, _) \<Rightarrow> if mode = ''160000'' then Some Unsupported else None
                | None \<Rightarrow> None)))"

definition judge ::
  "restore_input \<Rightarrow> (string \<times> nat) list \<Rightarrow> (path \<times> stage) list \<Rightarrow> raw_change \<Rightarrow> judgement \<Rightarrow> judgement" where
  "judge inp sizes at_onto c j =
     (let p = rc_path c; held = map_of at_onto p
      in if held = work_entry c then j\<lparr>jd_nothing_in := roots_insert p (jd_nothing_in j)\<rparr>
         else
           let refusal = refusal_of (ri_refused_before inp) sizes at_onto c;
               j = (case left_out_reason refusal (covers (ri_keep inp) p) of
                      None \<Rightarrow> j
                    | Some reason \<Rightarrow>
                        j\<lparr>jd_left_out := btree_insert p reason (jd_left_out j),
                          jd_refused := (if refusal \<noteq> None then insort_insert p (jd_refused j) else jd_refused j)\<rparr>)
           in if refusal = None \<and> \<not> is_deleted c \<and> held = None
              then j\<lparr>jd_unignored := jd_unignored j @ [p]\<rparr> else j)"

definition judge_all :: "restore_input \<Rightarrow> (string \<times> nat) list \<Rightarrow> (path \<times> stage) list \<Rightarrow> raw_change list \<Rightarrow> judgement" where
  "judge_all inp sizes at_onto changes =
     fold (\<lambda>(p, reason) j.
         j\<lparr>jd_left_out := btree_entry p (\<lambda>old. case old of Some r \<Rightarrow> r | None \<Rightarrow> reason_name reason) (jd_left_out j),
           jd_refused := insort_insert p (jd_refused j)\<rparr>)
       (ri_refused_before inp)
       (fold (judge inp sizes at_onto) changes
          \<lparr>jd_left_out = [], jd_refused = [], jd_nothing_in = [], jd_unignored = []\<rparr>)"

text \<open>The paths of \<open>pending\<close> that the tree does not hold as the restore means to bring them.\<close>

definition undone ::
  "'i git_tool \<Rightarrow> raw_change list \<Rightarrow> path list \<Rightarrow> string \<Rightarrow> string \<Rightarrow> path list option" where
  "undone g pending conflicted merged t =
     (if pending = [] then Some []
      else
        Option.bind (entries_by_path g t (map rc_path pending)) (\<lambda>entries.
          let here = leaves_of entries;
              unlike_work = filter (\<lambda>c. map_of here (rc_path c) \<noteq> work_entry c) pending;
              combined = map rc_path (filter (\<lambda>c. rc_path c \<notin> set conflicted) unlike_work)
          in map_option (\<lambda>merged_entries.
               sort (map rc_path (filter (\<lambda>c.
                 rc_path c \<in> set conflicted
                 \<or> map_of here (rc_path c) \<noteq> map_of (leaves_of merged_entries) (rc_path c)) unlike_work)))
               (entries_by_path g merged combined)))"

text \<open>The kept paths with a name that a disk takes for another entry of the tree, each with whether
  such an entry holds the work.\<close>

definition kept_aliases ::
  "'i git_tool \<Rightarrow> (string \<Rightarrow> string) \<Rightarrow> string \<Rightarrow> raw_change list \<Rightarrow> (path \<times> bool) list option" where
  "kept_aliases g portable_key t keeps =
     (if keeps = [] then Some []
      else map_option (\<lambda>listed.
        let held = map (\<lambda>e. (portable_key (te_path e), te_mode e, te_oid e)) (filter (\<lambda>e. \<not> is_folder_entry e) listed);
            entries = map (\<lambda>e. (te_path e, is_folder_entry e)) listed
              @ concat (map (\<lambda>c. map (\<lambda>q. (q, True)) (slash_prefixes (rc_path c)) @ [(rc_path c, False)]) keeps);
            clashes = alias_clashes portable_key entries (map rc_path keeps)
        in btree_collect
             (map (\<lambda>c. (rc_path c, (portable_key (rc_path c), rc_new_mode c, rc_new_oid c) \<in> set held))
                (filter (\<lambda>c. rc_path c \<in> set clashes) keeps)))
        (every_entry g t))"

definition unsettled_keeps ::
  "'i git_tool \<Rightarrow> (string \<Rightarrow> string) \<Rightarrow> string \<Rightarrow> string \<Rightarrow> path list \<Rightarrow> raw_change list \<Rightarrow> (path \<times> string) list option" where
  "unsettled_keeps g portable_key onto_tree t conflicts keeps =
     (if keeps = [] then Some []
      else
        Option.bind (kept_aliases g portable_key t keeps) (\<lambda>aliases.
        map_option (\<lambda>at_onto.
          let is_folder = (\<lambda>p. map_option is_folder_entry (map_of at_onto p))
          in List.map_filter (\<lambda>c.
               let p = rc_path c;
                   unsettled = (case map_of aliases p of
                     Some held \<Rightarrow> if held then None else Some path_alias
                   | None \<Rightarrow>
                       let folder_here = (is_folder p = Some True);
                           file_above = list_ex (\<lambda>q. is_folder q = Some False) (slash_prefixes p);
                           removed = (rc_status c \<noteq> CHR ''A'' \<and> p \<in> set conflicts)
                       in if folder_here \<or> file_above \<or> removed then None else Some nothing_to_keep)
               in map_option (\<lambda>reason. (p, reason)) unsettled) keeps)
          (entries_by_path g onto_tree
             (sort_dedup (concat (map (\<lambda>c. slash_prefixes (rc_path c) @ [rc_path c]) keeps))))))"

text \<open>The restored tree with the paths left out so far put back, and the ignored ones after them.\<close>

definition leave_ignored ::
  "path list \<Rightarrow> reasons \<times> path list \<Rightarrow> reasons \<times> path list \<times> path list" where
  "leave_ignored ignored start =
     fold (\<lambda>p (left_out, refused, newly).
        (btree_insert p (reason_name Ignored) left_out, insort_insert p refused,
         if map_of left_out p = None then newly @ [p] else newly))
       ignored (fst start, snd start, [])"

text \<open>The changes the resets undid: each is left out for the reason of a refused path around it, or
  is a clash.\<close>

definition settle_undone ::
  "path list \<Rightarrow> path list \<Rightarrow> reasons \<times> path list \<Rightarrow> reasons \<times> path list \<times> path list" where
  "settle_undone put_back paths start =
     fold (\<lambda>p (left_out, refused, clashes).
        (case refused_around left_out refused put_back p of
           Some reason \<Rightarrow> (btree_insert p reason left_out, insort_insert p refused, clashes)
         | None \<Rightarrow> (left_out, refused, clashes @ [p])))
       paths (fst start, snd start, [])"

text \<open>A conflict of the merge is settled below a path left out, where it is kept, or when the work
  brings nothing in at or below it.\<close>

definition unsettled_conflict :: "path_roots \<Rightarrow> path_roots \<Rightarrow> path_roots \<Rightarrow> path_roots \<Rightarrow> path \<Rightarrow> bool" where
  "unsettled_conflict left_out_roots keep work nothing_in p \<longleftrightarrow>
     \<not> (covers left_out_roots p \<or> covers keep p)
     \<and> \<not> (roots_at_or_below work p \<noteq> [] \<and> list_all (\<lambda>q. q \<in> set nothing_in) (roots_at_or_below work p))"

text \<open>What the plan reads of the work: the target's tree, the merge, the changes, what the target
  holds there, and the sizes of what the work writes.\<close>

record work_view =
  wv_onto_tree :: string
  wv_merged :: merge_result
  wv_changes :: "raw_change list"
  wv_at_onto :: "(path \<times> stage) list"
  wv_sizes :: "(string \<times> nat) list"

definition view_work :: "'i git_tool \<Rightarrow> restore_input \<Rightarrow> work_view option" where
  "view_work g inp =
     Option.bind (case ri_onto inp of Some onto \<Rightarrow> gt_tree_id g onto | None \<Rightarrow> gt_empty_tree g) (\<lambda>onto_tree.
     Option.bind (case ri_onto inp of Some onto \<Rightarrow> merge_base g (ri_saved inp) onto | None \<Rightarrow> Some None) (\<lambda>base.
     Option.bind (case base of Some b \<Rightarrow> gt_tree_id g b | None \<Rightarrow> gt_empty_tree g) (\<lambda>base_tree.
     Option.bind (three_way g base onto_tree (ri_saved inp)) (\<lambda>merged.
     Option.bind (gt_tree_id g (ri_saved inp)) (\<lambda>saved_tree.
     Option.bind (gt_diff_raw g base_tree saved_tree) (\<lambda>raw.
       let changes = parse_raw_changes raw;
           written = map rc_new_oid (filter (\<lambda>c. \<not> is_deleted c \<and> rc_new_mode c \<noteq> ''160000'') changes)
       in Option.bind (tree_entries g onto_tree (map rc_path changes)) (\<lambda>entries.
          map_option (\<lambda>sizes.
            \<lparr>wv_onto_tree = onto_tree, wv_merged = merged, wv_changes = changes,
             wv_at_onto = leaves_of entries,
             wv_sizes = btree_collect (List.map_filter (\<lambda>(oid, sz). map_option (\<lambda>(_, n). (oid, n)) sz)
                                         (zip written sizes))\<rparr>)
            (object_sizes g written))))))))"

text \<open>The restored tree so far: the merge with every path left out as the target has it, then the
  new files its own \<open>.gitignore\<close> files ignore.\<close>

definition reset_tree ::
  "'i git_tool \<Rightarrow> check_ignore \<Rightarrow> work_view \<Rightarrow> judgement \<Rightarrow> (string \<times> reasons \<times> path list) option" where
  "reset_tree g check v j =
     Option.bind
       (tree_with_entries_from g (mr_tree (wv_merged v)) (Some (wv_onto_tree v)) (map fst (jd_left_out j))) (\<lambda>t.
     Option.bind (ignored_in g check t (jd_unignored j)) (\<lambda>ignored.
       case leave_ignored ignored (jd_left_out j, jd_refused j) of
         (left_out, refused, newly) \<Rightarrow>
           map_option (\<lambda>t. (t, left_out, refused))
             (if newly \<noteq> [] then tree_with_entries_from g t (Some (wv_onto_tree v)) newly else Some t)))"

definition find_undone ::
  "'i git_tool \<Rightarrow> work_view \<Rightarrow> judgement \<Rightarrow> string \<Rightarrow> reasons \<Rightarrow> path list \<Rightarrow> (reasons \<times> path list \<times> path list) option" where
  "find_undone g v j t left_out refused =
     (if left_out = [] then Some (left_out, refused, [])
      else
        let pending = filter (\<lambda>c. rc_path c \<notin> fst ` set left_out \<and> rc_path c \<notin> set (jd_nothing_in j)) (wv_changes v)
        in Option.bind (entries_by_path g (wv_onto_tree v) refused) (\<lambda>put_back.
           map_option (\<lambda>paths. settle_undone (map fst put_back) paths (left_out, refused))
             (undone g pending (mr_conflicts (wv_merged v)) (mr_tree (wv_merged v)) t)))"

text \<open>The clashes the person must settle, and with none the plan.\<close>

definition clashes_of ::
  "'i git_tool \<Rightarrow> (string \<Rightarrow> string) \<Rightarrow> restore_input \<Rightarrow> work_view \<Rightarrow> judgement \<Rightarrow> string \<Rightarrow> reasons \<Rightarrow> path list
   \<Rightarrow> path list option" where
  "clashes_of g portable_key inp v j t left_out undone_clashes =
     (let added = map rc_path (filter (\<lambda>c. \<not> is_deleted c \<and> map_of (wv_at_onto v) (rc_path c) = None
                                         \<and> rc_path c \<notin> fst ` set left_out) (wv_changes v))
      in map_option (\<lambda>alias.
           let nothing_in = fold roots_insert (map fst left_out) (jd_nothing_in j)
           in sort_dedup
                (filter (unsettled_conflict (roots_of (map fst left_out)) (ri_keep inp)
                           (roots_of (map rc_path (wv_changes v))) nothing_in)
                   (mr_conflicts (wv_merged v))
                 @ undone_clashes @ alias))
           (aliases_in g portable_key t added))"

definition finish_plan ::
  "'i git_tool \<Rightarrow> (string \<Rightarrow> string) \<Rightarrow> work_view \<Rightarrow> string \<Rightarrow> reasons \<Rightarrow> path list \<Rightarrow> restore_plan option" where
  "finish_plan g portable_key v t left_out refused =
     (let kept_new = filter (\<lambda>c. \<not> is_deleted c \<and> map_of (wv_at_onto v) (rc_path c) = None
                               \<and> map_of left_out (rc_path c) = Some kept) (wv_changes v)
      in map_option (\<lambda>unsettled.
           let left_out = fold (\<lambda>(p, reason). btree_insert p reason) unsettled left_out
           in \<lparr>rp_tree = t, rp_onto_tree = wv_onto_tree v,
               rp_not_restored = map (\<lambda>(p, reason). \<lparr>nr_path = p, nr_reason = reason\<rparr>) left_out,
               rp_refused = length refused, rp_unsettled = length unsettled\<rparr>)
           (unsettled_keeps g portable_key (wv_onto_tree v) t (mr_conflicts (wv_merged v)) kept_new))"

definition plan ::
  "'i git_tool \<Rightarrow> (string \<Rightarrow> string) \<Rightarrow> check_ignore \<Rightarrow> restore_input \<Rightarrow> plan_error + restore_plan" where
  "plan g portable_key check inp =
     or_failed (view_work g inp) (\<lambda>v.
       let j = judge_all inp (wv_sizes v) (wv_at_onto v) (wv_changes v)
       in or_failed (reset_tree g check v j) (\<lambda>(t, left_out, refused).
          or_failed (find_undone g v j t left_out refused) (\<lambda>(left_out, refused, undone_clashes).
          or_failed (clashes_of g portable_key inp v j t left_out undone_clashes) (\<lambda>conflicts.
            if conflicts \<noteq> [] then Inl (Conflict conflicts)
            else or_failed (finish_plan g portable_key v t left_out refused) Inr))))"

end
