(* ===== verification/Restore_Paths.thy ===== *)
theory Restore_Paths
  imports Restore_Plan
begin

text \<open>
  Facts about the path sets of a restore plan: the range scans over ordered sets find exactly the
  paths below a folder, and \<open>covers\<close> asks for a path at or above the given one.
\<close>

section \<open>Folders above a path\<close>

lemma in_slash_prefixes: "q \<in> set (slash_prefixes p) \<longleftrightarrow> below q p"
proof
  assume "q \<in> set (slash_prefixes p)"
  then obtain i where i: "i < length p" "p ! i = CHR ''/''" "q = take i p"
    by (auto simp: slash_prefixes_def)
  then have "p = q @ CHR ''/'' # drop (Suc i) p" using id_take_nth_drop [of i p] by simp
  then show "below q p" by (auto simp: below_iff)
next
  assume "below q p"
  then obtain r where "p = q @ CHR ''/'' # r" by (auto simp: below_iff)
  then have "length q < length p" "p ! length q = CHR ''/''" "q = take (length q) p" by simp_all
  then show "q \<in> set (slash_prefixes p)" by (force simp: slash_prefixes_def)
qed

lemma covers_iff: "covers roots p \<longleftrightarrow> (\<exists>q \<in> set roots. under q p)"
  by (auto simp: covers_def list_ex_iff in_slash_prefixes under_iff)

lemma set_roots_insert [simp]: "set (roots_insert p roots) = insert p (set roots)"
  by (simp add: roots_insert_def set_insort_insert)

lemma set_fold_roots_insert [simp]: "set (fold roots_insert ps roots) = set ps \<union> set roots"
  by (induction ps arbitrary: roots) auto

lemma set_roots_of [simp]: "set (roots_of ps) = set ps" and sorted_roots_of: "sorted (roots_of ps)"
  by (simp_all add: roots_of_def sort_dedup_sorted)

section \<open>Ranges of an ordered set\<close>

text \<open>The texts that start with a given one are an interval of the order, and it begins with that
  text itself.\<close>

lemma prefix_between:
  fixes x y f :: string
  assumes "f \<le> x" "x \<le> y" "starts_with y f"
  shows "starts_with x f"
  using assms
proof (induction f arbitrary: x y)
  case (Cons c f)
  from Cons.prems(3) obtain y' where y: "y = c # y'" "starts_with y' f"
    by (cases y) (auto simp: starts_with_def)
  from Cons.prems(1) obtain d x' where x: "x = d # x'"
    by (cases x) (auto simp: list_le_def list_less_def)
  from Cons.prems(1,2) have "c \<le> d" "d \<le> c"
    by (auto simp: x y(1))
  then have "d = c" by simp
  with Cons.prems(1,2) have "f \<le> x'" "x' \<le> y'"
    by (simp_all add: x y(1))
  with Cons.IH [OF _ _ y(2)] \<open>d = c\<close> show ?case by (simp add: x)
qed simp

lemma starts_with_le:
  fixes x f :: string
  assumes "starts_with x f"
  shows "f \<le> x"
  using assms
proof (induction f arbitrary: x)
  case (Cons c f)
  then obtain x' where "x = c # x'" "starts_with x' f"
    by (cases x) (auto simp: starts_with_def)
  with Cons.IH show ?case by simp
qed simp

lemma takeWhile_prefixes:
  fixes xs :: "string list"
  assumes "sorted xs"
  shows "takeWhile (\<lambda>x. starts_with x f) (range_from f xs) = filter (\<lambda>x. starts_with x f) xs"
  using assms
proof (induction xs)
  case (Cons x xs)
  show ?case
  proof (cases "x < f")
    case True
    then have "\<not> starts_with x f" using starts_with_le [of x f] by auto
    with True Cons show ?thesis by (simp add: range_from_def)
  next
    case False
    then have fx: "f \<le> x" by simp
    then have d: "range_from f (x # xs) = x # xs" using False by (simp add: range_from_def)
    have d': "range_from f xs = xs"
    proof (cases xs)
      case (Cons y ys)
      with \<open>sorted (x # xs)\<close> fx have "f \<le> y" by auto
      then show ?thesis by (simp add: range_from_def Cons)
    qed (simp add: range_from_def)
    show ?thesis
    proof (cases "starts_with x f")
      case True
      with Cons d d' show ?thesis by simp
    next
      case False
      have "\<not> starts_with y f" if "y \<in> set xs" for y
        using prefix_between [OF fx, of y] False Cons.prems that by auto
      then have "filter (\<lambda>x. starts_with x f) (x # xs) = []" using False by (simp add: filter_empty_conv)
      with False d show ?thesis by simp
    qed
  qed
qed (simp add: range_from_def)

lemma under_prefix: "under f p \<longleftrightarrow> starts_with p f \<and> (length p = length f \<or> starts_with (drop (length f) p) ''/'')"
proof
  assume "under f p"
  then show "starts_with p f \<and> (length p = length f \<or> starts_with (drop (length f) p) ''/'')"
    by (auto simp: under_iff below_iff starts_with_iff_prefix)
next
  assume r: "starts_with p f \<and> (length p = length f \<or> starts_with (drop (length f) p) ''/'')"
  then obtain s where "p = f @ s" by (auto elim: starts_withE)
  with r show "under f p" by (auto simp: under_iff below_iff starts_with_iff_prefix prefix_def)
qed

lemma roots_at_or_below_eq:
  assumes "sorted roots"
  shows "roots_at_or_below roots f = filter (under f) roots"
proof -
  have "roots_at_or_below roots f =
      filter (\<lambda>p. starts_with p f \<and> (length p = length f \<or> starts_with (drop (length f) p) ''/'')) roots"
    using assms by (simp add: roots_at_or_below_def takeWhile_prefixes conj_commute)
  also have "\<dots> = filter (under f) roots"
    by (intro filter_cong refl) (simp only: under_prefix)
  finally show ?thesis .
qed

end
