(* ===== verification/Restore_Stages.thy ===== *)
theory Restore_Stages
  imports Restore_Paths
begin

text \<open>
  What each stage of a restore plan establishes: the view of the work, the judgement of its
  changes, the resets, the changes the resets undid, and the clashes.
\<close>

section \<open>The view of the work\<close>

definition onto_leaf :: "'i git_tool \<Rightarrow> 'i git_model \<Rightarrow> restore_input \<Rightarrow> path \<Rightarrow> stage option" where
  "onto_leaf g m inp p = (case ri_onto inp of Some r \<Rightarrow> rev_leaf g m r p | None \<Rightarrow> None)"

definition work_leaf :: "'i git_tool \<Rightarrow> 'i git_model \<Rightarrow> restore_input \<Rightarrow> path \<Rightarrow> stage option" where
  "work_leaf g m inp p = rev_leaf g m (ri_saved inp) p"

text \<open>What the merge base of the work and the target has; nothing when there is none.\<close>

definition origin_leaf :: "'i git_tool \<Rightarrow> 'i git_model \<Rightarrow> restore_input \<Rightarrow> path \<Rightarrow> stage option" where
  "origin_leaf g m inp p =
     (case ri_onto inp of
        None \<Rightarrow> None
      | Some r \<Rightarrow> (case merge_base g (ri_saved inp) r of Some b \<Rightarrow> base_leaf g m b p | None \<Rightarrow> None))"

lemma tree_id_leaf:
  assumes "tree_laws g m" "gt_tree_id g r = Some t"
  shows "rev_leaf g m r p = leaf m t p" "rev_leaf g m t p = leaf m t p" "is_tree g t"
  using tree_idD [OF assms] assms(2) by (simp_all add: rev_leaf_def is_tree_def)

lemma map_of_leaves:
  assumes "finds m t P mm"
  shows "map_of (leaves_of mm) p = (if p \<in> P then leaf m t p else None)"
proof -
  have "map_of (leaves_of mm) p =
      (case map_of mm p of Some e \<Rightarrow> if is_folder_entry e then None else Some (te_mode e, te_oid e) | None \<Rightarrow> None)"
    if "keys_distinct mm" for mm :: "(path \<times> tree_entry) list"
    using that
  proof (induction mm)
    case (Cons x mm)
    obtain q e where x: "x = (q, e)" by (cases x)
    from Cons.prems x have "map_of mm q = None" by (simp add: map_of_eq_None_iff)
    with Cons show ?case by (auto simp: leaves_of_def x split: option.splits)
  qed (simp add: leaves_of_def)
  from this [of mm] assms show ?thesis
    by (auto simp: finds_def leaf_def is_folder_entry_def dest: btree_sorted_keys split: option.splits)
qed

lemma diff_changes:
  assumes laws: "git_laws g m" and ab: "is_tree g a" "is_tree g b" and raw: "gt_diff_raw g a b = Some raw"
  shows "diff_law m a b (parse_raw_changes raw)"
proof -
  obtain ds where ds: "raw = diff_output ds" "list_all diff_ok ds" "diff_law m a b (map dl_change ds)"
    using diff_rawD [OF git_lawsD(2) [OF laws] ab raw] by blast
  then show ?thesis by (simp add: parse_diff_output)
qed

lemma view_work_spec:
  assumes laws: "git_laws g m" and res: "view_work g inp = Some v"
  shows "is_tree g (wv_onto_tree v)"
    and "is_tree g (mr_tree (wv_merged v))"
    and "leaf m (wv_onto_tree v) p = onto_leaf g m inp p"
    and "merged_entry g m (p \<in> set (mr_conflicts (wv_merged v))) (origin_leaf g m inp p) (onto_leaf g m inp p)
           (work_leaf g m inp p) (leaf m (mr_tree (wv_merged v)) p)"
    and "c \<in> set (wv_changes v) \<Longrightarrow>
           origin_leaf g m inp (rc_path c) \<noteq> work_leaf g m inp (rc_path c)
           \<and> work_leaf g m inp (rc_path c) = work_entry c
           \<and> map_of (wv_at_onto v) (rc_path c) = onto_leaf g m inp (rc_path c)"
    and "origin_leaf g m inp p \<noteq> work_leaf g m inp p \<Longrightarrow> \<exists>c \<in> set (wv_changes v). rc_path c = p"
proof -
  note tl = git_lawsD(1) [OF laws] and ll = git_lawsD(2) [OF laws]
  from res obtain ot base bt merged st raw entries where v:
    "(case ri_onto inp of Some onto \<Rightarrow> gt_tree_id g onto | None \<Rightarrow> gt_empty_tree g) = Some ot"
    "(case ri_onto inp of Some onto \<Rightarrow> merge_base g (ri_saved inp) onto | None \<Rightarrow> Some None) = Some base"
    "(case base of Some b \<Rightarrow> gt_tree_id g b | None \<Rightarrow> gt_empty_tree g) = Some bt"
    "three_way g base ot (ri_saved inp) = Some merged"
    "gt_tree_id g (ri_saved inp) = Some st" "gt_diff_raw g bt st = Some raw"
    "tree_entries g ot (map rc_path (parse_raw_changes raw)) = Some entries"
    "wv_onto_tree v = ot" "wv_merged v = merged" "wv_changes v = parse_raw_changes raw"
    "wv_at_onto v = leaves_of entries"
    unfolding view_work_def Let_def by (clarsimp simp: bind_eq_Some_conv)
  have onto: "is_tree g ot" "onto_leaf g m inp p = leaf m ot p" "rev_leaf g m ot p = leaf m ot p" for p
    using v(1) tree_id_leaf [OF tl] empty_treeD [OF tl]
    by (auto simp: onto_leaf_def rev_leaf_def is_tree_def split: option.splits)
  have origin: "origin_leaf g m inp p = base_leaf g m base p" for p
    using v(2) by (auto simp: origin_leaf_def base_leaf_def split: option.splits)
  have base: "is_tree g bt" "base_leaf g m base p = leaf m bt p" for p
    using v(3) tree_id_leaf [OF tl] empty_treeD [OF tl]
    by (auto simp: base_leaf_def split: option.splits)
  have st: "is_tree g st" "work_leaf g m inp p = leaf m st p" for p
    using tree_id_leaf [OF tl v(5)] by (simp_all add: work_leaf_def)
  show "is_tree g (wv_onto_tree v)" "leaf m (wv_onto_tree v) p = onto_leaf g m inp p"
    using onto v(8) by simp_all
  show "is_tree g (mr_tree (wv_merged v))"
    using three_way_spec(1) [OF laws v(4)] v(9) by simp
  show "merged_entry g m (p \<in> set (mr_conflicts (wv_merged v))) (origin_leaf g m inp p) (onto_leaf g m inp p)
           (work_leaf g m inp p) (leaf m (mr_tree (wv_merged v)) p)"
    using three_way_spec(2) [OF laws v(4), of p] v(9) by (simp add: origin onto work_leaf_def)
  have d: "diff_law m bt st (wv_changes v)"
    using diff_changes [OF laws base(1) st(1) v(6)] v(10) by simp
  have f: "finds m ot (set (map rc_path (wv_changes v))) entries"
    using tree_entries_spec [OF tl ll onto(1) v(7)] v(10) by simp
  show "origin_leaf g m inp (rc_path c) \<noteq> work_leaf g m inp (rc_path c)
      \<and> work_leaf g m inp (rc_path c) = work_entry c
      \<and> map_of (wv_at_onto v) (rc_path c) = onto_leaf g m inp (rc_path c)" if c: "c \<in> set (wv_changes v)"
    using d c map_of_leaves [OF f, of "rc_path c"]
    by (auto simp: diff_law_def origin base(2) st(2) onto(2) work_entry_def is_deleted_def v(11))
  show "\<exists>c \<in> set (wv_changes v). rc_path c = p" if "origin_leaf g m inp p \<noteq> work_leaf g m inp p"
    using d that by (auto simp: diff_law_def origin base(2) st(2))
qed

section \<open>The judgement\<close>

abbreviation keys :: "('k \<times> 'v) list \<Rightarrow> 'k set" where
  "keys mm \<equiv> fst ` set mm"

text \<open>What is left out has its reason, and a path that was not refused was kept.\<close>

definition reasons_ok :: "path_roots \<Rightarrow> reasons \<Rightarrow> path list \<Rightarrow> bool" where
  "reasons_ok keep left_out refused \<longleftrightarrow>
     btree_sorted left_out
     \<and> (\<forall>p r. map_of left_out p = Some r \<longrightarrow> p \<notin> set refused \<longrightarrow> r = kept \<and> covers keep p)"

lemma reasons_ok_refuse:
  assumes "reasons_ok keep left_out refused"
  shows "reasons_ok keep (btree_entry p f left_out) (insort_insert p refused)"
  using assms unfolding reasons_ok_def
  by (auto simp: btree_sorted_entry map_of_btree_entry set_insort_insert split: if_splits)

lemma reasons_ok_keep:
  assumes "reasons_ok keep left_out refused" "covers keep p"
  shows "reasons_ok keep (btree_insert p kept left_out) refused"
  using assms unfolding reasons_ok_def
  by (auto simp: btree_sorted_entry map_of_btree_entry split: if_splits)

definition out_of_hand ::
  "restore_input \<Rightarrow> (string \<times> nat) list \<Rightarrow> (path \<times> stage) list \<Rightarrow> raw_change \<Rightarrow> bool" where
  "out_of_hand inp sizes at_onto c \<longleftrightarrow>
     map_of at_onto (rc_path c) \<noteq> work_entry c
     \<and> (refusal_of (ri_refused_before inp) sizes at_onto c \<noteq> None \<or> covers (ri_keep inp) (rc_path c))"

definition judged ::
  "restore_input \<Rightarrow> (string \<times> nat) list \<Rightarrow> (path \<times> stage) list \<Rightarrow> raw_change set \<Rightarrow> judgement \<Rightarrow> bool" where
  "judged inp sizes at_onto cs j \<longleftrightarrow>
     reasons_ok (ri_keep inp) (jd_left_out j) (jd_refused j)
     \<and> set (jd_nothing_in j) = rc_path ` {c \<in> cs. map_of at_onto (rc_path c) = work_entry c}
     \<and> keys (jd_left_out j) = rc_path ` {c \<in> cs. out_of_hand inp sizes at_onto c}"

lemma judge_step:
  assumes "judged inp sizes at_onto cs j"
  shows "judged inp sizes at_onto (insert c cs) (judge inp sizes at_onto c j)"
proof (cases "map_of at_onto (rc_path c) = work_entry c")
  case True
  then have "judge inp sizes at_onto c j = j\<lparr>jd_nothing_in := roots_insert (rc_path c) (jd_nothing_in j)\<rparr>"
    by (simp add: judge_def)
  moreover have "{x \<in> insert c cs. map_of at_onto (rc_path x) = work_entry x}
      = insert c {x \<in> cs. map_of at_onto (rc_path x) = work_entry x}" using True by auto
  moreover have "{x \<in> insert c cs. out_of_hand inp sizes at_onto x} = {x \<in> cs. out_of_hand inp sizes at_onto x}"
    using True by (auto simp: out_of_hand_def)
  ultimately show ?thesis using assms by (simp add: judged_def)
next
  case False
  let ?refusal = "refusal_of (ri_refused_before inp) sizes at_onto c"
  define out where "out \<longleftrightarrow> ?refusal \<noteq> None \<or> covers (ri_keep inp) (rc_path c)"
  have same: "{x \<in> insert c cs. map_of at_onto (rc_path x) = work_entry x}
      = {x \<in> cs. map_of at_onto (rc_path x) = work_entry x}" using False by auto
  have outs: "{x \<in> insert c cs. out_of_hand inp sizes at_onto x}
      = (if out then insert c else id) {x \<in> cs. out_of_hand inp sizes at_onto x}"
    using False by (auto simp: out_of_hand_def out_def)
  have nin: "jd_nothing_in (judge inp sizes at_onto c j) = jd_nothing_in j"
    using False by (auto simp: judge_def Let_def split: option.splits)
  consider (refused) r where "?refusal = Some r" | (kept) "?refusal = None" "covers (ri_keep inp) (rc_path c)"
    | (none) "?refusal = None" "\<not> covers (ri_keep inp) (rc_path c)" by auto
  then have "reasons_ok (ri_keep inp) (jd_left_out (judge inp sizes at_onto c j)) (jd_refused (judge inp sizes at_onto c j))
      \<and> keys (jd_left_out (judge inp sizes at_onto c j)) = (if out then insert (rc_path c) else id) (keys (jd_left_out j))"
  proof cases
    case refused
    with False assms show ?thesis
      by (simp add: judge_def Let_def left_out_reason_def out_def judged_def reasons_ok_refuse)
  next
    case kept
    with False assms show ?thesis
      by (simp add: judge_def Let_def left_out_reason_def out_def judged_def reasons_ok_keep)
  next
    case none
    with False assms show ?thesis
      by (simp add: judge_def Let_def left_out_reason_def out_def judged_def)
  qed
  moreover have "keys (jd_left_out j) = rc_path ` {c \<in> cs. out_of_hand inp sizes at_onto c}"
    using assms by (simp add: judged_def)
  ultimately show ?thesis
    using assms unfolding judged_def same outs nin by (cases out) simp_all
qed

lemma judge_fold: "judged inp sizes at_onto cs j \<Longrightarrow>
  judged inp sizes at_onto (set xs \<union> cs) (fold (judge inp sizes at_onto) xs j)"
proof (induction xs arbitrary: cs j)
  case (Cons c xs)
  from Cons.IH [OF judge_step [OF Cons.prems, of c]] show ?case by simp
qed simp

lemma judge_all_spec:
  assumes j_def: "j = judge_all inp sizes at_onto changes"
  shows "reasons_ok (ri_keep inp) (jd_left_out j) (jd_refused j)"
    and "set (jd_nothing_in j) = rc_path ` {c \<in> set changes. map_of at_onto (rc_path c) = work_entry c}"
    and "keys (jd_left_out j) = rc_path ` {c \<in> set changes. out_of_hand inp sizes at_onto c} \<union> keys (ri_refused_before inp)"
proof -
  let ?j0 = "\<lparr>jd_left_out = [], jd_refused = [], jd_nothing_in = [], jd_unignored = []\<rparr>"
  have "judged inp sizes at_onto {} ?j0" by (simp add: judged_def reasons_ok_def)
  from judge_fold [OF this, of changes]
  have j1: "judged inp sizes at_onto (set changes) (fold (judge inp sizes at_onto) changes ?j0)" by simp
  define f where "f = (\<lambda>(p :: path, reason) (j :: judgement).
         j\<lparr>jd_left_out := btree_entry p (\<lambda>old. case old of Some r \<Rightarrow> r | None \<Rightarrow> reason_name reason) (jd_left_out j),
           jd_refused := insort_insert p (jd_refused j)\<rparr>)"
  have j: "j = fold f (ri_refused_before inp) (fold (judge inp sizes at_onto) changes ?j0)"
    unfolding j_def judge_all_def f_def ..
  have "reasons_ok (ri_keep inp) (jd_left_out j0) (jd_refused j0) \<Longrightarrow>
      reasons_ok (ri_keep inp) (jd_left_out (fold f xs j0)) (jd_refused (fold f xs j0))
      \<and> jd_nothing_in (fold f xs j0) = jd_nothing_in j0
      \<and> keys (jd_left_out (fold f xs j0)) = keys (jd_left_out j0) \<union> keys xs" for xs j0
    by (induction xs arbitrary: j0) (auto simp: f_def reasons_ok_refuse split: prod.splits)
  from this [of "fold (judge inp sizes at_onto) changes ?j0" "ri_refused_before inp"] j1
  show "reasons_ok (ri_keep inp) (jd_left_out j) (jd_refused j)"
    and "set (jd_nothing_in j) = rc_path ` {c \<in> set changes. map_of at_onto (rc_path c) = work_entry c}"
    and "keys (jd_left_out j) = rc_path ` {c \<in> set changes. out_of_hand inp sizes at_onto c} \<union> keys (ri_refused_before inp)"
    unfolding j by (simp_all add: judged_def)
qed

section \<open>The resets\<close>

lemma leave_ignored_spec:
  assumes "leave_ignored ignored (left_out, refused) = (left_out', refused', newly)"
    and "reasons_ok keep left_out refused"
  shows "reasons_ok keep left_out' refused'"
    and "keys left_out' = keys left_out \<union> set ignored"
    and "set ignored \<subseteq> keys left_out \<union> set newly" and "set newly \<subseteq> set ignored"
    and "set refused \<subseteq> set refused'"
proof -
  define f where "f = (\<lambda>p (left_out :: reasons, refused :: path list, newly :: path list).
        (btree_insert p (reason_name Ignored) left_out, insort_insert p refused,
         if map_of left_out p = None then newly @ [p] else newly))"
  have "reasons_ok keep lo rf \<Longrightarrow> fold f ig (lo, rf, nw) = (lo', rf', nw') \<Longrightarrow>
      reasons_ok keep lo' rf' \<and> keys lo' = keys lo \<union> set ig \<and> set ig \<subseteq> keys lo \<union> set nw'
      \<and> set nw \<subseteq> set nw' \<and> set nw' \<subseteq> set nw \<union> set ig \<and> set rf \<subseteq> set rf'" for ig lo rf nw lo' rf' nw'
  proof (induction ig arbitrary: lo rf nw)
    case (Cons p ig)
    let ?nw = "if map_of lo p = None then nw @ [p] else nw"
    have "fold f ig (btree_insert p (reason_name Ignored) lo, insort_insert p rf, ?nw) = (lo', rf', nw')"
      using Cons.prems(2) by (simp add: f_def)
    from Cons.IH [OF reasons_ok_refuse [OF Cons.prems(1)] this]
    have ih: "reasons_ok keep lo' rf'" "keys lo' = insert p (keys lo) \<union> set ig" "set ig \<subseteq> insert p (keys lo) \<union> set nw'"
      "set ?nw \<subseteq> set nw'" "set nw' \<subseteq> set ?nw \<union> set ig" "insert p (set rf) \<subseteq> set rf'"
      by (simp_all add: set_insort_insert)
    have p: "p \<in> keys lo \<or> p \<in> set nw'" and nw: "set nw \<subseteq> set nw'" "set ?nw \<subseteq> insert p (set nw)"
      using ih(4) by (auto simp: map_of_eq_None_iff split: if_splits)
    show ?case
    proof (intro conjI)
      show "reasons_ok keep lo' rf'" by (fact ih(1))
      show "keys lo' = keys lo \<union> set (p # ig)" using ih(2) by simp
      show "set (p # ig) \<subseteq> keys lo \<union> set nw'" using p ih(3) by auto
      show "set nw \<subseteq> set nw'" by (fact nw(1))
      show "set nw' \<subseteq> set nw \<union> set (p # ig)" using ih(5) nw(2) by auto
      show "set rf \<subseteq> set rf'" using ih(6) by simp
    qed
  qed simp
  moreover have "fold f ignored (left_out, refused, []) = (left_out', refused', newly)"
    using assms(1) unfolding leave_ignored_def f_def by simp
  ultimately have "reasons_ok keep left_out' refused' \<and> keys left_out' = keys left_out \<union> set ignored
      \<and> set ignored \<subseteq> keys left_out \<union> set newly \<and> set [] \<subseteq> set newly
      \<and> set newly \<subseteq> set [] \<union> set ignored \<and> set refused \<subseteq> set refused'"
    using assms(2) by blast
  then show "reasons_ok keep left_out' refused'" "keys left_out' = keys left_out \<union> set ignored"
    "set ignored \<subseteq> keys left_out \<union> set newly" "set newly \<subseteq> set ignored" "set refused \<subseteq> set refused'" by simp_all
qed

lemma under_any_iff: "under_any ps p \<longleftrightarrow> (\<exists>q \<in> set ps. under q p)"
  by (simp add: under_any_def list_ex_iff)

text \<open>Taking entries from the target leaves each path as the target has it, or as it was; and below
  the paths taken, as the target has it.\<close>

lemma taken_from_onto:
  assumes laws: "git_laws g m" and trees: "is_tree g t" "is_tree g u"
    and res: "tree_with_entries_from g t (Some u) ps = Some t'"
  shows "is_tree g t'" and "under_any ps p \<Longrightarrow> leaf m t' p = leaf m u p"
    and "leaf m t' p = leaf m u p \<or> leaf m t' p = leaf m t p"
proof -
  have sp: "is_tree g t'" "taken_entry ps (source_leaf m (Some u)) (leaf m t) p (leaf m t' p)" for p
    using tree_with_entries_from_spec [OF laws trees(1) _ res] trees(2) by simp_all
  have u: "source_leaf m (Some u) = leaf m u" by (rule ext) (simp add: source_leaf_def)
  show "is_tree g t'" by (fact sp(1))
  show "leaf m t' p = leaf m u p" if "under_any ps p"
    using sp(2) [of p] that by (simp add: taken_entry_def u)
  show "leaf m t' p = leaf m u p \<or> leaf m t' p = leaf m t p"
  proof (cases "under_any ps p")
    case True
    then show ?thesis using sp(2) [of p] by (simp add: taken_entry_def u)
  next
    case False
    show ?thesis
    proof (cases "\<exists>q. under_any ps q \<and> leaf m u q \<noteq> None \<and> below p q")
      case True
      then obtain q where "leaf m u q \<noteq> None" "below p q" by blast
      then have "leaf m u p = None" using leaf_above_leaf [OF git_lawsD(1) [OF laws] trees(2)] by blast
      with sp(2) [of p] show ?thesis unfolding taken_entry_def u if_not_P [OF False] if_P [OF True] by simp
    next
      case none: False
      from sp(2) [of p] show ?thesis unfolding taken_entry_def u if_not_P [OF False] if_not_P [OF none] by simp
    qed
  qed
qed

lemma reset_tree_spec:
  assumes laws: "git_laws g m" and trees: "is_tree g (mr_tree (wv_merged v))" "is_tree g (wv_onto_tree v)"
    and ok: "reasons_ok keep (jd_left_out j) (jd_refused j)"
    and res: "reset_tree g check v j = Some (t, left_out, refused)"
  shows "is_tree g t" and "reasons_ok keep left_out refused" and "keys (jd_left_out j) \<subseteq> keys left_out"
    and "left_out = [] \<Longrightarrow> t = mr_tree (wv_merged v)"
    and "under_any (map fst left_out) p \<Longrightarrow> leaf m t p = leaf m (wv_onto_tree v) p"
    and "leaf m t p = leaf m (wv_onto_tree v) p \<or> leaf m t p = leaf m (mr_tree (wv_merged v)) p"
proof -
  from res obtain t0 ignored newly where
    t0: "tree_with_entries_from g (mr_tree (wv_merged v)) (Some (wv_onto_tree v)) (map fst (jd_left_out j)) = Some t0"
    and ig: "leave_ignored ignored (jd_left_out j, jd_refused j) = (left_out, refused, newly)"
    and t: "(if newly \<noteq> [] then tree_with_entries_from g t0 (Some (wv_onto_tree v)) newly else Some t0) = Some t"
  proof -
    from res obtain t0 ignored where r:
      "tree_with_entries_from g (mr_tree (wv_merged v)) (Some (wv_onto_tree v)) (map fst (jd_left_out j)) = Some t0"
      "(case leave_ignored ignored (jd_left_out j, jd_refused j) of
         (left_out, refused, newly) \<Rightarrow>
           map_option (\<lambda>t. (t, left_out, refused))
             (if newly \<noteq> [] then tree_with_entries_from g t0 (Some (wv_onto_tree v)) newly else Some t0))
       = Some (t, left_out, refused)"
      unfolding reset_tree_def by (auto simp: bind_eq_Some_conv)
    obtain lo rf newly where "leave_ignored ignored (jd_left_out j, jd_refused j) = (lo, rf, newly)"
      by (rule prod_cases3)
    with r that show ?thesis by (auto split: if_splits)
  qed
  note li = leave_ignored_spec [OF ig ok]
  note a = taken_from_onto [OF laws trees t0]
  have b: "is_tree g t" "under_any newly p \<Longrightarrow> leaf m t p = leaf m (wv_onto_tree v) p"
    "leaf m t p = leaf m (wv_onto_tree v) p \<or> leaf m t p = leaf m t0 p" for p
    using taken_from_onto [OF laws a(1) trees(2)] t a(1) by (auto simp: under_any_iff split: if_splits)
  show "is_tree g t" by (fact b(1))
  show "reasons_ok keep left_out refused" by (fact li(1))
  show "keys (jd_left_out j) \<subseteq> keys left_out" using li(2) by blast
  show "t = mr_tree (wv_merged v)" if "left_out = []"
  proof -
    have "jd_left_out j = []" "newly = []" using that li(2,4) by auto
    with t0 t trees(1) show ?thesis by (simp add: tree_with_entries_from_def is_tree_def)
  qed
  show "leaf m t p = leaf m (wv_onto_tree v) p" if "under_any (map fst left_out) p"
  proof -
    from that obtain q where q: "q \<in> keys left_out" "under q p" by (auto simp: under_any_iff)
    then have "q \<in> keys (jd_left_out j) \<or> q \<in> set newly" using li(2,3) by blast
    then show ?thesis
    proof
      assume "q \<in> keys (jd_left_out j)"
      then have "under_any (map fst (jd_left_out j)) p" using q(2) by (auto simp: under_any_iff)
      from a(2) [OF this] b(3) [of p] show ?thesis by auto
    next
      assume "q \<in> set newly"
      then have "under_any newly p" using q(2) by (auto simp: under_any_iff)
      then show ?thesis by (rule b(2))
    qed
  qed
  show "leaf m t p = leaf m (wv_onto_tree v) p \<or> leaf m t p = leaf m (mr_tree (wv_merged v)) p"
    using b(3) [of p] a(3) [of p] by auto
qed

section \<open>Changes the resets undid\<close>

lemma undone_spec:
  assumes laws: "git_laws g m" and trees: "is_tree g merged" "is_tree g t"
    and res: "undone g pending conflicted merged t = Some ps"
    and c: "c \<in> set pending" "leaf m t (rc_path c) \<noteq> work_entry c"
      "rc_path c \<in> set conflicted \<or> leaf m t (rc_path c) \<noteq> leaf m merged (rc_path c)"
  shows "rc_path c \<in> set ps"
proof -
  note tl = git_lawsD(1) [OF laws] and ll = git_lawsD(2) [OF laws]
  have "pending \<noteq> []" using c(1) by auto
  with res obtain entries merged_entries where e:
    "entries_by_path g t (map rc_path pending) = Some entries"
    "entries_by_path g merged (map rc_path (filter (\<lambda>c. rc_path c \<notin> set conflicted)
       (filter (\<lambda>c. map_of (leaves_of entries) (rc_path c) \<noteq> work_entry c) pending))) = Some merged_entries"
    "ps = sort (map rc_path (filter (\<lambda>c. rc_path c \<in> set conflicted
        \<or> map_of (leaves_of entries) (rc_path c) \<noteq> map_of (leaves_of merged_entries) (rc_path c))
        (filter (\<lambda>c. map_of (leaves_of entries) (rc_path c) \<noteq> work_entry c) pending)))"
    by (auto simp: undone_def Let_def bind_eq_Some_conv)
  have here: "map_of (leaves_of entries) (rc_path c) = leaf m t (rc_path c)"
    using map_of_leaves [OF entries_by_path_spec [OF tl ll trees(2) e(1)], of "rc_path c"] c(1) by simp
  then have unlike: "c \<in> set (filter (\<lambda>c. map_of (leaves_of entries) (rc_path c) \<noteq> work_entry c) pending)"
    using c(1,2) by simp
  have "rc_path c \<in> set conflicted \<or> map_of (leaves_of merged_entries) (rc_path c) = leaf m merged (rc_path c)"
    using map_of_leaves [OF entries_by_path_spec [OF tl ll trees(1) e(2)], of "rc_path c"] unlike by auto
  with c(3) here unlike show ?thesis unfolding e(3) by auto
qed

lemma settle_undone_spec:
  assumes "settle_undone put_back ps (left_out, refused) = (left_out', refused', clashes)"
    and "reasons_ok keep left_out refused"
  shows "reasons_ok keep left_out' refused'" and "keys left_out \<subseteq> keys left_out'"
    and "set ps \<subseteq> keys left_out' \<union> set clashes"
proof -
  define f where "f = (\<lambda>p (left_out :: reasons, refused, clashes).
        (case refused_around left_out refused put_back p of
           Some reason \<Rightarrow> (btree_insert p reason left_out, insort_insert p refused, clashes)
         | None \<Rightarrow> (left_out, refused, clashes @ [p])))"
  have "reasons_ok keep lo rf \<Longrightarrow> fold f xs (lo, rf, cl) = (lo', rf', cl') \<Longrightarrow>
      reasons_ok keep lo' rf' \<and> keys lo \<subseteq> keys lo' \<and> set cl \<subseteq> set cl' \<and> set xs \<subseteq> keys lo' \<union> set cl'" for xs lo rf cl lo' rf' cl'
  proof (induction xs arbitrary: lo rf cl)
    case (Cons p xs)
    show ?case
    proof (cases "refused_around lo rf put_back p")
      case None
      with Cons.prems(2) have "fold f xs (lo, rf, cl @ [p]) = (lo', rf', cl')" by (simp add: f_def)
      from Cons.IH [OF Cons.prems(1) this] show ?thesis by auto
    next
      case (Some reason)
      with Cons.prems(2) have "fold f xs (btree_insert p reason lo, insort_insert p rf, cl) = (lo', rf', cl')"
        by (simp add: f_def)
      from Cons.IH [OF reasons_ok_refuse [OF Cons.prems(1)] this] show ?thesis by auto
    qed
  qed simp
  moreover have "fold f ps (left_out, refused, []) = (left_out', refused', clashes)"
    using assms(1) unfolding settle_undone_def f_def by simp
  ultimately have "reasons_ok keep left_out' refused' \<and> keys left_out \<subseteq> keys left_out'
      \<and> set [] \<subseteq> set clashes \<and> set ps \<subseteq> keys left_out' \<union> set clashes"
    using assms(2) by blast
  then show "reasons_ok keep left_out' refused'" and "keys left_out \<subseteq> keys left_out'"
    and "set ps \<subseteq> keys left_out' \<union> set clashes" by simp_all
qed

end
