(* ===== verification/Restore_Safety.thy ===== *)
theory Restore_Safety
  imports Restore_Stages
begin

text \<open>
  The properties of a restore plan: nothing comes in but what the work changed and may bring, no
  change of the work is dropped without being listed, and the ref may go only when every change is
  on the restored tree, was on the target, or is one the person chose to keep out.
\<close>

section \<open>A plan and its stages\<close>

definition plan_stages ::
  "'i git_tool \<Rightarrow> (string \<Rightarrow> string) \<Rightarrow> check_ignore \<Rightarrow> restore_input \<Rightarrow> work_view \<Rightarrow> judgement \<Rightarrow> reasons
   \<Rightarrow> path list \<Rightarrow> reasons \<Rightarrow> path list \<Rightarrow> (path \<times> string) list \<Rightarrow> restore_plan \<Rightarrow> bool" where
  "plan_stages g portable_key check inp v j lo1 rf1 lo2 rf2 unsettled pl \<longleftrightarrow>
     view_work g inp = Some v
     \<and> j = judge_all inp (wv_sizes v) (wv_at_onto v) (wv_changes v)
     \<and> reset_tree g check v j = Some (rp_tree pl, lo1, rf1)
     \<and> find_undone g v j (rp_tree pl) lo1 rf1 = Some (lo2, rf2, [])
     \<and> clashes_of g portable_key inp v j (rp_tree pl) lo2 [] = Some []
     \<and> rp_onto_tree pl = wv_onto_tree v
     \<and> map nr_path (rp_not_restored pl) = map fst (fold (\<lambda>(p, r). btree_insert p r) unsettled lo2)
     \<and> map nr_reason (rp_not_restored pl) = map snd (fold (\<lambda>(p, r). btree_insert p r) unsettled lo2)
     \<and> rp_refused pl = length rf2 \<and> rp_unsettled pl = length unsettled"

lemma sort_dedup_Nil [simp]: "sort_dedup xs = [] \<longleftrightarrow> xs = []"
  by (metis set_empty set_sort_dedup)

lemma plan_stagesE:
  assumes "plan g portable_key check inp = Inr pl"
  obtains v j lo1 rf1 lo2 rf2 unsettled
  where "plan_stages g portable_key check inp v j lo1 rf1 lo2 rf2 unsettled pl"
proof -
  from assms obtain v t lo1 rf1 where s1: "view_work g inp = Some v"
    "reset_tree g check v (judge_all inp (wv_sizes v) (wv_at_onto v) (wv_changes v)) = Some (t, lo1, rf1)"
    and rest: "or_failed (find_undone g v (judge_all inp (wv_sizes v) (wv_at_onto v) (wv_changes v)) t lo1 rf1)
          (\<lambda>(left_out, refused, undone_clashes).
          or_failed (clashes_of g portable_key inp v (judge_all inp (wv_sizes v) (wv_at_onto v) (wv_changes v)) t left_out undone_clashes) (\<lambda>conflicts.
            if conflicts \<noteq> [] then Inl (Conflict conflicts)
            else or_failed (finish_plan g portable_key v t left_out refused) Inr)) = Inr pl"
    unfolding plan_def or_failed_def Let_def by (auto split: option.splits)
  let ?j = "judge_all inp (wv_sizes v) (wv_at_onto v) (wv_changes v)"
  from rest obtain lo2 rf2 uc where s2: "find_undone g v ?j t lo1 rf1 = Some (lo2, rf2, uc)"
    and rest: "or_failed (clashes_of g portable_key inp v ?j t lo2 uc) (\<lambda>conflicts.
            if conflicts \<noteq> [] then Inl (Conflict conflicts)
            else or_failed (finish_plan g portable_key v t lo2 rf2) Inr) = Inr pl"
    unfolding or_failed_def by (auto split: option.splits)
  from rest have s3: "clashes_of g portable_key inp v ?j t lo2 uc = Some []"
    and s4: "finish_plan g portable_key v t lo2 rf2 = Some pl"
    unfolding or_failed_def by (auto split: option.splits if_splits)
  from s3 have "uc = []" unfolding clashes_of_def Let_def by auto
  from s4 obtain unsettled where pl: "pl = \<lparr>rp_tree = t, rp_onto_tree = wv_onto_tree v,
               rp_not_restored = map (\<lambda>(p, reason). \<lparr>nr_path = p, nr_reason = reason\<rparr>)
                 (fold (\<lambda>(p, reason). btree_insert p reason) unsettled lo2),
               rp_refused = length rf2, rp_unsettled = length unsettled\<rparr>"
    unfolding finish_plan_def Let_def by auto
  show ?thesis
    by (rule that [of v ?j lo1 rf1 lo2 rf2 unsettled])
      (use s1 s2 s3 pl \<open>uc = []\<close> in \<open>simp add: plan_stages_def comp_def case_prod_unfold\<close>)
qed

lemma keys_fold_insert: "keys (fold (\<lambda>(p, r). btree_insert p r) us lo) = keys us \<union> keys lo"
proof (induction us arbitrary: lo)
  case (Cons x us)
  then show ?case by (cases x) (simp del: set_map)
qed simp

lemma find_undone_spec:
  assumes laws: "git_laws g m" and trees: "is_tree g (mr_tree (wv_merged v))" "is_tree g t"
    and ok: "reasons_ok keep lo1 rf1"
    and res: "find_undone g v j t lo1 rf1 = Some (lo2, rf2, clashes)"
  shows "reasons_ok keep lo2 rf2" and "keys lo1 \<subseteq> keys lo2"
    and "lo1 \<noteq> [] \<Longrightarrow> c \<in> set (wv_changes v) \<Longrightarrow> rc_path c \<notin> keys lo1 \<Longrightarrow> rc_path c \<notin> set (jd_nothing_in j) \<Longrightarrow>
       leaf m t (rc_path c) \<noteq> work_entry c \<Longrightarrow>
       rc_path c \<in> set (mr_conflicts (wv_merged v)) \<or> leaf m t (rc_path c) \<noteq> leaf m (mr_tree (wv_merged v)) (rc_path c) \<Longrightarrow>
       rc_path c \<in> keys lo2 \<union> set clashes"
proof -
  let ?pending = "filter (\<lambda>c. rc_path c \<notin> fst ` set lo1 \<and> rc_path c \<notin> set (jd_nothing_in j)) (wv_changes v)"
  consider (nil) "lo1 = []" "lo2 = lo1" "rf2 = rf1" | (some) ps put_back where "lo1 \<noteq> []"
      "undone g ?pending (mr_conflicts (wv_merged v)) (mr_tree (wv_merged v)) t = Some ps"
      "settle_undone put_back ps (lo1, rf1) = (lo2, rf2, clashes)"
    using res unfolding find_undone_def Let_def by (cases "lo1 = []") (auto simp: bind_eq_Some_conv)
  note cases = this
  show "reasons_ok keep lo2 rf2"
    using cases ok settle_undone_spec(1) [OF _ ok] by cases auto
  show "keys lo1 \<subseteq> keys lo2"
    using cases ok settle_undone_spec(2) [OF _ ok] by cases auto
  show "rc_path c \<in> keys lo2 \<union> set clashes"
    if "lo1 \<noteq> []" "c \<in> set (wv_changes v)" "rc_path c \<notin> keys lo1" "rc_path c \<notin> set (jd_nothing_in j)"
      "leaf m t (rc_path c) \<noteq> work_entry c"
      "rc_path c \<in> set (mr_conflicts (wv_merged v)) \<or> leaf m t (rc_path c) \<noteq> leaf m (mr_tree (wv_merged v)) (rc_path c)"
    using cases
  proof cases
    case nil
    with that(1) show ?thesis by simp
  next
    case some
    have "c \<in> set ?pending" using that by simp
    from undone_spec [OF laws trees some(2) this that(5,6)] settle_undone_spec(3) [OF some(3) ok]
    show ?thesis by blast
  qed
qed

lemma no_merge_clash:
  assumes "clashes_of g portable_key inp v j t lo2 uc = Some []"
    and "p \<in> set (mr_conflicts (wv_merged v))"
    and "c \<in> set (wv_changes v)" "rc_path c = p" "p \<notin> keys lo2" "p \<notin> set (jd_nothing_in j)"
  shows "\<exists>q \<in> keys lo2 \<union> set (ri_keep inp). under q p"
proof (rule ccontr)
  assume no: "\<not> ?thesis"
  let ?work = "roots_of (map rc_path (wv_changes v))"
  let ?nothing_in = "fold roots_insert (map fst lo2) (jd_nothing_in j)"
  from assms(1) have "filter (unsettled_conflict (roots_of (map fst lo2)) (ri_keep inp) ?work ?nothing_in)
      (mr_conflicts (wv_merged v)) = []"
    unfolding clashes_of_def Let_def by auto
  then have "\<not> unsettled_conflict (roots_of (map fst lo2)) (ri_keep inp) ?work ?nothing_in p"
    using assms(2) by (simp add: filter_empty_conv)
  moreover have "\<not> covers (roots_of (map fst lo2)) p \<and> \<not> covers (ri_keep inp) p"
    using no by (auto simp: covers_iff)
  moreover have "p \<in> set (roots_at_or_below ?work p)"
    using assms(3,4) by (auto simp: roots_at_or_below_eq sorted_roots_of under_iff)
  moreover have "p \<notin> set ?nothing_in"
    using assms(5,6) by simp
  ultimately show False
    unfolding unsettled_conflict_def list_all_iff by auto
qed

section \<open>Nothing is dropped unlisted\<close>

text \<open>What a change of the work left on the restored tree.\<close>

definition brought_in :: "'i git_tool \<Rightarrow> 'i git_model \<Rightarrow> restore_input \<Rightarrow> stage option \<Rightarrow> path \<Rightarrow> bool" where
  "brought_in g m inp v p \<longleftrightarrow>
     v = work_leaf g m inp p
     \<or> (\<exists>w. v = Some w \<and> file_merge g m (origin_leaf g m inp p, onto_leaf g m inp p, work_leaf g m inp p) w)"

lemma merged_brings_in:
  assumes "merged_entry g m False (origin_leaf g m inp p) (onto_leaf g m inp p) (work_leaf g m inp p) v"
    and "origin_leaf g m inp p \<noteq> work_leaf g m inp p"
  shows "brought_in g m inp v p"
  using assms by (auto simp: merged_entry_def one_side_def brought_in_def)

lemma accounted:
  assumes laws: "git_laws g m"
    and st: "plan_stages g portable_key check inp v j lo1 rf1 lo2 rf2 unsettled pl"
    and changed: "origin_leaf g m inp p \<noteq> work_leaf g m inp p"
  shows "p \<in> keys lo2 \<or> onto_leaf g m inp p = work_leaf g m inp p \<or> brought_in g m inp (leaf m (rp_tree pl) p) p"
proof (rule ccontr)
  assume "\<not> ?thesis"
  then have out: "p \<notin> keys lo2" and held: "onto_leaf g m inp p \<noteq> work_leaf g m inp p"
    and not_in: "\<not> brought_in g m inp (leaf m (rp_tree pl) p) p" by auto
  let ?t = "rp_tree pl"
  from st have s: "view_work g inp = Some v" "j = judge_all inp (wv_sizes v) (wv_at_onto v) (wv_changes v)"
    "reset_tree g check v j = Some (?t, lo1, rf1)" "find_undone g v j ?t lo1 rf1 = Some (lo2, rf2, [])"
    "clashes_of g portable_key inp v j ?t lo2 [] = Some []"
    unfolding plan_stages_def by blast+
  note vw = view_work_spec [OF laws s(1)]
  note jd = judge_all_spec [OF s(2)]
  note rt = reset_tree_spec [OF laws vw(2,1) jd(1) s(3)]
  note fu = find_undone_spec [OF laws vw(2) rt(1,2) s(4)]
  from vw(6) [OF changed] obtain c where c: "c \<in> set (wv_changes v)" "rc_path c = p" by blast
  have w: "work_entry c = work_leaf g m inp p" "map_of (wv_at_onto v) p = onto_leaf g m inp p"
    using vw(5) [OF c(1)] c(2) by auto
  have nin: "p \<notin> set (jd_nothing_in j)"
  proof
    assume "p \<in> set (jd_nothing_in j)"
    then obtain c' where c': "c' \<in> set (wv_changes v)" "rc_path c' = p" "map_of (wv_at_onto v) p = work_entry c'"
      unfolding jd(2) by auto
    with vw(5) [OF c'(1)] w(2) held show False by auto
  qed
  have out1: "p \<notin> keys lo1" using out fu(2) by blast
  have not_work: "leaf m ?t p \<noteq> work_leaf g m inp p" using not_in by (simp add: brought_in_def)
  have m_in: "brought_in g m inp (leaf m (mr_tree (wv_merged v)) p) p"
    if "p \<notin> set (mr_conflicts (wv_merged v))"
    using vw(4) [of p] that changed by (intro merged_brings_in) simp_all
  show False
  proof (cases "lo1 = []")
    case True
    then have t: "?t = mr_tree (wv_merged v)" by (rule rt(4))
    have "p \<in> set (mr_conflicts (wv_merged v))"
      using m_in not_in unfolding t by blast
    from no_merge_clash [OF s(5) this c out nin] True s(4)
    obtain q where "q \<in> set (ri_keep inp)" "under q p" by (auto simp: find_undone_def)
    then have "covers (ri_keep inp) p" by (auto simp: covers_iff)
    with c w held have "out_of_hand inp (wv_sizes v) (wv_at_onto v) c" by (auto simp: out_of_hand_def)
    then have "p \<in> keys (jd_left_out j)" unfolding jd(3) using c by auto
    with rt(3) out1 show False by blast
  next
    case False
    have "p \<in> set (mr_conflicts (wv_merged v)) \<or> leaf m ?t p \<noteq> leaf m (mr_tree (wv_merged v)) p"
      using m_in not_in by metis
    with fu(3) [OF False c(1)] c(2) out1 nin not_work w(1) out show False by auto
  qed
qed

text \<open>C14. No change of the unsaved work is dropped silently: with git behaving as documented, after a
  plan every path that the work changed is listed as not restored with a reason, was already on the
  target as the work has it, or is on the restored tree as the work's version or the clean merge of
  its file with the target's.\<close>

theorem restore_never_drops:
  assumes "git_laws g m" and "plan g portable_key check inp = Inr pl"
    and "origin_leaf g m inp p \<noteq> work_leaf g m inp p"
  shows "p \<in> nr_path ` set (rp_not_restored pl) \<or> onto_leaf g m inp p = work_leaf g m inp p
         \<or> brought_in g m inp (leaf m (rp_tree pl) p) p"
proof -
  obtain v j lo1 rf1 lo2 rf2 unsettled
    where st: "plan_stages g portable_key check inp v j lo1 rf1 lo2 rf2 unsettled pl"
    using plan_stagesE [OF assms(2)] .
  have paths: "map nr_path (rp_not_restored pl) = map fst (fold (\<lambda>(p, r). btree_insert p r) unsettled lo2)"
    using st unfolding plan_stages_def by blast
  have "nr_path ` set (rp_not_restored pl) = set (map nr_path (rp_not_restored pl))" by simp
  also have "\<dots> = keys unsettled \<union> keys lo2"
    unfolding paths by (simp only: list.set_map keys_fold_insert)
  finally show ?thesis using accounted [OF assms(1) st assms(3)] by auto
qed

section \<open>Only what may come in does\<close>

text \<open>A change of the work that a restore may bring in at a path.\<close>

definition may_bring :: "'i git_tool \<Rightarrow> 'i git_model \<Rightarrow> restore_input \<Rightarrow> path \<Rightarrow> bool" where
  "may_bring g m inp p \<longleftrightarrow>
     origin_leaf g m inp p \<noteq> work_leaf g m inp p
     \<and> p \<notin> fst ` set (ri_refused_before inp) \<and> \<not> covers (ri_keep inp) p
     \<and> (case work_leaf g m inp p of
          None \<Rightarrow> deletion_allowed p
        | Some (mode, _) \<Rightarrow> unpublishable_reason p = None \<and> \<not> is_unsafe_path p \<and> mode \<noteq> ''160000'')
     \<and> (case onto_leaf g m inp p of Some (mode, _) \<Rightarrow> mode \<noteq> ''160000'' | None \<Rightarrow> True)"

lemma not_out_of_hand:
  assumes "\<not> out_of_hand inp sizes at_onto c" "map_of at_onto (rc_path c) \<noteq> work_entry c"
  shows "map_of (ri_refused_before inp) (rc_path c) = None" "\<not> covers (ri_keep inp) (rc_path c)"
    and "case work_entry c of
          None \<Rightarrow> deletion_allowed (rc_path c)
        | Some (mode, _) \<Rightarrow> unpublishable_reason (rc_path c) = None \<and> \<not> is_unsafe_path (rc_path c) \<and> mode \<noteq> ''160000''"
    and "case map_of at_onto (rc_path c) of Some (mode, _) \<Rightarrow> mode \<noteq> ''160000'' | None \<Rightarrow> True"
proof -
  from assms have r: "refusal_of (ri_refused_before inp) sizes at_onto c = None" "\<not> covers (ri_keep inp) (rc_path c)"
    by (auto simp: out_of_hand_def)
  from r(2) show "\<not> covers (ri_keep inp) (rc_path c)" .
  from r(1) show "map_of (ri_refused_before inp) (rc_path c) = None"
    and "case map_of at_onto (rc_path c) of Some (mode, _) \<Rightarrow> mode \<noteq> ''160000'' | None \<Rightarrow> True"
    by (auto simp: refusal_of_def split: option.splits if_splits)
  from r(1) have "restore_refusal (rc_path c) (is_deleted c) (rc_new_mode c) (map_of sizes (rc_new_oid c)) = None"
    by (auto simp: refusal_of_def split: option.splits)
  then show "case work_entry c of
          None \<Rightarrow> deletion_allowed (rc_path c)
        | Some (mode, _) \<Rightarrow> unpublishable_reason (rc_path c) = None \<and> \<not> is_unsafe_path (rc_path c) \<and> mode \<noteq> ''160000''"
    by (auto simp: restore_refusal_def work_entry_def split: option.splits if_splits)
qed

text \<open>C15. A restore touches only what it may: wherever the restored tree differs from the target, the
  work changed that path, nobody refused it before, the person did not choose to keep it, the policy
  lets the name be published (or deleted), neither side holds a submodule there, and what stands
  there is the work's version or the clean merge.\<close>

theorem restore_brings_only_permitted:
  assumes "git_laws g m" and "plan g portable_key check inp = Inr pl"
    and "leaf m (rp_tree pl) p \<noteq> onto_leaf g m inp p"
  shows "may_bring g m inp p \<and> brought_in g m inp (leaf m (rp_tree pl) p) p"
proof -
  obtain v j lo1 rf1 lo2 rf2 unsettled
    where st: "plan_stages g portable_key check inp v j lo1 rf1 lo2 rf2 unsettled pl"
    using plan_stagesE [OF assms(2)] .
  then have s: "view_work g inp = Some v" "j = judge_all inp (wv_sizes v) (wv_at_onto v) (wv_changes v)"
    "reset_tree g check v j = Some (rp_tree pl, lo1, rf1)"
    unfolding plan_stages_def by blast+
  note vw = view_work_spec [OF assms(1) s(1)]
  note jd = judge_all_spec [OF s(2)]
  note rt = reset_tree_spec [OF assms(1) vw(2,1) jd(1) s(3)]
  from rt(5,6) [of p] vw(3) [of p] assms(3)
  have t: "leaf m (rp_tree pl) p = leaf m (mr_tree (wv_merged v)) p" and free: "\<not> under_any (map fst lo1) p"
    by auto
  have differs: "leaf m (mr_tree (wv_merged v)) p \<noteq> onto_leaf g m inp p" using t assms(3) by simp
  with vw(4) [of p] have "p \<notin> set (mr_conflicts (wv_merged v))" by (auto simp: merged_entry_def)
  with vw(4) [of p] have me: "merged_entry g m False (origin_leaf g m inp p) (onto_leaf g m inp p)
      (work_leaf g m inp p) (leaf m (rp_tree pl) p)" by (simp add: t)
  with differs t have ch: "origin_leaf g m inp p \<noteq> work_leaf g m inp p"
    by (auto simp: merged_entry_def one_side_def)
  have held: "onto_leaf g m inp p \<noteq> work_leaf g m inp p"
    using me differs t by (auto simp: merged_entry_def one_side_def)
  from vw(6) [OF ch] obtain c where c: "c \<in> set (wv_changes v)" "rc_path c = p" by blast
  have w: "work_entry c = work_leaf g m inp p" "map_of (wv_at_onto v) p = onto_leaf g m inp p"
    using vw(5) [OF c(1)] c(2) by auto
  have "p \<notin> keys lo1" using free by (auto simp: under_any_iff under_iff)
  then have "p \<notin> keys (jd_left_out j)" using rt(3) by blast
  then have "\<not> out_of_hand inp (wv_sizes v) (wv_at_onto v) c" unfolding jd(3) using c by auto
  from not_out_of_hand [OF this] w held c(2)
  have "may_bring g m inp p" by (auto simp: may_bring_def ch map_of_eq_None_iff)
  with merged_brings_in [OF me ch] show ?thesis by simp
qed

section \<open>When the ref may go\<close>

text \<open>C25. The ref that holds unsaved work is let go only when nothing is lost with it: then every path
  the work changed was already on the target, has come in, or is one the person chose to keep, listed
  with that reason.\<close>

theorem ref_goes_only_with_the_work:
  assumes "git_laws g m" and "plan g portable_key check inp = Inr pl" and "lets_ref_go pl"
    and "origin_leaf g m inp p \<noteq> work_leaf g m inp p"
  shows "onto_leaf g m inp p = work_leaf g m inp p
         \<or> brought_in g m inp (leaf m (rp_tree pl) p) p
         \<or> (\<lparr>nr_path = p, nr_reason = kept\<rparr> \<in> set (rp_not_restored pl) \<and> covers (ri_keep inp) p)"
proof -
  obtain v j lo1 rf1 lo2 rf2 unsettled
    where st: "plan_stages g portable_key check inp v j lo1 rf1 lo2 rf2 unsettled pl"
    using plan_stagesE [OF assms(2)] .
  then have s: "view_work g inp = Some v" "j = judge_all inp (wv_sizes v) (wv_at_onto v) (wv_changes v)"
    "reset_tree g check v j = Some (rp_tree pl, lo1, rf1)" "find_undone g v j (rp_tree pl) lo1 rf1 = Some (lo2, rf2, [])"
    and n: "rp_refused pl = length rf2" "rp_unsettled pl = length unsettled"
    and nr: "map nr_path (rp_not_restored pl) = map fst (fold (\<lambda>(p, r). btree_insert p r) unsettled lo2)"
      "map nr_reason (rp_not_restored pl) = map snd (fold (\<lambda>(p, r). btree_insert p r) unsettled lo2)"
    unfolding plan_stages_def by blast+
  from n assms(3) have none: "rf2 = []" "unsettled = []" by (simp_all add: lets_ref_go_def)
  note vw = view_work_spec [OF assms(1) s(1)]
  note rt = reset_tree_spec [OF assms(1) vw(2,1) judge_all_spec(1) [OF s(2)] s(3)]
  note fu = find_undone_spec [OF assms(1) vw(2) rt(1,2) s(4)]
  have "rp_not_restored pl = map (\<lambda>(p, r). \<lparr>nr_path = p, nr_reason = r\<rparr>) lo2"
  proof (rule nth_equalityI)
    show "length (rp_not_restored pl) = length (map (\<lambda>(p, r). \<lparr>nr_path = p, nr_reason = r\<rparr>) lo2)"
      using arg_cong [OF nr(1), of length] none by simp
    fix i
    assume i: "i < length (rp_not_restored pl)"
    have "nr_path (rp_not_restored pl ! i) = map nr_path (rp_not_restored pl) ! i"
      "nr_reason (rp_not_restored pl ! i) = map nr_reason (rp_not_restored pl) ! i" using i by simp_all
    moreover have "i < length lo2" using i arg_cong [OF nr(1), of length] none by simp
    ultimately show "rp_not_restored pl ! i = map (\<lambda>(p, r). \<lparr>nr_path = p, nr_reason = r\<rparr>) lo2 ! i"
      unfolding nr none by (cases "rp_not_restored pl ! i") (simp add: case_prod_unfold)
  qed
  then have listed: "\<lparr>nr_path = q, nr_reason = r\<rparr> \<in> set (rp_not_restored pl)" if "(q, r) \<in> set lo2" for q r
    using that by (force simp: image_iff)
  moreover have "r = kept \<and> covers (ri_keep inp) q" if qr: "(q, r) \<in> set lo2" for q r
  proof -
    have "map_of lo2 q = Some r"
      using fu(1) qr by (auto simp: reasons_ok_def intro: map_of_is_SomeI dest: btree_sorted_keys)
    then show ?thesis using fu(1) none by (simp add: reasons_ok_def)
  qed
  ultimately have "p \<in> keys lo2 \<Longrightarrow>
      \<lparr>nr_path = p, nr_reason = kept\<rparr> \<in> set (rp_not_restored pl) \<and> covers (ri_keep inp) p"
    by fastforce
  with accounted [OF assms(1) st assms(4)] show ?thesis by blast
qed

section \<open>The merge and the lookups the plan rests on\<close>

text \<open>C28. A three-way merge is exact at every path: a path in conflict keeps our version; else the
  result is the side that changed it, or, when both did and all three versions are regular files,
  what git's file merge gives, with the mode of \<open>merged_mode\<close>.\<close>

theorem three_way_exact:
  assumes "git_laws g m" and "three_way g base ours theirs = Some r"
  shows "is_tree g (mr_tree r)
    \<and> (\<forall>p. merged_entry g m (p \<in> set (mr_conflicts r)) (base_leaf g m base p) (rev_leaf g m ours p)
             (rev_leaf g m theirs p) (leaf m (mr_tree r) p))"
  using three_way_spec [OF assms] by blast

lemma btree_by_lookup:
  assumes "btree_sorted a"
  shows "map (\<lambda>k. (k, the (map_of a k))) (map fst a) = a"
proof -
  have "(fst x, the (map_of a (fst x))) = x" if "x \<in> set a" for x
    using map_of_is_SomeI [OF btree_sorted_keys [OF assms], of "fst x" "snd x"] that by simp
  then show ?thesis by (simp add: comp_def map_idI)
qed

lemma btree_unique:
  assumes "btree_sorted a" "btree_sorted b" "map_of a = map_of b"
  shows "a = b"
proof -
  have "fst ` set a = fst ` set b"
    using arg_cong [OF assms(3), of dom] by (simp add: dom_map_of_conv_image_fst)
  with assms(1,2) have "map fst a = map fst b"
    by (intro sorted_distinct_set_unique) (auto simp: strict_sorted_iff)
  with btree_by_lookup [OF assms(1)] btree_by_lookup [OF assms(2)] assms(3) show ?thesis by metis
qed


end
