(* ===== verification/Git_Table.thy ===== *)
theory Git_Table
  imports Git_Index Restore_Paths
begin

text \<open>
  A reference implementation of the git commands on which the laws of \<open>git_laws\<close> hold: a tree is
  the table of its folders, an index the list of its slots. It shows that the laws can hold and
  lets a restore be evaluated on a concrete repository.
\<close>

section \<open>Git on tables\<close>

text \<open>A folder of a tree with the object that lists it, its records and the entries they are.\<close>

type_synonym folder_table = "(path \<times> string \<times> (tree_record \<times> tree_entry) list) list"
type_synonym table = "(string \<times> folder_table) list"

definition table_entries :: "folder_table \<Rightarrow> tree_entry list" where
  "table_entries fs = concat (map (\<lambda>(_, _, rs). map snd rs) fs)"

definition folder_bytes :: "(tree_record \<times> tree_entry) list \<Rightarrow> string" where
  "folder_bytes rs = concat (map (record_bytes \<circ> fst) rs)"

definition tree_table :: "table \<Rightarrow> string \<Rightarrow> folder_table" where
  "tree_table tb t = (case map_of tb t of Some fs \<Rightarrow> fs | None \<Rightarrow> [])"

definition table_node :: "table \<Rightarrow> string \<Rightarrow> path \<Rightarrow> tree_entry option" where
  "table_node tb t p = find (\<lambda>e. te_path e = p) (table_entries (tree_table tb t))"

definition table_folder :: "table \<Rightarrow> string \<Rightarrow> path \<Rightarrow> string option" where
  "table_folder tb t f = map_option fst (map_of (tree_table tb t) f)"

definition table_store :: "table \<Rightarrow> (string \<times> string) list \<Rightarrow> string \<Rightarrow> git_object option" where
  "table_store tb blobs i =
     (case map_of (concat (map (\<lambda>(_, fs). map snd fs) tb)) i of
        Some rs \<Rightarrow> Some \<lparr>go_kind = ''tree'', go_data = folder_bytes rs\<rparr>
      | None \<Rightarrow> map_option (\<lambda>c. \<lparr>go_kind = ''blob'', go_data = c\<rparr>) (map_of blobs i))"

type_synonym slots = "(path \<times> slot) list"

definition slot_at :: "slots \<Rightarrow> path \<Rightarrow> slot" where
  "slot_at i p = (case map_of i p of Some s \<Rightarrow> s | None \<Rightarrow> Merged None)"

definition entry_leaf :: "tree_entry option \<Rightarrow> stage option" where
  "entry_leaf e = (case e of Some e \<Rightarrow> if te_kind e = ''tree'' then None else Some (te_mode e, te_oid e) | None \<Rightarrow> None)"

definition table_leaf :: "table \<Rightarrow> string \<Rightarrow> path \<Rightarrow> stage option" where
  "table_leaf tb t p = entry_leaf (table_node tb t p)"

definition table_paths :: "table \<Rightarrow> string \<Rightarrow> path list" where
  "table_paths tb t = map te_path (table_entries (tree_table tb t))"

definition merged_slot :: "stage option \<Rightarrow> stage option \<Rightarrow> stage option \<Rightarrow> slot" where
  "merged_slot b u t =
     (if u = t then Merged u else if b = u then Merged t else if b = t then Merged u else Unmerged b u t)"

definition slot_records :: "path \<times> slot \<Rightarrow> (path \<times> nat \<times> stage) list" where
  "slot_records x =
     List.map_filter (\<lambda>n. map_option (\<lambda>s. (fst x, n, s)) (slot_stage (snd x) n)) [1, 2, 3]"

definition slots_ok :: "slots \<Rightarrow> bool" where
  "slots_ok i \<longleftrightarrow>
     distinct (map fst i) \<and> list_all path_ok (map fst i) \<and> list_all unmerged_ok (concat (map slot_records i))"

definition no_oid :: string where "no_oid = replicate 40 (CHR ''0'')"

definition diff_entry :: "table \<Rightarrow> string \<Rightarrow> string \<Rightarrow> path \<Rightarrow> diff_line" where
  "diff_entry tb a b p =
     (let old = (case table_leaf tb a p of Some s \<Rightarrow> s | None \<Rightarrow> (''000000'', no_oid));
          new = (case table_leaf tb b p of Some s \<Rightarrow> s | None \<Rightarrow> (''000000'', no_oid));
          st = (if table_leaf tb a p = None then CHR ''A'' else if table_leaf tb b p = None then CHR ''D'' else CHR ''M'')
      in \<lparr>dl_old_mode = fst old, dl_old_oid = snd old,
          dl_change = \<lparr>rc_new_mode = fst new, rc_new_oid = snd new, rc_status = st, rc_path = p\<rparr>\<rparr>)"

definition diff_paths :: "table \<Rightarrow> string \<Rightarrow> string \<Rightarrow> path list" where
  "diff_paths tb a b =
     filter (\<lambda>p. table_leaf tb a p \<noteq> table_leaf tb b p) (remdups (table_paths tb a @ table_paths tb b))"

definition same_leaves :: "table \<Rightarrow> slots \<Rightarrow> string \<Rightarrow> bool" where
  "same_leaves tb i t \<longleftrightarrow> list_all (\<lambda>p. slot_at i p = Merged (table_leaf tb t p)) (map fst i @ table_paths tb t)"

fun set_slot :: "info_line \<Rightarrow> slots \<Rightarrow> slots" where
  "set_slot (Remove z p) i = AList.update p (Merged None) i"
| "set_slot (Put mode oid p) i = AList.update p (Merged (Some (mode, oid))) i"

text \<open>The repository: its trees, the trees of its commits, merge bases, blobs, and what a merge of
  three files gives.\<close>

record repository =
  re_trees :: table
  re_commits :: "(string \<times> string) list"
  re_bases :: "((string \<times> string) \<times> string) list"
  re_empty :: string
  re_blobs :: "(string \<times> string) list"
  re_merges :: "((string \<times> string \<times> string) \<times> string) list"
  re_hashes :: "(string \<times> string) list"

definition known :: "table \<Rightarrow> string \<Rightarrow> bool" where
  "known tb t \<longleftrightarrow> map_of tb t \<noteq> None"

text \<open>The commands read the repository through a function, so that evaluating one command does not
  carry the whole of it.\<close>

definition table_tree_id :: "(unit \<Rightarrow> repository) \<Rightarrow> string \<Rightarrow> string option" where
  "table_tree_id rf r = (case map_of (re_commits (rf ())) r of
        Some t \<Rightarrow> if known (re_trees (rf ())) t then Some t else None
      | None \<Rightarrow> if known (re_trees (rf ())) r then Some r else None)"

definition table_empty_tree :: "(unit \<Rightarrow> repository) \<Rightarrow> string option" where
  "table_empty_tree rf = (if known (re_trees (rf ())) (re_empty (rf ())) \<and> table_entries (tree_table (re_trees (rf ())) (re_empty (rf ()))) = []
      then Some (re_empty (rf ())) else None)"

definition table_merge_base :: "(unit \<Rightarrow> repository) \<Rightarrow> string \<Rightarrow> string \<Rightarrow> git_output option" where
  "table_merge_base rf a b = Some (case map_of (re_bases (rf ())) (a, b) of Some c \<Rightarrow> (Some 0, c @ [newline]) | None \<Rightarrow> (Some 1, []))"

definition table_diff_raw :: "(unit \<Rightarrow> repository) \<Rightarrow> string \<Rightarrow> string \<Rightarrow> string option" where
  "table_diff_raw rf a b = Some (diff_output (map (diff_entry (re_trees (rf ())) a b) (diff_paths (re_trees (rf ())) a b)))"

definition table_diff_names :: "(unit \<Rightarrow> repository) \<Rightarrow> string \<Rightarrow> string \<Rightarrow> string option" where
  "table_diff_names rf a b = Some (lines_output (diff_paths (re_trees (rf ())) a b))"

definition table_ls_tree :: "(unit \<Rightarrow> repository) \<Rightarrow> string \<Rightarrow> path list \<Rightarrow> string option" where
  "table_ls_tree rf t ps = Some (ls_tree_output (filter (\<lambda>e. te_path e \<in> set ps) (table_entries (tree_table (re_trees (rf ())) t))))"

definition table_ls_tree_r :: "(unit \<Rightarrow> repository) \<Rightarrow> string \<Rightarrow> path list \<Rightarrow> string option" where
  "table_ls_tree_r rf t ps = Some (ls_tree_output (filter (\<lambda>e. te_kind e \<noteq> ''tree'' \<and> list_ex (\<lambda>q. under q (te_path e)) ps)
       (table_entries (tree_table (re_trees (rf ())) t))))"

definition table_ls_tree_all :: "(unit \<Rightarrow> repository) \<Rightarrow> string \<Rightarrow> string option" where
  "table_ls_tree_all rf t = Some (ls_tree_output (table_entries (tree_table (re_trees (rf ())) t)))"

definition table_batch :: "(unit \<Rightarrow> repository) \<Rightarrow> string list \<Rightarrow> string option" where
  "table_batch rf ids = Some (concat (map (batch_item (table_store (re_trees (rf ())) (re_blobs (rf ())))) ids))"

definition table_batch_check :: "(unit \<Rightarrow> repository) \<Rightarrow> string list \<Rightarrow> string option" where
  "table_batch_check rf ids = Some (concat (map (\<lambda>i.
       (case table_store (re_trees (rf ())) (re_blobs (rf ())) i of
          Some obj \<Rightarrow> go_kind obj @ [space] @ show_nat (length (go_data obj)) | None \<Rightarrow> i @ '' missing'') @ [newline]) ids))"

definition table_read_tree :: "(unit \<Rightarrow> repository) \<Rightarrow> string \<Rightarrow> slots option" where
  "table_read_tree rf t = Some (map (\<lambda>p. (p, Merged (table_leaf (re_trees (rf ())) t p))) (table_paths (re_trees (rf ())) t))"

definition table_read_tree_3 :: "(unit \<Rightarrow> repository) \<Rightarrow> string \<Rightarrow> string \<Rightarrow> string \<Rightarrow> slots option" where
  "table_read_tree_3 rf b u t = (let tb = re_trees (rf ())
      in Some (map (\<lambda>p. (p, merged_slot (table_leaf tb b p) (table_leaf tb u p) (table_leaf tb t p)))
           (remdups (table_paths tb b @ table_paths tb u @ table_paths tb t))))"

definition table_write_tree :: "(unit \<Rightarrow> repository) \<Rightarrow> slots \<Rightarrow> string option" where
  "table_write_tree rf i = find (same_leaves (re_trees (rf ())) i) (map fst (re_trees (rf ())))"

definition table_merge_file :: "(unit \<Rightarrow> repository) \<Rightarrow> string \<Rightarrow> string \<Rightarrow> string \<Rightarrow> git_output option" where
  "table_merge_file rf u b t = Some (case map_of (re_merges (rf ())) (u, b, t) of Some c \<Rightarrow> (Some 0, c) | None \<Rightarrow> (Some 1, []))"

definition table_hash_object :: "(unit \<Rightarrow> repository) \<Rightarrow> string \<Rightarrow> string option" where
  "table_hash_object rf c = map_of (re_hashes (rf ())) c"

definition table_ls_files :: "slots \<Rightarrow> path list \<Rightarrow> string option" where
  "table_ls_files i ps =
     (if slots_ok i
      then Some (lines_output (filter (\<lambda>p. list_ex (\<lambda>q. under q p) ps) (map fst (filter (\<lambda>x. snd x \<noteq> Merged None) i))))
      else None)"

definition table_ls_files_u :: "slots \<Rightarrow> string option" where
  "table_ls_files_u i =
     (if slots_ok i then Some (lines_output (map unmerged_line (concat (map slot_records i)))) else None)"

definition table_update_index :: "slots \<Rightarrow> info_line list \<Rightarrow> slots option" where
  "table_update_index i ls = Some (fold set_slot ls i)"

definition table_git :: "(unit \<Rightarrow> repository) \<Rightarrow> slots git_tool" where
  "table_git rf =
     \<lparr>gt_tree_id = table_tree_id rf,
      gt_empty_tree = table_empty_tree rf,
      gt_merge_base = table_merge_base rf,
      gt_diff_raw = table_diff_raw rf,
      gt_diff_names = table_diff_names rf,
      gt_ls_tree = table_ls_tree rf,
      gt_ls_tree_r = table_ls_tree_r rf,
      gt_ls_tree_all = table_ls_tree_all rf,
      gt_batch = table_batch rf,
      gt_batch_check = table_batch_check rf,
      gt_read_tree = table_read_tree rf,
      gt_read_tree_3 = table_read_tree_3 rf,
      gt_ls_files = table_ls_files,
      gt_ls_files_u = table_ls_files_u,
      gt_update_index = table_update_index,
      gt_write_tree = table_write_tree rf,
      gt_merge_file = table_merge_file rf,
      gt_hash_object = table_hash_object rf\<rparr>"

lemmas table_git_defs = table_git_def table_tree_id_def table_empty_tree_def table_merge_base_def table_diff_raw_def table_diff_names_def table_ls_tree_def table_ls_tree_r_def table_ls_tree_all_def table_batch_def table_batch_check_def table_read_tree_def table_read_tree_3_def table_ls_files_def table_ls_files_u_def table_update_index_def table_write_tree_def table_merge_file_def table_hash_object_def

section \<open>Evaluation\<close>

text \<open>Hexadecimal digits from the bits of a byte, for evaluation.\<close>

fun nibble :: "bool \<Rightarrow> bool \<Rightarrow> bool \<Rightarrow> bool \<Rightarrow> char" where
  "nibble d c b a =
     (if d then if c then if b then if a then CHR ''f'' else CHR ''e'' else if a then CHR ''d'' else CHR ''c''
               else if b then if a then CHR ''b'' else CHR ''a'' else if a then CHR ''9'' else CHR ''8''
      else if c then if b then if a then CHR ''7'' else CHR ''6'' else if a then CHR ''5'' else CHR ''4''
               else if b then if a then CHR ''3'' else CHR ''2'' else if a then CHR ''1'' else CHR ''0'')"

lemma hex_digit_nibbles:
  "\<forall>a b c d. hex_digit (((of_bool d * 2 + of_bool c) * 2 + of_bool b) * 2 + of_bool a) = nibble d c b a"
  by code_simp

lemmas hex_digit_nibble = hex_digit_nibbles [rule_format]

lemma hex_of_code [code]:
  "hex_of s = concat (map (\<lambda>c. case c of Char b0 b1 b2 b3 b4 b5 b6 b7 \<Rightarrow> [nibble b7 b6 b5 b4, nibble b3 b2 b1 b0]) s)"
proof -
  have "[hex_digit (ord_of c div 16), hex_digit (ord_of c mod 16)] =
      (case c of Char b0 b1 b2 b3 b4 b5 b6 b7 \<Rightarrow> [nibble b7 b6 b5 b4, nibble b3 b2 b1 b0])" for c
  proof (cases c)
    case (Char b0 b1 b2 b3 b4 b5 b6 b7)
    define l where "l = ((of_bool b3 * 2 + of_bool b2) * 2 + of_bool b1) * 2 + (of_bool b0 :: nat)"
    define h where "h = ((of_bool b7 * 2 + of_bool b6) * 2 + of_bool b5) * 2 + (of_bool b4 :: nat)"
    have "l < 16" by (cases b0; cases b1; cases b2; cases b3) (simp_all add: l_def)
    moreover have "ord_of c = 16 * h + l" by (simp add: Char ord_of_def l_def h_def)
    ultimately have "ord_of c div 16 = h" "ord_of c mod 16 = l" by simp_all
    then show ?thesis
      unfolding Char char.case hex_digit_nibble [symmetric] l_def [symmetric] h_def [symmetric] by simp
  qed
  then show ?thesis by (simp add: hex_of_def)
qed

section \<open>The laws hold\<close>

definition repo_model :: "repository \<Rightarrow> slots git_model" where
  "repo_model re =
     \<lparr>gm_node = table_node (re_trees re), gm_folder = table_folder (re_trees re),
      gm_store = table_store (re_trees re) (re_blobs re), gm_slot = slot_at\<rparr>"

text \<open>What a repository must look like.\<close>

definition is_tree_at :: "table \<Rightarrow> string \<Rightarrow> path \<Rightarrow> bool" where
  "is_tree_at tb t q \<longleftrightarrow> (case table_node tb t q of Some f \<Rightarrow> te_kind f = ''tree'' | None \<Rightarrow> False)"

definition entry_fits :: "table \<Rightarrow> string \<Rightarrow> tree_entry \<Rightarrow> bool" where
  "entry_fits tb t e \<longleftrightarrow>
     entry_ok e \<and> (te_kind e = ''tree'' \<longrightarrow> table_folder tb t (te_path e) = Some (te_oid e))
     \<and> list_all (is_tree_at tb t) (slash_prefixes (te_path e))"

definition folder_fits :: "repository \<Rightarrow> string \<Rightarrow> path \<times> string \<times> (tree_record \<times> tree_entry) list \<Rightarrow> bool" where
  "folder_fits re t x \<longleftrightarrow>
     (case x of (f, s, rs) \<Rightarrow>
        field_ok s
        \<and> table_store (re_trees re) (re_blobs re) s = Some \<lparr>go_kind = ''tree'', go_data = folder_bytes rs\<rparr>
        \<and> list_all (record_ok (id_bytes t)) (map fst rs)
        \<and> list_all (\<lambda>(r, e). record_entry f r = e) rs
        \<and> set (map snd rs)
          = set (filter (\<lambda>e. folder_of (te_path e) = f) (table_entries (tree_table (re_trees re) t))))"

definition tree_fits :: "repository \<Rightarrow> string \<Rightarrow> bool" where
  "tree_fits re t \<longleftrightarrow>
     (let tb = re_trees re; es = table_entries (tree_table tb t)
      in map_of (re_commits re) t = None \<and> table_folder tb t [] = Some t
         \<and> distinct (map te_path es) \<and> list_all (entry_fits tb t) es \<and> list_all (folder_fits re t) (tree_table tb t))"

definition repo_fits :: "repository \<Rightarrow> bool" where
  "repo_fits re \<longleftrightarrow>
     list_all (tree_fits re) (map fst (re_trees re))
     \<and> list_all (\<lambda>rs. length (folder_bytes rs) < 2 ^ 64) (concat (map (\<lambda>(_, fs). map (snd \<circ> snd) fs) (re_trees re)))
     \<and> list_all (\<lambda>(_, c). length c < 2 ^ 64) (re_blobs re)"

lemma known_fits: "repo_fits re \<Longrightarrow> known (re_trees re) t \<Longrightarrow> tree_fits re t"
  by (auto simp: repo_fits_def known_def list_all_iff map_of_eq_None_iff)

lemma tree_known: "is_tree (table_git (\<lambda>_. re)) t \<Longrightarrow> known (re_trees re) t"
  by (auto simp: is_tree_def table_git_defs Let_def split: option.splits if_splits)

lemma known_tree: "repo_fits re \<Longrightarrow> known (re_trees re) t \<Longrightarrow> is_tree (table_git (\<lambda>_. re)) t"
  using known_fits [of re t] by (simp add: is_tree_def table_git_defs tree_fits_def Let_def)

lemma node_entry:
  assumes "table_node tb t p = Some e"
  shows "e \<in> set (table_entries (tree_table tb t))" "te_path e = p"
  using assms by (auto simp: table_node_def find_Some_iff)

lemma entry_node:
  assumes "repo_fits re" "known (re_trees re) t" "e \<in> set (table_entries (tree_table (re_trees re) t))"
  shows "table_node (re_trees re) t (te_path e) = Some e"
proof -
  let ?es = "table_entries (tree_table (re_trees re) t)"
  have d: "distinct (map te_path ?es)"
    using known_fits [OF assms(1,2)] by (simp add: tree_fits_def Let_def)
  have "inj_on te_path (set ?es)" using d by (simp add: distinct_map)
  show ?thesis
  proof (cases "table_node (re_trees re) t (te_path e)")
    case None
    then show ?thesis using assms(3) by (auto simp: table_node_def find_None_iff)
  next
    case (Some e')
    from node_entry [OF this] assms(3) \<open>inj_on te_path (set ?es)\<close> have "e' = e" by (auto dest: inj_onD)
    with Some show ?thesis by simp
  qed
qed

lemma fits_entry:
  assumes "repo_fits re" "known (re_trees re) t" "table_node (re_trees re) t p = Some e"
  shows "entry_fits (re_trees re) t e"
  using known_fits [OF assms(1,2)] node_entry [OF assms(3)] by (simp add: tree_fits_def Let_def list_all_iff)

lemma repo_tree_laws:
  assumes fits: "repo_fits re"
  shows "tree_laws (table_git (\<lambda>_. re)) (repo_model re)"
proof -
  let ?tb = "re_trees re" and ?g = "table_git (\<lambda>_. re)" and ?m = "repo_model re"
  have root: "is_tree ?g t \<and> gm_folder ?m t [] = Some t" if "gt_tree_id ?g r = Some t" for r t
  proof -
    from that have k: "known ?tb t" by (auto simp: table_git_defs Let_def split: option.splits if_splits)
    then show ?thesis using known_tree [OF fits k] known_fits [OF fits k]
      by (simp add: tree_fits_def Let_def repo_model_def)
  qed
  moreover have "is_tree ?g t \<and> (\<forall>p. gm_node ?m t p = None)" if "gt_empty_tree ?g = Some t" for t
    using that known_tree [OF fits]
    by (auto simp: table_git_defs Let_def repo_model_def table_node_def split: if_splits)
  moreover have "node_law ?m t p e" if t: "is_tree ?g t" and e: "gm_node ?m t p = Some e" for t p e
  proof -
    from e have e: "table_node ?tb t p = Some e" by (simp add: repo_model_def)
    note ef = fits_entry [OF fits tree_known [OF t] e, unfolded entry_fits_def]
    have "\<exists>f. gm_node ?m t q = Some f \<and> te_kind f = ''tree''" if "p = q @ ''/'' @ r" for q r
    proof -
      have "q \<in> set (slash_prefixes (te_path e))"
        using that node_entry(2) [OF e] by (auto simp: in_slash_prefixes below_iff)
      then have "is_tree_at ?tb t q" using ef by (simp add: list_all_iff)
      then show ?thesis by (auto simp: is_tree_at_def repo_model_def split: option.splits)
    qed
    then show ?thesis using ef node_entry(2) [OF e] by (simp add: node_law_def repo_model_def)
  qed
  moreover have "folder_law ?m t f s" if t: "is_tree ?g t" and s: "gm_folder ?m t f = Some s" for t f s
  proof -
    from s obtain rs where x: "(f, s, rs) \<in> set (tree_table ?tb t)"
      by (auto simp: repo_model_def table_folder_def dest: map_of_SomeD)
    then have ff: "folder_fits re t (f, s, rs)"
      using known_fits [OF fits tree_known [OF t]] by (simp add: tree_fits_def Let_def list_all_iff)
    have ch: "children ?m t f = set (filter (\<lambda>e. folder_of (te_path e) = f) (table_entries (tree_table ?tb t)))"
      using entry_node [OF fits tree_known [OF t]] node_entry(1) by (auto simp: children_def repo_model_def)
    have "map (record_entry f) (map fst rs) = map snd rs"
      using ff by (auto simp: folder_fits_def list_all_iff)
    from arg_cong [OF this, of set] have "record_entry f ` set (map fst rs) = snd ` set rs" by (simp only: list.set_map)
    then have "obj = \<lparr>go_kind = ''tree'', go_data = concat (map record_bytes (map fst rs))\<rparr>
             \<and> list_all (record_ok (id_bytes t)) (map fst rs) \<and> record_entry f ` set (map fst rs) = children ?m t f"
      if "gm_store ?m s = Some obj" for obj
      using that ff ch by (simp only: folder_fits_def repo_model_def) (simp add: folder_bytes_def)
    then show ?thesis using ff unfolding folder_law_def folder_fits_def by blast
  qed
  moreover have kind: "object_ok \<lparr>go_kind = ''tree'', go_data = d\<rparr> = (length d < 2 ^ 64)"
    "object_ok \<lparr>go_kind = ''blob'', go_data = d\<rparr> = (length d < 2 ^ 64)" for d
    by (simp_all add: object_ok_def field_ok_def ord_of_def)
  moreover have "object_ok obj" if "gm_store ?m i = Some obj" for i obj
  proof (cases "map_of (concat (map (\<lambda>(_, fs). map snd fs) ?tb)) i")
    case None
    with that obtain c where c: "map_of (re_blobs re) i = Some c" and o: "obj = \<lparr>go_kind = ''blob'', go_data = c\<rparr>"
      by (auto simp: repo_model_def table_store_def)
    have "\<forall>x \<in> set (re_blobs re). case x of (_, c) \<Rightarrow> length c < 2 ^ 64"
      using fits unfolding repo_fits_def list_all_iff by (elim conjE)
    from bspec [OF this map_of_SomeD [OF c]] have "length c < 2 ^ 64" unfolding prod.case .
    then show ?thesis unfolding o kind by simp
  next
    case (Some rs)
    have "map snd (concat (map (\<lambda>(_, fs). map snd fs) tb)) = concat (map (\<lambda>(_, fs). map (snd \<circ> snd) fs) tb)" for tb :: table
      by (induction tb) auto
    note snds = this [of ?tb]
    have "snd (i, rs) \<in> set (map snd (concat (map (\<lambda>(_, fs). map snd fs) ?tb)))"
      unfolding list.set_map by (rule imageI) (rule map_of_SomeD [OF Some])
    then have rs: "rs \<in> set (concat (map (\<lambda>(_, fs). map (snd \<circ> snd) fs) ?tb))"
      unfolding snds snd_conv .
    have "\<forall>rs \<in> set (concat (map (\<lambda>(_, fs). map (snd \<circ> snd) fs) ?tb)). length (folder_bytes rs) < 2 ^ 64"
      using fits unfolding repo_fits_def list_all_iff by (elim conjE)
    from bspec [OF this rs] have "length (folder_bytes rs) < 2 ^ 64" .
    moreover have o: "obj = \<lparr>go_kind = ''tree'', go_data = folder_bytes rs\<rparr>"
      using Some that by (simp add: repo_model_def table_store_def)
    ultimately show ?thesis unfolding o kind by simp
  qed
  moreover have "out = concat (map (batch_item (gm_store ?m)) ids)" if "gt_batch ?g ids = Some out" for ids out
    using that by (simp add: table_git_defs Let_def repo_model_def)
  ultimately show ?thesis unfolding tree_laws_def by blast
qed

lemma leaf_model: "leaf (repo_model re) t p = table_leaf (re_trees re) t p"
  by (simp add: leaf_def repo_model_def table_leaf_def entry_leaf_def split: option.splits)

lemma leaf_path: "table_leaf tb t p = Some s \<Longrightarrow> p \<in> set (table_paths tb t)"
  by (auto simp: table_leaf_def entry_leaf_def table_paths_def dest: node_entry split: option.splits if_splits)

lemma leaf_ok:
  assumes "repo_fits re" "is_tree (table_git (\<lambda>_. re)) t" "table_leaf (re_trees re) t p = Some s"
  shows "field_ok (fst s) \<and> field_ok (snd s) \<and> path_ok p"
proof -
  from assms(3) obtain e where e: "table_node (re_trees re) t p = Some e" "s = (te_mode e, te_oid e)"
    by (auto simp: table_leaf_def entry_leaf_def split: option.splits if_splits)
  with fits_entry [OF assms(1) tree_known [OF assms(2)] e(1)] node_entry(2) [OF e(1)] show ?thesis
    by (simp add: entry_fits_def entry_ok_def)
qed

lemma diff_entry_fits:
  assumes "repo_fits re" "is_tree (table_git (\<lambda>_. re)) a" "is_tree (table_git (\<lambda>_. re)) b"
    and "table_leaf (re_trees re) a p \<noteq> table_leaf (re_trees re) b p"
  shows "diff_ok (diff_entry (re_trees re) a b p)"
    and "rc_path (dl_change (diff_entry (re_trees re) a b p)) = p"
    and "table_leaf (re_trees re) b p =
      (if rc_status (dl_change (diff_entry (re_trees re) a b p)) = CHR ''D'' then None
       else Some (rc_new_mode (dl_change (diff_entry (re_trees re) a b p)), rc_new_oid (dl_change (diff_entry (re_trees re) a b p))))"
proof -
  have z: "field_ok ''000000''" "field_ok no_oid" "field_ok ''A''" "field_ok ''D''" "field_ok ''M''"
    by (simp_all add: field_ok_def no_oid_def ord_of_def list_all_iff)
  note l = leaf_ok [OF assms(1,2), of p] leaf_ok [OF assms(1,3), of p]
  show "diff_ok (diff_entry (re_trees re) a b p)"
    using assms(4) l z
    by (cases "table_leaf (re_trees re) a p"; cases "table_leaf (re_trees re) b p")
      (auto simp: diff_ok_def diff_entry_def Let_def)
  show "rc_path (dl_change (diff_entry (re_trees re) a b p)) = p"
    by (simp add: diff_entry_def Let_def)
  show "table_leaf (re_trees re) b p =
      (if rc_status (dl_change (diff_entry (re_trees re) a b p)) = CHR ''D'' then None
       else Some (rc_new_mode (dl_change (diff_entry (re_trees re) a b p)), rc_new_oid (dl_change (diff_entry (re_trees re) a b p))))"
    using assms(4) by (auto simp: diff_entry_def Let_def)
qed

lemma diff_paths_iff: "p \<in> set (diff_paths tb a b) \<longleftrightarrow> table_leaf tb a p \<noteq> table_leaf tb b p"
proof
  show "p \<in> set (diff_paths tb a b)" if ne: "table_leaf tb a p \<noteq> table_leaf tb b p"
  proof (cases "table_leaf tb a p")
    case None
    with ne obtain s where "table_leaf tb b p = Some s" by (cases "table_leaf tb b p") auto
    with ne leaf_path show ?thesis by (auto simp: diff_paths_def)
  next
    case (Some s)
    with ne leaf_path show ?thesis by (auto simp: diff_paths_def)
  qed
qed (simp add: diff_paths_def)

lemma repo_listing_laws:
  assumes fits: "repo_fits re"
  shows "listing_laws (table_git (\<lambda>_. re)) (repo_model re)"
proof -
  let ?tb = "re_trees re" and ?g = "table_git (\<lambda>_. re)" and ?m = "repo_model re"
  let ?es = "\<lambda>t. table_entries (tree_table ?tb t)"
  have lists: "lists ?m t (filter P (?es t))" if "is_tree ?g t" for t P
    using entry_node [OF fits tree_known [OF that]] by (simp add: lists_def repo_model_def)
  have has: "e \<in> set (?es t)" "te_path e = p" if "gm_node ?m t p = Some e" for t p e
    using node_entry that by (simp_all add: repo_model_def)
  have "\<exists>es. out = ls_tree_output es \<and> lists ?m t es \<and> (\<forall>p \<in> set ps. \<forall>e. gm_node ?m t p = Some e \<longrightarrow> e \<in> set es)"
    if t: "is_tree ?g t" and out: "gt_ls_tree ?g t ps = Some out" for t ps out
    using lists [OF t] has out
    by (intro exI [of _ "filter (\<lambda>e. te_path e \<in> set ps) (?es t)"]) (auto simp: table_git_defs Let_def)
  moreover have "\<exists>es. out = ls_tree_output es \<and> lists ?m t es \<and> (\<forall>e \<in> set es. te_kind e \<noteq> ''tree'')
      \<and> (\<forall>q \<in> set ps. \<forall>p e. under q p \<longrightarrow> gm_node ?m t p = Some e \<longrightarrow> te_kind e \<noteq> ''tree'' \<longrightarrow> e \<in> set es)"
    if t: "is_tree ?g t" and out: "gt_ls_tree_r ?g t ps = Some out" for t ps out
    using lists [OF t] has out
    by (intro exI [of _ "filter (\<lambda>e. te_kind e \<noteq> ''tree'' \<and> list_ex (\<lambda>q. under q (te_path e)) ps) (?es t)"])
      (fastforce simp: table_git_defs Let_def list_ex_iff)
  moreover have "\<exists>es. out = ls_tree_output es \<and> lists ?m t es \<and> (\<forall>p e. gm_node ?m t p = Some e \<longrightarrow> e \<in> set es)"
    if t: "is_tree ?g t" and out: "gt_ls_tree_all ?g t = Some out" for t out
    using lists [OF t, of "\<lambda>_. True"] has out
    by (intro exI [of _ "?es t"]) (auto simp: table_git_defs Let_def)
  moreover have "\<exists>ds. out = diff_output ds \<and> list_all diff_ok ds \<and> diff_law ?m a b (map dl_change ds)"
    if "is_tree ?g a" "is_tree ?g b" and out: "gt_diff_raw ?g a b = Some out" for a b out
  proof (intro exI conjI)
    let ?ds = "map (diff_entry ?tb a b) (diff_paths ?tb a b)"
    show "out = diff_output ?ds" using out by (simp add: table_git_defs Let_def)
    note d = diff_entry_fits [OF fits that(1,2)]
    show "list_all diff_ok ?ds" using d(1) by (simp add: list_all_iff diff_paths_iff)
    show "diff_law ?m a b (map dl_change ?ds)"
      unfolding diff_law_def leaf_model
    proof (intro conjI ballI allI impI)
      fix c assume "c \<in> set (map dl_change ?ds)"
      then obtain p where p: "c = dl_change (diff_entry ?tb a b p)" "table_leaf ?tb a p \<noteq> table_leaf ?tb b p"
        by (auto simp: diff_paths_iff)
      show "table_leaf ?tb a (rc_path c) \<noteq> table_leaf ?tb b (rc_path c)" using p d(2) by simp
      show "table_leaf ?tb b (rc_path c) = (if rc_status c = CHR ''D'' then None else Some (rc_new_mode c, rc_new_oid c))"
        using d(3) [OF p(2)] d(2) [OF p(2)] p(1) by simp
    next
      fix p assume ne: "table_leaf ?tb a p \<noteq> table_leaf ?tb b p"
      then have "rc_path (dl_change (diff_entry ?tb a b p)) \<in> rc_path ` set (map dl_change ?ds)"
        by (simp add: diff_paths_iff)
      then show "p \<in> rc_path ` set (map dl_change ?ds)" unfolding d(2) [OF ne] .
    qed
  qed
  moreover have "\<exists>ps. out = concat (map (\<lambda>p. p @ [nul]) ps) \<and> list_all path_ok ps \<and> set ps = {p. leaf ?m a p \<noteq> leaf ?m b p}"
    if "is_tree ?g a" "is_tree ?g b" and out: "gt_diff_names ?g a b = Some out" for a b out
  proof (intro exI conjI)
    show "out = concat (map (\<lambda>p. p @ [nul]) (diff_paths ?tb a b))"
      using out by (simp add: table_git_defs Let_def lines_output_def)
    show "set (diff_paths ?tb a b) = {p. leaf ?m a p \<noteq> leaf ?m b p}" by (auto simp: diff_paths_iff leaf_model)
    show "list_all path_ok (diff_paths ?tb a b)"
      using diff_entry_fits(1,2) [OF fits that(1,2)] by (simp add: list_all_iff diff_paths_iff diff_ok_def)
  qed
  ultimately show ?thesis unfolding listing_laws_def by blast
qed

lemma slot_at_map: "slot_at (map (\<lambda>p. (p, f p)) ps) p = (if p \<in> set ps then f p else Merged None)"
  by (simp add: slot_at_def map_of_map_restrict restrict_map_def)

lemma slot_stage_record: "(p, n, s) \<in> set (slot_records x) \<longleftrightarrow> fst x = p \<and> slot_stage (snd x) n = Some s"
proof (cases "snd x")
  case (Merged v)
  then show ?thesis by (simp add: slot_records_def List.map_filter_def)
next
  case (Unmerged a b c)
  then show ?thesis
    by (cases x) (cases a; cases b; cases c; auto simp: slot_records_def List.map_filter_def)
qed

lemma slot_at_set: "distinct (map fst i) \<Longrightarrow> (p, x) \<in> set i \<Longrightarrow> slot_at i p = x"
  by (simp add: slot_at_def)

lemma fold_set_slot: "slot_at (fold set_slot ls i) = fold set_line ls (slot_at i)"
proof (induction ls arbitrary: i)
  case (Cons l ls)
  have "slot_at (set_slot l i) = set_line l (slot_at i)"
    by (cases l) (auto simp: slot_at_def update_conv' split: option.splits)
  with Cons show ?case by simp
qed simp

lemma repo_index_laws:
  assumes fits: "repo_fits re"
  shows "index_laws (table_git (\<lambda>_. re)) (repo_model re)"
proof -
  let ?tb = "re_trees re" and ?g = "table_git (\<lambda>_. re)" and ?m = "repo_model re"
  have slot: "gm_slot ?m = slot_at" by (simp add: repo_model_def)
  have no_leaf: "p \<notin> set (table_paths ?tb t) \<Longrightarrow> table_leaf ?tb t p = None" for t p
    using leaf_path by (cases "table_leaf ?tb t p") blast+
  have "gm_slot ?m i p = Merged (leaf ?m t p)" if "gt_read_tree ?g t = Some i" for t i p
  proof -
    from that have "i = map (\<lambda>p. (p, Merged (table_leaf ?tb t p))) (table_paths ?tb t)"
      by (simp add: table_git_defs Let_def)
    then show ?thesis by (simp add: slot slot_at_map leaf_model no_leaf)
  qed
  moreover have "merge_slot (leaf ?m b p) (leaf ?m u p) (leaf ?m t p) (gm_slot ?m i p)"
    if "gt_read_tree_3 ?g b u t = Some i" for b u t i p
  proof -
    let ?s = "\<lambda>p. merged_slot (table_leaf ?tb b p) (table_leaf ?tb u p) (table_leaf ?tb t p)"
    let ?ps = "remdups (table_paths ?tb b @ table_paths ?tb u @ table_paths ?tb t)"
    from that have i: "i = map (\<lambda>p. (p, ?s p)) ?ps" by (simp add: table_git_defs Let_def)
    have "merge_slot x y z (merged_slot x y z)" for x y z
      by (cases x; cases y; cases z) (auto simp: merged_slot_def merge_slot_def one_side_def)
    moreover have "merged_slot None None None = Merged None" by (simp add: merged_slot_def)
    ultimately show ?thesis
      unfolding i slot slot_at_map leaf_model
      by (cases "p \<in> set ?ps") (auto simp: no_leaf merge_slot_def one_side_def)
  qed
  moreover have "\<exists>fs. out = lines_output fs \<and> list_all path_ok fs
      \<and> (\<forall>q \<in> set ps. \<forall>p. under q p \<longrightarrow> gm_slot ?m i p \<noteq> Merged None \<longrightarrow> p \<in> set fs)"
    if out: "gt_ls_files ?g i ps = Some out" for i ps out
  proof -
    let ?fs = "filter (\<lambda>p. list_ex (\<lambda>q. under q p) ps) (map fst (filter (\<lambda>x. snd x \<noteq> Merged None) i))"
    from out have ok: "slots_ok i" and o: "out = lines_output ?fs"
      by (simp_all add: table_git_defs Let_def split: if_splits)
    have "p \<in> set ?fs" if "q \<in> set ps" "under q p" "slot_at i p \<noteq> Merged None" for q p
    proof -
      from that(3) obtain s where s: "map_of i p = Some s" "s \<noteq> Merged None"
        by (auto simp: slot_at_def split: option.splits)
      then have "p \<in> fst ` {x \<in> set i. snd x \<noteq> Merged None}"
        by (intro image_eqI [of _ _ "(p, s)"]) (auto dest: map_of_SomeD)
      with that show ?thesis by (auto simp: list_ex_iff)
    qed
    moreover have "list_all path_ok ?fs" using ok by (auto simp: slots_ok_def list_all_iff)
    ultimately show ?thesis unfolding slot o by blast
  qed
  moreover have "\<exists>rs. out = lines_output (map unmerged_line rs) \<and> list_all unmerged_ok rs
      \<and> (\<forall>p n s. (p, n, s) \<in> set rs \<longleftrightarrow> slot_stage (gm_slot ?m i p) n = Some s)"
    if out: "gt_ls_files_u ?g i = Some out" for i out
  proof -
    let ?rs = "concat (map slot_records i)"
    from out have ok: "slots_ok i" and o: "out = lines_output (map unmerged_line ?rs)"
      by (simp_all add: table_git_defs Let_def split: if_splits)
    have "(p, n, s) \<in> set ?rs \<longleftrightarrow> slot_stage (slot_at i p) n = Some s" for p n s
    proof
      assume "(p, n, s) \<in> set ?rs"
      then obtain x where "x \<in> set i" "(p, n, s) \<in> set (slot_records x)" by auto
      then show "slot_stage (slot_at i p) n = Some s"
        using slot_at_set [of i p "snd x"] ok by (cases x) (auto simp: slot_stage_record slots_ok_def)
    next
      assume a: "slot_stage (slot_at i p) n = Some s"
      then obtain x where x: "map_of i p = Some x" by (auto simp: slot_at_def split: option.splits)
      then have "(p, n, s) \<in> set (slot_records (p, x))"
        using a by (simp add: slot_stage_record slot_at_def)
      moreover note map_of_SomeD [OF x]
      ultimately show "(p, n, s) \<in> set ?rs" unfolding set_concat list.set_map by blast
    qed
    moreover have "list_all unmerged_ok ?rs" using ok by (simp add: slots_ok_def)
    ultimately show ?thesis unfolding slot o by blast
  qed
  moreover have "gm_slot ?m i' = fold set_line ls (gm_slot ?m i)" if "gt_update_index ?g i ls = Some i'" for i ls i'
    using that by (auto simp: table_git_defs Let_def slot fold_set_slot)
  moreover have "is_tree ?g t \<and> (\<forall>p. gm_slot ?m i p = Merged (leaf ?m t p))" if "gt_write_tree ?g i = Some t" for i t
  proof -
    from that have t: "t \<in> fst ` set ?tb" "same_leaves ?tb i t"
      by (auto simp: table_git_defs Let_def find_Some_iff)
    have "is_tree ?g t" using t(1) by (intro known_tree fits) (simp add: known_def map_of_eq_None_iff)
    moreover have "slot_at i p = Merged (table_leaf ?tb t p)" for p
    proof (cases "p \<in> set (map fst i @ table_paths ?tb t)")
      case True
      then show ?thesis using t(2) unfolding same_leaves_def list_all_iff by blast
    next
      case False
      then have "map_of i p = None" by (simp add: map_of_eq_None_iff)
      then show ?thesis using False by (simp add: slot_at_def no_leaf)
    qed
    ultimately show ?thesis by (simp add: slot leaf_model)
  qed
  ultimately show ?thesis unfolding index_laws_def by blast
qed

lemma repo_git_laws: "repo_fits (rf ()) \<Longrightarrow> git_laws (table_git rf) (repo_model (rf ()))"
  using repo_tree_laws [of "rf ()"] repo_listing_laws [of "rf ()"] repo_index_laws [of "rf ()"]
  by (simp add: git_laws_def repo_tree_laws repo_listing_laws repo_index_laws)

end
