(* ===== verification/Restore_Example.thy ===== *)
theory Restore_Example
  imports Restore_Safety Git_Table
begin

text \<open>
  Two restores on a small repository. The target holds \<open>a.txt\<close> and \<open>b.txt\<close>; the work of
  \<open>commit3\<close> edits the first and adds \<open>.env\<close>, that of \<open>commit4\<close> only edits the first.
\<close>

section \<open>The repository\<close>

definition file_a :: "tree_record \<times> tree_entry" where
  "file_a =
    ((''100644'', ''a.txt'', ''11111111111111111111''),
     \<lparr>te_mode = ''100644'', te_kind = ''blob'', te_oid = ''3131313131313131313131313131313131313131'', te_path = ''a.txt''\<rparr>)"

definition edited_a :: "tree_record \<times> tree_entry" where
  "edited_a =
    ((''100644'', ''a.txt'', ''22222222222222222222''),
     \<lparr>te_mode = ''100644'', te_kind = ''blob'', te_oid = ''3232323232323232323232323232323232323232'', te_path = ''a.txt''\<rparr>)"

definition file_b :: "tree_record \<times> tree_entry" where
  "file_b =
    ((''100644'', ''b.txt'', ''33333333333333333333''),
     \<lparr>te_mode = ''100644'', te_kind = ''blob'', te_oid = ''3333333333333333333333333333333333333333'', te_path = ''b.txt''\<rparr>)"

definition file_env :: "tree_record \<times> tree_entry" where
  "file_env =
    ((''100644'', ''.env'', ''44444444444444444444''),
     \<lparr>te_mode = ''100644'', te_kind = ''blob'', te_oid = ''3434343434343434343434343434343434343434'', te_path = ''.env''\<rparr>)"

definition the_repository :: "unit \<Rightarrow> repository" where
  "the_repository u =
     \<lparr>re_trees =
        [(''tree1'', [([], ''tree1'', [file_a])]),
         (''tree2'', [([], ''tree2'', [file_a, file_b])]),
         (''tree3'', [([], ''tree3'', [file_env, edited_a])]),
         (''tree4'', [([], ''tree4'', [edited_a])]),
         (''tree5'', [([], ''tree5'', [file_env, edited_a, file_b])]),
         (''tree6'', [([], ''tree6'', [edited_a, file_b])])],
      re_commits = [(''commit1'', ''tree1''), (''commit2'', ''tree2''), (''commit3'', ''tree3''), (''commit4'', ''tree4'')],
      re_bases = [((''commit3'', ''commit2''), ''commit1''), ((''commit4'', ''commit2''), ''commit1'')],
      re_empty = ''tree0'',
      re_blobs = [(''3232323232323232323232323232323232323232'', ''two''), (''3434343434343434343434343434343434343434'', ''key'')],
      re_merges = [], re_hashes = []\<rparr>"

definition the_git :: "slots git_tool" where "the_git = table_git the_repository"

definition restore_of :: "string \<Rightarrow> restore_input" where
  "restore_of saved = \<lparr>ri_onto = Some ''commit2'', ri_saved = saved, ri_keep = [], ri_refused_before = []\<rparr>"

definition no_ignores :: check_ignore where "no_ignores rules ps = Some (Some 1, [])"

lemma the_repository_fits: "repo_fits (the_repository ())"
  by code_simp

definition the_model :: "slots git_model" where "the_model = repo_model (the_repository ())"

lemma the_laws: "git_laws the_git the_model"
  unfolding the_git_def the_model_def by (rule repo_git_laws) (rule the_repository_fits)

section \<open>Two restores\<close>

definition partial_plan :: restore_plan where
  "partial_plan =
     \<lparr>rp_tree = ''tree6'', rp_onto_tree = ''tree2'',
      rp_not_restored = [\<lparr>nr_path = ''.env'', nr_reason = ''secret''\<rparr>], rp_refused = 1, rp_unsettled = 0\<rparr>"

definition full_plan :: restore_plan where
  "full_plan =
     \<lparr>rp_tree = ''tree6'', rp_onto_tree = ''tree2'', rp_not_restored = [], rp_refused = 0, rp_unsettled = 0\<rparr>"

lemma partial_plan: "plan the_git id no_ignores (restore_of ''commit3'') = Inr partial_plan"
  by code_simp

lemma full_plan: "plan the_git id no_ignores (restore_of ''commit4'') = Inr full_plan"
  by code_simp

lemma changed_leaves:
  "origin_leaf the_git the_model (restore_of ''commit3'') ''.env'' \<noteq> work_leaf the_git the_model (restore_of ''commit3'') ''.env''"
  "leaf the_model (rp_tree partial_plan) ''a.txt'' \<noteq> onto_leaf the_git the_model (restore_of ''commit3'') ''a.txt''"
  "origin_leaf the_git the_model (restore_of ''commit4'') ''a.txt'' \<noteq> work_leaf the_git the_model (restore_of ''commit4'') ''a.txt''"
  "lets_ref_go full_plan"
  by code_simp+

theorem restore_never_drops_witness:
  "''.env'' \<in> nr_path ` set (rp_not_restored partial_plan)
   \<or> onto_leaf the_git the_model (restore_of ''commit3'') ''.env'' = work_leaf the_git the_model (restore_of ''commit3'') ''.env''
   \<or> brought_in the_git the_model (restore_of ''commit3'') (leaf the_model (rp_tree partial_plan) ''.env'') ''.env''"
  by (rule restore_never_drops [OF the_laws partial_plan changed_leaves(1)])

theorem restore_brings_only_permitted_witness:
  "may_bring the_git the_model (restore_of ''commit3'') ''a.txt''
   \<and> brought_in the_git the_model (restore_of ''commit3'') (leaf the_model (rp_tree partial_plan) ''a.txt'') ''a.txt''"
  by (rule restore_brings_only_permitted [OF the_laws partial_plan changed_leaves(2)])

theorem ref_goes_only_with_the_work_witness:
  "onto_leaf the_git the_model (restore_of ''commit4'') ''a.txt'' = work_leaf the_git the_model (restore_of ''commit4'') ''a.txt''
   \<or> brought_in the_git the_model (restore_of ''commit4'') (leaf the_model (rp_tree full_plan) ''a.txt'') ''a.txt''
   \<or> (\<lparr>nr_path = ''a.txt'', nr_reason = kept\<rparr> \<in> set (rp_not_restored full_plan)
      \<and> covers (ri_keep (restore_of ''commit4'')) ''a.txt'')"
  by (rule ref_goes_only_with_the_work [OF the_laws full_plan changed_leaves(4) changed_leaves(3)])

theorem three_way_exact_witness:
  "\<exists>r. three_way the_git (Some ''commit1'') ''tree2'' ''commit3'' = Some r \<and> mr_tree r = ''tree5''
     \<and> is_tree the_git (mr_tree r)
     \<and> (\<forall>p. merged_entry the_git the_model (p \<in> set (mr_conflicts r)) (base_leaf the_git the_model (Some ''commit1'') p)
          (rev_leaf the_git the_model ''tree2'' p) (rev_leaf the_git the_model ''commit3'' p)
          (leaf the_model (mr_tree r) p))"
proof -
  have "three_way the_git (Some ''commit1'') ''tree2'' ''commit3'' = Some \<lparr>mr_tree = ''tree5'', mr_conflicts = []\<rparr>"
    by code_simp
  from three_way_exact [OF the_laws this] this show ?thesis by fastforce
qed


end
