(* ===== verification/Push_Class.thy ===== *)
theory Push_Class
  imports Publish_Policy Git_Output
begin

text \<open>
  What a failed push means (\<open>origin-http-server/src/push.rs\<close>): \<open>classify_push\<close> reads what git
  printed, \<open>refused_path\<close> one refusal line of the shard's hook, \<open>parse_porcelain\<close> the lines per ref.
\<close>

section \<open>Text\<close>

text \<open>\<open>s[..s.rfind(p)?]\<close>: what comes before the last occurrence.\<close>

fun before_last :: "'a list \<Rightarrow> 'a list \<Rightarrow> 'a list option" where
  "before_last p [] = (if p = [] then Some [] else None)"
| "before_last p (c # s) =
     (case before_last p s of
        Some r \<Rightarrow> Some (c # r)
      | None \<Rightarrow> if starts_with (c # s) p then Some [] else None)"

text \<open>The longest prefix of at most \<open>n\<close> bytes that ends at a character.\<close>

fun cut_at_char :: "string \<Rightarrow> nat \<Rightarrow> nat" where
  "cut_at_char s 0 = 0"
| "cut_at_char s (Suc n) = (if is_char_boundary s (Suc n) then Suc n else cut_at_char s n)"

fun join_with :: "'a list \<Rightarrow> 'a list list \<Rightarrow> 'a list" where
  "join_with sep [] = []"
| "join_with sep [x] = x"
| "join_with sep (x # y # xs) = x @ sep @ join_with sep (y # xs)"

section \<open>Classes\<close>

datatype push_class =
    Pushed
  | LostRace string
  | PathRejected path reject_reason "path list"
  | Rejected string
  | Ambiguous string

definition push_summary :: "string \<Rightarrow> string" where
  "push_summary text =
     (let joined = join_with ''; ''
            (filter (\<lambda>l. l \<noteq> [] \<and> l \<noteq> ''Done'' \<and> \<not> starts_with l ''To '') (map trim_str (text_lines text)))
      in if 600 < length joined then take (cut_at_char joined 600) joined @ ''...'' else joined)"

definition lost_race_markers :: "string list" where
  "lost_race_markers =
     [''non-fast-forward'', ''fetch first'', ''stale info'', ''incorrect old value'', ''cannot lock ref'',
      ''failed to update ref'']"

definition permanent_markers :: "string list" where
  "permanent_markers =
     [''[remote rejected]'', ''[rejected]'', ''hook declined'', ''permission denied'', ''access denied'',
      ''authentication failed'', ''requested url returned error: 401'', ''requested url returned error: 403'',
      ''requested url returned error: 404'', ''requested url returned error: 413'', ''repository not found'',
      ''not allowed'']"

definition apostrophe :: char where "apostrophe = CHR 0x27"

text \<open>The opening words of the hook's refusals of one path, each ending in a quote.\<close>

definition path_refusals :: "(string \<times> reject_reason) list" where
  "path_refusals =
     [(''blocked path '' @ [apostrophe], Policy), (''file too large '' @ [apostrophe], TooLarge),
      (''blocked non-blob object for '' @ [apostrophe], Unsupported)]"

definition end_of_quote :: string where "end_of_quote = [apostrophe] @ '' (''"

definition refusal_at :: "string \<Rightarrow> nat \<Rightarrow> string \<Rightarrow> (nat \<times> path) option" where
  "refusal_at rest kind marker =
     Option.bind (strip_prefix rest marker) (\<lambda>quoted.
     Option.bind (before_last end_of_quote quoted) (\<lambda>p. if p \<noteq> [] then Some (kind, p) else None))"

definition refused_path :: "string \<Rightarrow> (nat \<times> path) option" where
  "refused_path line =
     (let line = trim_end line;
          line = (case strip_prefix line ''remote: '' of Some l \<Rightarrow> l | None \<Rightarrow> line)
      in Option.bind (strip_prefix line ''instafy: '') (\<lambda>rest.
           (case List.map_filter (\<lambda>(kind, marker, _). refusal_at rest kind marker) (enumerate 0 path_refusals) of
              x # _ \<Rightarrow> Some x | [] \<Rightarrow> None)))"

definition classify_push :: "string \<Rightarrow> push_class" where
  "classify_push text =
     (let lower = to_ascii_lowercase text
      in if list_ex (contains_str lower) lost_race_markers then LostRace (push_summary text)
         else
           let refused = List.map_filter refused_path (text_lines text);
               first = List.map_filter (\<lambda>kind. find (\<lambda>r. fst r = kind) refused) [0 ..< length path_refusals]
           in case first of
                (kind, p) # _ \<Rightarrow>
                  PathRejected p (snd (path_refusals ! kind)) (removeAll p (rev (remdups (rev (map snd refused)))))
              | [] \<Rightarrow>
                  if list_ex (contains_str lower) permanent_markers then Rejected (push_summary text)
                  else Ambiguous (push_summary text))"

definition classify_output :: "bool \<Rightarrow> string \<Rightarrow> string \<Rightarrow> push_class" where
  "classify_output success out err =
     (if success then Pushed
      else classify_push (from_utf8_lossy out @ [newline] @ from_utf8_lossy err))"

section \<open>Lines per ref\<close>

record pushed_ref =
  pr_flag :: string
  pr_to :: string
  pr_summary :: string

definition ref_ok :: "pushed_ref \<Rightarrow> bool" where
  "ref_ok r \<longleftrightarrow> pr_flag r \<in> {'' '', ''*'', ''=''}"

definition one_char :: "string \<Rightarrow> bool" where
  "one_char s \<longleftrightarrow> s \<noteq> [] \<and> list_all (\<lambda>c. is_cont (ord_of c)) (tl s)"

definition porcelain_line :: "string \<Rightarrow> pushed_ref option" where
  "porcelain_line line =
     Option.bind (split_once tab line) (\<lambda>(flag, rest).
       let (refs, summary) = (case split_once tab rest of Some x \<Rightarrow> x | None \<Rightarrow> (rest, []))
       in if one_char flag
          then map_option (\<lambda>(_, to). \<lparr>pr_flag = flag, pr_to = to, pr_summary = summary\<rparr>) (rsplit_once (CHR '':'') refs)
          else None)"

definition parse_porcelain :: "string \<Rightarrow> pushed_ref list" where
  "parse_porcelain out = List.map_filter porcelain_line (text_lines (from_utf8_lossy out))"

section \<open>Refusals that are read back\<close>

text \<open>A line of the shard's hook that refuses one path, and what git puts before it.\<close>

definition hook_line :: "nat \<Rightarrow> path \<Rightarrow> string \<Rightarrow> string" where
  "hook_line kind p detail = ''remote: instafy: '' @ fst (path_refusals ! kind) @ p @ end_of_quote @ detail @ '')''"

lemma before_last_None: "p \<noteq> [] \<Longrightarrow> hd p \<notin> set s \<Longrightarrow> before_last p s = None"
proof (induction s)
  case (Cons a s)
  then show ?case by (cases p) (auto simp: starts_with_def)
qed simp

lemma before_last_here:
  assumes "p \<noteq> []" "hd p \<notin> set (tl p @ s)"
  shows "before_last p (p @ s) = Some []"
proof -
  obtain c q where p: "p = c # q" using assms(1) by (cases p) auto
  have "before_last p (q @ s) = None"
    using assms by (intro before_last_None) (simp_all add: p)
  then show ?thesis by (simp add: p starts_with_def)
qed

lemma before_last_append: "before_last p s = Some r \<Longrightarrow> before_last p (a @ s) = Some (a @ r)"
  by (induction a) simp_all

lemma ws_bytes_snoc:
  assumes "ws_bytes (xs @ [a])" "33 \<le> a" "a < 128"
  shows False
  using assms by (cases "xs @ [a]" rule: ws_bytes.cases) (auto simp: append_eq_Cons_conv Cons_eq_append_conv)

lemma ws_last_visible:
  assumes "33 \<le> ord_of c" "ord_of c < 128"
  shows "ws_last (s @ [c]) = 0"
proof -
  define b where "b = map ord_of (drop (length (s @ [c]) - 3) (s @ [c]))"
  have b: "b = map ord_of (drop (length s - 2) s) @ [ord_of c]" by (simp add: b_def)
  have "\<not> ws_bytes (drop n b)" if "n \<le> length b - 1" for n
    using that ws_bytes_snoc [OF _ assms, of "drop n (map ord_of (drop (length s - 2) s))"] by (auto simp: b)
  from this [of "length b - 1"] this [of "length b - 2"] this [of 0]
  have n: "\<not> ws_bytes (drop (length b - 1) b)" "\<not> ws_bytes (drop (length b - 2) b)" "\<not> ws_bytes b"
    by (simp_all del: drop_map)
  show ?thesis unfolding ws_last_def b_def [symmetric] Let_def using n by simp
qed

lemma ws_last_space: "ws_last (s @ [CHR '' '']) = 1"
  by (simp add: ws_last_def Let_def ord_of_def)

lemma trim_end_visible:
  assumes "33 \<le> ord_of c" "ord_of c < 128"
  shows "trim_end (s @ [c] @ replicate n (CHR '' '')) = s @ [c]"
proof (induction n)
  case 0
  then show ?case using ws_last_visible [OF assms, of s] by (subst trim_end.simps) simp
next
  case (Suc n)
  let ?t = "s @ [c] @ replicate n (CHR '' '')"
  have r: "s @ [c] @ replicate (Suc n) (CHR '' '') = ?t @ [CHR '' '']"
    by (simp add: replicate_append_same)
  have "trim_end (?t @ [CHR '' '']) = trim_end ?t"
    by (subst trim_end.simps) (simp only: ws_last_space, simp)
  then show ?case using Suc r by simp
qed

lemma refused_path_hook_line:
  assumes "kind < 3" "p \<noteq> []" "apostrophe \<notin> set detail"
  shows "refused_path (hook_line kind p detail @ replicate n (CHR '' '')) = Some (kind, p)"
proof -
  let ?m = "fst (path_refusals ! kind)" and ?q = "p @ end_of_quote @ detail @ '')''"
  have q: "before_last end_of_quote ?q = Some p"
  proof -
    have "before_last end_of_quote (end_of_quote @ detail @ '')'') = Some []"
      using assms(3) by (intro before_last_here) (simp_all add: end_of_quote_def apostrophe_def)
    from before_last_append [OF this, of p] show ?thesis by simp
  qed
  have t: "trim_end (hook_line kind p detail @ replicate n (CHR '' '')) = hook_line kind p detail"
    using trim_end_visible [of "CHR '')''" "''remote: instafy: '' @ ?m @ p @ end_of_quote @ detail" n]
    by (simp add: hook_line_def ord_of_def)
  have s: "strip_prefix (hook_line kind p detail) ''remote: '' = Some (''instafy: '' @ ?m @ ?q)"
    "strip_prefix (''instafy: '' @ ?m @ ?q) ''instafy: '' = Some (?m @ ?q)"
    by (simp_all add: hook_line_def strip_prefix_Some)
  have k: "kind = 0 \<or> kind = 1 \<or> kind = 2" using assms(1) by auto
  have m: "List.map_filter (\<lambda>(kind, marker, _). refusal_at (?m @ ?q) kind marker) (enumerate 0 path_refusals) = [(kind, p)]"
    using k q assms(2)
    by (elim disjE) (simp_all add: path_refusals_def refusal_at_def List.map_filter_def strip_prefix_def starts_with_def)
  show ?thesis unfolding refused_path_def t s Let_def using s by (simp add: m)
qed

lemma text_lines_ended:
  assumes "\<And>l. l \<in> set ls \<Longrightarrow> newline \<notin> set l \<and> \<not> ends_with l [CHR 0x0D]"
  shows "text_lines (concat (map (\<lambda>l. l @ [newline]) ls)) = ls"
proof -
  have s: "split_on newline (concat (map (\<lambda>l. l @ [newline]) ls)) = ls @ [[]]"
    using assms
  proof (induction ls)
    case (Cons l ls)
    then show ?case using split_on_append_sep [of newline l "concat (map (\<lambda>l. l @ [newline]) ls)"]
      by (simp add: split_on_no_sep)
  qed simp
  have "map (\<lambda>l. case strip_suffix l [CHR 0x0D] of Some r \<Rightarrow> r | None \<Rightarrow> l) ls = ls"
    using assms by (intro map_idI) (simp add: strip_suffix_def)
  then show ?thesis by (simp add: text_lines_def s)
qed

text \<open>A refusal of \<open>check_changes\<close> as such a line.\<close>

fun refused_name :: "path_refusal \<Rightarrow> path" where
  "refused_name (BlockedPath p) = p"
| "refused_name (NonBlob p _) = p"
| "refused_name (TooLargeBlob p _ _) = p"

fun refusal_kind :: "path_refusal \<Rightarrow> nat" where
  "refusal_kind (BlockedPath _) = 0"
| "refusal_kind (NonBlob _ _) = 2"
| "refusal_kind (TooLargeBlob _ _ _) = 1"

fun refusal_reason :: "path_refusal \<Rightarrow> reject_reason" where
  "refusal_reason (BlockedPath _) = Policy"
| "refusal_reason (NonBlob _ _) = Unsupported"
| "refusal_reason (TooLargeBlob _ _ _) = TooLarge"

fun refusal_detail :: "path_refusal \<Rightarrow> string" where
  "refusal_detail (BlockedPath _) = ''repo hygiene policy''"
| "refusal_detail (NonBlob _ obj_type) = ''type='' @ obj_type"
| "refusal_detail (TooLargeBlob _ bytes limit) = bytes @ '' bytes > '' @ limit"

lemma refusal_message_line: "''remote: '' @ refusal_message r = hook_line (refusal_kind r) (refused_name r) (refusal_detail r)"
  by (cases r) (simp_all add: hook_line_def path_refusals_def hook_quoted_def end_of_quote_def apostrophe_def)

lemma refusal_kind_reason: "refusal_kind r < 3" "snd (path_refusals ! refusal_kind r) = refusal_reason r"
  by (cases r; simp add: path_refusals_def)+

definition refusal_ok :: "path_refusal \<Rightarrow> bool" where
  "refusal_ok r \<longleftrightarrow> refused_name r \<noteq> [] \<and> newline \<notin> set (refused_name r)
     \<and> newline \<notin> set (refusal_detail r) \<and> apostrophe \<notin> set (refusal_detail r)"

text \<open>What git prints of a push that the hook refused: the hook's lines, each after \<open>remote: \<close> and padded
  with blanks, and lines of git's own.\<close>

definition refused_push_text :: "nat \<Rightarrow> path_refusal list \<Rightarrow> string list \<Rightarrow> string" where
  "refused_push_text blanks rs extra =
     concat (map (\<lambda>l. l @ [newline])
       (map (\<lambda>r. ''remote: '' @ refusal_message r @ replicate blanks (CHR '' '')) rs @ extra))"

lemma refusal_line_ok:
  assumes "refusal_ok r"
  shows "newline \<notin> set (''remote: '' @ refusal_message r @ replicate n (CHR '' ''))"
    and "\<not> ends_with (''remote: '' @ refusal_message r @ replicate n (CHR '' '')) [CHR 0x0D]"
    and "refused_path (''remote: '' @ refusal_message r @ replicate n (CHR '' '')) = Some (refusal_kind r, refused_name r)"
proof -
  have l: "''remote: '' @ refusal_message r @ s = hook_line (refusal_kind r) (refused_name r) (refusal_detail r) @ s" for s
    using arg_cong [OF refusal_message_line, of "\<lambda>x. x @ s" r] by simp
  show "newline \<notin> set (''remote: '' @ refusal_message r @ replicate n (CHR '' ''))"
    using assms by (cases r) (auto simp: refusal_ok_def hook_quoted_def)
  show "\<not> ends_with (''remote: '' @ refusal_message r @ replicate n (CHR '' '')) [CHR 0x0D]"
  proof (cases n)
    case (Suc m)
    have "replicate n (CHR '' '') = replicate m (CHR '' '') @ [CHR '' '']" by (simp add: Suc replicate_append_same)
    then show ?thesis by (simp add: ends_with_def)
  next
    case 0
    have "ends_with (hook_line k p d) [CHR 0x0D] \<longleftrightarrow> False" for k p d
      unfolding hook_line_def append_assoc [symmetric] by (simp add: ends_with_def)
    then show ?thesis unfolding l 0 by simp
  qed
  show "refused_path (''remote: '' @ refusal_message r @ replicate n (CHR '' '')) = Some (refusal_kind r, refused_name r)"
    unfolding l using assms refusal_kind_reason(1) by (intro refused_path_hook_line) (simp_all add: refusal_ok_def)
qed

lemma refusals_read:
  assumes "list_all refusal_ok rs" and "rs \<noteq> []"
    and "\<forall>l \<in> set extra. newline \<notin> set l \<and> \<not> ends_with l [CHR 0x0D] \<and> refused_path l = None"
    and "\<not> list_ex (contains_str (to_ascii_lowercase (refused_push_text n rs extra))) lost_race_markers"
  shows "\<exists>r others. r \<in> set rs
    \<and> classify_push (refused_push_text n rs extra) = PathRejected (refused_name r) (refusal_reason r) others
    \<and> insert (refused_name r) (set others) = refused_name ` set rs"
proof -
  let ?line = "\<lambda>r. ''remote: '' @ refusal_message r @ replicate n (CHR '' '')"
  let ?refused = "map (\<lambda>r. (refusal_kind r, refused_name r)) rs"
  have ok: "refusal_ok r" if "r \<in> set rs" for r using assms(1) that by (simp add: list_all_iff)
  have "text_lines (refused_push_text n rs extra) = map ?line rs @ extra"
    unfolding refused_push_text_def
  proof (rule text_lines_ended)
    fix l assume "l \<in> set (map ?line rs @ extra)"
    then consider r where "r \<in> set rs" "l = ?line r" | "l \<in> set extra" by auto
    then show "newline \<notin> set l \<and> \<not> ends_with l [CHR 0x0D]"
      using refusal_line_ok(1,2) [OF ok] assms(3) by cases blast+
  qed
  moreover have "List.map_filter refused_path (map ?line rs) = ?refused"
    using ok by (induction rs) (simp_all add: List.map_filter_def refusal_line_ok(3) del: append.simps)
  moreover have "List.map_filter refused_path extra = []"
    using assms(3) by (simp add: List.map_filter_def filter_empty_conv)
  ultimately have refused: "List.map_filter refused_path (text_lines (refused_push_text n rs extra)) = ?refused"
    by (simp add: List.map_filter_def)
  define first where "first = List.map_filter (\<lambda>kind. find (\<lambda>r. fst r = kind) ?refused) [0 ..< length path_refusals]"
  obtain r0 where r0: "r0 \<in> set rs" using assms(2) by (cases rs) auto
  have "find (\<lambda>r. fst r = refusal_kind r0) ?refused \<noteq> None" using r0 by (auto simp: find_None_iff)
  moreover have "refusal_kind r0 \<in> set [0 ..< length path_refusals]"
    by (cases r0) (simp_all add: path_refusals_def)
  ultimately have "\<exists>kind \<in> set [0 ..< length path_refusals]. find (\<lambda>r. fst r = kind) ?refused \<noteq> None" by blast
  then have "first \<noteq> []"
    unfolding first_def List.map_filter_def by (simp add: filter_empty_conv)
  then obtain k p rest where f: "first = (k, p) # rest" by (cases first) auto
  then have "(k, p) \<in> set first" by simp
  then obtain k' where "find (\<lambda>r. fst r = k') ?refused = Some (k, p)"
    unfolding first_def by (auto simp: List.map_filter_def)
  then have "(k, p) \<in> set ?refused" by (auto simp: find_Some_iff set_conv_nth)
  then obtain r where r: "r \<in> set rs" "refusal_kind r = k" "refused_name r = p" by auto
  have c: "classify_push (refused_push_text n rs extra) =
      PathRejected p (snd (path_refusals ! k)) (removeAll p (rev (remdups (rev (map snd ?refused)))))"
    unfolding classify_push_def Let_def refused first_def [symmetric] f using assms(4) by simp
  have "insert p (set (removeAll p (rev (remdups (rev (map snd ?refused)))))) = refused_name ` set rs"
    using r by force
  with r c refusal_kind_reason(2) [of r] show ?thesis by auto
qed

section \<open>The report of the hook\<close>

text \<open>Whether the hook refuses a changed path, given what \<open>cat-file\<close> says of objects.\<close>

definition path_refused ::
  "(string \<Rightarrow> string \<Rightarrow> bool) \<Rightarrow> string \<Rightarrow> bool \<Rightarrow> nat \<Rightarrow> (string \<Rightarrow> string) \<Rightarrow> string \<times> path \<Rightarrow> bool" where
  "path_refused glob deny slot limit describe ch \<longleftrightarrow>
     (let removed = (change_word 4 (fst ch) = ''D'') in
      \<not> (removed \<and> slot)
      \<and> (is_denied_path glob deny (snd ch)
         \<or> \<not> removed \<and> (change_word 1 (fst ch) = ''160000'' \<or> blob_refused limit (describe (change_word 3 (fst ch))))))"

definition to_check :: "(string \<Rightarrow> string \<Rightarrow> bool) \<Rightarrow> string \<Rightarrow> string \<times> path \<Rightarrow> bool" where
  "to_check glob deny ch \<longleftrightarrow>
     \<not> is_denied_path glob deny (snd ch) \<and> change_word 4 (fst ch) \<noteq> ''D'' \<and> change_word 1 (fst ch) \<noteq> ''160000''"

lemma report_listing:
  "list_all (\<lambda>(meta, _). meta \<noteq> ''end'') changes \<Longrightarrow>
     report_changes glob deny slot (listing changes @ [''end'']) = concat (map (\<lambda>(meta, path). change_report glob deny slot meta path) changes)"
  by (induction changes) (auto simp: listing_def)

lemma scan_blobs:
  "ch_blobs (fold (\<lambda>(meta, path). scan_change glob deny slot meta path) changes cs)
     = ch_blobs cs @ map (\<lambda>(meta, path). (path, change_word 3 meta)) (filter (to_check glob deny) changes)"
proof (induction changes arbitrary: cs)
  case (Cons ch changes)
  obtain meta path where ch: "ch = (meta, path)" by (cases ch)
  have "ch_blobs (scan_change glob deny slot meta path cs)
      = ch_blobs cs @ (if to_check glob deny (meta, path) then [(path, change_word 3 meta)] else [])"
    by (auto simp: scan_change_def to_check_def Let_def)
  with Cons show ?case by (simp add: ch)
qed simp

lemma scan_refused:
  "ch_refused (fold (\<lambda>(meta, path). scan_change glob deny slot meta path) changes cs)
     = (ch_refused cs \<or> concat (map (\<lambda>(meta, path). change_report glob deny slot meta path) changes) \<noteq> [])"
proof (induction changes arbitrary: cs)
  case (Cons ch changes)
  obtain meta path where ch: "ch = (meta, path)" by (cases ch)
  have "ch_refused (scan_change glob deny slot meta path cs) = (ch_refused cs \<or> change_report glob deny slot meta path \<noteq> [])"
    by (auto simp: scan_change_def change_report_def Let_def)
  with Cons show ?case by (auto simp: ch)
qed simp

lemma blob_report_empty: "blob_report max_blob p line = [] \<longleftrightarrow> \<not> blob_refused (parse_digits max_blob) line"
  by (auto simp: blob_report_def blob_refused_def Let_def)

lemma hygiene_report_listing:
  assumes "rv_diff_tree rv against commit = (listing changes, True)"
    and "list_all (\<lambda>(meta, _). meta \<noteq> ''end'') changes" and "rv_batch_check rv = map describe"
  shows "hygiene_report rv glob deny max_blob slot commit against
      = concat (map (\<lambda>(meta, path). change_report glob deny slot meta path) changes)
        @ concat (map (\<lambda>(meta, path). blob_report max_blob path (describe (change_word 3 meta))) (filter (to_check glob deny) changes))"
    and "check_changes rv glob deny (parse_digits max_blob) slot commit against = Some Hygiene \<Longrightarrow>
      hygiene_report rv glob deny max_blob slot commit against \<noteq> []"
proof -
  define cs where "cs = fold (\<lambda>(meta, path). scan_change glob deny slot meta path) changes \<lparr>ch_blobs = [], ch_refused = False\<rparr>"
  let ?todo = "filter (to_check glob deny) changes"
  have b: "ch_blobs cs = map (\<lambda>(meta, path). (path, change_word 3 meta)) ?todo"
    unfolding cs_def scan_blobs by simp
  have l: "(if ch_blobs cs = [] then [] else rv_batch_check rv (map snd (ch_blobs cs))) = map (\<lambda>(meta, path). describe (change_word 3 meta)) ?todo"
    unfolding assms(3) b by (simp add: comp_def case_prod_beta)
  have z: "map (\<lambda>((path, _), line). blob_report max_blob path line) (zip (ch_blobs cs) (map (\<lambda>(meta, path). describe (change_word 3 meta)) ?todo))
      = map (\<lambda>(meta, path). blob_report max_blob path (describe (change_word 3 meta))) ?todo"
    unfolding b by (simp add: zip_map_map zip_same_conv_map comp_def case_prod_beta)
  show r: "hygiene_report rv glob deny max_blob slot commit against
      = concat (map (\<lambda>(meta, path). change_report glob deny slot meta path) changes)
        @ concat (map (\<lambda>(meta, path). blob_report max_blob path (describe (change_word 3 meta))) ?todo)"
    unfolding hygiene_report_def assms(1) Let_def prod.case if_True scan_changes_listing [OF assms(2)]
      report_listing [OF assms(2)] option.case cs_def [symmetric] l z ..
  assume c: "check_changes rv glob deny (parse_digits max_blob) slot commit against = Some Hygiene"
  have "ch_refused cs \<or> list_ex (blob_refused (parse_digits max_blob)) (map (\<lambda>(meta, path). describe (change_word 3 meta)) ?todo)"
    using c unfolding check_changes_def assms(1) Let_def prod.case if_True scan_changes_listing [OF assms(2)]
      option.case cs_def [symmetric] l by (auto split: if_splits)
  then show "hygiene_report rv glob deny max_blob slot commit against \<noteq> []"
    unfolding r cs_def scan_refused using blob_report_empty [of max_blob] by (force simp: list_ex_iff)
qed

lemma report_names:
  assumes "rv_diff_tree rv against commit = (listing changes, True)"
    and "list_all (\<lambda>(meta, _). meta \<noteq> ''end'') changes" and "rv_batch_check rv = map describe"
  shows "refused_name ` set (hygiene_report rv glob deny max_blob slot commit against)
      = snd ` set (filter (path_refused glob deny slot (parse_digits max_blob) describe) changes)"
proof -
  have 1: "refused_name ` set (change_report glob deny slot meta path)
      = (if change_report glob deny slot meta path = [] then {} else {path})" for meta path
    by (auto simp: change_report_def Let_def)
  have 2: "refused_name ` set (blob_report max_blob path line) = (if blob_refused (parse_digits max_blob) line then {path} else {})" for path line
    by (auto simp: blob_report_def blob_refused_def Let_def)
  have 3: "path_refused glob deny slot (parse_digits max_blob) describe (meta, path) \<longleftrightarrow>
      change_report glob deny slot meta path \<noteq> []
      \<or> to_check glob deny (meta, path) \<and> blob_refused (parse_digits max_blob) (describe (change_word 3 meta))" for meta path
    by (auto simp: path_refused_def change_report_def to_check_def Let_def)
  have u: "refused_name ` set (concat (map f xs)) = (\<Union>x\<in>set xs. refused_name ` set (f x))" for f and xs :: "(string \<times> path) list"
    by auto
  have a: "refused_name ` set (concat (map (\<lambda>(meta, path). change_report glob deny slot meta path) changes))
      = snd ` {ch \<in> set changes. change_report glob deny slot (fst ch) (snd ch) \<noteq> []}"
    unfolding u by (auto simp: 1 case_prod_beta split: if_splits)
  have b: "refused_name ` set (concat (map (\<lambda>(meta, path). blob_report max_blob path (describe (change_word 3 meta))) (filter (to_check glob deny) changes)))
      = snd ` {ch \<in> set changes. to_check glob deny ch \<and> blob_refused (parse_digits max_blob) (describe (change_word 3 (fst ch)))}"
    unfolding u by (auto simp: 2 case_prod_beta split: if_splits)
  have c: "set (filter (path_refused glob deny slot (parse_digits max_blob) describe) changes)
      = {ch \<in> set changes. change_report glob deny slot (fst ch) (snd ch) \<noteq> []}
        \<union> {ch \<in> set changes. to_check glob deny ch \<and> blob_refused (parse_digits max_blob) (describe (change_word 3 (fst ch)))}"
    using 3 by auto
  show ?thesis unfolding hygiene_report_listing(1) [OF assms] set_append image_Un a b c ..
qed

lemma read_words_subset: "w \<in> set (read_words n s) \<Longrightarrow> set w \<subseteq> set s"
proof (induction n arbitrary: s)
  case 0
  have "set (trim_end_matches P x) \<subseteq> set x" for P and x :: string
    by (auto simp: trim_end_matches_def dest: set_dropWhileD)
  with 0 show ?case by (fastforce dest: set_dropWhileD)
next
  case (Suc n)
  then show ?case by (auto simp: Let_def dest: set_dropWhileD set_takeWhileD)
qed

lemma read_words_length [simp]: "length (read_words n s) = Suc n"
  by (induction n arbitrary: s) (simp_all add: Let_def)

lemma report_ok:
  assumes "rv_diff_tree rv against commit = (listing changes, True)"
    and "list_all (\<lambda>(meta, _). meta \<noteq> ''end'') changes" and "rv_batch_check rv = map describe"
    and "\<forall>(meta, path)\<in>set changes. path \<noteq> [] \<and> newline \<notin> set path"
    and "\<forall>obj. newline \<notin> set (describe obj) \<and> apostrophe \<notin> set (describe obj)" and "all_digits max_blob"
  shows "list_all refusal_ok (hygiene_report rv glob deny max_blob slot commit against)"
proof -
  have digits: "newline \<notin> set s" "apostrophe \<notin> set s" if "all_digits s" for s
    using that by (auto simp: all_digits_def list_all_iff is_ascii_digit_def ord_of_def apostrophe_def)
  have 1: "refusal_ok r" if "(meta, path) \<in> set changes" "r \<in> set (change_report glob deny slot meta path)" for meta path r
    using that assms(4) by (auto simp: change_report_def Let_def refusal_ok_def apostrophe_def split: if_splits)
  have 2: "refusal_ok r" if "(meta, path) \<in> set changes" "r \<in> set (blob_report max_blob path (describe obj))" for meta path r obj
  proof -
    have w: "newline \<notin> set (read_words 1 (describe obj) ! i) \<and> apostrophe \<notin> set (read_words 1 (describe obj) ! i)" if "i < 2" for i
    proof -
      have "read_words 1 (describe obj) ! i \<in> set (read_words 1 (describe obj))"
        by (rule nth_mem, unfold read_words_length) (use that in simp)
      from read_words_subset [OF this] assms(5) show ?thesis by blast
    qed
    have p: "path \<noteq> []" "newline \<notin> set path" using assms(4) that(1) by auto
    show ?thesis
      using that(2) p w [of 0] w [of 1] digits [OF assms(6)]
      by (auto simp: blob_report_def Let_def refusal_ok_def apostrophe_def split: if_splits)
  qed
  show ?thesis
    unfolding hygiene_report_listing(1) [OF assms(1-3)] list_all_iff using 1 2 by auto
qed


end
