(* ===== verification/Push_Example.thy ===== *)
theory Push_Example
  imports Push_Class
begin

text \<open>
  Two pushes that the shard's hook refused, read by \<open>classify_push\<close>.
\<close>

text \<open>A refused file whose name contains the words of a lost race is not read as a refusal: the
  words are looked for in the whole text, the name included.\<close>

lemma refusal_taken_for_a_race:
  "classify_push (refused_push_text 8 [TooLargeBlob ''notes/fetch first.bin'' ''30'' ''10''] [])
   = LostRace (''remote: instafy: file too large '' @ [apostrophe] @ ''notes/fetch first.bin'' @ [apostrophe] @ '' (30 bytes > 10)'')"
  by code_simp

text \<open>A push that adds a large file and one in a denied directory.\<close>

definition refused_changes :: "(string \<times> path) list" where
  "refused_changes =
     [('':000000 100644 0 a A'', ''big.bin''), ('':000000 100644 0 b A'', ''dist/it'' @ [apostrophe] @ ''s.js''),
      ('':000000 100644 0 c A'', ''readme'')]"

definition refused_describe :: "string \<Rightarrow> string" where
  "refused_describe obj = (if obj = ''a'' then ''blob 30'' else ''blob 3'')"

definition refused_repo :: repo_view where
  "refused_repo =
     \<lparr>rv_ignorecase = False, rv_is_ancestor = (\<lambda>_ _. True), rv_commit = Some, rv_first_parent = (\<lambda>_. None),
      rv_empty_tree = ''e'', rv_diff_tree = (\<lambda>_ _. (listing refused_changes, True)),
      rv_batch_check = map refused_describe\<rparr>"

definition refused_output :: string where
  "refused_output =
     refused_push_text 8 (hygiene_report refused_repo (\<lambda>_ _. False) [] ''10'' False ''n'' ''m'') [''error: failed'']"

lemma refused_facts:
  "check_changes refused_repo (\<lambda>_ _. False) [] (parse_digits ''10'') False ''n'' ''m'' = Some Hygiene"
  "list_all (\<lambda>(meta, _). meta \<noteq> ''end'') refused_changes" "all_digits ''10''"
  "\<not> list_ex (contains_str (to_ascii_lowercase refused_output)) lost_race_markers"
  "list_all (\<lambda>(meta, path). path \<noteq> [] \<and> newline \<notin> set path) refused_changes"
  "list_all (\<lambda>l. newline \<notin> set l \<and> \<not> ends_with l [CHR 0x0D] \<and> refused_path l = None) [''error: failed'']"
  by code_simp+


end
