(* ===== verification/Save_Answers.thy ===== *)
theory Save_Answers
  imports Publish_Policy Git_Output Json
begin

text \<open>
  The answers of the hosted gateway to a change it refuses
  (\<open>origin-http-server/src/hosted/answers.rs\<close>): a status, a code, a message and a JSON object with
  the paths concerned.
\<close>

datatype save_error =
    SaveReport nat string string json
  | SaveRetryLater string string nat
  | SaveInternal string
  | SaveBadRequest string

section \<open>Unexpected failures\<close>

definition says_disk_full :: "string \<Rightarrow> bool" where
  "says_disk_full text \<longleftrightarrow>
     contains_str (to_ascii_lowercase text) ''no space left on device''
     \<or> contains_str (to_ascii_lowercase text) ''disk quota exceeded''"

definition disk_full :: save_error where
  "disk_full = SaveRetryLater ''disk_full'' ''the server is out of disk space; try again in a moment'' 2"

fun or_disk_full :: "save_error \<Rightarrow> save_error" where
  "or_disk_full (SaveInternal message) = (if says_disk_full message then disk_full else SaveInternal message)"
| "or_disk_full e = e"

definition internal_error :: "string \<Rightarrow> save_error" where
  "internal_error text = or_disk_full (SaveInternal text)"

section \<open>Lists of paths\<close>

definition max_reported_paths :: nat where "max_reported_paths = 200"
definition max_restore_keep_paths :: nat where "max_restore_keep_paths = 10000"

definition listed_up_to :: "path list \<Rightarrow> nat \<Rightarrow> (string \<times> json) list" where
  "listed_up_to ps most =
     (let ps = sort_dedup ps; extra = length ps - most
      in (if 0 < extra then [(''morePaths'', JNum (PosInt extra))] else [])
         @ [(''paths'', JArr (map JStr (take most ps)))])"

definition listed :: "path list \<Rightarrow> (string \<times> json) list" where
  "listed ps = listed_up_to ps max_reported_paths"

definition head_field :: "string option \<Rightarrow> json" where
  "head_field head = (case head of Some h \<Rightarrow> JStr h | None \<Rightarrow> JNull)"

definition with_field :: "(string \<times> json) list \<Rightarrow> string \<Rightarrow> json \<Rightarrow> json" where
  "with_field obj k v = JObj (obj_insert k v obj)"

section \<open>Answers\<close>

definition head_moved :: "string option \<Rightarrow> path list \<Rightarrow> save_error" where
  "head_moved head ps =
     SaveReport 409 ''head_moved'' ''these files changed since they were read; reload them and save again''
       (with_field (listed ps) ''head'' (head_field head))"

definition path_type_conflict :: "string option \<Rightarrow> path list \<Rightarrow> save_error" where
  "path_type_conflict head ps =
     SaveReport 409 ''path_type_conflict'' ''a file and a folder would have the same name''
       (with_field (listed ps) ''head'' (head_field head))"

definition path_alias_message :: string where
  "path_alias_message =
     ''another file or folder here has this name in another case or Unicode form, and a disk that ignores case takes the two for one; keep the current version or use another name''"

definition path_alias_answer :: "string option \<Rightarrow> path list \<Rightarrow> save_error" where
  "path_alias_answer head ps =
     SaveReport 409 ''path_alias'' path_alias_message (with_field (listed ps) ''head'' (head_field head))"

definition main_busy :: save_error where
  "main_busy =
     SaveReport 409 ''main_busy'' ''other saves kept landing first; try again in a moment'' (JObj [])"

definition unsupported_entry :: "path list \<Rightarrow> save_error" where
  "unsupported_entry ps =
     SaveReport 400 ''unsupported_entry'' ''a link or a submodule cannot be changed here'' (JObj (listed ps))"

definition delete_requires_base_rev :: "path list \<Rightarrow> save_error" where
  "delete_requires_base_rev ps =
     SaveReport 400 ''delete_requires_base_rev''
       ''deleting a folder needs the version it was read at (baseRev)'' (JObj (listed ps))"

text \<open>One answer names one reason: secrets first, then chat uploads, then everything else.\<close>

definition refusal_rank :: "reject_reason \<Rightarrow> nat" where
  "refusal_rank r = (case r of Secret \<Rightarrow> 0 | Attachment \<Rightarrow> 1 | _ \<Rightarrow> 2)"

definition excluded_message :: "reject_reason \<Rightarrow> string" where
  "excluded_message r =
     (case r of
        Secret \<Rightarrow> ''secret files are never saved to history; keep them in project secrets''
      | Attachment \<Rightarrow> ''chat uploads are not saved to the workspace any more''
      | _ \<Rightarrow> ''these paths are never saved to history (build output, dependencies or Instafy files)'')"

text \<open>\<open>min_by_key\<close> keeps the first of equal keys.\<close>

fun first_least :: "('a \<Rightarrow> nat) \<Rightarrow> 'a list \<Rightarrow> 'a option" where
  "first_least f [] = None"
| "first_least f (x # xs) =
     (case first_least f xs of Some y \<Rightarrow> if f y < f x then Some y else Some x | None \<Rightarrow> Some x)"

definition excluded_path :: "(path \<times> reject_reason) list \<Rightarrow> save_error" where
  "excluded_path refused =
     (let reason = (case first_least refusal_rank (map snd refused) of Some r \<Rightarrow> r | None \<Rightarrow> Excluded);
          ps = map fst (filter (\<lambda>(_, other). refusal_rank other = refusal_rank reason) refused)
      in SaveReport 422 ''excluded_path'' (excluded_message reason)
           (with_field (listed ps) ''reason'' (JStr (reason_name reason))))"

definition policy_rejected :: "path list \<Rightarrow> reject_reason \<Rightarrow> save_error" where
  "policy_rejected ps reason =
     SaveReport 422 ''policy_rejected'' ''these files are larger than a save may hold''
       (with_field (listed ps) ''reason'' (JStr (reason_name reason)))"

definition ignored_path :: "path list \<Rightarrow> save_error" where
  "ignored_path ps =
     SaveReport 422 ''ignored_path'' ''the space's .gitignore ignores these new files, so they are not saved''
       (JObj (listed ps))"

definition push_rejected :: save_error where
  "push_rejected = SaveReport 502 ''push_rejected'' ''the saved versions refused this change'' (JObj [])"

definition idempotency_conflict :: save_error where
  "idempotency_conflict =
     SaveReport 409 ''idempotency_conflict'' ''this import key was already used for a different request'' (JObj [])"

definition rev_not_on_main :: "string option \<Rightarrow> save_error" where
  "rev_not_on_main head =
     SaveReport 409 ''rev_not_on_main'' ''that version is not part of the saved history''
       (JObj [(''head'', head_field head)])"

definition revert_conflict :: "string \<Rightarrow> path list \<Rightarrow> save_error" where
  "revert_conflict head ps =
     SaveReport 409 ''revert_conflict''
       ''later changes touch the same lines; this version cannot be reverted automatically''
       (with_field (listed ps) ''head'' (JStr head))"

definition restore_conflict :: "string option \<Rightarrow> path list \<Rightarrow> save_error" where
  "restore_conflict head ps =
     SaveReport 409 ''restore_conflict'' ''the saved version changed these files too; choose a version for each''
       (with_field (listed_up_to ps max_restore_keep_paths) ''head'' (head_field head))"

definition recovery_ref_moved :: "string option \<Rightarrow> save_error" where
  "recovery_ref_moved tip =
     SaveReport 409 ''recovery_ref_moved''
       ''this unsaved work changed since it was listed; refresh and try again'' (JObj [(''rev'', head_field tip)])"

definition hook_refusal_answer :: "path \<Rightarrow> reject_reason \<Rightarrow> save_error" where
  "hook_refusal_answer p reason =
     (case reason of
        TooLarge \<Rightarrow> policy_rejected [p] TooLarge
      | Unsupported \<Rightarrow> unsupported_entry [p]
      | other \<Rightarrow> excluded_path [(p, other)])"

end
