(* ===== verification/Hosted_Change.thy ===== *)
theory Hosted_Change
  imports Restore_Plan Save_Answers
begin

text \<open>
  What a change does to a space's \<open>main\<close> (\<open>origin-http-server/src/hosted/change.rs\<close> and
  restore.rs): an upload (files written and paths deleted, with what the client read), the revert
  of a saved commit, or the restore of unsaved work. Each builds the new tree from \<open>main\<close> and
  refuses what cannot be saved as asked.

  Beside \<open>git_tool\<close> a save asks git a few things more; \<open>portable_key\<close> and \<open>git check-ignore\<close>
  are the arguments of \<open>Restore_Plan\<close>, kept here in the same record. Why a git command failed is
  not part of the model: its failure is an internal error.
\<close>

section \<open>What a save asks of git\<close>

record 'i save_git =
  sg_git :: "'i git_tool"
  sg_readable :: "string \<Rightarrow> bool option" \<comment> \<open>whether a revision is a commit of this space\<close>
  sg_is_ancestor :: "string \<Rightarrow> string \<Rightarrow> bool option"
  sg_hash_files :: "string list \<Rightarrow> string option" \<comment> \<open>hash-object -w --stdin-paths, trimmed at the end\<close>
  sg_ls_tree_below :: "string \<Rightarrow> string option" \<comment> \<open>ls-tree -r -z of a tree\<close>
  sg_empty_index :: 'i \<comment> \<open>an index file that is not there yet\<close>
  sg_portable_key :: "string \<Rightarrow> string"
  sg_check_ignore :: check_ignore

definition and_then :: "'e + 'a \<Rightarrow> ('a \<Rightarrow> 'e + 'b) \<Rightarrow> 'e + 'b" where
  "and_then x f = (case x of Inl e \<Rightarrow> Inl e | Inr a \<Rightarrow> f a)"

definition or_internal :: "'a option \<Rightarrow> save_error + 'a" where
  "or_internal x = (case x of Some a \<Rightarrow> Inr a | None \<Rightarrow> Inl (internal_error ''git failed''))"

section \<open>Tree lookups\<close>

type_synonym entries = "(path \<times> tree_entry) list"

definition full_listing_above :: nat where "full_listing_above = 2000"

definition entries_at :: "'i git_tool \<Rightarrow> string \<Rightarrow> path list \<Rightarrow> entries option" where
  "entries_at g commit ps =
     (if ps = [] then Some []
      else if full_listing_above < length ps
      then map_option (\<lambda>raw. fold (\<lambda>e m. if te_path e \<in> set ps then btree_insert (te_path e) e m else m)
                         (parse_ls_tree raw) [])
             (gt_ls_tree_all g commit)
      else entries_by_path g commit ps)"

definition entries_of :: "'i git_tool \<Rightarrow> string option \<Rightarrow> path list \<Rightarrow> entries option" where
  "entries_of g main ps = (case main of Some m \<Rightarrow> entries_at g m ps | None \<Rightarrow> Some [])"

definition entries_below :: "'i save_git \<Rightarrow> string \<Rightarrow> path list \<Rightarrow> path list option" where
  "entries_below sg commit folders =
     Option.bind (entries_by_path (sg_git sg) commit folders) (\<lambda>found.
       try_fold (\<lambda>folder below.
         case map_of found folder of
           Some e \<Rightarrow>
             if is_folder_entry e
             then map_option (\<lambda>raw. below @ map (\<lambda>x. folder @ ''/'' @ te_path x) (parse_ls_tree raw))
                    (sg_ls_tree_below sg (te_oid e))
             else Some below
         | None \<Rightarrow> Some below) folders [])"

definition differs :: "tree_entry option \<Rightarrow> tree_entry option \<Rightarrow> bool" where
  "differs a b =
     (case (a, b) of
        (None, None) \<Rightarrow> False
      | (Some a, Some b) \<Rightarrow>
          if is_folder_entry a \<and> is_folder_entry b then False
          else te_mode a \<noteq> te_mode b \<or> te_oid a \<noteq> te_oid b
      | _ \<Rightarrow> True)"

text \<open>The touched paths that \<open>main\<close> holds differently from \<open>base\<close>, or that lie in a folder that does.\<close>

definition moved_since :: "'i git_tool \<Rightarrow> string \<Rightarrow> string option \<Rightarrow> path list \<Rightarrow> path list option" where
  "moved_since g base main touched =
     (let compared = sort_dedup (concat (map (\<lambda>p. p # slash_prefixes p) touched))
      in Option.bind (entries_at g base compared) (\<lambda>at_base.
         map_option (\<lambda>at_main.
             sort_dedup (filter (\<lambda>p. list_ex (\<lambda>q. differs (map_of at_base q) (map_of at_main q)) (p # slash_prefixes p))
               touched))
           (entries_of g main compared)))"

section \<open>Uploads\<close>

record staged_file =
  sf_path :: path
  sf_staged_name :: string
  sf_size :: nat
  sf_executable :: bool

record attempt =
  am_main_entries :: entries
  am_touched :: "path list"
  am_swapped :: "path list"

record edits =
  ed_files :: "staged_file list"
  ed_deletes :: "path list"
  ed_base_rev :: "string option"
  ed_expected :: "(path \<times> string option) list"
  ed_import :: bool
  ed_add_ignored :: bool
  ed_blobs :: "(path \<times> string) list option"
  ed_skipped :: "(path \<times> reject_reason) list"
  ed_attempt :: "attempt option"

definition kept_files :: "edits \<Rightarrow> staged_file list" where
  "kept_files e = filter (\<lambda>f. map_of (ed_skipped e) (sf_path f) = None) (ed_files e)"

definition edits_kept :: "edits \<Rightarrow> nat \<times> nat" where
  "edits_kept e =
     fold (\<lambda>f (count, bytes). (count + 1, min (2 ^ 64 - 1) (bytes + sf_size f))) (kept_files e) (0, 0)"

definition edits_writes :: "edits \<Rightarrow> path \<Rightarrow> bool" where
  "edits_writes e p \<longleftrightarrow> list_ex (\<lambda>f. sf_path f = p) (ed_files e)"

definition full_object_id :: "string \<Rightarrow> bool" where
  "full_object_id v \<longleftrightarrow> (length v = 40 \<or> length v = 64) \<and> list_all is_ascii_hexdigit v"

definition hash_files :: "'i save_git \<Rightarrow> edits \<Rightarrow> save_error + (path \<times> string) list" where
  "hash_files sg e =
     (if kept_files e = [] then Inr []
      else if list_ex (\<lambda>f. has_control (sf_staged_name f)) (kept_files e) then Inl (internal_error ''unusable staging path'')
      else
        and_then (or_internal (sg_hash_files sg (map sf_staged_name (kept_files e)))) (\<lambda>out.
          let blobs = text_lines out
          in if length blobs \<noteq> length (kept_files e) \<or> \<not> list_all full_object_id blobs
             then Inl (internal_error ''hash-object printed other ids'')
             else Inr (zip (map sf_path (kept_files e)) blobs)))"

text \<open>An import leaves out what may never be saved.\<close>

definition skip_unsaveable :: "edits \<Rightarrow> edits" where
  "skip_unsaveable e =
     e\<lparr>ed_skipped := fold (\<lambda>f s.
          case unpublishable_reason (sf_path f) of
            Some reason \<Rightarrow> btree_insert (sf_path f) reason s
          | None \<Rightarrow> if max_publish_blob_bytes < sf_size f then btree_insert (sf_path f) TooLarge s else s)
        (ed_files e) (ed_skipped e)\<rparr>"

definition hash_once :: "'i save_git \<Rightarrow> edits \<Rightarrow> (save_error + (path \<times> string) list) \<times> edits" where
  "hash_once sg e =
     (case ed_blobs e of
        Some blobs \<Rightarrow> (Inr blobs, e)
      | None \<Rightarrow>
          (let e = (if ed_import e then skip_unsaveable e else e)
           in case hash_files sg e of
                Inl err \<Rightarrow> (Inl err, e)
              | Inr blobs \<Rightarrow> (Inr blobs, e\<lparr>ed_blobs := Some blobs\<rparr>)))"

type_synonym addition = "string \<times> string \<times> path" \<comment> \<open>mode, blob, path\<close>

definition writes_of :: "edits \<Rightarrow> (path \<times> string) list \<Rightarrow> (staged_file \<times> string) list" where
  "writes_of e blobs =
     List.map_filter (\<lambda>f. map_option (\<lambda>b. (f, b)) (map_of (rev blobs) (sf_path f))) (kept_files e)"

text \<open>The version the client read, when it can be compared with.\<close>

definition readable_base ::
  "'i save_git \<Rightarrow> edits \<Rightarrow> string option \<Rightarrow> (staged_file \<times> string) list \<Rightarrow> save_error + string option" where
  "readable_base sg e main writes =
     (case ed_base_rev e of
        None \<Rightarrow> Inr None
      | Some base \<Rightarrow>
          if Some base = main then Inr (Some base)
          else and_then (or_internal (sg_readable sg base)) (\<lambda>ok.
            if ok then Inr (Some base)
            else Inl (head_moved main (map (\<lambda>(f, _). sf_path f) writes @ ed_deletes e))))"

definition check_ignores :: "edits \<Rightarrow> bool" where
  "check_ignores e \<longleftrightarrow> \<not> ed_import e \<and> \<not> ed_add_ignored e"

definition wanted_paths :: "edits \<Rightarrow> (staged_file \<times> string) list \<Rightarrow> path list" where
  "wanted_paths e writes =
     sort_dedup
       (concat (map (\<lambda>(f, _). sf_path f # slash_prefixes (sf_path f)
                      @ (if check_ignores e then gitignores_for (sf_path f) else [])) writes)
        @ concat (map (\<lambda>d. d # slash_prefixes d) (ed_deletes e))
        @ map fst (ed_expected e))"

text \<open>What the writes amount to on \<open>main\<close>.\<close>

record write_scan =
  ws_unsupported :: "path list"
  ws_hidden_read :: "path list"
  ws_clashes :: "path list"
  ws_refused :: "(path \<times> reject_reason) list"
  ws_too_large :: "path list"
  ws_new_paths :: "path list"
  ws_additions :: "addition list"

definition no_scan :: write_scan where
  "no_scan = \<lparr>ws_unsupported = [], ws_hidden_read = [], ws_clashes = [], ws_refused = [], ws_too_large = [],
              ws_new_paths = [], ws_additions = []\<rparr>"

definition add_write :: "edits \<Rightarrow> staged_file \<Rightarrow> string \<Rightarrow> tree_entry option \<Rightarrow> write_scan \<Rightarrow> write_scan" where
  "add_write e f blob current s =
     (let p = sf_path f;
          mode = (if sf_executable f then ''100755'' else case current of Some c \<Rightarrow> te_mode c | None \<Rightarrow> ''100644'');
          changed = (case current of Some c \<Rightarrow> te_mode c \<noteq> mode \<or> te_oid c \<noteq> blob | None \<Rightarrow> True);
          s = (if changed \<and> \<not> ed_import e
               then
                 (let s = (if current = None \<and> check_ignores e then s\<lparr>ws_new_paths := ws_new_paths s @ [p]\<rparr> else s)
                  in case unpublishable_reason p of
                       Some reason \<Rightarrow> s\<lparr>ws_refused := ws_refused s @ [(p, reason)]\<rparr>
                     | None \<Rightarrow>
                         if max_publish_blob_bytes < sf_size f then s\<lparr>ws_too_large := ws_too_large s @ [p]\<rparr> else s)
               else s)
      in s\<lparr>ws_additions := ws_additions s @ [(mode, blob, p)]\<rparr>)"

definition scan_write :: "edits \<Rightarrow> entries \<Rightarrow> staged_file \<times> string \<Rightarrow> write_scan \<Rightarrow> write_scan" where
  "scan_write e at_main w s =
     (case w of (f, blob) \<Rightarrow>
        (let p = sf_path f; current = map_of at_main p
         in if (case current of Some c \<Rightarrow> is_folder_entry c | None \<Rightarrow> False)
            then s\<lparr>ws_clashes := ws_clashes s @ [p]\<rparr>
            else if (case current of Some c \<Rightarrow> \<not> is_regular (te_mode c) | None \<Rightarrow> False)
            then (if map_of (ed_expected e) p \<noteq> None then s\<lparr>ws_hidden_read := ws_hidden_read s @ [p]\<rparr>
                  else s\<lparr>ws_unsupported := ws_unsupported s @ [p]\<rparr>)
            else if list_ex (\<lambda>q. case map_of at_main q of Some c \<Rightarrow> \<not> is_folder_entry c | None \<Rightarrow> False) (slash_prefixes p)
            then s\<lparr>ws_clashes := ws_clashes s @ [p]\<rparr>
            else add_write e f blob current s))"

text \<open>The deletes: a folder stands for the files it held at the version the client read.\<close>

record delete_scan =
  ds_needs_base :: "path list"
  ds_folders :: "path list"
  ds_removals :: "path list"

definition scan_delete :: "edits \<Rightarrow> string option \<Rightarrow> entries \<Rightarrow> path \<Rightarrow> delete_scan \<Rightarrow> delete_scan" where
  "scan_delete e base looked_up d s =
     (case map_of looked_up d of
        Some entry \<Rightarrow>
          if is_folder_entry entry
          then if base = None \<and> \<not> ed_import e then s\<lparr>ds_needs_base := ds_needs_base s @ [d]\<rparr>
               else s\<lparr>ds_folders := ds_folders s @ [d]\<rparr>
          else s\<lparr>ds_removals := ds_removals s @ [d]\<rparr>
      | None \<Rightarrow> s\<lparr>ds_removals := ds_removals s @ [d]\<rparr>)"

definition swapped_deletes :: "edits \<Rightarrow> entries \<Rightarrow> path list \<Rightarrow> path list" where
  "swapped_deletes e at_main folders =
     filter (\<lambda>d. case map_of at_main d of
                   Some entry \<Rightarrow> is_folder_entry entry \<noteq> (d \<in> set folders) | None \<Rightarrow> False) (ed_deletes e)"

text \<open>The paths the client read something at that hold a link or a submodule: those where reading
  again shows something new, and those where it does not.\<close>

definition split_hidden ::
  "'i save_git \<Rightarrow> edits \<Rightarrow> string option \<Rightarrow> string option \<Rightarrow> entries \<Rightarrow> path list \<Rightarrow> save_error + (path list \<times> path list)" where
  "split_hidden sg e base main at_main hidden =
     (if hidden = [] then Inr ([], [])
      else if ed_add_ignored e then Inr (hidden, [])
      else case base of
        None \<Rightarrow> Inr (hidden, [])
      | Some b \<Rightarrow>
          if Some b = main then Inr ([], hidden)
          else and_then (or_internal (entries_at (sg_git sg) b (sort_dedup hidden))) (\<lambda>at_base.
            Inr (partition (\<lambda>p. differs (map_of at_base p) (map_of at_main p)) hidden)))"

definition ignore_rules :: "path list \<Rightarrow> addition list \<Rightarrow> path list \<Rightarrow> entries \<Rightarrow> (path \<times> string) list" where
  "ignore_rules ps additions removals at_main =
     fold (\<lambda>candidate rules.
        if map_of rules candidate \<noteq> None then rules
        else
          case (case map_of (rev (map (\<lambda>(mode, oid, p). (p, mode, oid)) additions)) candidate of
                  Some (mode, oid) \<Rightarrow> if is_regular mode then Some oid else None
                | None \<Rightarrow>
                    if candidate \<in> set removals then None
                    else (case map_of at_main candidate of
                            Some entry \<Rightarrow> if is_regular (te_mode entry) then Some (te_oid entry) else None
                          | None \<Rightarrow> None)) of
            Some blob \<Rightarrow> btree_insert candidate blob rules
          | None \<Rightarrow> rules)
       (concat (map gitignores_for ps)) []"

definition ignored_paths ::
  "'i save_git \<Rightarrow> path list \<Rightarrow> addition list \<Rightarrow> path list \<Rightarrow> entries \<Rightarrow> save_error + path list" where
  "ignored_paths sg ps additions removals at_main =
     or_internal (check_ignored (sg_git sg) (sg_check_ignore sg) (ignore_rules ps additions removals at_main) ps)"

definition save_info :: "string option \<Rightarrow> path list \<Rightarrow> addition list \<Rightarrow> info_line list" where
  "save_info main removals additions =
     (let zero = zero_oid (case main of Some m \<Rightarrow> m
                           | None \<Rightarrow> (case additions of (_, oid, _) # _ \<Rightarrow> oid | [] \<Rightarrow> []))
      in map (Remove zero) removals @ map (\<lambda>(mode, oid, p). Put mode oid p) additions)"

definition build_tree :: "'i save_git \<Rightarrow> string option \<Rightarrow> path list \<Rightarrow> addition list \<Rightarrow> string option" where
  "build_tree sg main removals additions =
     Option.bind (case main of Some m \<Rightarrow> gt_read_tree (sg_git sg) m | None \<Rightarrow> Some (sg_empty_index sg)) (\<lambda>i.
     Option.bind (if save_info main removals additions = [] then Some i
                  else gt_update_index (sg_git sg) i (save_info main removals additions))
       (gt_write_tree (sg_git sg)))"

text \<open>The first refusal of a scanned upload, in the order of the code.\<close>

definition scan_refusal ::
  "string option \<Rightarrow> path list \<Rightarrow> path list \<Rightarrow> write_scan \<Rightarrow> delete_scan \<Rightarrow> save_error option" where
  "scan_refusal main unmatched unsupported ws ds =
     (if unmatched \<noteq> [] then Some (head_moved main unmatched)
      else if unsupported \<noteq> [] then Some (unsupported_entry unsupported)
      else if ds_needs_base ds \<noteq> [] then Some (delete_requires_base_rev (ds_needs_base ds))
      else if ws_clashes ws \<noteq> [] then Some (path_type_conflict main (ws_clashes ws))
      else None)"

text \<open>The removals of an upload: its deleted files, and the files below its deleted folders.\<close>

definition removals_of ::
  "'i save_git \<Rightarrow> string option \<Rightarrow> string option \<Rightarrow> entries option \<Rightarrow> delete_scan \<Rightarrow> path list option" where
  "removals_of sg base main at_base_deletes ds =
     (case (if at_base_deletes \<noteq> None then base else main) of
        Some commit \<Rightarrow>
          if ds_folders ds = [] then Some (ds_removals ds)
          else map_option (\<lambda>below. ds_removals ds @ below) (entries_below sg commit (ds_folders ds))
      | None \<Rightarrow> Some (ds_removals ds))"

text \<open>Everything the code learns before it decides.\<close>

record upload_view =
  uv_at_main :: entries
  uv_scan :: write_scan
  uv_deletes :: delete_scan
  uv_removals :: "path list"
  uv_refused :: "(path \<times> reject_reason) list"
  uv_unmatched :: "path list"
  uv_unsupported :: "path list"

definition view_upload ::
  "'i save_git \<Rightarrow> edits \<Rightarrow> string option \<Rightarrow> string option \<Rightarrow> (staged_file \<times> string) list \<Rightarrow> save_error + upload_view" where
  "view_upload sg e main base writes =
     and_then (or_internal (entries_of (sg_git sg) main (wanted_paths e writes))) (\<lambda>at_main.
       let ws = fold (scan_write e at_main) writes no_scan
       in and_then
            (case base of
               Some b \<Rightarrow>
                 if base \<noteq> main \<and> ed_deletes e \<noteq> []
                 then and_then (or_internal (entries_at (sg_git sg) b (sort_dedup (ed_deletes e)))) (\<lambda>x. Inr (Some x))
                 else Inr None
             | None \<Rightarrow> Inr None) (\<lambda>at_base_deletes.
          let ds = fold (scan_delete e base (case at_base_deletes of Some x \<Rightarrow> x | None \<Rightarrow> at_main)) (ed_deletes e)
                     \<lparr>ds_needs_base = [], ds_folders = [], ds_removals = []\<rparr>
          in and_then (or_internal (removals_of sg base main at_base_deletes ds)) (\<lambda>removals.
             and_then (split_hidden sg e base main at_main (ws_hidden_read ws)) (\<lambda>(unmatched, same).
               Inr \<lparr>uv_at_main = at_main, uv_scan = ws, uv_deletes = ds, uv_removals = removals,
                    uv_refused = ws_refused ws @ map (\<lambda>p. (p, Excluded)) (filter (\<lambda>p. \<not> deletion_allowed p) removals),
                    uv_unmatched = unmatched, uv_unsupported = ws_unsupported ws @ same\<rparr>))))"

definition upload_tree ::
  "'i save_git \<Rightarrow> edits \<Rightarrow> string option \<Rightarrow> upload_view \<Rightarrow> save_error + string" where
  "upload_tree sg e main v =
     (let ws = uv_scan v
      in case scan_refusal main (uv_unmatched v) (uv_unsupported v) ws (uv_deletes v) of
           Some err \<Rightarrow> Inl err
         | None \<Rightarrow>
             and_then (if ws_new_paths ws = [] then Inr []
                       else ignored_paths sg (ws_new_paths ws) (ws_additions ws) (uv_removals v) (uv_at_main v)) (\<lambda>ignored.
               if ignored \<noteq> [] then Inl (ignored_path ignored)
               else if uv_refused v \<noteq> [] then Inl (excluded_path (uv_refused v))
               else if ws_too_large ws \<noteq> [] then Inl (policy_rejected (ws_too_large ws) TooLarge)
               else
                 and_then (or_internal (build_tree sg main (uv_removals v) (ws_additions ws))) (\<lambda>tree.
                   if check_ignores e
                   then
                     and_then (or_internal (aliases_in (sg_git sg) (sg_portable_key sg) tree
                       (filter (\<lambda>p. map_of (uv_at_main v) p = None) (map (snd \<circ> snd) (ws_additions ws))))) (\<lambda>aliases.
                     if aliases \<noteq> [] then Inl (path_alias_answer main aliases) else Inr tree)
                   else Inr tree)))"

definition edits_build :: "'i save_git \<Rightarrow> string option \<Rightarrow> edits \<Rightarrow> (save_error + string) \<times> edits" where
  "edits_build sg main e =
     (case hash_once sg e of
        (Inl err, e) \<Rightarrow> (Inl err, e)
      | (Inr blobs, e) \<Rightarrow>
          (let writes = writes_of e blobs
           in case and_then (readable_base sg e main writes) (\<lambda>base. view_upload sg e main base writes) of
                Inl err \<Rightarrow> (Inl err, e)
              | Inr v \<Rightarrow>
                  (case upload_tree sg e main v of
                     Inl err \<Rightarrow> (Inl err, e)
                   | Inr tree \<Rightarrow>
                       (Inr tree, e\<lparr>ed_attempt := Some
                          \<lparr>am_main_entries = uv_at_main v,
                           am_touched = map (snd \<circ> snd) (ws_additions (uv_scan v)) @ uv_removals v,
                           am_swapped = swapped_deletes e (uv_at_main v) (ds_folders (uv_deletes v))\<rparr>\<rparr>))))"

text \<open>What the client read must still be what \<open>main\<close> has.\<close>

definition held_text :: "tree_entry \<Rightarrow> string" where
  "held_text entry = (if is_regular (te_mode entry) then te_oid entry else te_mode entry @ '' '' @ te_oid entry)"

definition edits_stale :: "'i save_git \<Rightarrow> string option \<Rightarrow> edits \<Rightarrow> save_error + path list" where
  "edits_stale sg main e =
     (case ed_attempt e of
        None \<Rightarrow> Inl (internal_error ''a change was checked before it was built'')
      | Some a \<Rightarrow>
          (let stale = map fst (filter (\<lambda>(p, wanted). map_option held_text (map_of (am_main_entries a) p) \<noteq> wanted)
                                 (ed_expected e))
           in case ed_base_rev e of
                Some base \<Rightarrow>
                  if Some base = main then Inr (sort_dedup stale)
                  else and_then (or_internal (moved_since (sg_git sg) base main (am_touched a))) (\<lambda>moved.
                    Inr (sort_dedup (stale @ moved)))
              | None \<Rightarrow> Inr (sort_dedup stale)))"

definition edits_check :: "'i save_git \<Rightarrow> string option \<Rightarrow> edits \<Rightarrow> save_error + unit" where
  "edits_check sg main e =
     and_then (edits_stale sg main e) (\<lambda>stale. if stale = [] then Inr () else Inl (head_moved main stale))"

definition edits_settled :: "'i save_git \<Rightarrow> string option \<Rightarrow> edits \<Rightarrow> save_error + unit" where
  "edits_settled sg main e =
     (case ed_attempt e of
        None \<Rightarrow> Inl (internal_error ''a change was checked before it was built'')
      | Some a \<Rightarrow>
          if am_swapped a = [] then Inr ()
          else and_then (edits_stale sg main e) (\<lambda>stale. Inl (head_moved main (sort_dedup (stale @ am_swapped a)))))"

section \<open>Reverts\<close>

record revert =
  rv_commit :: string
  rv_base :: string

definition revert_build :: "'i save_git \<Rightarrow> string option \<Rightarrow> revert \<Rightarrow> save_error + string" where
  "revert_build sg main r =
     (case main of
        None \<Rightarrow> Inl (rev_not_on_main None)
      | Some m \<Rightarrow>
          and_then (or_internal (sg_is_ancestor sg (rv_commit r) m)) (\<lambda>on_main.
          if \<not> on_main then Inl (rev_not_on_main (Some m))
          else
            and_then (or_internal (three_way (sg_git sg) (Some (rv_commit r)) m (rv_base r))) (\<lambda>merged.
            if mr_conflicts merged \<noteq> [] then Inl (revert_conflict m (mr_conflicts merged))
            else
              and_then (or_internal (gt_diff_raw (sg_git sg) m (mr_tree merged))) (\<lambda>raw.
              let changes = parse_raw_changes raw;
                  refused = List.map_filter (\<lambda>c.
                      if is_deleted c
                      then (if deletion_allowed (rc_path c) then None else Some (rc_path c, Excluded))
                      else map_option (\<lambda>reason. (rc_path c, reason)) (unpublishable_reason (rc_path c))) changes;
                  added = map rc_path (filter (\<lambda>c. \<not> is_deleted c \<and> unpublishable_reason (rc_path c) = None
                                                 \<and> rc_status c = CHR ''A'') changes)
              in if refused \<noteq> [] then Inl (excluded_path refused)
                 else and_then (or_internal (aliases_in (sg_git sg) (sg_portable_key sg) (mr_tree merged) added)) (\<lambda>aliases.
                   if aliases \<noteq> [] then Inl (path_alias_answer (Some m) aliases) else Inr (mr_tree merged))))))"

section \<open>Restores\<close>

record hosted_restore =
  hr_commit :: string
  hr_keep :: path_roots
  hr_base_rev :: "string option"
  hr_shard_refused :: "(path \<times> reject_reason) list"
  hr_not_restored :: "not_restored list"
  hr_lets_ref_go :: bool
  hr_marks_restored :: bool
  hr_touched :: "path list option"

definition new_restore :: "string \<Rightarrow> path list \<Rightarrow> string option \<Rightarrow> hosted_restore" where
  "new_restore commit keep base_rev =
     \<lparr>hr_commit = commit, hr_keep = roots_of keep, hr_base_rev = base_rev, hr_shard_refused = [],
      hr_not_restored = [], hr_lets_ref_go = True, hr_marks_restored = True, hr_touched = None\<rparr>"

definition left_out_unsaveable :: "hosted_restore \<Rightarrow> bool" where
  "left_out_unsaveable r \<longleftrightarrow> \<not> hr_lets_ref_go r"

definition partial_restore_commit_message :: string where
  "partial_restore_commit_message = ''Restore part of unsaved work'' @ [newline]"

definition restore_message :: "hosted_restore \<Rightarrow> string \<Rightarrow> string" where
  "restore_message r message = (if hr_marks_restored r then message else partial_restore_commit_message)"

definition restore_build :: "'i save_git \<Rightarrow> string option \<Rightarrow> hosted_restore \<Rightarrow> (save_error + string) \<times> hosted_restore" where
  "restore_build sg main r =
     (case plan (sg_git sg) (sg_portable_key sg) (sg_check_ignore sg)
             \<lparr>ri_onto = main, ri_saved = hr_commit r, ri_keep = hr_keep r, ri_refused_before = hr_shard_refused r\<rparr> of
        Inl (Conflict ps) \<Rightarrow> (Inl (restore_conflict main ps), r)
      | Inl Failed \<Rightarrow> (Inl (internal_error ''the restore failed''), r)
      | Inr pl \<Rightarrow>
          (case changed_paths (sg_git sg) (rp_onto_tree pl) (rp_tree pl) of
             None \<Rightarrow> (Inl (internal_error ''git failed''), r)
           | Some touched \<Rightarrow>
               (Inr (rp_tree pl),
                r\<lparr>hr_touched := Some touched, hr_lets_ref_go := lets_ref_go pl,
                  hr_marks_restored := marks_restored pl, hr_not_restored := rp_not_restored pl\<rparr>)))"

definition restore_check :: "'i save_git \<Rightarrow> string option \<Rightarrow> hosted_restore \<Rightarrow> save_error + unit" where
  "restore_check sg main r =
     (case hr_touched r of
        None \<Rightarrow> Inl (internal_error ''a restore was checked before it was built'')
      | Some touched \<Rightarrow>
          (case hr_base_rev r of
             None \<Rightarrow> Inr ()
           | Some base \<Rightarrow>
               if Some base = main then Inr ()
               else and_then (or_internal (sg_readable sg base)) (\<lambda>ok.
                 if \<not> ok then Inl (head_moved main touched)
                 else and_then (or_internal (moved_since (sg_git sg) base main touched)) (\<lambda>moved.
                   if moved = [] then Inr () else Inl (head_moved main moved)))))"

definition restore_refused :: "path \<Rightarrow> reject_reason \<Rightarrow> hosted_restore \<Rightarrow> (save_error + unit) \<times> hosted_restore" where
  "restore_refused p reason r =
     (if map_of (hr_shard_refused r) p \<noteq> None then (Inl (hook_refusal_answer p reason), r)
      else (Inr (), r\<lparr>hr_shard_refused := btree_insert p reason (hr_shard_refused r)\<rparr>))"

section \<open>Changes\<close>

datatype change = EditsChange edits | RevertChange revert | RestoreChange hosted_restore

fun change_build :: "'i save_git \<Rightarrow> string option \<Rightarrow> change \<Rightarrow> (save_error + string) \<times> change" where
  "change_build sg main (EditsChange e) = map_prod id EditsChange (edits_build sg main e)"
| "change_build sg main (RevertChange r) = (revert_build sg main r, RevertChange r)"
| "change_build sg main (RestoreChange r) = map_prod id RestoreChange (restore_build sg main r)"

fun change_check :: "'i save_git \<Rightarrow> string option \<Rightarrow> change \<Rightarrow> save_error + unit" where
  "change_check sg main (EditsChange e) = edits_check sg main e"
| "change_check sg main (RevertChange r) = Inr ()"
| "change_check sg main (RestoreChange r) = restore_check sg main r"

fun change_settled :: "'i save_git \<Rightarrow> string option \<Rightarrow> change \<Rightarrow> save_error + unit" where
  "change_settled sg main (EditsChange e) = edits_settled sg main e"
| "change_settled sg main c = Inr ()"

fun change_message :: "change \<Rightarrow> string \<Rightarrow> string" where
  "change_message (RestoreChange r) message = restore_message r message"
| "change_message c message = message"

fun change_receipt_counts :: "change \<Rightarrow> (nat \<times> nat) option" where
  "change_receipt_counts (EditsChange e) = (if ed_import e then Some (edits_kept e) else None)"
| "change_receipt_counts c = None"

fun refuse_path :: "path \<Rightarrow> reject_reason \<Rightarrow> change \<Rightarrow> (save_error + unit) \<times> change" where
  "refuse_path p reason (EditsChange e) =
     (if ed_import e \<and> edits_writes e p
      then (Inr (), EditsChange (e\<lparr>ed_skipped := btree_insert p reason (ed_skipped e)\<rparr>))
      else (Inl (hook_refusal_answer p reason), EditsChange e))"
| "refuse_path p reason (RestoreChange r) = map_prod id RestoreChange (restore_refused p reason r)"
| "refuse_path p reason (RevertChange r) = (Inl (hook_refusal_answer p reason), RevertChange r)"

end
