(* ===== verification/Hosted_Cas.thy ===== *)
theory Hosted_Cas
  imports Push_Class Hosted_Change
begin

text \<open>
  Saves on the hosted gateway (\<open>origin-http-server/src/hosted/cas.rs\<close>): every change becomes one
  commit on canonical \<open>main\<close>. An attempt fetches \<open>main\<close>, builds the new tree, commits and
  pushes it as a fast-forward; a lost race starts the next attempt.

  What an attempt asks of the mirror, of canonical and of the clock is the record \<open>save_env\<close>,
  whose operations take and return the state of the world.
\<close>

section \<open>Messages and keys\<close>

definition max_attempts :: nat where "max_attempts = 5"

definition default_message :: "path list \<Rightarrow> path list \<Rightarrow> string" where
  "default_message files deletes =
     (case (files, deletes) of
        ([f], []) \<Rightarrow> ''Update '' @ f
      | ([], [d]) \<Rightarrow> ''Delete '' @ d
      | _ \<Rightarrow> ''Update '' @ show_nat (length files + length deletes) @ '' files'')"

record apply_key =
  ak_key :: string
  ak_fingerprint :: "string option"

definition apply_key_trailer :: string where "apply_key_trailer = ''Instafy-Apply-Key''"
definition apply_fingerprint_trailer :: string where "apply_fingerprint_trailer = ''Instafy-Apply-Fingerprint''"
definition apply_files_trailer :: string where "apply_files_trailer = ''Instafy-Apply-Files''"
definition apply_bytes_trailer :: string where "apply_bytes_trailer = ''Instafy-Apply-Bytes''"

definition full_message :: "string \<Rightarrow> apply_key option \<Rightarrow> (nat \<times> nat) option \<Rightarrow> string" where
  "full_message message key counts =
     trim_end message @ [newline]
     @ (case key of
          None \<Rightarrow> []
        | Some k \<Rightarrow>
            [newline] @ apply_key_trailer @ '': '' @ ak_key k @ [newline]
            @ (case ak_fingerprint k of
                 None \<Rightarrow> []
               | Some fingerprint \<Rightarrow> apply_fingerprint_trailer @ '': '' @ fingerprint @ [newline])
            @ (case counts of
                 None \<Rightarrow> []
               | Some (files, bytes) \<Rightarrow>
                   apply_files_trailer @ '': '' @ show_nat files @ [newline]
                   @ apply_bytes_trailer @ '': '' @ show_nat bytes @ [newline]))"

definition credential_refused :: "string \<Rightarrow> bool" where
  "credential_refused detail \<longleftrightarrow>
     list_ex (contains_str (to_ascii_lowercase detail))
       [''unable to get password'', ''could not read username'', ''could not read password'',
        ''terminal prompts disabled'', ''authentication failed'', ''requested url returned error: 401'']"

section \<open>Imports already committed\<close>

record applied_import =
  ai_commit :: string
  ai_parent :: "string option"
  ai_fingerprint :: "string option"
  ai_counts :: "(nat \<times> nat) option"

definition apply_key_byte :: "char \<Rightarrow> bool" where
  "apply_key_byte c \<longleftrightarrow> is_ascii_alphanumeric c \<or> is_ascii_uppercase c \<or> c \<in> {CHR '':'', CHR ''.'', CHR ''_'', CHR ''-''}"

text \<open>\<open>split\<close> at every occurrence of a text, and \<open>split_whitespace\<close>.\<close>

fun split_once_str :: "'a list \<Rightarrow> 'a list \<Rightarrow> ('a list \<times> 'a list) option" where
  "split_once_str p [] = (if p = [] then Some ([], []) else None)"
| "split_once_str p (c # s) =
     (if starts_with (c # s) p then Some ([], drop (length p) (c # s))
      else map_option (\<lambda>(a, b). (c # a, b)) (split_once_str p s))"

lemma split_once_str_length: "split_once_str p s = Some (a, b) \<Longrightarrow> p \<noteq> [] \<Longrightarrow> length b < length s"
proof (induction s arbitrary: a)
  case (Cons c s)
  then show ?case by (cases p) (auto split: if_splits)
qed (auto split: if_splits)

function split_str :: "'a list \<Rightarrow> 'a list \<Rightarrow> 'a list list" where
  "split_str p s =
     (case (if p = [] then None else split_once_str p s) of
        None \<Rightarrow> [s] | Some (a, b) \<Rightarrow> a # split_str p b)"
  by pat_completeness auto
termination
  by (relation "measure (\<lambda>(_, s). length s)") (auto dest: split_once_str_length split: if_splits)

declare split_str.simps [simp del]

fun first_word :: "string \<Rightarrow> string" where
  "first_word [] = []"
| "first_word (c # s) = (if ws_head (c # s) \<noteq> 0 then [] else c # first_word s)"

definition first_value :: "string \<Rightarrow> string option" where
  "first_value values = find (\<lambda>v. v \<noteq> []) (map trim_str (text_lines values))"

definition applied_record :: "string \<Rightarrow> nat \<Rightarrow> string \<Rightarrow> string list \<Rightarrow> applied_import option" where
  "applied_record email oldest key parts =
     (case parts of
        [commit, parents, committer, committed_at, ks, fingerprints, files, bytes] \<Rightarrow>
          if \<not> full_object_id commit \<or> \<not> eq_ignore_ascii_case committer email then None
          else if \<not> (case parse_usize (trim_str committed_at) of Some stamp \<Rightarrow> oldest \<le> stamp | None \<Rightarrow> False) then None
          else if \<not> list_ex (\<lambda>v. trim_str v = key) (text_lines ks) then None
          else Some
            \<lparr>ai_commit = commit,
             ai_parent = (let w = first_word (trim_start parents)
                          in if w \<noteq> [] \<and> full_object_id w then Some w else None),
             ai_fingerprint = first_value fingerprints,
             ai_counts = (case (Option.bind (first_value files) parse_usize, Option.bind (first_value bytes) parse_usize) of
                            (Some f, Some b) \<Rightarrow> Some (f, b) | _ \<Rightarrow> None)\<rparr>
      | _ \<Rightarrow> None)"

definition frame_of :: "char \<Rightarrow> string \<Rightarrow> string" where
  "frame_of c token = [c] @ token @ [c]"

definition applied_in :: "string \<Rightarrow> string \<Rightarrow> nat \<Rightarrow> string \<Rightarrow> string \<Rightarrow> applied_import option" where
  "applied_in token email oldest key raw =
     (case List.map_filter (\<lambda>r. applied_record email oldest key (split_str (frame_of (CHR 0x1F) token) (trim_str r)))
             (split_str (frame_of (CHR 0x1E) token) raw) of
        x # _ \<Rightarrow> Some x | [] \<Rightarrow> None)"

definition apply_key_window :: nat where "apply_key_window = 31 * 24 * 3600"

text \<open>The size of what a commit added or changed, from the raw diff and the sizes of its blobs.\<close>

definition max_u64 :: nat where "max_u64 = 2 ^ 64 - 1"

definition applied_size_of :: "'i git_tool \<Rightarrow> string \<Rightarrow> (nat \<times> nat) option" where
  "applied_size_of g raw =
     (let blobs = map rc_new_oid
            (filter (\<lambda>c. rc_status c \<noteq> CHR ''D'' \<and> rc_new_mode c \<noteq> ''160000'') (parse_raw_changes raw))
      in map_option (\<lambda>sizes.
           (length blobs, fold (\<lambda>s total. case s of Some (_, n) \<Rightarrow> min max_u64 (total + n) | None \<Rightarrow> total) sizes 0))
           (object_sizes g blobs))"

section \<open>The world and the change\<close>

record ('w, 'i) save_env =
  se_fetch_main :: "'w \<Rightarrow> (save_error + string option) \<times> 'w"
  se_write_token :: "'w \<Rightarrow> (save_error + string option) \<times> 'w"
  se_token_refused :: "'w \<Rightarrow> 'w"
  se_pushed :: "string \<Rightarrow> string option \<Rightarrow> bool \<Rightarrow> 'w \<Rightarrow> 'w"
  se_grew :: "'w \<Rightarrow> 'w"
  se_git :: "'w \<Rightarrow> 'i save_git"
  se_log :: "'w \<Rightarrow> string \<Rightarrow> string \<Rightarrow> (string \<times> string) option"
    \<comment> \<open>the log of \<open>main\<close> for a committer and a key: the frame's token and what git printed\<close>
  se_diff_root :: "'w \<Rightarrow> string \<Rightarrow> string option" \<comment> \<open>diff-tree --root --no-commit-id\<close>
  se_now :: "'w \<Rightarrow> nat" \<comment> \<open>seconds since the epoch\<close>
  se_past_deadline :: "'w \<Rightarrow> bool"
  se_commit_tree :: "string \<Rightarrow> string list \<Rightarrow> string \<Rightarrow> 'w \<Rightarrow> string option \<times> 'w"
  se_push :: "string \<Rightarrow> bool \<Rightarrow> string option \<Rightarrow> 'w \<Rightarrow> (string + push_class) \<times> 'w"
    \<comment> \<open>the commit, whether it may only create the ref, the credential; or why git did not run\<close>
  se_promote :: "'w \<Rightarrow> bool \<times> 'w"
  se_jitter :: "nat \<Rightarrow> 'w \<Rightarrow> 'w"
  se_email :: string \<comment> \<open>the gateway's\<close>

record cas_outcome =
  oc_rev :: "string option"
  oc_base_rev :: "string option"
  oc_committed :: bool
  oc_replayed :: bool
  oc_receipt :: "(nat \<times> nat) option"

definition find_applied :: "('w, 'i) save_env \<Rightarrow> 'w \<Rightarrow> string option \<Rightarrow> string \<Rightarrow> save_error + applied_import option" where
  "find_applied e w main key =
     (case main of
        None \<Rightarrow> Inr None
      | Some m \<Rightarrow>
          if \<not> list_all apply_key_byte key then Inl (SaveBadRequest ''invalid idempotencyKey'')
          else case se_log e w m key of
            None \<Rightarrow> Inl (internal_error ''git log failed'')
          | Some (token, raw) \<Rightarrow> Inr (applied_in token (se_email e) (se_now e w - apply_key_window) key raw))"

definition applied_size :: "('w, 'i) save_env \<Rightarrow> 'w \<Rightarrow> applied_import \<Rightarrow> save_error + (nat \<times> nat)" where
  "applied_size e w a =
     (case Option.bind (case ai_parent a of
              Some p \<Rightarrow> gt_diff_raw (sg_git (se_git e w)) p (ai_commit a) | None \<Rightarrow> se_diff_root e w (ai_commit a))
           (applied_size_of (sg_git (se_git e w))) of
        Some counts \<Rightarrow> Inr counts | None \<Rightarrow> Inl (internal_error ''git diff-tree failed''))"

definition receipt_counts :: "('w, 'i) save_env \<Rightarrow> 'w \<Rightarrow> applied_import \<Rightarrow> save_error + (nat \<times> nat)" where
  "receipt_counts e w a = (case ai_counts a of Some counts \<Rightarrow> Inr counts | None \<Rightarrow> applied_size e w a)"

text \<open>The answer to an import that \<open>main\<close> already holds, if it does.\<close>

definition replay ::
  "('w, 'i) save_env \<Rightarrow> 'w \<Rightarrow> string option \<Rightarrow> apply_key option \<Rightarrow> save_error + cas_outcome option" where
  "replay e w main key =
     (case key of
        None \<Rightarrow> Inr None
      | Some k \<Rightarrow>
          (case find_applied e w main (ak_key k) of
             Inl err \<Rightarrow> Inl err
           | Inr None \<Rightarrow> Inr None
           | Inr (Some a) \<Rightarrow>
               if ai_fingerprint a \<noteq> ak_fingerprint k then Inl idempotency_conflict
               else
                 (case receipt_counts e w a of
                    Inl err \<Rightarrow> Inl err
                  | Inr receipt \<Rightarrow>
                      Inr (Some \<lparr>oc_rev = Some (ai_commit a), oc_base_rev = ai_parent a, oc_committed = True,
                                 oc_replayed = True, oc_receipt = Some receipt\<rparr>))))"

section \<open>One attempt\<close>

datatype 'r step = Answered "save_error + cas_outcome" | Going 'r

text \<open>Up to the commit: what is answered without one, or the commit and the \<open>main\<close> it is made on.\<close>

definition prepare ::
  "('w, 'i) save_env \<Rightarrow> apply_key option \<Rightarrow> string \<Rightarrow> change \<Rightarrow> 'w
   \<Rightarrow> (string \<times> string option) step \<times> change \<times> 'w" where
  "prepare e key message c w =
     (case se_fetch_main e w of
        (Inl err, w) \<Rightarrow> (Answered (Inl err), c, w)
      | (Inr main, w) \<Rightarrow>
          (case replay e w main key of
             Inl err \<Rightarrow> (Answered (Inl err), c, w)
           | Inr (Some outcome) \<Rightarrow> (Answered (Inr outcome), c, w)
           | Inr None \<Rightarrow>
               (case change_build (se_git e w) main c of
                  (Inl err, c) \<Rightarrow> (Answered (Inl err), c, w)
                | (Inr tree, c) \<Rightarrow>
                    (case (case main of Some m \<Rightarrow> gt_tree_id (sg_git (se_git e w)) m | None \<Rightarrow> gt_empty_tree (sg_git (se_git e w))) of
                       None \<Rightarrow> (Answered (Inl (internal_error ''git rev-parse failed'')), c, w)
                     | Some main_tree \<Rightarrow>
                         if tree = main_tree \<and> key = None
                         then (Answered (case change_settled (se_git e w) main c of
                                 Inl err \<Rightarrow> Inl err
                               | Inr _ \<Rightarrow> Inr \<lparr>oc_rev = main, oc_base_rev = main, oc_committed = False,
                                              oc_replayed = False, oc_receipt = None\<rparr>), c, w)
                         else
                           (case change_check (se_git e w) main c of
                              Inl err \<Rightarrow> (Answered (Inl err), c, w)
                            | Inr _ \<Rightarrow>
                                (case se_commit_tree e tree (case main of Some m \<Rightarrow> [m] | None \<Rightarrow> [])
                                        (full_message (change_message c message) key (change_receipt_counts c)) w of
                                   (None, w) \<Rightarrow> (Answered (Inl (internal_error ''git commit-tree failed'')), c, w)
                                 | (Some commit, w) \<Rightarrow> (Going (commit, main), c, w)))))))"

definition landed_outcome :: "string \<Rightarrow> string option \<Rightarrow> cas_outcome" where
  "landed_outcome commit main =
     \<lparr>oc_rev = Some commit, oc_base_rev = main, oc_committed = True, oc_replayed = False, oc_receipt = None\<rparr>"

text \<open>A push that ended without an answer: what \<open>main\<close> says now.\<close>

definition settle_push ::
  "('w, 'i) save_env \<Rightarrow> nat \<Rightarrow> string \<Rightarrow> string option \<Rightarrow> 'w \<Rightarrow> nat step \<times> 'w" where
  "settle_push e attempt commit main w =
     (case se_fetch_main e w of
        (Inl err, w) \<Rightarrow> (Answered (Inl err), w)
      | (Inr None, w) \<Rightarrow> (Going 0, se_jitter e attempt w)
      | (Inr (Some after), w) \<Rightarrow>
          (case sg_is_ancestor (se_git e w) commit after of
             None \<Rightarrow> (Answered (Inl (internal_error ''git merge-base failed'')), w)
           | Some True \<Rightarrow>
               (case se_promote e w of
                  (promoted, w) \<Rightarrow>
                    (Answered (Inr (landed_outcome commit main)), if promoted then se_grew e w else w))
           | Some False \<Rightarrow> (Going 0, se_jitter e attempt w)))"

text \<open>The push and what its class means; \<open>Going\<close> is the count of credentials refused in a row for the
  next attempt.\<close>

definition deliver ::
  "('w, 'i) save_env \<Rightarrow> nat \<Rightarrow> nat \<Rightarrow> string \<Rightarrow> string option \<Rightarrow> change \<Rightarrow> 'w
   \<Rightarrow> nat step \<times> change \<times> 'w" where
  "deliver e attempt refused_credentials commit main c w =
     (case se_write_token e w of
        (Inl err, w) \<Rightarrow> (Answered (Inl err), c, w)
      | (Inr token, w) \<Rightarrow>
          (case se_push e commit (main = None) token w of
             (pushed, w) \<Rightarrow>
               let class = (case pushed of Inr cl \<Rightarrow> cl | Inl detail \<Rightarrow> Ambiguous detail);
                   refusal = (case class of Rejected d \<Rightarrow> credential_refused d | Ambiguous d \<Rightarrow> credential_refused d
                              | _ \<Rightarrow> False)
               in if refusal
                  then if 1 < refused_credentials + 1 then (Answered (Inl push_rejected), c, w)
                       else (Going (refused_credentials + 1), c, se_token_refused e w)
                  else
                    (case class of
                       Pushed \<Rightarrow>
                         (case se_promote e w of
                            (promoted, w) \<Rightarrow>
                              (Answered (Inr (landed_outcome commit main)), c, se_pushed e commit main promoted w))
                     | LostRace _ \<Rightarrow> (Going 0, c, se_jitter e attempt w)
                     | PathRejected p reason _ \<Rightarrow>
                         (case refuse_path p reason c of
                            (Inl err, c) \<Rightarrow> (Answered (Inl err), c, w)
                          | (Inr _, c) \<Rightarrow> (Going 0, c, se_jitter e attempt w))
                     | Rejected _ \<Rightarrow> (Answered (Inl push_rejected), c, w)
                     | Ambiguous _ \<Rightarrow>
                         (case settle_push e attempt commit main w of (st, w) \<Rightarrow> (st, c, w)))))"

section \<open>The loop\<close>

fun cas_loop ::
  "('w, 'i) save_env \<Rightarrow> apply_key option \<Rightarrow> string \<Rightarrow> nat \<Rightarrow> nat \<Rightarrow> nat \<Rightarrow> change \<Rightarrow> 'w
   \<Rightarrow> (save_error + cas_outcome) \<times> change \<times> 'w" where
  "cas_loop e key message 0 attempt refused_credentials c w = (Inl main_busy, c, w)"
| "cas_loop e key message (Suc left) attempt refused_credentials c w =
     (if 1 < attempt \<and> se_past_deadline e w then (Inl main_busy, c, w)
      else
        (case prepare e key message c w of
           (Answered r, c, w) \<Rightarrow> (r, c, w)
         | (Going (commit, main), c, w) \<Rightarrow>
             (case deliver e attempt refused_credentials commit main c w of
                (Answered r, c, w) \<Rightarrow> (r, c, w)
              | (Going refused, c, w) \<Rightarrow> cas_loop e key message left (attempt + 1) refused c w)))"

definition cas_commit ::
  "('w, 'i) save_env \<Rightarrow> apply_key option \<Rightarrow> string \<Rightarrow> change \<Rightarrow> 'w
   \<Rightarrow> (save_error + cas_outcome) \<times> change \<times> 'w" where
  "cas_commit e key message c w = cas_loop e key message max_attempts 1 0 c w"

end
