(* ===== verification/Save_Laws.thy ===== *)
theory Save_Laws
  imports Hosted_Change
begin

text \<open>
  What git promises a save beyond \<open>git_laws\<close>: a commit reads as its tree, an index that is not
  there yet holds nothing, and a folder is the entry with the mode of one. With it the lookups
  of \<open>Hosted_Change\<close> on commits.
\<close>

section \<open>Laws\<close>

definition reads_as :: "'i git_tool \<Rightarrow> 'i git_model \<Rightarrow> string \<Rightarrow> string \<Rightarrow> bool" where
  "reads_as g m r t \<longleftrightarrow>
     field_ok r \<and> length r = length t \<and> gt_read_tree g r = gt_read_tree g t
     \<and> gt_ls_tree_all g r = gt_ls_tree_all g t \<and> gt_diff_raw g r = gt_diff_raw g t
     \<and> (r \<noteq> t \<longrightarrow> (\<forall>obj. gm_store m r = Some obj \<longrightarrow>
          go_kind obj = ''commit'' \<and> (\<exists>more_lines. go_data obj = ''tree '' @ t @ [newline] @ more_lines)))"

definition save_git_laws :: "'i save_git \<Rightarrow> 'i git_model \<Rightarrow> bool" where
  "save_git_laws sg m \<longleftrightarrow>
     git_laws (sg_git sg) m
     \<and> (\<forall>r t. gt_tree_id (sg_git sg) r = Some t \<longrightarrow> reads_as (sg_git sg) m r t)
     \<and> (\<forall>p. gm_slot m (sg_empty_index sg) p = Merged None)
     \<and> (\<forall>t p e. is_tree (sg_git sg) t \<longrightarrow> gm_node m t p = Some e \<longrightarrow>
          (te_kind e = ''tree'' \<longleftrightarrow> te_mode e = ''040000''))"

lemma save_git_lawsD:
  assumes "save_git_laws sg m"
  shows "git_laws (sg_git sg) m" "tree_laws (sg_git sg) m" "listing_laws (sg_git sg) m"
    and "gt_tree_id (sg_git sg) r = Some t \<Longrightarrow> reads_as (sg_git sg) m r t"
    and "gt_tree_id (sg_git sg) r = Some t \<Longrightarrow> is_tree (sg_git sg) t"
    and "gm_slot m (sg_empty_index sg) p = Merged None"
    and "is_tree (sg_git sg) t \<Longrightarrow> gm_node m t p = Some e \<Longrightarrow> te_kind e = ''tree'' \<longleftrightarrow> te_mode e = ''040000''"
  using assms git_lawsD [of "sg_git sg" m] tree_idD [of "sg_git sg" m]
  by (simp_all add: save_git_laws_def)

text \<open>\<open>hash-object\<close> prints the id of every file it is given, in order.\<close>

definition hashes_as :: "(string \<Rightarrow> string) \<Rightarrow> 'i save_git \<Rightarrow> bool" where
  "hashes_as hid sg \<longleftrightarrow> (\<forall>names out. sg_hash_files sg names = Some out \<longrightarrow> text_lines out = map hid names)"

section \<open>Lookups on commits\<close>

lemma from_utf8_lossy_ascii:
  "list_all (\<lambda>c. ord_of c < 0x80) s \<Longrightarrow> from_utf8_lossy (s @ rest) = s @ from_utf8_lossy rest"
proof (induction s)
  case (Cons c s)
  then show ?case
    by (subst from_utf8_lossy.simps) (simp add: Let_def utf8_head_def)
qed simp

lemma first_line:
  assumes "newline \<notin> set l" "CHR 0x0D \<notin> set l"
  shows "\<exists>ls. text_lines (l @ [newline] @ rest) = l # ls"
proof -
  have "split_on newline (l @ [newline] @ rest) = l # split_on newline rest"
    using assms(1) split_on_append_sep [of newline l rest] by (simp add: split_on_no_sep)
  moreover have "strip_suffix l [CHR 0x0D] = None"
    using assms(2) in_set_dropD [of "CHR 0x0D" "length l - 1" l] by (auto simp: strip_suffix_def ends_with_def)
  moreover have "split_on newline rest \<noteq> []" by (cases rest) (auto split: list.splits)
  ultimately show ?thesis by (simp add: text_lines_def Let_def)
qed

lemma commit_root:
  assumes laws: "reads_as g m r t" "field_ok t" and ne: "r \<noteq> t" and obj: "gm_store m r = Some obj"
    and root: "root_object g obj = Some o2"
  shows "\<exists>objs. read_objects g [t] = Some objs \<and> objs \<noteq> [] \<and> last objs = o2"
proof -
  from laws(1) ne obj obtain more where o: "go_kind obj = ''commit''" "go_data obj = ''tree '' @ t @ [newline] @ more"
    unfolding reads_as_def by blast
  let ?l = "''tree '' @ t"
  note f = field_okD [OF laws(2)]
  have cr: "CHR 0x0D \<notin> set t" using laws(2) by (auto simp: field_ok_def list_all_iff ord_of_def)
  have "list_all (\<lambda>c. ord_of c < 0x80) (?l @ [newline])" using f by (simp add: ord_of_def)
  from from_utf8_lossy_ascii [OF this, of more] have "from_utf8_lossy (go_data obj) = ?l @ [newline] @ from_utf8_lossy more"
    by (simp add: o)
  moreover obtain ls where "text_lines (?l @ [newline] @ from_utf8_lossy more) = ?l # ls"
    using first_line [of ?l] f cr by auto
  ultimately have "text_lines (from_utf8_lossy (go_data obj)) = ?l # ls" by simp
  moreover have "strip_prefix ?l ''tree '' = Some t" by (simp add: strip_prefix_Some)
  ultimately show ?thesis
    using root o by (auto simp: root_object_def bind_eq_Some_conv split: if_splits)
qed

lemma wanted_one: "x \<in> set (wanted_folders [l] level) \<Longrightarrow> fst (fst x) = 0"
  by (auto simp: wanted_folders_def in_map_filter)

lemma load_folders_ids:
  assumes "id_bytes r = id_bytes t" "\<forall>x \<in> set xs. fst (fst x) = 0"
  shows "try_fold (load_folder [r]) xs ms = try_fold (load_folder [t]) xs ms"
  using assms(2)
proof (induction xs arbitrary: ms)
  case (Cons x xs)
  obtain f obj where x: "x = ((0, f), obj)" using Cons.prems by (cases x) auto
  have "load_folder [r] x ms = load_folder [t] x ms" by (simp add: x assms(1))
  with Cons show ?case by (cases "load_folder [t] x ms") simp_all
qed simp

lemma load_folders_length: "try_fold (load_folder ts) xs ms = Some ms' \<Longrightarrow> length ms' = length ms"
proof (induction xs arbitrary: ms)
  case (Cons x xs)
  obtain i f obj where x: "x = ((i, f), obj)" by (metis prod.exhaust)
  from Cons.prems obtain ms1 where ms1: "load_folder ts x ms = Some ms1" "try_fold (load_folder ts) xs ms1 = Some ms'"
    by (auto simp: bind_eq_Some_conv)
  have "length ms1 = length ms" using ms1(1) by (auto simp: x split: if_splits)
  with Cons.IH [OF ms1(2)] show ?case by simp
qed simp

lemma list_level_ids:
  assumes "id_bytes r = id_bytes t"
  shows "list_level g [r] level [l] = list_level g [t] level [l]"
    and "list_level g [t] level [l] = Some ms \<Longrightarrow> \<exists>l'. ms = [l']"
proof -
  let ?w = "wanted_folders [l] level"
  have z: "\<forall>x \<in> set (zip (map fst ?w) objs). fst (fst x) = 0" for objs
    using wanted_one [of _ l level] by (auto dest!: set_zip_leftD)
  then show "list_level g [r] level [l] = list_level g [t] level [l]"
    by (simp add: list_level_def Let_def load_folders_ids [OF assms z] cong: option.case_cong)
  show "\<exists>l'. ms = [l']" if "list_level g [t] level [l] = Some ms"
    using that load_folders_length [of "[t]" _ "[l]" ms]
    by (auto simp: list_level_def Let_def bind_eq_Some_conv length_Suc_conv)
qed

lemma levels_ids:
  assumes "id_bytes r = id_bytes t"
  shows "try_fold (\<lambda>(_, level). list_level g [r] level) ls [l] = try_fold (\<lambda>(_, level). list_level g [t] level) ls [l]"
proof (induction ls arbitrary: l)
  case (Cons x ls)
  show ?case
  proof (cases "list_level g [t] (snd x) [l]")
    case None
    then show ?thesis by (simp add: case_prod_unfold list_level_ids(1) [OF assms])
  next
    case (Some ms)
    from list_level_ids(2) [OF assms this] obtain l' where "ms = [l']" by blast
    with Some Cons.IH [of l'] show ?thesis by (simp add: case_prod_unfold list_level_ids(1) [OF assms])
  qed
qed simp

lemma folder_listings_commit:
  assumes laws: "tree_laws g m" "is_tree g t" and reads: "reads_as g m r t"
    and res: "folder_listings g [r] fs = Some ms"
  shows "folder_listings g [t] fs = Some ms"
proof (cases "r = t")
  case False
  have tf: "field_ok t" using folder_lawD [OF laws tree_idD(2) [OF laws(1)]] laws(2)
    by (simp add: folder_law_def is_tree_def)
  have rf: "field_ok r" and ib: "id_bytes r = id_bytes t" using reads by (simp_all add: reads_as_def id_bytes_def)
  from res obtain objs where objs: "read_objects g [r] = Some objs"
    by (auto simp: folder_listings_def bind_eq_Some_conv)
  from read_objects_spec [OF laws(1) _ objs] rf obtain obj where obj: "objs = [obj]" "gm_store m r = Some obj" by auto
  with res objs obtain o2 where o2: "root_object g obj = Some o2"
    by (auto simp: folder_listings_def bind_eq_Some_conv)
  from commit_root [OF reads tf False obj(2) o2] obtain objs' where o': "read_objects g [t] = Some objs'"
    "objs' \<noteq> []" "last objs' = o2" by blast
  from read_objects_spec [OF laws(1) _ o'(1)] tf o'(2,3) have one: "objs' = [o2]" by auto
  have "go_kind o2 = ''tree''"
    using res objs obj o2 by (auto simp: folder_listings_def split: if_splits)
  then show ?thesis
    using res objs obj o2 o'(1) one
    by (auto simp: folder_listings_def root_object_def ib bind_eq_Some_conv levels_ids [OF ib])
qed (use res in simp)

lemma entries_by_path_commit:
  assumes laws: "save_git_laws sg m" and r: "gt_tree_id (sg_git sg) r = Some t"
    and res: "entries_by_path (sg_git sg) r ps = Some mm"
  shows "finds m t (set ps) mm"
proof -
  note L = save_git_lawsD [OF laws]
  note reads = L(4) [OF r] and t = L(5) [OF r]
  have "entries_by_path (sg_git sg) t ps = Some mm"
    using res folder_listings_commit [OF L(2) t reads, of "map folder_of ps"] reads
    by (auto simp: entries_by_path_def reads_as_def split: if_splits)
  then show ?thesis by (rule entries_by_path_spec [OF L(2,3) t])
qed

lemma entries_at_finds:
  assumes laws: "save_git_laws sg m" and r: "gt_tree_id (sg_git sg) r = Some t"
    and res: "entries_at (sg_git sg) r ps = Some mm"
  shows "finds m t (set ps) mm"
proof -
  note L = save_git_lawsD [OF laws]
  note reads = L(4) [OF r] and t = L(5) [OF r]
  consider (none) "ps = []" | (all) "ps \<noteq> []" "full_listing_above < length ps"
    | (some) "ps \<noteq> []" "\<not> full_listing_above < length ps" by blast
  then show ?thesis
  proof cases
    case none
    with res show ?thesis by (simp add: entries_at_def finds_Nil)
  next
    case all
    with res reads obtain raw where raw: "gt_ls_tree_all (sg_git sg) t = Some raw"
      and mm: "mm = fold (\<lambda>e m. if te_path e \<in> set ps then btree_insert (te_path e) e m else m) (parse_ls_tree raw) []"
      by (auto simp: entries_at_def reads_as_def)
    obtain es where es: "raw = ls_tree_output es" "lists m t es" "\<forall>p e. gm_node m t p = Some e \<longrightarrow> e \<in> set es"
      using ls_tree_allD [OF L(3) t raw] by blast
    have "parse_ls_tree raw = es"
      using es lists_ok [OF L(2) t] by (simp add: parse_ls_tree_output)
    with finds_listing [OF finds_Nil es(2), of "set ps"] es(3) node_path [OF L(2) t] mm show ?thesis by simp
  next
    case some
    with res entries_by_path_commit [OF laws r] show ?thesis by (simp add: entries_at_def)
  qed
qed

lemma empty_tree_node: "tree_laws g m \<Longrightarrow> gt_empty_tree g = Some t \<Longrightarrow> gm_node m t p = None"
  unfolding tree_laws_def by blast

text \<open>The tree of \<open>main\<close>, the empty one when there is no \<open>main\<close>.\<close>

definition main_tree_of :: "'i git_tool \<Rightarrow> string option \<Rightarrow> string option" where
  "main_tree_of g main = (case main of Some r \<Rightarrow> gt_tree_id g r | None \<Rightarrow> gt_empty_tree g)"

lemma main_tree_is_tree: "save_git_laws sg m \<Longrightarrow> main_tree_of (sg_git sg) main = Some mt \<Longrightarrow> is_tree (sg_git sg) mt"
  using save_git_lawsD(5) [of sg m _ mt] empty_treeD [OF save_git_lawsD(2)]
  by (auto simp: main_tree_of_def split: option.splits)

lemma entries_of_finds:
  assumes laws: "save_git_laws sg m" and mt: "main_tree_of (sg_git sg) main = Some mt"
    and res: "entries_of (sg_git sg) main ps = Some mm"
  shows "finds m mt (set ps) mm"
proof (cases main)
  case None
  with mt empty_tree_node [OF save_git_lawsD(2) [OF laws]] have "\<And>p. gm_node m mt p = None"
    by (auto simp: main_tree_of_def)
  with None res show ?thesis by (auto simp: entries_of_def finds_def)
next
  case (Some r)
  with mt res entries_at_finds [OF laws] show ?thesis by (simp add: main_tree_of_def entries_of_def)
qed

lemma findsD: "finds m t P mm \<Longrightarrow> p \<in> P \<Longrightarrow> map_of mm p = gm_node m t p"
  by (simp add: finds_def)

section \<open>What a save leaves alone\<close>

lemma differs_leaf:
  assumes laws: "save_git_laws sg m" and "is_tree (sg_git sg) a" "is_tree (sg_git sg) b"
    and "\<not> differs (gm_node m a p) (gm_node m b p)"
  shows "leaf m a p = leaf m b p"
proof -
  note k = save_git_lawsD(7) [OF laws]
  show ?thesis
    using assms(4) k [OF assms(2), of p] k [OF assms(3), of p]
    by (auto simp: differs_def leaf_def is_folder_entry_def split: option.splits if_splits)
qed

text \<open>A touched path that is not listed as moved is as it was.\<close>

lemma moved_since_spec:
  assumes laws: "save_git_laws sg m" and mt: "main_tree_of (sg_git sg) main = Some mt"
    and bt: "gt_tree_id (sg_git sg) base = Some bt"
    and res: "moved_since (sg_git sg) base main touched = Some moved"
    and p: "p \<in> set touched" "p \<notin> set moved"
  shows "q \<in> set (p # slash_prefixes p) \<Longrightarrow> leaf m mt q = leaf m bt q"
proof -
  assume q: "q \<in> set (p # slash_prefixes p)"
  let ?c = "sort_dedup (concat (map (\<lambda>p. p # slash_prefixes p) touched))"
  from res obtain at_base at_main where look: "entries_at (sg_git sg) base ?c = Some at_base"
    "entries_of (sg_git sg) main ?c = Some at_main"
    and moved: "moved = sort_dedup (filter (\<lambda>p. list_ex (\<lambda>q. differs (map_of at_base q) (map_of at_main q)) (p # slash_prefixes p)) touched)"
    by (auto simp: moved_since_def Let_def bind_eq_Some_conv)
  have qc: "q \<in> set ?c" using p(1) q by auto
  have "\<not> differs (map_of at_base q) (map_of at_main q)"
    using p q unfolding moved by (auto simp: list_ex_iff)
  then have "\<not> differs (gm_node m bt q) (gm_node m mt q)"
    by (simp only: findsD [OF entries_at_finds [OF laws bt look(1)] qc] findsD [OF entries_of_finds [OF laws mt look(2)] qc] not_False_eq_True)
  from differs_leaf [OF laws save_git_lawsD(5) [OF laws bt] main_tree_is_tree [OF laws mt] this] show ?thesis by simp
qed

text \<open>The tree a save writes: \<open>main\<close>, then the removals, then the additions.\<close>

lemma build_tree_spec:
  assumes laws: "save_git_laws sg m" and mt: "main_tree_of (sg_git sg) main = Some mt"
    and res: "build_tree sg main removals additions = Some tree"
  shows "is_tree (sg_git sg) tree"
    and "Merged (leaf m tree p) = fold set_line (save_info main removals additions) (\<lambda>p. Merged (leaf m mt p)) p"
proof -
  note L = save_git_lawsD [OF laws]
  note I = index_lawsD [OF L(1)]
  from res obtain i i' where i: "(case main of Some r \<Rightarrow> gt_read_tree (sg_git sg) r | None \<Rightarrow> Some (sg_empty_index sg)) = Some i"
    "(if save_info main removals additions = [] then Some i
      else gt_update_index (sg_git sg) i (save_info main removals additions)) = Some i'"
    "gt_write_tree (sg_git sg) i' = Some tree"
    by (auto simp: build_tree_def bind_eq_Some_conv)
  have s: "gm_slot m i = (\<lambda>p. Merged (leaf m mt p))"
  proof (cases main)
    case None
    with mt empty_tree_node [OF L(2)] have "\<And>p. gm_node m mt p = None" by (auto simp: main_tree_of_def)
    with None i(1) L(6) show ?thesis by (auto simp: leaf_def)
  next
    case (Some r)
    with mt have r: "gt_tree_id (sg_git sg) r = Some mt" by (simp add: main_tree_of_def)
    from L(4) [OF r] Some i(1) have "gt_read_tree (sg_git sg) mt = Some i" by (simp add: reads_as_def)
    from I(1) [OF L(5) [OF r] this] show ?thesis by (rule ext)
  qed
  have "gm_slot m i' = fold set_line (save_info main removals additions) (gm_slot m i)"
    using i(2) I(3) [of i _ i'] by (auto split: if_splits)
  with s I(4) [OF i(3)] show "is_tree (sg_git sg) tree"
    "Merged (leaf m tree p) = fold set_line (save_info main removals additions) (\<lambda>p. Merged (leaf m mt p)) p"
    by (simp_all flip: s)
qed

text \<open>The last line for a path decides.\<close>

lemma fold_lines_last:
  "fold set_line ls f p = f p \<or> (\<exists>l \<in> set ls. line_path l = p \<and> fold set_line ls f p = set_line l f p)"
proof (induction ls rule: rev_induct)
  case (snoc l ls)
  show ?case
  proof (cases "line_path l = p")
    case True
    then show ?thesis by (cases l) auto
  next
    case False
    then have "fold set_line (ls @ [l]) f p = fold set_line ls f p" by (cases l) auto
    with snoc show ?thesis by auto
  qed
qed simp

end
