(* ===== verification/Hosted_Uploads.thy ===== *)
theory Hosted_Uploads
  imports Save_Laws
begin

text \<open>
  An upload changes the paths it was asked to change and no other, none that may not be published,
  and none that \<open>main\<close> holds otherwise than the client read it.
\<close>

section \<open>Requests\<close>

definition asks_to_write :: "edits \<Rightarrow> path \<Rightarrow> bool" where
  "asks_to_write e p \<longleftrightarrow> p \<in> sf_path ` set (ed_files e)"

definition asks_to_delete :: "edits \<Rightarrow> path \<Rightarrow> bool" where
  "asks_to_delete e p \<longleftrightarrow> (\<exists>d \<in> set (ed_deletes e). under d p)"

text \<open>What holds of an upload between attempts: only an import skips files; once the files are hashed,
  every file still kept has its blob, and an import has skipped what may never be saved.\<close>

definition never_saved :: "staged_file \<Rightarrow> bool" where
  "never_saved f \<longleftrightarrow> unpublishable_reason (sf_path f) \<noteq> None \<or> max_publish_blob_bytes < sf_size f"

definition edits_ok :: "(string \<Rightarrow> string) \<Rightarrow> edits \<Rightarrow> bool" where
  "edits_ok hid e \<longleftrightarrow>
     (\<not> ed_import e \<longrightarrow> ed_skipped e = [])
     \<and> (\<forall>blobs. ed_blobs e = Some blobs \<longrightarrow>
        (\<forall>f \<in> set (kept_files e). sf_path f \<in> fst ` set blobs \<and> (ed_import e \<longrightarrow> \<not> never_saved f))
        \<and> (\<forall>x \<in> set blobs. \<exists>f \<in> set (ed_files e). x = (sf_path f, hid (sf_staged_name f))))"

fun change_ok :: "(string \<Rightarrow> string) \<Rightarrow> change \<Rightarrow> bool" where
  "change_ok hid (EditsChange e) \<longleftrightarrow> edits_ok hid e"
| "change_ok hid c \<longleftrightarrow> True"

lemma kept_files_iff: "f \<in> set (kept_files e) \<longleftrightarrow> f \<in> set (ed_files e) \<and> sf_path f \<notin> fst ` set (ed_skipped e)"
  by (auto simp: kept_files_def map_of_eq_None_iff)

lemma skip_fold:
  "(sf_path f \<in> fst ` set s0 \<or> (f \<in> set fs \<and> never_saved f)) \<Longrightarrow>
   sf_path f \<in> fst ` set (fold (\<lambda>f s.
          case unpublishable_reason (sf_path f) of
            Some reason \<Rightarrow> btree_insert (sf_path f) reason s
          | None \<Rightarrow> if max_publish_blob_bytes < sf_size f then btree_insert (sf_path f) TooLarge s else s) fs s0)"
proof (induction fs arbitrary: s0)
  case (Cons x fs)
  show ?case
    unfolding fold_Cons comp_def
    by (rule Cons.IH) (use Cons.prems in \<open>auto simp: never_saved_def split: option.splits\<close>)
qed auto

lemma skip_unsaveable_skips: "f \<in> set (kept_files (skip_unsaveable e)) \<Longrightarrow> \<not> never_saved f"
  using skip_fold [of f "ed_skipped e" "ed_files e"] by (auto simp: kept_files_iff skip_unsaveable_def)

lemma hash_files_blobs:
  assumes "hashes_as hid sg" "hash_files sg e = Inr blobs"
  shows "blobs = map (\<lambda>f. (sf_path f, hid (sf_staged_name f))) (kept_files e)"
proof (cases "kept_files e = []")
  case False
  from assms(2) False obtain out where "sg_hash_files sg (map sf_staged_name (kept_files e)) = Some out"
    "blobs = zip (map sf_path (kept_files e)) (text_lines out)"
    by (auto simp: hash_files_def and_then_def or_internal_def Let_def split: if_splits sum.splits option.splits)
  moreover from this(1) assms(1) have "text_lines out = map hid (map sf_staged_name (kept_files e))"
    by (auto simp: hashes_as_def)
  ultimately show ?thesis by (simp add: zip_map_map zip_same_conv_map)
qed (use assms(2) in \<open>simp add: hash_files_def\<close>)

lemma hash_once_ok:
  assumes "hashes_as hid sg" "hash_once sg e = (Inr blobs, e')" "edits_ok hid e"
  shows "edits_ok hid e'" "ed_blobs e' = Some blobs"
proof -
  show b: "ed_blobs e' = Some blobs"
    using assms(2) by (auto simp: hash_once_def Let_def split: option.splits sum.splits)
  show "edits_ok hid e'"
  proof (cases "ed_blobs e")
    case (Some x)
    with assms show ?thesis by (simp add: hash_once_def)
  next
    case None
    let ?e = "if ed_import e then skip_unsaveable e else e"
    from assms(2) None have e': "hash_files sg ?e = Inr blobs" "e' = ?e\<lparr>ed_blobs := Some blobs\<rparr>"
      by (auto simp: hash_once_def Let_def split: sum.splits)
    note B = hash_files_blobs [OF assms(1) e'(1)]
    have k: "kept_files (?e\<lparr>ed_blobs := Some blobs\<rparr>) = kept_files ?e" by (simp add: kept_files_def)
    have "\<not> never_saved f" if "ed_import e" "f \<in> set (kept_files ?e)" for f
      using skip_unsaveable_skips that by simp
    moreover have "ed_import ?e = ed_import e" "ed_files ?e = ed_files e" by (simp_all add: skip_unsaveable_def)
    moreover have "\<not> ed_import e \<longrightarrow> ed_skipped ?e = []" using assms(3) by (simp add: edits_ok_def)
    moreover have "\<forall>x \<in> set blobs. \<exists>f \<in> set (ed_files e). x = (sf_path f, hid (sf_staged_name f))"
      using B by (auto simp: kept_files_iff skip_unsaveable_def)
    moreover have "\<forall>f \<in> set (kept_files ?e). sf_path f \<in> fst ` set blobs" using B by force
    ultimately show ?thesis unfolding edits_ok_def e'(2) k by simp
  qed
qed

lemma hash_once_fails_ok: "hash_once sg e = (Inl err, e') \<Longrightarrow> edits_ok hid e \<Longrightarrow> edits_ok hid e'"
  by (auto simp: hash_once_def Let_def edits_ok_def skip_unsaveable_def split: option.splits sum.splits if_splits)

lemma edits_build_ok:
  assumes hash: "hashes_as hid sg" and build: "edits_build sg main e = (r, e')" and ok: "edits_ok hid e"
  shows "edits_ok hid e'"
proof -
  have a: "edits_ok hid (x\<lparr>ed_attempt := y\<rparr>) = edits_ok hid x" for x y
    by (simp add: edits_ok_def kept_files_def)
  obtain h e1 where h: "hash_once sg e = (h, e1)" by (cases "hash_once sg e")
  have "edits_ok hid e1"
    using h hash_once_ok(1) [OF hash, of e _ e1] hash_once_fails_ok [of sg e _ e1] ok by (cases h) auto
  with build h show ?thesis
    by (auto simp: edits_build_def Let_def a split: sum.splits)
qed

lemma change_build_ok:
  assumes "hashes_as hid sg" "change_build sg main c = (r, c')" "change_ok hid c"
  shows "change_ok hid c'"
proof (cases c)
  case (EditsChange e)
  moreover obtain r1 e1 where "edits_build sg main e = (r1, e1)" by (cases "edits_build sg main e")
  ultimately show ?thesis using edits_build_ok assms by auto
qed (use assms in \<open>auto simp: map_prod_def split: prod.splits\<close>)

lemma refuse_path_ok:
  assumes "refuse_path p reason c = (r, c')" "change_ok hid c"
  shows "change_ok hid c'"
proof (cases c)
  case (EditsChange e)
  moreover have "ed_import e \<Longrightarrow> edits_ok hid e \<Longrightarrow> edits_ok hid (e\<lparr>ed_skipped := btree_insert p reason (ed_skipped e)\<rparr>)"
    by (simp add: edits_ok_def kept_files_iff)
  ultimately show ?thesis using assms by (auto split: if_splits)
qed (use assms in \<open>auto simp: map_prod_def split: prod.splits\<close>)

section \<open>The scan of the writes\<close>

definition entry_changed :: "tree_entry option \<Rightarrow> string \<Rightarrow> string \<Rightarrow> bool" where
  "entry_changed current mode blob \<longleftrightarrow>
     (case current of Some c \<Rightarrow> te_mode c \<noteq> mode \<or> te_oid c \<noteq> blob | None \<Rightarrow> True)"

definition addition_law :: "edits \<Rightarrow> entries \<Rightarrow> (staged_file \<times> string) set \<Rightarrow> write_scan \<Rightarrow> addition \<Rightarrow> bool" where
  "addition_law e at_main W s a \<longleftrightarrow>
     (case a of (mode, blob, p) \<Rightarrow>
        \<exists>f. (f, blob) \<in> W \<and> sf_path f = p
          \<and> (\<forall>c. map_of at_main p = Some c \<longrightarrow> \<not> is_folder_entry c)
          \<and> (entry_changed (map_of at_main p) mode blob \<longrightarrow> \<not> ed_import e \<longrightarrow>
               (case unpublishable_reason p of
                  Some reason \<Rightarrow> (p, reason) \<in> set (ws_refused s)
                | None \<Rightarrow> max_publish_blob_bytes < sf_size f \<longrightarrow> p \<in> set (ws_too_large s))))"

definition scanned :: "write_scan \<Rightarrow> staged_file \<times> string \<Rightarrow> bool" where
  "scanned s w \<longleftrightarrow>
     (case w of (f, blob) \<Rightarrow>
        sf_path f \<in> set (ws_clashes s @ ws_hidden_read s @ ws_unsupported s)
        \<or> (\<exists>mode. (mode, blob, sf_path f) \<in> set (ws_additions s)))"

definition grows :: "write_scan \<Rightarrow> write_scan \<Rightarrow> bool" where
  "grows s s' \<longleftrightarrow>
     set (ws_refused s) \<subseteq> set (ws_refused s') \<and> set (ws_too_large s) \<subseteq> set (ws_too_large s')
     \<and> set (ws_clashes s) \<subseteq> set (ws_clashes s') \<and> set (ws_hidden_read s) \<subseteq> set (ws_hidden_read s')
     \<and> set (ws_unsupported s) \<subseteq> set (ws_unsupported s') \<and> set (ws_additions s) \<subseteq> set (ws_additions s')"

lemma addition_law_grows:
  "addition_law e at_main W s a \<Longrightarrow> grows s s' \<Longrightarrow> W \<subseteq> W' \<Longrightarrow> addition_law e at_main W' s' a"
  (is "_ \<Longrightarrow> _ \<Longrightarrow> _ \<Longrightarrow> ?thesis")
proof -
  assume law: "addition_law e at_main W s a" and g: "grows s s'" "W \<subseteq> W'"
  obtain mode blob p where a: "a = (mode, blob, p)" by (cases a)
  from g have sub: "set (ws_refused s) \<subseteq> set (ws_refused s')" "set (ws_too_large s) \<subseteq> set (ws_too_large s')"
    by (simp_all add: grows_def)
  from law obtain f where f: "(f, blob) \<in> W" "sf_path f = p"
    "\<forall>c. map_of at_main p = Some c \<longrightarrow> \<not> is_folder_entry c"
    "entry_changed (map_of at_main p) mode blob \<longrightarrow> \<not> ed_import e \<longrightarrow>
               (case unpublishable_reason p of
                  Some reason \<Rightarrow> (p, reason) \<in> set (ws_refused s)
                | None \<Rightarrow> max_publish_blob_bytes < sf_size f \<longrightarrow> p \<in> set (ws_too_large s))"
    by (auto simp: addition_law_def a)
  show ?thesis
    unfolding addition_law_def a prod.case
  proof (rule exI [of _ f], intro conjI impI)
    show "case unpublishable_reason p of
        Some reason \<Rightarrow> (p, reason) \<in> set (ws_refused s')
      | None \<Rightarrow> max_publish_blob_bytes < sf_size f \<longrightarrow> p \<in> set (ws_too_large s')"
      if "entry_changed (map_of at_main p) mode blob" "\<not> ed_import e"
      using f(4) that sub by (cases "unpublishable_reason p") auto
  qed (use f g in auto)
qed

lemma scanned_grows: "scanned s w \<Longrightarrow> grows s s' \<Longrightarrow> scanned s' w"
  by (cases w) (auto simp: scanned_def grows_def)

lemma add_write_law:
  assumes "\<forall>c. map_of at_main (sf_path f) = Some c \<longrightarrow> \<not> is_folder_entry c"
  shows "grows s (add_write e f blob (map_of at_main (sf_path f)) s)"
    and "\<exists>mode. set (ws_additions (add_write e f blob (map_of at_main (sf_path f)) s))
             = insert (mode, blob, sf_path f) (set (ws_additions s))
           \<and> addition_law e at_main {(f, blob)} (add_write e f blob (map_of at_main (sf_path f)) s) (mode, blob, sf_path f)"
proof -
  show "grows s (add_write e f blob (map_of at_main (sf_path f)) s)"
    by (auto simp: grows_def add_write_def Let_def split: option.splits)
  let ?mode = "if sf_executable f then ''100755'' else case map_of at_main (sf_path f) of Some c \<Rightarrow> te_mode c | None \<Rightarrow> ''100644''"
  have "set (ws_additions (add_write e f blob (map_of at_main (sf_path f)) s)) = insert (?mode, blob, sf_path f) (set (ws_additions s))"
    by (simp add: add_write_def Let_def split: option.splits)
  moreover have "addition_law e at_main {(f, blob)} (add_write e f blob (map_of at_main (sf_path f)) s) (?mode, blob, sf_path f)"
    using assms by (auto simp: addition_law_def add_write_def Let_def entry_changed_def split: option.splits)
  ultimately show "\<exists>mode. set (ws_additions (add_write e f blob (map_of at_main (sf_path f)) s))
             = insert (mode, blob, sf_path f) (set (ws_additions s))
           \<and> addition_law e at_main {(f, blob)} (add_write e f blob (map_of at_main (sf_path f)) s) (mode, blob, sf_path f)"
    by blast
qed

lemma scan_write_law:
  shows "grows s (scan_write e at_main (f, blob) s)"
    and "scanned (scan_write e at_main (f, blob) s) (f, blob)"
    and "\<forall>a \<in> set (ws_additions (scan_write e at_main (f, blob) s)).
           a \<in> set (ws_additions s) \<or> addition_law e at_main {(f, blob)} (scan_write e at_main (f, blob) s) a"
proof -
  let ?r = "scan_write e at_main (f, blob) s"
  have "grows s ?r \<and> scanned ?r (f, blob)
      \<and> (\<forall>a \<in> set (ws_additions ?r). a \<in> set (ws_additions s) \<or> addition_law e at_main {(f, blob)} ?r a)"
  proof (cases "?r = add_write e f blob (map_of at_main (sf_path f)) s \<and> (\<forall>c. map_of at_main (sf_path f) = Some c \<longrightarrow> \<not> is_folder_entry c)")
    case True
    then show ?thesis
      using add_write_law [where at_main = at_main and f = f and s = s and e = e and blob = blob] by (auto simp: scanned_def)
  next
    case False
    then show ?thesis
      by (auto simp: scan_write_def Let_def grows_def scanned_def split: option.splits if_splits)
  qed
  then show "grows s ?r" "scanned ?r (f, blob)"
    "\<forall>a \<in> set (ws_additions ?r). a \<in> set (ws_additions s) \<or> addition_law e at_main {(f, blob)} ?r a"
    by blast+
qed

lemma grows_refl [simp]: "grows s s" by (simp add: grows_def)

lemma grows_trans: "grows a b \<Longrightarrow> grows b c \<Longrightarrow> grows a c"
  unfolding grows_def by (elim conjE) (intro conjI; (rule subset_trans; assumption))

lemma scan_writes_law:
  "grows s (fold (scan_write e at_main) ws s)
   \<and> (\<forall>w \<in> set ws. scanned (fold (scan_write e at_main) ws s) w)
   \<and> (\<forall>a \<in> set (ws_additions (fold (scan_write e at_main) ws s)).
        a \<in> set (ws_additions s) \<or> addition_law e at_main (set ws) (fold (scan_write e at_main) ws s) a)"
proof (induction ws arbitrary: s)
  case (Cons w ws)
  obtain f blob where w: "w = (f, blob)" by (cases w)
  let ?s = "scan_write e at_main w s" and ?r = "fold (scan_write e at_main) ws (scan_write e at_main w s)"
  note W = scan_write_law [where s = s and e = e and at_main = at_main and f = f and blob = blob, folded w]
  note IH = Cons.IH [of ?s]
  show ?case
    unfolding fold_Cons comp_def
  proof (intro conjI ballI)
    show "grows s ?r" using grows_trans [OF W(1)] IH by blast
    fix x assume "x \<in> set (w # ws)"
    then show "scanned ?r x" using IH scanned_grows [OF W(2)] by auto
  next
    fix a assume "a \<in> set (ws_additions ?r)"
    with IH have "a \<in> set (ws_additions ?s) \<or> addition_law e at_main (set ws) ?r a" by blast
    with W(3) have "a \<in> set (ws_additions s) \<or> addition_law e at_main {w} ?s a \<or> addition_law e at_main (set ws) ?r a" by blast
    then show "a \<in> set (ws_additions s) \<or> addition_law e at_main (set (w # ws)) ?r a"
      using addition_law_grows [of e at_main "{w}" ?s a ?r "set (w # ws)"]
        addition_law_grows [of e at_main "set ws" ?r a ?r "set (w # ws)"] IH by auto
  qed
qed simp

section \<open>The deletes\<close>

lemma scan_deletes_law:
  shows "set (ds_removals (fold (scan_delete e base looked_up) ds s)) \<subseteq> set (ds_removals s) \<union> set ds"
    and "set (ds_folders (fold (scan_delete e base looked_up) ds s)) \<subseteq> set (ds_folders s) \<union> {d \<in> set ds. \<exists>x. map_of looked_up d = Some x \<and> is_folder_entry x}"
    and "set (ds_needs_base s) \<union> set (ds_folders s) \<union> set (ds_removals s) \<union> set ds
         \<subseteq> set (ds_needs_base (fold (scan_delete e base looked_up) ds s)) \<union> set (ds_folders (fold (scan_delete e base looked_up) ds s)) \<union> set (ds_removals (fold (scan_delete e base looked_up) ds s))"
proof -
  have "set (ds_removals (fold (scan_delete e base looked_up) ds s)) \<subseteq> set (ds_removals s) \<union> set ds
    \<and> set (ds_folders (fold (scan_delete e base looked_up) ds s)) \<subseteq> set (ds_folders s) \<union> {d \<in> set ds. \<exists>x. map_of looked_up d = Some x \<and> is_folder_entry x}
    \<and> set (ds_needs_base s) \<union> set (ds_folders s) \<union> set (ds_removals s) \<union> set ds
         \<subseteq> set (ds_needs_base (fold (scan_delete e base looked_up) ds s)) \<union> set (ds_folders (fold (scan_delete e base looked_up) ds s)) \<union> set (ds_removals (fold (scan_delete e base looked_up) ds s))"
  proof (induction ds arbitrary: s)
    case (Cons d ds)
    let ?s = "scan_delete e base looked_up d s"
    have "set (ds_removals ?s) \<subseteq> set (ds_removals s) \<union> {d}"
      "set (ds_folders ?s) \<subseteq> set (ds_folders s) \<union> {d' \<in> {d}. \<exists>x. map_of looked_up d' = Some x \<and> is_folder_entry x}"
      "set (ds_needs_base s) \<union> set (ds_folders s) \<union> set (ds_removals s) \<union> {d}
         \<subseteq> set (ds_needs_base ?s) \<union> set (ds_folders ?s) \<union> set (ds_removals ?s)"
      by (auto simp: scan_delete_def split: option.splits)
    with Cons.IH [of ?s] show ?case
      unfolding fold_Cons comp_def by (intro conjI subsetI) auto
  qed simp
  then show "set (ds_removals (fold (scan_delete e base looked_up) ds s)) \<subseteq> set (ds_removals s) \<union> set ds"
    "set (ds_folders (fold (scan_delete e base looked_up) ds s)) \<subseteq> set (ds_folders s) \<union> {d \<in> set ds. \<exists>x. map_of looked_up d = Some x \<and> is_folder_entry x}"
    "set (ds_needs_base s) \<union> set (ds_folders s) \<union> set (ds_removals s) \<union> set ds
         \<subseteq> set (ds_needs_base (fold (scan_delete e base looked_up) ds s)) \<union> set (ds_folders (fold (scan_delete e base looked_up) ds s)) \<union> set (ds_removals (fold (scan_delete e base looked_up) ds s))"
    by blast+
qed

lemma entries_below_under:
  assumes "entries_below sg commit folders = Some bl"
  shows "\<forall>q \<in> set bl. \<exists>d \<in> set folders. under d q"
proof -
  from assms obtain found where
    "try_fold (\<lambda>folder below.
         case map_of found folder of
           Some e \<Rightarrow>
             if is_folder_entry e
             then map_option (\<lambda>raw. below @ map (\<lambda>x. folder @ ''/'' @ te_path x) (parse_ls_tree raw))
                    (sg_ls_tree_below sg (te_oid e))
             else Some below
         | None \<Rightarrow> Some below) folders [] = Some bl"
    by (auto simp: entries_below_def bind_eq_Some_conv)
  moreover have "\<forall>q \<in> set b. (\<exists>d \<in> set fs. under d q) \<or> q \<in> set b0"
    if "try_fold (\<lambda>folder below.
         case map_of found folder of
           Some e \<Rightarrow>
             if is_folder_entry e
             then map_option (\<lambda>raw. below @ map (\<lambda>x. folder @ ''/'' @ te_path x) (parse_ls_tree raw))
                    (sg_ls_tree_below sg (te_oid e))
             else Some below
         | None \<Rightarrow> Some below) fs b0 = Some b" for fs b0 b
    using that
  proof (induction fs arbitrary: b0)
    case (Cons f fs)
    then obtain b1 where b1: "(case map_of found f of
           Some e \<Rightarrow>
             if is_folder_entry e
             then map_option (\<lambda>raw. b0 @ map (\<lambda>x. f @ ''/'' @ te_path x) (parse_ls_tree raw))
                    (sg_ls_tree_below sg (te_oid e))
             else Some b0
         | None \<Rightarrow> Some b0) = Some b1" and IH: "\<forall>q \<in> set b. (\<exists>d \<in> set fs. under d q) \<or> q \<in> set b1"
      by (auto simp: bind_eq_Some_conv simp del: split_paired_Ex)
    have u: "under f (f @ ''/'' @ x)" for x by (simp add: under_def starts_with_def)
    have "\<forall>q \<in> set b1. under f q \<or> q \<in> set b0"
      using b1 u by (auto split: option.splits if_splits)
    with IH show ?case by auto
  qed simp
  ultimately show ?thesis by fastforce
qed

section \<open>An upload that is accepted\<close>

text \<open>What the code knows when it writes the tree.\<close>

definition accepted :: "'i save_git \<Rightarrow> edits \<Rightarrow> string option \<Rightarrow> (path \<times> string) list \<Rightarrow> upload_view \<Rightarrow> string \<Rightarrow> bool" where
  "accepted sg e main blobs v tree \<longleftrightarrow>
     ed_blobs e = Some blobs
     \<and> view_upload sg e main (ed_base_rev e) (writes_of e blobs) = Inr v
     \<and> uv_refused v = [] \<and> ws_too_large (uv_scan v) = [] \<and> ws_clashes (uv_scan v) = []
     \<and> ds_needs_base (uv_deletes v) = [] \<and> uv_unmatched v = [] \<and> uv_unsupported v = []
     \<and> build_tree sg main (uv_removals v) (ws_additions (uv_scan v)) = Some tree"

lemma readable_base_id: "readable_base sg e main writes = Inr base \<Longrightarrow> base = ed_base_rev e"
  by (auto simp: readable_base_def and_then_def split: option.splits if_splits sum.splits)

lemma upload_treeE:
  assumes "upload_tree sg e main v = Inr tree"
  shows "uv_refused v = [] \<and> ws_too_large (uv_scan v) = [] \<and> ws_clashes (uv_scan v) = []
     \<and> ds_needs_base (uv_deletes v) = [] \<and> uv_unmatched v = [] \<and> uv_unsupported v = []
     \<and> build_tree sg main (uv_removals v) (ws_additions (uv_scan v)) = Some tree"
  using assms
  by (auto simp: upload_tree_def Let_def and_then_def scan_refusal_def or_internal_def
      split: option.splits sum.splits if_splits)

lemma edits_buildE:
  assumes "edits_build sg main e = (Inr tree, e')"
  obtains blobs v e1 where "hash_once sg e = (Inr blobs, e1)" "accepted sg e1 main blobs v tree"
    "e' = e1\<lparr>ed_attempt := Some
            \<lparr>am_main_entries = uv_at_main v,
             am_touched = map (snd \<circ> snd) (ws_additions (uv_scan v)) @ uv_removals v,
             am_swapped = swapped_deletes e1 (uv_at_main v) (ds_folders (uv_deletes v))\<rparr>\<rparr>"
proof -
  from assms obtain blobs e1 where h: "hash_once sg e = (Inr blobs, e1)"
    by (cases "hash_once sg e"; cases "fst (hash_once sg e)") (auto simp: edits_build_def)
  with assms obtain v where v: "and_then (readable_base sg e1 main (writes_of e1 blobs)) (\<lambda>base. view_upload sg e1 main base (writes_of e1 blobs)) = Inr v"
    "upload_tree sg e1 main v = Inr tree"
    "e' = e1\<lparr>ed_attempt := Some
            \<lparr>am_main_entries = uv_at_main v,
             am_touched = map (snd \<circ> snd) (ws_additions (uv_scan v)) @ uv_removals v,
             am_swapped = swapped_deletes e1 (uv_at_main v) (ds_folders (uv_deletes v))\<rparr>\<rparr>"
    by (auto simp: edits_build_def Let_def split: sum.splits)
  from v(1) have "view_upload sg e1 main (ed_base_rev e1) (writes_of e1 blobs) = Inr v"
    by (auto simp: and_then_def split: sum.splits dest: readable_base_id)
  moreover have "ed_blobs e1 = Some blobs"
    using h by (auto simp: hash_once_def Let_def split: option.splits sum.splits)
  ultimately show ?thesis using upload_treeE [OF v(2)] that [OF h _ v(3)] by (simp add: accepted_def)
qed

text \<open>The parts of the view.\<close>

lemma view_uploadE:
  assumes "view_upload sg e main base writes = Inr v"
  obtains looked_up at_base where
    "entries_of (sg_git sg) main (wanted_paths e writes) = Some (uv_at_main v)"
    "uv_scan v = fold (scan_write e (uv_at_main v)) writes no_scan"
    "uv_deletes v = fold (scan_delete e base looked_up) (ed_deletes e) \<lparr>ds_needs_base = [], ds_folders = [], ds_removals = []\<rparr>"
    "removals_of sg base main at_base (uv_deletes v) = Some (uv_removals v)"
    "\<exists>unmatched same. split_hidden sg e base main (uv_at_main v) (ws_hidden_read (uv_scan v)) = Inr (unmatched, same)
       \<and> uv_unmatched v = unmatched \<and> uv_unsupported v = ws_unsupported (uv_scan v) @ same"
    "uv_refused v = ws_refused (uv_scan v) @ map (\<lambda>p. (p, Excluded)) (filter (\<lambda>p. \<not> deletion_allowed p) (uv_removals v))"
    "looked_up = (case at_base of Some x \<Rightarrow> x | None \<Rightarrow> uv_at_main v)"
    "at_base \<noteq> None \<Longrightarrow> base \<noteq> main \<and> (\<exists>b. base = Some b \<and> entries_at (sg_git sg) b (sort_dedup (ed_deletes e)) = at_base)"
proof -
  from assms obtain at_main at_base where 1: "entries_of (sg_git sg) main (wanted_paths e writes) = Some at_main"
    "(case base of
               Some b \<Rightarrow>
                 if base \<noteq> main \<and> ed_deletes e \<noteq> []
                 then and_then (or_internal (entries_at (sg_git sg) b (sort_dedup (ed_deletes e)))) (\<lambda>x. Inr (Some x))
                 else Inr None
             | None \<Rightarrow> Inr None) = Inr at_base"
    and rest: "(let ds = fold (scan_delete e base (case at_base of Some x \<Rightarrow> x | None \<Rightarrow> at_main)) (ed_deletes e)
                     \<lparr>ds_needs_base = [], ds_folders = [], ds_removals = []\<rparr>
          in and_then (or_internal (removals_of sg base main at_base ds)) (\<lambda>removals.
             and_then (split_hidden sg e base main at_main (ws_hidden_read (fold (scan_write e at_main) writes no_scan))) (\<lambda>(unmatched, same).
               Inr \<lparr>uv_at_main = at_main, uv_scan = fold (scan_write e at_main) writes no_scan, uv_deletes = ds, uv_removals = removals,
                    uv_refused = ws_refused (fold (scan_write e at_main) writes no_scan) @ map (\<lambda>p. (p, Excluded)) (filter (\<lambda>p. \<not> deletion_allowed p) removals),
                    uv_unmatched = unmatched, uv_unsupported = ws_unsupported (fold (scan_write e at_main) writes no_scan) @ same\<rparr>))) = Inr v"
    unfolding view_upload_def and_then_def Let_def or_internal_def
    by (auto split: sum.splits option.splits)
  let ?ds = "fold (scan_delete e base (case at_base of Some x \<Rightarrow> x | None \<Rightarrow> at_main)) (ed_deletes e)
                     \<lparr>ds_needs_base = [], ds_folders = [], ds_removals = []\<rparr>"
  from rest obtain removals unmatched same where 2: "removals_of sg base main at_base ?ds = Some removals"
    "split_hidden sg e base main at_main (ws_hidden_read (fold (scan_write e at_main) writes no_scan)) = Inr (unmatched, same)"
    and v: "v = \<lparr>uv_at_main = at_main, uv_scan = fold (scan_write e at_main) writes no_scan, uv_deletes = ?ds, uv_removals = removals,
                    uv_refused = ws_refused (fold (scan_write e at_main) writes no_scan) @ map (\<lambda>p. (p, Excluded)) (filter (\<lambda>p. \<not> deletion_allowed p) removals),
                    uv_unmatched = unmatched, uv_unsupported = ws_unsupported (fold (scan_write e at_main) writes no_scan) @ same\<rparr>"
    unfolding and_then_def Let_def or_internal_def by (auto split: sum.splits option.splits)
  have b: "at_base \<noteq> None \<Longrightarrow> base \<noteq> main \<and> (\<exists>b. base = Some b \<and> entries_at (sg_git sg) b (sort_dedup (ed_deletes e)) = at_base)"
    using 1(2) by (auto simp: and_then_def or_internal_def split: option.splits if_splits sum.splits)
  show ?thesis
    by (rule that [of "case at_base of Some x \<Rightarrow> x | None \<Rightarrow> at_main" at_base]) (use 1(1) 2 v b in \<open>simp_all split: option.split\<close>)
qed

lemma removals_of_under:
  assumes "removals_of sg base main at_base ds = Some rm" "p \<in> set rm"
  shows "p \<in> set (ds_removals ds) \<or> (\<exists>d \<in> set (ds_folders ds). under d p)"
proof -
  let ?c = "if at_base \<noteq> None then base else main"
  show ?thesis
  proof (cases "?c = None \<or> ds_folders ds = []")
    case True
    with assms show ?thesis by (auto simp: removals_of_def split: option.splits)
  next
    case False
    then obtain c where "?c = Some c" by auto
    with False assms obtain b where "entries_below sg c (ds_folders ds) = Some b" "rm = ds_removals ds @ b"
      by (auto simp: removals_of_def)
    with entries_below_under assms(2) show ?thesis by fastforce
  qed
qed

lemma removals_of_all: "removals_of sg base main at_base ds = Some rm \<Longrightarrow> set (ds_removals ds) \<subseteq> set rm"
  by (auto simp: removals_of_def split: option.splits if_splits dest!: arg_cong [of _ rm set])

lemma split_hidden_none: "split_hidden sg e base main at_main hidden = Inr ([], []) \<Longrightarrow> hidden = []"
proof (rule ccontr)
  assume res: "split_hidden sg e base main at_main hidden = Inr ([], [])" and "hidden \<noteq> []"
  then obtain at_base where "partition (\<lambda>p. differs (map_of at_base p) (map_of at_main p)) hidden = ([], [])"
    by (auto simp: split_hidden_def and_then_def split: if_splits option.splits sum.splits)
  then have "x \<notin> set hidden" for x
    using partition_set [of "\<lambda>p. differs (map_of at_base p) (map_of at_main p)" hidden "[]" "[]"] by auto
  with \<open>hidden \<noteq> []\<close> show False by (metis last_in_set)
qed

text \<open>Every addition is a file of the request, and every removal a path it deletes.\<close>

lemma accepted_touched:
  assumes "accepted sg e main blobs v tree"
  shows "(mode, blob, p) \<in> set (ws_additions (uv_scan v)) \<Longrightarrow>
      addition_law e (uv_at_main v) (set (writes_of e blobs)) (uv_scan v) (mode, blob, p)"
    and "p \<in> set (uv_removals v) \<Longrightarrow> asks_to_delete e p \<and> deletion_allowed p"
    and "(f, blob) \<in> set (writes_of e blobs) \<Longrightarrow> \<exists>mode. (mode, blob, sf_path f) \<in> set (ws_additions (uv_scan v))"
proof -
  from assms have view: "view_upload sg e main (ed_base_rev e) (writes_of e blobs) = Inr v"
    and none: "uv_refused v = []" "ws_clashes (uv_scan v) = []" "uv_unmatched v = []" "uv_unsupported v = []"
    by (simp_all add: accepted_def)
  obtain looked_up at_base where V: "uv_scan v = fold (scan_write e (uv_at_main v)) (writes_of e blobs) no_scan"
    "uv_deletes v = fold (scan_delete e (ed_base_rev e) looked_up) (ed_deletes e) \<lparr>ds_needs_base = [], ds_folders = [], ds_removals = []\<rparr>"
    "removals_of sg (ed_base_rev e) main at_base (uv_deletes v) = Some (uv_removals v)"
    "\<exists>unmatched same. split_hidden sg e (ed_base_rev e) main (uv_at_main v) (ws_hidden_read (uv_scan v)) = Inr (unmatched, same)
       \<and> uv_unmatched v = unmatched \<and> uv_unsupported v = ws_unsupported (uv_scan v) @ same"
    "uv_refused v = ws_refused (uv_scan v) @ map (\<lambda>p. (p, Excluded)) (filter (\<lambda>p. \<not> deletion_allowed p) (uv_removals v))"
    using view_uploadE [OF view] by metis
  note S = scan_writes_law [of no_scan e "uv_at_main v" "writes_of e blobs", folded V(1)]
  show "addition_law e (uv_at_main v) (set (writes_of e blobs)) (uv_scan v) (mode, blob, p)"
    if "(mode, blob, p) \<in> set (ws_additions (uv_scan v))"
    using S that by (auto simp: no_scan_def)
  have hidden: "ws_hidden_read (uv_scan v) = []" "ws_unsupported (uv_scan v) = []"
    using V(4) none(3,4) split_hidden_none by auto
  show "\<exists>mode. (mode, blob, sf_path f) \<in> set (ws_additions (uv_scan v))" if "(f, blob) \<in> set (writes_of e blobs)"
    using S that hidden none(2) by (fastforce simp: scanned_def)
  show "asks_to_delete e p \<and> deletion_allowed p" if p: "p \<in> set (uv_removals v)"
  proof
    show "deletion_allowed p" using none(1) V(5) p by (auto simp: filter_empty_conv)
    have d: "set (ds_removals (uv_deletes v)) \<subseteq> set (ed_deletes e)" "set (ds_folders (uv_deletes v)) \<subseteq> set (ed_deletes e)"
      using scan_deletes_law(1,2) [of e "ed_base_rev e" looked_up "ed_deletes e" "\<lparr>ds_needs_base = [], ds_folders = [], ds_removals = []\<rparr>"]
      by (auto simp: V(2))
    have "p \<in> set (ds_removals (uv_deletes v)) \<or> (\<exists>d \<in> set (ds_folders (uv_deletes v)). under d p)"
      by (rule removals_of_under [OF V(3) p])
    with d show "asks_to_delete e p" by (auto simp: asks_to_delete_def under_def)
  qed
qed

section \<open>What the saved tree holds\<close>

lemma save_info_lines:
  "l \<in> set (save_info main removals additions) \<longleftrightarrow>
     (\<exists>z p. l = Remove z p \<and> p \<in> set removals \<and> Remove z p \<in> set (save_info main removals additions))
     \<or> (\<exists>mode oid p. l = Put mode oid p \<and> (mode, oid, p) \<in> set additions)"
  by (force simp: save_info_def Let_def)

lemma save_info_put:
  "Put mode oid p \<in> set (save_info main removals additions) \<longleftrightarrow> (mode, oid, p) \<in> set additions"
  by (force simp: save_info_def Let_def)

lemma save_info_paths:
  "line_path ` set (save_info main removals additions) = set removals \<union> (snd \<circ> snd) ` set additions"
  by (force simp: save_info_def Let_def image_Un image_image)

lemma fold_lines_put_last:
  assumes "p \<in> line_path ` set ls" "\<And>z. Remove z p \<notin> set ls"
  shows "\<exists>mode oid. Put mode oid p \<in> set ls \<and> fold set_line ls f p = Merged (Some (mode, oid))"
  using assms
proof (induction ls rule: rev_induct)
  case (snoc l ls)
  show ?case
  proof (cases "line_path l = p")
    case True
    with snoc.prems(2) obtain mode oid where "l = Put mode oid p" by (cases l) auto
    then show ?thesis by auto
  next
    case False
    then have "fold set_line (ls @ [l]) f p = fold set_line ls f p" by (cases l) auto
    with False snoc show ?thesis by auto
  qed
qed simp

lemma writes_of_iff:
  "(f, blob) \<in> set (writes_of e blobs) \<longleftrightarrow> f \<in> set (kept_files e) \<and> map_of (rev blobs) (sf_path f) = Some blob"
  by (auto simp: writes_of_def in_map_filter)

lemma addition_written:
  assumes "accepted sg e main blobs v tree" "(mode, blob, p) \<in> set (ws_additions (uv_scan v))"
  shows "map_of (rev blobs) p = Some blob" "asks_to_write e p"
  using accepted_touched(1) [OF assms]
  by (auto simp: addition_law_def writes_of_iff kept_files_iff asks_to_write_def)

lemma accepted_at_main:
  assumes laws: "save_git_laws sg m" and mt: "main_tree_of (sg_git sg) main = Some mt"
    and acc: "accepted sg e main blobs v tree"
  shows "finds m mt (set (wanted_paths e (writes_of e blobs))) (uv_at_main v)"
proof -
  from acc have "view_upload sg e main (ed_base_rev e) (writes_of e blobs) = Inr v" by (simp add: accepted_def)
  then show ?thesis
    by (rule view_uploadE) (rule entries_of_finds [OF laws mt])
qed

lemma wanted_write: "(f, blob) \<in> set ws \<Longrightarrow> sf_path f \<in> set (wanted_paths e ws)"
  by (force simp: wanted_paths_def)

lemma wanted_delete: "d \<in> set (ed_deletes e) \<Longrightarrow> d \<in> set (wanted_paths e ws)"
  by (force simp: wanted_paths_def)

lemma wanted_expected: "x \<in> set (ed_expected e) \<Longrightarrow> fst x \<in> set (wanted_paths e ws)"
  by (simp add: wanted_paths_def)

text \<open>A path the save changed was asked for and may be published or deleted.\<close>

definition may_write :: "edits \<Rightarrow> path \<Rightarrow> bool" where
  "may_write e p \<longleftrightarrow> (\<exists>f \<in> set (ed_files e). sf_path f = p \<and> \<not> never_saved f)"

definition may_delete :: "edits \<Rightarrow> path \<Rightarrow> bool" where
  "may_delete e p \<longleftrightarrow> asks_to_delete e p \<and> deletion_allowed p"

lemma accepted_change:
  assumes laws: "save_git_laws sg m" and mt: "main_tree_of (sg_git sg) main = Some mt"
    and acc: "accepted sg e main blobs v tree" and ok: "edits_ok hid e"
    and ne: "leaf m tree p \<noteq> leaf m mt p"
  shows "if leaf m tree p = None then may_delete e p else may_write e p"
    and "p \<in> set (map (snd \<circ> snd) (ws_additions (uv_scan v)) @ uv_removals v)"
proof -
  let ?ls = "save_info main (uv_removals v) (ws_additions (uv_scan v))"
  from acc have "build_tree sg main (uv_removals v) (ws_additions (uv_scan v)) = Some tree" by (simp add: accepted_def)
  note B = build_tree_spec(2) [OF laws mt this, of p]
  with ne fold_lines_last [of ?ls "\<lambda>p. Merged (leaf m mt p)" p] obtain l where
    l: "l \<in> set ?ls" "line_path l = p" "Merged (leaf m tree p) = set_line l (\<lambda>p. Merged (leaf m mt p)) p" by auto
  then show "p \<in> set (map (snd \<circ> snd) (ws_additions (uv_scan v)) @ uv_removals v)"
    using save_info_paths [of main "uv_removals v" "ws_additions (uv_scan v)"] by auto
  show "if leaf m tree p = None then may_delete e p else may_write e p"
  proof (cases l)
    case (Remove z q)
    with l save_info_lines [of l main] have "q = p" "p \<in> set (uv_removals v)" "leaf m tree p = None" by auto
    with accepted_touched(2) [OF acc] show ?thesis by (simp add: may_delete_def)
  next
    case (Put mode blob q)
    with l have q: "q = p" "leaf m tree p = Some (mode, blob)" by simp_all
    with l(1) Put have a: "(mode, blob, p) \<in> set (ws_additions (uv_scan v))" by (simp add: save_info_put)
    obtain f where f: "(f, blob) \<in> set (writes_of e blobs)" "sf_path f = p"
      "\<forall>c. map_of (uv_at_main v) p = Some c \<longrightarrow> \<not> is_folder_entry c"
      "entry_changed (map_of (uv_at_main v) p) mode blob \<longrightarrow> \<not> ed_import e \<longrightarrow>
               (case unpublishable_reason p of
                  Some reason \<Rightarrow> (p, reason) \<in> set (ws_refused (uv_scan v))
                | None \<Rightarrow> max_publish_blob_bytes < sf_size f \<longrightarrow> p \<in> set (ws_too_large (uv_scan v)))"
      using accepted_touched(1) [OF acc a] by (auto simp: addition_law_def)
    have node: "map_of (uv_at_main v) p = gm_node m mt p"
      using findsD [OF accepted_at_main [OF laws mt acc] wanted_write [OF f(1)]] f(2) by simp
    have kept: "f \<in> set (ed_files e)" "ed_import e \<Longrightarrow> \<not> never_saved f"
      using f(1) ok acc by (auto simp: writes_of_iff kept_files_iff edits_ok_def accepted_def)
    have "entry_changed (map_of (uv_at_main v) p) mode blob"
      using ne f(3) q(2) unfolding node by (auto simp: entry_changed_def leaf_def is_folder_entry_def split: option.splits)
    moreover have "ws_refused (uv_scan v) = []" "ws_too_large (uv_scan v) = []"
    proof -
      from acc have "view_upload sg e main (ed_base_rev e) (writes_of e blobs) = Inr v" "uv_refused v = []"
        by (simp_all add: accepted_def)
      then show "ws_refused (uv_scan v) = []" by (elim view_uploadE) simp
      show "ws_too_large (uv_scan v) = []" using acc by (simp add: accepted_def)
    qed
    ultimately have "\<not> ed_import e \<Longrightarrow> \<not> never_saved f"
      using f(2,4) by (auto simp: never_saved_def split: option.splits)
    with kept f(2) q(2) show ?thesis by (auto simp: may_write_def)
  qed
qed

text \<open>Every file kept is on the tree.\<close>

lemma accepted_writes:
  assumes laws: "save_git_laws sg m" and mt: "main_tree_of (sg_git sg) main = Some mt"
    and acc: "accepted sg e main blobs v tree" and ok: "edits_ok hid e" and f: "f \<in> set (kept_files e)"
  shows "\<exists>mode. \<exists>f' \<in> set (ed_files e). sf_path f' = sf_path f
           \<and> leaf m tree (sf_path f) = Some (mode, hid (sf_staged_name f'))"
proof -
  from acc have bt: "build_tree sg main (uv_removals v) (ws_additions (uv_scan v)) = Some tree"
    and bl: "ed_blobs e = Some blobs" by (simp_all add: accepted_def)
  from ok f bl have "sf_path f \<in> fst ` set (rev blobs)" by (simp add: edits_ok_def)
  then obtain blob where blob: "map_of (rev blobs) (sf_path f) = Some blob"
    by (metis map_of_eq_None_iff not_None_eq)
  with f have "(f, blob) \<in> set (writes_of e blobs)" by (simp add: writes_of_iff)
  from accepted_touched(3) [OF acc this] obtain mode where
    a: "(mode, blob, sf_path f) \<in> set (ws_additions (uv_scan v))" by blast
  let ?puts = "map (\<lambda>(mode, oid, p). Put mode oid p) (ws_additions (uv_scan v))"
  have "sf_path f \<in> line_path ` set ?puts" using a by force
  then have put: "sf_path f \<in> line_path ` set ?puts" .
  have no_rm: "Remove z p \<notin> set ?puts" for z p by auto
  have split: "save_info main (uv_removals v) (ws_additions (uv_scan v))
      = take (length (uv_removals v)) (save_info main (uv_removals v) (ws_additions (uv_scan v))) @ ?puts"
    by (simp add: save_info_def Let_def)
  obtain g where g: "Merged (leaf m tree (sf_path f)) = fold set_line ?puts g (sf_path f)"
    using build_tree_spec(2) [OF laws mt bt, of "sf_path f"] by (subst (asm) split) simp
  from fold_lines_put_last [OF put no_rm] obtain mode2 blob2 where
    "Put mode2 blob2 (sf_path f) \<in> set ?puts" "fold set_line ?puts g (sf_path f) = Merged (Some (mode2, blob2))" by metis
  then have "(mode2, blob2, sf_path f) \<in> set (ws_additions (uv_scan v))" "leaf m tree (sf_path f) = Some (mode2, blob2)"
    using g by auto
  moreover from blob have "(sf_path f, blob) \<in> set blobs" by (auto dest: map_of_SomeD)
  with ok bl obtain f' where "f' \<in> set (ed_files e)" "sf_path f' = sf_path f" "blob = hid (sf_staged_name f')"
    unfolding edits_ok_def by (metis prod.inject)
  ultimately show ?thesis using addition_written(1) [OF acc] blob by (metis option.inject)
qed

text \<open>A deleted path is gone, unless it stood for the folder the client read there.\<close>

lemma accepted_deletes:
  assumes laws: "save_git_laws sg m" and mt: "main_tree_of (sg_git sg) main = Some mt"
    and acc: "accepted sg e main blobs v tree"
    and d: "d \<in> set (ed_deletes e)" "\<not> asks_to_write e d"
  shows "leaf m tree d = None
    \<or> (\<exists>base. ed_base_rev e = Some base \<and> Some base \<noteq> main
         \<and> (\<forall>bt. gt_tree_id (sg_git sg) base = Some bt \<longrightarrow> (\<exists>x. gm_node m bt d = Some x \<and> te_kind x = ''tree'')))"
proof -
  from acc have view: "view_upload sg e main (ed_base_rev e) (writes_of e blobs) = Inr v"
    and nb: "ds_needs_base (uv_deletes v) = []"
    and bt: "build_tree sg main (uv_removals v) (ws_additions (uv_scan v)) = Some tree" by (simp_all add: accepted_def)
  let ?ls = "save_info main (uv_removals v) (ws_additions (uv_scan v))"
  have np: "Put mode oid d \<notin> set ?ls" for mode oid
    using addition_written(2) [OF acc] d(2) by (auto simp: save_info_put)
  note B = build_tree_spec(2) [OF laws mt bt, of d]
  obtain looked_up at_base where V:
    "uv_deletes v = fold (scan_delete e (ed_base_rev e) looked_up) (ed_deletes e) \<lparr>ds_needs_base = [], ds_folders = [], ds_removals = []\<rparr>"
    "removals_of sg (ed_base_rev e) main at_base (uv_deletes v) = Some (uv_removals v)"
    "looked_up = (case at_base of Some x \<Rightarrow> x | None \<Rightarrow> uv_at_main v)"
    "at_base \<noteq> None \<Longrightarrow> ed_base_rev e \<noteq> main \<and> (\<exists>b. ed_base_rev e = Some b \<and> entries_at (sg_git sg) b (sort_dedup (ed_deletes e)) = at_base)"
    using view_uploadE [OF view] by metis
  note D = scan_deletes_law(2,3) [where e = e and base = "ed_base_rev e" and looked_up = looked_up and ds = "ed_deletes e"
      and s = "\<lparr>ds_needs_base = [], ds_folders = [], ds_removals = []\<rparr>", folded V(1)]
  from D(2) nb d(1) consider (removed) "d \<in> set (ds_removals (uv_deletes v))" | (folder) "d \<in> set (ds_folders (uv_deletes v))"
    by auto
  then show ?thesis
  proof cases
    case removed
    then have "d \<in> set (uv_removals v)" using removals_of_all [OF V(2)] by blast
    then have "d \<in> line_path ` set ?ls" by (simp add: save_info_paths)
    with fold_lines_removed [of d ?ls] np B show ?thesis by simp
  next
    case folder
    with D(1) obtain x where x: "map_of looked_up d = Some x" "is_folder_entry x" by auto
    show ?thesis
    proof (cases at_base)
      case None
      with V(3) x findsD [OF accepted_at_main [OF laws mt acc] wanted_delete [OF d(1)]]
      have "leaf m mt d = None" by (simp add: leaf_def is_folder_entry_def)
      with fold_lines_removed [of d ?ls] np B show ?thesis by simp
    next
      case (Some found)
      with V(4) obtain b where b: "ed_base_rev e = Some b" "ed_base_rev e \<noteq> main"
        "entries_at (sg_git sg) b (sort_dedup (ed_deletes e)) = Some found" by auto
      have "\<exists>x. gm_node m bt d = Some x \<and> te_kind x = ''tree''" if "gt_tree_id (sg_git sg) b = Some bt" for bt
        using findsD [OF entries_at_finds [OF laws that b(3)], of d] d(1) x V(3) Some by (auto simp: is_folder_entry_def)
      with b show ?thesis by auto
    qed
  qed
qed

lemma sort_dedup_none: "sort_dedup xs = [] \<longleftrightarrow> xs = []"
  by (metis set_empty set_sort_dedup)

text \<open>What the client read is what \<open>main\<close> has.\<close>

lemma checked_current:
  assumes laws: "save_git_laws sg m" and mt: "main_tree_of (sg_git sg) main = Some mt"
    and acc: "accepted sg e main blobs v tree"
    and check: "edits_check sg main (e\<lparr>ed_attempt := Some \<lparr>am_main_entries = uv_at_main v,
             am_touched = touched, am_swapped = swapped\<rparr>\<rparr>) = Inr ()"
  shows "(p, wanted) \<in> set (ed_expected e) \<Longrightarrow> map_option held_text (gm_node m mt p) = wanted"
    and "ed_base_rev e = Some base \<Longrightarrow> gt_tree_id (sg_git sg) base = Some bt \<Longrightarrow> p \<in> set touched \<Longrightarrow>
         q \<in> set (p # slash_prefixes p) \<Longrightarrow> leaf m mt q = leaf m bt q"
proof -
  let ?stale = "map fst (filter (\<lambda>(p, wanted). map_option held_text (map_of (uv_at_main v) p) \<noteq> wanted) (ed_expected e))"
  have stale: "edits_stale sg main (e\<lparr>ed_attempt := Some \<lparr>am_main_entries = uv_at_main v,
             am_touched = touched, am_swapped = swapped\<rparr>\<rparr>) = Inr []"
    using check by (auto simp: edits_check_def and_then_def split: sum.splits if_splits)
  have none: "?stale = []" and moved: "ed_base_rev e = Some base \<Longrightarrow> Some base \<noteq> main \<Longrightarrow> moved_since (sg_git sg) base main touched = Some []"
    using stale
    by (auto simp: edits_stale_def Let_def and_then_def or_internal_def sort_dedup_none split: option.splits if_splits sum.splits)
  show "map_option held_text (gm_node m mt p) = wanted" if "(p, wanted) \<in> set (ed_expected e)"
  proof -
    have "map_of (uv_at_main v) p = gm_node m mt p"
      using findsD [OF accepted_at_main [OF laws mt acc] wanted_expected [OF that]] by simp
    moreover have "\<not> (case (p, wanted) of (p, wanted) \<Rightarrow> map_option held_text (map_of (uv_at_main v) p) \<noteq> wanted)"
      using none that by (auto simp: filter_empty_conv)
    ultimately show ?thesis by simp
  qed
  show "leaf m mt q = leaf m bt q"
    if "ed_base_rev e = Some base" "gt_tree_id (sg_git sg) base = Some bt" "p \<in> set touched" "q \<in> set (p # slash_prefixes p)"
  proof (cases "Some base = main")
    case True
    with that(2) mt show ?thesis by (auto simp: main_tree_of_def)
  next
    case False
    with moved that(1) have "moved_since (sg_git sg) base main touched = Some []" by simp
    from moved_since_spec [OF laws mt that(2) this that(3) _ that(4)] show ?thesis by simp
  qed
qed

section \<open>An exact save\<close>

text \<open>The saved tree against the tree of the \<open>main\<close> it goes on: every changed path was to be written
  and may be published, or was to be deleted and may be; \<open>main\<close> held there what the version the
  client read held; every blob the client expected was there; every file is in (an import may have
  skipped some); and every deleted path is gone, unless it stood for the folder read there.\<close>

definition saved_exactly ::
  "(string \<Rightarrow> string) \<Rightarrow> 'i git_tool \<Rightarrow> 'i git_model \<Rightarrow> edits \<Rightarrow> string option \<Rightarrow> string \<Rightarrow> string \<Rightarrow> bool" where
  "saved_exactly hid g m u main mt tree \<longleftrightarrow>
     (\<forall>p. leaf m tree p \<noteq> leaf m mt p \<longrightarrow>
        (if leaf m tree p = None then may_delete u p else may_write u p)
        \<and> (\<forall>base bt. ed_base_rev u = Some base \<longrightarrow> gt_tree_id g base = Some bt \<longrightarrow> leaf m mt p = leaf m bt p))
     \<and> (\<forall>(p, wanted) \<in> set (ed_expected u). map_option held_text (gm_node m mt p) = wanted)
     \<and> (\<not> ed_import u \<longrightarrow> (\<forall>f \<in> set (ed_files u). \<exists>mode. \<exists>f' \<in> set (ed_files u). sf_path f' = sf_path f
          \<and> leaf m tree (sf_path f) = Some (mode, hid (sf_staged_name f'))))
     \<and> (\<forall>d \<in> set (ed_deletes u). \<not> asks_to_write u d \<longrightarrow>
          leaf m tree d = None
          \<or> (\<exists>base. ed_base_rev u = Some base \<and> Some base \<noteq> main
               \<and> (\<forall>bt. gt_tree_id g base = Some bt \<longrightarrow> (\<exists>x. gm_node m bt d = Some x \<and> te_kind x = ''tree''))))"

lemma hash_once_request:
  "hash_once sg e = (r, e') \<Longrightarrow>
     (ed_files e', ed_deletes e', ed_base_rev e', ed_expected e', ed_import e', ed_add_ignored e')
     = (ed_files e, ed_deletes e, ed_base_rev e, ed_expected e, ed_import e, ed_add_ignored e)"
  by (auto simp: hash_once_def skip_unsaveable_def Let_def split: option.splits sum.splits if_splits)

lemma upload_exact:
  assumes laws: "save_git_laws sg m" and hash: "hashes_as hid sg"
    and mt: "main_tree_of (sg_git sg) main = Some mt" and ok: "edits_ok hid u"
    and build: "edits_build sg main u = (Inr tree, u')" and check: "edits_check sg main u' = Inr ()"
  shows "saved_exactly hid (sg_git sg) m u main mt tree"
proof -
  from edits_buildE [OF build] obtain blobs v e where h: "hash_once sg u = (Inr blobs, e)"
    and acc: "accepted sg e main blobs v tree"
    and u': "u' = e\<lparr>ed_attempt := Some
            \<lparr>am_main_entries = uv_at_main v,
             am_touched = map (snd \<circ> snd) (ws_additions (uv_scan v)) @ uv_removals v,
             am_swapped = swapped_deletes e (uv_at_main v) (ds_folders (uv_deletes v))\<rparr>\<rparr>" by metis
  note ok' = hash_once_ok(1) [OF hash h ok]
  have q: "ed_files e = ed_files u" "ed_deletes e = ed_deletes u" "ed_base_rev e = ed_base_rev u"
    "ed_expected e = ed_expected u" "ed_import e = ed_import u"
    using hash_once_request [OF h] by simp_all
  note C = checked_current [OF laws mt acc check [unfolded u']]
  note ch = accepted_change [OF laws mt acc ok']
  have may: "may_write e p = may_write u p" "may_delete e p = may_delete u p" "asks_to_write e p = asks_to_write u p" for p
    by (simp_all add: may_write_def may_delete_def asks_to_delete_def asks_to_write_def q)
  have kept: "f \<in> set (kept_files e)" if "\<not> ed_import u" "f \<in> set (ed_files u)" for f
    using ok' that by (auto simp: edits_ok_def kept_files_iff q)
  show ?thesis
    unfolding saved_exactly_def
  proof (intro conjI allI ballI impI)
    fix p assume ne: "leaf m tree p \<noteq> leaf m mt p"
    show "if leaf m tree p = None then may_delete u p else may_write u p"
      using ch(1) [OF ne] unfolding may .
    show "leaf m mt p = leaf m bt p" if "ed_base_rev u = Some base" "gt_tree_id (sg_git sg) base = Some bt" for base bt
      using C(2) [of base bt p p] that ch(2) [OF ne] q by simp
  next
    fix x assume "x \<in> set (ed_expected u)"
    then show "case x of (p, wanted) \<Rightarrow> map_option held_text (gm_node m mt p) = wanted"
      using C(1) [of "fst x" "snd x"] q by (simp add: case_prod_unfold)
  next
    fix f assume "\<not> ed_import u" "f \<in> set (ed_files u)"
    from accepted_writes [OF laws mt acc ok' kept [OF this]]
    show "\<exists>mode. \<exists>f' \<in> set (ed_files u). sf_path f' = sf_path f \<and> leaf m tree (sf_path f) = Some (mode, hid (sf_staged_name f'))"
      by (simp add: q)
  next
    fix d assume "d \<in> set (ed_deletes u)" "\<not> asks_to_write u d"
    then show "leaf m tree d = None
          \<or> (\<exists>base. ed_base_rev u = Some base \<and> Some base \<noteq> main
               \<and> (\<forall>bt. gt_tree_id (sg_git sg) base = Some bt \<longrightarrow> (\<exists>x. gm_node m bt d = Some x \<and> te_kind x = ''tree'')))"
      using accepted_deletes [OF laws mt acc, of d] by (simp add: q may)
  qed
qed

end
