(* ===== verification/Hosted_Safety.thy ===== *)
theory Hosted_Safety
  imports Hosted_Cas Hosted_Uploads
begin

text \<open>
  A save is applied at most once, on the \<open>main\<close> it was built from, and its answer tells whether it
  was. Canonical and its other writers are known by the laws of \<open>save_laws\<close>.
\<close>

section \<open>Canonical \<open>main\<close>\<close>

text \<open>What a world says of canonical: the commits \<open>main\<close> has named so far, oldest first; those of
  them that pushes of this change put there; the commits made for this change that canonical has not
  got. Beside it, which commits descend from which, and the trees of commits.\<close>

record 'w canonical_view =
  cv_log :: "'w \<Rightarrow> string list"
  cv_mine :: "'w \<Rightarrow> string list"
  cv_held :: "'w \<Rightarrow> string set"
  cv_anc :: "string \<Rightarrow> string \<Rightarrow> bool"
  cv_tree :: "string \<Rightarrow> string"

definition newest :: "string list \<Rightarrow> string option" where
  "newest l = (if l = [] then None else Some (last l))"

definition passes :: "'w canonical_view \<Rightarrow> 'w \<Rightarrow> 'w \<Rightarrow> bool" where
  "passes v w w' \<longleftrightarrow>
     prefix (cv_log v w) (cv_log v w') \<and> cv_mine v w' = cv_mine v w \<and> cv_held v w' = cv_held v w"

text \<open>A push lands when canonical takes the commit: on a tip that is an ancestor of it, on no tip at all
  when it may only create the ref. Other commits may land before and after it.\<close>

definition lands :: "'w canonical_view \<Rightarrow> string \<Rightarrow> bool \<Rightarrow> 'w \<Rightarrow> 'w \<Rightarrow> bool" where
  "lands v c create w w' \<longleftrightarrow>
     (\<exists>l. prefix (cv_log v w) l \<and> prefix (l @ [c]) (cv_log v w') \<and> c \<notin> set l
        \<and> (l \<noteq> [] \<longrightarrow> \<not> create \<and> cv_anc v (last l) c))
     \<and> cv_mine v w' = cv_mine v w @ [c] \<and> cv_held v w' = cv_held v w - {c}"

text \<open>\<open>main\<close> only moves to descendants, and no commit on it descends from one that canonical has not
  got.\<close>

definition view_laws :: "'w canonical_view \<Rightarrow> bool" where
  "view_laws v \<longleftrightarrow>
     reflp (cv_anc v) \<and> antisymp (cv_anc v)
     \<and> (\<forall>w. sorted_wrt (cv_anc v) (cv_log v w))
     \<and> (\<forall>w. \<forall>c \<in> cv_held v w. \<forall>a \<in> set (cv_log v w). \<not> cv_anc v c a)"

definition quiet :: "'w canonical_view \<Rightarrow> ('w \<Rightarrow> 'w) \<Rightarrow> bool" where
  "quiet v f \<longleftrightarrow> (\<forall>w. passes v w (f w))"

definition fetch_law :: "('w, 'i) save_env \<Rightarrow> 'w canonical_view \<Rightarrow> bool" where
  "fetch_law e v \<longleftrightarrow>
     (\<forall>w r w'. se_fetch_main e w = (r, w') \<longrightarrow>
        passes v w w' \<and> (\<forall>m. r = Inr m \<longrightarrow> (\<exists>l. prefix (cv_log v w) l \<and> prefix l (cv_log v w') \<and> m = newest l)))"

definition commit_law :: "('w, 'i) save_env \<Rightarrow> 'w canonical_view \<Rightarrow> bool" where
  "commit_law e v \<longleftrightarrow>
     (\<forall>tree parents text w r w'. se_commit_tree e tree parents text w = (r, w') \<longrightarrow>
        (case r of
           None \<Rightarrow> passes v w w'
         | Some c \<Rightarrow>
             prefix (cv_log v w) (cv_log v w') \<and> cv_mine v w' = cv_mine v w \<and> cv_held v w' = insert c (cv_held v w)
             \<and> cv_tree v c = tree \<and> (\<forall>x. cv_anc v x c \<longleftrightarrow> x = c \<or> (\<exists>p \<in> set parents. cv_anc v x p))))"

text \<open>A push that canonical answers with a refusal, or whose credential it refuses, takes nothing; one
  without an answer may have landed.\<close>

definition takes_nothing :: "string + push_class \<Rightarrow> bool" where
  "takes_nothing r \<longleftrightarrow>
     (case r of
        Inl d \<Rightarrow> credential_refused d
      | Inr Pushed \<Rightarrow> False
      | Inr (Ambiguous d) \<Rightarrow> credential_refused d
      | Inr _ \<Rightarrow> True)"

definition push_law :: "('w, 'i) save_env \<Rightarrow> 'w canonical_view \<Rightarrow> bool" where
  "push_law e v \<longleftrightarrow>
     (\<forall>c create token w r w'. c \<in> cv_held v w \<longrightarrow> se_push e c create token w = (r, w') \<longrightarrow>
        (if takes_nothing r then passes v w w'
         else if r = Inr Pushed then lands v c create w w'
         else passes v w w' \<or> lands v c create w w'))"

definition save_laws :: "('w, 'i) save_env \<Rightarrow> 'w canonical_view \<Rightarrow> bool" where
  "save_laws e v \<longleftrightarrow>
     view_laws v \<and> fetch_law e v \<and> commit_law e v \<and> push_law e v
     \<and> (\<forall>w. passes v w (snd (se_write_token e w)))
     \<and> quiet v (se_token_refused e) \<and> (\<forall>c m p. quiet v (se_pushed e c m p)) \<and> quiet v (se_grew e)
     \<and> (\<forall>w. passes v w (snd (se_promote e w))) \<and> (\<forall>n. quiet v (se_jitter e n))
     \<and> (\<forall>w c a b. sg_is_ancestor (se_git e w) c a = Some b \<longrightarrow> (b \<longleftrightarrow> cv_anc v c a))"

lemma save_lawsD:
  assumes "save_laws e v"
  shows "view_laws v"
    and "se_fetch_main e w = (r, w') \<Longrightarrow> passes v w w'"
    and "se_fetch_main e w = (Inr m, w') \<Longrightarrow> \<exists>l. prefix (cv_log v w) l \<and> prefix l (cv_log v w') \<and> m = newest l"
    and "se_commit_tree e tree parents text w = (None, w') \<Longrightarrow> passes v w w'"
    and "se_commit_tree e tree parents text w = (Some c, w') \<Longrightarrow>
          prefix (cv_log v w) (cv_log v w') \<and> cv_mine v w' = cv_mine v w \<and> cv_held v w' = insert c (cv_held v w)
          \<and> cv_tree v c = tree \<and> (\<forall>x. cv_anc v x c \<longleftrightarrow> x = c \<or> (\<exists>p \<in> set parents. cv_anc v x p))"
    and "c \<in> cv_held v w \<Longrightarrow> se_push e c create token w = (cl, w') \<Longrightarrow> takes_nothing cl \<Longrightarrow> passes v w w'"
    and "c \<in> cv_held v w \<Longrightarrow> se_push e c create token w = (Inr Pushed, w') \<Longrightarrow> lands v c create w w'"
    and "c \<in> cv_held v w \<Longrightarrow> se_push e c create token w = (cl, w') \<Longrightarrow> passes v w w' \<or> lands v c create w w'"
    and "passes v w (snd (se_write_token e w))" "passes v w (se_token_refused e w)"
      "passes v w (se_pushed e c m' p w)" "passes v w (se_grew e w)" "passes v w (snd (se_promote e w))"
      "passes v w (se_jitter e n w)"
    and "sg_is_ancestor (se_git e w) c a = Some b \<Longrightarrow> b \<longleftrightarrow> cv_anc v c a"
proof -
  have "fetch_law e v" "commit_law e v" and p: "push_law e v" using assms by (simp_all add: save_laws_def)
  then show "se_fetch_main e w = (r, w') \<Longrightarrow> passes v w w'"
    "se_fetch_main e w = (Inr m, w') \<Longrightarrow> \<exists>l. prefix (cv_log v w) l \<and> prefix l (cv_log v w') \<and> m = newest l"
    "se_commit_tree e tree parents text w = (None, w') \<Longrightarrow> passes v w w'"
    "se_commit_tree e tree parents text w = (Some c, w') \<Longrightarrow>
          prefix (cv_log v w) (cv_log v w') \<and> cv_mine v w' = cv_mine v w \<and> cv_held v w' = insert c (cv_held v w)
          \<and> cv_tree v c = tree \<and> (\<forall>x. cv_anc v x c \<longleftrightarrow> x = c \<or> (\<exists>p \<in> set parents. cv_anc v x p))"
    unfolding fetch_law_def commit_law_def by (force split: option.splits)+
  have pl: "if takes_nothing cl then passes v w w'
         else if cl = Inr Pushed then lands v c create w w'
         else passes v w w' \<or> lands v c create w w'"
    if "c \<in> cv_held v w" "se_push e c create token w = (cl, w')" for cl
    using p that unfolding push_law_def by blast
  show "c \<in> cv_held v w \<Longrightarrow> se_push e c create token w = (cl, w') \<Longrightarrow> takes_nothing cl \<Longrightarrow> passes v w w'"
    "c \<in> cv_held v w \<Longrightarrow> se_push e c create token w = (Inr Pushed, w') \<Longrightarrow> lands v c create w w'"
    "c \<in> cv_held v w \<Longrightarrow> se_push e c create token w = (cl, w') \<Longrightarrow> passes v w w' \<or> lands v c create w w'"
    using pl [of cl] pl [of "Inr Pushed"] by (auto simp: takes_nothing_def split: if_splits)
qed (use assms in \<open>simp_all add: save_laws_def quiet_def\<close>)

section \<open>Steps in the world\<close>

lemma passes_refl [simp]: "passes v w w"
  by (simp add: passes_def)

lemma passes_trans [trans]: "passes v w1 w2 \<Longrightarrow> passes v w2 w3 \<Longrightarrow> passes v w1 w3"
  by (auto simp: passes_def intro: prefix_order.trans)

lemma sorted_wrt_prefix: "prefix xs ys \<Longrightarrow> sorted_wrt P ys \<Longrightarrow> sorted_wrt P xs"
  by (auto simp: prefix_def sorted_wrt_append)

lemma prefix_set: "prefix xs ys \<Longrightarrow> x \<in> set xs \<Longrightarrow> x \<in> set ys"
  by (auto simp: prefix_def)

text \<open>The commit is on \<open>main\<close>, put there by this change, right after \<open>base\<close>.\<close>

definition landed_on :: "'w canonical_view \<Rightarrow> string \<Rightarrow> string option \<Rightarrow> 'w \<Rightarrow> 'w \<Rightarrow> bool" where
  "landed_on v c base w w' \<longleftrightarrow>
     cv_mine v w' = cv_mine v w @ [c] \<and> (\<exists>l. prefix (l @ [c]) (cv_log v w') \<and> newest l = base)"

lemma landed_on_passes: "landed_on v c base w w' \<Longrightarrow> passes v w' w'' \<Longrightarrow> landed_on v c base w w''"
  unfolding landed_on_def passes_def by (metis prefix_order.trans)

lemma passes_landed_on: "passes v w w' \<Longrightarrow> landed_on v c base w' w'' \<Longrightarrow> landed_on v c base w w''"
  by (simp add: landed_on_def passes_def)

definition child_of :: "'w canonical_view \<Rightarrow> string \<Rightarrow> string option \<Rightarrow> bool" where
  "child_of v c main \<longleftrightarrow>
     (\<forall>x. cv_anc v x c \<longleftrightarrow> x = c \<or> (\<exists>p \<in> set (case main of Some m \<Rightarrow> [m] | None \<Rightarrow> []). cv_anc v x p))"

definition past_main :: "'w canonical_view \<Rightarrow> string option \<Rightarrow> 'w \<Rightarrow> bool" where
  "past_main v main w \<longleftrightarrow> (\<forall>m. main = Some m \<longrightarrow> m \<in> set (cv_log v w))"

lemma past_main_passes: "past_main v main w \<Longrightarrow> prefix (cv_log v w) (cv_log v w') \<Longrightarrow> past_main v main w'"
  by (auto simp: past_main_def dest: prefix_set)

lemma newest_past: "prefix l (cv_log v w) \<Longrightarrow> past_main v (newest l) w"
  by (auto simp: past_main_def newest_def split: if_splits intro: prefix_set)

text \<open>A landing is on the very \<open>main\<close> the commit was made on.\<close>

lemma lands_on_base:
  assumes laws: "view_laws v" and land: "lands v c (main = None) w w'"
    and past: "past_main v main w" and child: "child_of v c main"
  shows "landed_on v c main w w'"
proof -
  from land obtain l where l: "prefix (cv_log v w) l" "prefix (l @ [c]) (cv_log v w')" "c \<notin> set l"
    "l \<noteq> [] \<Longrightarrow> main \<noteq> None \<and> cv_anc v (last l) c" and mine: "cv_mine v w' = cv_mine v w @ [c]"
    unfolding lands_def by blast
  have "newest l = main"
  proof (cases main)
    case None
    with l(4) show ?thesis by (cases "l = []") (simp_all add: newest_def)
  next
    case (Some m)
    with past l(1) have m: "m \<in> set l" by (auto simp: past_main_def dest: prefix_set)
    then have ne: "l \<noteq> []" by auto
    with l(4) have "cv_anc v (last l) c" by blast
    moreover have "last l \<noteq> c" using l(3) ne by (metis last_in_set)
    ultimately have down: "cv_anc v (last l) m" using child Some by (simp add: child_of_def)
    have "sorted_wrt (cv_anc v) (cv_log v w')" using laws by (simp add: view_laws_def)
    with l(2) have "sorted_wrt (cv_anc v) (l @ [c])" by (rule sorted_wrt_prefix)
    then have "sorted_wrt (cv_anc v) l" by (simp add: sorted_wrt_append)
    moreover obtain init where init: "l = init @ [last l]" using ne by (metis append_butlast_last_id)
    ultimately have "sorted_wrt (cv_anc v) (init @ [last l])" by simp
    then have "\<forall>x \<in> set init. cv_anc v x (last l)" by (simp add: sorted_wrt_append)
    moreover have "m \<in> set (init @ [last l])" using m init by simp
    ultimately have "m = last l \<or> cv_anc v m (last l)" by auto
    with down laws have "m = last l" by (auto simp: view_laws_def dest: antisympD)
    with ne Some show ?thesis by (simp add: newest_def)
  qed
  with l(2) mine show ?thesis unfolding landed_on_def by blast
qed

text \<open>Whether a commit landed can be told from a \<open>main\<close> fetched later.\<close>

lemma landed_seen:
  assumes laws: "view_laws v" and land: "lands v c create w w'"
    and l: "prefix (cv_log v w') l" "prefix l (cv_log v w'')"
  shows "\<exists>a. newest l = Some a \<and> cv_anc v c a"
proof -
  from land obtain l0 where "prefix (l0 @ [c]) (cv_log v w')" unfolding lands_def by blast
  then have "c \<in> set (cv_log v w')" by (rule prefix_set) simp
  with l(1) have c: "c \<in> set l" by (rule prefix_set)
  then have ne: "l \<noteq> []" by auto
  have "sorted_wrt (cv_anc v) (cv_log v w'')" using laws by (simp add: view_laws_def)
  with l(2) have s: "sorted_wrt (cv_anc v) l" by (rule sorted_wrt_prefix)
  have "cv_anc v c (last l)"
  proof (cases "c = last l")
    case True
    then show ?thesis using laws by (auto simp: view_laws_def dest: reflpD)
  next
    case False
    obtain init where init: "l = init @ [last l]" using ne append_butlast_last_id by metis
    have "c \<in> set (init @ [last l])" using c init by simp
    with False have "c \<in> set init" by simp
    moreover have "sorted_wrt (cv_anc v) (init @ [last l])" using s init by simp
    ultimately show ?thesis by (simp add: sorted_wrt_append)
  qed
  with ne show ?thesis by (simp add: newest_def)
qed

lemma unlanded_unseen:
  assumes laws: "view_laws v" and "c \<in> cv_held v w''" and l: "prefix l (cv_log v w'')" "newest l = Some a"
  shows "\<not> cv_anc v c a"
proof -
  have "a \<in> set (cv_log v w'')" using l by (auto simp: newest_def split: if_splits intro: prefix_set)
  with assms(1,2) show ?thesis by (auto simp: view_laws_def)
qed

section \<open>One attempt\<close>

text \<open>Fetches and ancestor checks that never fail.\<close>

definition answers_always :: "('w, 'i) save_env \<Rightarrow> bool" where
  "answers_always e \<longleftrightarrow>
     (\<forall>w. \<exists>m w'. se_fetch_main e w = (Inr m, w')) \<and> (\<forall>w c a. sg_is_ancestor (se_git e w) c a \<noteq> None)"

definition delivered ::
  "('w, 'i) save_env \<Rightarrow> 'w canonical_view \<Rightarrow> string \<Rightarrow> string option \<Rightarrow> nat step \<Rightarrow> 'w \<Rightarrow> 'w \<Rightarrow> bool" where
  "delivered e v c main st w w' \<longleftrightarrow>
     (case st of
        Going _ \<Rightarrow> passes v w w'
      | Answered (Inr out) \<Rightarrow> out = landed_outcome c main \<and> landed_on v c main w w'
      | Answered (Inl _) \<Rightarrow> passes v w w' \<or> (landed_on v c main w w' \<and> \<not> answers_always e))"

lemma not_always:
  "se_fetch_main e w = (Inl err, w') \<Longrightarrow> \<not> answers_always e"
  "sg_is_ancestor (se_git e w) c a = None \<Longrightarrow> \<not> answers_always e"
  unfolding answers_always_def by (metis Inl_Inr_False prod.inject) blast

lemma settle_push_delivered:
  assumes laws: "save_laws e v" and held: "c \<in> cv_held v w"
    and two: "passes v w w1 \<or> (lands v c create w0 w1 \<and> landed_on v c main w w1)"
    and res: "settle_push e attempt c main w1 = (st, w')"
  shows "delivered e v c main st w w'"
proof -
  note L = save_lawsD [OF laws]
  obtain m w2 where f: "se_fetch_main e w1 = (m, w2)" by (cases "se_fetch_main e w1")
  note p12 = L(2) [OF f]
  consider (failed) "\<not> answers_always e" "\<exists>err. st = Answered (Inl err)" "w' = w2"
    | (gone) "m = Inr None" "st = Going 0" "w' = se_jitter e attempt w2"
    | (seen) a where "m = Inr (Some a)" "sg_is_ancestor (se_git e w2) c a = Some True"
        "st = Answered (Inr (landed_outcome c main))"
        "w' = (if fst (se_promote e w2) then se_grew e (snd (se_promote e w2)) else snd (se_promote e w2))"
    | (unseen) a where "m = Inr (Some a)" "sg_is_ancestor (se_git e w2) c a = Some False" "st = Going 0" "w' = se_jitter e attempt w2"
    using res f unfolding settle_push_def
    by (auto split: sum.splits option.splits bool.splits prod.splits dest: not_always)
  then show ?thesis
  proof cases
    case failed
    with two p12 show ?thesis by (auto simp: delivered_def intro: passes_trans landed_on_passes)
  next
    case gone
    have "\<not> lands v c create w0 w1"
      using L(3) [OF f [unfolded gone(1)]] landed_seen [OF L(1), of c create w0 w1 _ w2] by fastforce
    with two have "passes v w w1" by blast
    from passes_trans [OF passes_trans [OF this p12] L(14)] gone show ?thesis by (simp add: delivered_def)
  next
    case (seen a)
    from L(3) [OF f [unfolded seen(1)]] obtain l where l: "prefix l (cv_log v w2)" "newest l = Some a" by fastforce
    have "\<not> passes v w w1"
    proof
      assume "passes v w w1"
      with p12 held have "c \<in> cv_held v w2" by (simp add: passes_def)
      from unlanded_unseen [OF L(1) this l] L(15) [OF seen(2)] show False by simp
    qed
    with two have "landed_on v c main w w1" by blast
    moreover have "passes v w1 w'"
      using passes_trans [OF p12 passes_trans [OF L(13) [of w2] L(12)]] passes_trans [OF p12 L(13) [of w2]] seen(4)
      by simp
    ultimately show ?thesis using seen(3) landed_on_passes by (simp add: delivered_def)
  next
    case (unseen a)
    from L(3) [OF f [unfolded unseen(1)]] obtain l where
      l: "prefix (cv_log v w1) l" "prefix l (cv_log v w2)" "newest l = Some a" by fastforce
    have "\<not> lands v c create w0 w1"
      using landed_seen [OF L(1) _ l(1,2)] l(3) L(15) [OF unseen(2)] by auto
    with two have "passes v w w1" by blast
    from passes_trans [OF passes_trans [OF this p12] L(14)] unseen show ?thesis by (simp add: delivered_def)
  qed
qed

lemma deliver_delivered:
  assumes laws: "save_laws e v" and held: "c \<in> cv_held v w" and child: "child_of v c main"
    and past: "past_main v main w" and res: "deliver e attempt n c main s w = (st, s', w')"
  shows "delivered e v c main st w w'"
proof -
  note L = save_lawsD [OF laws]
  obtain tok w1 where tok: "se_write_token e w = (tok, w1)" by (cases "se_write_token e w")
  have p1: "passes v w w1" using L(9) [of w] tok by simp
  show ?thesis
  proof (cases tok)
    case (Inl err)
    with res tok p1 show ?thesis by (auto simp: deliver_def delivered_def)
  next
    case token: (Inr token)
    obtain pushed w2 where push: "se_push e c (main = None) token w1 = (pushed, w2)"
      by (cases "se_push e c (main = None) token w1")
    define cls where "cls = (case pushed of Inr cl \<Rightarrow> cl | Inl detail \<Rightarrow> Ambiguous detail)"
    define refusal where "refusal = (case cls of Rejected d \<Rightarrow> credential_refused d
                                      | Ambiguous d \<Rightarrow> credential_refused d | _ \<Rightarrow> False)"
    have h1: "c \<in> cv_held v w1" and past1: "past_main v main w1"
      using p1 held past by (auto simp: passes_def intro: past_main_passes)
    have untaken: "passes v w w2" if "takes_nothing pushed"
      by (rule passes_trans [OF p1 L(6) [OF h1 push that]])
    have landing: "landed_on v c main w w2" if "lands v c (main = None) w1 w2"
      using lands_on_base [OF L(1) that past1 child] passes_landed_on [OF p1] by blast
    note body = res [unfolded deliver_def tok token prod.case sum.case push Let_def
        cls_def [symmetric] refusal_def [symmetric]]
    have tn: "takes_nothing pushed" if "refusal \<or> (cls \<noteq> Pushed \<and> (\<forall>d. cls \<noteq> Ambiguous d))"
      using that unfolding refusal_def cls_def takes_nothing_def
      by (auto split: sum.splits push_class.splits)
    show ?thesis
    proof (cases refusal)
      case True
      have p2: "passes v w w2" by (rule untaken [OF tn]) (simp add: True)
      with passes_trans [OF p2 L(10)] body True show ?thesis
        by (auto simp: delivered_def split: if_splits)
    next
      case no: False
      note body = body [unfolded if_not_P [OF no]]
      show ?thesis
      proof (cases cls)
        case Pushed
        then have "pushed = Inr Pushed" unfolding cls_def by (auto split: sum.splits)
        with L(7) [OF h1] push have "landed_on v c main w w2" by (intro landing) simp
        moreover obtain b w3 where pr: "se_promote e w2 = (b, w3)" by (cases "se_promote e w2")
        moreover have "passes v w2 (se_pushed e c main b w3)"
          using passes_trans [OF L(13) [of w2] L(11) [of "snd (se_promote e w2)"]] pr by simp
        ultimately show ?thesis using body Pushed by (auto simp: delivered_def intro: landed_on_passes)
      next
        case (LostRace d)
        have n: "passes v w w2" by (rule untaken [OF tn]) (simp add: LostRace)
        from passes_trans [OF n L(14)] body LostRace show ?thesis by (auto simp: delivered_def)
      next
        case (PathRejected p reason others)
        have n: "passes v w w2" by (rule untaken [OF tn]) (simp add: PathRejected)
        obtain r s1 where r: "refuse_path p reason s = (r, s1)" by (cases "refuse_path p reason s")
        from n passes_trans [OF n L(14)] body PathRejected r show ?thesis
          by (cases r) (auto simp: delivered_def)
      next
        case (Rejected d)
        have n: "passes v w w2" by (rule untaken [OF tn]) (simp add: Rejected)
        from n body Rejected show ?thesis by (auto simp: delivered_def)
      next
        case (Ambiguous d)
        have "passes v w w2 \<or> (lands v c (main = None) w1 w2 \<and> landed_on v c main w w2)"
          using L(8) [OF h1 push] passes_trans [OF p1, of w2] landing by blast
        moreover from body Ambiguous have "settle_push e attempt c main w2 = (st, w')"
          by (auto split: prod.splits)
        ultimately show ?thesis by (rule settle_push_delivered [OF laws held])
      qed
    qed
  qed
qed

section \<open>What a change asks for\<close>

text \<open>Attempts fill in what they learn (blobs, what was skipped or refused); what the caller asked for
  stays.\<close>

fun same_request :: "change \<Rightarrow> change \<Rightarrow> bool" where
  "same_request (EditsChange a) (EditsChange b) \<longleftrightarrow>
     (ed_files b, ed_deletes b, ed_base_rev b, ed_expected b, ed_import b, ed_add_ignored b)
     = (ed_files a, ed_deletes a, ed_base_rev a, ed_expected a, ed_import a, ed_add_ignored a)"
| "same_request (RevertChange a) (RevertChange b) \<longleftrightarrow> b = a"
| "same_request (RestoreChange a) (RestoreChange b) \<longleftrightarrow>
     (hr_commit b, hr_keep b, hr_base_rev b) = (hr_commit a, hr_keep a, hr_base_rev a)"
| "same_request _ _ \<longleftrightarrow> False"

lemma same_request_refl [simp]: "same_request c c"
  by (cases c) simp_all

lemma same_request_trans: "same_request a b \<Longrightarrow> same_request b c \<Longrightarrow> same_request a c"
  by (cases a; cases b; cases c) simp_all

lemma hash_once_same: "hash_once sg e = (r, e') \<Longrightarrow> same_request (EditsChange e) (EditsChange e')"
  by (auto simp: hash_once_def skip_unsaveable_def Let_def split: option.splits sum.splits if_splits)

lemma edits_build_same: "edits_build sg main e = (r, e') \<Longrightarrow> same_request (EditsChange e) (EditsChange e')"
  by (auto simp: edits_build_def Let_def split: prod.splits sum.splits dest!: hash_once_same)

lemma restore_build_same:
  "restore_build sg main h = (r, h') \<Longrightarrow> same_request (RestoreChange h) (RestoreChange h')"
  by (auto simp: restore_build_def split: sum.splits option.splits plan_error.splits)

lemma change_build_same: "change_build sg main c = (r, c') \<Longrightarrow> same_request c c'"
  by (cases c) (auto simp: map_prod_def dest!: edits_build_same restore_build_same split: prod.splits)

lemma refuse_path_same: "refuse_path p reason c = (r, c') \<Longrightarrow> same_request c c'"
  by (cases c) (auto simp: restore_refused_def split: if_splits)

definition continues :: "('w, 'i) save_env \<Rightarrow> change \<Rightarrow> change \<Rightarrow> bool" where
  "continues e c c' \<longleftrightarrow>
     same_request c c' \<and> (\<forall>hid. (\<forall>w. hashes_as hid (se_git e w)) \<longrightarrow> change_ok hid c \<longrightarrow> change_ok hid c')"

lemma continues_refl [simp]: "continues e c c"
  by (simp add: continues_def)

lemma continues_trans: "continues e a b \<Longrightarrow> continues e b c \<Longrightarrow> continues e a c"
  by (auto simp: continues_def intro: same_request_trans)

lemma change_build_continues: "change_build (se_git e w) main c = (r, c') \<Longrightarrow> continues e c c'"
  by (auto simp: continues_def dest: change_build_same change_build_ok)

lemma refuse_path_continues: "refuse_path p reason c = (r, c') \<Longrightarrow> continues e c c'"
  by (auto simp: continues_def dest: refuse_path_same refuse_path_ok)

lemma prepare_continues: "prepare e key message c w = (st, c', w') \<Longrightarrow> continues e c c'"
  unfolding prepare_def by (auto split: sum.splits option.splits prod.splits if_splits dest: change_build_continues)

lemma deliver_continues: "deliver e attempt n commit main c w = (st, c', w') \<Longrightarrow> continues e c c'"
  unfolding deliver_def Let_def
  by (auto split: sum.splits option.splits prod.splits if_splits push_class.splits dest: refuse_path_continues)

text \<open>A commit ready to be pushed: made of the tree the change built from \<open>main\<close> and checked there.\<close>

definition built_on :: "('w, 'i) save_env \<Rightarrow> 'w canonical_view \<Rightarrow> change \<Rightarrow> string \<Rightarrow> string option \<Rightarrow> bool" where
  "built_on e v c0 commit main \<longleftrightarrow>
     (\<exists>w c c'. continues e c0 c \<and> main_tree_of (sg_git (se_git e w)) main \<noteq> None
             \<and> change_build (se_git e w) main c = (Inr (cv_tree v commit), c')
             \<and> change_check (se_git e w) main c' = Inr ())"

definition prepared ::
  "('w, 'i) save_env \<Rightarrow> 'w canonical_view \<Rightarrow> change \<Rightarrow> (string \<times> string option) step \<Rightarrow> 'w \<Rightarrow> 'w \<Rightarrow> bool" where
  "prepared e v c0 st w w' \<longleftrightarrow>
     (case st of
        Answered r \<Rightarrow> passes v w w' \<and> (\<forall>out. r = Inr out \<longrightarrow> oc_committed out \<longrightarrow> oc_replayed out)
      | Going (commit, main) \<Rightarrow>
          cv_mine v w' = cv_mine v w \<and> prefix (cv_log v w) (cv_log v w') \<and> commit \<in> cv_held v w'
          \<and> child_of v commit main \<and> past_main v main w' \<and> built_on e v c0 commit main)"

lemma replay_replayed: "replay e w main key = Inr (Some out) \<Longrightarrow> oc_replayed out"
  by (auto simp: replay_def split: option.splits sum.splits if_splits)

lemma prepare_prepared:
  assumes laws: "save_laws e v" and res: "prepare e key message c w = (st, c', w')"
  shows "prepared e v c st w w'"
proof -
  note L = save_lawsD [OF laws]
  obtain m w1 where f: "se_fetch_main e w = (m, w1)" by (cases "se_fetch_main e w")
  note p1 = L(2) [OF f]
  consider (answered) r where "st = Answered r" "w' = w1" "\<forall>out. r = Inr out \<longrightarrow> oc_committed out \<longrightarrow> oc_replayed out"
    | (failed) err tree main msg where "m = Inr main" "st = Answered (Inl err)"
        "se_commit_tree e tree (case main of Some m \<Rightarrow> [m] | None \<Rightarrow> []) msg w1 = (None, w')"
    | (going) main tree c1 msg commit where "m = Inr main" "st = Going (commit, main)"
        "change_build (se_git e w1) main c = (Inr tree, c1)" "main_tree_of (sg_git (se_git e w1)) main \<noteq> None" "change_check (se_git e w1) main c1 = Inr ()"
        "se_commit_tree e tree (case main of Some m \<Rightarrow> [m] | None \<Rightarrow> []) msg w1 = (Some commit, w')"
    using res f unfolding prepare_def main_tree_of_def
    by (auto split: sum.splits option.splits prod.splits if_splits dest: replay_replayed)
  then show ?thesis
  proof cases
    case (answered r)
    with p1 show ?thesis by (simp add: prepared_def)
  next
    case (failed err tree main msg)
    from passes_trans [OF p1 L(4) [OF failed(3)]] failed(2) show ?thesis by (simp add: prepared_def)
  next
    case (going main tree c1 msg commit)
    from L(3) [OF f [unfolded going(1)]] have past: "past_main v main w1" by (auto intro: newest_past)
    note cm = L(5) [OF going(6)]
    have "cv_mine v w' = cv_mine v w" "prefix (cv_log v w) (cv_log v w')"
      using cm p1 by (auto simp: passes_def intro: prefix_order.trans)
    moreover have "built_on e v c commit main"
      using going(3-5) cm unfolding built_on_def by (metis continues_refl)
    ultimately show ?thesis
      using cm past past_main_passes [OF past] going(2) by (auto simp: prepared_def child_of_def)
  qed
qed

section \<open>The whole save\<close>

text \<open>What the answer to a save says, and what happened on canonical.\<close>

definition truthful ::
  "('w, 'i) save_env \<Rightarrow> 'w canonical_view \<Rightarrow> change \<Rightarrow> save_error + cas_outcome \<Rightarrow> 'w \<Rightarrow> 'w \<Rightarrow> bool" where
  "truthful e v c0 r w w' \<longleftrightarrow>
     (case r of
        Inr out \<Rightarrow>
          if oc_committed out \<and> \<not> oc_replayed out
          then \<exists>c. oc_rev out = Some c \<and> landed_on v c (oc_base_rev out) w w' \<and> built_on e v c0 c (oc_base_rev out)
          else cv_mine v w' = cv_mine v w
      | Inl _ \<Rightarrow>
          cv_mine v w' = cv_mine v w \<or> ((\<exists>c. cv_mine v w' = cv_mine v w @ [c]) \<and> \<not> answers_always e))"

lemma built_on_from: "continues e c0 c1 \<Longrightarrow> built_on e v c1 c b \<Longrightarrow> built_on e v c0 c b"
  unfolding built_on_def by (metis continues_trans)

lemma truthful_from:
  assumes "cv_mine v w1 = cv_mine v w" "continues e c0 c1" "truthful e v c1 r w1 w'"
  shows "truthful e v c0 r w w'"
  using assms by (auto simp: truthful_def landed_on_def dest: built_on_from split: sum.splits if_splits)

lemma cas_loop_truthful:
  assumes laws: "save_laws e v" and res: "cas_loop e key message left attempt n c w = (r, c', w')"
  shows "truthful e v c r w w'"
  using res
proof (induction left arbitrary: attempt n c w)
  case 0
  then show ?case by (auto simp: truthful_def)
next
  case (Suc left)
  obtain st c1 w1 where pr: "prepare e key message c w = (st, c1, w1)" by (cases "prepare e key message c w")
  note pd = prepare_prepared [OF laws pr]
  show ?case
  proof (cases "1 < attempt \<and> se_past_deadline e w")
    case True
    with Suc.prems show ?thesis by (auto simp: truthful_def)
  next
    case False
    show ?thesis
    proof (cases st)
      case (Answered r1)
      with False Suc.prems pr pd show ?thesis
        by (auto simp: truthful_def prepared_def passes_def split: sum.splits)
    next
      case (Going cm)
      obtain commit main where cm: "cm = (commit, main)" by (cases cm)
      obtain st2 c2 w2 where dl: "deliver e attempt n commit main c1 w1 = (st2, c2, w2)"
        by (cases "deliver e attempt n commit main c1 w1")
      from pd Going cm have p: "cv_mine v w1 = cv_mine v w" "commit \<in> cv_held v w1" "child_of v commit main"
        "past_main v main w1" "built_on e v c commit main" by (simp_all add: prepared_def)
      note dd = deliver_delivered [OF laws p(2,3,4) dl]
      show ?thesis
      proof (cases st2)
        case (Answered r2)
        then have "r = r2" "w' = w2"
          using Suc.prems [unfolded cas_loop.simps if_not_P [OF False] pr Going cm] dl by simp_all
        moreover have "truthful e v c r2 w1 w2"
          using dd Answered p(5)
          by (auto simp: truthful_def delivered_def landed_outcome_def passes_def landed_on_def split: sum.splits)
        ultimately show ?thesis using truthful_from [OF p(1) continues_refl] by simp
      next
        case (Going k)
        then have "cas_loop e key message left (attempt + 1) k c2 w2 = (r, c', w')"
          using Suc.prems [unfolded cas_loop.simps if_not_P [OF False] pr \<open>st = Going cm\<close> cm] dl by simp
        from Suc.IH [OF this] have "truthful e v c2 r w2 w'" .
        moreover have "cv_mine v w2 = cv_mine v w" using dd Going p(1) by (simp add: delivered_def passes_def)
        moreover have "continues e c c2"
          using continues_trans [OF prepare_continues [OF pr] deliver_continues [OF dl]] .
        ultimately show ?thesis by (rule truthful_from [rotated 2])
      qed
    qed
  qed
qed

section \<open>Saves\<close>


text \<open>C16. No lost updates. An upload that was committed changed, relative to the \<open>main\<close> right below it, only
  paths it was asked to write and may publish, or asked to delete and may delete, and none that
  \<open>main\<close> holds otherwise than the version the client read; every blob the client expected was there;
  every file is on the new \<open>main\<close> with the content that was staged (an import may skip some), and every
  deleted path is gone, unless it stood for the folder the client read there.\<close>

theorem upload_saved_exactly:
  assumes "save_laws e v" and "\<forall>w. save_git_laws (se_git e w) (m w)" and "\<forall>w. hashes_as hid (se_git e w)"
    and "ed_blobs u = None" "ed_skipped u = []"
    and "cas_commit e key message (EditsChange u) w = (Inr out, c', w')" "oc_committed out" "\<not> oc_replayed out"
  shows "\<exists>commit l w1 mt. oc_rev out = Some commit \<and> cv_mine v w' = cv_mine v w @ [commit]
           \<and> prefix (l @ [commit]) (cv_log v w') \<and> newest l = oc_base_rev out
           \<and> main_tree_of (sg_git (se_git e w1)) (oc_base_rev out) = Some mt
           \<and> saved_exactly hid (sg_git (se_git e w1)) (m w1) u (oc_base_rev out) mt (cv_tree v commit)"
proof -
  from assms(1,6) have "truthful e v (EditsChange u) (Inr out) w w'" unfolding cas_commit_def by (rule cas_loop_truthful)
  with assms(7,8) obtain commit l w1 c c2 mt where t: "oc_rev out = Some commit" "cv_mine v w' = cv_mine v w @ [commit]"
    "prefix (l @ [commit]) (cv_log v w')" "newest l = oc_base_rev out" "continues e (EditsChange u) c"
    "main_tree_of (sg_git (se_git e w1)) (oc_base_rev out) = Some mt"
    "change_build (se_git e w1) (oc_base_rev out) c = (Inr (cv_tree v commit), c2)"
    "change_check (se_git e w1) (oc_base_rev out) c2 = Inr ()"
    unfolding truthful_def landed_on_def built_on_def by auto
  have "change_ok hid (EditsChange u)" using assms(4,5) by (simp add: edits_ok_def)
  with t(5) assms(3) have ok: "same_request (EditsChange u) c" "change_ok hid c" by (auto simp: continues_def)
  then obtain u1 where u1: "c = EditsChange u1" by (cases c) auto
  with t(7) obtain u2 where u2: "edits_build (se_git e w1) (oc_base_rev out) u1 = (Inr (cv_tree v commit), u2)" "c2 = EditsChange u2"
    by (auto simp: map_prod_def split: prod.splits)
  have "saved_exactly hid (sg_git (se_git e w1)) (m w1) u1 (oc_base_rev out) mt (cv_tree v commit)"
    by (rule upload_exact [of "se_git e w1" _ _ _ _ _ _ u2]) (use assms t u1 u2 ok in simp_all)
  moreover have "saved_exactly hid g mm u1 b mt t = saved_exactly hid g mm u b mt t" for g mm b t
    using ok(1) u1 by (simp add: saved_exactly_def may_write_def may_delete_def asks_to_delete_def asks_to_write_def)
  ultimately show ?thesis using t by blast
qed

end
