(* ===== verification/Hosted_Reverts.thy ===== *)
theory Hosted_Reverts
  imports Save_Laws
begin

text \<open>
  A revert takes back a saved commit where \<open>main\<close> still holds what the commit left, keeps every path
  the commit did not change, and changes nothing that may not be published or deleted.
\<close>

lemma rev_leaf_of: "gt_tree_id g r = Some t \<Longrightarrow> rev_leaf g m r p = leaf m t p"
  by (simp add: rev_leaf_def)

definition may_revert_to :: "path \<Rightarrow> stage option \<Rightarrow> bool" where
  "may_revert_to p entry \<longleftrightarrow> (if entry = None then deletion_allowed p else unpublishable_reason p = None)"

text \<open>What the code learnt when it lets a revert through.\<close>

lemma revert_buildE:
  assumes "revert_build sg (Some r) rv = Inr tree"
  obtains merged raw where "sg_is_ancestor sg (rv_commit rv) r = Some True"
    "three_way (sg_git sg) (Some (rv_commit rv)) r (rv_base rv) = Some merged" "mr_conflicts merged = []"
    "tree = mr_tree merged" "gt_diff_raw (sg_git sg) r tree = Some raw"
    "\<forall>c \<in> set (parse_raw_changes raw).
       if is_deleted c then deletion_allowed (rc_path c) else unpublishable_reason (rc_path c) = None"
proof -
  from assms obtain merged raw where m: "sg_is_ancestor sg (rv_commit rv) r = Some True"
    "three_way (sg_git sg) (Some (rv_commit rv)) r (rv_base rv) = Some merged" "mr_conflicts merged = []"
    "tree = mr_tree merged" "gt_diff_raw (sg_git sg) r tree = Some raw"
    and none: "List.map_filter (\<lambda>c.
        if is_deleted c then (if deletion_allowed (rc_path c) then None else Some (rc_path c, Excluded))
        else map_option (\<lambda>reason. (rc_path c, reason)) (unpublishable_reason (rc_path c))) (parse_raw_changes raw) = []"
    by (auto simp: revert_build_def and_then_def or_internal_def Let_def split: sum.splits option.splits if_splits)
  have "if is_deleted c then deletion_allowed (rc_path c) else unpublishable_reason (rc_path c) = None"
    if c: "c \<in> set (parse_raw_changes raw)" for c
  proof -
    let ?f = "\<lambda>c. if is_deleted c then (if deletion_allowed (rc_path c) then None else Some (rc_path c, Excluded))
        else map_option (\<lambda>reason. (rc_path c, reason)) (unpublishable_reason (rc_path c))"
    have "?f c = None"
    proof (rule ccontr)
      assume "?f c \<noteq> None"
      then obtain y where "?f c = Some y" by blast
      with c have "y \<in> set (List.map_filter ?f (parse_raw_changes raw))" unfolding in_map_filter by blast
      then show False unfolding none by simp
    qed
    then show ?thesis by (simp split: if_splits)
  qed
  with m that show ?thesis by blast
qed

text \<open>C21. A revert of a commit on \<open>main\<close> is exact: a path the commit did not change stays as \<open>main\<close> has
  it, a path that \<open>main\<close> still holds as the commit left it goes back to what it was before, any other is
  what git's file merge gives or already was; and no changed path is one that may not be published, or
  deleted.\<close>

theorem revert_exact:
  assumes laws: "save_git_laws sg m"
    and trees: "gt_tree_id (sg_git sg) r = Some mt" "gt_tree_id (sg_git sg) (rv_commit rv) = Some ct"
      "gt_tree_id (sg_git sg) (rv_base rv) = Some bt"
    and res: "revert_build sg (Some r) rv = Inr tree"
  shows "sg_is_ancestor sg (rv_commit rv) r = Some True
    \<and> (\<forall>p. (leaf m ct p = leaf m bt p \<longrightarrow> leaf m tree p = leaf m mt p)
        \<and> (leaf m mt p = leaf m ct p \<longrightarrow> leaf m tree p = leaf m bt p)
        \<and> (leaf m ct p \<noteq> leaf m bt p \<and> leaf m mt p \<noteq> leaf m ct p \<longrightarrow>
             (leaf m mt p = leaf m bt p \<and> leaf m tree p = leaf m mt p)
             \<or> (\<exists>w. leaf m tree p = Some w \<and> file_merge (sg_git sg) m (leaf m ct p, leaf m mt p, leaf m bt p) w))
        \<and> (leaf m tree p \<noteq> leaf m mt p \<longrightarrow> may_revert_to p (leaf m tree p)))"
proof -
  note L = save_git_lawsD [OF laws]
  from revert_buildE [OF res] obtain merged raw where R: "sg_is_ancestor sg (rv_commit rv) r = Some True"
    "three_way (sg_git sg) (Some (rv_commit rv)) r (rv_base rv) = Some merged" "mr_conflicts merged = []"
    "tree = mr_tree merged" "gt_diff_raw (sg_git sg) r tree = Some raw"
    "\<forall>c \<in> set (parse_raw_changes raw).
       if is_deleted c then deletion_allowed (rc_path c) else unpublishable_reason (rc_path c) = None" by metis
  have t: "is_tree (sg_git sg) tree" using three_way_spec(1) [OF L(1) R(2)] R(4) by simp
  have M: "merged_entry (sg_git sg) m False (leaf m ct p) (leaf m mt p) (leaf m bt p) (leaf m tree p)" for p
    using three_way_spec(2) [OF L(1) R(2), of p] R(3,4) trees by (simp add: base_leaf_def rev_leaf_of)
  have "gt_diff_raw (sg_git sg) mt tree = Some raw" using L(4) [OF trees(1)] R(5) by (simp add: reads_as_def)
  moreover have "\<exists>ds. out = diff_output ds \<and> list_all diff_ok ds \<and> diff_law m mt tree (map dl_change ds)"
    if "gt_diff_raw (sg_git sg) mt tree = Some out" for out
    using L(3) L(5) [OF trees(1)] t that unfolding listing_laws_def by blast
  ultimately obtain ds where ds: "raw = diff_output ds" "list_all diff_ok ds" "diff_law m mt tree (map dl_change ds)" by blast
  have may: "may_revert_to p (leaf m tree p)" if "leaf m tree p \<noteq> leaf m mt p" for p
  proof -
    from ds(3) that have "p \<in> rc_path ` set (map dl_change ds)" by (auto simp: diff_law_def)
    then obtain c where c: "c \<in> set (map dl_change ds)" "rc_path c = p" by blast
    then have "leaf m tree p = (if rc_status c = CHR ''D'' then None else Some (rc_new_mode c, rc_new_oid c))"
      using ds(3) unfolding diff_law_def by blast
    moreover have "if is_deleted c then deletion_allowed p else unpublishable_reason p = None"
      using R(6) c ds(1,2) parse_diff_output [OF ds(2)] by auto
    ultimately show ?thesis by (auto simp: may_revert_to_def is_deleted_def split: if_splits)
  qed
  show ?thesis
  proof (intro conjI allI)
    fix p
    note mp = M [of p, unfolded merged_entry_def one_side_def]
    show "leaf m ct p = leaf m bt p \<longrightarrow> leaf m tree p = leaf m mt p"
      "leaf m mt p = leaf m ct p \<longrightarrow> leaf m tree p = leaf m bt p"
      "leaf m ct p \<noteq> leaf m bt p \<and> leaf m mt p \<noteq> leaf m ct p \<longrightarrow>
             (leaf m mt p = leaf m bt p \<and> leaf m tree p = leaf m mt p)
             \<or> (\<exists>w. leaf m tree p = Some w \<and> file_merge (sg_git sg) m (leaf m ct p, leaf m mt p, leaf m bt p) w)"
      using mp by (auto split: if_splits)
    show "leaf m tree p \<noteq> leaf m mt p \<longrightarrow> may_revert_to p (leaf m tree p)" using may by blast
  qed (fact R(1))
qed

end
