(* ===== verification/Save_Table.thy ===== *)
theory Save_Table
  imports Save_Laws Git_Table
begin

text \<open>
  The reference git of \<open>Git_Table\<close> with the objects of its commits, and the rest of what a save asks
  of git. The laws of \<open>save_git_laws\<close> hold of it.
\<close>

definition resolved :: "(unit \<Rightarrow> repository) \<Rightarrow> string \<Rightarrow> string" where
  "resolved rf r = (case map_of (re_commits (rf ())) r of Some t \<Rightarrow> t | None \<Rightarrow> r)"

definition commit_store :: "repository \<Rightarrow> string \<Rightarrow> git_object option" where
  "commit_store re i =
     (case table_store (re_trees re) (re_blobs re) i of
        Some obj \<Rightarrow> Some obj
      | None \<Rightarrow> map_option (\<lambda>t. \<lparr>go_kind = ''commit'', go_data = ''tree '' @ t @ [newline]\<rparr>) (map_of (re_commits re) i))"

definition commit_git :: "(unit \<Rightarrow> repository) \<Rightarrow> slots git_tool" where
  "commit_git rf =
     (table_git rf)\<lparr>gt_read_tree := \<lambda>r. table_read_tree rf (resolved rf r),
       gt_ls_tree_all := \<lambda>r. table_ls_tree_all rf (resolved rf r),
       gt_diff_raw := \<lambda>r. table_diff_raw rf (resolved rf r),
       gt_batch := \<lambda>ids. Some (concat (map (batch_item (commit_store (rf ()))) ids))\<rparr>"

definition commit_model :: "repository \<Rightarrow> slots git_model" where
  "commit_model re = (repo_model re)\<lparr>gm_store := commit_store re\<rparr>"

definition commits_fit :: "repository \<Rightarrow> bool" where
  "commits_fit re \<longleftrightarrow>
     list_all (\<lambda>(r, t). field_ok r \<and> length r = length t \<and> length t < 1000
                 \<and> table_store (re_trees re) (re_blobs re) r = None) (re_commits re)
     \<and> list_all (\<lambda>(t, fs). list_all (\<lambda>e. (te_kind e = ''tree'') = (te_mode e = ''040000'')) (table_entries fs)) (re_trees re)"

lemma commit_git_simps [simp]:
  "gt_tree_id (commit_git rf) = gt_tree_id (table_git rf)" "gt_empty_tree (commit_git rf) = gt_empty_tree (table_git rf)"
  "is_tree (commit_git rf) = is_tree (table_git rf)" "gt_ls_tree (commit_git rf) = gt_ls_tree (table_git rf)"
  "gt_ls_tree_r (commit_git rf) = gt_ls_tree_r (table_git rf)" "gt_diff_names (commit_git rf) = gt_diff_names (table_git rf)"
  "gt_read_tree_3 (commit_git rf) = gt_read_tree_3 (table_git rf)" "gt_ls_files (commit_git rf) = gt_ls_files (table_git rf)"
  "gt_ls_files_u (commit_git rf) = gt_ls_files_u (table_git rf)" "gt_update_index (commit_git rf) = gt_update_index (table_git rf)"
  "gt_write_tree (commit_git rf) = gt_write_tree (table_git rf)"
  "gt_read_tree (commit_git rf) r = gt_read_tree (table_git rf) (resolved rf r)"
  "gt_ls_tree_all (commit_git rf) r = gt_ls_tree_all (table_git rf) (resolved rf r)"
  "gt_diff_raw (commit_git rf) r = gt_diff_raw (table_git rf) (resolved rf r)"
  "gt_batch (commit_git rf) ids = Some (concat (map (batch_item (commit_store (rf ()))) ids))"
  by (simp_all add: commit_git_def is_tree_def fun_eq_iff table_git_def)

lemma commit_model_simps [simp]:
  "gm_node (commit_model re) = gm_node (repo_model re)" "gm_folder (commit_model re) = gm_folder (repo_model re)"
  "gm_slot (commit_model re) = gm_slot (repo_model re)" "gm_store (commit_model re) = commit_store re"
  "children (commit_model re) = children (repo_model re)" "leaf (commit_model re) = leaf (repo_model re)"
  "lists (commit_model re) = lists (repo_model re)" "node_law (commit_model re) = node_law (repo_model re)"
  "diff_law (commit_model re) = diff_law (repo_model re)"
  by (simp_all add: commit_model_def children_def leaf_def lists_def node_law_def diff_law_def fun_eq_iff)

lemma resolved_tree: "repo_fits re \<Longrightarrow> is_tree (table_git (\<lambda>_. re)) t \<Longrightarrow> resolved (\<lambda>_. re) t = t"
  using known_fits [of re t] tree_known [of re t] by (simp add: resolved_def tree_fits_def Let_def)

lemma folder_stored:
  assumes "repo_fits re" "is_tree (table_git (\<lambda>_. re)) t" "gm_folder (repo_model re) t f = Some s"
  shows "commit_store re s = gm_store (repo_model re) s"
proof -
  from assms(3) obtain rs where "(f, s, rs) \<in> set (tree_table (re_trees re) t)"
    by (auto simp: repo_model_def table_folder_def dest: map_of_SomeD)
  then have "folder_fits re t (f, s, rs)"
    using known_fits [OF assms(1) tree_known [OF assms(2)]] by (simp add: tree_fits_def Let_def list_all_iff)
  then show ?thesis by (simp add: folder_fits_def commit_store_def repo_model_def)
qed

lemma commit_object_ok:
  assumes "repo_fits re" "commits_fit re" "commit_store re i = Some obj"
  shows "object_ok obj"
proof (cases "table_store (re_trees re) (re_blobs re) i")
  case None
  with assms(3) obtain t where t: "map_of (re_commits re) i = Some t"
    "obj = \<lparr>go_kind = ''commit'', go_data = ''tree '' @ t @ [newline]\<rparr>" by (auto simp: commit_store_def)
  have "length t < 1000" using assms(2) map_of_SomeD [OF t(1)] by (auto simp: commits_fit_def list_all_iff)
  with t(2) show ?thesis by (simp add: object_ok_def field_ok_def ord_of_def)
next
  case (Some o2)
  with assms(3) have "gm_store (repo_model re) i = Some obj" by (simp add: commit_store_def repo_model_def)
  with repo_tree_laws [OF assms(1)] show ?thesis unfolding tree_laws_def by blast
qed

lemma commit_git_laws:
  assumes fits: "repo_fits re" "commits_fit re"
  shows "git_laws (commit_git (\<lambda>_. re)) (commit_model re)"
proof -
  let ?g = "table_git (\<lambda>_. re)" and ?m = "repo_model re"
  note T = repo_tree_laws [OF fits(1)] and R = resolved_tree [OF fits(1)]
  have "folder_law (commit_model re) t f s" if "is_tree ?g t" "gm_folder ?m t f = Some s" for t f s
    using folder_lawD [OF T that] folder_stored [OF fits(1) that] by (simp add: folder_law_def)
  then have "tree_laws (commit_git (\<lambda>_. re)) (commit_model re)"
    using T commit_object_ok [OF fits] unfolding tree_laws_def by simp
  moreover have "listing_laws (commit_git (\<lambda>_. re)) (commit_model re)"
    using repo_listing_laws [OF fits(1)] unfolding listing_laws_def by (simp add: R)
  moreover have "index_laws (commit_git (\<lambda>_. re)) (commit_model re)"
    using repo_index_laws [OF fits(1)] unfolding index_laws_def by (simp add: R)
  ultimately show ?thesis by (simp add: git_laws_def)
qed

lemma commits_read:
  assumes fits: "repo_fits re" "commits_fit re" and t: "gt_tree_id (table_git (\<lambda>_. re)) r = Some t"
  shows "reads_as (commit_git (\<lambda>_. re)) (commit_model re) r t"
proof -
  let ?g = "table_git (\<lambda>_. re)"
  note T = repo_tree_laws [OF fits(1)]
  have it: "is_tree ?g t" using tree_idD(1) [OF T t] .
  note R = resolved_tree [OF fits(1) it]
  show ?thesis
  proof (cases "map_of (re_commits re) r")
    case None
    with t have "r = t" by (auto simp: table_git_defs Let_def split: if_splits)
    moreover have "field_ok t" using folder_lawD [OF T it tree_idD(2) [OF T t]] by (simp add: folder_law_def)
    ultimately show ?thesis by (simp add: reads_as_def)
  next
    case (Some t')
    with t have t': "t' = t" by (auto simp: table_git_defs Let_def split: if_splits)
    have "field_ok r" "length r = length t" "table_store (re_trees re) (re_blobs re) r = None"
      using fits(2) map_of_SomeD [OF Some] by (auto simp: commits_fit_def list_all_iff t')
    with Some show ?thesis by (auto simp: reads_as_def resolved_def R [unfolded resolved_def] commit_store_def t' fun_eq_iff)
  qed
qed

text \<open>The rest of what a save asks: every revision is readable, ids of staged files are given by a
  function, names are their own keys, and no ignore file ignores anything.\<close>

definition table_save_git :: "(unit \<Rightarrow> repository) \<Rightarrow> (string \<Rightarrow> string \<Rightarrow> bool) \<Rightarrow> (string \<Rightarrow> string) \<Rightarrow> slots save_git" where
  "table_save_git rf anc hid =
     \<lparr>sg_git = commit_git rf, sg_readable = (\<lambda>_. Some True), sg_is_ancestor = (\<lambda>a b. Some (anc a b)),
      sg_hash_files = (\<lambda>names. Some (concat (map (\<lambda>n. hid n @ [newline]) names))),
      sg_ls_tree_below = (\<lambda>_. None), sg_empty_index = [], sg_portable_key = id,
      sg_check_ignore = (\<lambda>_ _. Some (Some 1, []))\<rparr>"

lemma table_save_laws:
  assumes fits: "repo_fits re" "commits_fit re"
  shows "save_git_laws (table_save_git (\<lambda>_. re) anc hid) (commit_model re)"
proof -
  have "(te_kind e = ''tree'') = (te_mode e = ''040000'')"
    if "is_tree (table_git (\<lambda>_. re)) t" "gm_node (repo_model re) t p = Some e" for t p e
  proof -
    from that(2) have e: "e \<in> set (table_entries (tree_table (re_trees re) t))"
      using node_entry(1) by (simp add: repo_model_def)
    from tree_known [OF that(1)] obtain fs where fs: "map_of (re_trees re) t = Some fs" by (auto simp: known_def)
    with e fits(2) map_of_SomeD [OF fs] show ?thesis
      by (fastforce simp: commits_fit_def list_all_iff tree_table_def)
  qed
  then show ?thesis
    using commit_git_laws [OF fits] commits_read [OF fits]
    by (simp add: save_git_laws_def table_save_git_def repo_model_def slot_at_def)
qed

lemma lines_of_ids:
  assumes "\<forall>n. field_ok (hid n)"
  shows "text_lines (concat (map (\<lambda>n. hid n @ [newline]) names)) = map hid names"
proof -
  have "split_on newline (concat (map (\<lambda>n. hid n @ [newline]) names)) = map hid names @ [[]]"
    using assms by (induction names) (simp_all add: split_on_append_sep split_on_no_sep field_okD)
  moreover have "strip_suffix (hid n) [CHR 0x0D] = None" for n
  proof -
    have "field_ok (hid n)" using assms by blast
    then have "CHR 0x0D \<notin> set (hid n)" by (auto simp: field_ok_def list_all_iff ord_of_def)
    then show ?thesis using in_set_dropD [of "CHR 0x0D" "length (hid n) - 1" "hid n"] by (auto simp: strip_suffix_def ends_with_def)
  qed
  ultimately show ?thesis by (simp add: text_lines_def Let_def)
qed

lemma table_hashes: "\<forall>n. field_ok (hid n) \<Longrightarrow> hashes_as hid (table_save_git rf anc hid)"
  by (simp add: hashes_as_def table_save_git_def lines_of_ids)

end
