(* ===== verification/Hosted_Example.thy ===== *)
theory Hosted_Example
  imports Hosted_Safety Hosted_Reverts Save_Table
begin

text \<open>
  A save on a small space. The client read \<open>base1\<close>; while its first push is on the way another
  writer lands \<open>base2\<close>, and the answer to the second push is lost.
\<close>

section \<open>The space\<close>

definition old_a :: "tree_record \<times> tree_entry" where
  "old_a =
    ((''100644'', ''a'', ''11111111111111111111''),
     \<lparr>te_mode = ''100644'', te_kind = ''blob'', te_oid = ''3131313131313131313131313131313131313131'', te_path = ''a''\<rparr>)"

definition new_a :: "tree_record \<times> tree_entry" where
  "new_a =
    ((''100644'', ''a'', ''22222222222222222222''),
     \<lparr>te_mode = ''100644'', te_kind = ''blob'', te_oid = ''3232323232323232323232323232323232323232'', te_path = ''a''\<rparr>)"

definition the_b :: "tree_record \<times> tree_entry" where
  "the_b =
    ((''100644'', ''b'', ''33333333333333333333''),
     \<lparr>te_mode = ''100644'', te_kind = ''blob'', te_oid = ''3333333333333333333333333333333333333333'', te_path = ''b''\<rparr>)"

definition the_space :: "unit \<Rightarrow> repository" where
  "the_space u =
     \<lparr>re_trees =
        [(''tree1'', [([], ''tree1'', [old_a])]),
         (''tree2'', [([], ''tree2'', [old_a, the_b])]),
         (''tree3'', [([], ''tree3'', [new_a])]),
         (''tree4'', [([], ''tree4'', [new_a, the_b])])],
      re_commits = [(''base1'', ''tree1''), (''base2'', ''tree2''), (''save2'', ''tree3''), (''save3'', ''tree4'')],
      re_bases = [], re_empty = ''tree0'', re_blobs = [], re_merges = [], re_hashes = []\<rparr>"

definition hash_name :: "string \<Rightarrow> string" where
  "hash_name n = ''3232323232323232323232323232323232323232''"

definition descends :: "string \<Rightarrow> string \<Rightarrow> bool" where
  "descends a b \<longleftrightarrow> a = b \<or> (a = ''base1'' \<and> b \<in> {''base2'', ''save2'', ''save3''}) \<or> (a = ''base2'' \<and> b = ''save3'')"

definition space_git :: "slots save_git" where
  "space_git = table_save_git the_space descends hash_name"

lemma space_fits: "repo_fits (the_space ())" "commits_fit (the_space ())"
  by code_simp+

definition space_model :: "slots git_model" where "space_model = commit_model (the_space ())"

lemma space_laws: "save_git_laws space_git space_model" "hashes_as hash_name space_git"
  using table_save_laws [OF space_fits, of descends hash_name]
    table_hashes [of hash_name the_space descends]
  by (simp_all add: space_git_def space_model_def hash_name_def field_ok_def ord_of_def)

section \<open>The world\<close>

text \<open>How many of \<open>base1\<close> and \<open>base2\<close> have landed, the commits made for the save, and whether
  \<open>save3\<close> has landed.\<close>

type_synonym world = "nat \<times> string list \<times> bool"

fun world_log :: "world \<Rightarrow> string list" where
  "world_log (n, mk, landed) = (if landed then [''base1'', ''base2'', ''save3''] else take n [''base1'', ''base2''])"

fun world_mine :: "world \<Rightarrow> string list" where
  "world_mine (n, mk, landed) = (if landed then [''save3''] else [])"

fun world_held :: "world \<Rightarrow> string set" where
  "world_held (n, mk, landed) = {c \<in> set mk. c = ''save2'' \<or> (c = ''save3'' \<and> \<not> landed)}"

fun world_tree :: "string \<Rightarrow> string" where
  "world_tree c = (if c = ''save2'' then ''tree3'' else ''tree4'')"

definition world_view :: "world canonical_view" where
  "world_view = \<lparr>cv_log = world_log, cv_mine = world_mine, cv_held = world_held, cv_anc = descends, cv_tree = world_tree\<rparr>"

fun world_newest :: "world \<Rightarrow> string option" where
  "world_newest w = (if world_log w = [] then None else Some (last (world_log w)))"

fun world_commit :: "string \<Rightarrow> string list \<Rightarrow> string \<Rightarrow> world \<Rightarrow> string option \<times> world" where
  "world_commit tree parents message (n, mk, landed) =
     (if tree = ''tree3'' \<and> parents = [''base1''] then (Some ''save2'', (n, ''save2'' # mk, landed))
      else if tree = ''tree4'' \<and> parents = [''base2''] \<and> \<not> landed then (Some ''save3'', (n, ''save3'' # mk, landed))
      else (None, (n, mk, landed)))"

fun world_push :: "string \<Rightarrow> bool \<Rightarrow> string option \<Rightarrow> world \<Rightarrow> (string + push_class) \<times> world" where
  "world_push c create token (n, mk, landed) =
     (if c = ''save3'' \<and> \<not> create \<and> 2 \<le> n \<and> \<not> landed
      then (Inr (Ambiguous ''the remote end hung up''), (n, mk, True))
      else (Inr (LostRace ''fetch first''), (2, mk, landed)))"

definition world_env :: "(world, slots) save_env" where
  "world_env =
     \<lparr>se_fetch_main = (\<lambda>w. (Inr (world_newest w), w)), se_write_token = (\<lambda>w. (Inr None, w)),
      se_token_refused = (\<lambda>w. w), se_pushed = (\<lambda>c old promoted w. w), se_grew = (\<lambda>w. w),
      se_git = (\<lambda>w. space_git), se_log = (\<lambda>w a b. None), se_diff_root = (\<lambda>w c. None),
      se_now = (\<lambda>w. 0), se_past_deadline = (\<lambda>w. False), se_commit_tree = world_commit, se_push = world_push,
      se_promote = (\<lambda>w. (True, w)), se_jitter = (\<lambda>n w. w), se_email = ''gateway''\<rparr>"

lemma world_log_sorted: "sorted_wrt descends (world_log w)"
proof -
  obtain n mk landed where w: "w = (n, mk, landed)" by (cases w)
  consider "n = 0" | "n = 1" | "2 \<le> n" by linarith
  then show ?thesis by cases (auto simp: w descends_def take_Cons' numeral_2_eq_2)
qed

lemma world_newest: "world_newest w = newest (world_log w)"
  by (simp add: newest_def)

lemma world_view_laws: "view_laws world_view"
proof -
  have "reflp descends" "antisymp descends" by (auto simp: reflp_def antisymp_def descends_def)
  moreover have "\<not> descends c a" if "c \<in> world_held w" "a \<in> set (world_log w)" for w c a
  proof -
    obtain n mk landed where w: "w = (n, mk, landed)" by (cases w)
    have "set (take n [''base1'', ''base2'']) \<subseteq> {''base1'', ''base2''}"
      using set_take_subset [of n "[''base1'', ''base2'']"] by simp
    with that show ?thesis unfolding w by (auto simp: descends_def split: if_splits)
  qed
  ultimately show ?thesis using world_log_sorted by (simp add: view_laws_def world_view_def)
qed

lemma no_credential_text: "\<not> credential_refused ''the remote end hung up''"
  by code_simp

lemma world_push_law: "push_law world_env world_view"
  unfolding push_law_def
proof (intro allI impI)
  fix c create token w r w'
  assume held: "c \<in> cv_held world_view w" and push: "se_push world_env c create token w = (r, w')"
  obtain n mk landed where w: "w = (n, mk, landed)" by (cases w)
  show "if takes_nothing r then passes world_view w w'
       else if r = Inr Pushed then lands world_view c create w w'
       else passes world_view w w' \<or> lands world_view c create w w'"
  proof (cases "c = ''save3'' \<and> \<not> create \<and> 2 \<le> n \<and> \<not> landed")
    case True
    then have r: "r = Inr (Ambiguous ''the remote end hung up'')" "w' = (n, mk, True)"
      using push by (simp_all add: w world_env_def)
    have "world_log w = [''base1'', ''base2'']" using True by (simp add: w take_Cons')
    moreover have "world_held w' = world_held w - {''save3''}" using r(2) by (auto simp: w)
    ultimately have "lands world_view c create w w'"
      unfolding lands_def using True r(2)
      by (intro conjI exI [of _ "[''base1'', ''base2'']"]) (auto simp: world_view_def w descends_def)
    then show ?thesis using no_credential_text by (simp add: r takes_nothing_def)
  next
    case False
    then have r: "r = Inr (LostRace ''fetch first'')" "w' = (2, mk, landed)"
      using push by (auto simp: w world_env_def)
    have "prefix (take n xs) (take 2 xs)" if "length xs = 2" for xs :: "string list"
      using that take_is_prefix [of n xs] by simp
    then have "passes world_view w w'" by (auto simp: passes_def world_view_def w r(2))
    then show ?thesis by (simp add: r takes_nothing_def)
  qed
qed

lemma world_save_laws: "save_laws world_env world_view"
proof -
  have "fetch_law world_env world_view"
    unfolding fetch_law_def
    by (auto simp: world_env_def world_view_def passes_def newest_def simp del: world_log.simps intro!: exI [of _ "world_log _"])
  moreover have "commit_law world_env world_view"
    unfolding commit_law_def
    by (auto simp: world_env_def world_view_def passes_def descends_def split: if_splits)
  moreover note world_push_law
  ultimately show ?thesis
    using world_view_laws
    by (auto simp: save_laws_def quiet_def passes_def world_env_def world_view_def space_git_def table_save_git_def)
qed

section \<open>The save\<close>

definition the_upload :: "unit \<Rightarrow> edits" where
  "the_upload u =
     \<lparr>ed_files = [\<lparr>sf_path = ''a'', sf_staged_name = ''f'', sf_size = 3, sf_executable = False\<rparr>],
      ed_deletes = [], ed_base_rev = Some ''base1'',
      ed_expected = [(''a'', Some ''3131313131313131313131313131313131313131'')],
      ed_import = False, ed_add_ignored = False, ed_blobs = None, ed_skipped = [], ed_attempt = None\<rparr>"

definition the_save :: "unit \<Rightarrow> (save_error + cas_outcome) \<times> change \<times> world" where
  "the_save u = cas_commit world_env None ''Update a'' (EditsChange (the_upload u)) (1, [], False)"

definition saved :: cas_outcome where "saved = landed_outcome ''save3'' (Some ''base2'')"

lemma the_save_runs:
  "case the_save () of (r, c, w) \<Rightarrow> r = Inr saved \<and> w = (2, [''save3'', ''save2''], True)"
  by code_simp

lemma the_save:
  "cas_commit world_env None ''Update a'' (EditsChange (the_upload ())) (1, [], False)
     = (Inr saved, fst (snd (the_save ())), (2, [''save3'', ''save2''], True))"
  using the_save_runs unfolding the_save_def by (auto split: prod.splits)

lemma saved_fields: "oc_committed saved" "\<not> oc_replayed saved" "oc_base_rev saved = Some ''base2''" "oc_rev saved = Some ''save3''"
  by (simp_all add: saved_def landed_outcome_def)


theorem upload_saved_exactly_witness:
  "\<exists>commit l w1 mt. oc_rev saved = Some commit \<and> world_mine (2, [''save3'', ''save2''], True) = world_mine (1, [], False) @ [commit]
     \<and> prefix (l @ [commit]) (world_log (2, [''save3'', ''save2''], True)) \<and> newest l = Some ''base2''
     \<and> main_tree_of (sg_git (se_git world_env w1)) (Some ''base2'') = Some mt
     \<and> saved_exactly hash_name (sg_git (se_git world_env w1)) space_model (the_upload ()) (Some ''base2'') mt (world_tree commit)"
proof -
  have "\<forall>w. save_git_laws (se_git world_env w) space_model" "\<forall>w. hashes_as hash_name (se_git world_env w)"
    using space_laws by (simp_all add: world_env_def)
  moreover have "ed_blobs (the_upload ()) = None" "ed_skipped (the_upload ()) = []" by (simp_all add: the_upload_def)
  ultimately show ?thesis
    using upload_saved_exactly [OF world_save_laws, of "\<lambda>_. space_model" hash_name "the_upload ()", OF _ _ _ _ the_save]
      saved_fields by (simp add: world_view_def)
qed

section \<open>A revert\<close>

definition the_revert :: revert where "the_revert = \<lparr>rv_commit = ''base2'', rv_base = ''base1''\<rparr>"

lemma the_revert_builds: "revert_build space_git (Some ''save3'') the_revert = Inr ''tree3''"
  by code_simp

theorem revert_exact_witness:
  "leaf space_model ''tree3'' ''b'' = None \<and> leaf space_model ''tree3'' ''a'' = leaf space_model ''tree4'' ''a''"
proof -
  have t: "gt_tree_id (sg_git space_git) ''save3'' = Some ''tree4''"
    "gt_tree_id (sg_git space_git) (rv_commit the_revert) = Some ''tree2''"
    "gt_tree_id (sg_git space_git) (rv_base the_revert) = Some ''tree1''"
    by code_simp+
  have l: "leaf space_model ''tree4'' ''b'' = leaf space_model ''tree2'' ''b''" "leaf space_model ''tree1'' ''b'' = None"
    "leaf space_model ''tree2'' ''a'' = leaf space_model ''tree1'' ''a''"
    by code_simp+
  from revert_exact [OF space_laws(1) t the_revert_builds] l show ?thesis by metis
qed

end
