(* ===== verification/Caller_Text.thy ===== *)
theory Caller_Text
  imports Hosted_Cas
begin

text \<open>
  The messages commits carry (\<open>origin-http-server/src/recovery_view.rs\<close>, and \<open>caller_message\<close> of
  hosted/cas.rs): how the text a caller gives a save is freed of the trailers the origin reads back
  from history (\<open>without_origin_trailers\<close>), the message of a restore, and how a listing of unsaved
  work finds what was restored (\<open>mark_restored\<close>). Texts are their UTF-8 bytes. Parameters:
  \<open>parse_uuid\<close> (the uuid crate) and what git prints.
\<close>

section \<open>Text\<close>

text \<open>The characters \<open>char::is_control\<close> holds of, a tab apart, are left out: one byte, or two for
  U+0080 to U+009F.\<close>

definition control_byte :: "char \<Rightarrow> bool" where
  "control_byte c \<longleftrightarrow> (ord_of c < 32 \<and> c \<noteq> tab) \<or> ord_of c = 127"

definition wide_control :: "char \<Rightarrow> char \<Rightarrow> bool" where
  "wide_control c d \<longleftrightarrow> ord_of c = 0xC2 \<and> 0x80 \<le> ord_of d \<and> ord_of d \<le> 0x9F"

fun drop_controls :: "string \<Rightarrow> string" where
  "drop_controls [] = []"
| "drop_controls [c] = (if control_byte c then [] else [c])"
| "drop_controls (c # d # s) =
     (if control_byte c then drop_controls (d # s)
      else if wide_control c d then drop_controls s
      else c # drop_controls (d # s))"

definition is_blank_char :: "char \<Rightarrow> bool" where
  "is_blank_char c \<longleftrightarrow> c = space \<or> c = tab"

text \<open>\<open>Iterator::position\<close>.\<close>

fun position :: "('a \<Rightarrow> bool) \<Rightarrow> 'a list \<Rightarrow> nat option" where
  "position P [] = None"
| "position P (x # xs) = (if P x then Some 0 else map_option Suc (position P xs))"

definition position_or :: "nat \<Rightarrow> ('a \<Rightarrow> bool) \<Rightarrow> 'a list \<Rightarrow> nat" where
  "position_or n P xs = (case position P xs of Some i \<Rightarrow> i | None \<Rightarrow> n)"

section \<open>Trailers\<close>

definition restored_from_trailer :: string where
  "restored_from_trailer = ''Instafy-Restored-From''"

definition origin_trailer_prefix :: string where
  "origin_trailer_prefix = ''instafy-''"

definition caller_trailer :: string where
  "caller_trailer = ''Instafy-Resolved-By''"

definition git_generated_trailers :: "string list" where
  "git_generated_trailers = [''Signed-off-by: '', ''(cherry picked from commit '']"

definition scissors_line :: string where
  "scissors_line = ''# ------------------------ >8 ------------------------''"

definition trailer_rounds :: nat where "trailer_rounds = 8"

definition key_char :: "char \<Rightarrow> bool" where
  "key_char c \<longleftrightarrow> is_ascii_alphanumeric c \<or> c = CHR ''-''"

definition trailer_key :: "string \<Rightarrow> string option" where
  "trailer_key line =
     (let key = takeWhile key_char line;
          rest = trim_start_matches is_blank_char (drop (length key) line)
      in if key \<noteq> [] \<and> starts_with rest '':'' then Some key else None)"

definition is_origin_trailer :: "string \<Rightarrow> bool" where
  "is_origin_trailer shown =
     (case trailer_key (trim_start_matches is_blank_char shown) of
        None \<Rightarrow> False
      | Some key \<Rightarrow>
          length origin_trailer_prefix \<le> length key
          \<and> eq_ignore_ascii_case (take (length origin_trailer_prefix) key) origin_trailer_prefix
          \<and> \<not> eq_ignore_ascii_case key caller_trailer)"

section \<open>The trailer block git reads\<close>

definition git_space :: "char \<Rightarrow> bool" where
  "git_space c \<longleftrightarrow> c = space \<or> c = tab \<or> c = newline \<or> c = CHR 0x0D"

definition is_blank :: "string \<Rightarrow> bool" where
  "is_blank line = list_all git_space line"

definition is_comment :: "string \<Rightarrow> bool" where
  "is_comment line = starts_with line ''#''"

definition is_divider :: "string \<Rightarrow> bool" where
  "is_divider line =
     (case strip_prefix line ''---'' of
        None \<Rightarrow> False
      | Some rest \<Rightarrow> (case rest of [] \<Rightarrow> True | c # _ \<Rightarrow> git_space c))"

text \<open>The start of the trailing run of comments, empty lines and old \<open>Conflicts:\<close> lists; one that
  starts at the first line is not counted.\<close>

fun trailing_run :: "nat \<Rightarrow> nat option \<Rightarrow> bool \<Rightarrow> string list \<Rightarrow> nat option" where
  "trailing_run index run conflicts [] = run"
| "trailing_run index run conflicts (line # lines) =
     (if is_comment line \<or> line = [] \<or> line = ''Conflicts:''
      then trailing_run (Suc index) (if run = None \<and> 0 < index then Some index else run)
             (conflicts \<or> line = ''Conflicts:'') lines
      else if conflicts \<and> starts_with line [tab] then trailing_run (Suc index) run conflicts lines
      else if run \<noteq> None then trailing_run (Suc index) None False lines
      else trailing_run (Suc index) run conflicts lines)"

text \<open>The lines after the title from the last one up: how many are trailers, how many are not, and
  how many might continue a trailer above. The result is the range of the block.\<close>

fun block_scan :: "nat \<Rightarrow> (nat \<times> string) list \<Rightarrow> nat \<Rightarrow> nat \<Rightarrow> nat \<Rightarrow> bool \<Rightarrow> bool \<Rightarrow> nat \<times> nat" where
  "block_scan n [] trailers unmarked continuing recognized only_blank = (0, 0)"
| "block_scan n ((index, line) # higher) trailers unmarked continuing recognized only_blank =
     (if is_comment line
      then block_scan n higher trailers (unmarked + continuing) 0 recognized only_blank
      else if is_blank line
      then if only_blank
           then block_scan n higher trailers unmarked continuing recognized only_blank
           else (let unmarked = unmarked + continuing;
                     block = (recognized \<and> unmarked \<le> trailers * 3) \<or> (0 < trailers \<and> unmarked = 0)
                 in if block then (index + 1, n) else (0, 0))
      else if list_ex (starts_with line) git_generated_trailers
      then block_scan n higher (trailers + 1) unmarked 0 True False
      else if trailer_key line \<noteq> None
      then block_scan n higher (trailers + 1) unmarked 0 recognized False
      else if (case line of [] \<Rightarrow> False | c # _ \<Rightarrow> git_space c)
      then block_scan n higher trailers unmarked (continuing + 1) recognized False
      else block_scan n higher trailers (unmarked + 1 + continuing) 0 recognized False)"

definition trailer_block :: "string list \<Rightarrow> bool \<Rightarrow> nat \<times> nat" where
  "trailer_block lines divider =
     (let end = (if divider then position_or (length lines) is_divider lines else length lines);
          cutoff = position_or end (\<lambda>line. starts_with line scissors_line) (take end lines);
          run = trailing_run 0 None False (take cutoff lines);
          lines = take (case run of Some r \<Rightarrow> r | None \<Rightarrow> cutoff) lines;
          title = position_or (length lines) (\<lambda>line. \<not> is_comment line \<and> is_blank line) lines
      in block_scan (length lines) (rev (drop title (enumerate 0 lines))) 0 0 0 False True)"

section \<open>Text of callers\<close>

text \<open>The lines of a message that one round takes out.\<close>

definition in_block :: "nat \<Rightarrow> string list \<Rightarrow> bool \<Rightarrow> bool" where
  "in_block i view divider = (case trailer_block view divider of (a, b) \<Rightarrow> a \<le> i \<and> i < b)"

definition origin_flags :: "nat \<Rightarrow> string list \<Rightarrow> bool list" where
  "origin_flags turn lines =
     (let shown = map drop_controls lines
      in map (\<lambda>i. is_origin_trailer (shown ! i)
                   \<and> (if turn < trailer_rounds
                      then list_ex (\<lambda>view. list_ex (in_block i view) [False, True]) [lines, shown]
                      else 0 < i))
           [0..<length lines])"

fun clean_rounds :: "nat list \<Rightarrow> string \<Rightarrow> string" where
  "clean_rounds [] message = message"
| "clean_rounds (turn # turns) message =
     (let lines = split_on newline message;
          origin = origin_flags turn lines
      in if True \<notin> set origin then message
         else clean_rounds turns
                (trim_str (join_with [newline] (map fst (filter (\<lambda>(_, flagged). \<not> flagged) (zip lines origin))))))"

definition without_origin_trailers :: "string \<Rightarrow> string" where
  "without_origin_trailers message = clean_rounds [0..<trailer_rounds + 1] (trim_str message)"

definition max_message_bytes :: nat where "max_message_bytes = 16 * 1024"

definition caller_message :: "string option \<Rightarrow> string option" where
  "caller_message text =
     Option.bind text (\<lambda>text.
       (let cleaned = map (\<lambda>line. trim_end (drop_controls line)) (text_lines text);
            message = trim_str (join_with [newline] cleaned);
            message = (if max_message_bytes < length message
                       then take (cut_at_char message max_message_bytes) message else message);
            message = without_origin_trailers message
        in if message \<noteq> [] then Some message else None))"

section \<open>Recovery refs\<close>

definition max_recovery_name_bytes :: nat where "max_recovery_name_bytes = 255"

definition ref_name_bytes :: string where
  "ref_name_bytes = ''0123456789ABCDEFGHIJKLMNOPQRSTUVWXYZabcdefghijklmnopqrstuvwxyz._-/''"

definition lower_hex_bytes :: string where
  "lower_hex_bytes = ''0123456789abcdef''"

definition copy_from_alphabet :: "string \<Rightarrow> string \<Rightarrow> string option" where
  "copy_from_alphabet v alphabet = collect_options (map (\<lambda>c. find (\<lambda>a. a = c) alphabet) v)"

definition is_lower_case_uuid :: "string \<Rightarrow> bool" where
  "is_lower_case_uuid v \<longleftrightarrow>
     length v = 36
     \<and> list_all (\<lambda>(i, c). if i \<in> {8, 13, 18, 23::nat} then c = CHR ''-'' else is_lower_hex c) (enumerate 0 v)"

definition is_valid_recovery_name :: "string \<Rightarrow> bool" where
  "is_valid_recovery_name name \<longleftrightarrow>
     name \<noteq> [] \<and> length name \<le> max_recovery_name_bytes
     \<and> list_all (\<lambda>c. is_ascii_alphanumeric c \<or> c \<in> {CHR ''.'', CHR ''_'', CHR ''-''}) name
     \<and> \<not> starts_with name ''.'' \<and> \<not> ends_with name ''.'' \<and> \<not> contains_str name ''..''
     \<and> \<not> ends_with (to_ascii_lowercase name) ''.lock''"

datatype view_error = InvalidRef | InvalidRev | Git

record 'u recovery_ref =
  rr_name :: string
  rr_origin :: 'u

definition recovery_ref_parse :: "(string \<Rightarrow> 'u option) \<Rightarrow> string \<Rightarrow> view_error + 'u recovery_ref" where
  "recovery_ref_parse parse_uuid name =
     (case strip_prefix name (recovery_ref_root @ ''/'') of
        None \<Rightarrow> Inl InvalidRef
      | Some rest \<Rightarrow>
          (case split_once (CHR ''/'') rest of
             None \<Rightarrow> Inl InvalidRef
           | Some (origin, last_part) \<Rightarrow>
               if \<not> is_lower_case_uuid origin \<or> \<not> is_valid_recovery_name last_part then Inl InvalidRef
               else (case parse_uuid origin of
                       None \<Rightarrow> Inl InvalidRef
                     | Some u \<Rightarrow>
                         (case copy_from_alphabet name ref_name_bytes of
                            None \<Rightarrow> Inl InvalidRef
                          | Some copy \<Rightarrow> Inr \<lparr>rr_name = copy, rr_origin = u\<rparr>))))"

definition parse_rev :: "string \<Rightarrow> view_error + string" where
  "parse_rev v =
     (if (length v = 40 \<or> length v = 64) \<and> list_all is_ascii_hexdigit v
      then (case copy_from_alphabet (to_ascii_lowercase v) lower_hex_bytes of
              Some copy \<Rightarrow> Inr copy | None \<Rightarrow> Inl InvalidRev)
      else Inl InvalidRev)"

section \<open>Restore commits\<close>

definition restore_commit_subject :: string where
  "restore_commit_subject = ''Restore unsaved work''"

definition restore_commit_message :: "string \<Rightarrow> string" where
  "restore_commit_message reference =
     restore_commit_subject @ [newline, newline] @ restored_from_trailer @ '': '' @ reference @ [newline]"

definition revert_commit_message :: "string \<Rightarrow> string \<Rightarrow> string" where
  "revert_commit_message subject commit =
     ''Undid '' @ [CHR 0x22] @ subject @ [CHR 0x22, newline, newline]
     @ ''This reverts commit '' @ commit @ ''.'' @ [newline]"

definition restored_from :: "(string \<Rightarrow> 'u option) \<Rightarrow> string \<Rightarrow> string option" where
  "restored_from parse_uuid message =
     Option.bind (strip_prefix message restore_commit_subject) (\<lambda>m.
     Option.bind (strip_prefix m [newline, newline]) (\<lambda>m.
     Option.bind (strip_prefix m restored_from_trailer) (\<lambda>m.
     Option.bind (strip_prefix m '': '') (\<lambda>m.
     Option.bind (strip_suffix m [newline]) (\<lambda>reference.
       case recovery_ref_parse parse_uuid reference of Inl _ \<Rightarrow> None | Inr _ \<Rightarrow> Some reference)))))"

definition default_origin_author_email :: string where
  "default_origin_author_email = ''origin@instafy.dev''"

definition default_gateway_author_email :: string where
  "default_gateway_author_email = ''gateway@instafy.dev''"

definition restore_committers :: "string \<Rightarrow> string list" where
  "restore_committers own =
     fold (\<lambda>email committers.
             let email = to_ascii_lowercase (trim_str email)
             in if email \<noteq> [] \<and> email \<notin> set committers then committers @ [email] else committers)
       [own, default_origin_author_email, default_gateway_author_email] []"

definition header_end :: string where "header_end = [newline, newline]"

text \<open>The committer's address of a raw commit, in lower case.\<close>

definition committer_of :: "string \<Rightarrow> string option" where
  "committer_of data =
     (let headers = hd (split_str header_end (from_utf8_lossy data))
      in case List.map_filter (\<lambda>line. strip_prefix line ''committer '') (text_lines headers) of
           [] \<Rightarrow> None
         | committer # _ \<Rightarrow>
             (case (rsplit_once (CHR ''<'') committer, rsplit_once (CHR ''>'') committer) of
                (Some (prior, _), Some (till, _)) \<Rightarrow>
                  if length prior < length till
                  then Some (to_ascii_lowercase (trim_str (drop (length prior + 1) till)))
                  else None
              | _ \<Rightarrow> None))"

definition restore_of_commit ::
  "(string \<Rightarrow> 'u option) \<Rightarrow> string list \<Rightarrow> string \<times> git_object \<Rightarrow> (string \<times> string) option" where
  "restore_of_commit parse_uuid committers c =
     (case c of (ident, object) \<Rightarrow>
        let trusted = (case committer_of (go_data object) of
                         None \<Rightarrow> False | Some committer \<Rightarrow> list_ex (\<lambda>email. email = committer) committers)
        in if go_kind object \<noteq> ''commit'' \<or> \<not> trusted then None
           else case split_once_str header_end (from_utf8_lossy (go_data object)) of
                  None \<Rightarrow> None
                | Some (_, message) \<Rightarrow> map_option (\<lambda>reference. (ident, reference)) (restored_from parse_uuid message))"

definition restore_commits ::
  "(string \<Rightarrow> 'u option) \<Rightarrow> 'i git_tool \<Rightarrow> string list \<Rightarrow> string list \<Rightarrow> (string \<times> string) list option" where
  "restore_commits parse_uuid g ids committers =
     map_option (\<lambda>objects. List.map_filter (restore_of_commit parse_uuid committers) (zip ids objects))
       (read_objects g ids)"

definition max_restore_commits :: nat where "max_restore_commits = 500"

definition restore_clock_slack_seconds :: int where "restore_clock_slack_seconds = 24 * 60 * 60"

text \<open>\<open>rev_list\<close> is what \<open>git rev-list --fixed-strings\<close> prints for a text to look for, a count, an age
  and a tip.\<close>

definition restore_candidates ::
  "(string \<Rightarrow> nat \<Rightarrow> int \<Rightarrow> string \<Rightarrow> string option) \<Rightarrow> string \<Rightarrow> int \<Rightarrow> string list option" where
  "restore_candidates rev_list tip made_at =
     map_option (\<lambda>listed. filter full_object_id (map trim_str (text_lines listed)))
       (rev_list (restored_from_trailer @ '': '') max_restore_commits
          (max 0 (max (- (2 ^ 63)) (made_at - restore_clock_slack_seconds))) tip)"

datatype item_kind = Conflict_Item | Unpublished_Item | Unsaved_Item | Stale_Item | Undone_Item | Unknown_Item

record 'u recovery_item =
  ri_reference :: string
  ri_rev :: string
  ri_commit :: string
  ri_kind :: item_kind
  ri_subject :: string
  ri_date :: "string option"
  ri_origin :: 'u
  ri_paths :: "path list"
  ri_base :: "string option"
  ri_restored_rev :: "string option"
  ri_rolling_save :: bool
  ri_timestamp :: int

definition mark_item :: "(string \<times> string) list \<Rightarrow> 'u recovery_item \<Rightarrow> 'u recovery_item" where
  "mark_item found item =
     (if ri_rolling_save item then item
      else item\<lparr>ri_restored_rev := map_of (map (\<lambda>(ident, reference). (reference, ident)) found) (ri_reference item)\<rparr>)"

definition mark_restored ::
  "(string \<Rightarrow> 'u option) \<Rightarrow> 'i git_tool \<Rightarrow> (string \<Rightarrow> nat \<Rightarrow> int \<Rightarrow> string \<Rightarrow> string option) \<Rightarrow>
   'u recovery_item list \<Rightarrow> string option \<Rightarrow> string list \<Rightarrow> view_error + 'u recovery_item list" where
  "mark_restored parse_uuid g rev_list items main committers =
     (case main of
        None \<Rightarrow> Inr items
      | Some main \<Rightarrow>
          if items = [] then Inr items
          else (case parse_rev main of
                  Inl e \<Rightarrow> Inl e
                | Inr main \<Rightarrow>
                    (case restore_candidates rev_list main (Min (set (map ri_timestamp items))) of
                       None \<Rightarrow> Inl Git
                     | Some ids \<Rightarrow>
                         (case restore_commits parse_uuid g ids committers of
                            None \<Rightarrow> Inl Git
                          | Some found \<Rightarrow> Inr (map (mark_item found) items)))))"

section \<open>The gateway's own address\<close>

record gateway_identity =
  gi_name :: string
  gi_email :: string
  gi_warning :: bool

definition set_value :: "string option \<Rightarrow> string option" where
  "set_value v = Option.bind (map_option trim_str v) (\<lambda>v. if v \<noteq> [] then Some v else None)"

definition is_runtime_default :: "string \<Rightarrow> bool" where
  "is_runtime_default email = eq_ignore_ascii_case email default_origin_author_email"

definition resolve_gateway_identity ::
  "string option \<Rightarrow> string option \<Rightarrow> string option \<Rightarrow> string option \<Rightarrow> gateway_identity option" where
  "resolve_gateway_identity gateway_email gateway_name origin_email origin_name =
     (let name = (case set_value gateway_name of
                    Some n \<Rightarrow> n
                  | None \<Rightarrow> (case set_value origin_name of Some n \<Rightarrow> n | None \<Rightarrow> ''instafy-origin''))
      in case (set_value gateway_email, set_value origin_email) of
           (Some email, _) \<Rightarrow>
             if is_runtime_default email then None
             else Some \<lparr>gi_name = name, gi_email = email, gi_warning = False\<rparr>
         | (None, Some email) \<Rightarrow>
             if is_runtime_default email
             then Some \<lparr>gi_name = name, gi_email = default_gateway_author_email, gi_warning = True\<rparr>
             else Some \<lparr>gi_name = name, gi_email = email, gi_warning = False\<rparr>
         | (None, None) \<Rightarrow> Some \<lparr>gi_name = name, gi_email = default_gateway_author_email, gi_warning = False\<rparr>)"

end
