(* ===== verification/Caller_Laws.thy ===== *)
theory Caller_Laws
  imports Caller_Text
begin

text \<open>
  What the text functions of Caller_Text keep: trailer lines stay trailer lines when more text
  follows them or control characters are set aside, blocks never hold the subject, and the rounds of
  \<open>without_origin_trailers\<close> end with a trimmed text none of whose blocks holds a trailer of the origin.
\<close>

section \<open>Control characters\<close>

lemma drop_controls_Cons_plain:
  "\<not> control_byte c \<Longrightarrow> ord_of c \<noteq> 0xC2 \<Longrightarrow> drop_controls (c # s) = c # drop_controls s"
  by (cases s) (auto simp: wide_control_def)

lemma drop_controls_Cons_control: "control_byte c \<Longrightarrow> drop_controls (c # s) = drop_controls s"
  by (cases s) auto

lemma drop_controls_append_plain:
  "list_all (\<lambda>c. \<not> control_byte c \<and> ord_of c \<noteq> 0xC2) p \<Longrightarrow> drop_controls (p @ s) = p @ drop_controls s"
  by (induction p) (auto simp: drop_controls_Cons_plain)

lemma drop_controls_append:
  "s = [] \<or> \<not> (0x80 \<le> ord_of (hd s) \<and> ord_of (hd s) \<le> 0x9F) \<Longrightarrow>
     drop_controls (p @ s) = drop_controls p @ drop_controls s"
proof (induction p rule: drop_controls.induct)
  case (2 c)
  then show ?case by (cases s) (auto simp: wide_control_def)
qed auto

lemma set_drop_controls: "set (drop_controls s) \<subseteq> {c \<in> set s. \<not> control_byte c}"
  by (induction s rule: drop_controls.induct) auto

lemma length_drop_controls: "length (drop_controls s) \<le> length s"
  by (induction s rule: drop_controls.induct) auto

section \<open>Trailer lines\<close>

lemma is_blank_char_plain: "is_blank_char c \<Longrightarrow> \<not> control_byte c \<and> ord_of c \<noteq> 0xC2"
  by (auto simp: is_blank_char_def control_byte_def ord_of_def)

lemma key_char_plain: "key_char c \<Longrightarrow> \<not> control_byte c \<and> ord_of c \<noteq> 0xC2"
  by (auto simp: key_char_def control_byte_def ascii_defs)

lemma key_not_blank: "key_char c \<Longrightarrow> \<not> is_blank_char c"
  by (auto simp: key_char_def is_blank_char_def ascii_defs)

lemma key_not_colon: "\<not> key_char (CHR '':'')" "\<not> is_blank_char (CHR '':'')"
  by (simp_all add: key_char_def is_blank_char_def ascii_defs)

text \<open>A trailer line is blanks, a key, blanks, a colon and any text.\<close>

definition origin_key :: "string \<Rightarrow> bool" where
  "origin_key key \<longleftrightarrow>
     length origin_trailer_prefix \<le> length key
     \<and> eq_ignore_ascii_case (take (length origin_trailer_prefix) key) origin_trailer_prefix
     \<and> \<not> eq_ignore_ascii_case key caller_trailer"

lemma trailer_key_iff:
  "trailer_key line = Some key \<longleftrightarrow>
     (\<exists>gap rest. line = key @ gap @ CHR '':'' # rest \<and> key \<noteq> [] \<and> list_all key_char key \<and> list_all is_blank_char gap)"
proof
  assume t: "trailer_key line = Some key"
  let ?key = "takeWhile key_char line"
  let ?rest = "dropWhile key_char line"
  have k: "key = ?key" "key \<noteq> []" and c: "starts_with (dropWhile is_blank_char ?rest) '':''"
    using t by (auto simp: trailer_key_def Let_def trim_start_matches_def dropWhile_eq_drop split: if_splits)
  from c obtain rest where "dropWhile is_blank_char ?rest = CHR '':'' # rest"
    by (auto simp: starts_with_iff_prefix prefix_def)
  then have "line = ?key @ takeWhile is_blank_char ?rest @ CHR '':'' # rest"
    by (metis takeWhile_dropWhile_id)
  with k show "\<exists>gap rest. line = key @ gap @ CHR '':'' # rest \<and> key \<noteq> [] \<and> list_all key_char key \<and> list_all is_blank_char gap"
    by (intro exI [of _ "takeWhile is_blank_char ?rest"] exI [of _ rest])
      (auto simp: list_all_iff dest: set_takeWhileD)
next
  assume "\<exists>gap rest. line = key @ gap @ CHR '':'' # rest \<and> key \<noteq> [] \<and> list_all key_char key \<and> list_all is_blank_char gap"
  then obtain gap rest where l: "line = key @ gap @ CHR '':'' # rest" "key \<noteq> []" "list_all key_char key" "list_all is_blank_char gap"
    by blast
  have g: "takeWhile key_char (gap @ CHR '':'' # rest) = []" "dropWhile is_blank_char (gap @ CHR '':'' # rest) = CHR '':'' # rest"
  proof -
    show "takeWhile key_char (gap @ CHR '':'' # rest) = []"
      using l(4) key_not_blank key_not_colon by (cases gap) auto
    show "dropWhile is_blank_char (gap @ CHR '':'' # rest) = CHR '':'' # rest"
      using l(4) key_not_colon by (induction gap) auto
  qed
  have "takeWhile key_char line = key"
    using l(1,3) g(1) by (simp add: list_all_iff takeWhile_append2)
  with l g show "trailer_key line = Some key"
    by (simp add: trailer_key_def Let_def trim_start_matches_def)
qed

lemma is_origin_trailer_iff:
  "is_origin_trailer line \<longleftrightarrow>
     (\<exists>pad key gap rest. line = pad @ key @ gap @ CHR '':'' # rest \<and> list_all is_blank_char pad \<and> key \<noteq> []
        \<and> list_all key_char key \<and> list_all is_blank_char gap \<and> origin_key key)"
proof
  assume "is_origin_trailer line"
  then obtain key where k: "trailer_key (dropWhile is_blank_char line) = Some key" "origin_key key"
    by (auto simp: is_origin_trailer_def origin_key_def trim_start_matches_def split: option.splits)
  from k(1) obtain gap rest where "dropWhile is_blank_char line = key @ gap @ CHR '':'' # rest"
      "key \<noteq> []" "list_all key_char key" "list_all is_blank_char gap"
    unfolding trailer_key_iff by blast
  moreover from this(1) have "line = takeWhile is_blank_char line @ key @ gap @ CHR '':'' # rest"
    by (metis takeWhile_dropWhile_id)
  moreover have "list_all is_blank_char (takeWhile is_blank_char line)"
    by (auto simp: list_all_iff dest: set_takeWhileD)
  ultimately show "\<exists>pad key gap rest. line = pad @ key @ gap @ CHR '':'' # rest \<and> list_all is_blank_char pad \<and> key \<noteq> []
        \<and> list_all key_char key \<and> list_all is_blank_char gap \<and> origin_key key"
    using k(2) by blast
next
  assume "\<exists>pad key gap rest. line = pad @ key @ gap @ CHR '':'' # rest \<and> list_all is_blank_char pad \<and> key \<noteq> []
        \<and> list_all key_char key \<and> list_all is_blank_char gap \<and> origin_key key"
  then obtain pad key gap rest where l: "line = pad @ key @ gap @ CHR '':'' # rest" "list_all is_blank_char pad" "key \<noteq> []"
        "list_all key_char key" "list_all is_blank_char gap" "origin_key key"
    by blast
  have "dropWhile is_blank_char line = key @ gap @ CHR '':'' # rest"
  proof -
    have "dropWhile is_blank_char (key @ x) = key @ x" for x
      using l(3,4) key_not_blank by (cases key) auto
    moreover have "dropWhile is_blank_char (pad @ x) = dropWhile is_blank_char x" for x
      using l(2) by (induction pad) auto
    ultimately show ?thesis by (simp add: l(1))
  qed
  moreover have "trailer_key (key @ gap @ CHR '':'' # rest) = Some key"
    unfolding trailer_key_iff using l by blast
  ultimately show "is_origin_trailer line"
    using l(6) by (simp add: is_origin_trailer_def origin_key_def trim_start_matches_def)
qed

lemma is_origin_trailer_append: "is_origin_trailer a \<Longrightarrow> is_origin_trailer (a @ b)"
  unfolding is_origin_trailer_iff by (metis (no_types, opaque_lifting) append.assoc append_Cons)

lemma is_origin_trailer_shown: "is_origin_trailer line \<Longrightarrow> is_origin_trailer (drop_controls line)"
proof -
  assume "is_origin_trailer line"
  then obtain pad key gap rest where l: "line = pad @ key @ gap @ CHR '':'' # rest" "list_all is_blank_char pad" "key \<noteq> []"
        "list_all key_char key" "list_all is_blank_char gap" "origin_key key"
    unfolding is_origin_trailer_iff by blast
  let ?plain = "\<lambda>c. \<not> control_byte c \<and> ord_of c \<noteq> 0xC2"
  have "list_all ?plain (pad @ key @ gap @ '':'')"
    using l(2,4,5) is_blank_char_plain key_char_plain
    by (auto simp: list_all_iff) (auto simp: control_byte_def ord_of_def)
  then have "drop_controls ((pad @ key @ gap @ '':'') @ rest) = (pad @ key @ gap @ '':'') @ drop_controls rest"
    by (rule drop_controls_append_plain)
  then have "drop_controls line = pad @ key @ gap @ CHR '':'' # drop_controls rest" by (simp add: l(1))
  then show ?thesis unfolding is_origin_trailer_iff using l by blast
qed

section \<open>Blocks\<close>

lemma block_scan_range:
  assumes "block_scan n ls t u c r ob = (a, b)" "\<forall>i\<in>set (map fst ls). i < n" "a \<le> i" "i < b"
  shows "0 < i \<and> i < n"
  using assms
  by (induction n ls t u c r ob rule: block_scan.induct) (auto simp: Let_def split: if_splits)

lemma in_block_range: "in_block i lines divider \<Longrightarrow> 0 < i \<and> i < length lines"
proof -
  assume i: "in_block i lines divider"
  obtain a b where ab: "trailer_block lines divider = (a, b)" by fastforce
  with i have *: "a \<le> i" "i < b" by (auto simp: in_block_def)
  from ab obtain k t where "block_scan (length (take k lines)) (rev (drop t (enumerate 0 (take k lines)))) 0 0 0 False True = (a, b)"
    unfolding trailer_block_def Let_def by blast
  then have "0 < i \<and> i < length (take k lines)"
    by (rule block_scan_range [OF _ _ *]) (auto dest!: in_set_dropD simp: in_set_enumerate_eq)
  then show ?thesis by simp
qed

section \<open>Lines\<close>

lemma split_on_lines_free: "l \<in> set (split_on d s) \<Longrightarrow> d \<notin> set l"
  by (induction s arbitrary: l) (auto split: if_splits list.splits)

lemma join_split_on: "join_with [d] (split_on d s) = s"
proof (induction s)
  case (Cons c s)
  obtain w ws where w: "split_on d s = w # ws" using split_on_not_Nil [of d s] by (cases "split_on d s") auto
  with Cons show ?case by (cases ws) auto
qed simp

lemma split_on_join:
  "ls \<noteq> [] \<Longrightarrow> \<forall>l\<in>set ls. d \<notin> set l \<Longrightarrow> split_on d (join_with [d] ls) = ls"
proof (induction ls)
  case (Cons x ls)
  then show ?case by (cases ls) (auto simp: split_on_append_sep split_on_no_sep)
qed simp

lemma split_on_append:
  "\<exists>z' zs. split_on d (a @ b) = butlast (split_on d a) @ z' # zs \<and> prefix (last (split_on d a)) z'"
proof (induction a)
  case Nil
  then show ?case using split_on_not_Nil [of d b] by (cases "split_on d b") auto
next
  case (Cons c a)
  then obtain z' zs where IH: "split_on d (a @ b) = butlast (split_on d a) @ z' # zs" "prefix (last (split_on d a)) z'"
    by blast
  obtain w ws where w: "split_on d a = w # ws" using split_on_not_Nil [of d a] by (cases "split_on d a") auto
  show ?case
  proof (cases "c = d")
    case True
    with IH w show ?thesis by auto
  next
    case False
    with IH w show ?thesis by (cases "ws = []") auto
  qed
qed

lemma last_line_prefix: "l \<in> set (split_on d a) \<Longrightarrow> \<exists>l'\<in>set (split_on d (a @ b)). prefix l l'"
proof -
  assume "l \<in> set (split_on d a)"
  moreover have "set (split_on d a) = insert (last (split_on d a)) (set (butlast (split_on d a)))"
    by (metis append_butlast_last_id list.set(2) rotate1.simps(2) set_rotate1 split_on_not_Nil)
  ultimately show ?thesis using split_on_append [of d a b] by auto
qed

lemma later_lines_prefix:
  assumes "sublist r s" "l \<in> set (tl (split_on d r))"
  shows "\<exists>l'\<in>set (tl (split_on d s)). prefix l l'"
proof -
  from assms(1) obtain x y where s: "s = x @ r @ y" by (auto simp: sublist_def)
  have "d \<in> set r"
    using assms(2) by (rule contrapos_pp) (simp add: split_on_no_sep)
  then obtain r0 r1 where r: "r = r0 @ d # r1" "d \<notin> set r0" by (meson split_list_first)
  have "split_on d r = r0 # split_on d r1" by (simp add: r split_on_append_sep split_on_no_sep)
  with assms(2) have "l \<in> set (split_on d r1)" by simp
  from last_line_prefix [OF this] obtain l' where l': "l' \<in> set (split_on d (r1 @ y))" "prefix l l'" by blast
  have "split_on d s = split_on d (x @ r0) @ split_on d (r1 @ y)"
    using split_on_append_sep [of d "x @ r0" "r1 @ y"] by (simp add: s r)
  then have "set (split_on d (r1 @ y)) \<subseteq> set (tl (split_on d s))"
    by (cases "split_on d (x @ r0)") auto
  with l' show ?thesis by blast
qed

lemma drop_controls_colon:
  "drop_controls p = q @ CHR '':'' # w \<Longrightarrow> \<exists>w'. drop_controls (p @ s) = q @ CHR '':'' # w'"
proof (induction p arbitrary: q rule: drop_controls.induct)
  case 1
  then show ?case by simp
next
  case (2 c)
  then have "c = CHR '':''" "q = []" by (auto simp: Cons_eq_append_conv split: if_splits)
  then show ?case by (auto simp: drop_controls_Cons_plain control_byte_def ord_of_def)
next
  case (3 c d p)
  then show ?case by (auto simp: Cons_eq_append_conv split: if_splits)
qed

lemma shown_trailer_prefix:
  assumes "prefix l l'" "is_origin_trailer (drop_controls l)"
  shows "is_origin_trailer (drop_controls l')"
proof -
  from assms(2) obtain pad key gap rest where l: "drop_controls l = (pad @ key @ gap) @ CHR '':'' # rest"
      "list_all is_blank_char pad" "key \<noteq> []" "list_all key_char key" "list_all is_blank_char gap" "origin_key key"
    unfolding is_origin_trailer_iff by auto
  from assms(1) obtain s where "l' = l @ s" by (auto simp: prefix_def)
  with drop_controls_colon [OF l(1)] obtain w' where "drop_controls l' = (pad @ key @ gap) @ CHR '':'' # w'"
    by blast
  with l(2-) show ?thesis unfolding is_origin_trailer_iff by (metis append.assoc)
qed

section \<open>The rounds\<close>

definition clean_text :: "string \<Rightarrow> bool" where
  "clean_text m \<longleftrightarrow>
     (\<forall>i divider. let lines = split_on newline m; shown = map drop_controls lines
        in in_block i lines divider \<or> in_block i shown divider \<longrightarrow> \<not> is_origin_trailer (shown ! i))"

lemma flags_clean: "turn < trailer_rounds \<Longrightarrow> True \<notin> set (origin_flags turn (split_on newline m)) \<longleftrightarrow> clean_text m"
proof -
  assume t: "turn < trailer_rounds"
  let ?lines = "split_on newline m" and ?shown = "map drop_controls (split_on newline m)"
  have "True \<notin> set (origin_flags turn ?lines) \<longleftrightarrow>
    (\<forall>i<length ?lines. \<forall>divider. in_block i ?lines divider \<or> in_block i ?shown divider \<longrightarrow> \<not> is_origin_trailer (?shown ! i))"
    using t by (auto simp: origin_flags_def Let_def image_iff all_bool_eq atLeast0LessThan)
  also have "\<dots> \<longleftrightarrow> clean_text m"
    unfolding clean_text_def Let_def using in_block_range [of _ ?lines] in_block_range [of _ ?shown]
    by (metis length_map)
  finally show ?thesis .
qed

lemma later_clean:
  "(\<And>l. l \<in> set (tl (split_on newline m)) \<Longrightarrow> \<not> is_origin_trailer (drop_controls l)) \<Longrightarrow> clean_text m"
proof -
  assume a: "\<And>l. l \<in> set (tl (split_on newline m)) \<Longrightarrow> \<not> is_origin_trailer (drop_controls l)"
  have "\<not> is_origin_trailer (map drop_controls (split_on newline m) ! i)"
    if "0 < i" "i < length (split_on newline m)" for i
  proof -
    have "split_on newline m ! i \<in> set (tl (split_on newline m))"
      using that by (cases "split_on newline m") (auto simp: nth_Cons')
    then show ?thesis using a that by simp
  qed
  then show ?thesis
    unfolding clean_text_def Let_def using in_block_range by (metis length_map)
qed

abbreviation kept_lines :: "string list \<Rightarrow> bool list \<Rightarrow> string list" where
  "kept_lines lines origin \<equiv> map fst (filter (\<lambda>(_, flagged). \<not> flagged) (zip lines origin))"

lemma kept_lines_map: "kept_lines ls (map F [0..<length ls]) = map ((!) ls) (filter (\<lambda>i. \<not> F i) [0..<length ls])"
proof -
  have "zip (map ((!) ls) [0..<length ls]) (map F [0..<length ls]) = map (\<lambda>i. (ls ! i, F i)) [0..<length ls]"
    by (simp add: zip_map_map zip_same_conv_map)
  then have "zip ls (map F [0..<length ls]) = map (\<lambda>i. (ls ! i, F i)) [0..<length ls]"
    by (simp add: map_nth)
  then show ?thesis by (simp add: filter_map o_def)
qed

lemma last_round_clean:
  assumes "trailer_rounds \<le> turn"
  shows "clean_text (trim_str (join_with [newline] (kept_lines (split_on newline m) (origin_flags turn (split_on newline m)))))"
    (is "clean_text (trim_str ?j)")
proof (rule later_clean)
  fix l assume "l \<in> set (tl (split_on newline (trim_str ?j)))"
  from later_lines_prefix [OF trim_str_sublist this]
  obtain l' where l': "l' \<in> set (tl (split_on newline ?j))" "prefix l l'" by blast
  let ?lines = "split_on newline m"
  let ?flag = "\<lambda>i. is_origin_trailer (drop_controls (?lines ! i)) \<and> 0 < i"
  have flags: "origin_flags turn ?lines = map ?flag [0..<length ?lines]"
    using assms by (simp add: origin_flags_def)
  obtain x xs where x: "?lines = x # xs" using split_on_not_Nil [of newline m] by (cases ?lines) auto
  have up: "[0..<length ?lines] = 0 # [1..<length ?lines]" using x by (simp add: upt_conv_Cons del: upt_Suc)
  have "kept_lines ?lines (origin_flags turn ?lines) = map ((!) ?lines) (filter (\<lambda>i. \<not> ?flag i) [0..<length ?lines])"
    unfolding flags by (rule kept_lines_map)
  then have k: "kept_lines ?lines (origin_flags turn ?lines)
      = x # map ((!) ?lines) (filter (\<lambda>i. \<not> ?flag i) [1..<length ?lines])"
    unfolding up by (simp add: x del: upt_Suc)
  have "\<forall>l\<in>set (kept_lines ?lines (origin_flags turn ?lines)). newline \<notin> set l"
    using split_on_lines_free by (fastforce dest: set_zip_leftD)
  then have "split_on newline ?j = kept_lines ?lines (origin_flags turn ?lines)"
    using k by (intro split_on_join) auto
  with k l'(1) have "\<not> is_origin_trailer (drop_controls l')" by auto
  with shown_trailer_prefix [OF l'(2)] show "\<not> is_origin_trailer (drop_controls l)" by blast
qed

lemma clean_rounds_clean: "k \<le> trailer_rounds \<Longrightarrow> clean_text (clean_rounds [k..<Suc trailer_rounds] m)"
proof (induction "trailer_rounds - k" arbitrary: k m)
  case 0
  let ?lines = "split_on newline m"
  from 0 have k: "k = trailer_rounds" by simp
  show ?case
  proof (cases "True \<in> set (origin_flags k ?lines)")
    case True
    then show ?thesis using last_round_clean [of k m] by (simp add: k Let_def)
  next
    case False
    have "\<not> is_origin_trailer (drop_controls (?lines ! i))" if "0 < i" "i < length ?lines" for i
      using False that by (auto simp: k origin_flags_def Let_def image_iff)
    then have "clean_text m"
      by (intro later_clean) (auto simp: in_set_conv_nth nth_tl)
    with False show ?thesis by (simp add: k)
  qed
next
  case (Suc n)
  then have k: "k < trailer_rounds" by simp
  then have u: "[k..<Suc trailer_rounds] = k # [Suc k..<Suc trailer_rounds]" by (simp add: upt_conv_Cons)
  show ?case
  proof (cases "True \<in> set (origin_flags k (split_on newline m))")
    case True
    then show ?thesis using Suc(1) [of "Suc k"] Suc(2) k by (simp add: u Let_def del: upt_Suc)
  next
    case False
    then show ?thesis using flags_clean [OF k] by (simp add: u Let_def del: upt_Suc)
  qed
qed

section \<open>Trimming\<close>

lemma ws_head_prefix:
  assumes "ws_head t = 0" "prefix e t"
  shows "ws_head e = 0"
proof (rule ccontr)
  assume "ws_head e \<noteq> 0"
  then obtain u r where "e = u @ r" "ws_bytes (map ord_of u)" unfolding ws_head_iff by blast
  with assms(2) have "\<exists>r. t = u @ r" "ws_bytes (map ord_of u)" by (auto simp: prefix_def)
  then have "ws_head t \<noteq> 0" unfolding ws_head_iff by blast
  with assms(1) show False by simp
qed

lemma ws_head_trim_start: "trim_start s = [] \<or> ws_head (trim_start s) = 0"
proof (induction s rule: trim_start.induct)
  case (1 s)
  then show ?case by (cases "s = [] \<or> ws_head s = 0") (auto simp: trim_start.simps [of s])
qed

lemma trim_start_fix: "s = [] \<or> ws_head s = 0 \<Longrightarrow> trim_start s = s"
  by (auto simp: trim_start.simps [of s])

lemma trim_end_idem [simp]: "trim_end (trim_end s) = trim_end s"
proof (induction s rule: trim_end.induct)
  case (1 s)
  then show ?case by (cases "s = [] \<or> ws_last s = 0") (auto simp: trim_end.simps [of s])
qed

lemma trim_str_idem [simp]: "trim_str (trim_str s) = trim_str s"
proof -
  have "ws_head (trim_end (trim_start s)) = 0 \<or> trim_end (trim_start s) = []"
    using ws_head_trim_start [of s] trim_end_prefix [of "trim_start s"]
    by (metis prefix_Nil ws_head_prefix)
  then have "trim_start (trim_end (trim_start s)) = trim_end (trim_start s)" by (intro trim_start_fix) (simp add: disj_commute)
  then show ?thesis by (simp add: trim_str_def)
qed

lemma trim_end_trim_str [simp]: "trim_end (trim_str s) = trim_str s"
  by (simp add: trim_str_def)

section \<open>What the rounds keep\<close>

lemma set_join_with: "set (join_with sep ls) \<subseteq> set sep \<union> \<Union> (set ` set ls)"
  by (induction sep ls rule: join_with.induct) auto

lemma set_split_on: "l \<in> set (split_on d m) \<Longrightarrow> set l \<subseteq> set m"
proof (induction m arbitrary: l)
  case (Cons c m)
  obtain w ws where "split_on d m = w # ws" using split_on_not_Nil [of d m] by (cases "split_on d m") auto
  with Cons show ?case by (fastforce split: if_splits)
qed simp

lemma length_join_with:
  "ls \<noteq> [] \<Longrightarrow> Suc (length (join_with [d] ls)) = (\<Sum>l\<leftarrow>ls. Suc (length l))"
proof (induction ls)
  case (Cons x ls)
  then show ?case by (cases ls) auto
qed simp

lemma length_join_kept: "length (join_with [d] (kept_lines ls fs)) \<le> length (join_with [d] ls)"
proof (cases "kept_lines ls fs = []")
  case False
  then have ne: "ls \<noteq> []" by auto
  have "(\<Sum>l\<leftarrow>kept_lines ls fs. Suc (length l)) \<le> (\<Sum>l\<leftarrow>ls. Suc (length l))"
  proof (induction ls arbitrary: fs)
    case (Cons l ls)
    then show ?case by (cases fs) (auto simp: add_mono le_SucI trans_le_add2)
  qed simp
  then show ?thesis using length_join_with [OF False, of d] length_join_with [OF ne, of d] by linarith
qed simp

lemma clean_rounds_trimmed: "trim_str m = m \<Longrightarrow> trim_str (clean_rounds ts m) = clean_rounds ts m"
  by (induction ts m rule: clean_rounds.induct) (auto simp: Let_def)

lemma length_clean_rounds: "length (clean_rounds ts m) \<le> length m"
proof (induction ts m rule: clean_rounds.induct)
  case (2 t ts m)
  let ?j = "join_with [newline] (kept_lines (split_on newline m) (origin_flags t (split_on newline m)))"
  have "length (trim_str ?j) \<le> length m"
    using length_trim_str [of ?j] length_join_kept [of newline "split_on newline m" "origin_flags t (split_on newline m)"]
    by (simp add: join_split_on)
  with 2 show ?case by (fastforce simp: Let_def intro: order_trans)
qed simp

lemma set_clean_rounds: "set (clean_rounds ts m) \<subseteq> insert newline (set m)"
proof (induction ts m rule: clean_rounds.induct)
  case (2 t ts m)
  let ?k = "kept_lines (split_on newline m) (origin_flags t (split_on newline m))"
  have "set (join_with [newline] ?k) \<subseteq> insert newline (\<Union> (set ` set (split_on newline m)))"
    using set_join_with [of "[newline]" ?k] by (fastforce dest: set_zip_leftD)
  moreover have "\<Union> (set ` set (split_on newline m)) \<subseteq> insert newline (set m)"
    using set_split_on by fastforce
  ultimately have "set (trim_str (join_with [newline] ?k)) \<subseteq> insert newline (set m)"
    using set_trim_str by blast
  then have k: "insert newline (set (trim_str (join_with [newline] ?k))) \<subseteq> insert newline (set m)" by blast
  show ?case
  proof (cases "True \<in> set (origin_flags t (split_on newline m))")
    case True
    with 2 [OF refl refl] k show ?thesis by (simp add: Let_def order_trans [OF _ k])
  qed (auto simp: Let_def)
qed auto

lemma without_origin_trailers_facts:
  "clean_text (without_origin_trailers m)" "trim_str (without_origin_trailers m) = without_origin_trailers m"
  "length (without_origin_trailers m) \<le> length m" "set (without_origin_trailers m) \<subseteq> insert newline (set m)"
proof -
  show "clean_text (without_origin_trailers m)"
    using clean_rounds_clean [of 0 "trim_str m"] by (simp add: without_origin_trailers_def del: upt_Suc)
  show "trim_str (without_origin_trailers m) = without_origin_trailers m"
    unfolding without_origin_trailers_def by (rule clean_rounds_trimmed [OF trim_str_idem])
  show "length (without_origin_trailers m) \<le> length m"
    unfolding without_origin_trailers_def by (rule order_trans [OF length_clean_rounds length_trim_str])
  show "set (without_origin_trailers m) \<subseteq> insert newline (set m)"
    unfolding without_origin_trailers_def
    by (rule order_trans [OF set_clean_rounds insert_mono [OF set_trim_str]])
qed

lemma without_origin_trailers_clean: "clean_text m \<Longrightarrow> trim_str m = m \<Longrightarrow> without_origin_trailers m = m"
proof -
  assume c: "clean_text m" "trim_str m = m"
  have "0 < trailer_rounds" by (simp add: trailer_rounds_def)
  with c flags_clean [of 0 m] have "True \<notin> set (origin_flags 0 (split_on newline m))" by blast
  moreover have "[0..<trailer_rounds + 1] = 0 # [1..<trailer_rounds + 1]" by (simp add: upt_conv_Cons del: upt_Suc)
  ultimately show ?thesis using c(2) by (simp add: without_origin_trailers_def del: upt_Suc)
qed

lemma cut_at_char_le: "cut_at_char s n \<le> n"
  by (induction s n rule: cut_at_char.induct) auto

lemma caller_message_facts:
  assumes "caller_message text = Some m"
  shows "clean_text m" "trim_str m = m" "m \<noteq> []" "length m \<le> max_message_bytes"
    "list_all (\<lambda>c. \<not> control_byte c \<or> c = newline) m"
proof -
  from assms obtain s where s: "text = Some s"
    by (auto simp: caller_message_def split: bind_splits)
  let ?j = "trim_str (join_with [newline] (map (\<lambda>line. trim_end (drop_controls line)) (text_lines s)))"
  let ?c = "if max_message_bytes < length ?j then take (cut_at_char ?j max_message_bytes) ?j else ?j"
  have m: "m = without_origin_trailers ?c" and ne: "m \<noteq> []"
    using assms by (auto simp: s caller_message_def Let_def split: if_splits)
  show "clean_text m" "trim_str m = m" unfolding m by (rule without_origin_trailers_facts)+
  show "m \<noteq> []" by (rule ne)
  have "length ?c \<le> max_message_bytes"
    using cut_at_char_le [of ?j max_message_bytes] by auto
  then show "length m \<le> max_message_bytes"
    unfolding m using without_origin_trailers_facts(3) order_trans by blast
  have "set ?j \<subseteq> insert newline {c. \<not> control_byte c}"
  proof -
    have "set ?j \<subseteq> insert newline (\<Union> (set ` set (map (\<lambda>line. trim_end (drop_controls line)) (text_lines s))))"
      using set_trim_str set_join_with [of "[newline]"] by fastforce
    moreover have "set (trim_end (drop_controls line)) \<subseteq> {c. \<not> control_byte c}" for line
      using set_drop_controls [of line] set_mono_prefix [OF trim_end_prefix [of "drop_controls line"]] by blast
    ultimately show ?thesis by fastforce
  qed
  then have "set ?c \<subseteq> insert newline {c. \<not> control_byte c}"
    using set_take_subset [of "cut_at_char ?j max_message_bytes" ?j] by (auto split: if_splits)
  then show "list_all (\<lambda>c. \<not> control_byte c \<or> c = newline) m"
    unfolding m list_all_iff using without_origin_trailers_facts(4) [of ?c] by blast
qed

end
