(* ===== verification/Caller_Safety.thy ===== *)
theory Caller_Safety
  imports Caller_Laws
begin

text \<open>
  What callers cannot make a commit say. \<open>git_trailers\<close> are the lines git reads as the trailers of a
  committed message. The first property is about every message a caller gives a save; the second
  about what the listing of unsaved work shows as restored.
\<close>

section \<open>Messages as git reads them\<close>

text \<open>The lines of a message each of whose lines ends in a newline.\<close>

definition message_lines :: "string \<Rightarrow> string list" where
  "message_lines message = butlast (split_on newline message)"

definition git_trailers :: "string list \<Rightarrow> bool \<Rightarrow> string list" where
  "git_trailers lines divider = (case trailer_block lines divider of (a, b) \<Rightarrow> map ((!) lines) [a..<b])"

lemma message_lines_full:
  "trim_str m = m \<Longrightarrow> message_lines (full_message m None counts) = split_on newline m"
proof -
  assume "trim_str m = m"
  then have "trim_end m = m" by (metis trim_end_trim_str)
  then show ?thesis
    by (simp add: full_message_def message_lines_def split_on_append_sep [of newline m "[]", simplified] butlast_append)
qed

lemma git_trailers_clean:
  assumes "clean_text m"
  shows "\<forall>l\<in>set (git_trailers (split_on newline m) divider). \<not> is_origin_trailer l \<and> \<not> is_origin_trailer (drop_controls l)"
    and "\<forall>l\<in>set (git_trailers (map drop_controls (split_on newline m)) divider). \<not> is_origin_trailer l"
proof -
  let ?lines = "split_on newline m" and ?shown = "map drop_controls (split_on newline m)"
  have range: "\<exists>i. in_block i v divider \<and> i < length v \<and> l = v ! i" if "l \<in> set (git_trailers v divider)" for l v
  proof -
    obtain a b where ab: "trailer_block v divider = (a, b)" by fastforce
    with that obtain i where "in_block i v divider" "l = v ! i"
      by (auto simp: git_trailers_def in_block_def)
    with in_block_range show ?thesis by blast
  qed
  have c: "\<not> is_origin_trailer (?shown ! i)" if "in_block i ?lines divider \<or> in_block i ?shown divider" for i
    using assms that unfolding clean_text_def Let_def by blast
  show "\<forall>l\<in>set (git_trailers ?lines divider). \<not> is_origin_trailer l \<and> \<not> is_origin_trailer (drop_controls l)"
    using range [of _ ?lines] c is_origin_trailer_shown by (metis nth_map)
  show "\<forall>l\<in>set (git_trailers ?shown divider). \<not> is_origin_trailer l"
    using range [of _ ?shown] c by metis
qed

section \<open>Restore messages\<close>

lemma copy_from_alphabet_Some:
  "copy_from_alphabet v alphabet = Some c \<longleftrightarrow> c = v \<and> set v \<subseteq> set alphabet"
proof (induction v arbitrary: c)
  case (Cons a v)
  have "find (\<lambda>x. x = a) alphabet = (if a \<in> set alphabet then Some a else None)"
    by (induction alphabet) auto
  with Cons show ?case by (auto simp: copy_from_alphabet_def split: bind_splits option.splits)
qed (auto simp: copy_from_alphabet_def)

lemma recovery_ref_parse_Inr:
  "recovery_ref_parse p name = Inr x \<Longrightarrow> rr_name x = name \<and> newline \<notin> set name \<and> name \<noteq> []"
proof -
  assume "recovery_ref_parse p name = Inr x"
  then have "rr_name x = name" "set name \<subseteq> set ref_name_bytes" "name \<noteq> []"
    by (auto simp: recovery_ref_parse_def copy_from_alphabet_Some strip_prefix_Some recovery_ref_root_def
        split: option.splits prod.splits if_splits)
  moreover have "newline \<notin> set ref_name_bytes" by (simp add: ref_name_bytes_def)
  ultimately show ?thesis by blast
qed

lemma ref_case_Some:
  "(case x of Inl _ \<Rightarrow> None | Inr _ \<Rightarrow> Some y) = Some r \<longleftrightarrow> y = r \<and> (\<exists>u. x = Inr u)"
  by (cases x) auto

lemma restored_from_Some:
  "restored_from p message = Some r \<longleftrightarrow>
     message = restore_commit_message r \<and> (\<exists>x. recovery_ref_parse p r = Inr x)"
  by (auto simp: restored_from_def restore_commit_message_def strip_prefix_Some strip_suffix_Some
      bind_eq_Some_conv ref_case_Some)

definition restore_line :: "string \<Rightarrow> string" where
  "restore_line r = restored_from_trailer @ '': '' @ r"

lemma restore_line_origin: "is_origin_trailer (restore_line r)"
proof -
  have "list_all key_char restored_from_trailer" "origin_key restored_from_trailer" by code_simp+
  then show ?thesis
    unfolding is_origin_trailer_iff restore_line_def
    by (intro exI [of _ "[]"] exI [of _ restored_from_trailer] exI [of _ "'' '' @ r"])
      (auto simp: restored_from_trailer_def)
qed

lemma restore_line_in_block: "in_block 2 [restore_commit_subject, [], restore_line r] False"
proof -
  let ?t = "restore_line r"
  have t: "\<not> is_comment ?t" "?t \<noteq> []" "?t \<noteq> ''Conflicts:''" "\<not> is_blank ?t"
      "\<not> starts_with ?t scissors_line" "\<not> list_ex (starts_with ?t) git_generated_trailers"
    by (simp_all add: restore_line_def restored_from_trailer_def is_comment_def starts_with_def is_blank_def
        git_space_def scissors_line_def git_generated_trailers_def)
  have key: "trailer_key ?t \<noteq> None"
    using restore_line_origin [of r]
    by (auto simp: is_origin_trailer_def restore_line_def restored_from_trailer_def trim_start_matches_def
        is_blank_char_def split: option.splits)
  have s: "\<not> is_comment restore_commit_subject" "restore_commit_subject \<noteq> []" "restore_commit_subject \<noteq> ''Conflicts:''"
      "\<not> starts_with restore_commit_subject scissors_line" "\<not> is_blank restore_commit_subject"
    by (simp_all add: restore_commit_subject_def is_comment_def starts_with_def scissors_line_def is_blank_def git_space_def)
  have e: "\<not> is_comment []" "is_blank []" "\<not> starts_with [] scissors_line"
    by (simp_all add: is_comment_def is_blank_def starts_with_def scissors_line_def)
  have "trailer_block [restore_commit_subject, [], ?t] False = (2, 3)"
    using t key s e
    by (simp add: trailer_block_def position_or_def enumerate_eq_zip Let_def eval_nat_numeral)
  then show ?thesis by (simp add: in_block_def)
qed

lemma full_message_tail:
  "trim_str m = m \<Longrightarrow> \<exists>tail. full_message m key counts = m @ newline # tail
     \<and> (tail = [] \<or> (\<exists>z. tail = newline # apply_key_trailer @ z))"
proof -
  assume "trim_str m = m"
  then have "trim_end m = m" by (metis trim_end_trim_str)
  then show ?thesis by (cases key) (auto simp: full_message_def)
qed

lemma caller_text_is_no_restore:
  assumes "clean_text m" "trim_str m = m"
  shows "full_message m key counts \<noteq> restore_commit_message r \<or> newline \<in> set r"
proof (rule ccontr)
  assume "\<not> ?thesis"
  then have eq: "full_message m key counts = restore_commit_message r" and r: "newline \<notin> set r" by auto
  obtain tail where tail: "full_message m key counts = m @ newline # tail"
      "tail = [] \<or> (\<exists>z. tail = newline # apply_key_trailer @ z)"
    using full_message_tail [OF assms(2)] by blast
  let ?S = restore_commit_subject and ?T = "restore_line r"
  have free: "newline \<notin> set ?S" "newline \<notin> set ?T"
    using r by (simp_all add: restore_commit_subject_def restore_line_def restored_from_trailer_def)
  have "restore_commit_message r = ?S @ newline # [] @ newline # ?T @ newline # []"
    by (simp add: restore_commit_message_def restore_line_def)
  then have "split_on newline (restore_commit_message r) = [?S, [], ?T, []]"
    using free by (simp only: split_on_append_sep split_on_no_sep [OF free(1)] split_on_no_sep [OF free(2)]) simp
  then have "split_on newline (m @ newline # tail) = [?S, [], ?T, []]" by (simp only: tail(1) [symmetric] eq)
  then have sp: "split_on newline m @ split_on newline tail = [?S, [], ?T, []]"
    by (simp only: split_on_append_sep)
  consider "split_on newline m = [?S]" "split_on newline tail = [[], ?T, []]"
    | "split_on newline m = [?S, []]" | "split_on newline m = [?S, [], ?T]"
    using sp split_on_not_Nil [of newline m] split_on_not_Nil [of newline tail]
    by (auto simp: append_eq_Cons_conv)
  then show False
  proof cases
    case 1
    then have "tail = join_with [newline] [[], ?T, []]" by (metis join_split_on)
    with tail(2) show False
      by (auto simp: restore_line_def restored_from_trailer_def apply_key_trailer_def)
  next
    case 2
    then have "m = join_with [newline] [?S, []]" by (metis join_split_on)
    then have "m = restore_commit_subject @ [newline]" by simp
    moreover have "trim_str (restore_commit_subject @ [newline]) \<noteq> restore_commit_subject @ [newline]" by code_simp
    ultimately show False using assms(2) by blast
  next
    case 3
    then have "\<not> is_origin_trailer (drop_controls ?T)"
      using assms(1) restore_line_in_block [of r] by (fastforce simp: clean_text_def Let_def)
    with is_origin_trailer_shown [OF restore_line_origin] show False by blast
  qed
qed

section \<open>What a listing shows as restored\<close>

text \<open>The commit, given with its id, restores the ref: it is the whole restore message of the ref,
  committed by one of the committers.\<close>

definition restores :: "(string \<Rightarrow> 'u option) \<Rightarrow> string list \<Rightarrow> string \<Rightarrow> string \<times> git_object \<Rightarrow> bool" where
  "restores parse_uuid committers reference c \<longleftrightarrow>
     go_kind (snd c) = ''commit''
     \<and> (case committer_of (go_data (snd c)) of None \<Rightarrow> False | Some committer \<Rightarrow> committer \<in> set committers)
     \<and> (case split_once_str header_end (from_utf8_lossy (go_data (snd c))) of
          None \<Rightarrow> False | Some (_, message) \<Rightarrow> message = restore_commit_message reference)
     \<and> \<not> isl (recovery_ref_parse parse_uuid reference)"

lemma restore_message_inj: "restore_commit_message a = restore_commit_message b \<longleftrightarrow> a = b"
  by (simp add: restore_commit_message_def)

lemma not_isl_iff: "\<not> isl x \<longleftrightarrow> (\<exists>u. x = Inr u)"
  by (cases x) auto

lemma list_ex_member: "list_ex (\<lambda>x. x = y) xs \<longleftrightarrow> y \<in> set xs"
  by (induction xs) auto

lemma restore_of_commit_read:
  assumes "committer_of (go_data obj) = Some committer"
    and "split_once_str header_end (from_utf8_lossy (go_data obj)) = Some (h, message)"
  shows "restore_of_commit p committers (i, obj) =
      (if go_kind obj = ''commit'' \<and> committer \<in> set committers
       then map_option (Pair i) (restored_from p message) else None)"
    and "restores p committers reference (i, obj) \<longleftrightarrow>
      go_kind obj = ''commit'' \<and> committer \<in> set committers \<and> restored_from p message = Some reference"
  unfolding restore_of_commit_def restores_def prod.case fst_conv snd_conv assms option.case Let_def
    list_ex_member restored_from_Some not_isl_iff
  by auto

lemma restore_of_commit_Some:
  "restore_of_commit p committers c = Some (ident, reference) \<longleftrightarrow> ident = fst c \<and> restores p committers reference c"
proof -
  obtain i obj where c: "c = (i, obj)" by (cases c)
  show ?thesis
  proof (cases "committer_of (go_data obj)")
    case None
    then show ?thesis by (simp add: c restore_of_commit_def restores_def)
  next
    case com: (Some committer)
    show ?thesis
    proof (cases "split_once_str header_end (from_utf8_lossy (go_data obj))")
      case None
      with com show ?thesis by (simp only: c restore_of_commit_def restores_def prod.case option.case Let_def snd_conv) simp
    next
      case (Some hm)
      obtain h message where "hm = (h, message)" by (cases hm)
      with Some have "split_once_str header_end (from_utf8_lossy (go_data obj)) = Some (h, message)" by simp
      note read = restore_of_commit_read [OF com this, where p = p and committers = committers and i = i]
      show ?thesis unfolding c read by auto
    qed
  qed
qed

lemma map_of_restored:
  "map_of (map (\<lambda>(ident, reference). (reference, ident)) (List.map_filter (restore_of_commit p committers) cs)) reference
     = map_option fst (find (restores p committers reference) cs)"
proof (induction cs)
  case (Cons c cs)
  show ?case
  proof (cases "restore_of_commit p committers c")
    case None
    then have "\<not> restores p committers reference c" using restore_of_commit_Some [of p committers c "fst c" reference] by simp
    with None Cons show ?thesis by (simp add: map_filter_simps)
  next
    case (Some x)
    obtain i r where x: "x = (i, r)" by (cases x)
    with Some have ir: "i = fst c" "restores p committers r c" using restore_of_commit_Some [of p committers c i r] by simp_all
    have "restores p committers reference c \<longleftrightarrow> reference = r"
      using Some x ir(1) restore_of_commit_Some [of p committers c "fst c" reference] by auto
    with Some Cons x ir show ?thesis by (simp add: map_filter_simps)
  qed
qed (simp add: map_filter_simps)

lemma find_prop: "find P xs = Some x \<Longrightarrow> P x \<and> x \<in> set xs"
  by (induction xs) (auto split: if_splits)

lemma caller_save_restores_nothing:
  assumes "restores p committers reference (ident, object)" "caller_message text = Some m"
  shows "split_once_str header_end (from_utf8_lossy (go_data object)) \<noteq> Some (headers, full_message m key counts)"
proof
  assume "split_once_str header_end (from_utf8_lossy (go_data object)) = Some (headers, full_message m key counts)"
  with assms(1) have "full_message m key counts = restore_commit_message reference"
    and "\<not> isl (recovery_ref_parse p reference)" by (simp_all add: restores_def)
  moreover from this(2) have "newline \<notin> set reference" using recovery_ref_parse_Inr by (auto simp: not_isl_iff)
  ultimately show False
    using caller_text_is_no_restore [of m key counts reference] caller_message_facts(1,2) [OF assms(2)] by blast
qed

section \<open>Properties\<close>


text \<open>
  C24. Against a \<open>main\<close>, the list of unsaved work is marked from the commits git names as candidates:
  an item shows the newest of them whose whole message is the restore message of exactly the item's
  ref, committed by one of the trusted committers, and nothing when there is none; the rolling save of
  a working folder is left as it is. No commit made with the message of a caller is such a commit.
\<close>

theorem restored_marks_exact:
  assumes "mark_restored parse_uuid g rev_list items (Some main) committers = Inr marked" "items \<noteq> []"
  shows "\<exists>tip ids objects.
      parse_rev main = Inr tip
      \<and> restore_candidates rev_list tip (Min (set (map ri_timestamp items))) = Some ids
      \<and> read_objects g ids = Some objects
      \<and> marked = map (\<lambda>item. if ri_rolling_save item then item
            else item\<lparr>ri_restored_rev :=
              map_option fst (find (restores parse_uuid committers (ri_reference item)) (zip ids objects))\<rparr>) items
      \<and> (\<forall>item text m key counts headers c.
           c \<in> set (zip ids objects) \<and> restores parse_uuid committers (ri_reference item) c \<and> caller_message text = Some m
           \<longrightarrow> split_once_str header_end (from_utf8_lossy (go_data (snd c))) \<noteq> Some (headers, full_message m key counts))"
proof -
  from assms obtain tip ids found where tip: "parse_rev main = Inr tip"
    and ids: "restore_candidates rev_list tip (Min (set (map ri_timestamp items))) = Some ids"
    and found: "restore_commits parse_uuid g ids committers = Some found"
    and marked: "marked = map (mark_item found) items"
    by (auto simp: mark_restored_def split: sum.splits option.splits)
  from found obtain objects where objects: "read_objects g ids = Some objects"
    and f: "found = List.map_filter (restore_of_commit parse_uuid committers) (zip ids objects)"
    by (auto simp: restore_commits_def)
  have "marked = map (\<lambda>item. if ri_rolling_save item then item
      else item\<lparr>ri_restored_rev :=
        map_option fst (find (restores parse_uuid committers (ri_reference item)) (zip ids objects))\<rparr>) items"
    by (simp add: marked mark_item_def f map_of_restored cong: if_cong)
  moreover have "split_once_str header_end (from_utf8_lossy (go_data (snd c))) \<noteq> Some (headers, full_message m key counts)"
    if "restores parse_uuid committers reference c" "caller_message given = Some m"
    for reference given m key counts headers c
    using caller_save_restores_nothing [of parse_uuid committers reference "fst c" "snd c", OF _ that(2)] that(1) by simp
  ultimately show ?thesis
    using tip ids objects by (intro exI [of _ tip] exI [of _ ids] exI [of _ objects] conjI) (assumption | blast)+
qed

end
