(* ===== verification/Caller_Example.thy ===== *)
theory Caller_Example
  imports Caller_Safety Restore_Example
begin

text \<open>
  The properties of Caller_Safety at work: a message that hides restore and import trailers behind a
  control character and in an earlier paragraph, and a list of two items, one of them restored, on a
  repository whose batch also holds a save with a caller's message.
\<close>

definition demo_ref :: "unit \<Rightarrow> string" where
  "demo_ref u = ''refs/instafy/recovery/00000000-0000-0000-0000-000000000001/unsaved-1''"

definition demo_text :: "unit \<Rightarrow> string" where
  "demo_text u =
     ''Restore unsaved work'' @ [newline, newline] @ ''Instafy-Restored-From: '' @ demo_ref u @ [newline, newline]
     @ [CHR 0x01] @ ''instafy-apply-key : imp'' @ [newline] @ ''Instafy-Resolved-By: me'' @ [newline]"

definition demo_message :: "unit \<Rightarrow> string" where
  "demo_message u =
     ''Restore unsaved work'' @ [newline, newline] @ ''Instafy-Restored-From: '' @ demo_ref u @ [newline, newline]
     @ ''Instafy-Resolved-By: me''"

lemma demo_text_saved: "caller_message (Some (demo_text ())) = Some (demo_message ())"
  by code_simp


text \<open>Two commits: a restore of the ref by the origin, and a save with the caller's message.\<close>

definition demo_commit :: "string \<Rightarrow> git_object" where
  "demo_commit message =
     \<lparr>go_kind = ''commit'',
      go_data = ''tree x'' @ [newline] @ ''committer Origin <origin@instafy.dev> 7 +0000'' @ [newline, newline] @ message\<rparr>"

definition demo_id :: "unit \<Rightarrow> char \<Rightarrow> string" where "demo_id u c = replicate 40 c"

definition demo_store :: "string \<Rightarrow> git_object option" where
  "demo_store i =
     (if i = demo_id () (CHR ''a'') then Some (demo_commit (full_message (demo_message ()) None None))
      else if i = demo_id () (CHR ''b'') then Some (demo_commit (restore_commit_message (demo_ref ())))
      else None)"

definition demo_git :: "unit \<Rightarrow> slots git_tool" where
  "demo_git u = (table_git the_repository)\<lparr>gt_batch := \<lambda>ids. Some (concat (map (batch_item demo_store) ids))\<rparr>"

definition demo_log :: "string \<Rightarrow> nat \<Rightarrow> int \<Rightarrow> string \<Rightarrow> string option" where
  "demo_log text count age tip =
     Some (demo_id () (CHR ''a'') @ [newline] @ demo_id () (CHR ''b'') @ [newline])"

definition demo_item :: "string \<Rightarrow> string recovery_item" where
  "demo_item reference =
     \<lparr>ri_reference = reference, ri_rev = demo_id () (CHR ''c''), ri_commit = demo_id () (CHR ''c''),
      ri_kind = Unsaved_Item, ri_subject = ''Unsaved'', ri_date = None, ri_origin = ''o'', ri_paths = [],
      ri_base = None, ri_restored_rev = None, ri_rolling_save = False, ri_timestamp = 7\<rparr>"

definition demo_items :: "unit \<Rightarrow> string recovery_item list" where
  "demo_items u = [demo_item (demo_ref u), demo_item (demo_ref u @ ''2'')]"

definition marked_items :: "unit \<Rightarrow> string recovery_item list" where
  "marked_items u =
     [(demo_item (demo_ref u))\<lparr>ri_restored_rev := Some (demo_id u (CHR ''b''))\<rparr>, demo_item (demo_ref u @ ''2'')]"

abbreviation demo_committers :: "string list" where
  "demo_committers \<equiv> restore_committers ''own@example''"

lemma demo_candidates:
  "restore_candidates demo_log tip made_at = Some [demo_id () (CHR ''a''), demo_id () (CHR ''b'')]"
proof -
  have "filter full_object_id (map trim_str (text_lines (demo_id () (CHR ''a'') @ [newline] @ demo_id () (CHR ''b'') @ [newline])))
      = [demo_id () (CHR ''a''), demo_id () (CHR ''b'')]" by code_simp
  then show ?thesis by (simp add: restore_candidates_def demo_log_def)
qed

lemma demo_objects:
  "read_objects (demo_git ()) [demo_id () (CHR ''a''), demo_id () (CHR ''b'')]
     = Some [demo_commit (full_message (demo_message ()) None None), demo_commit (restore_commit_message (demo_ref ()))]"
proof -
  have ok: "list_all field_ok [demo_id () (CHR ''a''), demo_id () (CHR ''b'')]" by code_simp
  have "length (go_data (demo_commit (full_message (demo_message ()) None None))) < 1000"
    "length (go_data (demo_commit (restore_commit_message (demo_ref ())))) < 1000" by code_simp+
  moreover have "field_ok ''commit''" by code_simp
  ultimately have "object_ok obj" if "demo_store i = Some obj" for i obj
    using that by (auto simp: demo_store_def object_ok_def demo_commit_def split: if_splits)
  from read_batch_items [OF ok this] have
    "read_batch [demo_id () (CHR ''a''), demo_id () (CHR ''b'')]
       (concat (map (batch_item demo_store) [demo_id () (CHR ''a''), demo_id () (CHR ''b'')]))
     = collect_options (map demo_store [demo_id () (CHR ''a''), demo_id () (CHR ''b'')])" by simp
  moreover have "demo_id () (CHR ''a'') \<noteq> demo_id () (CHR ''b'')" by code_simp
  ultimately show ?thesis
    by (simp add: read_objects_def demo_git_def demo_store_def)
qed

lemma restore_of_commit_id:
  "restore_of_commit p committers (i, obj) = map_option (\<lambda>(_, reference). (i, reference)) (restore_of_commit p committers (j, obj))"
proof (cases "restore_of_commit p committers (j, obj)")
  case None
  have "\<not> restores p committers reference (i, obj)" for reference
    using None restore_of_commit_Some [of p committers "(j, obj)" j reference] by (simp add: restores_def)
  then have "restore_of_commit p committers (i, obj) \<noteq> Some x" for x
    using restore_of_commit_Some [of p committers "(i, obj)" "fst x" "snd x"] by simp
  then have "restore_of_commit p committers (i, obj) = None" by (metis not_None_eq)
  with None show ?thesis by simp
next
  case (Some x)
  obtain k reference where x: "x = (k, reference)" by (cases x)
  with Some have "restores p committers reference (i, obj)"
    using restore_of_commit_Some [of p committers "(j, obj)" k reference] by (simp add: restores_def)
  then show ?thesis
    using Some x restore_of_commit_Some [of p committers "(i, obj)" i reference] by simp
qed

lemma demo_restores:
  "restore_of_commit (\<lambda>u. Some u) demo_committers (i, demo_commit (restore_commit_message (demo_ref ()))) = Some (i, demo_ref ())"
  "restore_of_commit (\<lambda>u. Some u) demo_committers (i, demo_commit (full_message (demo_message ()) None None)) = None"
proof -
  have r: "restore_of_commit (\<lambda>u. Some u) demo_committers ([], demo_commit (restore_commit_message (demo_ref ()))) = Some ([], demo_ref ())"
    by code_simp
  show "restore_of_commit (\<lambda>u. Some u) demo_committers (i, demo_commit (restore_commit_message (demo_ref ()))) = Some (i, demo_ref ())"
    by (rule trans [OF restore_of_commit_id [where j = "[]"]]) (simp only: r option.map prod.case)
  have n: "restore_of_commit (\<lambda>u. Some u) demo_committers ([], demo_commit (full_message (demo_message ()) None None)) = None"
    by code_simp
  show "restore_of_commit (\<lambda>u. Some u) demo_committers (i, demo_commit (full_message (demo_message ()) None None)) = None"
    by (rule trans [OF restore_of_commit_id [where j = "[]"]]) (simp only: n option.map)
qed

lemma demo_marks:
  "mark_restored (\<lambda>u. Some u) (demo_git ()) demo_log (demo_items ()) (Some (demo_id () (CHR ''d'')))
     (restore_committers ''own@example'') = Inr (marked_items ())"
proof -
  have "parse_rev (demo_id () (CHR ''d'')) = Inr (demo_id () (CHR ''d''))" by code_simp
  moreover have "restore_commits (\<lambda>u. Some u) (demo_git ()) [demo_id () (CHR ''a''), demo_id () (CHR ''b'')] demo_committers
      = Some [(demo_id () (CHR ''b''), demo_ref ())]"
    by (simp add: restore_commits_def demo_objects demo_restores map_filter_simps)
  ultimately show ?thesis
    by (simp add: mark_restored_def demo_items_def demo_candidates marked_items_def mark_item_def demo_item_def)
qed

lemma demo_items_ne: "demo_items () \<noteq> []"
  by (simp add: demo_items_def)

theorem restored_marks_exact_witness:
  "\<exists>objects ids. read_objects (demo_git ()) ids = Some objects
     \<and> map_option fst (find (restores (\<lambda>u. Some u) (restore_committers ''own@example'') (demo_ref ())) (zip ids objects))
       = Some (demo_id () (CHR ''b''))"
proof -
  from restored_marks_exact [OF demo_marks demo_items_ne] obtain ids objects
    where o: "read_objects (demo_git ()) ids = Some objects"
      and m: "marked_items () = map (\<lambda>item. if ri_rolling_save item then item
            else item\<lparr>ri_restored_rev := map_option fst
              (find (restores (\<lambda>u. Some u) (restore_committers ''own@example'') (ri_reference item)) (zip ids objects))\<rparr>)
            (demo_items ())"
    by blast
  from m have "map_option fst (find (restores (\<lambda>u. Some u) (restore_committers ''own@example'') (demo_ref ())) (zip ids objects))
       = Some (demo_id () (CHR ''b''))"
    by (simp add: marked_items_def demo_items_def demo_item_def)
  with o show ?thesis by blast
qed

end
