(* ===== verification/Collab_Hub.thy ===== *)
theory Collab_Hub
  imports Push_Class Goal_Policy
begin

text \<open>
  The collaboration hub of a shared browser (\<open>origin-http-server/src/browser_collaboration.rs\<close>): who
  takes part, who controls the browser, who waits for it, and how many sockets show its pixels or
  send it input. The hub keeps its state in memory under a lock; one operation under the lock is one
  function. What an operation reads from outside (the clocks, the agent's control marker) is in a
  \<open>reading\<close>. Parameters: \<open>uuid_v5\<close> names a participant, \<open>as_f64\<close> reads a JSON number, \<open>is_uuid\<close>
  parses an identifier. \<open>HashMap\<close>s are association lists; a bounded channel is its queue.
\<close>

section \<open>Limits\<close>

definition client_message_max_bytes :: nat where "client_message_max_bytes = 2 * 1024"
definition session_id_max_bytes :: nat where "session_id_max_bytes = 128"
definition page_id_max_bytes :: nat where "page_id_max_bytes = 256"
definition participant_id_max_bytes :: nat where "participant_id_max_bytes = 64"
definition display_name_max_bytes :: nat where "display_name_max_bytes = 80"
definition max_participants :: nat where "max_participants = 32"
definition max_pixel_streams_per_participant :: nat where "max_pixel_streams_per_participant = 2"
definition max_pixel_streams_total :: nat where
  "max_pixel_streams_total = max_participants * max_pixel_streams_per_participant"
definition max_input_streams_per_participant :: nat where "max_input_streams_per_participant = 2"
definition max_input_streams_total :: nat where
  "max_input_streams_total = max_participants * max_input_streams_per_participant"
definition outbound_queue_capacity :: nat where "outbound_queue_capacity = 16"
definition participant_grace :: nat where "participant_grace = secs 10"
definition collaboration_frames_per_second :: nat where "collaboration_frames_per_second = 120"
definition control_actions_per_window :: nat where "control_actions_per_window = 12"
definition control_action_window :: nat where "control_action_window = secs 10"
definition agent_control_refresh_min_interval :: nat where
  "agent_control_refresh_min_interval = millis 100"

definition participant_colors :: "string list" where
  "participant_colors =
     [''#2563eb'', ''#7c3aed'', ''#db2777'', ''#dc2626'', ''#ea580c'', ''#059669'', ''#0891b2'', ''#4f46e5'']"

section \<open>Messages\<close>

datatype 'n client_message =
    Join_Msg string "string option"
  | Heartbeat_Msg "string option"
  | Cursor_Msg string 'n 'n
  | Request_Control
  | Take_Control
  | Release_Control
  | Grant_Control string
  | Leave_Msg

fun affects_control :: "'n client_message \<Rightarrow> bool" where
  "affects_control Request_Control = True"
| "affects_control Take_Control = True"
| "affects_control Release_Control = True"
| "affects_control (Grant_Control _) = True"
| "affects_control _ = False"

datatype hub_error = Hub_Bad_Request string | Hub_Unauthorized string | Hub_Conflict string | Hub_Unavailable string

definition parse_client_message ::
  "(string \<Rightarrow> 'n client_message option) \<Rightarrow> string \<Rightarrow> hub_error + 'n client_message" where
  "parse_client_message from_str v =
     (if client_message_max_bytes < length v
      then Inl (Hub_Bad_Request ''browser collaboration message is too large'')
      else case from_str v of
             None \<Rightarrow> Inl (Hub_Bad_Request ''invalid browser collaboration message'')
           | Some message \<Rightarrow> Inr message)"

text \<open>A sliding window of accepted instants.\<close>

record rate_limit =
  rl_accepted :: "instant list"
  rl_limit :: nat
  rl_window :: nat

definition new_rate_limit :: "nat \<Rightarrow> nat \<Rightarrow> rate_limit" where
  "new_rate_limit limit window = \<lparr>rl_accepted = [], rl_limit = limit, rl_window = window\<rparr>"

definition take_at :: "instant \<Rightarrow> rate_limit \<Rightarrow> bool \<times> rate_limit" where
  "take_at now r =
     (let accepted = dropWhile (\<lambda>t. rl_window r \<le> duration_since now t) (rl_accepted r)
      in if rl_limit r \<le> length accepted then (False, r\<lparr>rl_accepted := accepted\<rparr>)
         else (True, r\<lparr>rl_accepted := accepted @ [now]\<rparr>))"

record cursor_snapshot =
  cs_x :: rat
  cs_y :: rat

record participant_snapshot =
  ps_id :: string
  ps_display_name :: string
  ps_color :: string
  ps_page_id :: "string option"
  ps_cursor :: "cursor_snapshot option"
  ps_can_control :: bool

datatype control_owner_snapshot = Human_Snapshot string | Agent_Snapshot string

datatype server_message =
    Welcome_Msg string
  | State_Msg nat "participant_snapshot list" "control_owner_snapshot option" "string list"

section \<open>The state of the hub\<close>

datatype control_owner =
    Human string
  | Agent string string string nat \<comment> \<open>owner, run, display name, expiry\<close>

fun owner_snapshot :: "control_owner \<Rightarrow> control_owner_snapshot" where
  "owner_snapshot (Human p) = Human_Snapshot p"
| "owner_snapshot (Agent _ _ display_name _) = Agent_Snapshot display_name"

text \<open>The sending half of a bounded channel: what is queued, and whether the receiver is still there.\<close>

record outbound =
  ob_queue :: "server_message list"
  ob_open :: bool

record participant =
  pt_id :: string
  pt_subject :: string
  pt_session_id :: string
  pt_display_name :: string
  pt_color :: string
  pt_page_id :: "string option"
  pt_cursor :: "cursor_snapshot option"
  pt_can_control :: bool
  pt_expires_at :: int
  pt_last_seen :: instant
  pt_connection_id :: "uuid option"
  pt_sender :: "outbound option"
  pt_rate_limit :: rate_limit

definition participant_snapshot_of :: "participant \<Rightarrow> participant_snapshot" where
  "participant_snapshot_of p =
     \<lparr>ps_id = pt_id p, ps_display_name = pt_display_name p, ps_color = pt_color p,
      ps_page_id = pt_page_id p, ps_cursor = pt_cursor p, ps_can_control = pt_can_control p\<rparr>"

record hub_state =
  hs_revision :: nat
  hs_participants :: "(string, participant) hash_map"
  hs_control_owner :: "control_owner option"
  hs_suspended :: "string option" \<comment> \<open>\<open>suspended_human_owner\<close>\<close>
  hs_requests :: "string list"
  hs_cursor_dirty :: bool
  hs_cursor_scheduled :: bool

definition empty_hub_state :: hub_state where
  "empty_hub_state =
     \<lparr>hs_revision = 0, hs_participants = [], hs_control_owner = None, hs_suspended = None,
      hs_requests = [], hs_cursor_dirty = False, hs_cursor_scheduled = False\<rparr>"

fun is_agent :: "control_owner option \<Rightarrow> bool" where
  "is_agent (Some (Agent _ _ _ _)) = True"
| "is_agent _ = False"

definition is_human_owner :: "hub_state \<Rightarrow> string \<Rightarrow> bool" where
  "is_human_owner s p \<longleftrightarrow> hs_control_owner s = Some (Human p)"

definition hub_participant :: "hub_state \<Rightarrow> string \<Rightarrow> participant option" where
  "hub_participant s p = map_of (hs_participants s) p"

definition may_control :: "hub_state \<Rightarrow> string \<Rightarrow> bool" where
  "may_control s p = (case hub_participant s p of None \<Rightarrow> False | Some pt \<Rightarrow> pt_can_control pt)"

definition update_participant :: "string \<Rightarrow> (participant \<Rightarrow> participant) \<Rightarrow> hub_state \<Rightarrow> hub_state" where
  "update_participant p f s =
     s\<lparr>hs_participants := map (\<lambda>(k, pt). (k, if k = p then f pt else pt)) (hs_participants s)\<rparr>"

definition server_state :: "hub_state \<Rightarrow> server_message" where
  "server_state s =
     State_Msg (hs_revision s)
       (sort_key ps_id (map (\<lambda>(_, p). participant_snapshot_of p) (hs_participants s)))
       (map_option owner_snapshot (hs_control_owner s)) (hs_requests s)"

text \<open>\<open>try_send\<close>: a sender whose channel is full or closed is dropped, and its connection with it.\<close>

definition deliver_to :: "server_message \<Rightarrow> participant \<Rightarrow> participant" where
  "deliver_to payload p =
     (case pt_sender p of
        None \<Rightarrow> p
      | Some sender \<Rightarrow>
          if ob_open sender \<and> length (ob_queue sender) < outbound_queue_capacity
          then p\<lparr>pt_sender := Some (sender\<lparr>ob_queue := ob_queue sender @ [payload]\<rparr>)\<rparr>
          else p\<lparr>pt_sender := None, pt_connection_id := None\<rparr>)"

definition hub_publish :: "hub_state \<Rightarrow> hub_state" where
  "hub_publish s =
     (let s = s\<lparr>hs_cursor_dirty := False, hs_revision := min (hs_revision s + 1) (2 ^ 64 - 1)\<rparr>;
          payload = server_state s
      in s\<lparr>hs_participants := map (\<lambda>(k, p). (k, deliver_to payload p)) (hs_participants s)\<rparr>)"

fun promote_requests :: "hub_state \<Rightarrow> string list \<Rightarrow> hub_state" where
  "promote_requests s [] = s\<lparr>hs_requests := []\<rparr>"
| "promote_requests s (p # ps) =
     (if may_control s p then s\<lparr>hs_requests := ps, hs_control_owner := Some (Human p)\<rparr>
      else promote_requests s ps)"

definition promote_next_request :: "hub_state \<Rightarrow> hub_state" where
  "promote_next_request s = (if is_agent (hs_control_owner s) then s else promote_requests s (hs_requests s))"

definition drop_request :: "string \<Rightarrow> hub_state \<Rightarrow> hub_state" where
  "drop_request p s = s\<lparr>hs_requests := filter (\<lambda>r. r \<noteq> p) (hs_requests s)\<rparr>"

definition remove_participant :: "string \<Rightarrow> hub_state \<Rightarrow> bool \<times> hub_state" where
  "remove_participant p s =
     (if hub_participant s p = None then (False, s)
      else let s = drop_request p (s\<lparr>hs_participants := AList.delete p (hs_participants s)\<rparr>);
               s = (if hs_suspended s = Some p then s\<lparr>hs_suspended := None\<rparr> else s)
           in (True, if is_human_owner s p then promote_next_request (s\<lparr>hs_control_owner := None\<rparr>) else s))"

section \<open>The agent's marker\<close>

record agent_marker =
  am_owner_id :: string
  am_run_id :: string
  am_display_name :: string
  am_expires_at_ms :: nat

datatype marker_observation = Marker_Active agent_marker | Marker_Inactive | Marker_Unavailable string

definition agent_of :: "agent_marker \<Rightarrow> control_owner" where
  "agent_of m = Agent (am_owner_id m) (am_run_id m) (am_display_name m) (am_expires_at_ms m)"

definition marker_unavailable_agent :: control_owner where
  "marker_unavailable_agent = Agent ''marker-unavailable'' ''marker-unavailable'' ''Assistant'' (2 ^ 64 - 1)"

definition sync_agent_control :: "marker_observation \<Rightarrow> hub_state \<Rightarrow> bool \<times> hub_state" where
  "sync_agent_control observation s =
     (case observation of
        Marker_Active marker \<Rightarrow>
          (case hs_control_owner s of
             Some (Agent _ _ display_name _) \<Rightarrow>
               (display_name \<noteq> am_display_name marker, s\<lparr>hs_control_owner := Some (agent_of marker)\<rparr>)
           | Some (Human p) \<Rightarrow> (True, s\<lparr>hs_suspended := Some p, hs_control_owner := Some (agent_of marker)\<rparr>)
           | None \<Rightarrow> (True, s\<lparr>hs_control_owner := Some (agent_of marker)\<rparr>))
      | Marker_Inactive \<Rightarrow>
          if \<not> is_agent (hs_control_owner s) then (False, s)
          else let back = (case hs_suspended s of None \<Rightarrow> None | Some p \<Rightarrow> if may_control s p then Some (Human p) else None);
                   s = s\<lparr>hs_suspended := None, hs_control_owner := back\<rparr>
               in (True, if back = None then promote_next_request s else s)
      | Marker_Unavailable _ \<Rightarrow>
          if is_agent (hs_control_owner s) then (False, s)
          else let s = (case hs_control_owner s of Some (Human p) \<Rightarrow> s\<lparr>hs_suspended := Some p\<rparr> | _ \<Rightarrow> s)
               in (True, s\<lparr>hs_control_owner := Some marker_unavailable_agent\<rparr>))"

text \<open>The clocks an operation reads, and what the marker file says if it is read.\<close>

record reading =
  rd_checked :: instant \<comment> \<open>when the marker was looked at\<close>
  rd_now :: instant
  rd_unix :: nat \<comment> \<open>nanoseconds since the epoch\<close>
  rd_marker :: marker_observation

definition unix_time_seconds :: "reading \<Rightarrow> int" where
  "unix_time_seconds rd = int (rd_unix rd div 10 ^ 9)"

definition stale :: "reading \<Rightarrow> participant \<Rightarrow> bool" where
  "stale rd p \<longleftrightarrow> pt_expires_at p \<le> unix_time_seconds rd
     \<or> participant_grace \<le> duration_since (rd_now rd) (pt_last_seen p)"

fun remove_all :: "string list \<Rightarrow> hub_state \<Rightarrow> bool \<times> hub_state" where
  "remove_all [] s = (False, s)"
| "remove_all (p # ps) s =
     (case remove_participant p s of
        (changed, s) \<Rightarrow> (case remove_all ps s of (changed', s) \<Rightarrow> (changed \<or> changed', s)))"

definition expire_stale :: "reading \<Rightarrow> hub_state \<Rightarrow> bool \<times> hub_state" where
  "expire_stale rd s = remove_all (map (\<lambda>(_, p). pt_id p) (filter (\<lambda>(_, p). stale rd p) (hs_participants s))) s"

text \<open>The state, published if something changed.\<close>

definition publish_if :: "bool \<times> hub_state \<Rightarrow> hub_state" where
  "publish_if cs = (case cs of (changed, s) \<Rightarrow> if changed then hub_publish s else s)"

section \<open>The hub\<close>

record admissions =
  ad_total :: nat
  ad_by_participant :: "(string, nat) hash_map"

record hub =
  hb_state :: hub_state
  hb_last_checked :: "instant option"
  hb_pixels :: admissions
  hb_inputs :: admissions

definition new_hub :: hub where
  "new_hub =
     \<lparr>hb_state = empty_hub_state, hb_last_checked = None,
      hb_pixels = \<lparr>ad_total = 0, ad_by_participant = []\<rparr>, hb_inputs = \<lparr>ad_total = 0, ad_by_participant = []\<rparr>\<rparr>"

definition refresh_agent_control :: "bool \<Rightarrow> reading \<Rightarrow> hub \<Rightarrow> hub" where
  "refresh_agent_control force rd h =
     (if \<not> force \<and> (case hb_last_checked h of
                       None \<Rightarrow> False
                     | Some last_checked \<Rightarrow>
                         duration_since (rd_checked rd) last_checked < agent_control_refresh_min_interval)
      then h
      else h\<lparr>hb_last_checked := Some (rd_checked rd),
             hb_state := publish_if (sync_agent_control (rd_marker rd) (hb_state h))\<rparr>)"

section \<open>Claims and names\<close>

record origin_claims =
  oc_sub :: string
  oc_project_id :: string
  oc_scopes :: "string list"
  oc_exp :: "int option"
  oc_actor_label :: "string option"
  oc_browser_session_id :: "string option"

definition validated_claim_expiry :: "reading \<Rightarrow> origin_claims \<Rightarrow> hub_error + int" where
  "validated_claim_expiry rd claims =
     (case oc_exp claims of
        None \<Rightarrow> Inl (Hub_Unauthorized ''origin token is missing its expiry'')
      | Some expires \<Rightarrow>
          if expires < 0 then Inl (Hub_Unauthorized ''origin token expiry is invalid'')
          else if expires * 10 ^ 9 \<le> int (rd_unix rd) then Inl (Hub_Unauthorized ''origin token has expired'')
          else Inr expires)"

definition claims_have_scope :: "string \<Rightarrow> origin_claims \<Rightarrow> bool" where
  "claims_have_scope scope claims = list_ex (\<lambda>s. s = scope) (oc_scopes claims)"

definition validate_session_id :: "string \<Rightarrow> hub_error + string" where
  "validate_session_id v =
     (let v = trim_str v
      in if v = [] \<or> session_id_max_bytes < length v
            \<or> \<not> list_all (\<lambda>c. is_ascii_alphanumeric c \<or> c \<in> {CHR ''-'', CHR ''_'', CHR ''.'', CHR '':''}) v
         then Inl (Hub_Bad_Request ''browser collaboration session id is invalid'')
         else Inr v)"

definition validated_claim_session_id :: "origin_claims \<Rightarrow> hub_error + string" where
  "validated_claim_session_id claims =
     (case map_option trim_str (oc_browser_session_id claims) of
        None \<Rightarrow> Inl (Hub_Unauthorized ''browser collaboration token is missing its session'')
      | Some v \<Rightarrow>
          if v = [] then Inl (Hub_Unauthorized ''browser collaboration token is missing its session'')
          else validate_session_id v)"

definition participant_material :: "string \<Rightarrow> string \<Rightarrow> string \<Rightarrow> string" where
  "participant_material project subject session =
     ''instafy:shared-browser:'' @ project @ '':'' @ subject @ '':'' @ session"

definition participant_id_for_claims :: "(string \<Rightarrow> string) \<Rightarrow> origin_claims \<Rightarrow> string \<Rightarrow> hub_error + string" where
  "participant_id_for_claims uuid_v5 claims session =
     (let subject = trim_str (oc_sub claims); project = trim_str (oc_project_id claims)
      in if subject = [] \<or> 512 < length subject
         then Inl (Hub_Unauthorized ''browser collaboration token subject is invalid'')
         else if project = [] \<or> 64 < length project
         then Inl (Hub_Unauthorized ''browser collaboration token project is invalid'')
         else Inr (uuid_v5 (participant_material project subject session)))"

definition validate_page_id :: "string \<Rightarrow> hub_error + string" where
  "validate_page_id v =
     (let v = trim_str v
      in if v = [] \<or> page_id_max_bytes < length v
            \<or> \<not> list_all (\<lambda>c. is_ascii_alphanumeric c \<or> c \<in> {CHR ''-'', CHR ''_''}) v
         then Inl (Hub_Bad_Request ''browser collaboration page id is invalid'')
         else Inr v)"

definition validate_optional_page_id :: "string option \<Rightarrow> hub_error + string option" where
  "validate_optional_page_id v =
     (case v of None \<Rightarrow> Inr None
      | Some v \<Rightarrow> (case validate_page_id v of Inl e \<Rightarrow> Inl e | Inr p \<Rightarrow> Inr (Some p)))"

definition validate_participant_id :: "(string \<Rightarrow> bool) \<Rightarrow> string \<Rightarrow> hub_error + string" where
  "validate_participant_id is_uuid v =
     (let v = trim_str v
      in if v = [] \<or> participant_id_max_bytes < length v \<or> \<not> is_uuid v
         then Inl (Hub_Bad_Request ''browser collaboration participant id is invalid'')
         else Inr v)"

definition validate_cursor :: "rat \<Rightarrow> rat \<Rightarrow> hub_error + cursor_snapshot" where
  "validate_cursor x y =
     (if \<not> (0 \<le> x \<and> x \<le> 1) \<or> \<not> (0 \<le> y \<and> y \<le> 1)
      then Inl (Hub_Bad_Request ''browser collaboration cursor must use normalized coordinates'')
      else Inr \<lparr>cs_x = x, cs_y = y\<rparr>)"

definition validate_cursor_numbers :: "('n \<Rightarrow> rat option) \<Rightarrow> 'n \<Rightarrow> 'n \<Rightarrow> hub_error + cursor_snapshot" where
  "validate_cursor_numbers as_f64 x y =
     (case as_f64 x of
        None \<Rightarrow> Inl (Hub_Bad_Request ''browser collaboration cursor must use finite coordinates'')
      | Some x \<Rightarrow>
          (case as_f64 y of
             None \<Rightarrow> Inl (Hub_Bad_Request ''browser collaboration cursor must use finite coordinates'')
           | Some y \<Rightarrow> validate_cursor x y))"

definition truncate_utf8 :: "string \<Rightarrow> nat \<Rightarrow> string" where
  "truncate_utf8 v max_bytes = (if length v \<le> max_bytes then v else take (cut_at_char v max_bytes) v)"

definition normalized_display_name :: "string option \<Rightarrow> string" where
  "normalized_display_name raw =
     (let normalized = truncate_utf8 (compact_text (case raw of None \<Rightarrow> [] | Some r \<Rightarrow> r)) display_name_max_bytes
      in if normalized = [] then ''Teammate'' else normalized)"

definition participant_color :: "string \<Rightarrow> string" where
  "participant_color p =
     (let hash = fold (\<lambda>c hash. xor hash (word_of_nat (ord_of c)) * 0x01000193) p (0x811c9dc5 :: 32 word)
      in participant_colors ! (unat hash mod length participant_colors))"

section \<open>Admission of streams\<close>

text \<open>The two kinds of streams differ in their scope, their bounds and their messages.\<close>

definition admit_stream ::
  "string \<Rightarrow> string \<Rightarrow> string \<Rightarrow> string \<Rightarrow> nat \<Rightarrow> nat \<Rightarrow> (string \<Rightarrow> string) \<Rightarrow> reading \<Rightarrow> origin_claims \<Rightarrow> admissions \<Rightarrow> (hub_error + string) \<times> admissions" where
  "admit_stream scope required full full_each max_total max_each uuid_v5 rd claims a =
     (case validated_claim_expiry rd claims of
        Inl e \<Rightarrow> (Inl e, a)
      | Inr _ \<Rightarrow>
          if \<not> claims_have_scope scope claims then (Inl (Hub_Unauthorized required), a)
          else case validated_claim_session_id claims of
                 Inl e \<Rightarrow> (Inl e, a)
               | Inr session \<Rightarrow>
                   (case participant_id_for_claims uuid_v5 claims session of
                      Inl e \<Rightarrow> (Inl e, a)
                    | Inr p \<Rightarrow>
                        if max_total \<le> ad_total a
                        then (Inl (Hub_Unavailable full), a)
                        else let count = (case map_of (ad_by_participant a) p of None \<Rightarrow> 0 | Some n \<Rightarrow> n)
                             in if max_each \<le> count
                                then (Inl (Hub_Unavailable full_each), a)
                                else (Inr p,
                                  \<lparr>ad_total = ad_total a + 1,
                                   ad_by_participant = AList.update p (count + 1) (ad_by_participant a)\<rparr>)))"

definition admit_pixel_stream :: "(string \<Rightarrow> string) \<Rightarrow> reading \<Rightarrow> origin_claims \<Rightarrow> hub \<Rightarrow> (hub_error + string) \<times> hub" where
  "admit_pixel_stream uuid_v5 rd claims h =
     (case admit_stream ''browser.view'' ''browser.view is required for Shared Browser pixels''
             ''Shared Browser pixel stream capacity is full'' ''Shared Browser participant pixel stream capacity is full''
             max_pixel_streams_total max_pixel_streams_per_participant uuid_v5 rd claims (hb_pixels h) of
        (r, a) \<Rightarrow> (r, h\<lparr>hb_pixels := a\<rparr>))"

definition admit_input_stream :: "(string \<Rightarrow> string) \<Rightarrow> reading \<Rightarrow> origin_claims \<Rightarrow> hub \<Rightarrow> (hub_error + string) \<times> hub" where
  "admit_input_stream uuid_v5 rd claims h =
     (case admit_stream ''browser.control'' ''browser.control is required for Shared Browser input''
             ''Shared Browser input stream capacity is full'' ''Shared Browser participant input stream capacity is full''
             max_input_streams_total max_input_streams_per_participant uuid_v5 rd claims (hb_inputs h) of
        (r, a) \<Rightarrow> (r, h\<lparr>hb_inputs := a\<rparr>))"

text \<open>Dropping an admission.\<close>

definition drop_admission :: "string \<Rightarrow> admissions \<Rightarrow> admissions" where
  "drop_admission p a =
     (case map_of (ad_by_participant a) p of
        None \<Rightarrow> a
      | Some count \<Rightarrow>
          \<lparr>ad_total = ad_total a - 1,
           ad_by_participant = (if 1 < count then AList.update p (count - 1) (ad_by_participant a)
                                else AList.delete p (ad_by_participant a))\<rparr>)"

end
