(* ===== verification/Collab_Steps.thy ===== *)
theory Collab_Steps
  imports Collab_Hub
begin

text \<open>
  The operations of the hub on behalf of a participant: joining, messages, the checks of input
  sockets and of polling, and the socket that carries them. \<open>hub_step\<close> is any of them; its reachable
  states are the states the server can be in.
\<close>

section \<open>Joining\<close>

definition join_participant ::
  "string \<Rightarrow> origin_claims \<Rightarrow> string \<Rightarrow> string option \<Rightarrow> bool \<Rightarrow> int \<Rightarrow> instant \<Rightarrow> uuid \<Rightarrow> hub_state \<Rightarrow>
   hub_error + hub_state" where
  "join_participant p claims session page can_control expires now connection s =
     (let display_name = normalized_display_name (oc_actor_label claims);
          color = participant_color p;
          sender = \<lparr>ob_queue = [], ob_open = True\<rparr>
      in case hub_participant s p of
           Some participant \<Rightarrow>
             if pt_subject participant \<noteq> oc_sub claims \<or> pt_session_id participant \<noteq> session
             then Inl (Hub_Unauthorized ''browser collaboration participant identity mismatch'')
             else Inr (update_participant p (\<lambda>pt.
                    let pt = (if pt_page_id pt \<noteq> page then pt\<lparr>pt_page_id := page, pt_cursor := None\<rparr> else pt)
                    in pt\<lparr>pt_display_name := display_name, pt_color := color, pt_can_control := can_control,
                          pt_expires_at := expires, pt_last_seen := now, pt_connection_id := Some connection,
                          pt_sender := Some sender\<rparr>) s)
         | None \<Rightarrow>
             if max_participants \<le> length (hs_participants s)
             then Inl (Hub_Unavailable ''Shared Browser collaboration is full'')
             else Inr (s\<lparr>hs_participants := AList.update p
                    \<lparr>pt_id = p, pt_subject = oc_sub claims, pt_session_id = session, pt_display_name = display_name,
                     pt_color = color, pt_page_id = page, pt_cursor = None, pt_can_control = can_control,
                     pt_expires_at = expires, pt_last_seen = now, pt_connection_id = Some connection,
                     pt_sender = Some sender,
                     pt_rate_limit = new_rate_limit control_actions_per_window control_action_window\<rparr>
                    (hs_participants s)\<rparr>))"

text \<open>What joining does to the control of the browser.\<close>

definition join_control :: "string \<Rightarrow> bool \<Rightarrow> hub_state \<Rightarrow> hub_state" where
  "join_control p can_control s =
     (let s = (if \<not> can_control \<and> is_human_owner s p
               then promote_next_request (s\<lparr>hs_control_owner := None\<rparr>) else s);
          s = (if \<not> can_control \<and> hs_suspended s = Some p then s\<lparr>hs_suspended := None\<rparr> else s);
          s = (if can_control \<and> hs_suspended s = None \<and> is_agent (hs_control_owner s)
               then s\<lparr>hs_suspended := Some p\<rparr> else s)
      in if hs_control_owner s = None \<and> can_control
         then drop_request p (s\<lparr>hs_control_owner := Some (Human p)\<rparr>) else s)"

text \<open>What follows the refresh of the agent's control: another operation may come between.\<close>

definition join_locked ::
  "(string \<Rightarrow> string) \<Rightarrow> reading \<Rightarrow> uuid \<Rightarrow> origin_claims \<Rightarrow> string \<Rightarrow> string option \<Rightarrow> hub \<Rightarrow>
   (hub_error + string \<times> uuid) \<times> hub" where
  "join_locked uuid_v5 rd connection claims session_id page_id h =
     (case validated_claim_expiry rd claims of
        Inl e \<Rightarrow> (Inl e, h)
      | Inr expires \<Rightarrow>
      (case validated_claim_session_id claims of
        Inl e \<Rightarrow> (Inl e, h)
      | Inr claim_session \<Rightarrow>
      (case validate_session_id session_id of
        Inl e \<Rightarrow> (Inl e, h)
      | Inr session \<Rightarrow>
      if claim_session \<noteq> session
      then (Inl (Hub_Unauthorized ''browser collaboration session does not match its signed token''), h)
      else if \<not> claims_have_scope ''browser.view'' claims
      then (Inl (Hub_Unauthorized ''browser collaboration requires browser.view''), h)
      else case validate_optional_page_id page_id of
        Inl e \<Rightarrow> (Inl e, h)
      | Inr page \<Rightarrow>
      (case participant_id_for_claims uuid_v5 claims claim_session of
        Inl e \<Rightarrow> (Inl e, h)
      | Inr p \<Rightarrow>
          (let can_control = claims_have_scope ''browser.control'' claims;
               s = publish_if (expire_stale rd (hb_state h))
           in case join_participant p claims claim_session page can_control expires (rd_now rd) connection s of
                Inl e \<Rightarrow> (Inl e, h\<lparr>hb_state := s\<rparr>)
              | Inr s \<Rightarrow> (Inr (p, connection), h\<lparr>hb_state := hub_publish (join_control p can_control s)\<rparr>))))))"

definition join_hub ::
  "(string \<Rightarrow> string) \<Rightarrow> reading \<Rightarrow> uuid \<Rightarrow> origin_claims \<Rightarrow> string \<Rightarrow> string option \<Rightarrow> hub \<Rightarrow>
   (hub_error + string \<times> uuid) \<times> hub" where
  "join_hub uuid_v5 rd connection claims session_id page_id h =
     join_locked uuid_v5 rd connection claims session_id page_id (refresh_agent_control True rd h)"

section \<open>Messages\<close>

definition ensure_participant_can_control :: "hub_state \<Rightarrow> string \<Rightarrow> hub_error option" where
  "ensure_participant_can_control s p =
     (if may_control s p then None
      else Some (Hub_Unauthorized ''participant does not have permission to control the Shared Browser''))"

definition give_control :: "string \<Rightarrow> hub_state \<Rightarrow> hub_state" where
  "give_control p s = drop_request p (s\<lparr>hs_control_owner := Some (Human p)\<rparr>)"

definition set_page :: "string option \<Rightarrow> participant \<Rightarrow> participant" where
  "set_page page pt = (if pt_page_id pt \<noteq> page then pt\<lparr>pt_page_id := page, pt_cursor := None\<rparr> else pt)"

definition request_control :: "string \<Rightarrow> bool \<Rightarrow> hub_state \<Rightarrow> (hub_error + bool) \<times> hub_state" where
  "request_control p changed s =
     (case ensure_participant_can_control s p of
        Some e \<Rightarrow> (Inl e, s)
      | None \<Rightarrow>
          if is_human_owner s p then (Inr changed, s)
          else if hs_control_owner s = None then (Inr True, give_control p s)
          else if p \<notin> set (hs_requests s) then (Inr True, s\<lparr>hs_requests := hs_requests s @ [p]\<rparr>)
          else (Inr changed, s))"

definition take_control :: "string \<Rightarrow> bool \<Rightarrow> hub_state \<Rightarrow> (hub_error + bool) \<times> hub_state" where
  "take_control p changed s =
     (case ensure_participant_can_control s p of
        Some e \<Rightarrow> (Inl e, s)
      | None \<Rightarrow>
          if is_human_owner s p then (Inr changed, s)
          else if hs_control_owner s \<noteq> None then (Inl (Hub_Conflict ''Shared Browser control is already held''), s)
          else (Inr True, give_control p s))"

definition release_control :: "string \<Rightarrow> bool \<Rightarrow> hub_state \<Rightarrow> bool \<times> hub_state" where
  "release_control p changed s =
     (let removed_request = list_ex (\<lambda>r. r = p) (hs_requests s);
          s = drop_request p s;
          changed = (changed \<or> removed_request);
          (changed, s) = (if hs_suspended s = Some p then (True, s\<lparr>hs_suspended := None\<rparr>) else (changed, s))
      in if is_human_owner s p then (True, promote_next_request (s\<lparr>hs_control_owner := None\<rparr>)) else (changed, s))"

definition grant_control ::
  "(string \<Rightarrow> bool) \<Rightarrow> string \<Rightarrow> string \<Rightarrow> bool \<Rightarrow> hub_state \<Rightarrow> (hub_error + bool) \<times> hub_state" where
  "grant_control is_uuid p target changed s =
     (case validate_participant_id is_uuid target of
        Inl e \<Rightarrow> (Inl e, s)
      | Inr target \<Rightarrow>
          if \<not> is_human_owner s p
          then (Inl (Hub_Unauthorized ''only the current Shared Browser controller may grant control''), s)
          else case ensure_participant_can_control s target of
                 Some e \<Rightarrow> (Inl e, s)
               | None \<Rightarrow> if target \<noteq> p then (Inr True, give_control target s) else (Inr changed, s))"

definition move_cursor :: "string \<Rightarrow> string \<Rightarrow> cursor_snapshot \<Rightarrow> hub_state \<Rightarrow> bool \<times> hub_state" where
  "move_cursor p page cursor s =
     (let cursor_changed = (case hub_participant s p of
            None \<Rightarrow> False | Some pt \<Rightarrow> pt_page_id pt \<noteq> Some page \<or> pt_cursor pt \<noteq> Some cursor)
      in if cursor_changed
         then let s = (update_participant p (\<lambda>pt. pt\<lparr>pt_page_id := Some page, pt_cursor := Some cursor\<rparr>) s)
                        \<lparr>hs_cursor_dirty := True\<rparr>
              in if hs_cursor_scheduled s then (False, s) else (True, s\<lparr>hs_cursor_scheduled := True\<rparr>)
         else (False, s))"

text \<open>What a message does once its sender is known. The results: whether the socket goes on and whether a
  publication of cursors is to be scheduled; whether the state is to be published; the state.\<close>

definition handle_message ::
  "(string \<Rightarrow> bool) \<Rightarrow> ('n \<Rightarrow> rat option) \<Rightarrow> string \<Rightarrow> 'n client_message \<Rightarrow> bool \<Rightarrow> hub_state \<Rightarrow>
   (hub_error + bool \<times> bool) \<times> bool \<times> hub_state" where
  "handle_message is_uuid as_f64 p message changed s =
     (case message of
        Join_Msg _ _ \<Rightarrow> (Inl (Hub_Bad_Request ''browser collaboration join must be the first message''), False, s)
      | Heartbeat_Msg page \<Rightarrow>
          (case validate_optional_page_id page of
             Inl e \<Rightarrow> (Inl e, False, s)
           | Inr page \<Rightarrow>
               (Inr (True, False),
                changed \<or> (case hub_participant s p of None \<Rightarrow> False | Some pt \<Rightarrow> pt_page_id pt \<noteq> page),
                update_participant p (set_page page) s))
      | Cursor_Msg page x y \<Rightarrow>
          (case validate_page_id page of
             Inl e \<Rightarrow> (Inl e, False, s)
           | Inr page \<Rightarrow>
               (case validate_cursor_numbers as_f64 x y of
                  Inl e \<Rightarrow> (Inl e, False, s)
                | Inr cursor \<Rightarrow> (case move_cursor p page cursor s of (schedule, s) \<Rightarrow> (Inr (True, schedule), changed, s))))
      | Request_Control \<Rightarrow>
          (case request_control p changed s of (Inl e, s) \<Rightarrow> (Inl e, False, s) | (Inr c, s) \<Rightarrow> (Inr (True, False), c, s))
      | Take_Control \<Rightarrow>
          (case take_control p changed s of (Inl e, s) \<Rightarrow> (Inl e, False, s) | (Inr c, s) \<Rightarrow> (Inr (True, False), c, s))
      | Release_Control \<Rightarrow> (case release_control p changed s of (c, s) \<Rightarrow> (Inr (True, False), c, s))
      | Grant_Control target \<Rightarrow>
          (case grant_control is_uuid p target changed s of
             (Inl e, s) \<Rightarrow> (Inl e, False, s) | (Inr c, s) \<Rightarrow> (Inr (True, False), c, s))
      | Leave_Msg \<Rightarrow> (case remove_participant p s of (c, s) \<Rightarrow> (Inr (False, False), changed \<or> c, s)))"

definition apply_locked ::
  "(string \<Rightarrow> bool) \<Rightarrow> ('n \<Rightarrow> rat option) \<Rightarrow> reading \<Rightarrow> string \<Rightarrow> uuid \<Rightarrow> 'n client_message \<Rightarrow> hub \<Rightarrow>
   (hub_error + bool \<times> bool) \<times> hub" where
  "apply_locked is_uuid as_f64 rd p connection message h =
     (case expire_stale rd (hb_state h) of (expired, s) \<Rightarrow>
      case hub_participant s p of
           None \<Rightarrow> (Inl (Hub_Unauthorized ''browser collaboration participant expired''),
                    h\<lparr>hb_state := publish_if (expired, s)\<rparr>)
         | Some participant \<Rightarrow>
             if pt_connection_id participant \<noteq> Some connection
             then (Inl (Hub_Unauthorized ''browser collaboration connection was replaced''),
                   h\<lparr>hb_state := publish_if (expired, s)\<rparr>)
             else (case handle_message is_uuid as_f64 p message expired
                          (update_participant p (pt_last_seen_update (\<lambda>_. rd_now rd)) s) of
                     (r, changed, s) \<Rightarrow> (r, h\<lparr>hb_state := publish_if (changed, s)\<rparr>)))"

definition apply_message ::
  "(string \<Rightarrow> bool) \<Rightarrow> ('n \<Rightarrow> rat option) \<Rightarrow> reading \<Rightarrow> string \<Rightarrow> uuid \<Rightarrow> 'n client_message \<Rightarrow> hub \<Rightarrow>
   (hub_error + bool \<times> bool) \<times> hub" where
  "apply_message is_uuid as_f64 rd p connection message h =
     apply_locked is_uuid as_f64 rd p connection message
       (if affects_control message then refresh_agent_control True rd h else h)"

definition admit_control_action :: "instant \<Rightarrow> string \<Rightarrow> uuid \<Rightarrow> hub \<Rightarrow> bool \<times> hub" where
  "admit_control_action now p connection h =
     (case hub_participant (hb_state h) p of
        None \<Rightarrow> (False, h)
      | Some pt \<Rightarrow>
          if pt_connection_id pt \<noteq> Some connection then (False, h)
          else (case take_at now (pt_rate_limit pt) of
                  (admitted, limit) \<Rightarrow>
                    (admitted, h\<lparr>hb_state := update_participant p (pt_rate_limit_update (\<lambda>_. limit)) (hb_state h)\<rparr>)))"

definition flush_cursor_updates :: "hub \<Rightarrow> hub" where
  "flush_cursor_updates h =
     (let s = (hb_state h)\<lparr>hs_cursor_scheduled := False\<rparr>
      in h\<lparr>hb_state := (if hs_cursor_dirty s then hub_publish s else s)\<rparr>)"

definition disconnect_hub :: "string \<Rightarrow> uuid \<Rightarrow> hub \<Rightarrow> hub" where
  "disconnect_hub p connection h =
     h\<lparr>hb_state := update_participant p
         (\<lambda>pt. if pt_connection_id pt = Some connection then pt\<lparr>pt_connection_id := None, pt_sender := None\<rparr> else pt)
         (hb_state h)\<rparr>"

definition connection_is_current :: "hub_state \<Rightarrow> string \<Rightarrow> uuid \<Rightarrow> bool" where
  "connection_is_current s p connection =
     (case hub_participant s p of None \<Rightarrow> False | Some pt \<Rightarrow> pt_connection_id pt = Some connection)"

definition expire_and_connection_is_current :: "reading \<Rightarrow> string \<Rightarrow> uuid \<Rightarrow> hub \<Rightarrow> bool \<times> hub" where
  "expire_and_connection_is_current rd p connection h =
     (let h = refresh_agent_control False rd h;
          s = publish_if (expire_stale rd (hb_state h))
      in (connection_is_current s p connection, h\<lparr>hb_state := s\<rparr>))"

section \<open>Input\<close>

definition assert_locked :: "(string \<Rightarrow> string) \<Rightarrow> reading \<Rightarrow> origin_claims \<Rightarrow> hub \<Rightarrow> (hub_error + unit) \<times> hub" where
  "assert_locked uuid_v5 rd claims h =
     (if \<not> claims_have_scope ''browser.control'' claims
      then (Inl (Hub_Unauthorized ''browser.control is required for Shared Browser input''), h)
      else case validated_claim_session_id claims of
             Inl e \<Rightarrow> (Inl e, h)
           | Inr session \<Rightarrow>
               (case participant_id_for_claims uuid_v5 claims session of
                  Inl e \<Rightarrow> (Inl e, h)
                | Inr p \<Rightarrow>
                    (let s = publish_if (expire_stale rd (hb_state h));
                         holds = (case hub_participant s p of
                                    None \<Rightarrow> False
                                  | Some pt \<Rightarrow> pt_subject pt = oc_sub claims \<and> pt_session_id pt = session \<and> pt_can_control pt)
                                 \<and> is_human_owner s p
                     in (if holds then Inr ()
                         else Inl (Hub_Conflict ''Shared Browser control is held by another participant''),
                         h\<lparr>hb_state := s\<rparr>))))"

text \<open>The token is looked at and the marker read before the lock on the state is taken: other operations may
  run in \<open>between\<close>, and the clocks are read again (\<open>rd'\<close>).\<close>

definition assert_human_control ::
  "(string \<Rightarrow> string) \<Rightarrow> reading \<Rightarrow> (hub \<Rightarrow> hub) \<Rightarrow> reading \<Rightarrow> origin_claims \<Rightarrow> hub \<Rightarrow> (hub_error + unit) \<times> hub" where
  "assert_human_control uuid_v5 rd between rd' claims h =
     (case validated_claim_expiry rd claims of
        Inl e \<Rightarrow> (Inl e, h)
      | Inr _ \<Rightarrow> assert_locked uuid_v5 rd' claims (between (refresh_agent_control True rd h)))"

definition has_human_control ::
  "(string \<Rightarrow> string) \<Rightarrow> reading \<Rightarrow> (hub \<Rightarrow> hub) \<Rightarrow> reading \<Rightarrow> origin_claims \<Rightarrow> hub \<Rightarrow> bool \<times> hub" where
  "has_human_control uuid_v5 rd between rd' claims h =
     (case assert_human_control uuid_v5 rd between rd' claims h of (r, h) \<Rightarrow> (\<not> isl r, h))"

definition occupancy_for :: "reading \<Rightarrow> string \<Rightarrow> hub \<Rightarrow> (bool \<times> bool) \<times> hub" where
  "occupancy_for rd subject h =
     (let s = publish_if (expire_stale rd (hb_state h));
          others_present = list_ex (\<lambda>(_, pt). pt_subject pt \<noteq> subject) (hs_participants s);
          controlled_by_other = (case hs_control_owner s of
             Some (Human p) \<Rightarrow> (case hub_participant s p of None \<Rightarrow> False | Some pt \<Rightarrow> pt_subject pt \<noteq> subject)
           | _ \<Rightarrow> False)
      in ((others_present, controlled_by_other), h\<lparr>hb_state := s\<rparr>))"

section \<open>The socket\<close>

datatype ws_message = Ws_Text string | Ws_Ping | Ws_Pong | Ws_Close | Ws_Binary | Ws_Failed | Ws_End

record collab_socket =
  ck_limit :: rate_limit
  ck_claims :: origin_claims
  ck_participant :: string
  ck_connection :: uuid

text \<open>What the socket takes from outside: the parsers, the names, and whether a pong could be sent.\<close>

record 'n collab_env =
  ce_from_str :: "string \<Rightarrow> 'n client_message option"
  ce_uuid_v5 :: "string \<Rightarrow> string"
  ce_is_uuid :: "string \<Rightarrow> bool"
  ce_as_f64 :: "'n \<Rightarrow> rat option"

text \<open>The first frame. Without a result the socket is closed.\<close>

definition open_collab_socket ::
  "'n collab_env \<Rightarrow> reading \<Rightarrow> uuid \<Rightarrow> origin_claims \<Rightarrow> ws_message option \<Rightarrow> hub \<Rightarrow> collab_socket option \<times> hub" where
  "open_collab_socket e rd connection claims first_frame h =
     (case take_at (rd_now rd) (new_rate_limit collaboration_frames_per_second (secs 1)) of (admitted, limit) \<Rightarrow>
      if \<not> admitted then (None, h)
      else case first_frame of
             Some (Ws_Text t) \<Rightarrow>
               (case parse_client_message (ce_from_str e) t of
                  Inr (Join_Msg session page) \<Rightarrow>
                    (case join_hub (ce_uuid_v5 e) rd connection claims session page h of
                       (Inl _, h) \<Rightarrow> (None, h)
                     | (Inr (p, c), h) \<Rightarrow>
                         (Some \<lparr>ck_limit = limit, ck_claims = claims, ck_participant = p, ck_connection = c\<rparr>, h))
                | _ \<Rightarrow> (None, h))
           | _ \<Rightarrow> (None, h))"

text \<open>A later frame: whether the loop goes on, the socket, and the hub.\<close>

definition collab_inbound ::
  "'n collab_env \<Rightarrow> reading \<Rightarrow> bool \<Rightarrow> ws_message \<Rightarrow> collab_socket \<Rightarrow> hub \<Rightarrow> bool \<times> collab_socket \<times> hub" where
  "collab_inbound e rd pong_sent frame k h =
     (if frame = Ws_Failed \<or> frame = Ws_End then (False, k, h)
      else case take_at (rd_now rd) (ck_limit k) of (admitted, limit) \<Rightarrow>
        (let k = k\<lparr>ck_limit := limit\<rparr> in
         if \<not> admitted then (False, k, h)
         else if isl (validated_claim_expiry rd (ck_claims k)) then (False, k, h)
         else case frame of
                Ws_Text t \<Rightarrow>
                  (case parse_client_message (ce_from_str e) t of
                     Inl _ \<Rightarrow> (False, k, h)
                   | Inr message \<Rightarrow>
                       (case (if affects_control message
                              then admit_control_action (rd_now rd) (ck_participant k) (ck_connection k) h
                              else (True, h)) of (admitted, h) \<Rightarrow>
                        if \<not> admitted then (False, k, h)
                        else (case apply_message (ce_is_uuid e) (ce_as_f64 e) rd (ck_participant k) (ck_connection k) message h of
                                (Inl _, h) \<Rightarrow> (False, k, h)
                              | (Inr (go_on, schedule), h) \<Rightarrow> (go_on, k, h))))
              | Ws_Ping \<Rightarrow> (pong_sent, k, h)
              | Ws_Pong \<Rightarrow> (True, k, h)
              | _ \<Rightarrow> (False, k, h)))"

definition collab_tick :: "reading \<Rightarrow> collab_socket \<Rightarrow> hub \<Rightarrow> bool \<times> hub" where
  "collab_tick rd k h = expire_and_connection_is_current rd (ck_participant k) (ck_connection k) h"

text \<open>The socket takes the oldest of the messages queued for it. What is still queued for a connection that
  was replaced or given up is not kept here.\<close>

definition collab_outbound :: "collab_socket \<Rightarrow> hub \<Rightarrow> server_message option \<times> hub" where
  "collab_outbound k h =
     (if \<not> connection_is_current (hb_state h) (ck_participant k) (ck_connection k) then (None, h)
      else case Option.bind (hub_participant (hb_state h) (ck_participant k)) pt_sender of
             None \<Rightarrow> (None, h)
           | Some sender \<Rightarrow>
               (case ob_queue sender of
                  [] \<Rightarrow> (None, h)
                | m # ms \<Rightarrow>
                    (Some m, h\<lparr>hb_state := update_participant (ck_participant k)
                       (pt_sender_update (\<lambda>_. Some (sender\<lparr>ob_queue := ms\<rparr>))) (hb_state h)\<rparr>)))"

definition close_collab_socket :: "collab_socket \<Rightarrow> hub \<Rightarrow> hub" where
  "close_collab_socket k h = disconnect_hub (ck_participant k) (ck_connection k) h"

end
