(* ===== verification/Collab_Laws.thy ===== *)
theory Collab_Laws
  imports Collab_Steps
begin

text \<open>
  What every operation of the hub keeps. \<open>hub_ok\<close> is the invariant of its state: the bound on the
  participants, that control and the promise of it (\<open>hs_suspended\<close>) belong to participants who may
  control, that requests are distinct and of participants, and that nobody waits while nobody
  controls. \<open>holds\<close> is the claim of a person to the browser: its owner, or the person an agent
  interrupted.
\<close>

named_theorems hub_simps

section \<open>Participants\<close>

definition hub_keys :: "hub_state \<Rightarrow> string set" where
  "hub_keys s = fst ` set (hs_participants s)"

definition participants_ok :: "hub_state \<Rightarrow> bool" where
  "participants_ok s \<longleftrightarrow>
     distinct (map fst (hs_participants s)) \<and> (\<forall>(k, pt)\<in>set (hs_participants s). pt_id pt = k)
     \<and> length (hs_participants s) \<le> max_participants"

definition control_ok :: "hub_state \<Rightarrow> bool" where
  "control_ok s \<longleftrightarrow>
     (\<forall>p. hs_control_owner s = Some (Human p) \<longrightarrow> may_control s p)
     \<and> (\<forall>p. hs_suspended s = Some p \<longrightarrow> may_control s p \<and> is_agent (hs_control_owner s))
     \<and> distinct (hs_requests s) \<and> set (hs_requests s) \<subseteq> hub_keys s
     \<and> (hs_control_owner s = None \<longrightarrow> hs_requests s = [])"

definition hub_ok :: "hub_state \<Rightarrow> bool" where
  "hub_ok s \<longleftrightarrow> participants_ok s \<and> control_ok s"

definition holds :: "hub_state \<Rightarrow> string \<Rightarrow> bool" where
  "holds s p \<longleftrightarrow> hs_control_owner s = Some (Human p) \<or> is_agent (hs_control_owner s) \<and> hs_suspended s = Some p"

lemma is_agent_iff: "is_agent w \<longleftrightarrow> (\<exists>a b c d. w = Some (Agent a b c d))"
  by (cases w rule: is_agent.cases) auto

lemma is_agent_agent [simp]: "is_agent (Some (agent_of m))" "is_agent (Some marker_unavailable_agent)"
  by (simp_all add: agent_of_def marker_unavailable_agent_def)

lemma holds_not_agent: "holds s p \<Longrightarrow> \<not> is_agent (hs_control_owner s) \<Longrightarrow> hs_control_owner s = Some (Human p)"
  by (simp add: holds_def)

lemma may_control_keys: "may_control s p \<Longrightarrow> p \<in> hub_keys s"
  by (force simp: may_control_def hub_participant_def hub_keys_def split: option.splits dest: map_of_SomeD)

lemma holds_may_control: "control_ok s \<Longrightarrow> holds s p \<Longrightarrow> may_control s p"
  by (auto simp: control_ok_def holds_def)

text \<open>Changes of the state that touch no participant's permission, nor the control of the browser.\<close>

definition same_control :: "hub_state \<Rightarrow> hub_state \<Rightarrow> bool" where
  "same_control s t \<longleftrightarrow>
     hs_control_owner t = hs_control_owner s \<and> hs_suspended t = hs_suspended s \<and> hs_requests t = hs_requests s
     \<and> map (\<lambda>(k, pt). (k, pt_id pt, pt_can_control pt)) (hs_participants t)
       = map (\<lambda>(k, pt). (k, pt_id pt, pt_can_control pt)) (hs_participants s)"

lemma same_control_refl [simp]: "same_control s s"
  by (simp add: same_control_def)

lemma same_control_trans: "same_control s t \<Longrightarrow> same_control t u \<Longrightarrow> same_control s u"
  by (simp add: same_control_def)

lemma same_control_lookup:
  assumes "map (\<lambda>(k, pt). (k, pt_id pt, pt_can_control pt)) ps = map (\<lambda>(k, pt). (k, pt_id pt, pt_can_control pt)) qs"
  shows "map_option pt_can_control (map_of ps p) = map_option pt_can_control (map_of qs p)"
    and "map fst ps = map fst qs" and "(\<forall>(k, pt)\<in>set ps. pt_id pt = k) = (\<forall>(k, pt)\<in>set qs. pt_id pt = k)"
    and "length ps = length qs"
proof -
  show "map_option pt_can_control (map_of ps p) = map_option pt_can_control (map_of qs p)"
    using assms by (induction ps arbitrary: qs) auto
  show "map fst ps = map fst qs"
    using arg_cong [where f = "map fst", OF assms] by (simp add: o_def case_prod_beta)
  have "(\<forall>(k, pt)\<in>set ps. pt_id pt = k) = list_all (\<lambda>(k, i, c). i = k) (map (\<lambda>(k, pt). (k, pt_id pt, pt_can_control pt)) ps)" for ps
    by (induction ps) auto
  note this [of ps] this [of qs]
  then show "(\<forall>(k, pt)\<in>set ps. pt_id pt = k) = (\<forall>(k, pt)\<in>set qs. pt_id pt = k)" by (simp only: assms)
  show "length ps = length qs" using assms by (rule map_eq_imp_length_eq)
qed

lemma may_control_alt: "may_control s p \<longleftrightarrow> map_option pt_can_control (map_of (hs_participants s) p) = Some True"
  by (auto simp: may_control_def hub_participant_def split: option.splits)

lemma same_control_parts:
  "same_control s t \<Longrightarrow>
     map (\<lambda>(k, pt). (k, pt_id pt, pt_can_control pt)) (hs_participants t)
       = map (\<lambda>(k, pt). (k, pt_id pt, pt_can_control pt)) (hs_participants s)"
  by (simp add: same_control_def)

lemma same_control_may: "same_control s t \<Longrightarrow> may_control t p = may_control s p"
  unfolding may_control_alt by (simp only: same_control_lookup(1) [OF same_control_parts])

lemma same_control_keys: "same_control s t \<Longrightarrow> hub_keys t = hub_keys s"
  using arg_cong [where f = set, OF same_control_lookup(2) [OF same_control_parts]] by (simp add: hub_keys_def)

lemma same_control_ok: "same_control s t \<Longrightarrow> hub_ok t = hub_ok s"
proof -
  assume a: "same_control s t"
  then have "participants_ok t = participants_ok s"
    unfolding participants_ok_def
    by (simp only: same_control_lookup(2-4) [OF same_control_parts [OF a]])
  moreover have "control_ok t = control_ok s"
    unfolding control_ok_def same_control_may [OF a] same_control_keys [OF a]
    using a unfolding same_control_def by (elim conjE) (simp only:)
  ultimately show ?thesis by (simp add: hub_ok_def)
qed

lemma same_control_holds: "same_control s t \<Longrightarrow> holds t p = holds s p"
  by (simp add: holds_def same_control_def)

lemma update_same_control:
  "(\<And>pt. pt_id (f pt) = pt_id pt \<and> pt_can_control (f pt) = pt_can_control pt) \<Longrightarrow> same_control s (update_participant p f s)"
  by (simp add: same_control_def update_participant_def case_prod_beta)

lemma deliver_to_same: "pt_id (deliver_to m pt) = pt_id pt \<and> pt_can_control (deliver_to m pt) = pt_can_control pt"
  by (simp add: deliver_to_def split: option.splits)

lemma hub_publish_same: "same_control s (hub_publish s)"
  by (simp add: same_control_def hub_publish_def Let_def case_prod_beta deliver_to_same)

lemma publish_if_same: "same_control s (publish_if (c, s))"
  by (simp add: publish_if_def hub_publish_same)

section \<open>Requests\<close>

lemma promote_requests_fields [simp]:
  "hs_participants (promote_requests s ps) = hs_participants s" "hs_suspended (promote_requests s ps) = hs_suspended s"
  by (induction s ps rule: promote_requests.induct) auto

lemma promote_requests_cases:
  obtains "hs_control_owner (promote_requests s ps) = hs_control_owner s" "hs_requests (promote_requests s ps) = []"
  | p us vs where "ps = us @ p # vs" "may_control s p"
      "hs_control_owner (promote_requests s ps) = Some (Human p)" "hs_requests (promote_requests s ps) = vs"
proof (induction s ps arbitrary: thesis rule: promote_requests.induct)
  case (2 s p ps)
  show ?case
  proof (cases "may_control s p")
    case True
    then show ?thesis using 2(3) [of "[]" p ps] by simp
  next
    case False
    show ?thesis
    proof (rule 2(1) [OF False])
      assume "hs_control_owner (promote_requests s ps) = hs_control_owner s" "hs_requests (promote_requests s ps) = []"
      then show thesis using 2(2) False by simp
    next
      fix q us vs
      assume "ps = us @ q # vs" "may_control s q"
        "hs_control_owner (promote_requests s ps) = Some (Human q)" "hs_requests (promote_requests s ps) = vs"
      then show thesis using 2(3) [of "p # us" q vs] False by simp
    qed
  qed
qed simp

text \<open>Control that is given up goes to the first request of a participant who may control.\<close>

lemma promote_ok:
  assumes "participants_ok s" "distinct (hs_requests s)" "set (hs_requests s) \<subseteq> hub_keys s" "hs_suspended s = None"
  shows "hub_ok (promote_next_request (s\<lparr>hs_control_owner := None\<rparr>))"
proof -
  let ?s = "s\<lparr>hs_control_owner := None\<rparr>"
  have m: "may_control ?s = may_control s" by (simp add: fun_eq_iff may_control_def hub_participant_def)
  have p: "promote_next_request ?s = promote_requests ?s (hs_requests s)"
    by (simp add: promote_next_request_def)
  have parts: "participants_ok (promote_requests ?s (hs_requests s))"
    using assms(1) by (simp add: participants_ok_def)
  have may: "may_control (promote_requests ?s ps) q = may_control s q" for ps q
    by (simp add: may_control_def hub_participant_def)
  have keys: "hub_keys (promote_requests ?s ps) = hub_keys s" for ps
    by (simp add: hub_keys_def)
  have "control_ok (promote_requests ?s (hs_requests s))"
  proof (rule promote_requests_cases [of ?s "hs_requests s"])
    assume "hs_control_owner (promote_requests ?s (hs_requests s)) = hs_control_owner ?s"
      "hs_requests (promote_requests ?s (hs_requests s)) = []"
    then show ?thesis using assms(4) by (simp add: control_ok_def)
  next
    fix q us vs
    assume "hs_requests s = us @ q # vs" "may_control ?s q"
      "hs_control_owner (promote_requests ?s (hs_requests s)) = Some (Human q)"
      "hs_requests (promote_requests ?s (hs_requests s)) = vs"
    then show ?thesis using assms by (auto simp: control_ok_def may keys m)
  qed
  with parts p show ?thesis by (simp add: hub_ok_def)
qed

lemma drop_request_ok: "hub_ok s \<Longrightarrow> hub_ok (drop_request p s)"
  by (auto simp: hub_ok_def participants_ok_def control_ok_def drop_request_def may_control_def hub_participant_def hub_keys_def)

section \<open>Removals\<close>

lemma map_of_delete: "map_of (AList.delete p m) q = (if q = p then None else map_of m q)"
  by (simp add: AList.delete_conv')

lemma remove_participant_missing: "hub_participant s p = None \<Longrightarrow> remove_participant p s = (False, s)"
  by (simp add: remove_participant_def)

text \<open>The state without a participant, before control it held is passed on.\<close>

definition without_participant :: "string \<Rightarrow> hub_state \<Rightarrow> hub_state" where
  "without_participant p s =
     (let s = drop_request p (s\<lparr>hs_participants := AList.delete p (hs_participants s)\<rparr>)
      in if hs_suspended s = Some p then s\<lparr>hs_suspended := None\<rparr> else s)"

lemma without_participant_simps [simp]:
  "hs_participants (without_participant p s) = AList.delete p (hs_participants s)"
  "hs_control_owner (without_participant p s) = hs_control_owner s"
  "hs_suspended (without_participant p s) = (if hs_suspended s = Some p then None else hs_suspended s)"
  "hs_requests (without_participant p s) = filter (\<lambda>r. r \<noteq> p) (hs_requests s)"
  by (simp_all add: without_participant_def Let_def drop_request_def)

lemma remove_participant_alt:
  "hub_participant s p \<noteq> None \<Longrightarrow>
     remove_participant p s =
       (True, if is_human_owner s p then promote_next_request ((without_participant p s)\<lparr>hs_control_owner := None\<rparr>)
              else without_participant p s)"
  by (simp add: remove_participant_def without_participant_def Let_def is_human_owner_def drop_request_def)

lemma may_without: "may_control (without_participant p s) q \<longleftrightarrow> q \<noteq> p \<and> may_control s q"
  by (simp add: may_control_def hub_participant_def map_of_delete)

lemma keys_without: "hub_keys (without_participant p s) = hub_keys s - {p}"
  by (force simp: hub_keys_def in_set_AList_delete)

lemma participants_ok_without: "participants_ok s \<Longrightarrow> participants_ok (without_participant p s)"
  using order_trans [OF length_AList_delete]
  by (auto simp: participants_ok_def in_set_AList_delete AList.distinct_delete)

lemma remove_participant_ok: "hub_ok s \<Longrightarrow> hub_ok (snd (remove_participant p s))"
proof (cases "hub_participant s p = None")
  case False
  assume ok: "hub_ok s"
  then have parts: "participants_ok (without_participant p s)" by (simp add: hub_ok_def participants_ok_without)
  show ?thesis
  proof (cases "is_human_owner s p")
    case True
    then have "hs_suspended s = None"
      using ok by (cases "hs_suspended s") (auto simp: hub_ok_def control_ok_def is_human_owner_def)
    then have "hub_ok (promote_next_request ((without_participant p s)\<lparr>hs_control_owner := None\<rparr>))"
      using ok parts by (intro promote_ok) (auto simp: hub_ok_def control_ok_def keys_without)
    with True False show ?thesis by (simp add: remove_participant_alt)
  next
    case no: False
    have "control_ok (without_participant p s)"
      using ok no by (auto simp: hub_ok_def control_ok_def may_without keys_without is_human_owner_def)
    with parts False no show ?thesis by (simp add: remove_participant_alt hub_ok_def)
  qed
qed (simp add: remove_participant_missing)

lemma remove_participant_holds:
  assumes "holds s q" "p \<noteq> q"
  shows "holds (snd (remove_participant p s)) q"
proof (cases "hub_participant s p = None")
  case False
  have "\<not> is_human_owner s p" using assms by (auto simp: holds_def is_human_owner_def)
  with False assms show ?thesis by (auto simp: remove_participant_alt holds_def)
qed (use assms in \<open>simp add: remove_participant_missing\<close>)

lemma remove_participant_agent: "hub_ok s \<Longrightarrow> is_agent (hs_control_owner (snd (remove_participant p s))) = is_agent (hs_control_owner s)"
proof (cases "hub_participant s p = None \<or> \<not> is_human_owner s p")
  case True
  then show ?thesis by (cases "hub_participant s p") (auto simp: remove_participant_missing remove_participant_alt)
next
  case False
  then have r: "snd (remove_participant p s) = promote_requests ((without_participant p s)\<lparr>hs_control_owner := None\<rparr>) (hs_requests (without_participant p s))"
    by (simp add: remove_participant_alt promote_next_request_def)
  have "\<not> is_agent (hs_control_owner (snd (remove_participant p s)))"
    unfolding r by (rule promote_requests_cases [of "(without_participant p s)\<lparr>hs_control_owner := None\<rparr>" "hs_requests (without_participant p s)"]) auto
  with False show ?thesis by (auto simp: is_human_owner_def)
qed

lemma remove_all_facts:
  assumes "hub_ok s"
  shows "hub_ok (snd (remove_all ps s))" "is_agent (hs_control_owner (snd (remove_all ps s))) = is_agent (hs_control_owner s)"
    "holds s q \<Longrightarrow> q \<notin> set ps \<Longrightarrow> holds (snd (remove_all ps s)) q"
proof -
  have "hub_ok (snd (remove_all ps s)) \<and> is_agent (hs_control_owner (snd (remove_all ps s))) = is_agent (hs_control_owner s)
    \<and> (holds s q \<longrightarrow> q \<notin> set ps \<longrightarrow> holds (snd (remove_all ps s)) q)"
    using assms
  proof (induction ps s rule: remove_all.induct)
    case (2 p ps s)
    obtain c t where t: "remove_participant p s = (c, t)" by (cases "remove_participant p s")
    then have "hub_ok t" "is_agent (hs_control_owner t) = is_agent (hs_control_owner s)" "holds s q \<Longrightarrow> p \<noteq> q \<Longrightarrow> holds t q"
      using remove_participant_ok [OF 2(2), of p] remove_participant_agent [OF 2(2), of p] remove_participant_holds [of s q p] by auto
    with 2(1) [OF t [symmetric]] t show ?case by (auto split: prod.splits)
  qed simp
  then show "hub_ok (snd (remove_all ps s))" "is_agent (hs_control_owner (snd (remove_all ps s))) = is_agent (hs_control_owner s)"
    "holds s q \<Longrightarrow> q \<notin> set ps \<Longrightarrow> holds (snd (remove_all ps s)) q" by blast+
qed

text \<open>Whether a participant's time is over.\<close>

definition is_stale :: "reading \<Rightarrow> string \<Rightarrow> hub_state \<Rightarrow> bool" where
  "is_stale rd p s = (case hub_participant s p of None \<Rightarrow> False | Some pt \<Rightarrow> stale rd pt)"

lemma expire_stale_facts:
  assumes "hub_ok s" "expire_stale rd s = (c, t)"
  shows "hub_ok t" "is_agent (hs_control_owner t) = is_agent (hs_control_owner s)"
    "holds s q \<Longrightarrow> \<not> is_stale rd q s \<Longrightarrow> holds t q"
proof -
  let ?ps = "map (\<lambda>(_, p). pt_id p) (filter (\<lambda>(_, p). stale rd p) (hs_participants s))"
  have t: "t = snd (remove_all ?ps s)" using assms(2) by (simp add: expire_stale_def)
  show "hub_ok t" "is_agent (hs_control_owner t) = is_agent (hs_control_owner s)"
    unfolding t using remove_all_facts(1,2) [OF assms(1)] by simp_all
  assume h: "holds s q" "\<not> is_stale rd q s"
  have "q \<notin> set ?ps"
  proof
    assume "q \<in> set ?ps"
    then obtain k pt where k: "(k, pt) \<in> set (hs_participants s)" "stale rd pt" "pt_id pt = q" by auto
    with assms(1) have "k = q" by (auto simp: hub_ok_def participants_ok_def)
    with k assms(1) have "hub_participant s q = Some pt"
      by (simp add: hub_participant_def hub_ok_def participants_ok_def)
    with h(2) k show False by (simp add: is_stale_def)
  qed
  then show "holds t q" unfolding t using remove_all_facts(3) [OF assms(1) h(1)] by blast
qed

section \<open>Joining\<close>

lemma join_participant_facts:
  assumes ok: "hub_ok s" and j: "join_participant p claims session page can expires now c s = Inr t"
  shows "participants_ok t" "hs_control_owner t = hs_control_owner s" "hs_suspended t = hs_suspended s"
    "hs_requests t = hs_requests s" "hub_keys s \<subseteq> hub_keys t" "may_control t q = (if q = p then can else may_control s q)"
proof -
  have parts: "participants_ok s" using ok by (simp add: hub_ok_def)
  show "hs_control_owner t = hs_control_owner s" "hs_suspended t = hs_suspended s" "hs_requests t = hs_requests s"
    using j by (auto simp: join_participant_def Let_def update_participant_def split: option.splits if_splits)
  have "participants_ok t \<and> hub_keys s \<subseteq> hub_keys t \<and> may_control t q = (if q = p then can else may_control s q)"
  proof (cases "hub_participant s p")
    case None
    obtain pt where t: "t = s\<lparr>hs_participants := AList.update p pt (hs_participants s)\<rparr>" "pt_id pt = p" "pt_can_control pt = can"
      and len: "length (hs_participants s) < max_participants"
      using j None by (auto simp: join_participant_def Let_def split: if_splits)
    have "p \<notin> fst ` set (hs_participants s)"
      using None by (simp add: hub_participant_def map_of_eq_None_iff)
    moreover have "p \<notin> fst ` set xs \<Longrightarrow> AList.update p pt xs = xs @ [(p, pt)]" for xs
      by (induction xs) auto
    ultimately have u: "AList.update p pt (hs_participants s) = hs_participants s @ [(p, pt)]" by blast
    from t len parts \<open>p \<notin> fst ` set (hs_participants s)\<close> None show ?thesis
      by (auto simp: u participants_ok_def hub_keys_def may_control_def hub_participant_def map_add_def split: option.splits)
  next
    case (Some pt)
    obtain f where t: "t = update_participant p f s" and f: "\<And>pt. pt_id (f pt) = pt_id pt" "\<And>pt. pt_can_control (f pt) = can"
      using j Some by (auto simp: join_participant_def Let_def split: if_splits)
    have keys: "map fst (hs_participants t) = map fst (hs_participants s)"
      by (simp add: t update_participant_def case_prod_beta)
    have "participants_ok t"
      unfolding participants_ok_def keys using parts by (auto simp: t participants_ok_def update_participant_def f)
    moreover have "hub_keys t = hub_keys s"
      using arg_cong [where f = set, OF keys] by (simp add: hub_keys_def)
    moreover have "map_of (map (\<lambda>(k, pt). (k, if k = p then f pt else pt)) xs) q
        = map_option (\<lambda>pt. if q = p then f pt else pt) (map_of xs q)" for xs
      by (induction xs) auto
    then have "hub_participant t q = map_option (\<lambda>pt. if q = p then f pt else pt) (hub_participant s q)"
      by (simp add: t hub_participant_def update_participant_def)
    then have "may_control t q = (if q = p then can else may_control s q)"
      using Some by (auto simp: may_control_def f split: option.splits)
    ultimately show ?thesis by simp
  qed
  then show "participants_ok t" "hub_keys s \<subseteq> hub_keys t" "may_control t q = (if q = p then can else may_control s q)"
    by blast+
qed

lemma same_may [simp]:
  "may_control (s\<lparr>hs_control_owner := x\<rparr>) q = may_control s q" "may_control (s\<lparr>hs_suspended := y\<rparr>) q = may_control s q"
  "may_control (s\<lparr>hs_requests := z\<rparr>) q = may_control s q"
  "hub_keys (s\<lparr>hs_control_owner := x\<rparr>) = hub_keys s" "hub_keys (s\<lparr>hs_suspended := y\<rparr>) = hub_keys s"
  "hub_keys (s\<lparr>hs_requests := z\<rparr>) = hub_keys s"
  "participants_ok (s\<lparr>hs_control_owner := x\<rparr>) = participants_ok s" "participants_ok (s\<lparr>hs_suspended := y\<rparr>) = participants_ok s"
  "participants_ok (s\<lparr>hs_requests := z\<rparr>) = participants_ok s"
  by (simp_all add: may_control_def hub_participant_def hub_keys_def participants_ok_def)

lemma give_control_ok:
  assumes "hub_ok s" "may_control s p" "\<not> is_agent (hs_control_owner s)"
  shows "hub_ok (give_control p s)"
  using assms by (auto simp: hub_ok_def control_ok_def give_control_def drop_request_def)

lemma not_agent_not_suspended: "hub_ok s \<Longrightarrow> \<not> is_agent (hs_control_owner s) \<Longrightarrow> hs_suspended s = None"
  by (cases "hs_suspended s") (auto simp: hub_ok_def control_ok_def)

lemma promote_agent: "is_agent (hs_control_owner (promote_next_request (s\<lparr>hs_control_owner := None\<rparr>))) = False"
proof -
  let ?s = "s\<lparr>hs_control_owner := None\<rparr>"
  have "\<not> is_agent (hs_control_owner (promote_requests ?s (hs_requests s)))"
    by (rule promote_requests_cases [of ?s "hs_requests s"]) auto
  then show ?thesis by (simp add: promote_next_request_def)
qed

lemma promote_suspended [simp]: "hs_suspended (promote_next_request s) = hs_suspended s"
  by (simp add: promote_next_request_def)

lemma join_control_may:
  assumes ok: "hub_ok s" and parts: "participants_ok t" and same: "hs_control_owner t = hs_control_owner s"
      "hs_suspended t = hs_suspended s" "hs_requests t = hs_requests s" "hub_keys s \<subseteq> hub_keys t"
    and may: "\<And>q. may_control t q = (if q = p then True else may_control s q)"
  shows "hub_ok (join_control p True t)"
    "is_agent (hs_control_owner (join_control p True t)) = is_agent (hs_control_owner s)"
    "holds s q \<Longrightarrow> holds (join_control p True t) q"
proof -
  have t: "hub_ok t" using ok parts same may by (auto simp: hub_ok_def control_ok_def)
  have j: "join_control p True t =
     (if hs_suspended t = None \<and> is_agent (hs_control_owner t) then t\<lparr>hs_suspended := Some p\<rparr>
      else if hs_control_owner t = None then give_control p t else t)"
    by (auto simp: join_control_def give_control_def Let_def)
  have "hub_ok (give_control p t)" if "hs_control_owner t = None"
    using give_control_ok [OF t] that may by simp
  moreover have "hub_ok (t\<lparr>hs_suspended := Some p\<rparr>)" if "is_agent (hs_control_owner t)"
    using t that may by (auto simp: hub_ok_def control_ok_def)
  ultimately show "hub_ok (join_control p True t)" using t by (simp add: j)
  show "is_agent (hs_control_owner (join_control p True t)) = is_agent (hs_control_owner s)"
    by (auto simp: j same give_control_def drop_request_def)
  assume "holds s q"
  then show "holds (join_control p True t) q"
    by (auto simp: j same holds_def give_control_def drop_request_def)
qed

lemma join_control_may_not:
  assumes ok: "hub_ok s" and parts: "participants_ok t" and same: "hs_control_owner t = hs_control_owner s"
      "hs_suspended t = hs_suspended s" "hs_requests t = hs_requests s" "hub_keys s \<subseteq> hub_keys t"
    and may: "\<And>q. may_control t q = (if q = p then False else may_control s q)"
  shows "hub_ok (join_control p False t)"
    "is_agent (hs_control_owner (join_control p False t)) = is_agent (hs_control_owner s)"
    "holds s q \<Longrightarrow> q \<noteq> p \<Longrightarrow> holds (join_control p False t) q"
proof -
  have d: "distinct (hs_requests t)" "set (hs_requests t) \<subseteq> hub_keys t"
    using ok same by (auto simp: hub_ok_def control_ok_def)
  have "hub_ok (join_control p False t)
    \<and> is_agent (hs_control_owner (join_control p False t)) = is_agent (hs_control_owner s)
    \<and> (holds s q \<longrightarrow> q \<noteq> p \<longrightarrow> holds (join_control p False t) q)"
  proof (cases "is_human_owner t p")
    case True
    then have o: "hs_control_owner s = Some (Human p)" by (simp add: is_human_owner_def same)
    then have n: "hs_suspended t = None" using not_agent_not_suspended [OF ok] same by simp
    then have "join_control p False t = promote_next_request (t\<lparr>hs_control_owner := None\<rparr>)"
      using True by (simp add: join_control_def Let_def)
    then show ?thesis using promote_ok [OF parts d n] promote_agent [of t] o by (simp add: holds_def)
  next
    case False
    then have j: "join_control p False t = (if hs_suspended t = Some p then t\<lparr>hs_suspended := None\<rparr> else t)"
      by (simp add: join_control_def Let_def)
    from False have "hs_control_owner s \<noteq> Some (Human p)" by (simp add: is_human_owner_def same)
    with ok parts same may d have "hub_ok (join_control p False t)"
      by (auto simp: j hub_ok_def control_ok_def)
    then show ?thesis by (auto simp: j same holds_def)
  qed
  then show "hub_ok (join_control p False t)"
    "is_agent (hs_control_owner (join_control p False t)) = is_agent (hs_control_owner s)"
    "holds s q \<Longrightarrow> q \<noteq> p \<Longrightarrow> holds (join_control p False t) q" by blast+
qed

section \<open>Messages\<close>

lemma request_control_facts:
  assumes ok: "hub_ok s" and r: "request_control p c s = (x, t)"
  shows "hub_ok t" "is_agent (hs_control_owner t) = is_agent (hs_control_owner s)" "holds s q \<Longrightarrow> holds t q"
proof -
  have "t = (if \<not> may_control s p \<or> is_human_owner s p then s
      else if hs_control_owner s = None then give_control p s
      else if p \<notin> set (hs_requests s) then s\<lparr>hs_requests := hs_requests s @ [p]\<rparr> else s)"
    using arg_cong [where f = snd, OF r] 
    by (cases "may_control s p"; cases "is_human_owner s p")
      (simp_all add: request_control_def ensure_participant_can_control_def split: if_split_asm)
  then consider "t = s" | "may_control s p" "hs_control_owner s = None" "t = give_control p s"
    | "may_control s p" "hs_control_owner s \<noteq> None" "p \<notin> set (hs_requests s)" "t = s\<lparr>hs_requests := hs_requests s @ [p]\<rparr>"
    by metis
  then have "hub_ok t \<and> is_agent (hs_control_owner t) = is_agent (hs_control_owner s) \<and> (holds s q \<longrightarrow> holds t q)"
  proof cases
    case 2
    then show ?thesis using give_control_ok [OF ok] by (auto simp: holds_def give_control_def drop_request_def)
  next
    case 3
    then show ?thesis using ok may_control_keys by (auto simp: hub_ok_def control_ok_def holds_def)
  qed (use ok in simp)
  then show "hub_ok t" "is_agent (hs_control_owner t) = is_agent (hs_control_owner s)" "holds s q \<Longrightarrow> holds t q" by blast+
qed

lemma take_control_facts:
  assumes ok: "hub_ok s" and r: "take_control p c s = (x, t)"
  shows "hub_ok t" "is_agent (hs_control_owner t) = is_agent (hs_control_owner s)" "holds s q \<Longrightarrow> holds t q"
proof -
  have "t = (if \<not> may_control s p \<or> is_human_owner s p \<or> hs_control_owner s \<noteq> None then s else give_control p s)"
    using arg_cong [where f = snd, OF r] 
    by (cases "may_control s p"; cases "is_human_owner s p")
      (simp_all add: take_control_def ensure_participant_can_control_def split: if_splits)
  then consider "t = s" | "may_control s p" "hs_control_owner s = None" "t = give_control p s"
    by metis
  then have "hub_ok t \<and> is_agent (hs_control_owner t) = is_agent (hs_control_owner s) \<and> (holds s q \<longrightarrow> holds t q)"
    by cases (use ok give_control_ok [OF ok] in \<open>auto simp: holds_def give_control_def drop_request_def\<close>)
  then show "hub_ok t" "is_agent (hs_control_owner t) = is_agent (hs_control_owner s)" "holds s q \<Longrightarrow> holds t q" by blast+
qed

lemma grant_control_facts:
  assumes ok: "hub_ok s" and r: "grant_control u p target c s = (x, t)"
  shows "hub_ok t" "is_agent (hs_control_owner t) = is_agent (hs_control_owner s)" "holds s q \<Longrightarrow> q \<noteq> p \<Longrightarrow> holds t q"
proof -
  have "t = (case validate_participant_id u target of Inl _ \<Rightarrow> s
      | Inr g \<Rightarrow> if is_human_owner s p \<and> may_control s g \<and> g \<noteq> p then give_control g s else s)"
    using arg_cong [where f = snd, OF r]
    by (cases "validate_participant_id u target"; cases "is_human_owner s p"; cases "may_control s (projr (validate_participant_id u target))")
      (simp_all add: grant_control_def ensure_participant_can_control_def split: if_splits)
  then consider "t = s" | g where "may_control s g" "hs_control_owner s = Some (Human p)" "t = give_control g s"
    unfolding is_human_owner_def by (cases "validate_participant_id u target") (simp_all split: if_splits)
  then have "hub_ok t \<and> is_agent (hs_control_owner t) = is_agent (hs_control_owner s) \<and> (holds s q \<longrightarrow> q \<noteq> p \<longrightarrow> holds t q)"
    by cases (use ok give_control_ok [OF ok] in \<open>auto simp: holds_def give_control_def drop_request_def\<close>)
  then show "hub_ok t" "is_agent (hs_control_owner t) = is_agent (hs_control_owner s)" "holds s q \<Longrightarrow> q \<noteq> p \<Longrightarrow> holds t q" by blast+
qed

lemma release_control_facts:
  assumes ok: "hub_ok s" and r: "release_control p c s = (x, t)"
  shows "hub_ok t" "is_agent (hs_control_owner t) = is_agent (hs_control_owner s)" "holds s q \<Longrightarrow> q \<noteq> p \<Longrightarrow> holds t q"
proof -
  let ?d = "drop_request p s"
  let ?u = "if hs_suspended s = Some p then ?d\<lparr>hs_suspended := None\<rparr> else ?d"
  have t: "t = (if is_human_owner s p then promote_next_request (?u\<lparr>hs_control_owner := None\<rparr>) else ?u)"
    using r by (auto simp: release_control_def Let_def drop_request_def is_human_owner_def split: if_splits)
  have u: "hub_ok ?u" using drop_request_ok [OF ok, of p] by (auto simp: hub_ok_def control_ok_def)
  have "hub_ok t \<and> is_agent (hs_control_owner t) = is_agent (hs_control_owner s) \<and> (holds s q \<longrightarrow> q \<noteq> p \<longrightarrow> holds t q)"
  proof (cases "is_human_owner s p")
    case True
    then have "\<not> is_agent (hs_control_owner ?u)" by (simp add: is_human_owner_def drop_request_def)
    from not_agent_not_suspended [OF u this] have "hub_ok (promote_next_request (?u\<lparr>hs_control_owner := None\<rparr>))"
      using u by (intro promote_ok) (auto simp: hub_ok_def control_ok_def)
    with True promote_agent [of ?u] show ?thesis by (auto simp: t is_human_owner_def holds_def)
  next
    case False
    with u show ?thesis by (auto simp: t holds_def drop_request_def)
  qed
  then show "hub_ok t" "is_agent (hs_control_owner t) = is_agent (hs_control_owner s)" "holds s q \<Longrightarrow> q \<noteq> p \<Longrightarrow> holds t q" by blast+
qed

text \<open>The messages by which a participant gives up its claim.\<close>

fun gives_up :: "'n client_message \<Rightarrow> bool" where
  "gives_up Release_Control = True"
| "gives_up (Grant_Control _) = True"
| "gives_up Leave_Msg = True"
| "gives_up _ = False"

lemma handle_message_facts:
  assumes ok: "hub_ok s" and r: "handle_message u f p m c s = (x, d, t)"
  shows "hub_ok t" "is_agent (hs_control_owner t) = is_agent (hs_control_owner s)"
    "holds s q \<Longrightarrow> q \<noteq> p \<or> \<not> gives_up m \<Longrightarrow> holds t q"
proof -
  have same: "hub_ok t \<and> is_agent (hs_control_owner t) = is_agent (hs_control_owner s) \<and> (holds s q \<longrightarrow> holds t q)"
    if "same_control s t"
    using same_control_ok [OF that] same_control_holds [OF that, of q] ok that by (simp add: same_control_def)
  have "hub_ok t \<and> is_agent (hs_control_owner t) = is_agent (hs_control_owner s)
    \<and> (holds s q \<longrightarrow> q \<noteq> p \<or> \<not> gives_up m \<longrightarrow> holds t q)"
  proof (cases m)
    case (Heartbeat_Msg page)
    then have "t = s \<or> (\<exists>g. t = update_participant p (set_page g) s)"
      using r by (auto simp: handle_message_def split: sum.splits)
    moreover have "same_control s (update_participant p (set_page g) s)" for g
      by (rule update_same_control) (simp add: set_page_def)
    ultimately show ?thesis using same by auto
  next
    case (Cursor_Msg page a b)
    have "same_control s (snd (move_cursor p g k s))" for g k
    proof -
      let ?v = "update_participant p (\<lambda>pt. pt\<lparr>pt_page_id := Some g, pt_cursor := Some k\<rparr>) s"
      have "same_control s ?v" by (rule update_same_control) simp
      then show ?thesis by (simp add: move_cursor_def Let_def same_control_def)
    qed
    moreover have "t = s \<or> (\<exists>g k. t = snd (move_cursor p g k s))"
      using arg_cong [where f = "\<lambda>z. snd (snd z)", OF r] Cursor_Msg
      by (auto simp: handle_message_def case_prod_beta split: sum.splits)
    ultimately show ?thesis using same by auto
  next
    case Request_Control
    then obtain y where "request_control p c s = (y, t)"
      using r by (cases "request_control p c s") (auto simp: handle_message_def split: sum.splits)
    from request_control_facts [OF ok this] show ?thesis by blast
  next
    case Take_Control
    then obtain y where "take_control p c s = (y, t)"
      using r by (cases "take_control p c s") (auto simp: handle_message_def split: sum.splits)
    from take_control_facts [OF ok this] show ?thesis by blast
  next
    case Release_Control
    then obtain y where "release_control p c s = (y, t)"
      using r by (cases "release_control p c s") (auto simp: handle_message_def)
    from release_control_facts [OF ok this] Release_Control show ?thesis by auto
  next
    case (Grant_Control g)
    then obtain y where "grant_control u p g c s = (y, t)"
      using r by (cases "grant_control u p g c s") (auto simp: handle_message_def split: sum.splits)
    from grant_control_facts [OF ok this] Grant_Control show ?thesis by auto
  next
    case Leave_Msg
    then have t: "t = snd (remove_participant p s)"
      using r by (cases "remove_participant p s") (auto simp: handle_message_def)
    show ?thesis
      using remove_participant_ok [OF ok] remove_participant_agent [OF ok] remove_participant_holds [of s q p] Leave_Msg
      by (auto simp: t)
  qed (use r ok in \<open>auto simp: handle_message_def\<close>)
  then show "hub_ok t" "is_agent (hs_control_owner t) = is_agent (hs_control_owner s)"
    "holds s q \<Longrightarrow> q \<noteq> p \<or> \<not> gives_up m \<Longrightarrow> holds t q" by blast+
qed

end
