(* ===== verification/Collab_Safety.thy ===== *)
theory Collab_Safety
  imports Collab_Laws
begin

text \<open>
  The hub in operation. An event is one operation under the lock; a state of the server is the hub
  together with what the agent's marker last said (a ghost, which no operation reads). The properties
  hold in every state that any sequence of events leads to, so for any interleaving of the sockets.
\<close>

section \<open>Events\<close>

datatype 'n hub_event =
    Ev_Refresh bool reading
  | Ev_Join reading uuid origin_claims string "string option"
  | Ev_Message reading string uuid "'n client_message"
  | Ev_Admit instant string uuid
  | Ev_Flush
  | Ev_Disconnect string uuid
  | Ev_Expire reading \<comment> \<open>polling, a check of input, or a look at who is present\<close>
  | Ev_Outbound collab_socket
  | Ev_Pixels reading origin_claims
  | Ev_Inputs reading origin_claims
  | Ev_Drop_Pixels string
  | Ev_Drop_Inputs string

type_synonym hub_system = "hub \<times> marker_observation option"

definition refresh_due :: "bool \<Rightarrow> reading \<Rightarrow> hub \<Rightarrow> bool" where
  "refresh_due force rd h \<longleftrightarrow>
     force \<or> \<not> (case hb_last_checked h of
                  None \<Rightarrow> False
                | Some last_checked \<Rightarrow> duration_since (rd_checked rd) last_checked < agent_control_refresh_min_interval)"

fun run_event :: "'n collab_env \<Rightarrow> 'n hub_event \<Rightarrow> hub_system \<Rightarrow> hub_system" where
  "run_event e (Ev_Refresh force rd) (h, seen) =
     (refresh_agent_control force rd h, if refresh_due force rd h then Some (rd_marker rd) else seen)"
| "run_event e (Ev_Join rd c claims session page) (h, seen) = (snd (join_locked (ce_uuid_v5 e) rd c claims session page h), seen)"
| "run_event e (Ev_Message rd p c m) (h, seen) = (snd (apply_locked (ce_is_uuid e) (ce_as_f64 e) rd p c m h), seen)"
| "run_event e (Ev_Admit now p c) (h, seen) = (snd (admit_control_action now p c h), seen)"
| "run_event e Ev_Flush (h, seen) = (flush_cursor_updates h, seen)"
| "run_event e (Ev_Disconnect p c) (h, seen) = (disconnect_hub p c h, seen)"
| "run_event e (Ev_Expire rd) (h, seen) = (h\<lparr>hb_state := publish_if (expire_stale rd (hb_state h))\<rparr>, seen)"
| "run_event e (Ev_Outbound k) (h, seen) = (snd (collab_outbound k h), seen)"
| "run_event e (Ev_Pixels rd claims) (h, seen) = (snd (admit_pixel_stream (ce_uuid_v5 e) rd claims h), seen)"
| "run_event e (Ev_Inputs rd claims) (h, seen) = (snd (admit_input_stream (ce_uuid_v5 e) rd claims h), seen)"
| "run_event e (Ev_Drop_Pixels p) (h, seen) = (h\<lparr>hb_pixels := drop_admission p (hb_pixels h)\<rparr>, seen)"
| "run_event e (Ev_Drop_Inputs p) (h, seen) = (h\<lparr>hb_inputs := drop_admission p (hb_inputs h)\<rparr>, seen)"

definition reachable_hub :: "'n collab_env \<Rightarrow> hub_system \<Rightarrow> bool" where
  "reachable_hub e x \<longleftrightarrow> (\<exists>evs. x = fold (run_event e) evs (new_hub, None))"

lemma reachable_hub_fold: "reachable_hub e x \<Longrightarrow> reachable_hub e (fold (run_event e) evs x)"
proof -
  assume "reachable_hub e x"
  then obtain es where "x = fold (run_event e) es (new_hub, None)" by (auto simp: reachable_hub_def)
  then have "fold (run_event e) evs x = fold (run_event e) (es @ evs) (new_hub, None)" by simp
  then show ?thesis unfolding reachable_hub_def by blast
qed

section \<open>The marker\<close>

lemma agent_not_human [simp]: "agent_of m \<noteq> Human p" "marker_unavailable_agent \<noteq> Human p"
  by (simp_all add: agent_of_def marker_unavailable_agent_def)

lemma sync_facts:
  assumes ok: "hub_ok s" and r: "sync_agent_control m s = (c, t)"
  shows "hub_ok t" "is_agent (hs_control_owner t) \<longleftrightarrow> m \<noteq> Marker_Inactive" "holds s q \<Longrightarrow> holds t q"
proof -
  have "hub_ok t \<and> (is_agent (hs_control_owner t) \<longleftrightarrow> m \<noteq> Marker_Inactive) \<and> (holds s q \<longrightarrow> holds t q)"
  proof (cases m)
    case (Marker_Active a)
    then have "t = (case hs_control_owner s of Some (Human p) \<Rightarrow> s\<lparr>hs_suspended := Some p, hs_control_owner := Some (agent_of a)\<rparr>
        | _ \<Rightarrow> s\<lparr>hs_control_owner := Some (agent_of a)\<rparr>)"
      using r by (auto simp: sync_agent_control_def split: option.splits control_owner.splits)
    with Marker_Active ok show ?thesis
      by (auto simp: hub_ok_def control_ok_def holds_def is_agent_iff [of "Some (Human _)"] split: option.splits control_owner.splits)
  next
    case Marker_Inactive
    show ?thesis
    proof (cases "is_agent (hs_control_owner s)")
      case False
      with Marker_Inactive r ok show ?thesis by (simp add: sync_agent_control_def)
    next
      case True
      show ?thesis
      proof (cases "hs_suspended s")
        case None
        then have t: "t = promote_next_request ((s\<lparr>hs_suspended := None\<rparr>)\<lparr>hs_control_owner := None\<rparr>)"
          using True Marker_Inactive r by (simp add: sync_agent_control_def Let_def)
        have "hub_ok t" unfolding t using ok by (intro promote_ok) (auto simp: hub_ok_def control_ok_def)
        moreover have "\<not> is_agent (hs_control_owner t)" unfolding t using promote_agent [of "s\<lparr>hs_suspended := None\<rparr>"] by blast
        moreover have "\<not> holds s q" using True None by (auto simp: holds_def)
        ultimately show ?thesis using Marker_Inactive by blast
      next
        case (Some p)
        then have "may_control s p" using ok by (auto simp: hub_ok_def control_ok_def)
        with Some True Marker_Inactive r have t: "t = s\<lparr>hs_suspended := None, hs_control_owner := Some (Human p)\<rparr>"
          by (simp add: sync_agent_control_def Let_def)
        with ok \<open>may_control s p\<close> Some Marker_Inactive True show ?thesis
          by (auto simp: hub_ok_def control_ok_def holds_def)
      qed
    qed
  next
    case (Marker_Unavailable why)
    then have "t = (if is_agent (hs_control_owner s) then s
        else (case hs_control_owner s of Some (Human p) \<Rightarrow> s\<lparr>hs_suspended := Some p\<rparr> | _ \<Rightarrow> s)\<lparr>hs_control_owner := Some marker_unavailable_agent\<rparr>)"
      using r by (auto simp: sync_agent_control_def Let_def split: if_splits)
    with Marker_Unavailable ok show ?thesis
      by (auto simp: hub_ok_def control_ok_def holds_def split: option.splits control_owner.splits if_splits)
  qed
  then show "hub_ok t" "is_agent (hs_control_owner t) \<longleftrightarrow> m \<noteq> Marker_Inactive" "holds s q \<Longrightarrow> holds t q" by blast+
qed

section \<open>Streams\<close>

definition admissions_ok :: "nat \<Rightarrow> nat \<Rightarrow> admissions \<Rightarrow> bool" where
  "admissions_ok max_total max_each a \<longleftrightarrow>
     distinct (map fst (ad_by_participant a)) \<and> ad_total a = sum_list (map snd (ad_by_participant a))
     \<and> ad_total a \<le> max_total \<and> (\<forall>(p, n)\<in>set (ad_by_participant a). 0 < n \<and> n \<le> max_each)"

lemma sum_update:
  "distinct (map fst m) \<Longrightarrow>
     sum_list (map snd (AList.update p n m)) + (case map_of m p of None \<Rightarrow> 0 | Some k \<Rightarrow> k) = sum_list (map snd m) + (n :: nat)"
  by (induction m) (auto split: option.splits simp: map_of_eq_None_iff dest: map_of_SomeD intro: rev_image_eqI)

lemma sum_delete:
  "distinct (map fst m) \<Longrightarrow>
     sum_list (map snd (AList.delete p m)) + (case map_of m p of None \<Rightarrow> 0 | Some k \<Rightarrow> k) = (sum_list (map snd m) :: nat)"
proof (induction m)
  case (Cons x m)
  then show ?case by (cases "fst x = p") (auto split: option.splits simp: map_of_eq_None_iff dest: map_of_SomeD)
qed simp

lemma admit_stream_ok:
  assumes "admissions_ok t n a" "admit_stream sc rq fu fe t n v rd claims a = (r, b)"
  shows "admissions_ok t n b"
proof -
  have "b = a \<or> (\<exists>p. let count = (case map_of (ad_by_participant a) p of None \<Rightarrow> 0 | Some k \<Rightarrow> k)
      in ad_total a < t \<and> count < n
         \<and> b = \<lparr>ad_total = ad_total a + 1, ad_by_participant = AList.update p (count + 1) (ad_by_participant a)\<rparr>)"
  proof (cases "validated_claim_expiry rd claims"; cases "validated_claim_session_id claims")
    fix x cs assume c: "validated_claim_expiry rd claims = Inr x" "validated_claim_session_id claims = Inr cs"
    show ?thesis
    proof (cases "participant_id_for_claims v claims cs")
      case (Inr p)
      let ?count = "case map_of (ad_by_participant a) p of None \<Rightarrow> 0 | Some k \<Rightarrow> k"
      show ?thesis
      proof (cases "claims_have_scope sc claims \<and> ad_total a < t \<and> ?count < n")
        case True
        with Inr c assms(2) have "b = \<lparr>ad_total = ad_total a + 1, ad_by_participant = AList.update p (?count + 1) (ad_by_participant a)\<rparr>"
          by (simp add: admit_stream_def Let_def)
        with True show ?thesis by (intro disjI2 exI [of _ p]) (simp add: Let_def)
      next
        case False
        with Inr c assms(2) show ?thesis
          by (intro disjI1) (auto simp: admit_stream_def Let_def not_less split: if_split_asm)
      qed
    qed (use c assms(2) in \<open>auto simp: admit_stream_def split: if_split_asm\<close>)
  qed (use assms(2) in \<open>auto simp: admit_stream_def split: if_split_asm\<close>)
  then show ?thesis
  proof
    assume "\<exists>p. let count = (case map_of (ad_by_participant a) p of None \<Rightarrow> 0 | Some k \<Rightarrow> k)
      in ad_total a < t \<and> count < n
         \<and> b = \<lparr>ad_total = ad_total a + 1, ad_by_participant = AList.update p (count + 1) (ad_by_participant a)\<rparr>"
    then obtain p where b: "let count = (case map_of (ad_by_participant a) p of None \<Rightarrow> 0 | Some k \<Rightarrow> k)
      in ad_total a < t \<and> count < n
         \<and> b = \<lparr>ad_total = ad_total a + 1, ad_by_participant = AList.update p (count + 1) (ad_by_participant a)\<rparr>" by blast
    let ?c = "case map_of (ad_by_participant a) p of None \<Rightarrow> 0 | Some k \<Rightarrow> k"
    have "set (AList.update p (?c + 1) (ad_by_participant a)) \<subseteq> insert (p, ?c + 1) (set (ad_by_participant a))"
      by (rule set_AList_update_subset)
    with assms(1) b sum_update [of "ad_by_participant a" p "?c + 1"] show ?thesis
      by (fastforce simp: admissions_ok_def Let_def distinct_update)
  qed (use assms(1) in simp)
qed

lemma drop_admission_ok: "admissions_ok t n a \<Longrightarrow> admissions_ok t n (drop_admission p a)"
proof (cases "map_of (ad_by_participant a) p")
  case (Some c)
  assume ok: "admissions_ok t n a"
  then have c: "0 < c" "c \<le> n" using map_of_SomeD [OF Some] by (auto simp: admissions_ok_def)
  have d: "distinct (map fst (ad_by_participant a))" using ok by (simp add: admissions_ok_def)
  show ?thesis
  proof (cases "1 < c")
    case True
    have "set (AList.update p (c - 1) (ad_by_participant a)) \<subseteq> insert (p, c - 1) (set (ad_by_participant a))"
      by (rule set_AList_update_subset)
    with ok True c Some sum_update [OF d, of p "c - 1"] show ?thesis
      by (fastforce simp: drop_admission_def admissions_ok_def distinct_update)
  next
    case False
    with ok c Some sum_delete [OF d, of p] show ?thesis
      by (auto simp: drop_admission_def admissions_ok_def distinct_delete in_set_AList_delete)
  qed
qed (simp add: drop_admission_def)

section \<open>Every event\<close>

definition system_ok :: "hub_system \<Rightarrow> bool" where
  "system_ok x \<longleftrightarrow>
     hub_ok (hb_state (fst x))
     \<and> (is_agent (hs_control_owner (hb_state (fst x))) \<longleftrightarrow> snd x \<noteq> None \<and> snd x \<noteq> Some Marker_Inactive)
     \<and> admissions_ok max_pixel_streams_total max_pixel_streams_per_participant (hb_pixels (fst x))
     \<and> admissions_ok max_input_streams_total max_input_streams_per_participant (hb_inputs (fst x))"

text \<open>The events by which a participant gives up its claim, or loses it: because its token ended, because
  it gave no sign of life for ten seconds, or because its new token does not let it control the browser.\<close>

definition run_out :: "reading \<Rightarrow> string \<Rightarrow> hub_state \<Rightarrow> bool" where
  "run_out rd p s \<longleftrightarrow>
     (case hub_participant s p of
        None \<Rightarrow> False
      | Some pt \<Rightarrow> pt_expires_at pt \<le> int (rd_unix rd div 10 ^ 9) \<or> pt_last_seen pt + 10 * 10 ^ 9 \<le> rd_now rd)"

lemma stale_iff: "stale rd pt \<longleftrightarrow> pt_expires_at pt \<le> int (rd_unix rd div 10 ^ 9) \<or> pt_last_seen pt + 10 * 10 ^ 9 \<le> rd_now rd"
  by (auto simp: stale_def unix_time_seconds_def participant_grace_def rust_simps)

lemma is_stale_run_out: "is_stale rd p s = run_out rd p s"
  by (simp add: is_stale_def run_out_def stale_iff split: option.split)


definition own_id :: "'n collab_env \<Rightarrow> origin_claims \<Rightarrow> string \<Rightarrow> bool" where
  "own_id e claims p \<longleftrightarrow>
     (case validated_claim_session_id claims of
        Inl _ \<Rightarrow> False | Inr session \<Rightarrow> participant_id_for_claims (ce_uuid_v5 e) claims session = Inr p)"

fun yields :: "'n collab_env \<Rightarrow> string \<Rightarrow> 'n hub_event \<Rightarrow> hub \<Rightarrow> bool" where
  "yields e p (Ev_Join rd c claims session page) h \<longleftrightarrow>
     run_out rd p (hb_state h) \<or> \<not> claims_have_scope ''browser.control'' claims \<and> own_id e claims p"
| "yields e p (Ev_Message rd q c m) h \<longleftrightarrow> run_out rd p (hb_state h) \<or> q = p \<and> gives_up m"
| "yields e p (Ev_Expire rd) h \<longleftrightarrow> run_out rd p (hb_state h)"
| "yields e p _ h \<longleftrightarrow> False"

lemma same_control_facts:
  assumes "same_control s t" "hub_ok s"
  shows "hub_ok t" "is_agent (hs_control_owner t) = is_agent (hs_control_owner s)" "holds s q \<Longrightarrow> holds t q"
  using same_control_ok [OF assms(1)] same_control_holds [OF assms(1), of q] assms by (simp_all add: same_control_def)

lemma publish_expired_facts:
  assumes "hub_ok s"
  shows "hub_ok (publish_if (expire_stale rd s))"
    "is_agent (hs_control_owner (publish_if (expire_stale rd s))) = is_agent (hs_control_owner s)"
    "holds s q \<Longrightarrow> \<not> run_out rd q s \<Longrightarrow> holds (publish_if (expire_stale rd s)) q"
proof -
  obtain c t where t: "expire_stale rd s = (c, t)" by (cases "expire_stale rd s")
  note f = expire_stale_facts [OF assms t] and g = same_control_facts [OF publish_if_same [where s = t and c = c]]
  show "hub_ok (publish_if (expire_stale rd s))"
    "is_agent (hs_control_owner (publish_if (expire_stale rd s))) = is_agent (hs_control_owner s)"
    "holds s q \<Longrightarrow> \<not> run_out rd q s \<Longrightarrow> holds (publish_if (expire_stale rd s)) q"
    using f g by (simp_all add: t is_stale_run_out)
qed

lemma join_locked_facts:
  assumes ok: "hub_ok (hb_state h)" and j: "join_locked (ce_uuid_v5 e) rd c claims session page h = (r, h')"
  shows "hub_ok (hb_state h')" "is_agent (hs_control_owner (hb_state h')) = is_agent (hs_control_owner (hb_state h))"
    "holds (hb_state h) q \<Longrightarrow> \<not> yields e q (Ev_Join rd c claims session page) h \<Longrightarrow> holds (hb_state h') q"
    "hb_pixels h' = hb_pixels h \<and> hb_inputs h' = hb_inputs h"
proof -
  let ?s = "publish_if (expire_stale rd (hb_state h))" and ?can = "claims_have_scope ''browser.control'' claims"
  have "h' = h \<or> h' = h\<lparr>hb_state := ?s\<rparr> \<or> (\<exists>p cs pg x u. validated_claim_session_id claims = Inr cs
      \<and> participant_id_for_claims (ce_uuid_v5 e) claims cs = Inr p
      \<and> join_participant p claims cs pg ?can x (rd_now rd) c ?s = Inr u
      \<and> h' = h\<lparr>hb_state := hub_publish (join_control p ?can u)\<rparr>)"
  proof (cases "validated_claim_expiry rd claims"; cases "validated_claim_session_id claims"; cases "validate_session_id session")
    fix x cs vs assume v: "validated_claim_expiry rd claims = Inr x" "validated_claim_session_id claims = Inr cs" "validate_session_id session = Inr vs"
    show ?thesis
    proof (cases "cs \<noteq> vs \<or> \<not> claims_have_scope ''browser.view'' claims")
      case True
      with v j show ?thesis by (auto simp: join_locked_def split: if_split_asm)
    next
      case False
      show ?thesis
      proof (cases "validate_optional_page_id page"; cases "participant_id_for_claims (ce_uuid_v5 e) claims cs")
        fix pg p assume w: "validate_optional_page_id page = Inr pg" "participant_id_for_claims (ce_uuid_v5 e) claims cs = Inr p"
        show ?thesis
        proof (cases "join_participant p claims cs pg ?can x (rd_now rd) c ?s")
          case (Inl err)
          with v w False j show ?thesis by (simp add: join_locked_def Let_def)
        next
          case (Inr u)
          with v w False j have "h' = h\<lparr>hb_state := hub_publish (join_control p ?can u)\<rparr>"
            by (simp add: join_locked_def Let_def)
          with v w Inr show ?thesis by blast
        qed
      qed (use v False j in \<open>simp_all add: join_locked_def\<close>)
    qed
  qed (use j in \<open>simp_all add: join_locked_def\<close>)
  then consider "h' = h" | "h' = h\<lparr>hb_state := ?s\<rparr>"
    | p cs pg x u where "validated_claim_session_id claims = Inr cs" "participant_id_for_claims (ce_uuid_v5 e) claims cs = Inr p"
        "join_participant p claims cs pg ?can x (rd_now rd) c ?s = Inr u"
        "h' = h\<lparr>hb_state := hub_publish (join_control p ?can u)\<rparr>"
    by (elim disjE exE conjE)
  then have "hub_ok (hb_state h') \<and> is_agent (hs_control_owner (hb_state h')) = is_agent (hs_control_owner (hb_state h))
    \<and> (holds (hb_state h) q \<longrightarrow> \<not> yields e q (Ev_Join rd c claims session page) h \<longrightarrow> holds (hb_state h') q)
    \<and> hb_pixels h' = hb_pixels h \<and> hb_inputs h' = hb_inputs h"
  proof cases
    case 1
    with ok show ?thesis by simp
  next
    case 2
    with publish_expired_facts [OF ok, where rd = rd] publish_expired_facts(3) [OF ok, where q = q and rd = rd] show ?thesis by simp
  next
    case (3 p cs pg x u)
    note s = publish_expired_facts [OF ok, where rd = rd]
    note u = join_participant_facts [OF s(1) 3(3)]
    have jc: "hub_ok (join_control p ?can u)" "is_agent (hs_control_owner (join_control p ?can u)) = is_agent (hs_control_owner ?s)"
      "holds ?s q \<Longrightarrow> q \<noteq> p \<or> ?can \<Longrightarrow> holds (join_control p ?can u) q"
      using join_control_may [OF s(1) u(1-5)] join_control_may_not [OF s(1) u(1-5)] u(6) by (cases ?can; simp)+
    note f = same_control_facts [OF hub_publish_same jc(1)]
    have own: "own_id e claims p" using 3(1,2) by (simp add: own_id_def)
    show ?thesis
    proof (intro conjI impI)
      assume h: "holds (hb_state h) q" "\<not> yields e q (Ev_Join rd c claims session page) h"
      then have "holds ?s q" using publish_expired_facts(3) [OF ok] by simp
      moreover have "q \<noteq> p \<or> ?can" using h(2) own by auto
      ultimately show "holds (hb_state h') q" using jc(3) f(3) 3(4) by simp
    qed (use f jc s 3(4) in simp_all)
  qed
  then show "hub_ok (hb_state h')" "is_agent (hs_control_owner (hb_state h')) = is_agent (hs_control_owner (hb_state h))"
    "holds (hb_state h) q \<Longrightarrow> \<not> yields e q (Ev_Join rd c claims session page) h \<Longrightarrow> holds (hb_state h') q"
    "hb_pixels h' = hb_pixels h \<and> hb_inputs h' = hb_inputs h" by blast+
qed

lemma apply_locked_facts:
  assumes ok: "hub_ok (hb_state h)" and a: "apply_locked u f rd p c m h = (r, h')"
  shows "hub_ok (hb_state h')" "is_agent (hs_control_owner (hb_state h')) = is_agent (hs_control_owner (hb_state h))"
    "holds (hb_state h) q \<Longrightarrow> \<not> yields e q (Ev_Message rd p c m) h \<Longrightarrow> holds (hb_state h') q"
    "hb_pixels h' = hb_pixels h \<and> hb_inputs h' = hb_inputs h"
proof -
  obtain x s where s: "expire_stale rd (hb_state h) = (x, s)" by (cases "expire_stale rd (hb_state h)")
  let ?v = "update_participant p (pt_last_seen_update (\<lambda>_. rd_now rd)) s"
  obtain r2 d t where t: "handle_message u f p m x ?v = (r2, d, t)" by (cases "handle_message u f p m x ?v")
  note es = expire_stale_facts [OF ok s, unfolded is_stale_run_out]
  have sv: "same_control s ?v" by (rule update_same_control) simp
  note v = same_control_facts [OF sv es(1)]
  note hm = handle_message_facts [OF v(1) t]
  have "h' = h\<lparr>hb_state := publish_if (x, s)\<rparr> \<or> h' = h\<lparr>hb_state := publish_if (d, t)\<rparr>"
    using arg_cong [where f = snd, OF a] by (auto simp: apply_locked_def s t split: option.splits if_split_asm)
  then have "hub_ok (hb_state h') \<and> is_agent (hs_control_owner (hb_state h')) = is_agent (hs_control_owner (hb_state h))
    \<and> (holds (hb_state h) q \<longrightarrow> \<not> yields e q (Ev_Message rd p c m) h \<longrightarrow> holds (hb_state h') q)
    \<and> hb_pixels h' = hb_pixels h \<and> hb_inputs h' = hb_inputs h"
  proof
    assume "h' = h\<lparr>hb_state := publish_if (x, s)\<rparr>"
    with same_control_facts [OF publish_if_same [where s = s and c = x] es(1)] es es(3) [of q]
    show ?thesis by auto
  next
    assume "h' = h\<lparr>hb_state := publish_if (d, t)\<rparr>"
    with same_control_facts [OF publish_if_same [where s = t and c = d] hm(1)]
      hm(2) hm(3) [of q] v(2) v(3) [of q] es(2) es(3) [of q]
    show ?thesis by auto
  qed
  then show "hub_ok (hb_state h')" "is_agent (hs_control_owner (hb_state h')) = is_agent (hs_control_owner (hb_state h))"
    "holds (hb_state h) q \<Longrightarrow> \<not> yields e q (Ev_Message rd p c m) h \<Longrightarrow> holds (hb_state h') q"
    "hb_pixels h' = hb_pixels h \<and> hb_inputs h' = hb_inputs h" by blast+
qed

lemma refresh_facts:
  assumes "system_ok (h, seen)"
  shows "system_ok (run_event e (Ev_Refresh force rd) (h, seen))"
    "holds (hb_state h) q \<Longrightarrow> holds (hb_state (fst (run_event e (Ev_Refresh force rd) (h, seen)))) q"
proof -
  obtain c t where t: "sync_agent_control (rd_marker rd) (hb_state h) = (c, t)"
    by (cases "sync_agent_control (rd_marker rd) (hb_state h)")
  have ok: "hub_ok (hb_state h)" using assms by (simp add: system_ok_def)
  note s = sync_facts [OF ok t] and p = same_control_facts [OF publish_if_same [where s = t and c = c]]
  have r: "refresh_agent_control force rd h = (if refresh_due force rd h
      then h\<lparr>hb_last_checked := Some (rd_checked rd), hb_state := publish_if (c, t)\<rparr> else h)"
    unfolding refresh_agent_control_def refresh_due_def t by (cases force) simp_all
  show "system_ok (run_event e (Ev_Refresh force rd) (h, seen))"
    using assms s p by (simp add: system_ok_def r)
  show "holds (hb_state h) q \<Longrightarrow> holds (hb_state (fst (run_event e (Ev_Refresh force rd) (h, seen)))) q"
    using s p by (simp add: r)
qed

lemma same_control_event:
  assumes "system_ok (h, seen)" "same_control (hb_state h) (hb_state h')" "hb_pixels h' = hb_pixels h" "hb_inputs h' = hb_inputs h"
  shows "system_ok (h', seen)" "holds (hb_state h) q \<Longrightarrow> holds (hb_state h') q"
  using assms same_control_facts [OF assms(2)] by (simp_all add: system_ok_def)

lemma connection_update_same:
  "same_control (hb_state h) (hb_state (disconnect_hub p c h))"
  "same_control (hb_state h) (hb_state (flush_cursor_updates h))"
  "same_control (hb_state h) (hb_state (snd (admit_control_action now p c h)))"
  "same_control (hb_state h) (hb_state (snd (collab_outbound k h)))"
proof -
  show "same_control (hb_state h) (hb_state (disconnect_hub p c h))"
    unfolding disconnect_hub_def by (simp, rule update_same_control) simp
  show "same_control (hb_state h) (hb_state (flush_cursor_updates h))"
  proof -
    let ?s = "(hb_state h)\<lparr>hs_cursor_scheduled := False\<rparr>"
    have "same_control (hb_state h) ?s" by (simp add: same_control_def)
    with hub_publish_same [of ?s] show ?thesis
      by (auto simp: flush_cursor_updates_def Let_def intro: same_control_trans)
  qed
  have u: "same_control s (update_participant p (pt_rate_limit_update g) s)"
    "same_control s (update_participant p (pt_sender_update k) s)" for s p g k
    by (rule update_same_control, simp)+
  show "same_control (hb_state h) (hb_state (snd (admit_control_action now p c h)))"
    by (auto simp: admit_control_action_def u split: option.split prod.split)
  show "same_control (hb_state h) (hb_state (snd (collab_outbound k h)))"
    by (auto simp: collab_outbound_def u split: option.split list.split)
qed

lemma other_fields:
  "hb_pixels (disconnect_hub p c h) = hb_pixels h" "hb_inputs (disconnect_hub p c h) = hb_inputs h"
  "hb_pixels (flush_cursor_updates h) = hb_pixels h" "hb_inputs (flush_cursor_updates h) = hb_inputs h"
  "hb_pixels (snd (admit_control_action now p c h)) = hb_pixels h" "hb_inputs (snd (admit_control_action now p c h)) = hb_inputs h"
  "hb_pixels (snd (collab_outbound k h)) = hb_pixels h" "hb_inputs (snd (collab_outbound k h)) = hb_inputs h"
  by (simp_all add: disconnect_hub_def flush_cursor_updates_def admit_control_action_def collab_outbound_def Let_def
      split: option.split prod.split list.split)

lemma run_event_facts:
  assumes ok: "system_ok x"
  shows "system_ok (run_event e ev x)
    \<and> (holds (hb_state (fst x)) q \<longrightarrow> \<not> yields e q ev (fst x) \<longrightarrow> holds (hb_state (fst (run_event e ev x))) q)"
proof -
  obtain h seen where x: "x = (h, seen)" by (cases x)
  have h: "hub_ok (hb_state h)" using ok by (simp add: x system_ok_def)
  show ?thesis
  proof (cases ev)
    case (Ev_Refresh force rd)
    then show ?thesis using refresh_facts(1) [OF ok [unfolded x], where e = e and force = force and rd = rd]
        refresh_facts(2) [OF ok [unfolded x], where e = e and force = force and rd = rd and q = q]
      by (simp add: x)
  next
    case (Ev_Join rd c claims session page)
    obtain r h' where j: "join_locked (ce_uuid_v5 e) rd c claims session page h = (r, h')"
      by (cases "join_locked (ce_uuid_v5 e) rd c claims session page h")
    note f = join_locked_facts [OF h j]
    show ?thesis using ok f(1,2,4) f(3) [of q] by (simp add: x Ev_Join j system_ok_def)
  next
    case (Ev_Message rd p c m)
    obtain r h' where j: "apply_locked (ce_is_uuid e) (ce_as_f64 e) rd p c m h = (r, h')"
      by (cases "apply_locked (ce_is_uuid e) (ce_as_f64 e) rd p c m h")
    note f = apply_locked_facts [OF h j]
    show ?thesis using ok f(1,2,4) f(3) [where q = q and e = e] by (simp add: x Ev_Message j system_ok_def)
  next
    case (Ev_Admit now p c)
    then show ?thesis using same_control_event [OF ok [unfolded x] connection_update_same(3) [of h now p c] other_fields(5,6)]
      by (simp add: x)
  next
    case Ev_Flush
    then show ?thesis using same_control_event [OF ok [unfolded x] connection_update_same(2) other_fields(3,4)]
      by (simp add: x)
  next
    case (Ev_Disconnect p c)
    then show ?thesis using same_control_event [OF ok [unfolded x] connection_update_same(1) [of h p c] other_fields(1,2)]
      by (simp add: x)
  next
    case (Ev_Expire rd)
    then show ?thesis
      using ok publish_expired_facts(1,2) [OF h, where rd = rd] publish_expired_facts(3) [OF h, where rd = rd and q = q]
      by (simp add: x system_ok_def)
  next
    case (Ev_Outbound k)
    then show ?thesis using same_control_event [OF ok [unfolded x] connection_update_same(4) [of h k] other_fields(7,8)]
      by (simp add: x)
  next
    case (Ev_Pixels rd claims)
    obtain r b where "admit_stream ''browser.view'' ''browser.view is required for Shared Browser pixels''
             ''Shared Browser pixel stream capacity is full'' ''Shared Browser participant pixel stream capacity is full''
             max_pixel_streams_total max_pixel_streams_per_participant (ce_uuid_v5 e) rd claims (hb_pixels h) = (r, b)"
      by fastforce
    with admit_stream_ok [OF _ this] ok show ?thesis
      by (simp add: x Ev_Pixels admit_pixel_stream_def system_ok_def)
  next
    case (Ev_Inputs rd claims)
    obtain r b where "admit_stream ''browser.control'' ''browser.control is required for Shared Browser input''
             ''Shared Browser input stream capacity is full'' ''Shared Browser participant input stream capacity is full''
             max_input_streams_total max_input_streams_per_participant (ce_uuid_v5 e) rd claims (hb_inputs h) = (r, b)"
      by fastforce
    with admit_stream_ok [OF _ this] ok show ?thesis
      by (simp add: x Ev_Inputs admit_input_stream_def system_ok_def)
  next
    case (Ev_Drop_Pixels p)
    then show ?thesis using ok drop_admission_ok by (simp add: x system_ok_def)
  next
    case (Ev_Drop_Inputs p)
    then show ?thesis using ok drop_admission_ok by (simp add: x system_ok_def)
  qed
qed

lemma new_hub_ok: "system_ok (new_hub, None)"
  by (simp add: system_ok_def new_hub_def empty_hub_state_def hub_ok_def participants_ok_def control_ok_def
      admissions_ok_def)

lemma reachable_hub_ok: "reachable_hub e x \<Longrightarrow> system_ok x"
proof -
  have "system_ok y \<Longrightarrow> system_ok (fold (run_event e) evs y)" for evs and y :: hub_system
    by (induction evs arbitrary: y) (simp_all add: run_event_facts)
  then show "reachable_hub e x \<Longrightarrow> system_ok x" using new_hub_ok by (auto simp: reachable_hub_def)
qed

text \<open>No event of the run makes the participant yield, in the state it happens in.\<close>

fun never_yields :: "'n collab_env \<Rightarrow> string \<Rightarrow> 'n hub_event list \<Rightarrow> hub_system \<Rightarrow> bool" where
  "never_yields e p [] x = True"
| "never_yields e p (ev # evs) x \<longleftrightarrow> \<not> yields e p ev (fst x) \<and> never_yields e p evs (run_event e ev x)"

lemma never_yields_holds:
  "system_ok x \<Longrightarrow> holds (hb_state (fst x)) p \<Longrightarrow> never_yields e p evs x \<Longrightarrow>
     holds (hb_state (fst (fold (run_event e) evs x))) p"
  by (induction evs arbitrary: x) (simp_all add: run_event_facts)

section \<open>Who is left after an expiry\<close>

lemma remove_participant_keeps:
  "hub_participant (snd (remove_participant p s)) q = (if q = p then None else hub_participant s q)"
proof (cases "hub_participant s p = None")
  case True
  then show ?thesis by (simp add: remove_participant_missing)
next
  case False
  have "hs_participants (promote_next_request t) = hs_participants t" for t
    by (simp add: promote_next_request_def)
  with False show ?thesis
    by (simp add: remove_participant_alt hub_participant_def map_of_delete)
qed

lemma remove_all_keeps: "hub_participant (snd (remove_all ps s)) q = (if q \<in> set ps then None else hub_participant s q)"
proof (induction ps s rule: remove_all.induct)
  case (2 p ps s)
  obtain c t where t: "remove_participant p s = (c, t)" by (cases "remove_participant p s")
  with 2 [OF t [symmetric]] remove_participant_keeps [of p s q] show ?case by (auto split: prod.splits)
qed simp

lemma expired_are_gone:
  assumes "hub_ok s" "hub_participant (publish_if (expire_stale rd s)) q = Some pt"
  shows "\<not> stale rd pt"
proof
  assume st: "stale rd pt"
  let ?ps = "map (\<lambda>(_, p). pt_id p) (filter (\<lambda>(_, p). stale rd p) (hs_participants s))"
  have d: "hub_participant (hub_publish t) q = map_option (deliver_to (server_state (t\<lparr>hs_cursor_dirty := False, hs_revision := min (hs_revision t + 1) (2 ^ 64 - 1)\<rparr>))) (hub_participant t q)" for t
  proof -
    have "map_of (map (\<lambda>(k, p). (k, f p)) xs) q = map_option f (map_of xs q)" for f and xs :: "(string \<times> participant) list"
      by (induction xs) auto
    then show ?thesis by (simp add: hub_publish_def Let_def hub_participant_def)
  qed
  have "hub_participant (publish_if (expire_stale rd s)) q =
      (if fst (expire_stale rd s) then hub_participant (hub_publish (snd (expire_stale rd s))) q
       else hub_participant (snd (expire_stale rd s)) q)"
    by (simp add: publish_if_def case_prod_beta)
  with assms(2) d obtain pt0 where pt0: "hub_participant (snd (expire_stale rd s)) q = Some pt0"
    "pt_expires_at pt = pt_expires_at pt0" "pt_last_seen pt = pt_last_seen pt0"
    by (auto simp: deliver_to_def split: if_splits option.splits)
  then have "hub_participant s q = Some pt0" "q \<notin> set ?ps"
    by (simp_all add: expire_stale_def remove_all_keeps split: if_splits)
  moreover from this(1) have "(q, pt0) \<in> set (hs_participants s)" by (simp add: hub_participant_def map_of_SomeD)
  moreover have "stale rd pt0" using st pt0 by (simp add: stale_def)
  moreover have "pt_id pt0 = q" using assms(1) \<open>(q, pt0) \<in> set (hs_participants s)\<close> by (auto simp: hub_ok_def participants_ok_def)
  ultimately show False by force
qed

section \<open>A check of input that passes\<close>

lemma fold_knows_marker: "snd x \<noteq> None \<Longrightarrow> snd (fold (run_event e) evs x) \<noteq> None"
proof (induction evs arbitrary: x)
  case (Cons ev evs)
  have "snd (run_event e ev x) \<noteq> None" using Cons.prems by (cases x; cases ev) auto
  from Cons.IH [OF this] show ?case by simp
qed simp

lemma assert_locked_passed:
  assumes "assert_locked uuid_v5 rd c h = (Inr (), k)"
  shows "\<exists>p pt session. validated_claim_session_id c = Inr session
      \<and> participant_id_for_claims uuid_v5 c session = Inr p
      \<and> hs_control_owner (publish_if (expire_stale rd (hb_state h))) = Some (Human p)
      \<and> hub_participant (publish_if (expire_stale rd (hb_state h))) p = Some pt
      \<and> pt_can_control pt \<and> pt_subject pt = oc_sub c \<and> pt_session_id pt = session
      \<and> hb_state k = publish_if (expire_stale rd (hb_state h))"
proof (cases "validated_claim_session_id c")
  case (Inr session)
  show ?thesis
  proof (cases "participant_id_for_claims uuid_v5 c session")
    case (Inr p)
    with \<open>validated_claim_session_id c = Inr session\<close> assms show ?thesis
      by (auto simp: assert_locked_def Let_def is_human_owner_def split: if_split_asm option.splits)
  qed (use assms Inr in \<open>auto simp: assert_locked_def split: if_split_asm\<close>)
qed (use assms in \<open>auto simp: assert_locked_def split: if_split_asm\<close>)

section \<open>Rates\<close>

text \<open>The instants a limiter accepted of those it was asked at.\<close>

fun accepted_of :: "instant list \<Rightarrow> rate_limit \<Rightarrow> instant list" where
  "accepted_of [] r = []"
| "accepted_of (t # ts) r = (case take_at t r of (ok, r) \<Rightarrow> (if ok then [t] else []) @ accepted_of ts r)"

text \<open>The log is what left the window, then what the limiter remembers.\<close>

definition log_fits :: "nat \<Rightarrow> instant list \<Rightarrow> rate_limit \<Rightarrow> bool" where
  "log_fits now past r \<longleftrightarrow>
     (\<exists>old. past = old @ rl_accepted r \<and> (\<forall>t\<in>set old. rl_window r + t \<le> now))
     \<and> sorted past \<and> (\<forall>t\<in>set past. t \<le> now) \<and> length (rl_accepted r) \<le> rl_limit r
     \<and> (\<forall>k. k + rl_limit r < length past \<longrightarrow> rl_window r + past ! k \<le> past ! (k + rl_limit r))"

lemma log_fitsI:
  assumes "past = old @ q" "\<forall>t\<in>set old. rl_window r + t \<le> now" "sorted past" "\<forall>t\<in>set past. t \<le> now"
    "length q \<le> rl_limit r" "\<And>k. k + rl_limit r < length past \<Longrightarrow> rl_window r + past ! k \<le> past ! (k + rl_limit r)"
  shows "log_fits now past (r\<lparr>rl_accepted := q\<rparr>)"
  unfolding log_fits_def using assms by (intro conjI exI [of _ old]) simp_all

lemma take_at_fits:
  assumes f: "log_fits now past r" and le: "now \<le> t" and w: "0 < rl_window r" and k: "take_at t r = (ok, r')"
  shows "log_fits t (past @ (if ok then [t] else [])) r' \<and> rl_limit r' = rl_limit r \<and> rl_window r' = rl_window r"
proof -
  let ?P = "\<lambda>u. rl_window r \<le> duration_since t u"
  let ?gone = "takeWhile ?P (rl_accepted r)" and ?left = "dropWhile ?P (rl_accepted r)"
  obtain old where old: "past = old @ rl_accepted r" "\<forall>u\<in>set old. rl_window r + u \<le> now"
    using f by (auto simp: log_fits_def)
  have past: "past = (old @ ?gone) @ ?left" using old(1) by simp
  have "\<forall>u\<in>set ?gone. rl_window r + u \<le> t"
    using w by (auto dest!: set_takeWhileD simp: duration_since_def)
  with old(2) le have gone: "\<forall>u\<in>set (old @ ?gone). rl_window r + u \<le> t" by fastforce
  have len: "length ?left \<le> rl_limit r" using f length_dropWhile_le [of ?P "rl_accepted r"] by (auto simp: log_fits_def)
  have all: "sorted past" "\<forall>u\<in>set past. u \<le> t"
    "\<forall>k. k + rl_limit r < length past \<longrightarrow> rl_window r + past ! k \<le> past ! (k + rl_limit r)"
    using f le by (auto simp: log_fits_def)
  show ?thesis
  proof (cases "rl_limit r \<le> length ?left")
    case True
    then have "ok = False" "r' = r\<lparr>rl_accepted := ?left\<rparr>" using k by (simp_all add: take_at_def)
    moreover have "log_fits t past (r\<lparr>rl_accepted := ?left\<rparr>)"
      unfolding log_fits_def using past gone all len by (intro conjI exI [of _ "old @ ?gone"]) simp_all
    ultimately show ?thesis by simp
  next
    case False
    then have r': "ok = True" "r' = r\<lparr>rl_accepted := ?left @ [t]\<rparr>" using k by (simp_all add: take_at_def)
    have "rl_window r + (past @ [t]) ! i \<le> (past @ [t]) ! (i + rl_limit r)" if "i + rl_limit r < length (past @ [t])" for i
    proof (cases "i + rl_limit r < length past")
      case True
      with all(3) show ?thesis by (simp add: nth_append)
    next
      case False
      then have i: "i + rl_limit r = length past" using that by simp
      moreover have "length past = length (old @ ?gone) + length ?left"
        using arg_cong [where f = length, OF past] by (simp only: length_append)
      ultimately have "i < length (old @ ?gone)" using \<open>\<not> rl_limit r \<le> length ?left\<close> by linarith
      then have "past ! i = (old @ ?gone) ! i" "past ! i \<in> set (old @ ?gone)"
        using arg_cong [where f = "\<lambda>xs. xs ! i", OF past] nth_mem [of i "old @ ?gone"] by (simp_all only: nth_append_left)
      with gone have "rl_window r + past ! i \<le> t" by blast
      moreover have "i < length past" using i \<open>\<not> rl_limit r \<le> length ?left\<close> by linarith
      ultimately show ?thesis using i by (simp add: nth_append)
    qed
    note spaced = this
    have srt: "sorted (past @ [t])" using all by (simp add: sorted_append)
    have "past @ [t] = (old @ ?gone) @ (?left @ [t])"
      using arg_cong [where f = "\<lambda>xs. xs @ [t]", OF past] by (simp only: append_assoc)
    moreover have "length (?left @ [t]) \<le> rl_limit r" using False by simp
    moreover have "\<forall>u\<in>set (past @ [t]). u \<le> t" using all(2) by simp
    ultimately have "log_fits t (past @ [t]) (r\<lparr>rl_accepted := ?left @ [t]\<rparr>)"
      using gone srt spaced by (intro log_fitsI)
    with r' show ?thesis by simp
  qed
qed

lemma accepted_fits:
  assumes "log_fits now past r" "sorted (now # ts)" "0 < rl_window r"
  shows "k + rl_limit r < length (past @ accepted_of ts r) \<Longrightarrow>
    rl_window r + (past @ accepted_of ts r) ! k \<le> (past @ accepted_of ts r) ! (k + rl_limit r)"
  using assms
proof (induction ts arbitrary: now past r)
  case Nil
  then show ?case by (simp add: log_fits_def)
next
  case (Cons t ts)
  obtain ok r' where t: "take_at t r = (ok, r')" by (cases "take_at t r")
  note f = take_at_fits [OF Cons.prems(2) _ Cons.prems(4) t]
  show ?case
    using Cons.IH [where past = "past @ (if ok then [t] else [])" and r = r' and now = t] f Cons.prems by (simp add: t)
qed

section \<open>Properties\<close>

text \<open>
  C7. In every state of the collaboration hub that any interleaving of joins, messages, checks, expiries
  and readings of the agent's marker leads to: at most 32 participants, each under its own id; the
  person who controls the browser is a participant who may control it, and so is the person an agent
  interrupted, of whom there is one only while the agent controls; requests are distinct and of
  participants, and nobody waits while nobody controls; the agent controls exactly while the last
  reading of its marker did not find it inactive; at most two streams of pixels and two of input are
  counted for a participant and 64 in all.
\<close>

theorem collaboration_invariant:
  assumes "reachable_hub e (h, seen)"
  shows "length (hs_participants (hb_state h)) \<le> 32
    \<and> distinct (map fst (hs_participants (hb_state h)))
    \<and> list_all (\<lambda>(k, pt). pt_id pt = k) (hs_participants (hb_state h))
    \<and> (\<forall>p. hs_control_owner (hb_state h) = Some (Human p) \<longrightarrow> may_control (hb_state h) p)
    \<and> (\<forall>p. hs_suspended (hb_state h) = Some p \<longrightarrow> may_control (hb_state h) p \<and> is_agent (hs_control_owner (hb_state h)))
    \<and> distinct (hs_requests (hb_state h))
    \<and> set (hs_requests (hb_state h)) \<subseteq> fst ` set (hs_participants (hb_state h))
    \<and> (hs_control_owner (hb_state h) = None \<longrightarrow> hs_requests (hb_state h) = [])
    \<and> (is_agent (hs_control_owner (hb_state h)) \<longleftrightarrow> seen \<noteq> None \<and> seen \<noteq> Some Marker_Inactive)
    \<and> list_all (\<lambda>a. ad_total a \<le> 64 \<and> ad_total a = sum_list (map snd (ad_by_participant a))
         \<and> list_all (\<lambda>(p, n). n \<le> 2) (ad_by_participant a)) [hb_pixels h, hb_inputs h]"
  using reachable_hub_ok [OF assms]
  by (auto simp: system_ok_def hub_ok_def participants_ok_def control_ok_def admissions_ok_def hub_keys_def list_all_iff
      max_participants_def max_pixel_streams_total_def max_pixel_streams_per_participant_def
      max_input_streams_total_def max_input_streams_per_participant_def)

text \<open>
  C8. A check of input that lets a request through, in any reachable state of the hub and whatever other
  operations run between its reading of the marker and its turn at the state: the token presented had not
  ended and lets its bearer control the browser; the last reading of the marker, this one or a later one,
  found no agent; and the participant the token names holds control, may control, has the subject and
  session of the token, its own token has not ended, and it gave a sign of life in the last ten seconds.
  Whoever else passes the check at that moment has the same subject and session.
\<close>

theorem input_only_in_control:
  assumes "reachable_hub e (h, seen)"
    and "assert_human_control (ce_uuid_v5 e) rd (\<lambda>k. fst (fold (run_event e) evs (k, Some (rd_marker rd)))) rd' claims h
           = (Inr (), h')"
  shows "(\<exists>t. oc_exp claims = Some t \<and> int (rd_unix rd) < t * 10 ^ 9)
    \<and> ''browser.control'' \<in> set (oc_scopes claims)
    \<and> snd (fold (run_event e) (Ev_Refresh True rd # evs) (h, seen)) = Some Marker_Inactive
    \<and> (\<exists>p pt session.
         validated_claim_session_id claims = Inr session
         \<and> participant_id_for_claims (ce_uuid_v5 e) claims session = Inr p
         \<and> hs_control_owner (hb_state h') = Some (Human p) \<and> hub_participant (hb_state h') p = Some pt
         \<and> pt_can_control pt \<and> pt_subject pt = oc_sub claims \<and> pt_session_id pt = session
         \<and> int (rd_unix rd' div 10 ^ 9) < pt_expires_at pt \<and> rd_now rd' < pt_last_seen pt + 10 * 10 ^ 9
         \<and> (\<forall>claims' h''. assert_locked (ce_uuid_v5 e) rd' claims'
                (fst (fold (run_event e) (Ev_Refresh True rd # evs) (h, seen))) = (Inr (), h'')
              \<longrightarrow> oc_sub claims' = oc_sub claims \<and> validated_claim_session_id claims' = Inr session))"
proof -
  let ?x = "fold (run_event e) (Ev_Refresh True rd # evs) (h, seen)"
  let ?k = "fst ?x" and ?later = "snd ?x"
  have due: "refresh_due True rd h" by (simp add: refresh_due_def)
  obtain t where t: "validated_claim_expiry rd claims = Inr t"
    and l: "assert_locked (ce_uuid_v5 e) rd' claims ?k = (Inr (), h')"
    using assms(2) due by (auto simp: assert_human_control_def split: sum.splits)
  have r: "reachable_hub e (?k, ?later)" using reachable_hub_fold [OF assms(1), of "Ev_Refresh True rd # evs"] by simp
  have ok: "hub_ok (hb_state ?k)" "is_agent (hs_control_owner (hb_state ?k)) \<longleftrightarrow> ?later \<noteq> None \<and> ?later \<noteq> Some Marker_Inactive"
    using reachable_hub_ok [OF r] by (simp_all add: system_ok_def)
  have known: "?later \<noteq> None" using due by (simp add: fold_knows_marker)
  let ?s = "publish_if (expire_stale rd' (hb_state ?k))"
  from assert_locked_passed [OF l] obtain p pt session where
    p: "validated_claim_session_id claims = Inr session" "participant_id_for_claims (ce_uuid_v5 e) claims session = Inr p"
      "hs_control_owner ?s = Some (Human p)" "hub_participant ?s p = Some pt" "pt_can_control pt"
      "pt_subject pt = oc_sub claims" "pt_session_id pt = session" "hb_state h' = ?s" by blast
  have "\<not> is_agent (hs_control_owner (hb_state ?k))"
    using publish_expired_facts(2) [OF ok(1), of rd'] p(3) by simp
  with ok(2) known have "?later = Some Marker_Inactive" by blast
  moreover have "\<not> stale rd' pt" by (rule expired_are_gone [OF ok(1) p(4)])
  moreover have "oc_sub claims' = oc_sub claims \<and> validated_claim_session_id claims' = Inr session"
    if "assert_locked (ce_uuid_v5 e) rd' claims' ?k = (Inr (), h'')" for claims' h''
    using assert_locked_passed [OF that] p by auto
  moreover have "\<exists>t. oc_exp claims = Some t \<and> int (rd_unix rd) < t * 10 ^ 9"
    using t by (auto simp: validated_claim_expiry_def split: option.splits if_splits)
  moreover have "''browser.control'' \<in> set (oc_scopes claims)"
    using l by (auto simp: assert_locked_def claims_have_scope_def list_ex_iff split: if_splits)
  ultimately show ?thesis using p by (auto simp: stale_iff not_le)
qed

text \<open>
  C26. Control is never taken away. A participant who controls the browser, or whom an agent
  interrupted, keeps that claim through any run of events in which it does not release, grant or leave
  itself, gives a sign of life at least every ten seconds while its token lasts (whenever an operation
  looks), and does not join again with a token that may not control; whenever the last reading of the
  marker found no agent, it controls the browser.
\<close>

theorem control_is_kept:
  assumes "reachable_hub e x" "holds (hb_state (fst x)) p" "never_yields e p evs x"
    and "fold (run_event e) evs x = (h, seen)"
  shows "holds (hb_state h) p
    \<and> (seen = None \<or> seen = Some Marker_Inactive \<longrightarrow> hs_control_owner (hb_state h) = Some (Human p))"
proof -
  have h: "holds (hb_state h) p"
    using never_yields_holds [OF reachable_hub_ok [OF assms(1)] assms(2,3)] assms(4) by simp
  have "system_ok (h, seen)" using reachable_hub_ok [OF reachable_hub_fold [OF assms(1)], of evs] assms(4) by simp
  with holds_not_agent [OF h] h show ?thesis by (auto simp: system_ok_def)
qed

text \<open>
  A limiter lets through at most its limit of requests in any window: of the instants it accepts,
  in the order of time, each is at least a window after the one a limit before it.
\<close>

theorem rate_is_bounded:
  assumes "sorted ts" "0 < window" "k + limit < length (accepted_of ts (new_rate_limit limit window))"
  shows "accepted_of ts (new_rate_limit limit window) ! k + window
    \<le> accepted_of ts (new_rate_limit limit window) ! (k + limit)"
proof -
  have "log_fits 0 [] (new_rate_limit limit window)" by (simp add: log_fits_def new_rate_limit_def)
  from accepted_fits [OF this, of ts k] assms show ?thesis by (simp add: new_rate_limit_def add.commute)
qed

end
