(* ===== verification/Collab_Example.thy ===== *)
theory Collab_Example
  imports Collab_Safety
begin

text \<open>
  The hub at work: two people join, an agent takes the browser and gives it back. The last section shows
  two things the code does: a person an agent interrupted can wait in the queue for the control it
  gets back anyway, and a message that is rejected after others expired tells nobody of it.
\<close>

definition ex_env :: "unit \<Rightarrow> unit collab_env" where
  "ex_env u = \<lparr>ce_from_str = (\<lambda>_. None), ce_uuid_v5 = (\<lambda>s. [last s]), ce_is_uuid = (\<lambda>_. True), ce_as_f64 = (\<lambda>_. None)\<rparr>"

definition ex_claims :: "char \<Rightarrow> origin_claims" where
  "ex_claims c =
     \<lparr>oc_sub = ''user-'' @ [c], oc_project_id = ''space'', oc_scopes = [''browser.view'', ''browser.control''],
      oc_exp = Some 1000, oc_actor_label = Some [c], oc_browser_session_id = Some [c]\<rparr>"

definition ex_reading :: "nat \<Rightarrow> marker_observation \<Rightarrow> reading" where
  "ex_reading t m = \<lparr>rd_checked = secs t, rd_now = secs t, rd_unix = secs t, rd_marker = m\<rparr>"

definition ex_agent :: "unit \<Rightarrow> marker_observation" where
  "ex_agent u = Marker_Active \<lparr>am_owner_id = ''o'', am_run_id = ''r'', am_display_name = ''Octo'', am_expires_at_ms = 9\<rparr>"

abbreviation A :: string where "A \<equiv> ''a''"
abbreviation B :: string where "B \<equiv> ''b''"

definition ex_start :: "unit \<Rightarrow> unit hub_event list" where
  "ex_start u =
     [Ev_Refresh True (ex_reading 1 Marker_Inactive), Ev_Join (ex_reading 1 Marker_Inactive) 1 (ex_claims (CHR ''a'')) A None,
      Ev_Join (ex_reading 1 Marker_Inactive) 2 (ex_claims (CHR ''b'')) B None]"

definition ex_system :: "unit \<Rightarrow> hub_system" where
  "ex_system u = fold (run_event (ex_env ())) (ex_start ()) (new_hub, None)"

lemma ex_reachable: "reachable_hub (ex_env ()) (ex_system ())"
  unfolding reachable_hub_def ex_system_def by blast

definition ex_later :: "unit \<Rightarrow> unit hub_event list" where
  "ex_later u =
     [Ev_Message (ex_reading 2 Marker_Inactive) B 2 Take_Control, Ev_Message (ex_reading 2 Marker_Inactive) B 2 Request_Control,
      Ev_Refresh True (ex_reading 3 (ex_agent ())), Ev_Message (ex_reading 4 Marker_Inactive) A 1 Request_Control,
      Ev_Expire (ex_reading 4 Marker_Inactive), Ev_Refresh True (ex_reading 5 Marker_Inactive)]"

lemma ex_facts:
  "hs_control_owner (hb_state (fst (ex_system ()))) = Some (Human A) \<and> snd (ex_system ()) = Some Marker_Inactive"
  "never_yields (ex_env ()) A (ex_later ()) (ex_system ())"
  by code_simp+

section \<open>Witnesses\<close>

theorem collaboration_invariant_witness:
  "length (hs_participants (hb_state (fst (ex_system ())))) \<le> 32
   \<and> may_control (hb_state (fst (ex_system ()))) A"
proof -
  have r: "reachable_hub (ex_env ()) (fst (ex_system ()), snd (ex_system ()))" using ex_reachable by simp
  note i = collaboration_invariant [OF r]
  from i have "\<forall>p. hs_control_owner (hb_state (fst (ex_system ()))) = Some (Human p) \<longrightarrow> may_control (hb_state (fst (ex_system ()))) p"
    by (elim conjE)
  with conjunct1 [OF i] ex_facts(1) show ?thesis by blast
qed

text \<open>While A's input is being checked, B is heard of and A moves no pointer.\<close>

definition ex_between :: "unit \<Rightarrow> unit hub_event list" where
  "ex_between u = [Ev_Message (ex_reading 2 Marker_Inactive) B 2 (Heartbeat_Msg None), Ev_Flush]"

definition ex_check :: "unit \<Rightarrow> (hub_error + unit) \<times> hub" where
  "ex_check u =
     assert_human_control (ce_uuid_v5 (ex_env ())) (ex_reading 2 Marker_Inactive)
       (\<lambda>k. fst (fold (run_event (ex_env ())) (ex_between ()) (k, Some (rd_marker (ex_reading 2 Marker_Inactive)))))
       (ex_reading 3 Marker_Inactive) (ex_claims (CHR ''a'')) (fst (ex_system ()))"

lemma ex_input: "fst (ex_check ()) = Inr ()"
  by code_simp

theorem input_only_in_control_witness: "\<exists>p. hs_control_owner (hb_state (snd (ex_check ()))) = Some (Human p)"
proof -
  have r: "reachable_hub (ex_env ()) (fst (ex_system ()), snd (ex_system ()))" using ex_reachable by simp
  have c: "ex_check () = (Inr (), snd (ex_check ()))" using ex_input by (simp add: prod_eq_iff)
  note i = input_only_in_control [OF r c [unfolded ex_check_def [of "()"]]]
  show ?thesis using i unfolding ex_check_def by blast
qed

definition ex_end :: "unit \<Rightarrow> hub_system" where
  "ex_end u = fold (run_event (ex_env ())) (ex_later ()) (ex_system ())"

lemma ex_end_seen: "snd (ex_end ()) = Some Marker_Inactive"
  by code_simp

theorem control_is_kept_witness: "hs_control_owner (hb_state (fst (ex_end ()))) = Some (Human A)"
proof -
  have "holds (hb_state (fst (ex_system ()))) A" using ex_facts(1) by (simp add: holds_def)
  from control_is_kept [OF ex_reachable this ex_facts(2)] ex_end_seen show ?thesis
    by (metis ex_end_def prod.collapse)
qed

theorem rate_is_bounded_witness: "accepted_of [0, 1, 2, 5] (new_rate_limit 1 2) ! 0 + 2 \<le> accepted_of [0, 1, 2, 5] (new_rate_limit 1 2) ! (0 + 1)"
proof -
  have "0 + 1 < length (accepted_of [0, 1, 2, 5] (new_rate_limit 1 2))" by code_simp
  then show ?thesis using rate_is_bounded [of "[0, 1, 2, 5]" 2 0 1] by simp
qed

section \<open>Two things the code does\<close>

text \<open>The person who controls the browser again is still in the queue for it.\<close>

lemma owner_waits_for_itself:
  "hs_control_owner (hb_state (fst (ex_end ()))) = Some (Human A) \<and> A \<in> set (hs_requests (hb_state (fst (ex_end ()))))"
  by code_simp

text \<open>After A's time ran out, B's message is rejected: A is gone, but no state was published.\<close>

definition ex_quiet :: "unit \<Rightarrow> hub_system" where
  "ex_quiet u = run_event (ex_env ()) (Ev_Message (ex_reading 8 Marker_Inactive) B 2 (Heartbeat_Msg None)) (ex_system ())"

lemma expiry_not_told:
  "let before = hb_state (fst (ex_quiet ()));
       rejected = hb_state (fst (run_event (ex_env ())
          (Ev_Message (ex_reading 12 Marker_Inactive) B 2 (Grant_Control B)) (ex_quiet ())))
   in map fst (hs_participants before) = [A, B] \<and> map fst (hs_participants rejected) = [B]
      \<and> hs_revision rejected = hs_revision before"
  by code_simp

end
