(* ===== verification/Spec2Isabelle.thy ===== *)
theory Spec2Isabelle
  imports Browser_Isolation Write_Scope_Plan Checkout_Eviction Address_Pools Git_Safety Apply_Once
    Goal_Safety Restore_Example Push_Example Hosted_Example Caller_Example
    Collab_Example
begin

text \<open>
  A verification library of Instafy's Rust services (\<open>src/packages\<close>).

  \<^bold>\<open>Local tab shares\<close> (\<open>runtime-controller/src/browser_shares.rs\<close> and its modules control.rs,
  explore.rs, video.rs). A member of a project shares one browser tab; others watch it, may ask
  for control of it or for an explore view of their own, and negotiate video.
    \<^item> \<open>Browser_Control\<close>, \<open>Browser_Explore\<close>, \<open>Browser_Video\<close>: the data, the
      validation, the state messages and the \<open>leave\<close> operation of the three books of a share;
    \<^item> \<open>Browser_Registry\<close>: \<open>Registry\<close> (create, list, connect, frame, stop, remove_viewer,
      audience_members, leave, prune) and \<open>CreateRequest::selection\<close>;
    \<^item> \<open>Browser_Messages\<close>: the handlers of the three message protocols;
    \<^item> \<open>Browser_Socket\<close>: \<open>serve\<close>, one function per branch of its select loop;
    \<^item> \<open>Browser_Invariant\<close>: what every operation keeps true of a share and of the registry;
    \<^item> \<open>Browser_Steps\<close>: the registry as a state machine, one rule per operation under its lock,
      and that every socket event is a run of it;
    \<^item> \<open>Browser_Example\<close>, \<open>Browser_Safety\<close>: a concrete run, and the properties; \<open>Browser_Isolation\<close>: what
      a viewer's socket leaves alone.

  \<^bold>\<open>Write scopes of agents\<close> (\<open>runtime-controller/src/agent_write_scopes.rs\<close>), in
  \<open>Write_Scopes\<close> (the whole module: path normalization, overlap, reading the declarations, the plan,
  the metadata claim) and \<open>Write_Scope_Plan\<close>: agents left free to write have disjoint scopes, disjoint
  scopes share no file, declared paths stay in the workspace, declarations must agree.

  \<^bold>\<open>A node's checkouts and containers\<close> (\<open>runtime-provider-core/src/allocator\<close>).
    \<^item> \<open>Checkout_Eviction\<close> (checkout_eviction.rs): the sweep that removes idle checkouts, with the scan,
      the measured sizes and the budget; nothing is evicted without its claim and its durable marker,
      and \<open>tree_size\<close> ends and adds up what it says;
    \<^item> \<open>Address_Pools\<close> (address_pools.rs, census.rs): the reclaim of Docker address space, as the list of
      commands it runs, what makes a space count as gone, and the census of runtimes.

  \<^bold>\<open>The Git services\<close> (\<open>git-service/src\<close>). Git Edge authorizes and routes a request; a shard runs
  \<open>git http-backend\<close> with a shared update hook and reports what a push moved.
    \<^item> \<open>Git_Routing\<close> (routing.rs, auth.rs): repository, scope, claims, assertion header, shard;
    \<^item> \<open>Git_Edge\<close> (bin/git-edge.rs, config.rs): \<open>handle_proxy\<close> with its route cache; results carry what
      was sent to the shard;
    \<^item> \<open>Git_Hook\<close> (policy.rs): the predicates, and the hook the module renders as a bash script,
      section by section, with git's answers as a record;
    \<^item> \<open>Git_Shard\<close> (bin/git-shard.rs, git_http_backend.rs, events.rs): \<open>handle_git\<close>, the environment of
      the backend, deletion claims, push reports;
    \<^item> \<open>Git_Safety\<close>: the properties, from the edge's decision to what the hook accepts.

  \<^bold>\<open>Receipts of applies\<close> (\<open>origin-http-server/src/apply_idempotency.rs\<close>). An apply with an
  idempotency key writes a receipt first, so that a retry is answered instead of applied again.
    \<^item> \<open>Apply_Receipts\<close>: the whole module over a receipt directory (files with their times, lock files
      with their holder), with every file system call able to fail;
    \<^item> \<open>Apply_Frames\<close>: what each operation leaves alone, by interpretations of one locale;
    \<^item> \<open>Apply_Once\<close>: the processes that share the directory as a machine (with aborts, crashes and
      failures), one owner per receipt, completion and replay, no repetition within the retention.

  \<^bold>\<open>Goals of conversations\<close> (\<open>runtime-controller/src/conversation_goals\<close>: mod.rs, policy.rs, request.rs, state.rs). A
  conversation keeps a goal in its metadata; while the goal is active the controller dispatches
  automatic turns for it, until it is done, stopped, stagnates or reaches the turn limit.
    \<^item> \<open>Goal_Policy\<close>: the goal in the metadata, updates by the runtime and by clients, the evidence of
      past turns, \<open>decide_continuation\<close>;
    \<^item> \<open>Goal_State\<close>: the rows of one conversation (jobs, runs, wakeups) and the operations on them;
    \<^item> \<open>Goal_Steps\<close>, \<open>Goal_Turns\<close>: the operations as a machine, what a stopped goal is, and how the
      turns of a revision are numbered;
    \<^item> \<open>Goal_Safety\<close>: automatic turns come to an end, and a stopped goal stays stopped.

  \<^bold>\<open>Restores of unsaved work\<close> (\<open>origin-http-server/src\<close>: restore_plan.rs, tree_merge.rs,
  publish_policy.rs, the readers of workspace_git.rs). Work that could not be published waits on a
  ref; a plan decides which of its changes come back onto the target and which stay out, and why.
    \<^item> \<open>Git_Output\<close>: the git commands as the fields of \<open>git_tool\<close>, and the readers of what
      they print (\<open>read_objects\<close>, \<open>tree_entries\<close>, \<open>entries_by_path\<close>, \<open>parse_raw_changes\<close>);
    \<^item> \<open>Git_Laws\<close>, \<open>Git_Store\<close>, \<open>Git_Index\<close>: what the code relies on of git, as the hypothesis
      \<open>git_laws g m\<close>: the model \<open>m\<close> says which entry a tree has at a path, which objects the
      store holds and what the slots of an index are, and every command that succeeds prints or does what
      git documents for them. File names are UTF-8 here. The laws leave out the sizes of blobs, and the
      lines of \<open>update-index --index-info\<close> are values, not text;
    \<^item> \<open>Git_Table\<close>: an implementation of the commands on tables for which the laws are proved;
    \<^item> \<open>Tree_Merge\<close> (tree_merge.rs): the three-way merge and the trees with some entries replaced,
      each specified path by path;
    \<^item> \<open>Publish_Policy\<close> (publish_policy.rs, paths.rs, reserved names of git.rs): why a path may not be
      published or restored;
    \<^item> \<open>Restore_Plan\<close> (restore_plan.rs): \<open>plan\<close> in its stages; \<open>portable_key\<close> and
      \<open>git check-ignore\<close> are arguments;
    \<^item> \<open>Restore_Paths\<close>, \<open>Restore_Stages\<close>, \<open>Restore_Safety\<close>: what each stage establishes, and the
      properties: no change is dropped silently, only permitted changes come in, the ref is let go only
      with all of the work; \<open>Restore_Example\<close> runs two plans.

  \<^bold>\<open>Saves on the hosted gateway\<close> (\<open>origin-http-server/src\<close>: hosted/cas.rs, hosted/change.rs,
  hosted/restore.rs, hosted/answers.rs, push.rs). Every save of a hosted space becomes one commit on
  canonical \<open>main\<close>: built from a fresh fetch, checked against what the client read, pushed as a
  fast-forward, and tried again, at most five times, when another save landed first.
    \<^item> \<open>Push_Class\<close>: what a finished push means; the hook's refusals are read back exactly.
      \<open>Push_Example\<close> shows one that is not, because its name holds the words of a lost race;
    \<^item> \<open>Save_Answers\<close>: the answers to a change that is refused;
    \<^item> \<open>Hosted_Change\<close>: uploads, reverts and restores, how each builds its tree, what it checks and what
      it refuses; \<open>save_git\<close> is what they ask of git;
    \<^item> \<open>Hosted_Cas\<close>: the keys and messages, the imports already committed, and the loop. An attempt is
      \<open>prepare\<close> (up to the commit) and \<open>deliver\<close> (the push and its outcome); the fuel of \<open>cas_loop\<close>
      is the code's own bound \<open>max_attempts\<close>;
    \<^item> \<open>Save_Laws\<close>: \<open>save_git_laws\<close>, what git promises beyond \<open>git_laws\<close> (a commit reads as its tree),
      and the lookups and trees of a save under it; \<open>Save_Table\<close> is an implementation for which they
      are proved;
    \<^item> \<open>Hosted_Uploads\<close>, \<open>Hosted_Reverts\<close>: what an accepted upload or revert changes;
    \<^item> \<open>Hosted_Safety\<close>: the loop against canonical. \<open>canonical_view\<close> is what a world says of canonical
      and of its other writers, \<open>save_laws\<close> what is relied on: \<open>main\<close> only moves to descendants, a push
      lands only on an ancestor, a refused push (or credential) took nothing, a fetch shows a \<open>main\<close>
      of its time. \<open>Hosted_Example\<close> runs a save with a lost race and a lost answer.
  Not modelled of it: the credentials and write slots of \<open>CachedCanonical\<close>, the names of authors,
  the git command lines, and the text of unexpected failures.

  \<^bold>\<open>Messages of commits\<close> (\<open>origin-http-server/src\<close>: recovery_view.rs, \<open>caller_message\<close> of
  hosted/cas.rs, \<open>resolve_gateway_identity\<close> of config.rs). Saves carry text of callers, and history is
  read back for restores and imports.
    \<^item> \<open>Caller_Text\<close>: how trailers the origin trusts are taken out of a caller's text
      (\<open>without_origin_trailers\<close>, whose nine rounds are the list of turns of \<open>clean_rounds\<close>), the
      trailer block as git finds it, recovery refs, restore messages, and which items of unsaved work
      are marked as restored;
    \<^item> \<open>Caller_Laws\<close>: the invariants of the rounds: whatever ends them, no block of what is left holds a
      trusted trailer;
    \<^item> \<open>Caller_Safety\<close>: what is committed is never read as a restore and carries no trusted trailer, and
      what a listing shows as restored is a restore. \<open>Caller_Example\<close> runs both.

  \<^bold>\<open>The shared browser\<close> (\<open>origin-http-server/src/browser_collaboration.rs\<close>, with the marker of
  browser_approval.rs and the claims of auth.rs). The people of a project share the browser of a
  runtime: one of them controls it, an agent may take it over, every input is checked here.
    \<^item> \<open>Collab_Hub\<close>: limits and validation, \<open>HubState\<close> (who is there, who controls, who waits, whom
      the agent interrupted), \<open>sync_agent_control\<close>, \<open>expire_stale\<close>, the admissions of streams;
    \<^item> \<open>Collab_Steps\<close>: \<open>join\<close>, \<open>apply_message\<close>, \<open>assert_human_control\<close>, \<open>disconnect\<close> and the
      loop of a socket. \<open>join\<close>, \<open>apply_message\<close> and \<open>assert_human_control\<close> refresh the agent's marker
      before they take the lock; each is modelled as that refresh followed by its locked part, so
      that the steps of others may come between;
    \<^item> \<open>Collab_Laws\<close>: what every operation keeps (\<open>hub_ok\<close>), and whether somebody's claim to control
      survives it (\<open>holds\<close>);
    \<^item> \<open>Collab_Safety\<close>: the hub as a state machine over any interleaving of these parts, with the last
      reading of the marker as its ghost state, and the properties: the invariant, that input passes
      only for who controls, and that control is kept until it is given up;
    \<^item> \<open>Collab_Example\<close>: a concrete run, and two runs that show where the code does not do what it
      means to (\<open>owner_waits_for_itself\<close>, \<open>expiry_not_told\<close>).
  Not modelled of it: reading and validating the marker file (its observation is an argument), the
  WebSocket transport and the JSON of its messages, and what is still queued for a connection that
  was replaced.

  \<^bold>\<open>How the code is modelled.\<close> A struct is a record, an enum a datatype, a \<open>Uuid\<close> a 128-bit
  word, a \<open>HashMap\<close> an association list with distinct keys, a \<open>HashSet\<close> a distinct
  list; text is the list of its bytes; an \<open>Instant\<close> is a number of nanoseconds. An operation under
  a lock is one function from state to state; the clock and the random identifiers it reads are
  arguments. Watch channels that outlive their owner are a store in the registry, the bounded input
  queues are lists with their capacity. JSON is the datatype of \<open>Json\<close> with objects sorted by key,
  as \<open>serde_json\<close> keeps them; parsing is a parameter. Errors are the left side of a sum.

  \<^bold>\<open>What is not modelled\<close>: network and database access, authentication of requests, the
  parsers of JSON and UUID, timers other than by their effect at a given instant, and what happens
  inside the lock of one operation while another waits.
\<close>

end
